(* ===== verification/Go_Prelude.thy ===== *)
theory Go_Prelude
  imports Main "HOL-Library.Sublist" "HOL-Library.Char_ord"
begin

text \<open>
  The part of the Go language and of its package \<^verbatim>\<open>strings\<close> and \<^verbatim>\<open>strconv\<close> that the
  modelled packages use.

  A Go string is a sequence of bytes, and a HOL \<open>string\<close> is a list of bytes
  (\<open>char\<close>), so \<open>length\<close> is Go's \<open>len\<close> and an index is a byte index.  Go's
  \<open>int\<close> is modelled by \<open>int\<close>: the modelled code only counts and indexes bytes of
  strings that fit in memory, so no \<open>int\<close> operation of it leaves the 64 bit range.

  Three ways in which an operation can end are told apart: a value (\<open>Ok\<close>), an
  error value (\<open>Err\<close>) and a run-time panic (\<open>Panic\<close>), which an out-of-range slice
  expression raises.  \<open>go_slice\<close> is the slice expression \<open>xs[a:b]\<close>, whose \<open>None\<close> is
  that panic.
\<close>

named_theorems go_string "equations of the string functions"

text \<open>A time and a duration are numbers of nanoseconds.\<close>

type_synonym duration = int
type_synonym time = int
type_synonym uuid = string

definition nil_uuid :: uuid where
  "nil_uuid = ''00000000-0000-0000-0000-000000000000''"

section \<open>Results, errors and panics\<close>

datatype ('e, 'a) outcome = Ok (the_ok: 'a) | Err (the_err: 'e) | Panic

primrec bind_outcome :: "('e, 'a) outcome \<Rightarrow> ('a \<Rightarrow> ('e, 'b) outcome) \<Rightarrow> ('e, 'b) outcome" where
  "bind_outcome (Ok a) f = f a"
| "bind_outcome (Err e) f = Err e"
| "bind_outcome Panic f = Panic"

lemma bind_outcome_iffs:
  "bind_outcome x f = Panic \<longleftrightarrow> x = Panic \<or> (\<exists>a. x = Ok a \<and> f a = Panic)"
  "bind_outcome x f = Ok b \<longleftrightarrow> (\<exists>a. x = Ok a \<and> f a = Ok b)"
  "bind_outcome x f = Err e \<longleftrightarrow> x = Err e \<or> (\<exists>a. x = Ok a \<and> f a = Err e)"
  by (cases x; auto)+

definition go_slice :: "'a list \<Rightarrow> int \<Rightarrow> int \<Rightarrow> 'a list option" where
  "go_slice xs a b =
     (if 0 \<le> a \<and> a \<le> b \<and> b \<le> int (length xs)
      then Some (take (nat (b - a)) (drop (nat a) xs)) else None)"

lemma go_slice_Some_iff:
  "(\<exists>ys. go_slice xs a b = Some ys) \<longleftrightarrow> 0 \<le> a \<and> a \<le> b \<and> b \<le> int (length xs)"
  by (simp add: go_slice_def)

lemma length_go_slice: "go_slice xs a b = Some ys \<Longrightarrow> int (length ys) = b - a"
  by (auto simp: go_slice_def split: if_splits)

lemma go_slice_nat:
  "a \<le> b \<Longrightarrow> b \<le> length xs \<Longrightarrow> go_slice xs (int a) (int b) = Some (take (b - a) (drop a xs))"
  by (simp add: go_slice_def nat_diff_distrib')

lemma go_slice_prefix:
  "0 \<le> a \<Longrightarrow> a \<le> int (length xs) \<Longrightarrow> go_slice xs 0 a = Some (take (nat a) xs)"
  by (simp add: go_slice_def)

lemma go_slice_suffix:
  "0 \<le> a \<Longrightarrow> a \<le> int (length xs) \<Longrightarrow> go_slice xs a (int (length xs)) = Some (drop (nat a) xs)"
  by (auto simp: go_slice_def nat_diff_distrib')

section \<open>Strings\<close>

abbreviation byte_of :: "char \<Rightarrow> nat" where
  "byte_of c \<equiv> (of_char c :: nat)"

definition is_digit :: "char \<Rightarrow> bool" where
  "is_digit c \<longleftrightarrow> CHR ''0'' \<le> c \<and> c \<le> CHR ''9''"

definition digit_val :: "char \<Rightarrow> int" where
  "digit_val c = int (byte_of c) - 48"

text \<open>\<open>strings.ReplaceAll(s, old, new)\<close> for an \<open>old\<close> of one byte, the only use made of it.\<close>

definition replace_byte :: "char \<Rightarrow> string \<Rightarrow> string \<Rightarrow> string" where
  "replace_byte old new s = concat (map (\<lambda>c. if c = old then new else [c]) s)"

lemma replace_byte_delete [go_string]: "replace_byte c [] s = filter (\<lambda>d. d \<noteq> c) s"
  by (induction s) (auto simp: replace_byte_def)

lemma replace_byte_single: "replace_byte c [d] s = map (\<lambda>x. if x = c then d else x) s"
  by (induction s) (auto simp: replace_byte_def)

text \<open>\<open>strings.Index(s, sub)\<close> and \<open>strings.Contains(s, sub)\<close>.\<close>

primrec str_find :: "string \<Rightarrow> string \<Rightarrow> nat option" where
  "str_find sub [] = (if sub = [] then Some 0 else None)"
| "str_find sub (c # cs) =
     (if prefix sub (c # cs) then Some 0 else map_option Suc (str_find sub cs))"

definition str_index :: "string \<Rightarrow> string \<Rightarrow> int" where
  "str_index s sub = (case str_find sub s of None \<Rightarrow> -1 | Some i \<Rightarrow> int i)"

definition str_contains :: "string \<Rightarrow> string \<Rightarrow> bool" where
  "str_contains s sub \<longleftrightarrow> 0 \<le> str_index s sub"

lemma str_find_Some:
  "str_find sub s = Some i \<Longrightarrow> i + length sub \<le> length s \<and> take (length sub) (drop i s) = sub"
proof (induction s arbitrary: i)
  case Nil
  then show ?case by (auto split: if_splits)
next
  case (Cons c cs)
  show ?case
  proof (cases "prefix sub (c # cs)")
    case True
    then have "i = 0" using Cons.prems by simp
    moreover have "length sub \<le> length (c # cs)" by (rule prefix_length_le [OF True])
    moreover have "take (length sub) (c # cs) = sub" using True by (auto simp: prefix_def)
    ultimately show ?thesis by simp
  next
    case False
    with Cons show ?thesis by auto
  qed
qed

lemma str_contains_find: "str_contains s sub \<longleftrightarrow> str_find sub s \<noteq> None"
  by (auto simp: str_contains_def str_index_def split: option.splits)

lemma str_find_None: "str_find sub s = None \<longleftrightarrow> \<not> sublist sub s"
  by (induction s) (auto simp: sublist_Cons_right)

lemma str_contains_sublist: "str_contains s sub \<longleftrightarrow> sublist sub s"
  by (simp add: str_contains_find str_find_None)

lemma str_contains_byte [go_string]: "str_contains s [c] \<longleftrightarrow> c \<in> set s"
proof -
  have "str_find [c] s \<noteq> None \<longleftrightarrow> c \<in> set s"
    by (induction s) auto
  then show ?thesis by (simp add: str_contains_find)
qed

text \<open>\<open>strings.Split(s, sep)\<close> for a separator of one byte.\<close>

fun split_byte :: "char \<Rightarrow> string \<Rightarrow> string list" where
  "split_byte sep [] = [[]]"
| "split_byte sep (c # cs) =
     (case split_byte sep cs of
        [] \<Rightarrow> [[c]]
      | w # ws \<Rightarrow> if c = sep then [] # w # ws else (c # w) # ws)"

lemma split_byte_nonempty [simp]: "split_byte sep s \<noteq> []"
  by (induction s) (auto split: list.splits)

lemma split_byte_no_sep: "w \<in> set (split_byte sep s) \<Longrightarrow> sep \<notin> set w"
proof (induction s arbitrary: w)
  case Nil
  then show ?case by simp
next
  case (Cons c cs)
  obtain v vs where v: "split_byte sep cs = v # vs"
    using split_byte_nonempty neq_Nil_conv by metis
  from Cons.IH have "\<forall>u \<in> set (v # vs). sep \<notin> set u" by (simp add: v)
  then show ?case using Cons.prems by (auto simp: v split: if_splits)
qed

lemma length_split_byte: "length (split_byte sep s) = Suc (count_list s sep)"
proof (induction s)
  case Nil
  then show ?case by simp
next
  case (Cons c cs)
  then show ?case by (auto split: list.splits)
qed

text \<open>\<open>strings.Join\<close> and the fact that it undoes \<open>strings.Split\<close>.\<close>

fun join_strings :: "string \<Rightarrow> string list \<Rightarrow> string" where
  "join_strings sep [] = []"
| "join_strings sep [w] = w"
| "join_strings sep (w # ws) = w @ sep @ join_strings sep ws"

lemma join_strings_Cons: "ws \<noteq> [] \<Longrightarrow> join_strings sep (w # ws) = w @ sep @ join_strings sep ws"
  by (cases ws) auto

lemma join_split_byte: "join_strings [sep] (split_byte sep s) = s"
proof (induction s)
  case Nil
  then show ?case by simp
next
  case (Cons c cs)
  obtain v vs where v: "split_byte sep cs = v # vs"
    using split_byte_nonempty neq_Nil_conv by metis
  show ?case
    using Cons.IH by (cases vs) (auto simp: v)
qed

text \<open>\<open>strings.HasPrefix\<close>, \<open>strings.TrimSpace\<close> on ASCII space and \<open>strings.ToLower\<close> on ASCII
  letters.\<close>

definition is_space :: "char \<Rightarrow> bool" where
  "is_space c \<longleftrightarrow> byte_of c \<in> {9, 10, 11, 12, 13, 32}"

definition trim_space :: "string \<Rightarrow> string" where
  "trim_space s = rev (dropWhile is_space (rev (dropWhile is_space s)))"

definition lower_byte :: "char \<Rightarrow> char" where
  "lower_byte c = (if CHR ''A'' \<le> c \<and> c \<le> CHR ''Z'' then char_of (byte_of c + 32) else c)"

definition to_lower :: "string \<Rightarrow> string" where
  "to_lower s = map lower_byte s"

section \<open>Numbers as text\<close>

text \<open>\<open>strconv.Itoa\<close> on non-negative numbers, and \<open>strconv.Atoi\<close>: an optional sign, then
  digits only, with an error for a value outside the 64 bit range.\<close>

fun show_nat :: "nat \<Rightarrow> string" where
  "show_nat n = (if n < 10 then [char_of (48 + n)] else show_nat (n div 10) @ [char_of (48 + n mod 10)])"

declare show_nat.simps [simp del]

definition show_int :: "int \<Rightarrow> string" where
  "show_int i = (if i < 0 then CHR ''-'' # show_nat (nat (- i)) else show_nat (nat i))"

primrec digits_val :: "string \<Rightarrow> int \<Rightarrow> int option" where
  "digits_val [] acc = Some acc"
| "digits_val (c # cs) acc = (if is_digit c then digits_val cs (10 * acc + digit_val c) else None)"

definition atoi :: "string \<Rightarrow> int option" where
  "atoi s =
     (let neg = (s \<noteq> [] \<and> hd s = CHR ''-'');
          ds = (if s \<noteq> [] \<and> (hd s = CHR ''-'' \<or> hd s = CHR ''+'') then tl s else s)
      in if ds = [] then None
         else case digits_val ds 0 of
           None \<Rightarrow> None
         | Some v \<Rightarrow>
             let i = (if neg then - v else v)
             in if - (2 ^ 63) \<le> i \<and> i < 2 ^ 63 then Some i else None)"

lemma digit_val_bounds: "is_digit c \<Longrightarrow> 0 \<le> digit_val c \<and> digit_val c \<le> 9"
  by (auto simp: is_digit_def digit_val_def less_eq_char_def)

lemma digits_val_ge: "digits_val s acc = Some v \<Longrightarrow> 0 \<le> acc \<Longrightarrow> acc \<le> v"
proof (induction s arbitrary: acc)
  case Nil
  then show ?case by simp
next
  case (Cons c cs)
  then have "is_digit c" and rec: "digits_val cs (10 * acc + digit_val c) = Some v"
    by (auto split: if_splits)
  with digit_val_bounds Cons.IH [OF rec] Cons.prems(2) show ?case by fastforce
qed

lemma digits_val_digits: "digits_val s acc \<noteq> None \<longleftrightarrow> list_all is_digit s"
  by (induction s arbitrary: acc) auto

text \<open>The conversion \<open>string(b)\<close> of a byte: the UTF-8 encoding of the code point \<open>b\<close>, which takes two
  bytes from 128 on.\<close>

definition string_of_byte :: "char \<Rightarrow> string" where
  "string_of_byte c =
     (if byte_of c < 128 then [c]
      else [char_of (192 + byte_of c div 64), char_of (128 + byte_of c mod 64)])"

lemma atoi_single [simp]:
  "atoi [c] = (if is_digit c then Some (digit_val c) else None)"
proof (cases "is_digit c")
  case True
  then have "c \<noteq> CHR ''-''" "c \<noteq> CHR ''+''" by (auto simp: is_digit_def)
  with True digit_val_bounds [OF True] show ?thesis by (simp add: atoi_def Let_def)
qed (auto simp: atoi_def Let_def)

lemma char_low: "byte_of (CHR ''-'') < 128" "byte_of (CHR ''+'') < 128"
  by simp_all

lemma is_digit_ascii: "is_digit c \<Longrightarrow> byte_of c < 128"
  by (auto simp: is_digit_def less_eq_char_def)

lemma atoi_string_of_byte:
  "atoi (string_of_byte c) = (if is_digit c then Some (digit_val c) else None)"
proof (cases "byte_of c < 128")
  case True
  then show ?thesis by (simp add: string_of_byte_def)
next
  case False
  have lt: "byte_of c < 256" by (rule nat_of_char_less_256)
  let ?h = "char_of (192 + byte_of c div 64) :: char"
  have h: "byte_of ?h = 192 + byte_of c div 64" 
  proof -
    have "192 + byte_of c div 64 < 256" using lt by linarith
    then show ?thesis by (simp add: of_char_of)
  qed
  have "\<not> is_digit ?h" using is_digit_ascii [of ?h] h by auto
  moreover have "\<not> byte_of ?h < 128" unfolding h by simp
  then have "?h \<noteq> CHR ''-''" and "?h \<noteq> CHR ''+''" using char_low by metis+
  ultimately have "atoi (string_of_byte c) = None"
    using False by (simp add: string_of_byte_def atoi_def Let_def)
  moreover have "\<not> is_digit c" using False is_digit_ascii by blast
  ultimately show ?thesis by simp
qed

text \<open>Integer division of Go rounds towards zero, and its remainder has the sign of the dividend.\<close>

definition go_quot :: "int \<Rightarrow> int \<Rightarrow> int" where
  "go_quot a b = sgn a * sgn b * (\<bar>a\<bar> div \<bar>b\<bar>)"

definition go_rem :: "int \<Rightarrow> int \<Rightarrow> int" where
  "go_rem a b = a - b * go_quot a b"

section \<open>Lists\<close>

lemma take_drop_append_drop:
  "a \<le> b \<Longrightarrow> b \<le> length xs \<Longrightarrow> take a xs @ take (b - a) (drop a xs) @ drop b xs = xs"
  by (metis append_take_drop_id drop_drop le_add_diff_inverse2)

lemma map_option_eq_Some_conv: "map_option f x = Some y \<longleftrightarrow> (\<exists>z. x = Some z \<and> y = f z)"
  by auto

end
