(* ===== verification/Go_Float64.thy ===== *)
theory Go_Float64
  imports Complex_Main "HOL-Library.Log_Nat"
begin

text \<open>
  Go's \<open>float64\<close>, as far as the modelled code computes with it: finite values, addition and
  division.  A value is represented by the rational number it stands for, and every operation
  rounds its exact result to the nearest multiple of the unit in the last place, ties to even
  (IEEE 754 binary64 with its 53 bit significand, subnormal numbers included).  Infinities and
  NaN do not occur: the code only adds and averages numbers between 0 and 1.

  The lemmas: rounding is monotone, leaves every 53 bit integer unchanged, and is idempotent.
\<close>

type_synonym float64 = rat

section \<open>Rounding to the nearest even integer\<close>

definition round_half_even :: "rat \<Rightarrow> int" where
  "round_half_even y =
     (let f = \<lfloor>y\<rfloor>; d = y - of_int f
      in if d < 1/2 then f else if 1/2 < d then f + 1 else if even f then f else f + 1)"

lemma round_half_even_of_int [simp]: "round_half_even (of_int k) = k"
  by (simp add: round_half_even_def Let_def)

lemma round_half_even_cases:
  "round_half_even y = \<lfloor>y\<rfloor> \<or> round_half_even y = \<lfloor>y\<rfloor> + 1 \<and> of_int \<lfloor>y\<rfloor> < y"
  by (auto simp: round_half_even_def Let_def)

lemma round_half_even_mono:
  assumes "x \<le> y"
  shows "round_half_even x \<le> round_half_even y"
proof (cases "\<lfloor>x\<rfloor> = \<lfloor>y\<rfloor>")
  case True
  with assms show ?thesis by (auto simp: round_half_even_def Let_def)
next
  case False
  with assms have "\<lfloor>x\<rfloor> + 1 \<le> \<lfloor>y\<rfloor>" using floor_mono [OF assms] by linarith
  then show ?thesis using round_half_even_cases [of x] round_half_even_cases [of y] by linarith
qed

lemma round_half_even_le_iff_int: "y \<le> of_int k \<Longrightarrow> round_half_even y \<le> k"
  using round_half_even_mono [of y "of_int k"] by simp

lemma round_half_even_ge_int: "of_int k \<le> y \<Longrightarrow> k \<le> round_half_even y"
  using round_half_even_mono [of "of_int k" y] by simp

section \<open>The binary exponent of a positive rational\<close>

definition pow2 :: "int \<Rightarrow> rat" where
  "pow2 k = (if 0 \<le> k then 2 ^ nat k else 1 / 2 ^ nat (- k))"

lemma pow2_powi: "pow2 k = 2 powi k"
  by (auto simp: pow2_def power_int_def field_simps)

lemma pow2_pos [simp]: "0 < pow2 k"
  by (simp add: pow2_def)

lemma pow2_nonneg [simp]: "0 \<le> pow2 k" and pow2_nonzero [simp]: "pow2 k \<noteq> 0"
  using pow2_pos [of k] by linarith+

lemma pow2_add: "pow2 (i + j) = pow2 i * pow2 j"
  by (simp add: pow2_powi power_int_add)

lemma pow2_mono: "i \<le> j \<Longrightarrow> pow2 i \<le> pow2 j"
  by (simp add: pow2_powi power_int_increasing)

lemma pow2_less_iff: "pow2 i < pow2 j \<longleftrightarrow> i < j"
  using pow2_mono [of j i] pow2_mono [of i j]
  by (metis pow2_powi linorder_not_less order_less_le power_int_strict_increasing one_less_numeral_iff semiring_norm(76))

lemma pow2_of_int: "0 \<le> k \<Longrightarrow> pow2 k = of_int (2 ^ nat k)"
  by (simp add: pow2_def)

definition binexp :: "rat \<Rightarrow> int" where
  "binexp x =
     (let (p, q) = quotient_of x; k = bitlen p - bitlen q
      in if x < pow2 k then k - 1 else k)"

lemma binexp_bounds:
  assumes "0 < x"
  shows "pow2 (binexp x) \<le> x" and "x < pow2 (binexp x + 1)"
proof -
  obtain p q where pq: "quotient_of x = (p, q)" by (cases "quotient_of x")
  have q: "0 < q" by (rule quotient_of_denom_pos [OF pq])
  have x: "x = of_int p / of_int q" by (rule quotient_of_div [OF pq])
  have p: "0 < p" using assms q by (simp add: x zero_less_divide_iff)
  have bp: "2 ^ nat (bitlen p - 1) \<le> p \<and> p < 2 ^ nat (bitlen p)"
    and bq: "2 ^ nat (bitlen q - 1) \<le> q \<and> q < 2 ^ nat (bitlen q)"
    using bitlen_bounds [OF p] bitlen_bounds [OF q] by auto
  have "bitlen p \<noteq> 0" and "bitlen q \<noteq> 0" using p q by (simp_all add: bitlen_eq_zero_iff)
  then have lp': "0 \<le> bitlen p - 1" and lq': "0 \<le> bitlen q - 1"
    using bitlen_nonneg [of p] bitlen_nonneg [of q] by linarith+
  have P1: "pow2 (bitlen p - 1) \<le> of_int p" and P2: "of_int p < pow2 (bitlen p)"
    unfolding pow2_of_int [OF lp'] pow2_of_int [OF bitlen_nonneg] of_int_le_iff of_int_less_iff
    using bp by simp_all
  have Q1: "pow2 (bitlen q - 1) \<le> of_int q" and Q2: "of_int q < pow2 (bitlen q)"
    unfolding pow2_of_int [OF lq'] pow2_of_int [OF bitlen_nonneg] of_int_le_iff of_int_less_iff
    using bq by simp_all
  let ?k = "bitlen p - bitlen q"
  have hi: "x < pow2 (?k + 1)"
  proof -
    have "pow2 (bitlen p) = pow2 (?k + 1) * pow2 (bitlen q - 1)"
      by (simp flip: pow2_add)
    also have "\<dots> \<le> pow2 (?k + 1) * of_int q"
      by (rule mult_left_mono [OF Q1]) simp
    finally have "of_int p < pow2 (?k + 1) * of_int q" using P2 by linarith
    then show ?thesis using q by (simp add: x divide_less_eq)
  qed
  have lo: "pow2 (?k - 1) \<le> x"
  proof -
    have "pow2 (?k - 1) * of_int q \<le> pow2 (?k - 1) * pow2 (bitlen q)"
      by (rule mult_left_mono) (use Q2 in auto)
    also have "\<dots> = pow2 (bitlen p - 1)" by (simp flip: pow2_add)
    finally show ?thesis using P1 q by (simp add: x le_divide_eq)
  qed
  show "pow2 (binexp x) \<le> x" using lo by (auto simp: binexp_def pq Let_def)
  show "x < pow2 (binexp x + 1)" using hi by (auto simp: binexp_def pq Let_def)
qed

lemma binexp_unique:
  assumes "pow2 e \<le> x" and "x < pow2 (e + 1)"
  shows "binexp x = e"
proof -
  have "0 < x" using assms(1) pow2_pos [of e] by linarith
  with binexp_bounds [of x] assms have "pow2 (binexp x) < pow2 (e + 1)" "pow2 e < pow2 (binexp x + 1)"
    by linarith+
  then show ?thesis by (simp add: pow2_less_iff)
qed

lemma binexp_mono: "0 < x \<Longrightarrow> x \<le> y \<Longrightarrow> binexp x \<le> binexp y"
proof -
  assume "0 < x" "x \<le> y"
  then have "pow2 (binexp x) < pow2 (binexp y + 1)"
    using binexp_bounds [of x] binexp_bounds [of y] by linarith
  then show ?thesis by (simp add: pow2_less_iff)
qed

section \<open>Rounding to binary64\<close>

definition lsb_exp :: "rat \<Rightarrow> int" where
  "lsb_exp x = max (binexp x) (-1022) - 52"

definition round64 :: "rat \<Rightarrow> float64" where
  "round64 x =
     (if x = 0 then 0
      else let u = pow2 (lsb_exp \<bar>x\<bar>) in of_int (round_half_even (x / u)) * u)"

lemma round64_0 [simp]: "round64 0 = 0"
  by (simp add: round64_def)

lemma round64_pos: "0 < x \<Longrightarrow> round64 x = of_int (round_half_even (x / pow2 (lsb_exp x))) * pow2 (lsb_exp x)"
  by (simp add: round64_def Let_def)

lemma round64_nonneg: "0 \<le> x \<Longrightarrow> 0 \<le> round64 x"
proof (cases "x = 0")
  case False
  assume "0 \<le> x"
  with False have "0 < x" by simp
  moreover from this have "0 \<le> round_half_even (x / pow2 (lsb_exp x))"
    by (intro round_half_even_ge_int) simp
  ultimately show ?thesis by (simp add: round64_pos)
qed simp

text \<open>A rounded value does not cross the power of two above it.\<close>

lemma round64_le_pow2:
  assumes "0 < x" and "x \<le> pow2 e" and "lsb_exp x \<le> e"
  shows "round64 x \<le> pow2 e"
proof -
  let ?l = "lsb_exp x"
  have split: "pow2 e = pow2 (e - ?l) * pow2 ?l" by (simp flip: pow2_add)
  have int: "pow2 (e - ?l) = of_int (2 ^ nat (e - ?l))" using assms(3) by (intro pow2_of_int) simp
  have "x / pow2 ?l \<le> pow2 (e - ?l)"
    using assms(2) unfolding split pos_divide_le_eq [OF pow2_pos] .
  then have "round_half_even (x / pow2 ?l) \<le> 2 ^ nat (e - ?l)"
    unfolding int by (rule round_half_even_le_iff_int)
  then have "of_int (round_half_even (x / pow2 ?l)) \<le> pow2 (e - ?l)"
    unfolding int of_int_le_iff .
  then show ?thesis
    unfolding split round64_pos [OF assms(1)] by (rule mult_right_mono) simp
qed

lemma round64_ge_pow2:
  assumes "pow2 e \<le> x" and "lsb_exp x \<le> e"
  shows "pow2 e \<le> round64 x"
proof -
  let ?l = "lsb_exp x"
  have x: "0 < x" using assms(1) pow2_pos [of e] by linarith
  have split: "pow2 e = pow2 (e - ?l) * pow2 ?l" by (simp flip: pow2_add)
  have int: "pow2 (e - ?l) = of_int (2 ^ nat (e - ?l))" using assms(2) by (intro pow2_of_int) simp
  have "pow2 (e - ?l) \<le> x / pow2 ?l"
    using assms(1) unfolding split pos_le_divide_eq [OF pow2_pos] .
  then have "2 ^ nat (e - ?l) \<le> round_half_even (x / pow2 ?l)"
    unfolding int by (rule round_half_even_ge_int)
  then have "pow2 (e - ?l) \<le> of_int (round_half_even (x / pow2 ?l))"
    unfolding int of_int_le_iff .
  then show ?thesis unfolding split round64_pos [OF x] by (rule mult_right_mono) simp
qed

lemma round64_mono_pos:
  assumes "0 < x" and "x \<le> y"
  shows "round64 x \<le> round64 y"
proof -
  have y: "0 < y" using assms by linarith
  show ?thesis
  proof (cases "lsb_exp x = lsb_exp y")
    case True
    have "x / pow2 (lsb_exp y) \<le> y / pow2 (lsb_exp y)"
      by (rule divide_right_mono [OF assms(2)]) simp
    then have "round_half_even (x / pow2 (lsb_exp y)) \<le> round_half_even (y / pow2 (lsb_exp y))"
      by (rule round_half_even_mono)
    then show ?thesis by (simp add: round64_pos assms(1) y True)
  next
    case False
    with binexp_mono [OF assms] have lt: "binexp x < binexp y" and ge: "-1022 \<le> binexp y"
      by (auto simp: lsb_exp_def max_def split: if_splits)
    have "round64 x \<le> pow2 (binexp y)"
    proof (rule round64_le_pow2 [OF assms(1)])
      have "x < pow2 (binexp x + 1)" by (rule binexp_bounds(2) [OF assms(1)])
      also have "\<dots> \<le> pow2 (binexp y)" using lt by (intro pow2_mono) simp
      finally show "x \<le> pow2 (binexp y)" by simp
      show "lsb_exp x \<le> binexp y" using lt ge by (simp add: lsb_exp_def)
    qed
    also have "\<dots> \<le> round64 y"
      by (rule round64_ge_pow2 [OF binexp_bounds(1) [OF y]]) (use ge in \<open>simp add: lsb_exp_def\<close>)
    finally show ?thesis .
  qed
qed

theorem round64_mono:
  assumes "0 \<le> x" and "x \<le> y"
  shows "round64 x \<le> round64 y"
  using assms round64_mono_pos [of x y] round64_nonneg [of y] by (cases "x = 0") auto

text \<open>Integers of at most 53 bits are \<open>float64\<close> values.\<close>

lemma round64_of_nat:
  assumes "n \<le> 2 ^ 53"
  shows "round64 (of_nat n) = of_nat n"
proof (cases "n = 0")
  case False
  let ?x = "of_nat n :: rat"
  have x: "0 < ?x" using False by simp
  have "pow2 (binexp ?x) \<le> 2 ^ 53"
    using binexp_bounds(1) [OF x] assms by (metis (mono_tags, lifting) of_nat_le_iff of_nat_numeral of_nat_power order_trans)
  then have "pow2 (binexp ?x) < pow2 54" by (simp add: pow2_def split: if_splits)
  then have hi: "binexp ?x \<le> 53" by (simp only: pow2_less_iff)
  have "pow2 0 < pow2 (binexp ?x + 1)"
    using binexp_bounds(2) [OF x] False by (simp add: pow2_def)
  then have lo: "0 \<le> binexp ?x" by (simp only: pow2_less_iff)
  let ?l = "lsb_exp ?x"
  show ?thesis
  proof (cases "?l \<le> 0")
    case True
    then have "?x / pow2 ?l = of_int (int n * 2 ^ nat (- ?l))"
      by (auto simp: pow2_def)
    then have "round_half_even (?x / pow2 ?l) = int n * 2 ^ nat (- ?l)"
      by (simp only: round_half_even_of_int)
    then have "round64 ?x = of_int (int n * 2 ^ nat (- ?l)) * pow2 ?l"
      by (simp only: round64_pos [OF x])
    then show ?thesis using \<open>?x / pow2 ?l = of_int (int n * 2 ^ nat (- ?l))\<close>
      by (metis nonzero_eq_divide_eq pow2_nonzero)
  next
    case False
    with hi lo have b: "binexp ?x = 53" by (simp add: lsb_exp_def)
    have "pow2 53 \<le> ?x" using binexp_bounds(1) [OF x] by (simp add: b)
    then have "2 ^ 53 \<le> n"
      by (simp add: pow2_def)
    with assms have n: "n = 2 ^ 53" by simp
    have "?l = 1" by (simp add: lsb_exp_def b)
    moreover have "?x / pow2 1 = of_int (2 ^ 52)" by (simp add: n pow2_def)
    ultimately have "round64 ?x = of_int (2 ^ 52) * pow2 1"
      by (simp only: round64_pos [OF x] round_half_even_of_int)
    then show ?thesis by (simp add: n pow2_def)
  qed
qed simp

lemma round64_1 [simp]: "round64 1 = 1"
  using round64_of_nat [of 1] by simp

lemma round64_in_unit: "0 \<le> x \<Longrightarrow> x \<le> 1 \<Longrightarrow> 0 \<le> round64 x \<and> round64 x \<le> 1"
  using round64_mono [of x 1] round64_nonneg [of x] by simp

section \<open>Operations\<close>

definition f64_add :: "float64 \<Rightarrow> float64 \<Rightarrow> float64" where
  "f64_add a b = round64 (a + b)"

definition f64_div :: "float64 \<Rightarrow> float64 \<Rightarrow> float64" where
  "f64_div a b = round64 (a / b)"

definition f64_mul :: "float64 \<Rightarrow> float64 \<Rightarrow> float64" where
  "f64_mul a b = round64 (a * b)"

text \<open>The conversion to an integer type, for values in its range.\<close>

definition f64_trunc :: "float64 \<Rightarrow> int" where
  "f64_trunc x = (if 0 \<le> x then \<lfloor>x\<rfloor> else - \<lfloor>- x\<rfloor>)"

end
