(* ===== verification/Dlp_Types.thy ===== *)
theory Dlp_Types
  imports Go_Prelude Go_Float64
begin

text \<open>
  The data types of the DLP packages (\<^verbatim>\<open>pkg/dlp/types/types.go\<close>).  \<open>PIIType\<close> is a string type
  in Go and stays one here, since tenants may define patterns of their own type; risk levels are
  only ever one of the four constants.  A redaction strategy may be any string (the assembler
  converts one from job metadata), so there is a constructor for an unknown one.  Times and
  durations are nanoseconds; a UUID is its canonical text, and the nil UUID is its own constant.
\<close>

type_synonym PIIType = string

definition PIITypeSSN :: PIIType where [simp]: "PIITypeSSN = ''ssn''"
definition PIITypeCreditCard :: PIIType where [simp]: "PIITypeCreditCard = ''credit_card''"
definition PIITypeEmail :: PIIType where [simp]: "PIITypeEmail = ''email''"
definition PIITypePhoneNumber :: PIIType where [simp]: "PIITypePhoneNumber = ''phone_number''"
definition PIITypeIPAddress :: PIIType where [simp]: "PIITypeIPAddress = ''ip_address''"
definition PIITypeBankAccount :: PIIType where [simp]: "PIITypeBankAccount = ''bank_account''"
definition PIITypePassport :: PIIType where [simp]: "PIITypePassport = ''passport''"
definition PIITypeDriversLicense :: PIIType where [simp]: "PIITypeDriversLicense = ''drivers_license''"
definition PIITypeDateOfBirth :: PIIType where [simp]: "PIITypeDateOfBirth = ''date_of_birth''"
definition PIITypeAddress :: PIIType where [simp]: "PIITypeAddress = ''address''"
definition PIITypeName :: PIIType where [simp]: "PIITypeName = ''name''"
definition PIITypeCustom :: PIIType where [simp]: "PIITypeCustom = ''custom''"

datatype RiskLevel = RiskLevelLow | RiskLevelMedium | RiskLevelHigh | RiskLevelCritical

datatype RedactionStrategy =
    RedactionNone
  | RedactionMask
  | RedactionReplace
  | RedactionHash
  | RedactionRemove
  | RedactionTokenize
  | RedactionOther string

text \<open>The conversion \<open>types.RedactionStrategy(s)\<close> of a string.\<close>

definition strategy_of_string :: "string \<Rightarrow> RedactionStrategy" where
  "strategy_of_string s =
     (if s = ''none'' then RedactionNone
      else if s = ''mask'' then RedactionMask
      else if s = ''replace'' then RedactionReplace
      else if s = ''hash'' then RedactionHash
      else if s = ''remove'' then RedactionRemove
      else if s = ''tokenize'' then RedactionTokenize
      else RedactionOther s)"

record Finding =
  Finding_ID :: string
  Finding_Type :: PIIType
  Finding_Pattern :: string
  Finding_Value :: string
  Finding_Confidence :: float64
  Finding_StartPos :: int
  Finding_EndPos :: int
  Finding_Context :: string
  Finding_RiskLevel :: RiskLevel
  Finding_Redacted :: bool
  Finding_RedactedWith :: string

record ScanMetadata =
  Meta_ScanDuration :: duration
  Meta_ContentLength :: int
  Meta_PatternsScanned :: int
  Meta_ProcessingTime :: duration
  Meta_ScannerVersion :: string

record ScanResult =
  Scan_ChunkID :: string
  Scan_ScannedAt :: time
  Scan_Scanner :: string
  Scan_TotalMatches :: int
  Scan_HighRiskCount :: int
  Scan_Findings :: "Finding list"
  Scan_RiskScore :: float64
  Scan_IsCompliant :: bool
  Scan_Metadata :: ScanMetadata

record ComplianceRule =
  Rule_Regulation :: string
  Rule_Rule :: string
  Rule_PIITypes :: "PIIType list"
  Rule_Required :: bool
  Rule_Parameters :: "string \<rightharpoonup> string"

record ComplianceViolation =
  Viol_Rule :: string
  Viol_PIIType :: PIIType
  Viol_Severity :: string
  Viol_Description :: string
  Viol_FindingIDs :: "string list"

record ComplianceResult =
  Comp_IsCompliant :: bool
  Comp_Violations :: "ComplianceViolation list"
  Comp_Regulation :: string
  Comp_CheckedAt :: time
  Comp_RequiredActions :: "string list"

record CustomPattern =
  Custom_Name :: string
  Custom_Type :: PIIType
  Custom_Regex :: string
  Custom_Description :: string
  Custom_Enabled :: bool

record ScanConfig =
  Cfg_TenantID :: uuid
  Cfg_EnabledPatterns :: "PIIType list"
  Cfg_DisabledPatterns :: "PIIType list"
  Cfg_MinConfidence :: float64
  Cfg_ScanTimeout :: duration
  Cfg_CustomPatterns :: "CustomPattern list"
  Cfg_ComplianceRules :: "ComplianceRule list"
  Cfg_RedactionMode :: RedactionStrategy
  Cfg_ContextWindow :: int
  Cfg_ScanMetadata :: bool

record Match =
  Match_Value :: string
  Match_StartPos :: int
  Match_EndPos :: int
  Match_Context :: string
  Match_Confidence :: float64

record PatternInfo =
  Info_Name :: string
  Info_Type :: PIIType
  Info_Description :: string
  Info_Regex :: string
  Info_Examples :: "string list"

record ChunkContent =
  Chunk_ID :: string
  Chunk_Content :: string
  Chunk_Metadata :: "(string \<times> string) list"
  Chunk_Type :: string

text \<open>Risk levels are ordered by severity.\<close>

instantiation RiskLevel :: linorder
begin

fun risk_rank :: "RiskLevel \<Rightarrow> nat" where
  "risk_rank RiskLevelLow = 0"
| "risk_rank RiskLevelMedium = 1"
| "risk_rank RiskLevelHigh = 2"
| "risk_rank RiskLevelCritical = 3"

definition less_eq_RiskLevel :: "RiskLevel \<Rightarrow> RiskLevel \<Rightarrow> bool" where
  "less_eq_RiskLevel a b \<longleftrightarrow> risk_rank a \<le> risk_rank b"

definition less_RiskLevel :: "RiskLevel \<Rightarrow> RiskLevel \<Rightarrow> bool" where
  "less_RiskLevel a b \<longleftrightarrow> risk_rank a < risk_rank b"

instance
proof
  fix x y z :: RiskLevel
  show "x < y \<longleftrightarrow> x \<le> y \<and> \<not> y \<le> x" by (auto simp: less_eq_RiskLevel_def less_RiskLevel_def)
  show "x \<le> x" by (simp add: less_eq_RiskLevel_def)
  show "x \<le> y \<Longrightarrow> y \<le> z \<Longrightarrow> x \<le> z" by (simp add: less_eq_RiskLevel_def)
  show "x \<le> y \<Longrightarrow> y \<le> x \<Longrightarrow> x = y"
    by (cases x; cases y) (simp_all add: less_eq_RiskLevel_def)
  show "x \<le> y \<or> y \<le> x" by (auto simp: less_eq_RiskLevel_def)
qed

end

end
