(* ===== verification/Go_Regexp.thy ===== *)
theory Go_Regexp
  imports Go_Prelude
begin

text \<open>
  The part of Go's package \<^verbatim>\<open>regexp\<close> the pattern matchers use: character classes, ASCII word
  boundaries, concatenation, alternation and greedy repetition, matched leftmost-first.

  \<open>ends r s i\<close> lists the positions where a match of \<open>r\<close> that starts at \<open>i\<close> can end, in the
  order of preference (earlier alternatives first, longer repetitions first), so the head of
  the list is the match Go reports at \<open>i\<close>.  \<open>find_all r s i\<close> is \<open>FindAllStringIndex\<close>: the
  successive non-overlapping leftmost matches.  All the patterns of the code are built from
  positive ASCII classes, so no match starts, ends or continues inside a multi-byte rune, and
  matching bytes is matching runes.  They never match the empty string, so the loop's rule for
  empty matches is not modelled: \<open>find_all\<close> passes over such a match.

  The lemmas: \<open>ends\<close> computes exactly the declarative relation \<open>rx_match\<close>; matches are in
  bounds, ordered and disjoint, and no position where the pattern matches is missed.
\<close>

section \<open>Syntax\<close>

datatype rx =
    Cls "(char \<times> char) list"
  | WordB
  | Emp
  | Cat rx rx
  | Alt rx rx
  | Star rx

abbreviation rx_opt :: "rx \<Rightarrow> rx" where
  "rx_opt r \<equiv> Alt r Emp"

primrec rx_rep :: "nat \<Rightarrow> rx \<Rightarrow> rx" where
  "rx_rep 0 r = Emp"
| "rx_rep (Suc n) r = Cat r (rx_rep n r)"

primrec rx_upto :: "nat \<Rightarrow> rx \<Rightarrow> rx" where
  "rx_upto 0 r = Emp"
| "rx_upto (Suc n) r = rx_opt (Cat r (rx_upto n r))"

abbreviation rx_plus :: "rx \<Rightarrow> rx" where
  "rx_plus r \<equiv> Cat r (Star r)"

primrec rx_cats :: "rx list \<Rightarrow> rx" where
  "rx_cats [] = Emp"
| "rx_cats (r # rs) = Cat r (rx_cats rs)"

primrec rx_alts :: "rx \<Rightarrow> rx list \<Rightarrow> rx" where
  "rx_alts r [] = r"
| "rx_alts r (r' # rs) = Alt r (rx_alts r' rs)"

abbreviation rx_char :: "char \<Rightarrow> rx" where
  "rx_char c \<equiv> Cls [(c, c)]"

section \<open>Matching\<close>

definition in_cls :: "(char \<times> char) list \<Rightarrow> char \<Rightarrow> bool" where
  "in_cls rs c \<longleftrightarrow> list_ex (\<lambda>(a, b). a \<le> c \<and> c \<le> b) rs"

definition word_char :: "char \<Rightarrow> bool" where
  "word_char c \<longleftrightarrow>
     in_cls [(CHR ''0'', CHR ''9''), (CHR ''A'', CHR ''Z''), (CHR ''a'', CHR ''z''), (CHR ''_'', CHR ''_'')] c"

definition at_word_boundary :: "string \<Rightarrow> nat \<Rightarrow> bool" where
  "at_word_boundary s i \<longleftrightarrow>
     (0 < i \<and> i \<le> length s \<and> word_char (s ! (i - 1))) \<noteq> (i < length s \<and> word_char (s ! i))"

primrec star_ends :: "(nat \<Rightarrow> nat list) \<Rightarrow> nat \<Rightarrow> nat \<Rightarrow> nat list" where
  "star_ends f 0 i = [i]"
| "star_ends f (Suc n) i =
     concat (map (\<lambda>e. if i < e then star_ends f n e else []) (f i)) @ [i]"

primrec ends :: "rx \<Rightarrow> string \<Rightarrow> nat \<Rightarrow> nat list" where
  "ends (Cls rs) s i = (if i < length s \<and> in_cls rs (s ! i) then [Suc i] else [])"
| "ends WordB s i = (if at_word_boundary s i then [i] else [])"
| "ends Emp s i = [i]"
| "ends (Cat a b) s i = concat (map (ends b s) (ends a s i))"
| "ends (Alt a b) s i = ends a s i @ ends b s i"
| "ends (Star a) s i = star_ends (ends a s) (length s - i) i"

function find_all :: "rx \<Rightarrow> string \<Rightarrow> nat \<Rightarrow> (nat \<times> nat) list" where
  "find_all r s i =
     (if length s \<le> i then []
      else case ends r s i of
             [] \<Rightarrow> find_all r s (Suc i)
           | e # _ \<Rightarrow> if i < e then (i, e) # find_all r s e else find_all r s (Suc i))"
  by pat_completeness auto
termination
  by (relation "measure (\<lambda>(r, s, i). length s - i)") auto

declare find_all.simps [simp del]

section \<open>The declarative relation\<close>

inductive rx_match :: "rx \<Rightarrow> string \<Rightarrow> nat \<Rightarrow> nat \<Rightarrow> bool" where
  cls: "i < length s \<Longrightarrow> in_cls rs (s ! i) \<Longrightarrow> rx_match (Cls rs) s i (Suc i)"
| word_b: "at_word_boundary s i \<Longrightarrow> rx_match WordB s i i"
| emp: "rx_match Emp s i i"
| cat: "rx_match a s i j \<Longrightarrow> rx_match b s j e \<Longrightarrow> rx_match (Cat a b) s i e"
| alt1: "rx_match a s i e \<Longrightarrow> rx_match (Alt a b) s i e"
| alt2: "rx_match b s i e \<Longrightarrow> rx_match (Alt a b) s i e"
| star_nil: "rx_match (Star a) s i i"
| star_step: "rx_match a s i j \<Longrightarrow> i < j \<Longrightarrow> rx_match (Star a) s j e \<Longrightarrow> rx_match (Star a) s i e"

inductive_simps rx_match_simps:
  "rx_match (Cls rs) s i e"
  "rx_match WordB s i e"
  "rx_match Emp s i e"
  "rx_match (Cat a b) s i e"
  "rx_match (Alt a b) s i e"

lemma rx_match_StarE [consumes 1, case_names zero more]:
  assumes "rx_match (Star a) s i e"
  obtains "e = i" | j where "rx_match a s i j" "i < j" "rx_match (Star a) s j e"
  using assms by (cases rule: rx_match.cases) auto

lemma rx_match_bounds: "rx_match r s i e \<Longrightarrow> i \<le> length s \<Longrightarrow> i \<le> e \<and> e \<le> length s"
  by (induction rule: rx_match.induct) auto

lemma star_ends_sound:
  assumes "\<And>i e. e \<in> set (f i) \<Longrightarrow> rx_match a s i e"
  shows "e \<in> set (star_ends f n i) \<Longrightarrow> rx_match (Star a) s i e"
  by (induction n arbitrary: i) (auto intro: rx_match.intros dest: assms split: if_splits)

lemma star_ends_complete:
  assumes f: "\<And>i e. rx_match a s i e \<Longrightarrow> i \<le> length s \<Longrightarrow> e \<in> set (f i)"
  shows "rx_match (Star a) s i e \<Longrightarrow> i \<le> length s \<Longrightarrow> length s - i \<le> n \<Longrightarrow> e \<in> set (star_ends f n i)"
proof (induction n arbitrary: i)
  case 0
  from 0(1) show ?case
  proof (cases rule: rx_match_StarE)
    case zero
    then show ?thesis by simp
  next
    case (more j)
    with rx_match_bounds [OF more(1)] 0(2,3) have False by simp
    then show ?thesis ..
  qed
next
  case (Suc n)
  from Suc.prems(1) show ?case
  proof (cases rule: rx_match_StarE)
    case zero
    then show ?thesis by simp
  next
    case (more j)
    have j: "j \<le> length s" using rx_match_bounds [OF more(1)] Suc.prems(2) by simp
    then have "e \<in> set (star_ends f n j)" using Suc more by simp
    then show ?thesis using f [OF more(1) Suc.prems(2)] more(2) by auto
  qed
qed

text \<open>The matcher computes the relation.\<close>

lemma ends_sound: "e \<in> set (ends r s i) \<Longrightarrow> rx_match r s i e"
proof (induction r arbitrary: i e)
  case (Star r)
  then show ?case using star_ends_sound [of "ends r s"] by auto
next
  case (Cat a b)
  then show ?case by (auto simp: rx_match_simps) blast
qed (auto simp: rx_match_simps split: if_splits)

lemma ends_complete: "rx_match r s i e \<Longrightarrow> i \<le> length s \<Longrightarrow> e \<in> set (ends r s i)"
proof (induction r arbitrary: i e)
  case (Cat a b)
  then obtain j where j: "rx_match a s i j" "rx_match b s j e" by (auto simp: rx_match_simps)
  then have "j \<le> length s" using rx_match_bounds Cat.prems by blast
  then show ?case using Cat.IH j Cat.prems(2) by auto blast
next
  case (Star r)
  then show ?case using star_ends_complete [of r s "ends r s"] by simp
qed (auto simp: rx_match_simps)

theorem ends_iff_match: "i \<le> length s \<Longrightarrow> e \<in> set (ends r s i) \<longleftrightarrow> rx_match r s i e"
  using ends_sound ends_complete by blast

lemma ends_bounds: "e \<in> set (ends r s i) \<Longrightarrow> i \<le> length s \<Longrightarrow> i \<le> e \<and> e \<le> length s"
  using ends_sound rx_match_bounds by blast

section \<open>Properties of \<open>find_all\<close>\<close>

abbreviation disjoint_spans :: "(nat \<times> nat) list \<Rightarrow> bool" where
  "disjoint_spans ps \<equiv> sorted_wrt (\<lambda>p q. snd p \<le> fst q) ps"

lemma find_all_end [simp]: "length s \<le> i \<Longrightarrow> find_all r s i = []"
  by (simp add: find_all.simps [of r s i])

lemma find_all_skip:
  "i < length s \<Longrightarrow> ends r s i = [] \<or> \<not> i < hd (ends r s i) \<Longrightarrow> find_all r s i = find_all r s (Suc i)"
  by (auto simp: find_all.simps [of r s i] split: list.splits)

lemma find_all_take:
  "i < length s \<Longrightarrow> ends r s i = e # es \<Longrightarrow> i < e \<Longrightarrow> find_all r s i = (i, e) # find_all r s e"
  by (simp add: find_all.simps [of r s i])

text \<open>Induction along the scan: past the end, nothing found here, or a match taken.\<close>

lemma find_all_scan_induct [case_names stop skip hit]:
  assumes "\<And>i. length s \<le> i \<Longrightarrow> P i"
    and "\<And>i. i < length s \<Longrightarrow> ends r s i = [] \<or> \<not> i < hd (ends r s i) \<Longrightarrow>
      find_all r s i = find_all r s (Suc i) \<Longrightarrow> P (Suc i) \<Longrightarrow> P i"
    and "\<And>i e es. i < length s \<Longrightarrow> ends r s i = e # es \<Longrightarrow> i < e \<Longrightarrow> e \<le> length s \<Longrightarrow>
      find_all r s i = (i, e) # find_all r s e \<Longrightarrow> P e \<Longrightarrow> P i"
  shows "P i"
proof (induction "length s - i" arbitrary: i rule: less_induct)
  case less
  show ?case
  proof (cases "i < length s")
    case False
    then show ?thesis using assms(1) by simp
  next
    case i: True
    show ?thesis
    proof (cases "ends r s i = [] \<or> \<not> i < hd (ends r s i)")
      case True
      have "P (Suc i)" by (rule less) (use i in simp)
      then show ?thesis using assms(2) [OF i True find_all_skip [OF i True]] by simp
    next
      case False
      then obtain e es where e: "ends r s i = e # es" "i < e" by (cases "ends r s i") auto
      then have "e \<le> length s" using ends_bounds [of e r s i] i by simp
      moreover have "P e" by (rule less) (use i e in simp)
      ultimately show ?thesis using assms(3) [OF i e _ find_all_take [OF i e]] by simp
    qed
  qed
qed

lemma find_all_in_bounds:
  "(a, b) \<in> set (find_all r s i) \<Longrightarrow> i \<le> a \<and> a < b \<and> b \<le> length s"
  by (induction i rule: find_all_scan_induct [of s _ r]) fastforce+

lemma find_all_is_match:
  "(a, b) \<in> set (find_all r s i) \<Longrightarrow> rx_match r s a b \<and> hd (ends r s a) = b"
  by (induction i rule: find_all_scan_induct [of s _ r]) (auto intro: ends_sound)

lemma find_all_disjoint: "disjoint_spans (find_all r s i)"
  by (induction i rule: find_all_scan_induct [of s _ r]) (auto dest: find_all_in_bounds)

text \<open>No position where the pattern has a non-empty preferred match is missed.\<close>

lemma find_all_covers:
  "i \<le> a \<Longrightarrow> a < length s \<Longrightarrow> ends r s a = e # es \<Longrightarrow> a < e \<Longrightarrow>
   \<exists>(x, y) \<in> set (find_all r s i). x \<le> a \<and> a < y"
proof (induction i rule: find_all_scan_induct [of s _ r])
  case (stop i)
  then show ?case by simp
next
  case (skip i)
  then have "i \<noteq> a" by auto
  with skip show ?case by simp
next
  case (hit i e' es')
  then show ?case by (cases "a < e'") auto
qed

end
