(* ===== verification/Dlp_Patterns.thy ===== *)
theory Dlp_Patterns
  imports Dlp_Types Go_Regexp
begin

text \<open>
  The PII pattern matchers (\<^verbatim>\<open>pkg/dlp/patterns/matchers.go\<close>): the five regular expressions, the
  validity checks behind them (SSN ranges, Luhn, IPv4 octets), the confidence scores, and the
  registry.  A \<open>Match\<close> method is \<open>None\<close> where Go would panic.

  The Go interface \<^verbatim>\<open>PatternMatcher\<close> is the locale \<open>pattern_matcher\<close>; its laws are what the
  scanner and the redaction engine rely on, and every matcher of the code satisfies them.
\<close>

section \<open>Helpers of the matchers\<close>

definition extractContext :: "string \<Rightarrow> int \<Rightarrow> int \<Rightarrow> int \<Rightarrow> string option" where
  "extractContext content start end windowSize =
     (let contextStart = start - windowSize;
          contextStart = (if contextStart < 0 then 0 else contextStart);
          contextEnd = end + windowSize;
          contextEnd = (if contextEnd > int (length content) then int (length content) else contextEnd)
      in go_slice content contextStart contextEnd)"

definition isTypeEnabled :: "PIIType \<Rightarrow> ScanConfig \<Rightarrow> bool" where
  "isTypeEnabled piiType config =
     (if piiType \<in> set (Cfg_DisabledPatterns config) then False
      else if Cfg_EnabledPatterns config = [] then True
      else piiType \<in> set (Cfg_EnabledPatterns config))"

definition strip_formatting :: "string \<Rightarrow> string" where
  "strip_formatting s = replace_byte (CHR '' '') [] (replace_byte (CHR ''-'') [] s)"

lemma strip_formatting_filter:
  "strip_formatting s = filter (\<lambda>c. c \<noteq> CHR ''-'' \<and> c \<noteq> CHR '' '') s"
  by (simp add: strip_formatting_def go_string conj_commute)

text \<open>The loop all \<open>Match\<close> methods share: each candidate of the pattern that passes the method's
  guard becomes a match.\<close>

primrec match_loop ::
  "(string \<Rightarrow> bool) \<Rightarrow> (string \<Rightarrow> float64) \<Rightarrow> string \<Rightarrow> (nat \<times> nat) list \<Rightarrow> Match list option" where
  "match_loop ok conf content [] = Some []"
| "match_loop ok conf content (p # ps) =
     (let a = fst p; b = snd p; v = take (b - a) (drop a content)
      in if ok v
         then (case extractContext content (int a) (int b) 20 of
                 None \<Rightarrow> None
               | Some ctx \<Rightarrow>
                   map_option
                     ((#) \<lparr>Match_Value = v, Match_StartPos = int a, Match_EndPos = int b,
                           Match_Context = ctx, Match_Confidence = conf v\<rparr>)
                     (match_loop ok conf content ps))
         else match_loop ok conf content ps)"

section \<open>Social security numbers\<close>

abbreviation rx_digit :: rx where
  "rx_digit \<equiv> Cls [(CHR ''0'', CHR ''9'')]"

text \<open>The class \<^verbatim>\<open>[-\s]\<close>; Go's \<^verbatim>\<open>\s\<close> is tab, newline, form feed, carriage return and space.\<close>

abbreviation rx_dash_space :: rx where
  "rx_dash_space \<equiv>
     Cls [(CHR ''-'', CHR ''-''), (CHR 0x09, CHR 0x0A), (CHR 0x0C, CHR 0x0D), (CHR '' '', CHR '' '')]"

definition ssn_pattern :: rx where
  "ssn_pattern =
     rx_cats [WordB, rx_rep 3 rx_digit, rx_opt rx_dash_space, rx_rep 2 rx_digit,
              rx_opt rx_dash_space, rx_rep 4 rx_digit, WordB]"

definition isValidSSN :: "string \<Rightarrow> bool" where
  "isValidSSN ssn =
     (if length ssn \<noteq> 9 then False
      else let first3 = take 3 ssn
           in if first3 = ''000'' \<or> first3 = ''666'' \<or> first3 ! 0 = CHR ''9'' then False
              else if take 2 (drop 3 ssn) = ''00'' then False
              else if drop 5 ssn = ''0000'' then False
              else True)"

definition SSN_GetConfidenceScore :: "string \<Rightarrow> float64" where
  "SSN_GetConfidenceScore m =
     (let digits = strip_formatting m
      in if length digits \<noteq> 9 then 0
         else if \<not> isValidSSN digits then round64 (3/10)
         else if str_contains m ''-'' \<or> str_contains m '' '' then round64 (9/10)
         else round64 (7/10))"

definition SSN_Match :: "string \<Rightarrow> Match list option" where
  "SSN_Match content =
     match_loop (\<lambda>v. let value = strip_formatting v in length value = 9 \<and> isValidSSN value)
       SSN_GetConfidenceScore content (find_all ssn_pattern content 0)"

section \<open>Credit card numbers\<close>

definition credit_card_pattern :: rx where
  "credit_card_pattern =
     rx_cats
       [WordB,
        rx_alts (rx_cats [rx_char CHR ''4'', rx_rep 12 rx_digit, rx_opt (rx_rep 3 rx_digit)])
          [rx_cats [rx_char CHR ''5'', Cls [(CHR ''1'', CHR ''5'')], rx_rep 14 rx_digit],
           rx_cats [rx_char CHR ''3'', Cls [(CHR ''4'', CHR ''4''), (CHR ''7'', CHR ''7'')], rx_rep 13 rx_digit],
           rx_cats [rx_char CHR ''3'', rx_rep 13 rx_digit],
           rx_cats [rx_char CHR ''6'',
             Alt (rx_cats [rx_char CHR ''0'', rx_char CHR ''1'', rx_char CHR ''1''])
                 (Cat (rx_char CHR ''5'') (rx_rep 2 rx_digit)),
             rx_rep 12 rx_digit]],
        Star (Cat (rx_opt rx_dash_space) (rx_rep 4 rx_digit)),
        WordB]"

text \<open>The Luhn loop, from the last digit to the first.\<close>

primrec luhn_loop :: "string \<Rightarrow> int \<Rightarrow> bool \<Rightarrow> bool" where
  "luhn_loop [] acc alternate = (acc mod 10 = 0)"
| "luhn_loop (c # cs) acc alternate =
     (case atoi (string_of_byte c) of
        None \<Rightarrow> False
      | Some digit \<Rightarrow>
          let digit = (if alternate
                       then (let digit = digit * 2 in if digit > 9 then digit mod 10 + 1 else digit)
                       else digit)
          in luhn_loop cs (acc + digit) (\<not> alternate))"

definition isValidCreditCard :: "string \<Rightarrow> bool" where
  "isValidCreditCard number = luhn_loop (rev number) 0 False"

definition CreditCard_GetConfidenceScore :: "string \<Rightarrow> float64" where
  "CreditCard_GetConfidenceScore m =
     (let digits = strip_formatting m
      in if \<not> isValidCreditCard digits then 0
         else if str_contains m ''-'' \<or> str_contains m '' '' then round64 (9/10)
         else round64 (8/10))"

definition CreditCard_Match :: "string \<Rightarrow> Match list option" where
  "CreditCard_Match content =
     match_loop (\<lambda>v. isValidCreditCard (strip_formatting v))
       CreditCard_GetConfidenceScore content (find_all credit_card_pattern content 0)"

section \<open>Email addresses\<close>

definition email_pattern :: rx where
  "email_pattern =
     rx_cats
       [WordB,
        rx_plus (Cls [(CHR ''A'', CHR ''Z''), (CHR ''a'', CHR ''z''), (CHR ''0'', CHR ''9''),
                      (CHR ''.'', CHR ''.''), (CHR ''_'', CHR ''_''), (CHR ''%'', CHR ''%''),
                      (CHR ''+'', CHR ''+''), (CHR ''-'', CHR ''-'')]),
        rx_char CHR ''@'',
        rx_plus (Cls [(CHR ''A'', CHR ''Z''), (CHR ''a'', CHR ''z''), (CHR ''0'', CHR ''9''),
                      (CHR ''.'', CHR ''.''), (CHR ''-'', CHR ''-'')]),
        rx_char CHR ''.'',
        (let top = Cls [(CHR ''A'', CHR ''Z''), (CHR ''|'', CHR ''|''), (CHR ''a'', CHR ''z'')]
         in rx_cats [top, top, Star top]),
        WordB]"

definition Email_GetConfidenceScore :: "string \<Rightarrow> float64" where
  "Email_GetConfidenceScore m =
     (if \<not> str_contains m ''@'' \<or> \<not> str_contains m ''.'' then 0
      else let parts = split_byte (CHR ''@'') m
           in if length parts \<noteq> 2 then 0 else round64 (9/10))"

definition Email_Match :: "string \<Rightarrow> Match list option" where
  "Email_Match content =
     match_loop (\<lambda>_. True) Email_GetConfidenceScore content (find_all email_pattern content 0)"

section \<open>Phone numbers\<close>

abbreviation rx_phone_sep :: rx where
  "rx_phone_sep \<equiv>
     Cls [(CHR ''-'', CHR ''-''), (CHR ''.'', CHR ''.''), (CHR 0x09, CHR 0x0A),
          (CHR 0x0C, CHR 0x0D), (CHR '' '', CHR '' '')]"

definition phone_pattern :: rx where
  "phone_pattern =
     rx_cats
       [WordB,
        rx_opt (rx_cats [rx_opt (rx_char CHR ''+''), rx_char CHR ''1'', rx_opt rx_phone_sep]),
        rx_opt (rx_char CHR ''(''), rx_rep 3 rx_digit, rx_opt (rx_char CHR '')''),
        rx_opt rx_phone_sep, rx_rep 3 rx_digit, rx_opt rx_phone_sep, rx_rep 4 rx_digit, WordB]"

definition PhoneNumber_GetConfidenceScore :: "string \<Rightarrow> float64" where
  "PhoneNumber_GetConfidenceScore m =
     (if str_contains m ''('' \<and> str_contains m '')'' then round64 (9/10)
      else if str_contains m ''-'' \<or> str_contains m ''.'' then round64 (8/10)
      else round64 (7/10))"

definition PhoneNumber_Match :: "string \<Rightarrow> Match list option" where
  "PhoneNumber_Match content =
     match_loop (\<lambda>_. True) PhoneNumber_GetConfidenceScore content (find_all phone_pattern content 0)"

section \<open>IP addresses\<close>

definition ip_pattern :: rx where
  "ip_pattern =
     (let octet = Cat rx_digit (rx_upto 2 rx_digit)
      in rx_cats [WordB, rx_rep 3 (Cat octet (rx_char CHR ''.'')), octet, WordB])"

definition isValidIP :: "string \<Rightarrow> bool" where
  "isValidIP ip =
     (let parts = split_byte (CHR ''.'') ip
      in if length parts \<noteq> 4 then False
         else list_all (\<lambda>part. case atoi part of None \<Rightarrow> False | Some num \<Rightarrow> \<not> (num < 0 \<or> num > 255)) parts)"

definition IPAddress_GetConfidenceScore :: "string \<Rightarrow> float64" where
  "IPAddress_GetConfidenceScore m = (if \<not> isValidIP m then 0 else round64 (8/10))"

definition IPAddress_Match :: "string \<Rightarrow> Match list option" where
  "IPAddress_Match content =
     match_loop isValidIP IPAddress_GetConfidenceScore content (find_all ip_pattern content 0)"

section \<open>The matchers as values, and the registry\<close>

datatype PatternMatcher = SSNMatcher | CreditCardMatcher | EmailMatcher | PhoneNumberMatcher | IPAddressMatcher

primrec GetName :: "PatternMatcher \<Rightarrow> string" where
  "GetName SSNMatcher = ''ssn''"
| "GetName CreditCardMatcher = ''credit_card''"
| "GetName EmailMatcher = ''email''"
| "GetName PhoneNumberMatcher = ''phone_number''"
| "GetName IPAddressMatcher = ''ip_address''"

primrec GetType :: "PatternMatcher \<Rightarrow> PIIType" where
  "GetType SSNMatcher = PIITypeSSN"
| "GetType CreditCardMatcher = PIITypeCreditCard"
| "GetType EmailMatcher = PIITypeEmail"
| "GetType PhoneNumberMatcher = PIITypePhoneNumber"
| "GetType IPAddressMatcher = PIITypeIPAddress"

primrec MatchContent :: "PatternMatcher \<Rightarrow> string \<Rightarrow> Match list option" where
  "MatchContent SSNMatcher = SSN_Match"
| "MatchContent CreditCardMatcher = CreditCard_Match"
| "MatchContent EmailMatcher = Email_Match"
| "MatchContent PhoneNumberMatcher = PhoneNumber_Match"
| "MatchContent IPAddressMatcher = IPAddress_Match"

primrec GetConfidenceScore :: "PatternMatcher \<Rightarrow> string \<Rightarrow> float64" where
  "GetConfidenceScore SSNMatcher = SSN_GetConfidenceScore"
| "GetConfidenceScore CreditCardMatcher = CreditCard_GetConfidenceScore"
| "GetConfidenceScore EmailMatcher = Email_GetConfidenceScore"
| "GetConfidenceScore PhoneNumberMatcher = PhoneNumber_GetConfidenceScore"
| "GetConfidenceScore IPAddressMatcher = IPAddress_GetConfidenceScore"

definition IsEnabled :: "PatternMatcher \<Rightarrow> ScanConfig \<Rightarrow> bool" where
  "IsEnabled m config = isTypeEnabled (GetType m) config"

type_synonym PatternRegistry = "PIIType \<rightharpoonup> PatternMatcher"

definition RegisterMatcher :: "PatternMatcher \<Rightarrow> PatternRegistry \<Rightarrow> PatternRegistry" where
  "RegisterMatcher m reg = reg(GetType m \<mapsto> m)"

definition NewPatternRegistry :: PatternRegistry where
  "NewPatternRegistry =
     RegisterMatcher IPAddressMatcher
       (RegisterMatcher PhoneNumberMatcher
         (RegisterMatcher EmailMatcher
           (RegisterMatcher CreditCardMatcher
             (RegisterMatcher SSNMatcher Map.empty))))"

definition GetMatcher :: "PatternRegistry \<Rightarrow> PIIType \<Rightarrow> PatternMatcher option" where
  "GetMatcher reg piiType = reg piiType"

section \<open>The shared loop\<close>

definition span_value :: "string \<Rightarrow> nat \<times> nat \<Rightarrow> string" where
  "span_value s p = take (snd p - fst p) (drop (fst p) s)"

definition span_context :: "string \<Rightarrow> nat \<times> nat \<Rightarrow> string" where
  "span_context s p = take (min (length s) (snd p + 20) - (fst p - 20)) (drop (fst p - 20) s)"

definition span_match :: "(string \<Rightarrow> float64) \<Rightarrow> string \<Rightarrow> nat \<times> nat \<Rightarrow> Match" where
  "span_match conf s p =
     \<lparr>Match_Value = span_value s p, Match_StartPos = int (fst p), Match_EndPos = int (snd p),
      Match_Context = span_context s p, Match_Confidence = conf (span_value s p)\<rparr>"

lemma span_match_simps [simp]:
  "Match_Value (span_match conf s p) = span_value s p"
  "Match_StartPos (span_match conf s p) = int (fst p)"
  "Match_EndPos (span_match conf s p) = int (snd p)"
  "Match_Context (span_match conf s p) = span_context s p"
  "Match_Confidence (span_match conf s p) = conf (span_value s p)"
  by (simp_all add: span_match_def)

lemma extractContext_in_bounds:
  assumes "a \<le> b" and "b \<le> length s"
  shows "extractContext s (int a) (int b) 20 = Some (span_context s (a, b))"
proof -
  have "(if int a - 20 < 0 then 0 else int a - 20) = int (a - 20)" by auto
  moreover have "(if int b + 20 > int (length s) then int (length s) else int b + 20)
      = int (min (length s) (b + 20))" by auto
  moreover have "go_slice s (int (a - 20)) (int (min (length s) (b + 20))) =
      Some (take (min (length s) (b + 20) - (a - 20)) (drop (a - 20) s))"
    by (rule go_slice_nat) (use assms in auto)
  ultimately show ?thesis by (simp add: extractContext_def Let_def span_context_def)
qed

lemma match_loop_eq:
  assumes "\<And>p. p \<in> set ps \<Longrightarrow> fst p \<le> snd p \<and> snd p \<le> length s"
  shows "match_loop ok conf s ps = Some (map (span_match conf s) (filter (\<lambda>p. ok (span_value s p)) ps))"
  using assms
proof (induction ps)
  case Nil
  then show ?case by simp
next
  case (Cons p ps)
  then have "extractContext s (int (fst p)) (int (snd p)) 20 = Some (span_context s p)"
    using extractContext_in_bounds [of "fst p" "snd p" s] by simp
  with Cons show ?case
    by (simp add: Let_def span_match_def flip: span_value_def)
qed

text \<open>The pattern and the guard of each matcher.\<close>

primrec matcher_pattern :: "PatternMatcher \<Rightarrow> rx" where
  "matcher_pattern SSNMatcher = ssn_pattern"
| "matcher_pattern CreditCardMatcher = credit_card_pattern"
| "matcher_pattern EmailMatcher = email_pattern"
| "matcher_pattern PhoneNumberMatcher = phone_pattern"
| "matcher_pattern IPAddressMatcher = ip_pattern"

primrec matcher_guard :: "PatternMatcher \<Rightarrow> string \<Rightarrow> bool" where
  "matcher_guard SSNMatcher v = (length (strip_formatting v) = 9 \<and> isValidSSN (strip_formatting v))"
| "matcher_guard CreditCardMatcher v = isValidCreditCard (strip_formatting v)"
| "matcher_guard EmailMatcher v = True"
| "matcher_guard PhoneNumberMatcher v = True"
| "matcher_guard IPAddressMatcher v = isValidIP v"

lemma MatchContent_eq:
  "MatchContent m s =
     Some (map (span_match (GetConfidenceScore m) s)
       (filter (\<lambda>p. matcher_guard m (span_value s p)) (find_all (matcher_pattern m) s 0)))"
proof -
  have "fst p \<le> snd p \<and> snd p \<le> length s" if "p \<in> set (find_all r s 0)" for p r
    using that find_all_in_bounds [of "fst p" "snd p" r s 0] by simp
  then show ?thesis
    by (cases m) (simp_all add: SSN_Match_def CreditCard_Match_def Email_Match_def
        PhoneNumber_Match_def IPAddress_Match_def match_loop_eq Let_def)
qed

section \<open>The interface of a matcher\<close>

text \<open>What the client of a \<^verbatim>\<open>PatternMatcher\<close> relies on: it does not panic, every match is a non-empty
  slice of the content, matches come in order and do not overlap, and the confidence attached to
  a match is the score of its text, a number between 0 and 1.\<close>

locale pattern_matcher =
  fixes match_content :: "string \<Rightarrow> Match list option"
    and score :: "string \<Rightarrow> float64"
  assumes no_panic: "\<exists>ms. match_content s = Some ms"
    and match_slice: "match_content s = Some ms \<Longrightarrow> m \<in> set ms \<Longrightarrow>
      go_slice s (Match_StartPos m) (Match_EndPos m) = Some (Match_Value m) \<and>
      Match_StartPos m < Match_EndPos m"
    and match_disjoint: "match_content s = Some ms \<Longrightarrow>
      sorted_wrt (\<lambda>m n. Match_EndPos m \<le> Match_StartPos n) ms"
    and match_score: "match_content s = Some ms \<Longrightarrow> m \<in> set ms \<Longrightarrow>
      Match_Confidence m = score (Match_Value m)"
    and score_unit: "0 \<le> score v \<and> score v \<le> 1"
begin

lemma match_bounds:
  assumes "match_content s = Some ms" and "m \<in> set ms"
  shows "0 \<le> Match_StartPos m \<and> Match_StartPos m < Match_EndPos m \<and> Match_EndPos m \<le> int (length s)"
  using match_slice [OF assms] by (auto simp: go_slice_def split: if_splits)

lemma match_value_length:
  assumes "match_content s = Some ms" and "m \<in> set ms"
  shows "int (length (Match_Value m)) = Match_EndPos m - Match_StartPos m"
  using match_slice [OF assms] length_go_slice by blast

lemma match_starts_increase:
  assumes "match_content s = Some ms"
  shows "sorted_wrt (\<lambda>m n. Match_StartPos m < Match_StartPos n) ms"
proof -
  have "sorted_wrt (\<lambda>m n. Match_EndPos m \<le> Match_StartPos n) ms" by (rule match_disjoint [OF assms])
  then show ?thesis
    by (rule sorted_wrt_mono_rel [rotated]) (use match_bounds [OF assms] in fastforce)
qed

lemma match_confidence_unit:
  assumes "match_content s = Some ms" and "m \<in> set ms"
  shows "0 \<le> Match_Confidence m \<and> Match_Confidence m \<le> 1"
  using match_score [OF assms] score_unit by simp

end

lemma round64_unit [simp]: "0 \<le> x \<Longrightarrow> x \<le> 1 \<Longrightarrow> round64 x \<le> 1" and
  round64_ge_0 [simp]: "0 \<le> x \<Longrightarrow> 0 \<le> round64 x"
  using round64_in_unit [of x] round64_nonneg [of x] by auto

interpretation matcher: pattern_matcher "MatchContent m" "GetConfidenceScore m" for m
proof
  fix s v :: string and ms :: "Match list" and x :: Match
  show "\<exists>ms. MatchContent m s = Some ms" by (simp add: MatchContent_eq)
  show "0 \<le> GetConfidenceScore m v \<and> GetConfidenceScore m v \<le> 1"
    by (cases m) (simp_all add: SSN_GetConfidenceScore_def CreditCard_GetConfidenceScore_def
        Email_GetConfidenceScore_def PhoneNumber_GetConfidenceScore_def
        IPAddress_GetConfidenceScore_def Let_def)
  assume "MatchContent m s = Some ms"
  then have ms: "ms = map (span_match (GetConfidenceScore m) s)
      (filter (\<lambda>p. matcher_guard m (span_value s p)) (find_all (matcher_pattern m) s 0))"
    by (simp add: MatchContent_eq)
  have "disjoint_spans (find_all (matcher_pattern m) s 0)" by (rule find_all_disjoint)
  then show "sorted_wrt (\<lambda>m n. Match_EndPos m \<le> Match_StartPos n) ms"
    by (simp add: ms sorted_wrt_map sorted_wrt_filter)
  assume "x \<in> set ms"
  then obtain a b where p: "(a, b) \<in> set (find_all (matcher_pattern m) s 0)"
    and x: "x = span_match (GetConfidenceScore m) s (a, b)"
    by (auto simp: ms)
  show "Match_Confidence x = GetConfidenceScore m (Match_Value x)" by (simp add: x)
  from find_all_in_bounds [OF p]
  show "go_slice s (Match_StartPos x) (Match_EndPos x) = Some (Match_Value x) \<and>
      Match_StartPos x < Match_EndPos x"
    by (simp add: x go_slice_nat span_value_def)
qed

section \<open>The Luhn check\<close>

definition luhn_weight :: "bool \<Rightarrow> char \<Rightarrow> int" where
  "luhn_weight alternate c =
     (if alternate
      then (if digit_val c * 2 > 9 then digit_val c * 2 mod 10 + 1 else digit_val c * 2)
      else digit_val c)"

primrec luhn_total :: "bool \<Rightarrow> string \<Rightarrow> int" where
  "luhn_total alternate [] = 0"
| "luhn_total alternate (c # cs) = luhn_weight alternate c + luhn_total (\<not> alternate) cs"

lemma luhn_loop_total:
  "luhn_loop cs acc alternate \<longleftrightarrow> list_all is_digit cs \<and> (acc + luhn_total alternate cs) mod 10 = 0"
  by (induction cs arbitrary: acc alternate)
    (auto simp: atoi_string_of_byte luhn_weight_def Let_def add.assoc)

lemma luhn_total_append:
  "luhn_total alternate (xs @ ys) =
     luhn_total alternate xs + luhn_total (if odd (length xs) then \<not> alternate else alternate) ys"
  by (induction xs arbitrary: alternate) auto

lemma isValidCreditCard_total:
  "isValidCreditCard s \<longleftrightarrow> list_all is_digit s \<and> luhn_total False (rev s) mod 10 = 0"
  by (simp add: isValidCreditCard_def luhn_loop_total list_all_rev)

lemma digit_in:
  assumes "is_digit c"
  shows "c \<in> set ''0123456789''"
proof -
  have "48 \<le> byte_of c" and "byte_of c \<le> 57" using assms by (auto simp: is_digit_def less_eq_char_def)
  then have "byte_of c \<in> {48, 49, 50, 51, 52, 53, 54, 55, 56, 57}" by simp arith
  then have "byte_of c \<in> byte_of ` set ''0123456789''" by simp
  then show ?thesis by (auto simp only: image_iff of_char_eq_iff)
qed

lemmas digit_cases = digit_in [simplified]

lemma luhn_weight_inj_mod10:
  "is_digit c \<Longrightarrow> is_digit d \<Longrightarrow> c \<noteq> d \<Longrightarrow> \<not> 10 dvd luhn_weight b c - luhn_weight b d"
  by (drule digit_cases, drule digit_cases, elim disjE; cases b) (simp_all add: luhn_weight_def digit_val_def)

lemma luhn_swap_mod10:
  "is_digit c \<Longrightarrow> is_digit d \<Longrightarrow> c \<noteq> d \<Longrightarrow> {c, d} \<noteq> {CHR ''0'', CHR ''9''} \<Longrightarrow>
   \<not> 10 dvd (luhn_weight b c + luhn_weight (\<not> b) d) - (luhn_weight b d + luhn_weight (\<not> b) c)"
  by (drule digit_cases, drule digit_cases, elim disjE; cases b)
    (simp_all add: luhn_weight_def digit_val_def insert_commute)

lemma mod10_differ: "(a::int) mod 10 = 0 \<Longrightarrow> \<not> 10 dvd a - b \<Longrightarrow> b mod 10 \<noteq> 0"
  by presburger

lemma isValidCreditCard_one_digit:
  assumes "isValidCreditCard (xs @ c # ys)" and "is_digit d" and "c \<noteq> d"
  shows "\<not> isValidCreditCard (xs @ d # ys)"
proof -
  let ?b = "if odd (length ys) then True else False"
  have eq: "luhn_total False (rev (xs @ e # ys)) =
      luhn_weight ?b e + (luhn_total False (rev ys) + luhn_total (\<not> ?b) (rev xs))" for e
    by (simp add: luhn_total_append)
  have c: "is_digit c" and h0: "luhn_total False (rev (xs @ c # ys)) mod 10 = 0"
    using assms(1) by (simp_all add: isValidCreditCard_total del: rev_append rev.simps)
  have h1: "\<not> 10 dvd luhn_total False (rev (xs @ c # ys)) - luhn_total False (rev (xs @ d # ys))"
    using luhn_weight_inj_mod10 [OF c assms(2,3), of ?b] unfolding eq by simp
  from mod10_differ [OF h0 h1] show ?thesis by (simp only: isValidCreditCard_total) simp
qed

lemma isValidCreditCard_swap:
  assumes "isValidCreditCard (xs @ c # d # ys)" and "c \<noteq> d" and "{c, d} \<noteq> {CHR ''0'', CHR ''9''}"
  shows "\<not> isValidCreditCard (xs @ d # c # ys)"
proof -
  let ?b = "if odd (length ys) then True else False"
  have eq: "luhn_total False (rev (xs @ e # f # ys)) =
      luhn_weight (\<not> ?b) e + luhn_weight ?b f +
        (luhn_total False (rev ys) + luhn_total ?b (rev xs))" for e f
    by (simp add: luhn_total_append)
  have cd: "is_digit c" "is_digit d" and h0: "luhn_total False (rev (xs @ c # d # ys)) mod 10 = 0"
    using assms(1) by (simp_all add: isValidCreditCard_total del: rev_append rev.simps)
  have h1: "\<not> 10 dvd luhn_total False (rev (xs @ c # d # ys)) - luhn_total False (rev (xs @ d # c # ys))"
    using luhn_swap_mod10 [OF cd assms(2,3), of "\<not> ?b"] unfolding eq
    by (simp add: algebra_simps split: if_splits)
  from mod10_differ [OF h0 h1] show ?thesis by (simp only: isValidCreditCard_total) simp
qed

section \<open>What the patterns match\<close>

named_theorems rx_unfold "pattern constructors as unfolded concatenations"

lemma rx_rep_unfold [rx_unfold]:
  "rx_rep 2 r = Cat r (Cat r Emp)"
  "rx_rep 3 r = Cat r (Cat r (Cat r Emp))"
  "rx_rep 4 r = Cat r (Cat r (Cat r (Cat r Emp)))"
  "rx_rep 12 r = Cat r (rx_rep 11 r)"
  by (simp_all add: eval_nat_numeral)

lemma in_digit_class [simp]: "in_cls [(CHR ''0'', CHR ''9'')] c = is_digit c"
  by (simp add: in_cls_def is_digit_def)

lemma in_char_class [simp]: "in_cls [(c, c)] d \<longleftrightarrow> d = c"
  by (auto simp: in_cls_def)

lemma rx_rep_digits:
  "rx_match (rx_rep n rx_digit) s i e \<Longrightarrow> e = i + n \<and> (\<forall>k < n. i + k < length s \<and> is_digit (s ! (i + k)))"
proof (induction n arbitrary: i)
  case 0
  then show ?case by (simp add: rx_match_simps)
next
  case (Suc n)
  then have i: "i < length s" "is_digit (s ! i)" and rest: "rx_match (rx_rep n rx_digit) s (Suc i) e"
    by (auto simp: rx_match_simps)
  from Suc.IH [OF rest] i show ?case by (auto simp: less_Suc_eq_0_disj)
qed

lemma ssn_starts_with_digit: "rx_match ssn_pattern s x y \<Longrightarrow> x < length s \<and> is_digit (s ! x)"
  by (auto simp: ssn_pattern_def rx_match_simps rx_unfold)

lemma in_dash_space_dash: "in_cls [(CHR ''-'', CHR ''-''), (CHR 0x09, CHR 0x0A), (CHR 0x0C, CHR 0x0D), (CHR '' '', CHR '' '')] (CHR ''-'')"
  by (simp add: in_cls_def)

lemma digit_not_dash: "is_digit c \<Longrightarrow> c \<noteq> CHR ''-'' \<and> c \<noteq> CHR '' ''"
  by (auto simp: is_digit_def)

lemma digit_word: "is_digit c \<Longrightarrow> word_char c"
  by (simp add: word_char_def in_cls_def is_digit_def)

lemma not_dash_word: "\<not> is_digit (CHR ''-'')"
  by (simp add: is_digit_def)

lemma digit_not_in_dash_space:
  "is_digit c \<Longrightarrow> \<not> in_cls [(CHR ''-'', CHR ''-''), (CHR 0x09, CHR 0x0A), (CHR 0x0C, CHR 0x0D), (CHR '' '', CHR '' '')] c"
  by (drule digit_cases, elim disjE) (simp_all add: in_cls_def)

lemma ends_ssn_formatted:
  fixes n :: nat
  assumes at: "\<And>k. k < 11 \<Longrightarrow> n + k < length s"
    and ds: "list_all (\<lambda>k. is_digit (s ! (n + k))) [0, 1, 2, 4, 5, 7, 8, 9, 10]"
    and dashes: "s ! (n + 3) = CHR ''-''" "s ! (n + 6) = CHR ''-''"
    and b: "at_word_boundary s n" "at_word_boundary s (n + 11)"
  shows "ends ssn_pattern s n = [n + 11]"
proof -
  have lens: "n < length s" "Suc n < length s" "n + 2 < length s" "n + 3 < length s" "n + 4 < length s"
    "n + 5 < length s" "n + 6 < length s" "n + 7 < length s" "n + 8 < length s" "n + 9 < length s"
    "n + 10 < length s"
    using at [of 0] at [of 1] at [of 2] at [of 3] at [of 4] at [of 5] at [of 6] at [of 7] at [of 8]
      at [of 9] at [of 10] by simp_all
  have digs: "is_digit (s ! n)" "is_digit (s ! Suc n)" "is_digit (s ! (n + 2))" "is_digit (s ! (n + 4))"
    "is_digit (s ! (n + 5))" "is_digit (s ! (n + 7))" "is_digit (s ! (n + 8))" "is_digit (s ! (n + 9))"
    "is_digit (s ! (n + 10))"
    using ds by simp_all
  show ?thesis
    unfolding ssn_pattern_def
    using lens digs dashes b
    by (simp add: rx_unfold in_dash_space_dash digit_not_in_dash_space not_dash_word eval_nat_numeral)
qed

lemma list_of_length_2: "length xs = 2 \<Longrightarrow> \<exists>a b. xs = [a, b]"
  and list_of_length_3: "length xs = 3 \<Longrightarrow> \<exists>a b c. xs = [a, b, c]"
  and list_of_length_4: "length xs = 4 \<Longrightarrow> \<exists>a b c d. xs = [a, b, c, d]"
  by (auto simp: eval_nat_numeral length_Suc_conv)

lemma boundary_after_word:
  "0 < i \<Longrightarrow> i \<le> length s \<Longrightarrow> word_char (s ! (i - 1)) \<Longrightarrow> (i < length s \<Longrightarrow> \<not> word_char (s ! i)) \<Longrightarrow>
   at_word_boundary s i"
  by (auto simp: at_word_boundary_def)

lemma filter_digits: "list_all is_digit xs \<Longrightarrow> filter (\<lambda>c. c \<noteq> CHR ''-'' \<and> c \<noteq> CHR '' '') xs = xs"
  by (induction xs) (simp_all add: digit_not_dash)

definition formatted_ssn :: "string \<Rightarrow> string \<Rightarrow> string \<Rightarrow> string" where
  "formatted_ssn a g r = a @ ''-'' @ g @ ''-'' @ r"

lemma find_all_formatted_ssn:
  assumes len: "length a = 3" "length g = 2" "length r = 4"
    and dig: "list_all is_digit (a @ g @ r)"
    and pre: "list_all (\<lambda>c. \<not> is_digit c) pre" "pre = [] \<or> \<not> word_char (last pre)"
    and post: "post = [] \<or> \<not> word_char (hd post)"
  shows "(length pre, length pre + 11) \<in> set (find_all ssn_pattern (pre @ formatted_ssn a g r @ post) 0)"
proof -
  obtain a1 a2 a3 g1 g2 r1 r2 r3 r4 where parts: "a = [a1, a2, a3]" "g = [g1, g2]" "r = [r1, r2, r3, r4]"
    using list_of_length_3 [OF len(1)] list_of_length_2 [OF len(2)] list_of_length_4 [OF len(3)] by blast
  let ?n = "length pre" and ?s = "pre @ formatted_ssn a g r @ post"
  have s: "?s = pre @ [a1, a2, a3, CHR ''-'', g1, g2, CHR ''-'', r1, r2, r3, r4] @ post"
    by (simp add: parts formatted_ssn_def)
  have d: "is_digit a1" "is_digit a2" "is_digit a3" "is_digit g1" "is_digit g2" "is_digit r1"
    "is_digit r2" "is_digit r3" "is_digit r4"
    using dig by (simp_all add: parts)
  have "ends ssn_pattern ?s ?n = [?n + 11]"
  proof (rule ends_ssn_formatted)
    show "?n + k < length ?s" if "k < 11" for k using that by (simp add: s)
    show "list_all (\<lambda>k. is_digit (?s ! (?n + k))) [0, 1, 2, 4, 5, 7, 8, 9, 10]"
      using d unfolding s nth_append_length_plus by simp
    show "?s ! (?n + 3) = CHR ''-''" "?s ! (?n + 6) = CHR ''-''"
      unfolding s nth_append_length_plus by simp_all
    have "?n \<noteq> 0 \<Longrightarrow> \<not> word_char (?s ! (?n - 1))"
      using pre(2) by (auto simp: nth_append last_conv_nth)
    moreover have "word_char (?s ! ?n)" using d(1) by (simp add: s digit_word)
    ultimately show "at_word_boundary ?s ?n" by (auto simp: at_word_boundary_def s)
    have "?s ! (?n + 10) = r4" unfolding s nth_append_length_plus by simp
    then have w: "word_char (?s ! (?n + 10))" using digit_word [OF d(9)] by metis
    have shift: "?n + 11 - 1 = ?n + 10" by simp
    show "at_word_boundary ?s (?n + 11)"
    proof (rule boundary_after_word)
      show "word_char (?s ! (?n + 11 - 1))" using w unfolding shift .
      show "?n + 11 < length ?s \<Longrightarrow> \<not> word_char (?s ! (?n + 11))"
        using post unfolding s nth_append_length_plus by (cases post) simp_all
    qed (simp_all add: s)
  qed
  then obtain x y where xy: "(x, y) \<in> set (find_all ssn_pattern ?s 0)" "x \<le> ?n" "?n < y"
    using find_all_covers [of 0 ?n ?s ssn_pattern "?n + 11" "[]"] by (auto simp: s)
  have "is_digit (?s ! x)" using find_all_is_match [OF xy(1)] ssn_starts_with_digit by blast
  then have "\<not> x < ?n" using pre(1) by (auto simp: nth_append list_all_length)
  with xy have x: "x = ?n" by simp
  moreover have "y = ?n + 11"
    using find_all_is_match [OF xy(1)] \<open>ends ssn_pattern ?s ?n = [?n + 11]\<close> x by simp
  ultimately show ?thesis using xy(1) by simp
qed

section \<open>Correctness of the matchers\<close>

text \<open>The contract of every matcher.  On any content each of the five matchers returns without
  a panic, every match is a non-empty slice of the content at the reported positions with the score
  of its own text as confidence, and the matches are in order and do not overlap.\<close>

theorem matchers_sound:
  "\<exists>ms. MatchContent m s = Some ms \<and>
     list_all (\<lambda>x. go_slice s (Match_StartPos x) (Match_EndPos x) = Some (Match_Value x) \<and>
                   Match_StartPos x < Match_EndPos x \<and>
                   Match_Confidence x = GetConfidenceScore m (Match_Value x)) ms \<and>
     sorted_wrt (\<lambda>x y. Match_EndPos x \<le> Match_StartPos y) ms"
proof -
  obtain ms where ms: "MatchContent m s = Some ms" using matcher.no_panic by blast
  then show ?thesis
    using matcher.match_slice [OF ms] matcher.match_score [OF ms] matcher.match_disjoint [OF ms]
    by (auto simp: list_all_iff)
qed

text \<open>No formatted social security number is missed.  A number written AAA-GG-SSSS whose digits pass
  the range checks, with no digit before it in the content and no word character touching it, is
  reported at its position with confidence 0.9.\<close>

lemma formatted_ssn_matched:
  assumes "length a = 3" and "length g = 2" and "length r = 4" and "list_all is_digit (a @ g @ r)"
    and "isValidSSN (a @ g @ r)"
    and "list_all (\<lambda>c. \<not> is_digit c) pre" and "pre = [] \<or> \<not> word_char (last pre)"
    and "post = [] \<or> \<not> word_char (hd post)"
  shows "\<exists>ms x. SSN_Match (pre @ formatted_ssn a g r @ post) = Some ms \<and> x \<in> set ms \<and>
           Match_Value x = formatted_ssn a g r \<and> Match_StartPos x = int (length pre) \<and>
           Match_Confidence x = round64 (9/10)"
proof -
  let ?p = "(length pre, length pre + 11)" and ?s = "pre @ formatted_ssn a g r @ post"
  let ?x = "span_match SSN_GetConfidenceScore ?s ?p"
  have found: "?p \<in> set (find_all ssn_pattern ?s 0)"
    by (rule find_all_formatted_ssn) (use assms in auto)
  have value_p: "span_value ?s ?p = formatted_ssn a g r"
    using assms(1-3) by (simp add: span_value_def formatted_ssn_def)
  have strip: "strip_formatting (formatted_ssn a g r) = a @ g @ r"
    using assms(4) by (simp add: strip_formatting_filter formatted_ssn_def filter_digits)
  have score: "SSN_GetConfidenceScore (formatted_ssn a g r) = round64 (9/10)"
    using assms(1-3,5) unfolding SSN_GetConfidenceScore_def strip
    by (simp add: Let_def go_string) (simp add: formatted_ssn_def)
  moreover have "matcher_guard SSNMatcher (span_value ?s ?p)"
    using assms(1-3,5) by (simp add: value_p strip)
  ultimately have "?x \<in> set (map (span_match SSN_GetConfidenceScore ?s)
      (filter (\<lambda>p. matcher_guard SSNMatcher (span_value ?s p)) (find_all ssn_pattern ?s 0)))" (is "_ \<in> set ?ms")
    using found by auto
  moreover have "SSN_Match ?s = Some ?ms" using MatchContent_eq [of SSNMatcher ?s] by simp
  moreover have "Match_Value ?x = formatted_ssn a g r \<and> Match_StartPos ?x = int (length pre) \<and>
      Match_Confidence ?x = round64 (9/10)"
    using value_p score by simp
  ultimately show ?thesis by blast
qed



definition digits_at :: "string \<Rightarrow> nat \<Rightarrow> nat \<Rightarrow> bool" where
  "digits_at s i n \<longleftrightarrow> (\<forall>k < n. i + k < length s \<and> is_digit (s ! (i + k)))"

lemma digits_at_step:
  "i < length s \<Longrightarrow> is_digit (s ! i) \<Longrightarrow> digits_at s (Suc i) (n - 1) \<Longrightarrow> digits_at s i n"
  unfolding digits_at_def
proof (intro allI impI)
  fix k
  assume "i < length s" "is_digit (s ! i)" "k < n"
    and "\<forall>k<n - 1. Suc i + k < length s \<and> is_digit (s ! (Suc i + k))"
  then show "i + k < length s \<and> is_digit (s ! (i + k))" by (cases k) auto
qed

lemma rx_rep_digits_at: "rx_match (rx_rep n rx_digit) s i e \<Longrightarrow> m \<le> n \<Longrightarrow> digits_at s i m"
  using rx_rep_digits [of n s i e] unfolding digits_at_def by auto

lemma digit_subclass:
  "in_cls [(CHR ''1'', CHR ''5'')] c \<Longrightarrow> is_digit c"
  "in_cls [(CHR ''4'', CHR ''4''), (CHR ''7'', CHR ''7'')] c \<Longrightarrow> is_digit c"
  by (auto simp: in_cls_def is_digit_def less_eq_char_def)

lemma digit_literals [simp]:
  "is_digit (CHR ''0'')" "is_digit (CHR ''1'')" "is_digit (CHR ''3'')" "is_digit (CHR ''4'')"
  "is_digit (CHR ''5'')" "is_digit (CHR ''6'')"
  by (simp_all add: is_digit_def)

text \<open>Every alternative of the card pattern begins with 13 digits.\<close>

lemma card_13_digits:
  "rx_match (Cat (rx_char CHR ''4'') (Cat (rx_rep 12 rx_digit) r)) s x e \<Longrightarrow> digits_at s x 13"
  "rx_match (Cat (rx_char CHR ''3'') (Cat (rx_rep 13 rx_digit) r)) s x e \<Longrightarrow> digits_at s x 13"
  by (auto simp: rx_match_simps intro!: digits_at_step [where n = 13] dest!: rx_rep_digits_at [where m = 12])

lemma card_second_class:
  assumes "rx_match (Cat (rx_char c) (Cat (Cls d) (Cat (rx_rep n rx_digit) r))) s x e"
    and "is_digit c" and "\<And>b. in_cls d b \<Longrightarrow> is_digit b" and "11 \<le> n"
  shows "digits_at s x 13"
proof -
  from assms(1) obtain j where x: "x < length s" "s ! x = c"
    and x1: "Suc x < length s" "in_cls d (s ! Suc x)" and rep: "rx_match (rx_rep n rx_digit) s (Suc (Suc x)) j"
    by (auto simp: rx_match_simps)
  have "digits_at s (Suc (Suc x)) (12 - 1)" using rx_rep_digits_at [OF rep, of 11] assms(4) by simp
  then have "digits_at s (Suc x) (13 - 1)"
    using x1 assms(3) digits_at_step [of "Suc x" s 12] by simp
  then show ?thesis using x assms(2) by (auto intro: digits_at_step)
qed

lemma card_discover:
  assumes "rx_match (Cat (rx_char CHR ''6'')
      (Cat (Alt (rx_cats [rx_char CHR ''0'', rx_char CHR ''1'', rx_char CHR ''1''])
         (Cat (rx_char CHR ''5'') (rx_rep 2 rx_digit))) (Cat (rx_rep 12 rx_digit) r))) s x e"
  shows "digits_at s x 13"
proof -
  from assms obtain j where x: "x < length s" "s ! x = CHR ''6''"
    and "Suc x < length s" "is_digit (s ! Suc x)" "Suc (Suc x) < length s" "is_digit (s ! Suc (Suc x))"
      "Suc (Suc (Suc x)) < length s" "is_digit (s ! Suc (Suc (Suc x)))"
    and rep: "rx_match (rx_rep 12 rx_digit) s (Suc (Suc (Suc (Suc x)))) j"
    by (auto simp: rx_match_simps rx_unfold(1))
  moreover have "digits_at s (Suc (Suc (Suc (Suc x)))) (10 - 1)"
    using rx_rep_digits_at [OF rep, of 9] by simp
  ultimately have "digits_at s (Suc (Suc (Suc x))) (11 - 1)"
    using digits_at_step [of "Suc (Suc (Suc x))" s 10] by simp
  then have "digits_at s (Suc (Suc x)) (12 - 1)"
    using \<open>Suc (Suc x) < length s\<close> \<open>is_digit (s ! Suc (Suc x))\<close> digits_at_step [of "Suc (Suc x)" s 11] by simp
  then have "digits_at s (Suc x) (13 - 1)"
    using \<open>Suc x < length s\<close> \<open>is_digit (s ! Suc x)\<close> digits_at_step [of "Suc x" s 12] by simp
  then show ?thesis using x by (auto intro: digits_at_step)
qed

lemma credit_card_digits:
  assumes "rx_match credit_card_pattern s x y"
  shows "digits_at s x 13"
proof -
  from assms show ?thesis
    unfolding credit_card_pattern_def rx_alts.simps rx_cats.simps rx_match_simps(2) rx_match_simps(4)[of WordB]
      rx_match_simps(4)[of "Alt _ _"] rx_match_simps(5)
    by (elim disjE exE conjE)
      (simp_all add: card_13_digits card_discover [simplified] card_second_class [OF _ _ digit_subclass(1)]
        card_second_class [OF _ _ digit_subclass(2)] del: rx_rep.simps)
qed

text \<open>The least number of bytes a pattern consumes.\<close>

primrec rx_min :: "rx \<Rightarrow> nat" where
  "rx_min (Cls rs) = 1"
| "rx_min WordB = 0"
| "rx_min Emp = 0"
| "rx_min (Cat a b) = rx_min a + rx_min b"
| "rx_min (Alt a b) = min (rx_min a) (rx_min b)"
| "rx_min (Star a) = 0"

lemma rx_match_min: "rx_match r s i e \<Longrightarrow> i + rx_min r \<le> e"
  by (induction rule: rx_match.induct) auto

lemma rx_min_credit_card: "rx_min credit_card_pattern = 13"
  by code_simp

lemma take_span_value: "x + n \<le> y \<Longrightarrow> y \<le> length s \<Longrightarrow> take n (span_value s (x, y)) = take n (drop x s)"
  by (simp add: span_value_def)

text \<open>Only unbroken card numbers are found.  Whatever the content, the first 13 bytes of every
  reported card number are digits, so a card number written in groups of four, such as
  4111-1111-1111-1111, is never reported.\<close>

theorem credit_card_needs_13_digits:
  "(\<exists>ms. CreditCard_Match s = Some ms \<and>
      list_all (\<lambda>x. 13 \<le> length (Match_Value x) \<and> list_all is_digit (take 13 (Match_Value x))) ms) \<and>
   CreditCard_Match ''4111-1111-1111-1111'' = Some []"
proof -
  have "13 \<le> length (span_value s (x, y)) \<and> list_all is_digit (take 13 (span_value s (x, y)))"
    if p: "(x, y) \<in> set (find_all credit_card_pattern s 0)" for x y
  proof -
    have ends: "y = hd (ends credit_card_pattern s x)" and digs: "digits_at s x 13"
      and m: "rx_match credit_card_pattern s x y"
      using find_all_is_match [OF p] credit_card_digits by auto
    have y: "x < y" "y \<le> length s" using find_all_in_bounds [OF p] by auto
    have long: "x + 13 \<le> y" using rx_match_min [OF m] by (simp add: rx_min_credit_card)
    have "is_digit (drop x s ! k)" if "k < 13" for k
      using digs that y by (simp add: digits_at_def)
    then have "list_all is_digit (take 13 (drop x s))" by (auto simp: list_all_length)
    then show ?thesis using long y take_span_value [of x 13 y s] by (simp add: span_value_def)
  qed
  moreover have "CreditCard_Match s = MatchContent CreditCardMatcher s" by simp
  ultimately have "\<exists>ms. CreditCard_Match s = Some ms \<and>
      list_all (\<lambda>x. 13 \<le> length (Match_Value x) \<and> list_all is_digit (take 13 (Match_Value x))) ms"
    unfolding MatchContent_eq by (auto simp: list_all_iff)
  moreover have "CreditCard_Match ''4111-1111-1111-1111'' = Some []" by code_simp
  ultimately show ?thesis by blast
qed

lemma phone_boundary: "rx_match phone_pattern s x y \<Longrightarrow> at_word_boundary s x"
  by (auto simp: phone_pattern_def rx_match_simps(2,4) simp del: rx_rep.simps)

text \<open>A reported telephone number begins on a word boundary: its first byte is a word character
  exactly when the byte before it is not.  A number in parentheses or with a plus sign is therefore
  reported without its first byte: in (555) 123-4567 the reported text begins at the first 5.\<close>

theorem phone_starts_at_word_boundary:
  "(\<exists>ms. PhoneNumber_Match s = Some ms \<and>
      list_all (\<lambda>x. word_char (hd (Match_Value x)) \<noteq>
        (0 < Match_StartPos x \<and> word_char (s ! nat (Match_StartPos x - 1)))) ms) \<and>
   map_option (map Match_Value) (PhoneNumber_Match ''(555) 123-4567'') = Some [''555) 123-4567'']"
proof -
  have "word_char (hd (span_value s (x, y))) \<noteq> (0 < x \<and> word_char (s ! (x - 1)))"
    if p: "(x, y) \<in> set (find_all phone_pattern s 0)" for x y
  proof -
    have y: "x < y" "y \<le> length s" using find_all_in_bounds [OF p] by auto
    then have "hd (span_value s (x, y)) = s ! x"
      by (simp add: span_value_def hd_drop_conv_nth)
    moreover have "at_word_boundary s x" using find_all_is_match [OF p] phone_boundary by blast
    ultimately show ?thesis using y by (auto simp: at_word_boundary_def)
  qed
  moreover have "nat (int x - 1) = x - 1" for x by simp
  moreover have "PhoneNumber_Match s = MatchContent PhoneNumberMatcher s" by simp
  ultimately have "\<exists>ms. PhoneNumber_Match s = Some ms \<and>
      list_all (\<lambda>x. word_char (hd (Match_Value x)) \<noteq>
        (0 < Match_StartPos x \<and> word_char (s ! nat (Match_StartPos x - 1)))) ms"
    unfolding MatchContent_eq by (auto simp: list_all_iff)
  moreover have "map_option (map Match_Value) (PhoneNumber_Match ''(555) 123-4567'') = Some [''555) 123-4567'']"
    by code_simp
  ultimately show ?thesis by blast
qed

end
