(* ===== verification/Go_Sort.thy ===== *)
theory Go_Sort
  imports Go_Prelude "HOL-Library.Multiset"
begin

text \<open>
  Go's \<^verbatim>\<open>sort.Slice\<close>.  Its documentation promises a sorted permutation and, since the sort is not
  stable, nothing about the order of equal elements.  That promise is the locale \<open>slice_sort\<close>;
  the models take the sorting function as an argument, and their theorems hold for every function
  that keeps the promise.  \<open>insertion_sort\<close> is what the package does for slices of up to twelve
  elements.
\<close>

locale slice_sort =
  fixes sort_slice :: "('a \<Rightarrow> 'a \<Rightarrow> bool) \<Rightarrow> 'a list \<Rightarrow> 'a list"
  assumes perm: "mset (sort_slice lt xs) = mset xs"
    and ordered: "(\<And>x y. lt x y \<longleftrightarrow> (k :: 'a \<Rightarrow> int) x < k y) \<Longrightarrow>
          sorted_wrt (\<lambda>x y. k x \<le> k y) (sort_slice lt xs)"
begin

lemma set_sorted: "set (sort_slice lt xs) = set xs"
  using perm by (metis set_mset_mset)

lemma length_sorted: "length (sort_slice lt xs) = length xs"
  using perm by (metis size_mset)

text \<open>Where the keys are distinct, the result does not depend on the sorting function.\<close>

lemma sorted_unique:
  assumes "\<And>x y. lt x y \<longleftrightarrow> k x < (k y :: int)" and "distinct (map k xs)"
    and "mset ys = mset xs" and "sorted_wrt (\<lambda>x y. k x \<le> k y) ys"
  shows "sort_slice lt xs = ys"
proof (rule map_sorted_distinct_set_unique)
  have zs: "mset (sort_slice lt xs) = mset xs" by (rule perm)
  have "distinct (map k zs)" if "mset zs = mset xs" for zs
    using assms(2) that by (metis mset_eq_imp_distinct_iff mset_map)
  with zs assms(3) show "distinct (map k (sort_slice lt xs))" and "distinct (map k ys)" by auto
  show "inj_on k (set (sort_slice lt xs) \<union> set ys)"
    using assms(2) mset_eq_setD [OF assms(3)] by (simp add: set_sorted distinct_map)
  show "sorted (map k (sort_slice lt xs))"
    using ordered [OF assms(1)] by (simp add: sorted_wrt_map)
  show "sorted (map k ys)" using assms(4) by (simp add: sorted_wrt_map)
  show "set (sort_slice lt xs) = set ys"
    using mset_eq_setD [OF assms(3)] by (simp add: set_sorted)
qed

end

primrec insert_slice :: "('a \<Rightarrow> 'a \<Rightarrow> bool) \<Rightarrow> 'a \<Rightarrow> 'a list \<Rightarrow> 'a list" where
  "insert_slice lt x [] = [x]"
| "insert_slice lt x (y # ys) = (if lt y x then y # insert_slice lt x ys else x # y # ys)"

definition insertion_sort :: "('a \<Rightarrow> 'a \<Rightarrow> bool) \<Rightarrow> 'a list \<Rightarrow> 'a list" where
  "insertion_sort lt xs = foldr (insert_slice lt) xs []"

lemma mset_insert_slice: "mset (insert_slice lt x xs) = add_mset x (mset xs)"
  by (induction xs) auto

lemma set_insert_slice: "set (insert_slice lt x xs) = insert x (set xs)"
  by (induction xs) auto

lemma sorted_insert_slice:
  assumes "\<And>x y. lt x y \<longleftrightarrow> k x < (k y :: int)"
  shows "sorted_wrt (\<lambda>x y. k x \<le> k y) xs \<Longrightarrow> sorted_wrt (\<lambda>x y. k x \<le> k y) (insert_slice lt x xs)"
  by (induction xs) (auto simp: assms set_insert_slice intro: less_imp_le order_trans)

interpretation insertion_sort: slice_sort insertion_sort
proof
  show "mset (insertion_sort lt xs) = mset xs" for lt and xs :: "'a list"
    by (induction xs) (auto simp: insertion_sort_def mset_insert_slice)
  show "sorted_wrt (\<lambda>x y. k x \<le> k y) (insertion_sort lt xs)"
    if "\<And>x y. lt x y \<longleftrightarrow> k x < (k y :: int)" for lt k and xs :: "'a list"
    by (induction xs) (auto simp: insertion_sort_def intro: sorted_insert_slice [OF that])
qed

text \<open>For an order in which some elements are not comparable by a number, the promise is stated on the
  order itself: a strict weak order.\<close>

definition strict_weak :: "('a \<Rightarrow> 'a \<Rightarrow> bool) \<Rightarrow> bool" where
  "strict_weak lt \<longleftrightarrow> (\<forall>x y. lt x y \<longrightarrow> \<not> lt y x) \<and> (\<forall>x y z. \<not> lt x y \<longrightarrow> \<not> lt y z \<longrightarrow> \<not> lt x z)"

locale weak_slice_sort = slice_sort sort_slice for sort_slice :: "('a \<Rightarrow> 'a \<Rightarrow> bool) \<Rightarrow> 'a list \<Rightarrow> 'a list" +
  assumes weakly_ordered: "strict_weak lt \<Longrightarrow> sorted_wrt (\<lambda>x y. \<not> lt y x) (sort_slice lt xs)"

lemma strict_weakD:
  assumes "strict_weak lt"
  shows "lt x y \<Longrightarrow> \<not> lt y x" and "\<not> lt x y \<Longrightarrow> \<not> lt y z \<Longrightarrow> \<not> lt x z"
  using assms unfolding strict_weak_def by blast+

lemma weakly_sorted_insert:
  assumes "strict_weak lt"
  shows "sorted_wrt (\<lambda>x y. \<not> lt y x) xs \<Longrightarrow> sorted_wrt (\<lambda>x y. \<not> lt y x) (insert_slice lt x xs)"
proof (induction xs)
  case (Cons y ys)
  show ?case
  proof (cases "lt y x")
    case True
    with strict_weakD(1) [OF assms] have "\<not> lt x y" by blast
    with Cons True show ?thesis by (simp add: set_insert_slice)
  next
    case False
    with Cons.prems have "\<forall>z \<in> set ys. \<not> lt z x" using strict_weakD(2) [OF assms, of _ y x] by simp
    with Cons.prems False show ?thesis by simp
  qed
qed simp

interpretation insertion_sort: weak_slice_sort insertion_sort
proof
  show "sorted_wrt (\<lambda>x y. \<not> lt y x) (insertion_sort lt xs)" if "strict_weak lt" for lt and xs :: "'a list"
    by (induction xs) (auto simp: insertion_sort_def intro: weakly_sorted_insert [OF that])
qed

text \<open>A symmetric relation between all elements of a list at different positions only depends on the
  multiset of its elements.\<close>

lemma sorted_wrt_symmetric_mset:
  assumes "\<And>x y. P x y \<longleftrightarrow> P y x"
  shows "sorted_wrt P xs \<longleftrightarrow> (\<forall>x y. {#x, y#} \<subseteq># mset xs \<longrightarrow> P x y)"
proof (induction xs)
  case Nil
  then show ?case by simp
next
  case (Cons a xs)
  have "(\<forall>x y. {#x, y#} \<subseteq># mset (a # xs) \<longrightarrow> P x y) \<longleftrightarrow>
        (\<forall>y \<in> set xs. P a y) \<and> (\<forall>x y. {#x, y#} \<subseteq># mset xs \<longrightarrow> P x y)" (is "?L \<longleftrightarrow> ?R")
  proof
    assume L: ?L
    show ?R
    proof (intro conjI ballI allI impI)
      fix y assume "y \<in> set xs"
      then have "{#a, y#} \<subseteq># mset (a # xs)" by simp
      with L show "P a y" by blast
    next
      fix x y assume "{#x, y#} \<subseteq># mset xs"
      then have "{#x, y#} \<subseteq># mset (a # xs)"
        by (metis mset.simps(2) mset_subset_eq_add_mset_cancel subset_mset.order_trans subset_mset.order_refl mset_subset_eq_insertD add_mset_add_single mset_subset_eq_add_left)
      with L show "P x y" by blast
    qed
  next
    assume R: ?R
    show ?L
    proof (intro allI impI)
      fix x y assume sub: "{#x, y#} \<subseteq># mset (a # xs)"
      show "P x y"
      proof (cases "x = a \<or> y = a")
        case True
        then have "(x = a \<and> y \<in> set xs) \<or> (y = a \<and> x \<in> set xs)"
          using sub by (auto simp: add_mset_commute insert_subset_eq_iff)
        with R assms show ?thesis by blast
      next
        case False
        then have "{#x, y#} \<subseteq># mset xs"
          using sub by (auto simp: insert_subset_eq_iff in_diff_count add_mset_commute)
        with R show ?thesis by blast
      qed
    qed
  qed
  with Cons show ?case by auto
qed

lemma sorted_wrt_symmetric_perm:
  "(\<And>x y. P x y \<longleftrightarrow> P y x) \<Longrightarrow> mset xs = mset ys \<Longrightarrow> sorted_wrt P xs \<longleftrightarrow> sorted_wrt P ys"
  by (simp only: sorted_wrt_symmetric_mset)

end
