(* ===== verification/Go_Sha256.thy ===== *)
theory Go_Sha256
  imports Go_Prelude "HOL-Library.Word"
begin

text \<open>
  Go's \<^verbatim>\<open>crypto/sha256\<close> (FIPS 180-4) on byte strings, over 32 bit words, and the \<^verbatim>\<open>%x\<close> verb that
  prints a digest.  The redaction engine and the assembler use it.

  The lemmas: a digest has 32 bytes, and its hexadecimal form has two characters per byte, each a
  lower-case hexadecimal digit.
\<close>

unbundle bit_operations_syntax

type_synonym u32 = "32 word"

definition ror32 :: "nat \<Rightarrow> u32 \<Rightarrow> u32" where
  "ror32 n x = (drop_bit n x OR push_bit (32 - n) x)"

text \<open>The constants in decimal: the first 32 bits of the fractional parts of the cube roots of the first
  64 primes, and of the square roots of the first eight.\<close>

definition sha_k :: "u32 list" where
  "sha_k =
    [1116352408, 1899447441, 3049323471, 3921009573, 961987163, 1508970993,
     2453635748, 2870763221, 3624381080, 310598401, 607225278, 1426881987,
     1925078388, 2162078206, 2614888103, 3248222580, 3835390401, 4022224774,
     264347078, 604807628, 770255983, 1249150122, 1555081692, 1996064986,
     2554220882, 2821834349, 2952996808, 3210313671, 3336571891, 3584528711,
     113926993, 338241895, 666307205, 773529912, 1294757372, 1396182291,
     1695183700, 1986661051, 2177026350, 2456956037, 2730485921, 2820302411,
     3259730800, 3345764771, 3516065817, 3600352804, 4094571909, 275423344,
     430227734, 506948616, 659060556, 883997877, 958139571, 1322822218,
     1537002063, 1747873779, 1955562222, 2024104815, 2227730452, 2361852424,
     2428436474, 2756734187, 3204031479, 3329325298]"

definition sha_init :: "u32 list" where
  "sha_init =
    [1779033703, 3144134277, 1013904242, 2773480762, 1359893119, 2600822924,
     528734635, 1541459225]"

section \<open>Bytes and words, big-endian\<close>

definition byte_word :: "char \<Rightarrow> u32" where
  "byte_word c = word_of_nat (byte_of c)"

definition word_byte :: "u32 \<Rightarrow> char" where
  "word_byte w = char_of (unat (w AND 255))"

definition be_bytes :: "u32 \<Rightarrow> string" where
  "be_bytes w = [word_byte (drop_bit 24 w), word_byte (drop_bit 16 w), word_byte (drop_bit 8 w), word_byte w]"

fun be_words :: "string \<Rightarrow> u32 list" where
  "be_words (a # b # c # d # s) =
     (push_bit 24 (byte_word a) OR push_bit 16 (byte_word b) OR push_bit 8 (byte_word c) OR byte_word d)
       # be_words s"
| "be_words _ = []"

text \<open>The padded message: a one bit, zeros up to 56 modulo 64, and the bit length in 8 bytes.\<close>

definition sha_pad :: "string \<Rightarrow> string" where
  "sha_pad s =
     (let n = length s;
          z = (119 - n mod 64) mod 64
      in s @ [char_of (128::nat)] @ replicate z (char_of (0::nat)) @
         be_bytes (word_of_int (8 * int n div 2 ^ 32)) @ be_bytes (word_of_int (8 * int n)))"

section \<open>The compression function\<close>

text \<open>The message schedule, kept with its newest word first.\<close>

primrec sha_extend :: "nat \<Rightarrow> u32 list \<Rightarrow> u32 list" where
  "sha_extend 0 w = w"
| "sha_extend (Suc n) w =
     (let v1 = w ! 1;
          t1 = ror32 17 v1 XOR ror32 19 v1 XOR drop_bit 10 v1;
          v2 = w ! 14;
          t2 = ror32 7 v2 XOR ror32 18 v2 XOR drop_bit 3 v2
      in sha_extend n ((t1 + w ! 6 + t2 + w ! 15) # w))"

definition sha_schedule :: "string \<Rightarrow> u32 list" where
  "sha_schedule block = rev (sha_extend 48 (rev (be_words block)))"

fun sha_round :: "u32 list \<Rightarrow> u32 \<times> u32 \<Rightarrow> u32 list" where
  "sha_round [a, b, c, d, e, f, g, h] (k, w) =
     (let t1 = h + (ror32 6 e XOR ror32 11 e XOR ror32 25 e) + ((e AND f) XOR (NOT e AND g)) + k + w;
          t2 = (ror32 2 a XOR ror32 13 a XOR ror32 22 a) + ((a AND b) XOR (a AND c) XOR (b AND c))
      in [t1 + t2, a, b, c, d + t1, e, f, g])"
| "sha_round st _ = st"

definition sha_block :: "u32 list \<Rightarrow> string \<Rightarrow> u32 list" where
  "sha_block st block = map2 (+) st (foldl sha_round st (zip sha_k (sha_schedule block)))"

function sha_blocks :: "u32 list \<Rightarrow> string \<Rightarrow> u32 list" where
  "sha_blocks st s =
     (if s = [] then st else sha_blocks (sha_block st (take 64 s)) (drop 64 s))"
  by pat_completeness auto
termination by (relation "measure (\<lambda>(st, s). length s)") auto

declare sha_blocks.simps [simp del]

definition sha256 :: "string \<Rightarrow> string" where
  "sha256 s = concat (map be_bytes (sha_blocks sha_init (sha_pad s)))"

section \<open>Hexadecimal\<close>

definition hex_digit :: "nat \<Rightarrow> char" where
  "hex_digit n = (if n < 10 then char_of (48 + n) else char_of (87 + n))"

definition hex_of :: "string \<Rightarrow> string" where
  "hex_of s = concat (map (\<lambda>c. [hex_digit (byte_of c div 16), hex_digit (byte_of c mod 16)]) s)"

definition is_hex_digit :: "char \<Rightarrow> bool" where
  "is_hex_digit c \<longleftrightarrow> is_digit c \<or> CHR ''a'' \<le> c \<and> c \<le> CHR ''f''"

section \<open>Lengths\<close>

lemma length_be_bytes [simp]: "length (be_bytes w) = 4"
  by (simp add: be_bytes_def)

lemma length_sha_round [simp]: "length (sha_round st kw) = length st"
  by (cases "(st, kw)" rule: sha_round.cases) (auto simp: Let_def)

lemma length_sha_rounds [simp]: "length (foldl sha_round st kws) = length st"
  by (induction kws arbitrary: st) auto

lemma length_sha_blocks: "length (sha_blocks st s) = length st"
  by (induction st s rule: sha_blocks.induct)
     (subst sha_blocks.simps, simp add: sha_block_def)

lemma length_concat_be_bytes: "length (concat (map be_bytes ws)) = 4 * length ws"
  by (induction ws) auto

lemma length_sha256 [simp]: "length (sha256 s) = 32"
  by (simp add: sha256_def length_concat_be_bytes length_sha_blocks sha_init_def)

lemma length_hex_of [simp]: "length (hex_of s) = 2 * length s"
  by (induction s) (auto simp: hex_of_def)

lemma hex_digit_is_hex: "n < 16 \<Longrightarrow> is_hex_digit (hex_digit n)"
  by (auto simp: is_hex_digit_def hex_digit_def is_digit_def less_eq_char_def of_char_of)

lemma hex_of_digits: "list_all is_hex_digit (hex_of s)"
proof (induction s)
  case Nil
  then show ?case by (simp add: hex_of_def)
next
  case (Cons c s)
  have "byte_of c < 256" by (rule nat_of_char_less_256)
  then have "byte_of c div 16 < 16" by linarith
  with Cons show ?case by (simp add: hex_of_def hex_digit_is_hex)
qed

lemma length_sha_pad: "length (sha_pad s) mod 64 = 0"
proof -
  have "(n + (1 + ((119 - n mod 64) mod 64 + 8))) mod 64 = 0" for n :: nat
  proof -
    obtain q r where qr: "n = 64 * q + r" "r < 64" "n mod 64 = r"
      by (metis mod_less_divisor mult_div_mod_eq zero_less_numeral)
    have m: "(119 - r) mod 64 = (if r < 56 then 55 - r else 119 - r)"
      using qr(2) by (auto simp: mod_if [of "119 - r"])
    have "n + (1 + ((119 - n mod 64) mod 64 + 8)) = 64 * (if r < 56 then q + 1 else q + 2)"
      unfolding qr(3) m using qr(1,2) by auto
    then show ?thesis by (metis mod_mult_self1_is_0)
  qed
  then show ?thesis by (simp add: sha_pad_def Let_def add.assoc)
qed

end
