(* ===== verification/Go_Utf8.thy ===== *)
theory Go_Utf8
  imports Go_Prelude
begin

text \<open>
  Go's \<^verbatim>\<open>unicode/utf8\<close>: decoding the first rune of a string (with the ranges of the second byte
  that exclude overlong forms, surrogates and values above 0x10FFFF), encoding a rune, the runes a
  \<open>for range\<close> loop over a string visits with their byte indices, and validity.  An invalid byte
  decodes to the replacement rune 0xFFFD with width 1.

  The lemmas: decoding an encoded rune gives it back, and every decoded width is positive and
  within the string.
\<close>

definition rune_error :: nat where
  "rune_error = 65533"

definition is_cont :: "char \<Rightarrow> bool" where
  "is_cont c \<longleftrightarrow> 128 \<le> byte_of c \<and> byte_of c < 192"

text \<open>The least and greatest second byte that may follow a lead byte of three or four.\<close>

definition second_lo :: "nat \<Rightarrow> nat" where
  "second_lo b = (if b = 224 then 160 else if b = 240 then 144 else 128)"

definition second_hi :: "nat \<Rightarrow> nat" where
  "second_hi b = (if b = 237 then 160 else if b = 244 then 144 else 192)"

definition second_ok :: "char \<Rightarrow> char \<Rightarrow> bool" where
  "second_ok c d \<longleftrightarrow> second_lo (byte_of c) \<le> byte_of d \<and> byte_of d < second_hi (byte_of c)"

fun decode_rune :: "string \<Rightarrow> nat \<times> nat" where
  "decode_rune [] = (rune_error, 0)"
| "decode_rune (c # cs) =
     (let b = byte_of c
      in if b < 128 then (b, 1)
         else if b < 194 then (rune_error, 1)
         else if b < 224 then
           (case cs of
              c1 # _ \<Rightarrow> if is_cont c1 then ((b - 192) * 64 + (byte_of c1 - 128), 2) else (rune_error, 1)
            | _ \<Rightarrow> (rune_error, 1))
         else if b < 240 then
           (case cs of
              c1 # c2 # _ \<Rightarrow>
                if second_ok c c1 \<and> is_cont c2
                then ((b - 224) * 4096 + (byte_of c1 - 128) * 64 + (byte_of c2 - 128), 3)
                else (rune_error, 1)
            | _ \<Rightarrow> (rune_error, 1))
         else if b < 245 then
           (case cs of
              c1 # c2 # c3 # _ \<Rightarrow>
                if second_ok c c1 \<and> is_cont c2 \<and> is_cont c3
                then ((b - 240) * 262144 + (byte_of c1 - 128) * 4096 + (byte_of c2 - 128) * 64 +
                      (byte_of c3 - 128), 4)
                else (rune_error, 1)
            | _ \<Rightarrow> (rune_error, 1))
         else (rune_error, 1))"

definition valid_rune :: "nat \<Rightarrow> bool" where
  "valid_rune r \<longleftrightarrow> r < 55296 \<or> 57344 \<le> r \<and> r < 1114112"

definition encode_rune :: "nat \<Rightarrow> string" where
  "encode_rune r0 =
     (let r = (if valid_rune r0 then r0 else rune_error)
      in if r < 128 then [char_of r]
         else if r < 2048 then [char_of (192 + r div 64), char_of (128 + r mod 64)]
         else if r < 65536 then
           [char_of (224 + r div 4096), char_of (128 + r div 64 mod 64), char_of (128 + r mod 64)]
         else
           [char_of (240 + r div 262144), char_of (128 + r div 4096 mod 64),
            char_of (128 + r div 64 mod 64), char_of (128 + r mod 64)])"

lemma decode_width_bounds: "s \<noteq> [] \<Longrightarrow> 1 \<le> snd (decode_rune s) \<and> snd (decode_rune s) \<le> length s"
  by (cases s) (auto simp: Let_def split: list.splits)

declare decode_rune.simps [simp del]

lemma decode_width_pos [simp]: "0 < snd (decode_rune (c # cs))"
  using decode_width_bounds [of "c # cs"] by simp

text \<open>The pairs (byte index, rune) a \<open>for i, r := range s\<close> loop visits.\<close>

function range_runes :: "nat \<Rightarrow> string \<Rightarrow> (nat \<times> nat) list" where
  "range_runes i [] = []"
| "range_runes i (c # cs) =
     (i, fst (decode_rune (c # cs))) #
       range_runes (i + snd (decode_rune (c # cs))) (drop (snd (decode_rune (c # cs))) (c # cs))"
  by pat_completeness auto
termination
  by (relation "measure (\<lambda>(i, s). length s)") auto

declare range_runes.simps [simp del]

lemma range_runes_Nil [simp]: "range_runes i [] = []"
  by (simp add: range_runes.simps)

definition runes_of :: "string \<Rightarrow> nat list" where
  "runes_of s = map snd (range_runes 0 s)"

definition string_of_runes :: "nat list \<Rightarrow> string" where
  "string_of_runes rs = concat (map encode_rune rs)"

definition valid_utf8 :: "string \<Rightarrow> bool" where
  "valid_utf8 s \<longleftrightarrow>
     list_all (\<lambda>(i, r). \<not> (r = rune_error \<and> snd (decode_rune (drop i s)) = 1)) (range_runes 0 s)"

section \<open>ASCII strings\<close>

lemma decode_ascii: "byte_of c < 128 \<Longrightarrow> decode_rune (c # cs) = (byte_of c, 1)"
  by (simp add: decode_rune.simps)

lemma encode_ascii: "byte_of c < 128 \<Longrightarrow> encode_rune (byte_of c) = [c]"
  by (simp add: encode_rune_def valid_rune_def)

lemma range_runes_ascii:
  "list_all (\<lambda>c. byte_of c < 128) s \<Longrightarrow> range_runes i s = zip [i ..< i + length s] (map byte_of s)"
proof (induction s arbitrary: i)
  case Nil
  then show ?case by simp
next
  case (Cons c cs)
  then have "range_runes i (c # cs) = (i, byte_of c) # range_runes (Suc i) cs"
    by (simp add: range_runes.simps decode_ascii)
  with Cons show ?case by (simp add: upt_conv_Cons del: upt_Suc)
qed

section \<open>Decoding an encoded rune\<close>

lemma byte_of_char_of [simp]: "n < 256 \<Longrightarrow> byte_of (char_of n) = n"
  by (simp add: of_char_of)

lemma base64_digits:
  fixes r :: nat
  shows "r div 4096 * 4096 + r div 64 mod 64 * 64 + r mod 64 = r"
    and "r div 262144 * 262144 + r div 4096 mod 64 * 4096 + r div 64 mod 64 * 64 + r mod 64 = r"
proof -
  have d: "r div 4096 = r div 64 div 64" "r div 262144 = r div 64 div 64 div 64"
    by (simp_all flip: div_mult2_eq)
  obtain a b c where abc: "a = r div 64" "b = a div 64" "c = b div 64" by blast
  have "r = a * 64 + r mod 64" "a = b * 64 + a mod 64" "b = c * 64 + b mod 64"
    unfolding abc by (simp_all add: div_mult_mod_eq)
  then show "r div 4096 * 4096 + r div 64 mod 64 * 64 + r mod 64 = r"
    and "r div 262144 * 262144 + r div 4096 mod 64 * 4096 + r div 64 mod 64 * 64 + r mod 64 = r"
    unfolding d abc [symmetric] by linarith+
qed

lemma decode_encode_2:
  assumes "128 \<le> r" and "r < 2048"
  shows "decode_rune (char_of (192 + r div 64) # char_of (128 + r mod 64) # s) = (r, 2)"
proof -
  have q: "2 \<le> r div 64" "r div 64 < 32" and m: "r mod 64 < 64" using assms by auto
  have "r div 64 * 64 + r mod 64 = r" by simp
  with q m show ?thesis by (simp add: decode_rune.simps is_cont_def Let_def)
qed

lemma decode_encode_3:
  assumes "2048 \<le> r" and "r < 65536" and "valid_rune r"
  shows "decode_rune (char_of (224 + r div 4096) # char_of (128 + r div 64 mod 64) #
           char_of (128 + r mod 64) # s) = (r, 3)"
proof -
  let ?a = "r div 4096" and ?b = "r div 64 mod 64" and ?c = "r mod 64"
  have a: "?a < 16" and b: "?b < 64" and c: "?c < 64" using assms by auto
  have r: "?a * 4096 + ?b * 64 + ?c = r" using base64_digits(1) [of r] by linarith
  have "?a = 0 \<Longrightarrow> 32 \<le> ?b" using assms(1) r b c by linarith
  moreover have "?a = 13 \<Longrightarrow> ?b < 32"
  proof -
    assume "?a = 13"
    then have "r < 57344" using r b c by linarith
    with assms(3) have "r < 55296" by (auto simp: valid_rune_def)
    with \<open>?a = 13\<close> r show "?b < 32" by linarith
  qed
  ultimately have "second_ok (char_of (224 + ?a)) (char_of (128 + ?b))"
    using a b by (auto simp: second_ok_def second_lo_def second_hi_def)
  then show ?thesis using a b c r
    by (simp add: decode_rune.simps is_cont_def Let_def)
qed

lemma decode_encode_4:
  assumes "65536 \<le> r" and "r < 1114112"
  shows "decode_rune (char_of (240 + r div 262144) # char_of (128 + r div 4096 mod 64) #
           char_of (128 + r div 64 mod 64) # char_of (128 + r mod 64) # s) = (r, 4)"
proof -
  let ?a = "r div 262144" and ?b = "r div 4096 mod 64" and ?c = "r div 64 mod 64" and ?d = "r mod 64"
  have a: "?a < 5" and b: "?b < 64" and c: "?c < 64" and d: "?d < 64" using assms by auto
  have r: "?a * 262144 + ?b * 4096 + ?c * 64 + ?d = r" using base64_digits(2) [of r] by linarith
  have "?a = 0 \<Longrightarrow> 16 \<le> ?b" using assms(1) r b c d by linarith
  moreover have "?a = 4 \<Longrightarrow> ?b < 16" using assms(2) r by linarith
  ultimately have "second_ok (char_of (240 + ?a)) (char_of (128 + ?b))"
    using a b by (auto simp: second_ok_def second_lo_def second_hi_def)
  then show ?thesis using a b c d r
    by (simp add: decode_rune.simps is_cont_def Let_def)
qed

lemma decode_encode_rune:
  "valid_rune r \<Longrightarrow> decode_rune (encode_rune r @ s) = (r, length (encode_rune r))"
  using decode_encode_2 decode_encode_3 decode_encode_4
  by (auto simp: encode_rune_def Let_def decode_ascii valid_rune_def)

section \<open>Trimming white space\<close>

text \<open>\<^verbatim>\<open>unicode.IsSpace\<close>, the last rune of a string (\<^verbatim>\<open>utf8.DecodeLastRuneInString\<close>, which looks back
  over at most three continuation bytes), and \<^verbatim>\<open>strings.TrimSpace\<close>.\<close>

definition is_space_rune :: "nat \<Rightarrow> bool" where
  "is_space_rune r \<longleftrightarrow>
     9 \<le> r \<and> r \<le> 13 \<or> r = 32 \<or> r = 133 \<or> r = 160 \<or> r = 5760 \<or> 8192 \<le> r \<and> r \<le> 8202 \<or>
     r = 8232 \<or> r = 8233 \<or> r = 8239 \<or> r = 8287 \<or> r = 12288"

text \<open>ASCII is decided without the large constants.\<close>

lemma is_space_rune_code [code]:
  "is_space_rune r \<longleftrightarrow>
     (if r < 128 then 9 \<le> r \<and> r \<le> 13 \<or> r = 32
      else r = 133 \<or> r = 160 \<or> r = 5760 \<or> 8192 \<le> r \<and> r \<le> 8202 \<or> r = 8232 \<or> r = 8233 \<or>
        r = 8239 \<or> r = 8287 \<or> r = 12288)"
  by (auto simp: is_space_rune_def)

function trim_left :: "string \<Rightarrow> string" where
  "trim_left s =
     (if s = [] then [] else if is_space_rune (fst (decode_rune s)) then trim_left (drop (snd (decode_rune s)) s) else s)"
  by auto
termination trim_left
  using decode_width_bounds by (relation "measure length") (auto, fastforce)

declare trim_left.simps [simp del]

definition decode_last_rune :: "string \<Rightarrow> nat \<times> nat" where
  "decode_last_rune s =
     (if s = [] then (rune_error, 0)
      else let n = length s
           in if byte_of (last s) < 128 then (byte_of (last s), 1)
              else let start = (case filter (\<lambda>k. k \<le> n \<and> \<not> is_cont (s ! (n - k))) [2, 3, 4] of
                                  k # _ \<Rightarrow> n - k | [] \<Rightarrow> n - 5);
                       (r, size) = decode_rune (drop start s)
                   in if start + size \<noteq> n then (rune_error, 1) else (r, size))"

lemma decode_last_width: "s \<noteq> [] \<Longrightarrow> 1 \<le> snd (decode_last_rune s)"
proof -
  assume s: "s \<noteq> []"
  let ?start = "case filter (\<lambda>k. k \<le> length s \<and> \<not> is_cont (s ! (length s - k))) [2, 3, 4] of
      k # _ \<Rightarrow> length s - k | [] \<Rightarrow> length s - 5"
  have "k \<in> {2, 3, 4}" if "filter P [2, 3, 4] = k # ks" for k ks and P :: "nat \<Rightarrow> bool"
    using that by (auto split: if_splits)
  then have "?start < length s" using s by (auto split: list.splits)
  then have "1 \<le> snd (decode_rune (drop ?start s))" using decode_width_bounds [of "drop ?start s"] by auto
  then show ?thesis using s by (simp add: decode_last_rune_def Let_def case_prod_unfold)
qed

function trim_right :: "string \<Rightarrow> string" where
  "trim_right s =
     (if s = [] then []
      else if is_space_rune (fst (decode_last_rune s)) then trim_right (take (length s - snd (decode_last_rune s)) s) else s)"
  by auto
termination trim_right
proof (relation "measure length", goal_cases)
  case (2 s)
  then show ?case using decode_last_width [of s] by auto
qed simp

declare trim_right.simps [simp del]

definition TrimSpace :: "string \<Rightarrow> string" where
  "TrimSpace s = trim_right (trim_left s)"

lemma trim_left_suffix: "\<exists>a. s = a @ trim_left s"
proof (induction s rule: trim_left.induct)
  case (1 s)
  show ?case
  proof (cases "s \<noteq> [] \<and> is_space_rune (fst (decode_rune s))")
    case True
    with 1 obtain a where "drop (snd (decode_rune s)) s = a @ trim_left (drop (snd (decode_rune s)) s)" by blast
    then have "s = (take (snd (decode_rune s)) s @ a) @ trim_left (drop (snd (decode_rune s)) s)"
      by (metis append.assoc append_take_drop_id)
    moreover have "trim_left s = trim_left (drop (snd (decode_rune s)) s)" using True by (subst trim_left.simps) simp
    ultimately show ?thesis by metis
  next
    case False
    then show ?thesis by (subst trim_left.simps) auto
  qed
qed

lemma trim_right_prefix: "\<exists>b. s = trim_right s @ b"
proof (induction s rule: trim_right.induct)
  case (1 s)
  show ?case
  proof (cases "s \<noteq> [] \<and> is_space_rune (fst (decode_last_rune s))")
    case True
    let ?n = "length s - snd (decode_last_rune s)"
    from True 1 obtain b where "take ?n s = trim_right (take ?n s) @ b" by blast
    then have "s = trim_right (take ?n s) @ b @ drop ?n s" by (metis append.assoc append_take_drop_id)
    moreover have "trim_right s = trim_right (take ?n s)" using True by (subst trim_right.simps) simp
    ultimately show ?thesis by metis
  next
    case False
    then show ?thesis by (subst trim_right.simps) auto
  qed
qed

lemma TrimSpace_sublist: "\<exists>a b. s = a @ TrimSpace s @ b"
proof -
  obtain a where a: "s = a @ trim_left s" using trim_left_suffix by blast
  obtain b where b: "trim_left s = TrimSpace s @ b" using trim_right_prefix [of "trim_left s"] by (auto simp: TrimSpace_def)
  show ?thesis using a unfolding b by blast
qed

lemma length_TrimSpace: "length (TrimSpace s) \<le> length s"
proof -
  obtain a b where "s = a @ TrimSpace s @ b" using TrimSpace_sublist by blast
  then have "length s = length a + length (TrimSpace s) + length b" by (metis length_append add.assoc)
  then show ?thesis by simp
qed

text \<open>On ASCII text, trimming drops the bytes that are spaces.\<close>

abbreviation ascii :: "string \<Rightarrow> bool" where
  "ascii s \<equiv> list_all (\<lambda>c. byte_of c < 128) s"

lemma is_space_rune_ascii: "byte_of c < 128 \<Longrightarrow> is_space_rune (byte_of c) = is_space c"
  by (auto simp: is_space_rune_def is_space_def)

lemma trim_left_ascii: "ascii s \<Longrightarrow> trim_left s = dropWhile is_space s"
proof (induction s)
  case Nil
  show ?case by (subst trim_left.simps) simp
next
  case (Cons c s)
  then have d: "decode_rune (c # s) = (byte_of c, 1)" by (simp add: decode_ascii)
  show ?case using Cons by (subst trim_left.simps) (simp add: d is_space_rune_ascii del: decode_rune.simps)
qed

lemma trim_right_ascii: "ascii s \<Longrightarrow> trim_right s = rev (dropWhile is_space (rev s))"
proof (induction s rule: rev_induct)
  case Nil
  then show ?case by (subst trim_right.simps) simp
next
  case (snoc c s)
  then have "decode_last_rune (s @ [c]) = (byte_of c, 1)" by (simp add: decode_last_rune_def)
  then show ?case using snoc by (subst trim_right.simps) (simp add: is_space_rune_ascii)
qed

lemma ascii_dropWhile: "ascii s \<Longrightarrow> ascii (dropWhile P s)"
  by (auto simp: list_all_iff dest: set_dropWhileD)

lemma TrimSpace_ascii: "ascii s \<Longrightarrow> TrimSpace s = trim_space s"
  by (simp add: TrimSpace_def trim_left_ascii trim_right_ascii ascii_dropWhile trim_space_def)

end
