(* ===== verification/Dlp_Redaction.thy ===== *)
theory Dlp_Redaction
  imports Dlp_Patterns Go_Sort Go_Sha256 Go_Utf8
begin

text \<open>
  The redaction engine (\<^verbatim>\<open>pkg/dlp/scanner/redaction.go\<close>): the masks, placeholders, hashes and
  tokens of single values, and the loop that puts them into the content from the last finding to
  the first.  \<open>RedactContent\<close> takes the sorting function of \<^verbatim>\<open>sort.Slice\<close> as an argument and is
  \<open>Panic\<close> where a slice expression of the loop is out of range.

  The reference is \<open>splice\<close>, which writes the content from left to right with every finding
  replaced; the loop computes it for findings that do not overlap.
\<close>

section \<open>Masks\<close>

definition repeat_X :: "nat \<Rightarrow> string" where
  "repeat_X n = replicate n CHR ''X''"

definition maskSSN :: "string \<Rightarrow> string" where
  "maskSSN ssn =
     (let digits = strip_formatting ssn
      in if length digits = 9
         then (if str_contains ssn ''-'' then ''XXX-XX-'' @ drop 5 digits
               else if str_contains ssn '' '' then ''XXX XX '' @ drop 5 digits
               else ''XXXXX'' @ drop 5 digits)
         else repeat_X (length ssn))"

text \<open>The loop ranges over the runes of the value; \<open>i\<close> is a byte index.\<close>

definition formatWithSeparator :: "string \<Rightarrow> string \<Rightarrow> nat \<Rightarrow> string" where
  "formatWithSeparator v sep groupSize =
     foldl (\<lambda>formatted (i, r).
              (if i > 0 \<and> i mod groupSize = 0 then formatted @ sep else formatted) @ encode_rune r)
       [] (range_runes 0 v)"

definition maskCreditCard :: "string \<Rightarrow> string" where
  "maskCreditCard cc =
     (let digits = strip_formatting cc
      in if 12 \<le> length digits
         then let masked = repeat_X (length digits - 4) @ drop (length digits - 4) digits
              in if str_contains cc ''-'' then formatWithSeparator masked ''-'' 4
                 else if str_contains cc '' '' then formatWithSeparator masked '' '' 4
                 else masked
         else repeat_X (length cc))"

definition maskEmail :: "string \<Rightarrow> string" where
  "maskEmail email =
     (let parts = split_byte (CHR ''@'') email
      in if length parts \<noteq> 2 then repeat_X (length email)
         else let username = parts ! 0;
                  domain = parts ! 1;
                  maskedUsername =
                    (if length username \<le> 2 then repeat_X (length username)
                     else string_of_byte (username ! 0) @ repeat_X (length username - 2) @
                          string_of_byte (username ! (length username - 1)))
              in maskedUsername @ ''@'' @ domain)"

definition maskPhoneNumber :: "string \<Rightarrow> string" where
  "maskPhoneNumber phone =
     (let digits = replace_byte (CHR ''-'') [] (replace_byte (CHR '')'') [] (replace_byte (CHR ''('') [] phone));
          digits = replace_byte (CHR ''.'') [] (replace_byte (CHR '' '') [] digits)
      in if 10 \<le> length digits
         then let areaCode = take 3 digits
              in if str_contains phone ''('' \<and> str_contains phone '')''
                 then ''('' @ areaCode @ '') XXX-XXXX''
                 else if str_contains phone ''-'' then areaCode @ ''-XXX-XXXX''
                 else areaCode @ ''XXXXXXX''
         else repeat_X (length phone))"

definition maskIPAddress :: "string \<Rightarrow> string" where
  "maskIPAddress ip =
     (let parts = split_byte (CHR ''.'') ip
      in if length parts = 4 then parts ! 0 @ ''.XXX.XXX.XXX'' else repeat_X (length ip))"

definition maskGeneric :: "string \<Rightarrow> string" where
  "maskGeneric v =
     (if length v \<le> 4 then repeat_X (length v)
      else string_of_byte (v ! 0) @ repeat_X (length v - 2) @ string_of_byte (v ! (length v - 1)))"

definition maskValue :: "string \<Rightarrow> PIIType \<Rightarrow> string" where
  "maskValue v piiType =
     (if piiType = PIITypeSSN then maskSSN v
      else if piiType = PIITypeCreditCard then maskCreditCard v
      else if piiType = PIITypeEmail then maskEmail v
      else if piiType = PIITypePhoneNumber then maskPhoneNumber v
      else if piiType = PIITypeIPAddress then maskIPAddress v
      else maskGeneric v)"

section \<open>Placeholders, hashes and tokens\<close>

definition replaceValue :: "string \<Rightarrow> PIIType \<Rightarrow> string" where
  "replaceValue v piiType =
     (if piiType = PIITypeSSN then ''[SSN]''
      else if piiType = PIITypeCreditCard then ''[CREDIT_CARD]''
      else if piiType = PIITypeEmail then ''[EMAIL]''
      else if piiType = PIITypePhoneNumber then ''[PHONE]''
      else if piiType = PIITypeIPAddress then ''[IP_ADDRESS]''
      else if piiType = PIITypeName then ''[NAME]''
      else if piiType = PIITypeAddress then ''[ADDRESS]''
      else if piiType = PIITypeDateOfBirth then ''[DATE_OF_BIRTH]''
      else if piiType = PIITypePassport then ''[PASSPORT]''
      else if piiType = PIITypeDriversLicense then ''[DRIVERS_LICENSE]''
      else if piiType = PIITypeBankAccount then ''[BANK_ACCOUNT]''
      else ''[PII]'')"

definition hashValue :: "string \<Rightarrow> string" where
  "hashValue v = ''[HASH:'' @ hex_of (take 8 (sha256 v)) @ '']''"

definition tokenizeValue :: "string \<Rightarrow> PIIType \<Rightarrow> string" where
  "tokenizeValue v piiType =
     (let token = hex_of (take 4 (sha256 v))
      in if piiType = PIITypeSSN then ''SSN_'' @ token
         else if piiType = PIITypeCreditCard then ''CC_'' @ token
         else if piiType = PIITypeEmail then ''EMAIL_'' @ token
         else if piiType = PIITypePhoneNumber then ''PHONE_'' @ token
         else ''PII_'' @ token)"

primrec applyRedactionStrategy ::
  "string \<Rightarrow> PIIType \<Rightarrow> RedactionStrategy \<Rightarrow> (string, string) outcome" where
  "applyRedactionStrategy v piiType RedactionNone = Ok v"
| "applyRedactionStrategy v piiType RedactionMask = Ok (maskValue v piiType)"
| "applyRedactionStrategy v piiType RedactionReplace = Ok (replaceValue v piiType)"
| "applyRedactionStrategy v piiType RedactionHash = Ok (hashValue v)"
| "applyRedactionStrategy v piiType RedactionRemove = Ok []"
| "applyRedactionStrategy v piiType RedactionTokenize = Ok (tokenizeValue v piiType)"
| "applyRedactionStrategy v piiType (RedactionOther s) = Err (''unsupported redaction strategy: '' @ s)"

section \<open>Redacting content\<close>

type_synonym finding_sorter = "(Finding \<Rightarrow> Finding \<Rightarrow> bool) \<Rightarrow> Finding list \<Rightarrow> Finding list"

text \<open>One iteration of the loop, and the loop.\<close>

definition redact_step :: "RedactionStrategy \<Rightarrow> string \<Rightarrow> Finding \<Rightarrow> (string, string) outcome" where
  "redact_step strategy content f =
     (if Finding_Redacted f then Ok content
      else case applyRedactionStrategy (Finding_Value f) (Finding_Type f) strategy of
             Ok redactedValue \<Rightarrow>
               (case go_slice content 0 (Finding_StartPos f) of
                  None \<Rightarrow> Panic
                | Some before \<Rightarrow>
                    (case go_slice content (Finding_EndPos f) (int (length content)) of
                       None \<Rightarrow> Panic
                     | Some after \<Rightarrow> Ok (before @ redactedValue @ after)))
           | Err _ \<Rightarrow> Ok content
           | Panic \<Rightarrow> Panic)"

primrec redact_loop :: "RedactionStrategy \<Rightarrow> Finding list \<Rightarrow> string \<Rightarrow> (string, string) outcome" where
  "redact_loop strategy [] content = Ok content"
| "redact_loop strategy (f # fs) content =
     bind_outcome (redact_step strategy content f) (redact_loop strategy fs)"

definition later :: "Finding \<Rightarrow> Finding \<Rightarrow> bool" where
  "later f g \<longleftrightarrow> Finding_StartPos f > Finding_StartPos g"

definition RedactContent ::
  "finding_sorter \<Rightarrow> string \<Rightarrow> Finding list \<Rightarrow> RedactionStrategy \<Rightarrow> (string, string) outcome" where
  "RedactContent sort_slice content findings strategy =
     (if strategy = RedactionNone then Ok content
      else redact_loop strategy (sort_slice later findings) content)"

definition GenerateRedactionMap :: "Finding list \<Rightarrow> RedactionStrategy \<Rightarrow> (string \<rightharpoonup> string)" where
  "GenerateRedactionMap findings strategy =
     foldl (\<lambda>redactionMap f.
              if Finding_Redacted f then redactionMap
              else case applyRedactionStrategy (Finding_Value f) (Finding_Type f) strategy of
                     Ok redactedValue \<Rightarrow> redactionMap(Finding_Value f \<mapsto> redactedValue)
                   | _ \<Rightarrow> redactionMap)
       Map.empty findings"

section \<open>The reference: splicing from left to right\<close>

definition redacted_value :: "RedactionStrategy \<Rightarrow> Finding \<Rightarrow> string" where
  "redacted_value strategy f =
     (case applyRedactionStrategy (Finding_Value f) (Finding_Type f) strategy of
        Ok v \<Rightarrow> v | _ \<Rightarrow> [])"

primrec splice :: "RedactionStrategy \<Rightarrow> string \<Rightarrow> nat \<Rightarrow> Finding list \<Rightarrow> string" where
  "splice strategy content p [] = drop p content"
| "splice strategy content p (f # fs) =
     take (nat (Finding_StartPos f) - p) (drop p content) @ redacted_value strategy f @
     splice strategy content (nat (Finding_EndPos f)) fs"

definition finding_in :: "string \<Rightarrow> Finding \<Rightarrow> bool" where
  "finding_in content f \<longleftrightarrow>
     0 \<le> Finding_StartPos f \<and> Finding_StartPos f < Finding_EndPos f \<and>
     Finding_EndPos f \<le> int (length content)"

definition findings_apart :: "Finding \<Rightarrow> Finding \<Rightarrow> bool" where
  "findings_apart f g \<longleftrightarrow>
     Finding_EndPos f \<le> Finding_StartPos g \<or> Finding_EndPos g \<le> Finding_StartPos f"

primrec disjoint_findings :: "Finding list \<Rightarrow> bool" where
  "disjoint_findings [] = True"
| "disjoint_findings (f # fs) = (list_all (findings_apart f) fs \<and> disjoint_findings fs)"

text \<open>The findings from the first to the last.\<close>

definition in_order :: "Finding list \<Rightarrow> Finding list" where
  "in_order fs = sort_key Finding_StartPos fs"


section \<open>The loop computes the splice\<close>

primrec supported :: "RedactionStrategy \<Rightarrow> bool" where
  "supported RedactionNone = True"
| "supported RedactionMask = True"
| "supported RedactionReplace = True"
| "supported RedactionHash = True"
| "supported RedactionRemove = True"
| "supported RedactionTokenize = True"
| "supported (RedactionOther s) = False"

lemma apply_supported:
  "supported strategy \<Longrightarrow>
   applyRedactionStrategy (Finding_Value f) (Finding_Type f) strategy = Ok (redacted_value strategy f)"
  by (cases strategy) (simp_all add: redacted_value_def)

lemma apply_never_panics: "applyRedactionStrategy v t strategy \<noteq> Panic"
  by (cases strategy) simp_all

text \<open>Findings one after the other from position \<open>p\<close> on, within the first \<open>n\<close> bytes.\<close>

primrec chain :: "nat \<Rightarrow> nat \<Rightarrow> Finding list \<Rightarrow> bool" where
  "chain n p [] = (p \<le> n)"
| "chain n p (f # fs) =
     (int p \<le> Finding_StartPos f \<and> Finding_StartPos f < Finding_EndPos f \<and>
      chain n (nat (Finding_EndPos f)) fs)"

lemma chain_le: "chain n p fs \<Longrightarrow> p \<le> n"
  by (induction fs arbitrary: p) (force split: if_splits)+

lemma redact_loop_append:
  "redact_loop strategy (fs @ gs) content =
   bind_outcome (redact_loop strategy fs content) (redact_loop strategy gs)"
proof (induction fs arbitrary: content)
  case Nil
  then show ?case by simp
next
  case (Cons f fs)
  then show ?case by (cases "redact_step strategy content f") simp_all
qed

lemma redact_loop_chain:
  assumes "supported strategy" and "chain (length content) p fs" and "list_all (\<lambda>f. \<not> Finding_Redacted f) fs"
  shows "redact_loop strategy (rev fs) content = Ok (take p content @ splice strategy content p fs)"
  using assms(2,3)
proof (induction fs arbitrary: p)
  case Nil
  then show ?case by simp
next
  case (Cons f fs)
  obtain a b where ab: "Finding_StartPos f = int a" "Finding_EndPos f = int b"
    using Cons.prems(1) by (metis chain.simps(2) dual_order.strict_trans2 nonneg_int_cases less_imp_le of_nat_0_le_iff order_trans)
  have le: "p \<le> a" "a < b" "b \<le> length content"
    using Cons.prems(1) chain_le by (auto simp: ab)
  let ?R = "take b content @ splice strategy content b fs"
  have IH: "redact_loop strategy (rev fs) content = Ok ?R"
    using Cons by (simp add: ab)
  have "go_slice ?R 0 (int a) = Some (take a content)"
    using le by (simp add: go_slice_prefix)
  moreover have "go_slice ?R (int b) (int (length ?R)) = Some (splice strategy content b fs)"
    using le by (subst go_slice_suffix) simp_all
  ultimately have "redact_step strategy ?R f =
      Ok (take a content @ redacted_value strategy f @ splice strategy content b fs)"
    using Cons.prems(2) by (simp add: redact_step_def apply_supported assms(1) ab)
  moreover have "take a content = take p content @ take (a - p) (drop p content)"
    using le by (metis append_take_drop_id le_add_diff_inverse take_add)
  ultimately show ?case
    by (simp add: redact_loop_append IH ab)
qed

lemma redact_loop_skips_redacted:
  "redact_loop strategy fs content = redact_loop strategy (filter (\<lambda>f. \<not> Finding_Redacted f) fs) content"
proof (induction fs arbitrary: content)
  case Nil
  then show ?case by simp
next
  case (Cons f fs)
  show ?case
  proof (cases "Finding_Redacted f")
    case True
    with Cons show ?thesis by (simp add: redact_step_def)
  next
    case False
    have "redact_loop strategy fs = redact_loop strategy (filter (\<lambda>f. \<not> Finding_Redacted f) fs)"
      using Cons.IH by blast
    with False show ?thesis by simp
  qed
qed

section \<open>Disjoint findings, sorted\<close>

lemma disjoint_findings_sorted_wrt: "disjoint_findings fs \<longleftrightarrow> sorted_wrt findings_apart fs"
  by (induction fs) (auto simp: list_all_iff)

lemma findings_apart_sym: "findings_apart f g \<longleftrightarrow> findings_apart g f"
  by (auto simp: findings_apart_def)

lemma disjoint_findings_perm:
  "mset fs = mset gs \<Longrightarrow> disjoint_findings fs \<longleftrightarrow> disjoint_findings gs"
  unfolding disjoint_findings_sorted_wrt by (rule sorted_wrt_symmetric_perm [OF findings_apart_sym])

lemma disjoint_findings_filter: "disjoint_findings fs \<Longrightarrow> disjoint_findings (filter P fs)"
  unfolding disjoint_findings_sorted_wrt by (rule sorted_wrt_filter)

lemma disjoint_findings_starts:
  "disjoint_findings fs \<Longrightarrow> list_all (finding_in content) fs \<Longrightarrow> distinct (map Finding_StartPos fs)"
  by (induction fs) (fastforce simp: list_all_iff findings_apart_def finding_in_def)+

lemma chain_of_sorted:
  assumes "disjoint_findings fs" and "list_all (finding_in content) fs"
    and "sorted_wrt (\<lambda>f g. Finding_StartPos f \<le> Finding_StartPos g) fs"
    and "list_all (\<lambda>f. int p \<le> Finding_StartPos f) fs" and "p \<le> length content"
  shows "chain (length content) p fs"
  using assms
proof (induction fs arbitrary: p)
  case Nil
  then show ?case by simp
next
  case (Cons f fs)
  have f: "0 \<le> Finding_StartPos f" "Finding_StartPos f < Finding_EndPos f"
    "Finding_EndPos f \<le> int (length content)"
    using Cons.prems(2) by (auto simp: finding_in_def)
  have "Finding_EndPos f \<le> Finding_StartPos g" if "g \<in> set fs" for g
    using that f Cons.prems(1,2,3) by (fastforce simp: list_all_iff findings_apart_def finding_in_def)
  then have "list_all (\<lambda>g. int (nat (Finding_EndPos f)) \<le> Finding_StartPos g) fs"
    using f by (auto simp: list_all_iff)
  moreover have "nat (Finding_EndPos f) \<le> length content" using f by linarith
  ultimately show ?case using Cons f by simp
qed

definition active :: "Finding list \<Rightarrow> Finding list" where
  "active fs = filter (\<lambda>f. \<not> Finding_Redacted f) fs"

lemma RedactContent_disjoint:
  assumes "slice_sort srt" and "supported strategy" and "strategy \<noteq> RedactionNone"
    and "disjoint_findings fs" and "list_all (finding_in content) fs"
  shows "RedactContent srt content fs strategy = Ok (splice strategy content 0 (in_order (active fs)))"
proof -
  have less: "later f g \<longleftrightarrow> - Finding_StartPos f < - Finding_StartPos g" for f g
    by (auto simp: later_def)
  let ?asc = "in_order (active fs)"
  have "distinct (map Finding_StartPos fs)" by (rule disjoint_findings_starts [OF assms(4,5)])
  then have "distinct (map (\<lambda>f. - Finding_StartPos f) fs)"
    by (simp add: distinct_map inj_on_def)
  moreover have "mset (rev (in_order fs)) = mset fs" by (simp add: in_order_def)
  moreover have "sorted_wrt (\<lambda>f g. - Finding_StartPos f \<le> - Finding_StartPos g) (rev (in_order fs))"
    by (simp add: in_order_def sorted_wrt_rev flip: sorted_wrt_map)
  ultimately have "srt later fs = rev (in_order fs)"
    by (rule slice_sort.sorted_unique [OF assms(1) less])
  moreover have "filter (\<lambda>f. \<not> Finding_Redacted f) (rev (in_order fs)) = rev ?asc"
    by (simp add: in_order_def active_def filter_sort rev_filter [symmetric])
  moreover have "chain (length content) 0 ?asc"
  proof (rule chain_of_sorted)
    have "mset ?asc = mset (active fs)" by (simp add: in_order_def)
    then show "disjoint_findings ?asc"
      using disjoint_findings_perm disjoint_findings_filter [OF assms(4)] by (metis active_def)
    show "list_all (finding_in content) ?asc"
      using assms(5) by (auto simp: in_order_def active_def list_all_iff)
    then show "list_all (\<lambda>f. int 0 \<le> Finding_StartPos f) ?asc"
      by (auto simp: list_all_iff finding_in_def)
    show "sorted_wrt (\<lambda>f g. Finding_StartPos f \<le> Finding_StartPos g) ?asc"
      by (simp add: in_order_def flip: sorted_wrt_map)
  qed simp
  then have "redact_loop strategy (rev ?asc) content = Ok (take 0 content @ splice strategy content 0 ?asc)"
    by (rule redact_loop_chain [OF assms(2)])
       (auto simp: in_order_def active_def list_all_iff)
  ultimately show ?thesis using assms(3)
    by (simp add: RedactContent_def redact_loop_skips_redacted [of _ "rev (in_order fs)"])
qed


section \<open>The interface of a redaction engine\<close>

text \<open>What the scanner and the service rely on: no strategy means no change, no error is ever
  returned, findings that do not overlap are spliced, and a redaction map only sends the value
  of a finding to its redaction.\<close>

locale redaction_engine =
  fixes redact :: "string \<Rightarrow> Finding list \<Rightarrow> RedactionStrategy \<Rightarrow> (string, string) outcome"
    and redaction_map :: "Finding list \<Rightarrow> RedactionStrategy \<Rightarrow> (string \<rightharpoonup> string)"
  assumes redact_none: "redact content fs RedactionNone = Ok content"
    and redact_no_error: "redact content fs strategy \<noteq> Err e"
    and redact_splices: "supported strategy \<Longrightarrow> strategy \<noteq> RedactionNone \<Longrightarrow> disjoint_findings fs \<Longrightarrow>
      list_all (finding_in content) fs \<Longrightarrow>
      redact content fs strategy = Ok (splice strategy content 0 (in_order (active fs)))"
    and redact_unsupported: "\<not> supported strategy \<Longrightarrow> redact content fs strategy = Ok content"
    and map_sound: "redaction_map fs strategy v = Some w \<Longrightarrow>
      \<exists>f \<in> set fs. \<not> Finding_Redacted f \<and> Finding_Value f = v \<and> w = redacted_value strategy f"
    and map_complete: "supported strategy \<Longrightarrow> f \<in> set fs \<Longrightarrow> \<not> Finding_Redacted f \<Longrightarrow>
      redaction_map fs strategy (Finding_Value f) \<noteq> None"
begin

lemma redact_disjoint_ok:
  "disjoint_findings fs \<Longrightarrow> list_all (finding_in content) fs \<Longrightarrow> \<exists>out. redact content fs strategy = Ok out"
  using redact_splices redact_none redact_unsupported by (cases "supported strategy") metis+

lemma redact_no_findings: "redact content [] strategy = Ok content"
proof (cases "supported strategy \<and> strategy \<noteq> RedactionNone")
  case True
  then show ?thesis using redact_splices [of strategy "[]" content] by (simp add: in_order_def active_def)
qed (use redact_none redact_unsupported in auto)

end

locale finding_sort = slice_sort sort_slice for sort_slice :: finding_sorter

lemma redact_step_no_error: "redact_step strategy content f \<noteq> Err e"
  by (auto simp: redact_step_def split: outcome.splits option.splits)

lemma redact_loop_no_error: "redact_loop strategy fs content \<noteq> Err e"
proof (induction fs arbitrary: content)
  case Nil
  then show ?case by simp
next
  case (Cons f fs)
  then show ?case using redact_step_no_error [of strategy content f]
    by (cases "redact_step strategy content f") auto
qed

lemma redact_loop_unsupported: "\<not> supported strategy \<Longrightarrow> redact_loop strategy fs content = Ok content"
  by (induction fs) (cases strategy; simp add: redact_step_def)+

lemma GenerateRedactionMap_snoc:
  "GenerateRedactionMap (fs @ [f]) strategy =
     (if Finding_Redacted f then GenerateRedactionMap fs strategy
      else case applyRedactionStrategy (Finding_Value f) (Finding_Type f) strategy of
             Ok w \<Rightarrow> (GenerateRedactionMap fs strategy)(Finding_Value f \<mapsto> w)
           | _ \<Rightarrow> GenerateRedactionMap fs strategy)"
  unfolding GenerateRedactionMap_def by (simp only: foldl_append foldl.simps)

lemma GenerateRedactionMap_sound:
  "GenerateRedactionMap fs strategy v = Some w \<Longrightarrow>
   \<exists>f \<in> set fs. \<not> Finding_Redacted f \<and> Finding_Value f = v \<and> w = redacted_value strategy f"
proof (induction fs rule: rev_induct)
  case Nil
  then show ?case by (simp add: GenerateRedactionMap_def)
next
  case (snoc f fs)
  then show ?case
    by (fastforce simp: GenerateRedactionMap_snoc redacted_value_def split: if_splits outcome.splits)
qed

lemma GenerateRedactionMap_complete:
  "supported strategy \<Longrightarrow> f \<in> set fs \<Longrightarrow> \<not> Finding_Redacted f \<Longrightarrow>
   GenerateRedactionMap fs strategy (Finding_Value f) \<noteq> None"
  by (induction fs rule: rev_induct) (auto simp: GenerateRedactionMap_snoc apply_supported)

sublocale finding_sort \<subseteq> redaction_engine "RedactContent sort_slice" GenerateRedactionMap
proof
  show "RedactContent sort_slice content fs RedactionNone = Ok content" for content fs
    by (simp add: RedactContent_def)
  show "RedactContent sort_slice content fs strategy \<noteq> Err e" for content fs strategy e
    by (simp add: RedactContent_def redact_loop_no_error)
  show "RedactContent sort_slice content fs strategy = Ok (splice strategy content 0 (in_order (active fs)))"
    if "supported strategy" "strategy \<noteq> RedactionNone" "disjoint_findings fs"
      "list_all (finding_in content) fs" for strategy fs content
    by (rule RedactContent_disjoint [OF slice_sort_axioms that])
  show "RedactContent sort_slice content fs strategy = Ok content"
    if "\<not> supported strategy" for strategy fs content
    using that by (simp add: RedactContent_def redact_loop_unsupported)
qed (use GenerateRedactionMap_sound GenerateRedactionMap_complete in auto)

interpretation basic_redaction: finding_sort insertion_sort
  by (simp add: finding_sort_def insertion_sort.slice_sort_axioms)

section \<open>What the masks keep\<close>

text \<open>The reference for \<open>formatWithSeparator\<close>: the value in groups, joined by the separator.\<close>

function groups :: "nat \<Rightarrow> 'a list \<Rightarrow> 'a list list" where
  "groups n xs = (if length xs \<le> n \<or> n = 0 then [xs] else take n xs # groups n (drop n xs))"
  by pat_completeness auto
termination by (relation "measure (\<lambda>(n, xs). length xs)") auto

declare groups.simps [simp del]

abbreviation sep_at :: "nat \<Rightarrow> string \<Rightarrow> nat \<Rightarrow> string" where
  "sep_at n sep i \<equiv> (if i > 0 \<and> i mod n = 0 then sep else [])"

lemma foldl_append_concat: "foldl (\<lambda>acc x. acc @ g x) a xs = a @ concat (map g xs)"
  by (induction xs arbitrary: a) auto

lemma formatWithSeparator_ascii:
  assumes "list_all (\<lambda>c. byte_of c < 128) v"
  shows "formatWithSeparator v sep n = concat (map (\<lambda>i. sep_at n sep i @ [v ! i]) [0 ..< length v])"
proof -
  have "formatWithSeparator v sep n =
      foldl (\<lambda>acc p. acc @ (sep_at n sep (fst p) @ encode_rune (snd p))) [] (zip [0 ..< length v] (map byte_of v))"
    unfolding formatWithSeparator_def range_runes_ascii [OF assms] add_0
    by (rule foldl_cong) auto
  also have "\<dots> = concat (map (\<lambda>p. sep_at n sep (fst p) @ encode_rune (snd p)) (zip [0 ..< length v] (map byte_of v)))"
    by (simp add: foldl_append_concat)
  also have "map (\<lambda>p. sep_at n sep (fst p) @ encode_rune (snd p)) (zip [0 ..< length v] (map byte_of v)) =
      map (\<lambda>i. sep_at n sep i @ [v ! i]) [0 ..< length v]"
    by (rule nth_equalityI) (use assms in \<open>auto simp: list_all_length encode_ascii\<close>)
  finally show ?thesis .
qed

lemma filter_formatWithSeparator:
  assumes "list_all (\<lambda>c. byte_of c < 128) v" and "filter P sep = []"
  shows "filter P (formatWithSeparator v sep n) = filter P v"
proof -
  have "filter P (concat (map (\<lambda>i. sep_at n sep i @ [v ! i]) is)) = filter P (map ((!) v) is)" for "is"
    by (induction "is") (auto simp: assms(2))
  then show ?thesis by (simp add: formatWithSeparator_ascii [OF assms(1)] map_nth)
qed

definition sample_finding :: "PIIType \<Rightarrow> string \<Rightarrow> int \<Rightarrow> Finding" where
  "sample_finding t v a =
     \<lparr>Finding_ID = ''f'', Finding_Type = t, Finding_Pattern = t, Finding_Value = v,
      Finding_Confidence = 1, Finding_StartPos = a, Finding_EndPos = a + int (length v),
      Finding_Context = [], Finding_RiskLevel = RiskLevelHigh, Finding_Redacted = False,
      Finding_RedactedWith = []\<rparr>"

text \<open>C2: For findings that lie in the content and do not overlap, redaction never panics and its result
  is the content with every finding that is not yet redacted replaced in place: the loop over
  byte slices, from the last finding to the first in whatever order an unstable sort gives,
  computes the left-to-right splice.\<close>

theorem RedactContent_splices:
  assumes "slice_sort srt" and "supported strategy" and "strategy \<noteq> RedactionNone"
    and "disjoint_findings fs" and "list_all (finding_in content) fs"
  shows "RedactContent srt content fs strategy = Ok (splice strategy content 0 (in_order (active fs)))"
  by (rule RedactContent_disjoint [OF assms])

theorem RedactContent_splices_witness:
  "RedactContent insertion_sort ''ip 10.0.0.1 ssn 123-45-6789.''
     [sample_finding PIITypeIPAddress ''10.0.0.1'' 3, sample_finding PIITypeSSN ''123-45-6789'' 16]
     RedactionMask =
   Ok (splice RedactionMask ''ip 10.0.0.1 ssn 123-45-6789.'' 0
     (in_order (active [sample_finding PIITypeIPAddress ''10.0.0.1'' 3,
        sample_finding PIITypeSSN ''123-45-6789'' 16]))) \<and>
   splice RedactionMask ''ip 10.0.0.1 ssn 123-45-6789.'' 0
     [sample_finding PIITypeIPAddress ''10.0.0.1'' 3, sample_finding PIITypeSSN ''123-45-6789'' 16] =
   ''ip 10.XXX.XXX.XXX ssn XXX-XX-6789.''"
proof
  show "RedactContent insertion_sort ''ip 10.0.0.1 ssn 123-45-6789.''
     [sample_finding PIITypeIPAddress ''10.0.0.1'' 3, sample_finding PIITypeSSN ''123-45-6789'' 16]
     RedactionMask =
   Ok (splice RedactionMask ''ip 10.0.0.1 ssn 123-45-6789.'' 0
     (in_order (active [sample_finding PIITypeIPAddress ''10.0.0.1'' 3,
        sample_finding PIITypeSSN ''123-45-6789'' 16])))"
    by (rule RedactContent_splices [OF insertion_sort.slice_sort_axioms])
       (simp_all add: sample_finding_def findings_apart_def finding_in_def)
  show "splice RedactionMask ''ip 10.0.0.1 ssn 123-45-6789.'' 0
     [sample_finding PIITypeIPAddress ''10.0.0.1'' 3, sample_finding PIITypeSSN ''123-45-6789'' 16] =
   ''ip 10.XXX.XXX.XXX ssn XXX-XX-6789.''"
    by code_simp
qed

lemma filter_digit_repeat_X [simp]: "filter is_digit (repeat_X n) = []"
  by (simp add: repeat_X_def is_digit_def)

lemma filter_digits_id: "list_all is_digit xs \<Longrightarrow> filter is_digit xs = xs"
  by (simp add: list_all_iff filter_id_conv)

lemma list_all_drop: "list_all P xs \<Longrightarrow> list_all P (drop n xs)"
  by (auto simp: list_all_iff dest: in_set_dropD)

lemma ascii_masked:
  assumes "list_all is_digit ds"
  shows "list_all (\<lambda>c. byte_of c < 128) (repeat_X n @ ds)"
proof -
  have "byte_of (CHR ''X'') < 128" by simp
  with assms is_digit_ascii show ?thesis by (auto simp: repeat_X_def list_all_iff)
qed

text \<open>The masks of social security numbers and of card numbers show the last four digits and no
  other digit of the value, whatever separators the value has.\<close>

theorem masks_show_last_four:
  assumes "list_all is_digit (strip_formatting v)"
  shows "(length (strip_formatting v) = 9 \<longrightarrow>
      filter is_digit (maskValue v PIITypeSSN) = drop 5 (strip_formatting v)) \<and>
    (12 \<le> length (strip_formatting v) \<longrightarrow>
      filter is_digit (maskValue v PIITypeCreditCard) =
        drop (length (strip_formatting v) - 4) (strip_formatting v))"
proof -
  let ?ds = "strip_formatting v"
  have d: "filter is_digit (drop n ?ds) = drop n ?ds" for n
    by (rule filter_digits_id [OF list_all_drop [OF assms]])
  have n: "\<not> is_digit (CHR ''X'')" "\<not> is_digit (CHR ''-'')" "\<not> is_digit (CHR '' '')"
    by (simp_all add: is_digit_def)
  have f: "filter is_digit (formatWithSeparator (repeat_X k @ drop j ?ds) sep 4) = drop j ?ds"
    if "filter is_digit sep = []" for k j sep
    by (simp add: filter_formatWithSeparator [OF ascii_masked [OF list_all_drop [OF assms]] that] d)
  show ?thesis
    by (auto simp: maskValue_def maskSSN_def maskCreditCard_def Let_def d n f)
qed

theorem masks_show_last_four_witness:
  "filter is_digit (maskValue ''123-45-6789'' PIITypeSSN) = ''6789'' \<and>
   filter is_digit (maskValue ''4111 1111 1111 1111'' PIITypeCreditCard) = ''1111''"
proof
  have "list_all is_digit (strip_formatting ''123-45-6789'')"
    and s: "strip_formatting ''123-45-6789'' = ''123456789''" by code_simp+
  then show "filter is_digit (maskValue ''123-45-6789'' PIITypeSSN) = ''6789''"
    using masks_show_last_four [of "''123-45-6789''"] by simp
  have "list_all is_digit (strip_formatting ''4111 1111 1111 1111'')"
    and s: "strip_formatting ''4111 1111 1111 1111'' = ''4111111111111111''" by code_simp+
  then show "filter is_digit (maskValue ''4111 1111 1111 1111'' PIITypeCreditCard) = ''1111''"
    using masks_show_last_four [of "''4111 1111 1111 1111''"] by simp
qed

end
