(* ===== verification/Dlp_Scanner.thy ===== *)
theory Dlp_Scanner
  imports Dlp_Redaction
begin

text \<open>
  The basic scanner (\<^verbatim>\<open>pkg/dlp/scanner/basic_scanner.go\<close>): the scan of a content with every
  enabled matcher and with the tenant's own patterns, the scan of a chunk with its metadata, the
  validation of a configuration, and the risk figures.

  What a scan takes from its surroundings is a \<open>scan_env\<close>: the order in which Go ranges over the
  map of matchers, the supply of random identifiers, whether the context is done at each
  iteration, and the clock.  A scan is \<open>Err\<close> for a returned error and \<open>Panic\<close> for a run-time
  panic; a nil configuration is \<open>None\<close>.
\<close>

section \<open>Risk\<close>

definition baseRisk :: "PIIType \<Rightarrow> float64" where
  "baseRisk t =
     (if t = PIITypeSSN then round64 (9/10)
      else if t = PIITypeCreditCard then round64 (9/10)
      else if t = PIITypePassport then round64 (8/10)
      else if t = PIITypeDriversLicense then round64 (7/10)
      else if t = PIITypeBankAccount then round64 (8/10)
      else if t = PIITypeEmail then round64 (4/10)
      else if t = PIITypePhoneNumber then round64 (5/10)
      else if t = PIITypeIPAddress then round64 (3/10)
      else if t = PIITypeAddress then round64 (6/10)
      else if t = PIITypeName then round64 (5/10)
      else if t = PIITypeDateOfBirth then round64 (7/10)
      else round64 (5/10))"

definition calculateRiskLevel :: "PIIType \<Rightarrow> float64 \<Rightarrow> RiskLevel" where
  "calculateRiskLevel piiType confidence =
     (let riskScore = f64_div (f64_add (baseRisk piiType) confidence) 2
      in if riskScore \<ge> round64 (8/10) then RiskLevelCritical
         else if riskScore \<ge> round64 (6/10) then RiskLevelHigh
         else if riskScore \<ge> round64 (4/10) then RiskLevelMedium
         else RiskLevelLow)"

definition is_high_risk :: "Finding \<Rightarrow> bool" where
  "is_high_risk f \<longleftrightarrow> Finding_RiskLevel f = RiskLevelHigh \<or> Finding_RiskLevel f = RiskLevelCritical"

primrec countHighRiskFindings :: "Finding list \<Rightarrow> int" where
  "countHighRiskFindings [] = 0"
| "countHighRiskFindings (f # fs) = (if is_high_risk f then 1 else 0) + countHighRiskFindings fs"

primrec risk_weight :: "RiskLevel \<Rightarrow> float64" where
  "risk_weight RiskLevelCritical = 1"
| "risk_weight RiskLevelHigh = round64 (8/10)"
| "risk_weight RiskLevelMedium = round64 (5/10)"
| "risk_weight RiskLevelLow = round64 (2/10)"

definition total_risk :: "Finding list \<Rightarrow> float64" where
  "total_risk fs = foldl (\<lambda>totalRisk f. f64_add totalRisk (risk_weight (Finding_RiskLevel f))) 0 fs"

definition calculateRiskScore :: "Finding list \<Rightarrow> float64" where
  "calculateRiskScore findings =
     (if length findings = 0 then 0
      else let avgRisk = f64_div (total_risk findings) (round64 (of_nat (length findings)))
           in if avgRisk > 1 then 1 else avgRisk)"

section \<open>Tenant patterns\<close>

text \<open>The only occurrence reported is the first one, and the pattern is taken literally; the error
  is always nil.\<close>

definition matchCustomPattern :: "string \<Rightarrow> string \<Rightarrow> (string, Match list) outcome" where
  "matchCustomPattern regex content =
     Ok (if str_contains content regex
         then [\<lparr>Match_Value = regex, Match_StartPos = str_index content regex,
                Match_EndPos = str_index content regex + int (length regex),
                Match_Context = content, Match_Confidence = round64 (7/10)\<rparr>]
         else [])"

definition mk_finding :: "string \<Rightarrow> PIIType \<Rightarrow> string \<Rightarrow> Match \<Rightarrow> Finding" where
  "mk_finding i piiType pat m =
     \<lparr>Finding_ID = i, Finding_Type = piiType, Finding_Pattern = pat,
      Finding_Value = Match_Value m, Finding_Confidence = Match_Confidence m,
      Finding_StartPos = Match_StartPos m, Finding_EndPos = Match_EndPos m,
      Finding_Context = Match_Context m,
      Finding_RiskLevel = calculateRiskLevel piiType (Match_Confidence m),
      Finding_Redacted = False, Finding_RedactedWith = []\<rparr>"

definition createFinding :: "string \<Rightarrow> Match \<Rightarrow> PatternMatcher \<Rightarrow> PIIType \<Rightarrow> Finding" where
  "createFinding i m matcher piiType = mk_finding i piiType (GetName matcher) m"

text \<open>The inner loops: a finding for every match that is confident enough, each with a fresh
  identifier.  The second component counts the identifiers that have been drawn.\<close>

primrec findings_of ::
  "(nat \<Rightarrow> string) \<Rightarrow> (string \<Rightarrow> Match \<Rightarrow> Finding) \<Rightarrow> float64 \<Rightarrow> Match list \<Rightarrow> nat \<Rightarrow> Finding list \<times> nat" where
  "findings_of ids mk minConf [] n = ([], n)"
| "findings_of ids mk minConf (m # ms) n =
     (if Match_Confidence m \<ge> minConf
      then (let (fs, n') = findings_of ids mk minConf ms (Suc n) in (mk (ids n) m # fs, n'))
      else findings_of ids mk minConf ms n)"

primrec scanCustomPatterns ::
  "(nat \<Rightarrow> string) \<Rightarrow> string \<Rightarrow> CustomPattern list \<Rightarrow> float64 \<Rightarrow> nat \<Rightarrow> Finding list \<times> nat" where
  "scanCustomPatterns ids content [] minConf n = ([], n)"
| "scanCustomPatterns ids content (p # ps) minConf n =
     (if \<not> Custom_Enabled p then scanCustomPatterns ids content ps minConf n
      else case matchCustomPattern (Custom_Regex p) content of
             Ok ms \<Rightarrow>
               (let (fs, n1) = findings_of ids (\<lambda>i. mk_finding i (Custom_Type p) (Custom_Name p)) minConf ms n;
                    (gs, n2) = scanCustomPatterns ids content ps minConf n1
                in (fs @ gs, n2))
           | _ \<Rightarrow> scanCustomPatterns ids content ps minConf n)"

section \<open>Configuration\<close>

definition quoted :: "string \<Rightarrow> string" where
  "quoted s = [CHR 0x27] @ s @ [CHR 0x27]"

fun validate_custom :: "CustomPattern list \<Rightarrow> string option" where
  "validate_custom [] = None"
| "validate_custom (p # ps) =
     (if Custom_Regex p = [] then Some (''custom pattern '' @ quoted (Custom_Name p) @ '' has empty regex'')
      else case matchCustomPattern (Custom_Regex p) ''test'' of
             Ok _ \<Rightarrow> validate_custom ps
           | Err e \<Rightarrow> Some (''custom pattern '' @ quoted (Custom_Name p) @ '' has invalid regex: '' @ e)
           | Panic \<Rightarrow> None)"

definition ValidateConfig :: "ScanConfig \<Rightarrow> string option" where
  "ValidateConfig config =
     (if Cfg_MinConfidence config < 0 \<or> Cfg_MinConfidence config > 1
      then Some ''min_confidence must be between 0.0 and 1.0''
      else if Cfg_ScanTimeout config \<le> 0 then Some ''scan_timeout must be positive''
      else if Cfg_ContextWindow config < 0 then Some ''context_window must be non-negative''
      else validate_custom (Cfg_CustomPatterns config))"

definition getDefaultConfig :: ScanConfig where
  "getDefaultConfig =
     \<lparr>Cfg_TenantID = nil_uuid, Cfg_EnabledPatterns = [], Cfg_DisabledPatterns = [],
      Cfg_MinConfidence = round64 (7/10), Cfg_ScanTimeout = 30 * 1000000000,
      Cfg_CustomPatterns = [], Cfg_ComplianceRules = [], Cfg_RedactionMode = RedactionMask,
      Cfg_ContextWindow = 20, Cfg_ScanMetadata = True\<rparr>"

section \<open>Scanning a content\<close>

record scan_env =
  Env_ids :: "nat \<Rightarrow> string"
  Env_entries :: "(PIIType \<times> PatternMatcher) list"
  Env_done :: "nat \<Rightarrow> string option"
  Env_start :: time
  Env_elapsed1 :: duration
  Env_elapsed2 :: duration

text \<open>A range over a Go map visits every entry once, in some order.\<close>

definition ranges_over :: "('k \<times> 'v) list \<Rightarrow> ('k \<rightharpoonup> 'v) \<Rightarrow> bool" where
  "ranges_over xs m \<longleftrightarrow> distinct (map fst xs) \<and> map_of xs = m"

definition env_ok :: "scan_env \<Rightarrow> bool" where
  "env_ok env \<longleftrightarrow> ranges_over (Env_entries env) NewPatternRegistry"

text \<open>The loop over the matchers: \<open>k\<close> counts its iterations, \<open>n\<close> the identifiers drawn, and the
  result has the findings, the number of patterns scanned and the new \<open>n\<close>.\<close>

primrec scan_patterns ::
  "scan_env \<Rightarrow> ScanConfig \<Rightarrow> string \<Rightarrow> nat \<Rightarrow> (PIIType \<times> PatternMatcher) list \<Rightarrow> nat \<Rightarrow>
     (string, Finding list \<times> int \<times> nat) outcome" where
  "scan_patterns env config content k [] n = Ok ([], 0, n)"
| "scan_patterns env config content k (e # es) n =
     (case Env_done env k of
        Some err \<Rightarrow> Err err
      | None \<Rightarrow>
          if \<not> IsEnabled (snd e) config then scan_patterns env config content (Suc k) es n
          else (case MatchContent (snd e) content of
                  None \<Rightarrow> Panic
                | Some ms \<Rightarrow>
                    (let (fs, n1) = findings_of (Env_ids env) (\<lambda>i m. createFinding i m (snd e) (fst e))
                                      (Cfg_MinConfidence config) ms n
                     in bind_outcome (scan_patterns env config content (Suc k) es n1)
                          (\<lambda>(gs, c, n2). Ok (fs @ gs, c + 1, n2)))))"

definition scanner_name :: string where "scanner_name = ''basic_dlp_scanner''"
definition scanner_version :: string where "scanner_version = ''1.0.0''"

definition ScanContent :: "scan_env \<Rightarrow> string \<Rightarrow> ScanConfig option \<Rightarrow> (string, ScanResult) outcome" where
  "ScanContent env content config0 =
     (let config = (case config0 of None \<Rightarrow> getDefaultConfig | Some c \<Rightarrow> c)
      in case ValidateConfig config of
           Some e \<Rightarrow> Err (''invalid scan configuration: '' @ e)
         | None \<Rightarrow>
             bind_outcome (scan_patterns env config content 0 (Env_entries env) 1)
               (\<lambda>(found, patternsScanned, n).
                  let custom = (if length (Cfg_CustomPatterns config) > 0
                                then fst (scanCustomPatterns (Env_ids env) content
                                       (Cfg_CustomPatterns config) (Cfg_MinConfidence config) n)
                                else []);
                      allFindings = found @ custom
                  in Ok \<lparr>Scan_ChunkID = Env_ids env 0, Scan_ScannedAt = Env_start env,
                         Scan_Scanner = scanner_name,
                         Scan_TotalMatches = int (length allFindings),
                         Scan_HighRiskCount = countHighRiskFindings allFindings,
                         Scan_Findings = allFindings,
                         Scan_RiskScore = calculateRiskScore allFindings,
                         Scan_IsCompliant = False,
                         Scan_Metadata =
                           \<lparr>Meta_ScanDuration = Env_elapsed1 env,
                            Meta_ContentLength = int (length content),
                            Meta_PatternsScanned = patternsScanned,
                            Meta_ProcessingTime = Env_elapsed2 env,
                            Meta_ScannerVersion = scanner_version\<rparr>\<rparr>))"

section \<open>Scanning a chunk\<close>

text \<open>The loop over the metadata; the environment of the \<open>k\<close>-th scan is \<open>envs k\<close>.\<close>

primrec scan_metadata ::
  "(nat \<Rightarrow> scan_env) \<Rightarrow> ScanConfig option \<Rightarrow> nat \<Rightarrow> (string \<times> string) list \<Rightarrow> Finding list \<Rightarrow>
     (string, Finding list) outcome" where
  "scan_metadata envs config k [] acc = Ok acc"
| "scan_metadata envs config k (kv # kvs) acc =
     (case ScanContent (envs k) (snd kv) config of
        Panic \<Rightarrow> Panic
      | Err _ \<Rightarrow> scan_metadata envs config (Suc k) kvs acc
      | Ok r \<Rightarrow>
          scan_metadata envs config (Suc k) kvs
            (acc @ map (\<lambda>f. f\<lparr>Finding_Context := ''metadata:'' @ fst kv\<rparr>) (Scan_Findings r)))"

definition ScanChunk ::
  "(nat \<Rightarrow> scan_env) \<Rightarrow> ChunkContent \<Rightarrow> ScanConfig option \<Rightarrow> (string, ScanResult) outcome" where
  "ScanChunk envs chunk config =
     bind_outcome (ScanContent (envs 0) (Chunk_Content chunk) config)
       (\<lambda>result.
          let result = result\<lparr>Scan_ChunkID := Chunk_ID chunk\<rparr>
          in case config of
               None \<Rightarrow> Panic
             | Some c \<Rightarrow>
                 if Cfg_ScanMetadata c
                 then bind_outcome (scan_metadata envs config 1 (Chunk_Metadata chunk) (Scan_Findings result))
                        (\<lambda>findings.
                           Ok (result\<lparr>Scan_Findings := findings,
                                      Scan_TotalMatches := int (length findings),
                                      Scan_HighRiskCount := countHighRiskFindings findings,
                                      Scan_RiskScore := calculateRiskScore findings\<rparr>))
                 else Ok result)"

section \<open>The advertised patterns\<close>

definition bs :: string where "bs = [CHR 0x5C]"

definition GetSupportedPatterns :: "PatternInfo list" where
  "GetSupportedPatterns =
    [\<lparr>Info_Name = ''ssn'', Info_Type = PIITypeSSN, Info_Description = ''Social Security Number'',
      Info_Regex = bs @ ''b(?:'' @ bs @ ''d{3}[-'' @ bs @ ''s]?'' @ bs @ ''d{2}[-'' @ bs @ ''s]?'' @ bs @ ''d{4})'' @ bs @ ''b'',
      Info_Examples = [''123-45-6789'', ''123 45 6789'', ''123456789'']\<rparr>,
     \<lparr>Info_Name = ''credit_card'', Info_Type = PIITypeCreditCard, Info_Description = ''Credit Card Number'',
      Info_Regex = bs @ ''b(?:4[0-9]{12}(?:[0-9]{3})?|5[1-5][0-9]{14}|3[47][0-9]{13})'' @ bs @ ''b'',
      Info_Examples = [''4111-1111-1111-1111'', ''5555555555554444'']\<rparr>,
     \<lparr>Info_Name = ''email'', Info_Type = PIITypeEmail, Info_Description = ''Email Address'',
      Info_Regex = bs @ ''b[A-Za-z0-9._%+-]+@[A-Za-z0-9.-]+'' @ bs @ ''.[A-Z|a-z]{2,}'' @ bs @ ''b'',
      Info_Examples = [''user@example.com'', ''test.email@domain.org'']\<rparr>,
     \<lparr>Info_Name = ''phone_number'', Info_Type = PIITypePhoneNumber, Info_Description = ''Phone Number'',
      Info_Regex = bs @ ''b(?:'' @ bs @ ''+?1[-.'' @ bs @ ''s]?)?'' @ bs @ ''(?([0-9]{3})'' @ bs @ '')?[-.'' @ bs @
        ''s]?([0-9]{3})[-.'' @ bs @ ''s]?([0-9]{4})'' @ bs @ ''b'',
      Info_Examples = [''(555) 123-4567'', ''555-123-4567'', ''+1-555-123-4567'']\<rparr>,
     \<lparr>Info_Name = ''ip_address'', Info_Type = PIITypeIPAddress, Info_Description = ''IP Address'',
      Info_Regex = bs @ ''b(?:[0-9]{1,3}'' @ bs @ ''.){3}[0-9]{1,3}'' @ bs @ ''b'',
      Info_Examples = [''192.168.1.1'', ''10.0.0.1'']\<rparr>]"

section \<open>The reference: what a scan reports\<close>

text \<open>Identifiers are random, so findings are compared with their identifier erased.\<close>

definition erase :: "Finding \<Rightarrow> Finding" where
  "erase f = f\<lparr>Finding_ID := []\<rparr>"

lemma erase_mk [simp]: "erase (mk_finding i t p m) = mk_finding [] t p m"
  by (simp add: erase_def mk_finding_def)

lemma mk_finding_simps [simp]:
  "Finding_Type (mk_finding i t p m) = t"
  "Finding_Value (mk_finding i t p m) = Match_Value m"
  "Finding_Confidence (mk_finding i t p m) = Match_Confidence m"
  "Finding_StartPos (mk_finding i t p m) = Match_StartPos m"
  "Finding_EndPos (mk_finding i t p m) = Match_EndPos m"
  "Finding_RiskLevel (mk_finding i t p m) = calculateRiskLevel t (Match_Confidence m)"
  "Finding_Redacted (mk_finding i t p m) = False"
  by (simp_all add: mk_finding_def)

lemma erase_simps [simp]:
  "Finding_Type (erase f) = Finding_Type f"
  "Finding_Value (erase f) = Finding_Value f"
  "Finding_Confidence (erase f) = Finding_Confidence f"
  "Finding_StartPos (erase f) = Finding_StartPos f"
  "Finding_EndPos (erase f) = Finding_EndPos f"
  "Finding_RiskLevel (erase f) = Finding_RiskLevel f"
  "Finding_Redacted (erase f) = Finding_Redacted f"
  by (simp_all add: erase_def)

definition confident :: "ScanConfig \<Rightarrow> Match list \<Rightarrow> Match list" where
  "confident config ms = filter (\<lambda>m. Match_Confidence m \<ge> Cfg_MinConfidence config) ms"

definition matches_of :: "PatternMatcher \<Rightarrow> string \<Rightarrow> Match list" where
  "matches_of m content = the (MatchContent m content)"

lemma MatchContent_matches_of: "MatchContent m content = Some (matches_of m content)"
  using matcher.no_panic [of m content] by (auto simp: matches_of_def)

definition detected :: "ScanConfig \<Rightarrow> string \<Rightarrow> PIIType \<times> PatternMatcher \<Rightarrow> Finding list" where
  "detected config content e =
     (if IsEnabled (snd e) config
      then map (mk_finding [] (fst e) (GetName (snd e))) (confident config (matches_of (snd e) content))
      else [])"

definition detected_custom :: "ScanConfig \<Rightarrow> string \<Rightarrow> CustomPattern \<Rightarrow> Finding list" where
  "detected_custom config content p =
     (if Custom_Enabled p
      then map (mk_finding [] (Custom_Type p) (Custom_Name p))
             (confident config (the_ok (matchCustomPattern (Custom_Regex p) content)))
      else [])"

definition matcher_entries :: "(PIIType \<times> PatternMatcher) list" where
  "matcher_entries =
     map (\<lambda>m. (GetType m, m)) [SSNMatcher, CreditCardMatcher, EmailMatcher, PhoneNumberMatcher, IPAddressMatcher]"

definition reference_findings :: "ScanConfig \<Rightarrow> string \<Rightarrow> Finding list" where
  "reference_findings config content =
     concat (map (detected config content) matcher_entries) @
     concat (map (detected_custom config content) (Cfg_CustomPatterns config))"

section \<open>The loops\<close>

lemma findings_of_eq:
  assumes "\<And>i m. erase (mk i m) = g m"
  shows "map erase (fst (findings_of ids mk minConf ms n)) = map g (filter (\<lambda>m. Match_Confidence m \<ge> minConf) ms)"
  by (induction ms arbitrary: n) (simp_all add: assms case_prod_beta Let_def)

lemma scanCustomPatterns_eq:
  "map erase (fst (scanCustomPatterns ids content ps (Cfg_MinConfidence config) n)) =
   concat (map (detected_custom config content) ps)"
  by (induction ps arbitrary: n)
    (simp_all add: case_prod_beta Let_def detected_custom_def matchCustomPattern_def findings_of_eq
      confident_def)

lemma scan_patterns_Ok:
  "scan_patterns env config content k es n = Ok (fs, c, n') \<Longrightarrow>
   c = int (length (filter (\<lambda>e. IsEnabled (snd e) config) es)) \<and>
   map erase fs = concat (map (detected config content) es)"
proof (induction es arbitrary: k n fs c)
  case Nil
  then show ?case by simp
next
  case (Cons e es)
  show ?case
  proof (cases "IsEnabled (snd e) config")
    case False
    with Cons.IH Cons.prems show ?thesis by (auto simp: detected_def split: option.splits)
  next
    case True
    let ?p = "findings_of (Env_ids env) (\<lambda>i m. createFinding i m (snd e) (fst e))
      (Cfg_MinConfidence config) (matches_of (snd e) content) n"
    obtain gs d where rest: "scan_patterns env config content (Suc k) es (snd ?p) = Ok (gs, d, n')"
      and fs: "fs = fst ?p @ gs" and c: "c = d + 1"
      using Cons.prems True
      by (auto simp: MatchContent_matches_of case_prod_beta Let_def bind_outcome_iffs split: option.splits)
    have "map erase (fst ?p) = detected config content e"
      by (simp add: findings_of_eq [where g = "mk_finding [] (fst e) (GetName (snd e))"]
          createFinding_def detected_def True confident_def)
    with Cons.IH [OF rest] True show ?thesis by (simp add: fs c)
  qed
qed

lemma scan_patterns_no_panic: "scan_patterns env config content k es n \<noteq> Panic"
proof (induction es arbitrary: k n)
  case Nil
  then show ?case by simp
next
  case (Cons e es)
  with Cons show ?case
    by (auto simp: MatchContent_matches_of case_prod_beta Let_def bind_outcome_iffs split: option.splits)
qed

lemma scan_patterns_not_done:
  assumes "\<And>k. Env_done env k = None"
  shows "scan_patterns env config content k es n \<noteq> Err e"
  by (induction es arbitrary: k n)
    (auto simp: assms MatchContent_matches_of case_prod_beta Let_def bind_outcome_iffs)

lemma scan_patterns_done:
  assumes "j < length es" and "Env_done env (k + j) = Some err"
  shows "\<exists>e. scan_patterns env config content k es n = Err e"
  using assms
proof (induction es arbitrary: k j n)
  case Nil
  then show ?case by simp
next
  case (Cons e es)
  show ?case
  proof (cases "Env_done env k")
    case None
    then obtain i where "j = Suc i" using Cons.prems by (cases j) auto
    then have "\<exists>e. scan_patterns env config content (Suc k) es n' = Err e" for n'
      using Cons.IH [of i "Suc k"] Cons.prems by simp
    then show ?thesis using None
      by (simp add: MatchContent_matches_of case_prod_beta Let_def) (metis bind_outcome.simps(2))
  qed simp
qed

section \<open>Orders of a range over the matchers\<close>

lemma NewPatternRegistry_entries: "map_of matcher_entries = NewPatternRegistry"
  by (rule ext) (simp add: matcher_entries_def NewPatternRegistry_def RegisterMatcher_def)

lemma ranges_over_mset:
  assumes "ranges_over xs m" and "ranges_over ys m"
  shows "mset xs = mset ys"
proof -
  have "distinct xs" "distinct ys" using assms by (auto simp: ranges_over_def distinct_map)
  moreover have "set xs = set ys"
    using assms by (metis map_of_eqI ranges_over_def map_of_SomeD subset_antisym subsetI map_of_is_SomeI prod.collapse)
  ultimately show ?thesis by (simp add: set_eq_iff_mset_eq_distinct)
qed

lemma matcher_entries_ok: "ranges_over matcher_entries NewPatternRegistry"
  by (simp add: ranges_over_def NewPatternRegistry_entries) (simp add: matcher_entries_def)

lemma env_ok_entries: "env_ok env \<Longrightarrow> mset (Env_entries env) = mset matcher_entries"
  unfolding env_ok_def by (rule ranges_over_mset [OF _ matcher_entries_ok])

lemma mset_concat_map_perm:
  "mset xs = mset ys \<Longrightarrow> mset (concat (map f xs)) = mset (concat (map f ys))"
  by (simp add: mset_concat) (metis mset_map sum_mset_sum_list)


section \<open>Scans\<close>

definition effective_config :: "ScanConfig option \<Rightarrow> ScanConfig" where
  "effective_config config0 = (case config0 of None \<Rightarrow> getDefaultConfig | Some c \<Rightarrow> c)"

lemma ScanContent_cases:
  "ScanContent env content config0 = Ok r \<Longrightarrow>
   ValidateConfig (effective_config config0) = None \<and>
   map erase (Scan_Findings r) =
     concat (map (detected (effective_config config0) content) (Env_entries env)) @
     concat (map (detected_custom (effective_config config0) content)
       (Cfg_CustomPatterns (effective_config config0))) \<and>
   Scan_TotalMatches r = int (length (Scan_Findings r)) \<and>
   Scan_HighRiskCount r = countHighRiskFindings (Scan_Findings r) \<and>
   Scan_RiskScore r = calculateRiskScore (Scan_Findings r)"
  by (auto simp: ScanContent_def bind_outcome_iffs scanCustomPatterns_eq Let_def
      simp flip: effective_config_def split: option.splits dest!: scan_patterns_Ok)

lemma ScanContent_no_panic: "ScanContent env content config0 \<noteq> Panic"
  by (auto simp: ScanContent_def Let_def bind_outcome_iffs scan_patterns_no_panic split: option.splits)

lemma ScanContent_invalid:
  "ValidateConfig config = Some e \<Longrightarrow>
   ScanContent env content (Some config) = Err (''invalid scan configuration: '' @ e)"
  by (simp add: ScanContent_def)

lemma ScanContent_returns:
  assumes "ValidateConfig (effective_config config0) = None" and "\<And>k. Env_done env k = None"
  shows "\<exists>r. ScanContent env content config0 = Ok r"
proof -
  have "scan_patterns env (effective_config config0) content 0 (Env_entries env) 1 \<noteq> Err e" for e
    by (rule scan_patterns_not_done) (rule assms(2))
  then have "\<exists>p. scan_patterns env (effective_config config0) content 0 (Env_entries env) 1 = Ok p"
    using scan_patterns_no_panic by (metis outcome.exhaust)
  with assms(1) show ?thesis
    by (auto simp: ScanContent_def case_prod_beta Let_def simp flip: effective_config_def)
qed

lemma validate_custom_regex: "validate_custom ps = None \<Longrightarrow> p \<in> set ps \<Longrightarrow> Custom_Regex p \<noteq> []"
  by (induction ps) (auto simp: matchCustomPattern_def split: if_splits)

lemma ValidateConfig_None_iff:
  "ValidateConfig config = None \<longleftrightarrow>
   0 \<le> Cfg_MinConfidence config \<and> Cfg_MinConfidence config \<le> 1 \<and> 0 < Cfg_ScanTimeout config \<and>
   0 \<le> Cfg_ContextWindow config \<and> list_all (\<lambda>p. Custom_Regex p \<noteq> []) (Cfg_CustomPatterns config)"
proof -
  have "validate_custom ps = None \<longleftrightarrow> list_all (\<lambda>p. Custom_Regex p \<noteq> []) ps" for ps
    by (induction ps) (auto simp: matchCustomPattern_def)
  then show ?thesis by (auto simp: ValidateConfig_def)
qed

text \<open>Every reported finding is a non-empty slice of the content, confident enough, and carries the
  risk level of its type and confidence.\<close>

definition sound_finding :: "ScanConfig \<Rightarrow> string \<Rightarrow> Finding \<Rightarrow> bool" where
  "sound_finding config content f \<longleftrightarrow>
     go_slice content (Finding_StartPos f) (Finding_EndPos f) = Some (Finding_Value f) \<and>
     Finding_StartPos f < Finding_EndPos f \<and>
     Cfg_MinConfidence config \<le> Finding_Confidence f \<and> Finding_Confidence f \<le> 1 \<and>
     Finding_RiskLevel f = calculateRiskLevel (Finding_Type f) (Finding_Confidence f) \<and>
     \<not> Finding_Redacted f"

lemma sound_finding_erase [simp]: "sound_finding config content (erase f) = sound_finding config content f"
  by (simp add: sound_finding_def)

lemma sound_detected: "f \<in> set (detected config content e) \<Longrightarrow> sound_finding config content f"
  using matcher.match_slice [OF MatchContent_matches_of] matcher.match_confidence_unit [OF MatchContent_matches_of]
  by (fastforce simp: detected_def sound_finding_def confident_def split: if_splits)

lemma sound_detected_custom:
  assumes "f \<in> set (detected_custom config content p)" and "Custom_Regex p \<noteq> []"
  shows "sound_finding config content f"
proof -
  let ?r = "Custom_Regex p"
  have c: "str_contains content ?r" and f: "f = mk_finding [] (Custom_Type p) (Custom_Name p)
      \<lparr>Match_Value = ?r, Match_StartPos = str_index content ?r,
       Match_EndPos = str_index content ?r + int (length ?r), Match_Context = content,
       Match_Confidence = round64 (7/10)\<rparr>" and m: "Cfg_MinConfidence config \<le> round64 (7/10)"
    using assms(1) by (auto simp: detected_custom_def matchCustomPattern_def confident_def split: if_splits)
  then obtain i where i: "str_find ?r content = Some i" by (auto simp: str_contains_find)
  then have "go_slice content (int i) (int i + int (length ?r)) = Some ?r"
    using str_find_Some [OF i] by (simp add: go_slice_nat [of i "i + length ?r", simplified])
  then show ?thesis using assms(2) m by (simp add: f sound_finding_def str_index_def i)
qed

lemma ScanContent_sound:
  assumes "ScanContent env content config0 = Ok r" and "f \<in> set (Scan_Findings r)"
  shows "sound_finding (effective_config config0) content f"
proof -
  let ?c = "effective_config config0"
  have v: "ValidateConfig ?c = None" and eq: "map erase (Scan_Findings r) =
      concat (map (detected ?c content) (Env_entries env)) @
      concat (map (detected_custom ?c content) (Cfg_CustomPatterns ?c))"
    using ScanContent_cases [OF assms(1)] by auto
  have "erase f \<in> set (map erase (Scan_Findings r))" using assms(2) by simp
  then consider e where "erase f \<in> set (detected ?c content e)"
    | p where "p \<in> set (Cfg_CustomPatterns ?c)" "erase f \<in> set (detected_custom ?c content p)"
    unfolding eq by auto
  then have "sound_finding ?c content (erase f)"
  proof cases
    case 2
    then have "Custom_Regex p \<noteq> []" using v by (auto simp: ValidateConfig_None_iff list_all_iff)
    with 2 show ?thesis by (blast intro: sound_detected_custom)
  qed (rule sound_detected)
  then show ?thesis by simp
qed

lemma sound_finding_in: "sound_finding config content f \<Longrightarrow> finding_in content f"
  by (auto simp: sound_finding_def finding_in_def go_slice_def split: if_splits)

section \<open>The risk figures\<close>

lemma countHighRiskFindings_filter: "countHighRiskFindings fs = int (length (filter is_high_risk fs))"
  by (induction fs) auto

lemma countHighRiskFindings_bounds:
  "0 \<le> countHighRiskFindings fs \<and> countHighRiskFindings fs \<le> int (length fs)"
  by (simp add: countHighRiskFindings_filter)

lemma risk_weight_unit: "0 \<le> risk_weight l \<and> risk_weight l \<le> 1"
  by (cases l) simp_all

lemma total_risk_snoc: "total_risk (fs @ [f]) = f64_add (total_risk fs) (risk_weight (Finding_RiskLevel f))"
  by (simp add: total_risk_def)

lemma total_risk_bounds:
  "length fs \<le> 2 ^ 53 \<Longrightarrow> 0 \<le> total_risk fs \<and> total_risk fs \<le> of_nat (length fs)"
proof (induction fs rule: rev_induct)
  case Nil
  then show ?case by (simp add: total_risk_def)
next
  case (snoc f fs)
  let ?w = "risk_weight (Finding_RiskLevel f)"
  have IH: "0 \<le> total_risk fs" "total_risk fs \<le> of_nat (length fs)" using snoc by auto
  have w: "0 \<le> ?w" "?w \<le> 1" using risk_weight_unit by auto
  have "round64 (total_risk fs + ?w) \<le> round64 (of_nat (length (fs @ [f])))"
    by (rule round64_mono) (use IH w in simp_all)
  also have "\<dots> = of_nat (length (fs @ [f]))" by (rule round64_of_nat [OF snoc.prems])
  finally show ?case
    using IH w by (simp add: total_risk_snoc f64_add_def round64_nonneg)
qed

lemma total_risk_critical:
  "length fs \<le> 2 ^ 53 \<Longrightarrow> list_all (\<lambda>f. Finding_RiskLevel f = RiskLevelCritical) fs \<Longrightarrow>
   total_risk fs = of_nat (length fs)"
proof (induction fs rule: rev_induct)
  case Nil
  then show ?case by (simp add: total_risk_def)
next
  case (snoc f fs)
  then have "total_risk fs + 1 = of_nat (length (fs @ [f]))" by simp
  moreover have "Finding_RiskLevel f = RiskLevelCritical" using snoc.prems(2) by simp
  ultimately show ?case
    by (simp only: total_risk_snoc f64_add_def risk_weight.simps round64_of_nat [OF snoc.prems(1)])
qed

lemma calculateRiskScore_bounds:
  assumes "length fs \<le> 2 ^ 53"
  shows "0 \<le> calculateRiskScore fs \<and> calculateRiskScore fs \<le> 1"
proof (cases "fs = []")
  case False
  have "0 \<le> f64_div (total_risk fs) (round64 (of_nat (length fs)))"
    unfolding f64_div_def round64_of_nat [OF assms]
    using total_risk_bounds [OF assms] by (intro round64_nonneg) simp
  with False show ?thesis by (simp add: calculateRiskScore_def Let_def)
qed (simp add: calculateRiskScore_def)

lemma calculateRiskScore_critical:
  assumes "length fs \<le> 2 ^ 53" and "fs \<noteq> []"
    and "list_all (\<lambda>f. Finding_RiskLevel f = RiskLevelCritical) fs"
  shows "calculateRiskScore fs = 1"
proof -
  have "of_nat (length fs) \<noteq> (0 :: rat)" using assms(2) by simp
  then have "f64_div (total_risk fs) (round64 (of_nat (length fs))) = 1"
    by (simp add: f64_div_def round64_of_nat [OF assms(1)] total_risk_critical [OF assms(1,3)])
  then show ?thesis using assms(2) by (simp add: calculateRiskScore_def)
qed

lemma baseRisk_unit: "0 \<le> baseRisk t \<and> baseRisk t \<le> 1"
  by (simp add: baseRisk_def)

lemma f64_half_sum_mono:
  assumes "0 \<le> a" and "0 \<le> b" and "b \<le> c"
  shows "f64_div (f64_add a b) 2 \<le> f64_div (f64_add a c) 2"
proof -
  have "round64 (a + b) \<le> round64 (a + c)" by (rule round64_mono) (use assms in auto)
  moreover have "0 \<le> round64 (a + b)" using assms by (intro round64_nonneg) simp
  ultimately show ?thesis by (simp add: f64_div_def f64_add_def round64_mono)
qed

lemma calculateRiskLevel_mono:
  assumes "0 \<le> c" and "c \<le> d"
  shows "calculateRiskLevel t c \<le> calculateRiskLevel t d"
proof -
  have "f64_div (f64_add (baseRisk t) c) 2 \<le> f64_div (f64_add (baseRisk t) d) 2"
    by (rule f64_half_sum_mono) (use baseRisk_unit assms in auto)
  moreover have "round64 (6/10) \<le> round64 (8/10)" "round64 (4/10) \<le> round64 (6/10)"
    by (rule round64_mono; simp)+
  ultimately show ?thesis
    by (auto simp: calculateRiskLevel_def Let_def less_eq_RiskLevel_def)
qed

lemma risk_at_default_confidence:
  "calculateRiskLevel PIITypeSSN (round64 (7/10)) = RiskLevelCritical"
  "calculateRiskLevel PIITypeCreditCard (round64 (7/10)) = RiskLevelCritical"
  by code_simp+

lemma le_RiskLevelCritical: "RiskLevelCritical \<le> l \<Longrightarrow> l = RiskLevelCritical"
  by (cases l) (simp_all add: less_eq_RiskLevel_def)

lemma sound_finding_critical:
  assumes "sound_finding config content f" and "round64 (7/10) \<le> Cfg_MinConfidence config"
    and "Finding_Type f = PIITypeSSN \<or> Finding_Type f = PIITypeCreditCard"
  shows "Finding_RiskLevel f = RiskLevelCritical"
proof -
  have "round64 (7/10) \<le> Finding_Confidence f" using assms(1,2) by (auto simp: sound_finding_def)
  then have "calculateRiskLevel (Finding_Type f) (round64 (7/10)) \<le> Finding_RiskLevel f"
    using assms(1) by (simp add: sound_finding_def calculateRiskLevel_mono)
  then show ?thesis
    using assms(3) by (auto simp only: risk_at_default_confidence intro: le_RiskLevelCritical)
qed

section \<open>The interface of a scanner\<close>

text \<open>What a client of \<^verbatim>\<open>DLPScanner\<close> relies on.  An environment stands for everything a single scan
  takes from outside; a chunk scan runs several scans.\<close>

locale dlp_scanner =
  fixes scan_content :: "'env \<Rightarrow> string \<Rightarrow> ScanConfig option \<Rightarrow> (string, ScanResult) outcome"
    and supported_patterns :: "PatternInfo list"
    and validate_config :: "ScanConfig \<Rightarrow> string option"
  assumes scan_no_panic: "scan_content env content config0 \<noteq> Panic"
    and scan_rejects: "validate_config config = Some e \<Longrightarrow> \<exists>e'. scan_content env content (Some config) = Err e'"
    and scan_total: "scan_content env content config0 = Ok r \<Longrightarrow>
      Scan_TotalMatches r = int (length (Scan_Findings r))"
    and scan_high: "scan_content env content config0 = Ok r \<Longrightarrow>
      Scan_HighRiskCount r = int (length (filter is_high_risk (Scan_Findings r)))"
    and scan_score: "scan_content env content config0 = Ok r \<Longrightarrow> length (Scan_Findings r) \<le> 2 ^ 53 \<Longrightarrow>
      0 \<le> Scan_RiskScore r \<and> Scan_RiskScore r \<le> 1"
    and scan_sound: "scan_content env content config0 = Ok r \<Longrightarrow> f \<in> set (Scan_Findings r) \<Longrightarrow>
      sound_finding (effective_config config0) content f"
begin

lemma scan_findings_in:
  "scan_content env content config0 = Ok r \<Longrightarrow> list_all (finding_in content) (Scan_Findings r)"
  by (auto simp: list_all_iff dest!: scan_sound intro: sound_finding_in)

lemma scan_not_redacted: "scan_content env content config0 = Ok r \<Longrightarrow> active (Scan_Findings r) = Scan_Findings r"
  using scan_sound by (auto simp: active_def sound_finding_def filter_id_conv)

lemma scan_high_le_total:
  "scan_content env content config0 = Ok r \<Longrightarrow>
   0 \<le> Scan_HighRiskCount r \<and> Scan_HighRiskCount r \<le> Scan_TotalMatches r"
  using scan_total scan_high length_filter_le by fastforce

lemma scan_valid: "scan_content env content (Some config) = Ok r \<Longrightarrow> validate_config config = None"
  using scan_rejects by (metis not_None_eq outcome.distinct(1))

end

interpretation basic_scanner: dlp_scanner ScanContent GetSupportedPatterns ValidateConfig
proof
  show "ScanContent env content config0 \<noteq> Panic" for env content config0
    by (rule ScanContent_no_panic)
  show "\<exists>e'. ScanContent env content (Some config) = Err e'" if "ValidateConfig config = Some e"
    for env content config e
    using ScanContent_invalid [OF that] by blast
  fix env content config0 r
  assume ok: "ScanContent env content config0 = Ok r"
  then show "Scan_TotalMatches r = int (length (Scan_Findings r))"
    and "Scan_HighRiskCount r = int (length (filter is_high_risk (Scan_Findings r)))"
    using ScanContent_cases [OF ok] by (auto simp: countHighRiskFindings_filter)
  show "0 \<le> Scan_RiskScore r \<and> Scan_RiskScore r \<le> 1" if "length (Scan_Findings r) \<le> 2 ^ 53"
    using ScanContent_cases [OF ok] calculateRiskScore_bounds [OF that] by simp
  show "sound_finding (effective_config config0) content f" if "f \<in> set (Scan_Findings r)" for f
    by (rule ScanContent_sound [OF ok that])
qed

section \<open>Correctness of the scanner\<close>

text \<open>An environment for the examples: the matchers in their order of registration.\<close>

definition plain_env :: scan_env where
  "plain_env =
     \<lparr>Env_ids = (\<lambda>n. ''id-'' @ show_nat n), Env_entries = matcher_entries, Env_done = (\<lambda>_. None),
      Env_start = 0, Env_elapsed1 = 1, Env_elapsed2 = 2\<rparr>"

lemma plain_env_simps [simp]:
  "env_ok plain_env" "Env_done plain_env k = None" "Env_entries plain_env = matcher_entries"
  by (simp_all add: plain_env_def env_ok_def matcher_entries_ok)

lemma ValidateConfig_default [simp]: "ValidateConfig getDefaultConfig = None"
  by (simp add: ValidateConfig_None_iff getDefaultConfig_def)

lemma ScanContent_reference:
  assumes "env_ok env" and "ScanContent env content config0 = Ok r"
  shows "mset (map erase (Scan_Findings r)) = mset (reference_findings (effective_config config0) content)"
proof -
  let ?d = "detected (effective_config config0) content"
  have "mset (concat (map ?d (Env_entries env))) = mset (concat (map ?d matcher_entries))"
    by (rule mset_concat_map_perm [OF env_ok_entries [OF assms(1)]])
  then show ?thesis
    using ScanContent_cases [OF assms(2)] by (simp only: reference_findings_def mset_append)
qed

text \<open>C3: A valid scan that is not cancelled returns, and whatever the order in which Go ranges over
  the map of matchers, it reports the same findings up to their order and random identifiers: the
  confident matches of every enabled matcher and of every enabled tenant pattern.  The counts
  agree with the findings.\<close>

theorem scan_reports_reference:
  assumes "env_ok env" and "\<And>k. Env_done env k = None" and "ValidateConfig config = None"
  shows "\<exists>r. ScanContent env content (Some config) = Ok r \<and>
     mset (map erase (Scan_Findings r)) = mset (reference_findings config content) \<and>
     Scan_TotalMatches r = int (length (reference_findings config content)) \<and>
     Scan_HighRiskCount r = int (length (filter is_high_risk (reference_findings config content)))"
proof -
  have c: "effective_config (Some config) = config" by (simp add: effective_config_def)
  obtain r where r: "ScanContent env content (Some config) = Ok r"
    using ScanContent_returns [of "Some config" env] assms by (auto simp: c)
  have m: "mset (map erase (Scan_Findings r)) = mset (reference_findings config content)"
    using ScanContent_reference [OF assms(1) r] by (simp add: c)
  have "length (map erase (Scan_Findings r)) = length (reference_findings config content)"
    using m by (metis size_mset)
  moreover have "length (filter is_high_risk (map erase (Scan_Findings r))) =
      length (filter is_high_risk (reference_findings config content))"
    using m by (metis mset_filter size_mset)
  moreover have "length (filter is_high_risk (map erase fs)) = length (filter is_high_risk fs)" for fs
    by (induction fs) (simp_all add: is_high_risk_def)
  ultimately show ?thesis
    using r m basic_scanner.scan_total [OF r] basic_scanner.scan_high [OF r] by auto
qed

theorem scan_reports_reference_witness:
  "\<exists>r. ScanContent plain_env ''ssn 123-45-6789'' (Some getDefaultConfig) = Ok r \<and>
     mset (map erase (Scan_Findings r)) = mset (reference_findings getDefaultConfig ''ssn 123-45-6789'') \<and>
     Scan_TotalMatches r = int (length (reference_findings getDefaultConfig ''ssn 123-45-6789'')) \<and>
     Scan_HighRiskCount r =
       int (length (filter is_high_risk (reference_findings getDefaultConfig ''ssn 123-45-6789'')))"
  by (rule scan_reports_reference) simp_all

text \<open>A scan never panics, and it returns an error exactly when the configuration is invalid or the
  context is done at one of the five iterations of its loop over the matchers.\<close>

theorem scan_error_iff:
  assumes "env_ok env"
  shows "ScanContent env content (Some config) \<noteq> Panic \<and>
    ((\<exists>e. ScanContent env content (Some config) = Err e) \<longleftrightarrow>
     ValidateConfig config \<noteq> None \<or> (\<exists>k < 5. Env_done env k \<noteq> None))"
proof -
  have len: "length (Env_entries env) = 5"
    using arg_cong [OF env_ok_entries [OF assms], of size] by (simp add: matcher_entries_def)
  have stop: "\<exists>e. scan_patterns env config content 0 (Env_entries env) 1 = Err e"
    if "k < 5" "Env_done env k \<noteq> None" for k
    using scan_patterns_done [of k "Env_entries env" env 0] that len by auto
  have go: "scan_patterns env config content k es n \<noteq> Err e"
    if "\<not> (\<exists>j < k + length es. Env_done env j \<noteq> None)" for k es n e
    using that
    by (induction es arbitrary: k n)
      (auto simp: MatchContent_matches_of case_prod_beta Let_def bind_outcome_iffs)
  show ?thesis
  proof (cases "ValidateConfig config")
    case None
    have "(\<exists>e. scan_patterns env config content 0 (Env_entries env) 1 = Err e) \<longleftrightarrow>
        (\<exists>k < 5. Env_done env k \<noteq> None)"
      using stop go [of 0 "Env_entries env" 1] by (metis add_0 len)
    moreover have "(\<exists>e. ScanContent env content (Some config) = Err e) \<longleftrightarrow>
        (\<exists>e. scan_patterns env config content 0 (Env_entries env) 1 = Err e)"
      using None by (auto simp: ScanContent_def bind_outcome_iffs Let_def)
    ultimately show ?thesis using None ScanContent_no_panic [of env content "Some config"] by simp
  qed (simp add: ScanContent_def)
qed

theorem scan_error_iff_witness:
  "ScanContent (plain_env\<lparr>Env_done := (\<lambda>k. if k = 3 then Some ''context canceled'' else None)\<rparr>)
     ''ssn 123-45-6789'' (Some getDefaultConfig) \<noteq> Panic \<and>
   (\<exists>e. ScanContent (plain_env\<lparr>Env_done := (\<lambda>k. if k = 3 then Some ''context canceled'' else None)\<rparr>)
     ''ssn 123-45-6789'' (Some getDefaultConfig) = Err e)"
proof -
  let ?env = "plain_env\<lparr>Env_done := (\<lambda>k. if k = 3 then Some ''context canceled'' else None)\<rparr>"
  have ok: "env_ok ?env" by (simp add: env_ok_def matcher_entries_ok)
  have "\<exists>k < 5. Env_done ?env k \<noteq> None" by (rule exI [of _ 3]) simp
  with scan_error_iff [OF ok, of "''ssn 123-45-6789''" getDefaultConfig] show ?thesis by blast
qed

text \<open>C4: End to end, no formatted social security number is missed.  A number written AAA-GG-SSSS whose
  digits pass the range checks, with no digit before it and no word character touching it, is
  reported by a scan with the default configuration as a critical finding at its position.\<close>

theorem formatted_ssn_reported:
  assumes "env_ok env" and "\<And>k. Env_done env k = None"
    and "length a = 3" and "length g = 2" and "length r = 4" and "list_all is_digit (a @ g @ r)"
    and "isValidSSN (a @ g @ r)"
    and "list_all (\<lambda>c. \<not> is_digit c) pre" and "pre = [] \<or> \<not> word_char (last pre)"
    and "post = [] \<or> \<not> word_char (hd post)"
  shows "\<exists>res f. ScanContent env (pre @ formatted_ssn a g r @ post) None = Ok res \<and>
           f \<in> set (Scan_Findings res) \<and> Finding_Type f = PIITypeSSN \<and>
           Finding_Value f = formatted_ssn a g r \<and> Finding_StartPos f = int (length pre) \<and>
           Finding_RiskLevel f = RiskLevelCritical \<and> 0 < Scan_HighRiskCount res"
proof -
  let ?s = "pre @ formatted_ssn a g r @ post"
  have cfg: "effective_config None = getDefaultConfig" by (simp add: effective_config_def)
  obtain res where res: "ScanContent env ?s None = Ok res"
    using ScanContent_returns [of None env ?s] assms(2) by (auto simp: cfg)
  obtain x where x: "x \<in> set (matches_of SSNMatcher ?s)" "Match_Value x = formatted_ssn a g r"
    "Match_StartPos x = int (length pre)" "Match_Confidence x = round64 (9/10)"
    using formatted_ssn_matched [OF assms(3-10)] MatchContent_matches_of [of SSNMatcher ?s] by auto
  have "round64 (7/10) \<le> round64 (9/10)" by (rule round64_mono) simp_all
  then have "mk_finding [] PIITypeSSN ''ssn'' x \<in> set (detected getDefaultConfig ?s (PIITypeSSN, SSNMatcher))"
    using x by (auto simp: detected_def IsEnabled_def isTypeEnabled_def confident_def getDefaultConfig_def)
  then have "mk_finding [] PIITypeSSN ''ssn'' x \<in> set (reference_findings getDefaultConfig ?s)"
    by (simp add: reference_findings_def matcher_entries_def)
  then have "mk_finding [] PIITypeSSN ''ssn'' x \<in> set (map erase (Scan_Findings res))"
    using ScanContent_reference [OF assms(1) res] by (metis cfg set_mset_mset)
  then obtain f where f: "f \<in> set (Scan_Findings res)" "erase f = mk_finding [] PIITypeSSN ''ssn'' x" by auto
  then have t: "Finding_Type f = PIITypeSSN" "Finding_Value f = formatted_ssn a g r"
    "Finding_StartPos f = int (length pre)"
    using x by (metis erase_simps mk_finding_simps)+
  have "Finding_RiskLevel f = RiskLevelCritical"
    by (rule sound_finding_critical [OF ScanContent_sound [OF res f(1)]])
      (simp_all add: cfg t getDefaultConfig_def)
  moreover from this have "filter is_high_risk (Scan_Findings res) \<noteq> []"
    using f(1) by (auto simp: filter_empty_conv is_high_risk_def)
  ultimately show ?thesis using res f(1) t basic_scanner.scan_high [OF res] by auto
qed

theorem formatted_ssn_reported_witness:
  "\<exists>res f. ScanContent plain_env (''id '' @ formatted_ssn ''123'' ''45'' ''6789'' @ '' ok'') None = Ok res \<and>
     f \<in> set (Scan_Findings res) \<and> Finding_Type f = PIITypeSSN \<and>
     Finding_Value f = formatted_ssn ''123'' ''45'' ''6789'' \<and> Finding_StartPos f = int (length ''id '') \<and>
     Finding_RiskLevel f = RiskLevelCritical \<and> 0 < Scan_HighRiskCount res"
  by (rule formatted_ssn_reported)
    (simp_all add: is_digit_def isValidSSN_def word_char_def in_cls_def)

text \<open>Every finding of a scan is a non-empty slice of the content at the reported positions, reaches
  the configured confidence, and carries the risk level of its type and confidence; with a minimal
  confidence of 0.7 or more, social security and card numbers are always critical.\<close>

theorem scan_findings_sound:
  assumes "ScanContent env content config0 = Ok r"
  shows "list_all (\<lambda>f. sound_finding (effective_config config0) content f \<and>
           (round64 (7/10) \<le> Cfg_MinConfidence (effective_config config0) \<and>
            (Finding_Type f = PIITypeSSN \<or> Finding_Type f = PIITypeCreditCard) \<longrightarrow>
            Finding_RiskLevel f = RiskLevelCritical)) (Scan_Findings r)"
  using basic_scanner.scan_sound [OF assms] sound_finding_critical by (auto simp: list_all_iff)

theorem scan_findings_sound_witness:
  "\<exists>r. ScanContent plain_env ''id 123-45-6789'' None = Ok r \<and>
     list_all (\<lambda>f. sound_finding (effective_config None) ''id 123-45-6789'' f \<and>
           (round64 (7/10) \<le> Cfg_MinConfidence (effective_config None) \<and>
            (Finding_Type f = PIITypeSSN \<or> Finding_Type f = PIITypeCreditCard) \<longrightarrow>
            Finding_RiskLevel f = RiskLevelCritical)) (Scan_Findings r)"
proof -
  obtain r where r: "ScanContent plain_env ''id 123-45-6789'' None = Ok r"
    using ScanContent_returns [of None plain_env "''id 123-45-6789''"] by (auto simp: effective_config_def)
  from r scan_findings_sound [OF r] show ?thesis by blast
qed

text \<open>The risk score of fewer than $2^{53}$ findings is between 0 and 1 in spite of the rounding of
  every addition, and 1 when all of them are critical; a higher confidence never lowers the risk
  level.\<close>

theorem risk_figures:
  assumes "length fs \<le> 2 ^ 53" and "0 \<le> c" and "c \<le> d"
  shows "0 \<le> calculateRiskScore fs \<and> calculateRiskScore fs \<le> 1 \<and>
    (fs \<noteq> [] \<and> list_all (\<lambda>f. Finding_RiskLevel f = RiskLevelCritical) fs \<longrightarrow> calculateRiskScore fs = 1) \<and>
    calculateRiskLevel t c \<le> calculateRiskLevel t d"
  using calculateRiskScore_bounds [OF assms(1)] calculateRiskScore_critical [OF assms(1)]
    calculateRiskLevel_mono [OF assms(2,3)] by blast

theorem risk_figures_witness:
  "calculateRiskScore [sample_finding PIITypeEmail ''a@b.io'' 0, sample_finding PIITypeSSN ''123-45-6789'' 9] \<le> 1 \<and>
   calculateRiskLevel PIITypeEmail (round64 (1/10)) \<le> calculateRiskLevel PIITypeEmail 1"
proof -
  have "round64 (1/10) \<le> 1" "0 \<le> round64 (1/10)" by simp_all
  then show ?thesis
    using risk_figures [of "[sample_finding PIITypeEmail ''a@b.io'' 0, sample_finding PIITypeSSN ''123-45-6789'' 9]"
        "round64 (1/10)" 1 PIITypeEmail] by simp
qed

section \<open>Scanning and redacting\<close>

lemma disjoint_findings_erase [simp]: "disjoint_findings (map erase fs) = disjoint_findings fs"
  by (induction fs) (auto simp: list_all_iff findings_apart_def)

lemma disjoint_confident: "disjoint_findings (map (mk_finding i t p) (confident config (matches_of m content)))"
proof -
  have "sorted_wrt (\<lambda>m n. Match_EndPos m \<le> Match_StartPos n) (matches_of m content)"
    by (rule matcher.match_disjoint [OF MatchContent_matches_of])
  then have "sorted_wrt (\<lambda>m n. Match_EndPos m \<le> Match_StartPos n) (confident config (matches_of m content))"
    unfolding confident_def by (rule sorted_wrt_filter)
  then show ?thesis
    unfolding disjoint_findings_sorted_wrt sorted_wrt_map
    by (rule sorted_wrt_mono_rel [rotated]) (simp add: findings_apart_def)
qed

lemma reference_single:
  assumes "Cfg_EnabledPatterns config = [GetType m]" and "Cfg_DisabledPatterns config = []"
    and "Cfg_CustomPatterns config = []"
  shows "disjoint_findings (reference_findings config content)"
  using assms by (cases m)
    (simp_all add: reference_findings_def matcher_entries_def detected_def IsEnabled_def
      isTypeEnabled_def disjoint_confident)

text \<open>C15: Scanning for a single type of data and redacting the findings always works: no slice of the
  redaction loop is out of range, and the result is the content with every finding replaced in
  place.\<close>

theorem single_type_scan_redacts:
  assumes "env_ok env" and "slice_sort srt" and "ScanContent env content (Some config) = Ok r"
    and "Cfg_EnabledPatterns config = [GetType m]" and "Cfg_DisabledPatterns config = []"
    and "Cfg_CustomPatterns config = []" and "supported strategy" and "strategy \<noteq> RedactionNone"
  shows "RedactContent srt content (Scan_Findings r) strategy =
    Ok (splice strategy content 0 (in_order (Scan_Findings r)))"
proof -
  have "mset (map erase (Scan_Findings r)) = mset (reference_findings config content)"
    using ScanContent_reference [OF assms(1,3)] by (simp add: effective_config_def)
  then have "disjoint_findings (map erase (Scan_Findings r))"
    using reference_single [OF assms(4-6)] disjoint_findings_perm by blast
  then have "disjoint_findings (Scan_Findings r)" by simp
  then show ?thesis
    using RedactContent_disjoint [OF assms(2,7,8) _ basic_scanner.scan_findings_in [OF assms(3)]]
      basic_scanner.scan_not_redacted [OF assms(3)] by simp
qed

theorem single_type_scan_redacts_witness:
  "\<exists>r. ScanContent plain_env ''id 123-45-6789'' (Some (getDefaultConfig\<lparr>Cfg_EnabledPatterns := [PIITypeSSN]\<rparr>)) = Ok r \<and>
     RedactContent insertion_sort ''id 123-45-6789'' (Scan_Findings r) RedactionMask =
       Ok (splice RedactionMask ''id 123-45-6789'' 0 (in_order (Scan_Findings r)))"
proof -
  let ?c = "getDefaultConfig\<lparr>Cfg_EnabledPatterns := [PIITypeSSN]\<rparr>"
  have "ValidateConfig ?c = None" by (simp add: ValidateConfig_None_iff getDefaultConfig_def)
  then obtain r where r: "ScanContent plain_env ''id 123-45-6789'' (Some ?c) = Ok r"
    using ScanContent_returns [of "Some ?c" plain_env] by (auto simp: effective_config_def)
  have "RedactContent insertion_sort ''id 123-45-6789'' (Scan_Findings r) RedactionMask =
       Ok (splice RedactionMask ''id 123-45-6789'' 0 (in_order (Scan_Findings r)))"
    by (rule single_type_scan_redacts [where m = SSNMatcher, OF _ insertion_sort.slice_sort_axioms r])
      (simp_all add: getDefaultConfig_def)
  with r show ?thesis by blast
qed

lemma redact_loop_erase: "redact_loop strategy (map erase fs) content = redact_loop strategy fs content"
proof (induction fs arbitrary: content)
  case (Cons f fs)
  have "redact_step strategy content (erase f) = redact_step strategy content f" for content
    by (simp only: redact_step_def erase_simps)
  moreover have "redact_loop strategy (map erase fs) = redact_loop strategy fs" using Cons.IH by blast
  ultimately show ?case by simp
qed simp

lemma mset_pair: "mset xs = {#a, b#} \<Longrightarrow> xs = [a, b] \<or> xs = [b, a]"
proof -
  assume m: "mset xs = {#a, b#}"
  then have "size (mset xs) = 2" by simp
  then obtain u v where "xs = [u, v]" by (auto simp: length_Suc_conv eval_nat_numeral)
  with m show ?thesis by (auto simp: add_eq_conv_ex)
qed

text \<open>With more than one type the findings may overlap, and redaction then fails.  The content is an
  e-mail address whose user name is a social security number: the scan finds both, and replacing
  one by its placeholder shortens the content so much that the slice for the other is out of range.
  This happens for every order of the scan and for every sorting function.\<close>

lemma overlapping_findings_panic:
  assumes "env_ok env" and "slice_sort srt"
    and "ScanContent env ''123-45-6789@a.io'' (Some config) = Ok r"
    and "Cfg_EnabledPatterns config = []" and "Cfg_DisabledPatterns config = []"
    and "Cfg_CustomPatterns config = []" and "Cfg_MinConfidence config = round64 (7/10)"
  shows "RedactContent srt ''123-45-6789@a.io'' (Scan_Findings r) RedactionReplace = Panic"
proof -
  let ?s = "''123-45-6789@a.io''"
  let ?ssn = "mk_finding [] PIITypeSSN ''ssn'' \<lparr>Match_Value = ''123-45-6789'', Match_StartPos = 0,
    Match_EndPos = 11, Match_Context = ?s, Match_Confidence = round64 (9/10)\<rparr>"
  let ?email = "mk_finding [] PIITypeEmail ''email'' \<lparr>Match_Value = ?s, Match_StartPos = 0,
    Match_EndPos = 16, Match_Context = ?s, Match_Confidence = round64 (9/10)\<rparr>"
  have c: "effective_config (Some config) = config" by (simp add: effective_config_def)
  have "SSN_Match ?s = Some [\<lparr>Match_Value = ''123-45-6789'', Match_StartPos = 0,
      Match_EndPos = 11, Match_Context = ?s, Match_Confidence = round64 (9/10)\<rparr>]"
    and "Email_Match ?s = Some [\<lparr>Match_Value = ?s, Match_StartPos = 0,
      Match_EndPos = 16, Match_Context = ?s, Match_Confidence = round64 (9/10)\<rparr>]"
    and "CreditCard_Match ?s = Some []" "PhoneNumber_Match ?s = Some []" "IPAddress_Match ?s = Some []"
    by code_simp+
  moreover have "round64 (7/10) \<le> round64 (9/10)" by (rule round64_mono) simp_all
  ultimately have ref: "reference_findings config ?s = [?ssn, ?email]"
    by (simp add: reference_findings_def matcher_entries_def detected_def confident_def matches_of_def
        IsEnabled_def isTypeEnabled_def assms(4-7))
  let ?fs = "srt later (Scan_Findings r)"
  have "mset ?fs = mset (Scan_Findings r)" by (rule slice_sort.perm [OF assms(2)])
  then have "mset (map erase ?fs) = mset (map erase (Scan_Findings r))" by (metis mset_map)
  then have "mset (map erase ?fs) = {#?ssn, ?email#}"
    using ScanContent_reference [OF assms(1,3)] by (simp add: c ref)
  then have "map erase ?fs = [?ssn, ?email] \<or> map erase ?fs = [?email, ?ssn]"
    by (rule mset_pair)
  moreover have "redact_loop RedactionReplace [?ssn, ?email] ?s = Panic"
    and "redact_loop RedactionReplace [?email, ?ssn] ?s = Panic"
    by (simp_all add: redact_step_def replaceValue_def go_slice_def)
  ultimately have "redact_loop RedactionReplace ?fs ?s = Panic"
    by (metis redact_loop_erase)
  then show ?thesis by (simp add: RedactContent_def)
qed

definition sample_chunk :: ChunkContent where
  "sample_chunk =
     \<lparr>Chunk_ID = ''c1'', Chunk_Content = ''hello'', Chunk_Metadata = [(''author'', ''a.b@c.io'')],
      Chunk_Type = ''text''\<rparr>"

text \<open>A chunk scan appends the findings of the metadata values to those of the content with the
  positions they have inside the metadata value.  Redacting the content by them cuts it at positions
  that have nothing to do with it: the chunk below has no personal data in its content, and its
  redaction panics.\<close>

theorem metadata_findings_break_redaction:
  "\<exists>r. ScanChunk (\<lambda>_. plain_env) sample_chunk (Some getDefaultConfig) = Ok r \<and>
     map Finding_EndPos (Scan_Findings r) = [8] \<and>
     map Finding_Context (Scan_Findings r) = [''metadata:author''] \<and>
     RedactContent insertion_sort (Chunk_Content sample_chunk) (Scan_Findings r) RedactionMask = Panic"
proof -
  let ?a = "''a.b@c.io''" and ?cfg = "Some getDefaultConfig"
  let ?m = "\<lparr>Match_Value = ?a, Match_StartPos = 0, Match_EndPos = 8, Match_Context = ?a,
    Match_Confidence = round64 (9/10)\<rparr>"
  have hello: "matches_of SSNMatcher ''hello'' = []" "matches_of CreditCardMatcher ''hello'' = []"
    "matches_of PhoneNumberMatcher ''hello'' = []" "matches_of IPAddressMatcher ''hello'' = []"
    "matches_of EmailMatcher ''hello'' = []" by code_simp+
  have author: "matches_of SSNMatcher ?a = []" "matches_of CreditCardMatcher ?a = []"
    "matches_of PhoneNumberMatcher ?a = []" "matches_of IPAddressMatcher ?a = []"
    "matches_of EmailMatcher ?a = [?m]" by code_simp+
  have "round64 (7/10) \<le> round64 (9/10)" by (rule round64_mono) simp_all
  then have refs: "reference_findings getDefaultConfig ''hello'' = []"
    "reference_findings getDefaultConfig ?a = [mk_finding [] PIITypeEmail ''email'' ?m]"
    by (simp_all add: reference_findings_def matcher_entries_def detected_def confident_def hello author
        getDefaultConfig_def IsEnabled_def isTypeEnabled_def)
  have c: "effective_config ?cfg = getDefaultConfig" by (simp add: effective_config_def)
  obtain r0 where r0: "ScanContent plain_env ''hello'' ?cfg = Ok r0"
    using ScanContent_returns [of ?cfg plain_env "''hello''"] by (auto simp: c)
  obtain r1 where r1: "ScanContent plain_env ?a ?cfg = Ok r1"
    using ScanContent_returns [of ?cfg plain_env ?a] by (auto simp: c)
  have "Scan_Findings r0 = []"
    using ScanContent_reference [OF _ r0] by (simp add: c refs)
  moreover have "map erase (Scan_Findings r1) = [mk_finding [] PIITypeEmail ''email'' ?m]"
    using ScanContent_reference [OF _ r1] by (simp add: c refs flip: mset_map)
  then obtain f where f: "Scan_Findings r1 = [f]" "erase f = mk_finding [] PIITypeEmail ''email'' ?m"
    by auto
  moreover have "Finding_StartPos f = 0" "Finding_EndPos f = 8" "\<not> Finding_Redacted f"
    using f(2) by (metis erase_simps mk_finding_simps Match.select_convs)+
  ultimately show ?thesis
    by (simp add: ScanChunk_def sample_chunk_def r0 r1 getDefaultConfig_def [THEN arg_cong, of Cfg_ScanMetadata]
        RedactContent_def insertion_sort_def redact_step_def go_slice_def)
qed

text \<open>A chunk scan with a nil configuration panics whenever the scan of the content succeeds: only
  the content scan replaces a nil configuration by the default one.\<close>

theorem chunk_scan_nil_config_panics:
  assumes "ScanContent (envs 0) (Chunk_Content chunk) None = Ok r"
  shows "ScanChunk envs chunk None = Panic"
  using assms by (simp add: ScanChunk_def)

theorem chunk_scan_nil_config_panics_witness:
  "ScanChunk (\<lambda>_. plain_env) sample_chunk None = Panic"
proof -
  obtain r where "ScanContent plain_env (Chunk_Content sample_chunk) None = Ok r"
    using ScanContent_returns [of None plain_env "Chunk_Content sample_chunk"] by (auto simp: effective_config_def)
  then show ?thesis using chunk_scan_nil_config_panics [of "\<lambda>_. plain_env"] by simp
qed

lemma scan_metadata_Ok:
  "\<exists>gs. scan_metadata envs config k kvs acc = Ok (acc @ gs) \<and>
     list_all (\<lambda>g. Finding_Context g \<in> (\<lambda>kv. ''metadata:'' @ fst kv) ` set kvs) gs"
proof (induction kvs arbitrary: k acc)
  case Nil
  then show ?case by simp
next
  case (Cons kv kvs)
  show ?case
  proof (cases "ScanContent (envs k) (snd kv) config")
    case (Ok r)
    let ?hs = "map (\<lambda>f. f\<lparr>Finding_Context := ''metadata:'' @ fst kv\<rparr>) (Scan_Findings r)"
    obtain gs where gs: "scan_metadata envs config (Suc k) kvs (acc @ ?hs) = Ok ((acc @ ?hs) @ gs)"
      "list_all (\<lambda>g. Finding_Context g \<in> (\<lambda>kv. ''metadata:'' @ fst kv) ` set kvs) gs"
      using Cons.IH by blast
    then show ?thesis by (intro exI [of _ "?hs @ gs"]) (auto simp: Ok list_all_iff)
  next
    case (Err e)
    then show ?thesis using Cons.IH [of "Suc k" acc] by (auto simp: list_all_iff)
  next
    case Panic
    then show ?thesis using ScanContent_no_panic by blast
  qed
qed

text \<open>A chunk scan succeeds whenever the scan of its content does: an error in a metadata value is
  skipped.  Its findings are those of the content followed by findings marked as metadata, and its
  total is the number of all of them.\<close>

theorem chunk_scan_extends_content_scan:
  assumes "ScanContent (envs 0) (Chunk_Content chunk) (Some config) = Ok r0"
  shows "\<exists>r gs. ScanChunk envs chunk (Some config) = Ok r \<and> Scan_ChunkID r = Chunk_ID chunk \<and>
    Scan_Findings r = Scan_Findings r0 @ gs \<and>
    list_all (\<lambda>g. Finding_Context g \<in> (\<lambda>kv. ''metadata:'' @ fst kv) ` set (Chunk_Metadata chunk)) gs \<and>
    Scan_TotalMatches r = int (length (Scan_Findings r)) \<and>
    Scan_RiskScore r = calculateRiskScore (Scan_Findings r) \<and> (\<not> Cfg_ScanMetadata config \<longrightarrow> gs = [])"
proof -
  obtain gs where gs: "scan_metadata envs (Some config) 1 (Chunk_Metadata chunk) (Scan_Findings r0) =
      Ok (Scan_Findings r0 @ gs)"
    "list_all (\<lambda>g. Finding_Context g \<in> (\<lambda>kv. ''metadata:'' @ fst kv) ` set (Chunk_Metadata chunk)) gs"
    using scan_metadata_Ok by blast
  show ?thesis
    using gs ScanContent_cases [OF assms]
    by (cases "Cfg_ScanMetadata config") (auto simp: ScanChunk_def assms)
qed

theorem chunk_scan_extends_content_scan_witness:
  "\<exists>r0 r gs. ScanContent plain_env (Chunk_Content sample_chunk) (Some getDefaultConfig) = Ok r0 \<and>
    ScanChunk (\<lambda>_. plain_env) sample_chunk (Some getDefaultConfig) = Ok r \<and>
    Scan_Findings r = Scan_Findings r0 @ gs"
proof -
  obtain r0 where r0: "ScanContent plain_env (Chunk_Content sample_chunk) (Some getDefaultConfig) = Ok r0"
    using ScanContent_returns [of "Some getDefaultConfig" plain_env "Chunk_Content sample_chunk"]
    by (auto simp: effective_config_def)
  with chunk_scan_extends_content_scan [of "\<lambda>_. plain_env", OF r0] show ?thesis by blast
qed

text \<open>A tenant pattern is taken literally: it is reported exactly when it occurs in the content as
  a substring, at its first occurrence only, and never as an error.  A regular expression such as a
  class of digits therefore finds nothing.\<close>

theorem custom_pattern_is_literal:
  "(matchCustomPattern regex content = Ok [] \<longleftrightarrow> \<not> sublist regex content) \<and>
   (\<forall>e. matchCustomPattern regex content \<noteq> Err e) \<and>
   length (the_ok (matchCustomPattern regex content)) \<le> 1 \<and>
   matchCustomPattern ''[0-9]+'' ''call 5551234'' = Ok []"
proof -
  have "matchCustomPattern ''[0-9]+'' ''call 5551234'' = Ok []" by code_simp
  then show ?thesis by (auto simp: matchCustomPattern_def str_contains_sublist)
qed

definition example_reported :: "PatternInfo \<Rightarrow> string \<Rightarrow> bool" where
  "example_reported info ex =
     (case GetMatcher NewPatternRegistry (Info_Type info) of
        None \<Rightarrow> False
      | Some m \<Rightarrow> map_option (map Match_Value) (MatchContent m ex) = Some [ex])"

text \<open>Of the examples the scanner advertises for its patterns, all are reported in full except three:
  the card number with separators is not found, and the telephone numbers in parentheses or with a
  plus sign lose their first byte.\<close>

theorem advertised_examples:
  "concat (map (\<lambda>info. filter (\<lambda>ex. \<not> example_reported info ex) (Info_Examples info)) GetSupportedPatterns) =
   [''4111-1111-1111-1111'', ''(555) 123-4567'', ''+1-555-123-4567'']"
  by code_simp

end
