(* ===== verification/Dlp_Compliance.thy ===== *)
theory Dlp_Compliance
  imports Dlp_Scanner
begin

text \<open>
  The compliance checker (\<^verbatim>\<open>pkg/dlp/compliance/checker.go\<close>): the built-in rule sets of four
  regulations with their validators, the test whether a rule is enabled, and the check of a scan
  result against a list of rules.  Go ranges over the map of regulations in any order, so the
  order is an argument; so is the clock.
\<close>

section \<open>Violations\<close>

definition violation :: "string \<Rightarrow> string \<Rightarrow> string \<Rightarrow> Finding \<Rightarrow> ComplianceViolation" where
  "violation rule severity description f =
     \<lparr>Viol_Rule = rule, Viol_PIIType = Finding_Type f, Viol_Severity = severity,
      Viol_Description = description, Viol_FindingIDs = [Finding_ID f]\<rparr>"

text \<open>The nested loops of the validators: for every finding and every listed type a violation, when the
  finding has that type and passes the guard.\<close>

definition validate_types ::
  "(Finding \<Rightarrow> bool) \<Rightarrow> PIIType list \<Rightarrow> (Finding \<Rightarrow> ComplianceViolation) \<Rightarrow> ScanResult \<Rightarrow>
     ComplianceViolation list" where
  "validate_types guard tys mk r =
     concat (map (\<lambda>f. concat (map (\<lambda>t. if Finding_Type f = t \<and> guard f then [mk f] else []) tys))
       (Scan_Findings r))"

definition validateGDPRPersonalData :: "ScanResult \<Rightarrow> ComplianceViolation list" where
  "validateGDPRPersonalData =
     validate_types (\<lambda>f. Finding_RiskLevel f \<noteq> RiskLevelLow)
       [PIITypeEmail, PIITypeName, PIITypeAddress, PIITypePhoneNumber]
       (violation ''GDPR-001'' ''high'' ''Personal data detected that requires GDPR compliance measures'')"

definition validateGDPRSpecialCategory :: "ScanResult \<Rightarrow> ComplianceViolation list" where
  "validateGDPRSpecialCategory =
     validate_types (\<lambda>_. True) [PIITypeDateOfBirth, PIITypeSSN]
       (violation ''GDPR-002'' ''critical''
         ''Special category personal data detected requiring enhanced protection'')"

definition validateHIPAAPHI :: "ScanResult \<Rightarrow> ComplianceViolation list" where
  "validateHIPAAPHI =
     validate_types (\<lambda>_. True) [PIITypeSSN, PIITypeDateOfBirth, PIITypeName, PIITypeEmail]
       (violation ''HIPAA-001'' ''critical''
         ''Protected Health Information detected requiring HIPAA safeguards'')"

definition validatePCICardholderData :: "ScanResult \<Rightarrow> ComplianceViolation list" where
  "validatePCICardholderData =
     validate_types (\<lambda>_. True) [PIITypeCreditCard]
       (violation ''PCI-001'' ''critical''
         ''Cardholder data detected requiring PCI DSS compliance controls'')"

definition validateCCPAPersonalInfo :: "ScanResult \<Rightarrow> ComplianceViolation list" where
  "validateCCPAPersonalInfo =
     validate_types (\<lambda>_. True) [PIITypeEmail, PIITypeName, PIITypeAddress, PIITypeSSN, PIITypeIPAddress]
       (violation ''CCPA-001'' ''high''
         ''Personal information detected that is subject to CCPA consumer rights'')"

section \<open>The rule sets\<close>

record ComplianceRuleDefinition =
  Def_RuleID :: string
  Def_Name :: string
  Def_Description :: string
  Def_PIITypes :: "PIIType list"
  Def_Severity :: string
  Def_Required :: bool
  Def_Validator :: "ScanResult \<Rightarrow> ComplianceViolation list"

record ComplianceRuleSet =
  Set_Regulation :: string
  Set_Description :: string
  Set_Rules :: "ComplianceRuleDefinition list"

definition registerGDPRRules :: ComplianceRuleSet where
  "registerGDPRRules =
     \<lparr>Set_Regulation = ''GDPR'', Set_Description = ''General Data Protection Regulation'',
      Set_Rules =
       [\<lparr>Def_RuleID = ''GDPR-001'', Def_Name = ''Personal Data Detection'',
         Def_Description = ''Detect personal data that requires GDPR compliance'',
         Def_PIITypes = [PIITypeEmail, PIITypeName, PIITypeAddress, PIITypePhoneNumber],
         Def_Severity = ''high'', Def_Required = True, Def_Validator = validateGDPRPersonalData\<rparr>,
        \<lparr>Def_RuleID = ''GDPR-002'', Def_Name = ''Special Category Data'',
         Def_Description = ''Detect special category personal data requiring extra protection'',
         Def_PIITypes = [PIITypeDateOfBirth, PIITypeSSN],
         Def_Severity = ''critical'', Def_Required = True, Def_Validator = validateGDPRSpecialCategory\<rparr>]\<rparr>"

definition registerHIPAARules :: ComplianceRuleSet where
  "registerHIPAARules =
     \<lparr>Set_Regulation = ''HIPAA'', Set_Description = ''Health Insurance Portability and Accountability Act'',
      Set_Rules =
       [\<lparr>Def_RuleID = ''HIPAA-001'', Def_Name = ''Protected Health Information'',
         Def_Description = ''Detect PHI that requires HIPAA compliance'',
         Def_PIITypes = [PIITypeSSN, PIITypeDateOfBirth, PIITypeName, PIITypeEmail],
         Def_Severity = ''critical'', Def_Required = True, Def_Validator = validateHIPAAPHI\<rparr>]\<rparr>"

definition registerPCIDSSRules :: ComplianceRuleSet where
  "registerPCIDSSRules =
     \<lparr>Set_Regulation = ''PCI-DSS'', Set_Description = ''Payment Card Industry Data Security Standard'',
      Set_Rules =
       [\<lparr>Def_RuleID = ''PCI-001'', Def_Name = ''Cardholder Data'',
         Def_Description = ''Detect cardholder data requiring PCI DSS compliance'',
         Def_PIITypes = [PIITypeCreditCard],
         Def_Severity = ''critical'', Def_Required = True, Def_Validator = validatePCICardholderData\<rparr>]\<rparr>"

definition registerCCPARules :: ComplianceRuleSet where
  "registerCCPARules =
     \<lparr>Set_Regulation = ''CCPA'', Set_Description = ''California Consumer Privacy Act'',
      Set_Rules =
       [\<lparr>Def_RuleID = ''CCPA-001'', Def_Name = ''Personal Information'',
         Def_Description = ''Detect personal information under CCPA'',
         Def_PIITypes = [PIITypeEmail, PIITypeName, PIITypeAddress, PIITypeSSN, PIITypeIPAddress],
         Def_Severity = ''high'', Def_Required = True, Def_Validator = validateCCPAPersonalInfo\<rparr>]\<rparr>"

definition NewBasicComplianceChecker :: "string \<rightharpoonup> ComplianceRuleSet" where
  "NewBasicComplianceChecker =
     [''GDPR'' \<mapsto> registerGDPRRules, ''HIPAA'' \<mapsto> registerHIPAARules,
      ''PCI-DSS'' \<mapsto> registerPCIDSSRules, ''CCPA'' \<mapsto> registerCCPARules]"

section \<open>Checking\<close>

primrec isRuleEnabled :: "string \<Rightarrow> ComplianceRule list \<Rightarrow> bool" where
  "isRuleEnabled ruleID [] = False"
| "isRuleEnabled ruleID (r # rs) =
     (if Rule_Rule r = ruleID then True
      else if str_contains ruleID (Rule_Regulation r) then True
      else isRuleEnabled ruleID rs)"

definition generateRequiredActions :: "ComplianceRuleDefinition \<Rightarrow> ComplianceViolation list \<Rightarrow> string list" where
  "generateRequiredActions ruleDef violations =
     (if Def_RuleID ruleDef = ''GDPR-001'' \<or> Def_RuleID ruleDef = ''GDPR-002''
      then [''Implement data protection measures'', ''Document legal basis for processing'']
      else if Def_RuleID ruleDef = ''HIPAA-001''
      then [''Apply HIPAA safeguards'', ''Implement access controls'']
      else if Def_RuleID ruleDef = ''PCI-001''
      then [''Encrypt cardholder data'', ''Implement PCI DSS controls'']
      else if Def_RuleID ruleDef = ''CCPA-001''
      then [''Enable consumer rights mechanisms'', ''Implement data deletion capabilities'']
      else [])"

text \<open>One iteration of the loop over the rule definitions.\<close>

definition check_rule ::
  "ScanResult \<Rightarrow> ComplianceRule list \<Rightarrow> ComplianceResult \<Rightarrow> ComplianceRuleDefinition \<Rightarrow> ComplianceResult" where
  "check_rule scanResult rules result ruleDef =
     (if \<not> isRuleEnabled (Def_RuleID ruleDef) rules then result
      else let violations = Def_Validator ruleDef scanResult
           in if length violations > 0
              then result\<lparr>Comp_IsCompliant := False,
                          Comp_Violations := Comp_Violations result @ violations,
                          Comp_RequiredActions :=
                            Comp_RequiredActions result @ generateRequiredActions ruleDef violations\<rparr>
              else result)"

definition checkRegulation ::
  "(string \<rightharpoonup> ComplianceRuleSet) \<Rightarrow> time \<Rightarrow> ScanResult \<Rightarrow> string \<Rightarrow> ComplianceRule list \<Rightarrow>
     (string, ComplianceResult) outcome" where
  "checkRegulation sets now scanResult regulation rules =
     (case sets regulation of
        None \<Rightarrow> Err (''unsupported regulation: '' @ regulation)
      | Some ruleSet \<Rightarrow>
          Ok (foldl (check_rule scanResult rules)
                \<lparr>Comp_IsCompliant = True, Comp_Violations = [], Comp_Regulation = regulation,
                 Comp_CheckedAt = now, Comp_RequiredActions = []\<rparr>
                (Set_Rules ruleSet)))"

definition group_rules :: "ComplianceRule list \<Rightarrow> (string \<rightharpoonup> ComplianceRule list)" where
  "group_rules rules =
     foldl (\<lambda>m r. m(Rule_Regulation r \<mapsto> (case m (Rule_Regulation r) of None \<Rightarrow> [] | Some l \<Rightarrow> l) @ [r]))
       Map.empty rules"

definition merge_regulation ::
  "(string \<rightharpoonup> ComplianceRuleSet) \<Rightarrow> (string \<Rightarrow> time) \<Rightarrow> ScanResult \<Rightarrow> ComplianceResult \<Rightarrow>
     string \<times> ComplianceRule list \<Rightarrow> ComplianceResult" where
  "merge_regulation sets clock scanResult result e =
     (case checkRegulation sets (clock (fst e)) scanResult (fst e) (snd e) of
        Ok rr \<Rightarrow>
          result\<lparr>Comp_IsCompliant := (if \<not> Comp_IsCompliant rr then False else Comp_IsCompliant result),
                 Comp_Violations := Comp_Violations result @ Comp_Violations rr,
                 Comp_RequiredActions := Comp_RequiredActions result @ Comp_RequiredActions rr,
                 Comp_Regulation := (if Comp_Regulation result = [] then fst e else Comp_Regulation result)\<rparr>
      | _ \<Rightarrow> result)"

text \<open>\<open>entries\<close> is the order in which Go ranges over the grouped rules; the error is always nil.\<close>

definition CheckCompliance ::
  "(string \<rightharpoonup> ComplianceRuleSet) \<Rightarrow> time \<Rightarrow> (string \<Rightarrow> time) \<Rightarrow> (string \<times> ComplianceRule list) list \<Rightarrow>
     ScanResult \<Rightarrow> ComplianceResult" where
  "CheckCompliance sets start clock entries scanResult =
     foldl (merge_regulation sets clock scanResult)
       \<lparr>Comp_IsCompliant = True, Comp_Violations = [], Comp_Regulation = [],
        Comp_CheckedAt = start, Comp_RequiredActions = []\<rparr> entries"

section \<open>The loops\<close>

definition GetSupportedRegulations :: "(string \<times> ComplianceRuleSet) list \<Rightarrow> string list" where
  "GetSupportedRegulations entries = map fst entries"

definition rule_violations :: "ScanResult \<Rightarrow> ComplianceRule list \<Rightarrow> ComplianceRuleDefinition \<Rightarrow> ComplianceViolation list" where
  "rule_violations scanResult rules d =
     (if isRuleEnabled (Def_RuleID d) rules then Def_Validator d scanResult else [])"

definition regulation_violations ::
  "(string \<rightharpoonup> ComplianceRuleSet) \<Rightarrow> ScanResult \<Rightarrow> string \<times> ComplianceRule list \<Rightarrow> ComplianceViolation list" where
  "regulation_violations sets scanResult e =
     (case sets (fst e) of
        None \<Rightarrow> []
      | Some rs \<Rightarrow> concat (map (rule_violations scanResult (snd e)) (Set_Rules rs)))"

lemma check_rules:
  "Comp_Violations (foldl (check_rule scanResult rules) res ds) =
     Comp_Violations res @ concat (map (rule_violations scanResult rules) ds) \<and>
   (Comp_IsCompliant (foldl (check_rule scanResult rules) res ds) \<longleftrightarrow>
     Comp_IsCompliant res \<and> concat (map (rule_violations scanResult rules) ds) = [])"
  by (induction ds arbitrary: res) (auto simp: check_rule_def rule_violations_def Let_def)

lemma checkRegulation_violations:
  "(case checkRegulation sets now scanResult (fst e) (snd e) of
      Ok rr \<Rightarrow> Comp_Violations rr = regulation_violations sets scanResult e \<and>
        (Comp_IsCompliant rr \<longleftrightarrow> regulation_violations sets scanResult e = [])
    | Err _ \<Rightarrow> regulation_violations sets scanResult e = []
    | Panic \<Rightarrow> False)"
  by (auto simp: checkRegulation_def regulation_violations_def check_rules split: option.splits)

lemma merge_regulations:
  "Comp_Violations (foldl (merge_regulation sets clock scanResult) res es) =
     Comp_Violations res @ concat (map (regulation_violations sets scanResult) es) \<and>
   (Comp_IsCompliant (foldl (merge_regulation sets clock scanResult) res es) \<longleftrightarrow>
     Comp_IsCompliant res \<and> concat (map (regulation_violations sets scanResult) es) = [])"
proof (induction es arbitrary: res)
  case Nil
  then show ?case by simp
next
  case (Cons e es)
  have "Comp_Violations (merge_regulation sets clock scanResult res e) =
      Comp_Violations res @ regulation_violations sets scanResult e \<and>
    (Comp_IsCompliant (merge_regulation sets clock scanResult res e) \<longleftrightarrow>
      Comp_IsCompliant res \<and> regulation_violations sets scanResult e = [])"
    using checkRegulation_violations [where sets = sets and now = "clock (fst e)" and scanResult = scanResult and e = e]
    by (auto simp: merge_regulation_def split: outcome.splits)
  then show ?case by (simp add: Cons.IH)
qed

lemma CheckCompliance_violations:
  "Comp_Violations (CheckCompliance sets start clock es scanResult) =
     concat (map (regulation_violations sets scanResult) es)"
  "Comp_IsCompliant (CheckCompliance sets start clock es scanResult) \<longleftrightarrow>
     concat (map (regulation_violations sets scanResult) es) = []"
  by (simp_all add: CheckCompliance_def merge_regulations)

lemma group_rules_snoc:
  "group_rules (rs @ [r]) = (group_rules rs)(Rule_Regulation r \<mapsto>
     (case group_rules rs (Rule_Regulation r) of None \<Rightarrow> [] | Some l \<Rightarrow> l) @ [r])"
  by (simp add: group_rules_def)

lemma group_rules_filter:
  "group_rules rs reg =
     (if filter (\<lambda>r. Rule_Regulation r = reg) rs = [] then None
      else Some (filter (\<lambda>r. Rule_Regulation r = reg) rs))"
proof (induction rs arbitrary: reg rule: rev_induct)
  case Nil
  then show ?case by (simp add: group_rules_def)
next
  case (snoc r rs)
  show ?case by (simp add: group_rules_snoc snoc.IH)
qed

lemma isRuleEnabled_iff:
  "isRuleEnabled ruleID rules \<longleftrightarrow>
     (\<exists>r \<in> set rules. Rule_Rule r = ruleID \<or> str_contains ruleID (Rule_Regulation r))"
  by (induction rules) auto

lemma validate_types_empty_iff:
  "validate_types guard tys mk r = [] \<longleftrightarrow>
     \<not> (\<exists>f \<in> set (Scan_Findings r). Finding_Type f \<in> set tys \<and> guard f)"
  by (auto simp: validate_types_def split: if_splits)

section \<open>Correctness\<close>

text \<open>The specification: the findings a requested rule objects to.\<close>

definition objects :: "ComplianceRule \<Rightarrow> Finding \<Rightarrow> bool" where
  "objects r f \<longleftrightarrow>
     (let reg = Rule_Regulation r; t = Finding_Type f
      in if reg = ''GDPR''
         then t \<in> {PIITypeEmail, PIITypeName, PIITypeAddress, PIITypePhoneNumber} \<and>
                Finding_RiskLevel f \<noteq> RiskLevelLow \<or> t \<in> {PIITypeDateOfBirth, PIITypeSSN}
         else if reg = ''HIPAA''
         then t \<in> {PIITypeSSN, PIITypeDateOfBirth, PIITypeName, PIITypeEmail}
         else if reg = ''CCPA''
         then t \<in> {PIITypeEmail, PIITypeName, PIITypeAddress, PIITypeSSN, PIITypeIPAddress}
         else if reg = ''PCI-DSS'' then Rule_Rule r = ''PCI-001'' \<and> t = PIITypeCreditCard
         else False)"

lemma contains_regulation:
  "str_contains ''GDPR-001'' ''GDPR''" "str_contains ''GDPR-002'' ''GDPR''"
  "str_contains ''HIPAA-001'' ''HIPAA''" "str_contains ''CCPA-001'' ''CCPA''"
  "\<not> str_contains ''PCI-001'' ''PCI-DSS''"
  by code_simp+

lemma regulation_violations_empty_iff:
  assumes "rs \<noteq> []" and "list_all (\<lambda>r. Rule_Regulation r = reg) rs"
  shows "regulation_violations NewBasicComplianceChecker scanResult (reg, rs) = [] \<longleftrightarrow>
    \<not> (\<exists>r \<in> set rs. \<exists>f \<in> set (Scan_Findings scanResult). objects r f)"
proof -
  have reg: "\<And>r. r \<in> set rs \<Longrightarrow> Rule_Regulation r = reg" using assms(2) by (simp add: list_all_iff)
  then have en: "isRuleEnabled i rs \<longleftrightarrow> (\<exists>r \<in> set rs. Rule_Rule r = i) \<or> str_contains i reg" for i
  proof -
    have "(\<exists>r \<in> set rs. str_contains i (Rule_Regulation r)) \<longleftrightarrow> str_contains i reg"
      using reg assms(1) by (cases rs) (auto simp del: list.set, auto)
    then show ?thesis by (auto simp: isRuleEnabled_iff)
  qed
  obtain r0 where r0: "r0 \<in> set rs" using assms(1) by (cases rs) auto
  note defs = regulation_violations_def NewBasicComplianceChecker_def rule_violations_def en contains_regulation
    validate_types_empty_iff objects_def reg Let_def assms(1)
  consider "reg = ''GDPR''" | "reg = ''HIPAA''" | "reg = ''CCPA''" | "reg = ''PCI-DSS''"
    | "reg \<notin> {''GDPR'', ''HIPAA'', ''CCPA'', ''PCI-DSS''}" by blast
  then show ?thesis
  proof cases
    case 1
    with r0 show ?thesis
      by (simp add: defs registerGDPRRules_def validateGDPRPersonalData_def validateGDPRSpecialCategory_def
          cong: bex_cong) (use r0 in blast)?
  next
    case 2
    with r0 show ?thesis
      by (simp add: defs registerHIPAARules_def validateHIPAAPHI_def cong: bex_cong) (use r0 in blast)?
  next
    case 3
    with r0 show ?thesis
      by (simp add: defs registerCCPARules_def validateCCPAPersonalInfo_def cong: bex_cong) (use r0 in blast)?
  next
    case 4
    then show ?thesis
      by (simp add: defs registerPCIDSSRules_def validatePCICardholderData_def cong: bex_cong) (use r0 in blast)?
  next
    case 5
    then show ?thesis by (simp add: defs cong: bex_cong)
  qed
qed

lemma entries_of_groups:
  assumes "ranges_over es (group_rules rules)"
  shows "(reg, rs) \<in> set es \<longleftrightarrow> rs = filter (\<lambda>r. Rule_Regulation r = reg) rules \<and> rs \<noteq> []"
proof -
  have "(reg, rs) \<in> set es \<longleftrightarrow> map_of es reg = Some rs"
    using assms by (metis ranges_over_def map_of_eq_Some_iff)
  then show ?thesis using assms by (auto simp: ranges_over_def group_rules_filter)
qed



definition sample_rule :: "string \<Rightarrow> string \<Rightarrow> ComplianceRule" where
  "sample_rule reg rule =
     \<lparr>Rule_Regulation = reg, Rule_Rule = rule, Rule_PIITypes = [], Rule_Required = True,
      Rule_Parameters = Map.empty\<rparr>"

definition sample_scan :: "Finding list \<Rightarrow> ScanResult" where
  "sample_scan fs =
     \<lparr>Scan_ChunkID = ''c1'', Scan_ScannedAt = 0, Scan_Scanner = scanner_name,
      Scan_TotalMatches = int (length fs), Scan_HighRiskCount = countHighRiskFindings fs,
      Scan_Findings = fs, Scan_RiskScore = 1, Scan_IsCompliant = False,
      Scan_Metadata = \<lparr>Meta_ScanDuration = 0, Meta_ContentLength = 0, Meta_PatternsScanned = 0,
        Meta_ProcessingTime = 0, Meta_ScannerVersion = scanner_version\<rparr>\<rparr>"

lemma sample_scan_findings [simp]: "Scan_Findings (sample_scan fs) = fs"
  by (simp add: sample_scan_def)

lemma sample_rule_simps [simp]:
  "Rule_Regulation (sample_rule reg rule) = reg" "Rule_Rule (sample_rule reg rule) = rule"
  by (simp_all add: sample_rule_def)

lemma sample_ranges:
  "ranges_over [(reg, [sample_rule reg rule])] (group_rules [sample_rule reg rule])"
  by (auto simp: ranges_over_def group_rules_def)


text \<open>Requesting the regulation PCI-DSS does not enable its rule.  For the other three regulations a
  rule with any identifier enables all rules of the regulation, since their identifiers contain its
  name; PCI-001 does not contain PCI-DSS, so content with a card number is found compliant unless
  the request names PCI-001 itself.\<close>

theorem pci_rule_needs_its_identifier:
  "Comp_IsCompliant (CheckCompliance NewBasicComplianceChecker start clock
       [(''PCI-DSS'', [sample_rule ''PCI-DSS'' ''cardholder-data''])]
       (sample_scan [sample_finding PIITypeCreditCard ''4111111111111111'' 0])) \<and>
   \<not> Comp_IsCompliant (CheckCompliance NewBasicComplianceChecker start clock
       [(''PCI-DSS'', [sample_rule ''PCI-DSS'' ''PCI-001''])]
       (sample_scan [sample_finding PIITypeCreditCard ''4111111111111111'' 0]))"
proof -
  have "isRuleEnabled ''PCI-001'' [sample_rule ''PCI-DSS'' ''PCI-001'']"
    and "\<not> isRuleEnabled ''PCI-001'' [sample_rule ''PCI-DSS'' ''cardholder-data'']"
    using contains_regulation by auto
  then show ?thesis
    by (simp add: CheckCompliance_violations regulation_violations_def NewBasicComplianceChecker_def
        registerPCIDSSRules_def rule_violations_def validatePCICardholderData_def
        validate_types_empty_iff sample_finding_def)
qed

section \<open>The interface of a compliance checker\<close>

text \<open>What a check takes from outside: the clock, and the order of a range over a map of rules.\<close>

record check_env =
  Chk_start :: time
  Chk_clock :: "string \<Rightarrow> time"
  Chk_range :: "(string \<rightharpoonup> ComplianceRule list) \<Rightarrow> (string \<times> ComplianceRule list) list"

definition check_rules_of :: "check_env \<Rightarrow> ScanResult \<Rightarrow> ComplianceRule list \<Rightarrow> ComplianceResult" where
  "check_rules_of cenv scanResult rules =
     CheckCompliance NewBasicComplianceChecker (Chk_start cenv) (Chk_clock cenv)
       (Chk_range cenv (group_rules rules)) scanResult"

locale compliance_checker =
  fixes check :: "'cenv \<Rightarrow> ScanResult \<Rightarrow> ComplianceRule list \<Rightarrow> ComplianceResult"
  assumes verdict: "Comp_IsCompliant (check cenv scanResult rules) \<longleftrightarrow>
      Comp_Violations (check cenv scanResult rules) = []"
    and violation_of_finding: "v \<in> set (Comp_Violations (check cenv scanResult rules)) \<Longrightarrow>
      \<exists>f \<in> set (Scan_Findings scanResult). Viol_FindingIDs v = [Finding_ID f] \<and> Viol_PIIType v = Finding_Type f"
begin

lemma no_findings_compliant: "Scan_Findings scanResult = [] \<Longrightarrow> Comp_IsCompliant (check cenv scanResult rules)"
  using verdict violation_of_finding by (metis equals0D list.set(1) list.set_intros(1) neq_Nil_conv)

end

lemma validate_types_of_finding:
  "v \<in> set (validate_types guard tys (violation rule severity description) r) \<Longrightarrow>
   \<exists>f \<in> set (Scan_Findings r). Viol_FindingIDs v = [Finding_ID f] \<and> Viol_PIIType v = Finding_Type f"
  by (auto simp: validate_types_def violation_def split: if_splits)

lemma regulation_violations_of_finding:
  "v \<in> set (regulation_violations NewBasicComplianceChecker scanResult e) \<Longrightarrow>
   \<exists>f \<in> set (Scan_Findings scanResult). Viol_FindingIDs v = [Finding_ID f] \<and> Viol_PIIType v = Finding_Type f"
  by (auto simp: regulation_violations_def NewBasicComplianceChecker_def rule_violations_def
      registerGDPRRules_def registerHIPAARules_def registerPCIDSSRules_def registerCCPARules_def
      validateGDPRPersonalData_def validateGDPRSpecialCategory_def validateHIPAAPHI_def
      validatePCICardholderData_def validateCCPAPersonalInfo_def
      split: option.splits if_splits dest!: validate_types_of_finding)

interpretation basic_checker: compliance_checker check_rules_of
proof
  show "Comp_IsCompliant (check_rules_of cenv scanResult rules) \<longleftrightarrow>
      Comp_Violations (check_rules_of cenv scanResult rules) = []" for cenv scanResult rules
    by (simp add: check_rules_of_def CheckCompliance_violations)
  show "\<exists>f \<in> set (Scan_Findings scanResult). Viol_FindingIDs v = [Finding_ID f] \<and> Viol_PIIType v = Finding_Type f"
    if "v \<in> set (Comp_Violations (check_rules_of cenv scanResult rules))" for v cenv scanResult rules
    using that by (auto simp: check_rules_of_def CheckCompliance_violations
        dest: regulation_violations_of_finding)
qed

end
