(* ===== verification/Dlp_Service.thy ===== *)
theory Dlp_Service
  imports Dlp_Compliance
begin

text \<open>
  The DLP service (\<^verbatim>\<open>pkg/dlp/service.go\<close>): a scan request is validated, its configuration is
  completed, the content is scanned, checked and redacted, and recommendations are derived.  The
  service holds its three components as interface values, so its record has their operations as
  fields.  A batch runs one goroutine per chunk behind a semaphore: \<open>batch_step\<close> is the step
  relation of that pool, and \<open>ScanBatch\<close> the collection of the results in the order in which they
  arrive.
\<close>

section \<open>Configuration, requests and responses\<close>

record DLPServiceConfig =
  Svc_DefaultScanTimeout :: duration
  Svc_DefaultMinConfidence :: float64
  Svc_DefaultRedactionMode :: RedactionStrategy
  Svc_EnableCompliance :: bool
  Svc_DefaultComplianceRules :: "ComplianceRule list"
  Svc_MaxContentLength :: int
  Svc_EnableCaching :: bool
  Svc_CacheTTL :: duration

definition GetDefaultDLPServiceConfig :: DLPServiceConfig where
  "GetDefaultDLPServiceConfig =
     \<lparr>Svc_DefaultScanTimeout = 30 * 1000000000, Svc_DefaultMinConfidence = round64 (7/10),
      Svc_DefaultRedactionMode = RedactionMask, Svc_EnableCompliance = True,
      Svc_DefaultComplianceRules = [], Svc_MaxContentLength = 1024 * 1024,
      Svc_EnableCaching = False, Svc_CacheTTL = 3600 * 1000000000\<rparr>"

record ('e, 'c) DLPService =
  Svc_scan :: "'e \<Rightarrow> string \<Rightarrow> ScanConfig option \<Rightarrow> (string, ScanResult) outcome"
  Svc_redact :: "string \<Rightarrow> Finding list \<Rightarrow> RedactionStrategy \<Rightarrow> (string, string) outcome"
  Svc_redaction_map :: "Finding list \<Rightarrow> RedactionStrategy \<Rightarrow> (string \<rightharpoonup> string)"
  Svc_check :: "'c \<Rightarrow> ScanResult \<Rightarrow> ComplianceRule list \<Rightarrow> ComplianceResult"
  Svc_config :: DLPServiceConfig

definition NewDLPService :: "finding_sorter \<Rightarrow> DLPServiceConfig option \<Rightarrow> (scan_env, check_env) DLPService" where
  "NewDLPService srt config =
     \<lparr>Svc_scan = ScanContent, Svc_redact = RedactContent srt, Svc_redaction_map = GenerateRedactionMap,
      Svc_check = check_rules_of,
      Svc_config = (case config of None \<Rightarrow> GetDefaultDLPServiceConfig | Some c \<Rightarrow> c)\<rparr>"

record DLPScanRequest =
  Req_TenantID :: uuid
  Req_ContentID :: string
  Req_Content :: string
  Req_Metadata :: "(string \<times> string) list"
  Req_ScanConfig :: "ScanConfig option"
  Req_ComplianceRules :: "ComplianceRule list"
  Req_RedactionMode :: RedactionStrategy

record DLPScanResponse =
  Resp_RequestID :: string
  Resp_ScanResult :: ScanResult
  Resp_ComplianceResult :: "ComplianceResult option"
  Resp_RedactedContent :: string
  Resp_RedactionMap :: "string \<rightharpoonup> string"
  Resp_ProcessingTime :: duration
  Resp_Recommendations :: "string list"

record ChunkScanRequest =
  CReq_TenantID :: uuid
  CReq_ChunkID :: string
  CReq_FileID :: uuid
  CReq_Content :: string
  CReq_Metadata :: "(string \<times> string) list"
  CReq_ScanConfig :: "ScanConfig option"
  CReq_ComplianceRules :: "ComplianceRule list"

section \<open>A single scan\<close>

definition validateScanRequest :: "DLPServiceConfig \<Rightarrow> DLPScanRequest \<Rightarrow> string option" where
  "validateScanRequest cfg request =
     (if Req_Content request = [] then Some ''content cannot be empty''
      else if int (length (Req_Content request)) > Svc_MaxContentLength cfg
      then Some (''content exceeds maximum length of '' @ show_int (Svc_MaxContentLength cfg) @ '' bytes'')
      else if Req_TenantID request = nil_uuid then Some ''tenant_id is required''
      else None)"

text \<open>The zero value of a configuration; the empty redaction mode is an unknown strategy.\<close>

definition zero_config :: ScanConfig where
  "zero_config =
     \<lparr>Cfg_TenantID = nil_uuid, Cfg_EnabledPatterns = [], Cfg_DisabledPatterns = [],
      Cfg_MinConfidence = 0, Cfg_ScanTimeout = 0, Cfg_CustomPatterns = [], Cfg_ComplianceRules = [],
      Cfg_RedactionMode = RedactionOther [], Cfg_ContextWindow = 0, Cfg_ScanMetadata = False\<rparr>"

definition prepareScanConfig :: "DLPServiceConfig \<Rightarrow> uuid \<Rightarrow> ScanConfig option \<Rightarrow> ScanConfig" where
  "prepareScanConfig cfg tenantID config0 =
     (let config = (case config0 of None \<Rightarrow> zero_config | Some c \<Rightarrow> c);
          config = (if Cfg_TenantID config = nil_uuid then config\<lparr>Cfg_TenantID := tenantID\<rparr> else config);
          config = (if Cfg_MinConfidence config = 0
                    then config\<lparr>Cfg_MinConfidence := Svc_DefaultMinConfidence cfg\<rparr> else config);
          config = (if Cfg_ScanTimeout config = 0
                    then config\<lparr>Cfg_ScanTimeout := Svc_DefaultScanTimeout cfg\<rparr> else config);
          config = (if Cfg_ContextWindow config = 0 then config\<lparr>Cfg_ContextWindow := 20\<rparr> else config)
      in config)"

definition count_type :: "PIIType \<Rightarrow> Finding list \<Rightarrow> int" where
  "count_type t fs = int (length (filter (\<lambda>f. Finding_Type f = t) fs))"

definition generateRecommendations :: "ScanResult \<Rightarrow> ComplianceResult option \<Rightarrow> string list" where
  "generateRecommendations scanResult complianceResult =
     (if Scan_RiskScore scanResult \<ge> round64 (8/10)
      then [''High risk content detected - consider additional security measures''] else []) @
     (if Scan_HighRiskCount scanResult > 0
      then [''Apply strong access controls to content with high-risk PII''] else []) @
     (if count_type PIITypeCreditCard (Scan_Findings scanResult) > 0
      then [''Credit card data detected - ensure PCI DSS compliance''] else []) @
     (if count_type PIITypeSSN (Scan_Findings scanResult) > 0
      then [''SSN detected - implement strong encryption and access controls''] else []) @
     (case complianceResult of
        None \<Rightarrow> []
      | Some cr \<Rightarrow>
          if \<not> Comp_IsCompliant cr
          then ''Content not compliant - review required actions'' # Comp_RequiredActions cr else [])"

record ('e, 'c) service_env =
  Senv_RequestID :: string
  Senv_scan :: 'e
  Senv_check :: 'c
  Senv_elapsed :: duration

definition SvcScanContent ::
  "('e, 'c) DLPService \<Rightarrow> ('e, 'c) service_env \<Rightarrow> DLPScanRequest \<Rightarrow> (string, DLPScanResponse) outcome" where
  "SvcScanContent s env request =
     (case validateScanRequest (Svc_config s) request of
        Some e \<Rightarrow> Err (''invalid scan request: '' @ e)
      | None \<Rightarrow>
          let scanConfig = prepareScanConfig (Svc_config s) (Req_TenantID request) (Req_ScanConfig request)
          in case Svc_scan s (Senv_scan env) (Req_Content request) (Some scanConfig) of
               Panic \<Rightarrow> Panic
             | Err e \<Rightarrow> Err (''DLP scan failed: '' @ e)
             | Ok scanResult \<Rightarrow>
                 let compliance =
                       (if Svc_EnableCompliance (Svc_config s) \<and> length (Req_ComplianceRules request) > 0
                        then Some (Svc_check s (Senv_check env) scanResult (Req_ComplianceRules request))
                        else None);
                     redactionMode =
                       (if Req_RedactionMode request = RedactionOther []
                        then Svc_DefaultRedactionMode (Svc_config s) else Req_RedactionMode request);
                     response =
                       \<lparr>Resp_RequestID = Senv_RequestID env, Resp_ScanResult = scanResult,
                        Resp_ComplianceResult = compliance, Resp_RedactedContent = [],
                        Resp_RedactionMap = Map.empty, Resp_ProcessingTime = Senv_elapsed env,
                        Resp_Recommendations = generateRecommendations scanResult compliance\<rparr>
                 in if redactionMode \<noteq> RedactionNone
                    then (case Svc_redact s (Req_Content request) (Scan_Findings scanResult) redactionMode of
                            Panic \<Rightarrow> Panic
                          | Err _ \<Rightarrow> Ok response
                          | Ok redactedContent \<Rightarrow>
                              Ok (response\<lparr>Resp_RedactedContent := redactedContent,
                                           Resp_RedactionMap :=
                                             Svc_redaction_map s (Scan_Findings scanResult) redactionMode\<rparr>))
                    else Ok response)"

definition SvcScanChunk ::
  "('e, 'c) DLPService \<Rightarrow> ('e, 'c) service_env \<Rightarrow> ChunkScanRequest \<Rightarrow> (string, DLPScanResponse) outcome" where
  "SvcScanChunk s env request =
     SvcScanContent s env
       \<lparr>Req_TenantID = CReq_TenantID request, Req_ContentID = CReq_ChunkID request,
        Req_Content = CReq_Content request, Req_Metadata = CReq_Metadata request,
        Req_ScanConfig = CReq_ScanConfig request,
        Req_ComplianceRules = CReq_ComplianceRules request,
        Req_RedactionMode = RedactionOther []\<rparr>"

section \<open>Statistics of a batch\<close>

record AggregateStats =
  Agg_TotalFindings :: int
  Agg_FindingsByType :: "PIIType \<Rightarrow> int"
  Agg_FindingsByRisk :: "RiskLevel \<Rightarrow> int"
  Agg_AverageRiskScore :: float64
  Agg_ComplianceStatus :: "string \<rightharpoonup> bool"
  Agg_TopViolations :: "ComplianceViolation list"

text \<open>A Go map of counters reads 0 for a missing key, and is a function here.  \<open>rs\<close> are the responses in
  the order of a range over the results; the pointer to a scan result is never nil in a response.\<close>

definition add_response ::
  "AggregateStats \<times> float64 \<times> nat \<Rightarrow> DLPScanResponse \<Rightarrow> AggregateStats \<times> float64 \<times> nat" where
  "add_response st r =
     (let (stats, totalRiskScore, resultCount) = st;
          sr = Resp_ScanResult r;
          stats = stats\<lparr>Agg_TotalFindings := Agg_TotalFindings stats + Scan_TotalMatches sr,
            Agg_FindingsByType := (\<lambda>t. Agg_FindingsByType stats t + count_type t (Scan_Findings sr)),
            Agg_FindingsByRisk := (\<lambda>l. Agg_FindingsByRisk stats l +
              int (length (filter (\<lambda>f. Finding_RiskLevel f = l) (Scan_Findings sr))))\<rparr>;
          stats = (case Resp_ComplianceResult r of
            None \<Rightarrow> stats
          | Some cr \<Rightarrow>
              stats\<lparr>Agg_ComplianceStatus := (Agg_ComplianceStatus stats)(Comp_Regulation cr \<mapsto> Comp_IsCompliant cr),
                    Agg_TopViolations := Agg_TopViolations stats @ Comp_Violations cr\<rparr>)
      in (stats, f64_add totalRiskScore (Scan_RiskScore sr), Suc resultCount))"

definition calculateAggregateStats :: "DLPScanResponse list \<Rightarrow> AggregateStats" where
  "calculateAggregateStats rs =
     (let (stats, totalRiskScore, resultCount) =
            foldl add_response
              (\<lparr>Agg_TotalFindings = 0, Agg_FindingsByType = (\<lambda>_. 0), Agg_FindingsByRisk = (\<lambda>_. 0),
                Agg_AverageRiskScore = 0, Agg_ComplianceStatus = Map.empty, Agg_TopViolations = []\<rparr>, 0, 0) rs
      in if resultCount > 0
         then stats\<lparr>Agg_AverageRiskScore := f64_div totalRiskScore (round64 (of_nat resultCount))\<rparr>
         else stats)"

section \<open>Batches\<close>

record BatchScanRequest =
  Batch_TenantID :: uuid
  Batch_Chunks :: "ChunkScanRequest list"
  Batch_ScanConfig :: "ScanConfig option"
  Batch_ComplianceRules :: "ComplianceRule list"
  Batch_MaxConcurrency :: int

record BatchScanResponse =
  BResp_RequestID :: string
  BResp_TotalChunks :: int
  BResp_ScannedChunks :: int
  BResp_FailedChunks :: int
  BResp_Results :: "string \<rightharpoonup> DLPScanResponse"
  BResp_AggregateStats :: AggregateStats
  BResp_ProcessingTime :: duration

definition batch_concurrency :: "BatchScanRequest \<Rightarrow> nat" where
  "batch_concurrency request =
     (if Batch_MaxConcurrency request \<le> 0 then 5 else nat (Batch_MaxConcurrency request))"

text \<open>The goroutines: waiting for the semaphore, scanning, having sent their result while still holding
  the semaphore, and finished.  The channel is buffered with one slot per chunk.\<close>

datatype goroutine = Waiting | Scanning | Sent | Finished

record batch_state =
  Pool :: "goroutine list"
  Chan :: "nat list"
  Got :: "nat list"

definition holding :: "goroutine list \<Rightarrow> nat" where
  "holding gs = length (filter (\<lambda>g. g = Scanning \<or> g = Sent) gs)"

definition batch_start :: "nat \<Rightarrow> batch_state" where
  "batch_start n = \<lparr>Pool = replicate n Waiting, Chan = [], Got = []\<rparr>"

inductive batch_step :: "nat \<Rightarrow> batch_state \<Rightarrow> batch_state \<Rightarrow> bool" for limit where
  acquire: "i < length (Pool st) \<Longrightarrow> Pool st ! i = Waiting \<Longrightarrow> holding (Pool st) < limit \<Longrightarrow>
    batch_step limit st (st\<lparr>Pool := (Pool st)[i := Scanning]\<rparr>)"
| send: "i < length (Pool st) \<Longrightarrow> Pool st ! i = Scanning \<Longrightarrow> length (Chan st) < length (Pool st) \<Longrightarrow>
    batch_step limit st (st\<lparr>Pool := (Pool st)[i := Sent], Chan := Chan st @ [i]\<rparr>)"
| release: "i < length (Pool st) \<Longrightarrow> Pool st ! i = Sent \<Longrightarrow>
    batch_step limit st (st\<lparr>Pool := (Pool st)[i := Finished]\<rparr>)"
| receive: "Chan st = i # c \<Longrightarrow> length (Got st) < length (Pool st) \<Longrightarrow>
    batch_step limit st (st\<lparr>Chan := c, Got := Got st @ [i]\<rparr>)"

text \<open>The collecting loop, over the chunks in the order of their results.\<close>

definition collect ::
  "int \<times> int \<times> (string \<rightharpoonup> DLPScanResponse) \<Rightarrow> string \<times> (string, DLPScanResponse) outcome \<Rightarrow>
     int \<times> int \<times> (string \<rightharpoonup> DLPScanResponse)" where
  "collect acc res =
     (let (scanned, failed, results) = acc
      in case snd res of
           Ok r \<Rightarrow> (scanned + 1, failed, results(fst res \<mapsto> r))
         | _ \<Rightarrow> (scanned, failed + 1, results))"

text \<open>\<open>arrived\<close> is the order in which the results arrive, \<open>env i\<close> the surroundings of the \<open>i\<close>-th scan,
  and \<open>rng\<close> the order of a range over the results.  A panic in a goroutine ends the program.\<close>

definition ScanBatch ::
  "('e, 'c) DLPService \<Rightarrow> (nat \<Rightarrow> ('e, 'c) service_env) \<Rightarrow> string \<Rightarrow> duration \<Rightarrow> nat list \<Rightarrow>
     ((string \<rightharpoonup> DLPScanResponse) \<Rightarrow> DLPScanResponse list) \<Rightarrow> BatchScanRequest \<Rightarrow>
     (string, BatchScanResponse) outcome" where
  "ScanBatch s env requestID elapsed arrived rng request =
     (if length (Batch_Chunks request) = 0 then Err ''no chunks to scan''
      else let scan = (\<lambda>i. let chunk = Batch_Chunks request ! i
                           in (CReq_ChunkID chunk, SvcScanChunk s (env i) chunk));
               results = map scan arrived
           in if list_ex (\<lambda>r. snd r = Panic) results then Panic
              else let (scanned, failed, m) = foldl collect (0, 0, Map.empty) results
                   in Ok \<lparr>BResp_RequestID = requestID,
                          BResp_TotalChunks = int (length (Batch_Chunks request)),
                          BResp_ScannedChunks = scanned, BResp_FailedChunks = failed,
                          BResp_Results = m, BResp_AggregateStats = calculateAggregateStats (rng m),
                          BResp_ProcessingTime = elapsed\<rparr>)"

section \<open>The pool of goroutines\<close>

definition pool_inv :: "nat \<Rightarrow> nat \<Rightarrow> batch_state \<Rightarrow> bool" where
  "pool_inv limit n st \<longleftrightarrow>
     length (Pool st) = n \<and> holding (Pool st) \<le> limit \<and> distinct (Got st @ Chan st) \<and>
     set (Got st @ Chan st) = {i. i < n \<and> (Pool st ! i = Sent \<or> Pool st ! i = Finished)}"

abbreviation batch_reachable :: "nat \<Rightarrow> nat \<Rightarrow> batch_state \<Rightarrow> bool" where
  "batch_reachable limit n st \<equiv> (batch_step limit)\<^sup>*\<^sup>* (batch_start n) st"

lemma holding_update:
  "i < length gs \<Longrightarrow>
   holding (gs[i := g]) + (if gs ! i = Scanning \<or> gs ! i = Sent then 1 else 0) =
   holding gs + (if g = Scanning \<or> g = Sent then 1 else 0)"
proof (induction gs arbitrary: i)
  case Nil
  then show ?case by simp
next
  case (Cons a gs)
  show ?case
  proof (cases i)
    case 0
    then show ?thesis by (simp add: holding_def)
  next
    case (Suc j)
    with Cons.prems have "j < length gs" by simp
    from Cons.IH [OF this] Suc show ?thesis by (auto simp: holding_def)
  qed
qed

lemma pool_inv_start: "pool_inv limit n (batch_start n)"
proof -
  have "holding (replicate n Waiting) = 0" by (induction n) (simp_all add: holding_def)
  then show ?thesis by (auto simp: pool_inv_def batch_start_def)
qed

lemma distinct_member_bound: "distinct xs \<Longrightarrow> set xs \<subseteq> {i. i < n \<and> P i} \<Longrightarrow> length xs \<le> n"
  using card_mono [of "{..< n}" "set xs"] distinct_card [of xs] by fastforce

lemma pool_inv_step:
  assumes "batch_step limit st st'" and "pool_inv limit n st"
  shows "pool_inv limit n st'"
  using assms
proof (induction rule: batch_step.induct)
  case (acquire i st)
  have "set (Got st @ Chan st) = {j. j < n \<and> (Pool st ! j = Sent \<or> Pool st ! j = Finished)}"
    using acquire.prems by (simp add: pool_inv_def)
  also have "\<dots> = {j. j < n \<and> ((Pool st)[i := Scanning] ! j = Sent \<or> (Pool st)[i := Scanning] ! j = Finished)}"
    using acquire by (auto simp: nth_list_update pool_inv_def)
  finally show ?case
    using acquire holding_update [of i "Pool st" Scanning] by (simp add: pool_inv_def)
next
  case (send i st)
  have "set (Got st @ Chan st @ [i]) = insert i {j. j < n \<and> (Pool st ! j = Sent \<or> Pool st ! j = Finished)}"
    using send.prems by (simp add: pool_inv_def flip: Un_assoc)
  also have "\<dots> = {j. j < n \<and> ((Pool st)[i := Sent] ! j = Sent \<or> (Pool st)[i := Sent] ! j = Finished)}"
    using send by (auto simp: nth_list_update pool_inv_def)
  finally have S: "set (Got st @ Chan st @ [i]) =
      {j. j < n \<and> ((Pool st)[i := Sent] ! j = Sent \<or> (Pool st)[i := Sent] ! j = Finished)}" .
  have "i \<notin> set (Got st @ Chan st)" using send by (auto simp: pool_inv_def)
  then show ?case
    using send S holding_update [of i "Pool st" Sent] by (auto simp: pool_inv_def)
next
  case (release i st)
  have "set (Got st @ Chan st) = {j. j < n \<and> (Pool st ! j = Sent \<or> Pool st ! j = Finished)}"
    using release.prems by (simp add: pool_inv_def)
  also have "\<dots> = {j. j < n \<and> ((Pool st)[i := Finished] ! j = Sent \<or> (Pool st)[i := Finished] ! j = Finished)}"
    using release by (auto simp: nth_list_update pool_inv_def)
  finally show ?case
    using release holding_update [of i "Pool st" Finished] by (simp add: pool_inv_def)
next
  case (receive st i c)
  then show ?case by (auto simp: pool_inv_def)
qed

lemma pool_inv_reachable: "batch_reachable limit n st \<Longrightarrow> pool_inv limit n st"
  by (induction rule: rtranclp_induct) (auto intro: pool_inv_start pool_inv_step)

text \<open>Progress: as long as a result is missing, some goroutine or the collector can move.\<close>

lemma pool_progress:
  assumes "pool_inv limit n st" and "0 < limit" and "length (Got st) < n"
  shows "\<exists>st'. batch_step limit st st'"
proof (cases "Chan st")
  case (Cons i c)
  then show ?thesis using assms by (auto simp: pool_inv_def intro: batch_step.receive)
next
  case Nil
  have inv: "length (Pool st) = n" "distinct (Got st)"
    "set (Got st) = {i. i < n \<and> (Pool st ! i = Sent \<or> Pool st ! i = Finished)}"
    using assms(1) Nil by (auto simp: pool_inv_def)
  have "\<not> {..< n} \<subseteq> set (Got st)"
    using card_mono [of "set (Got st)" "{..< n}"] distinct_card [OF inv(2)] assms(3) by auto
  then obtain i where i: "i < n" "i \<notin> set (Got st)" by auto
  then have i2: "Pool st ! i = Waiting \<or> Pool st ! i = Scanning"
    using inv(3) by (cases "Pool st ! i") auto
  show ?thesis
  proof (cases "\<exists>j < n. Pool st ! j = Scanning \<or> Pool st ! j = Sent")
    case True
    then obtain j where j: "j < length (Pool st)" "Pool st ! j = Scanning \<or> Pool st ! j = Sent"
      using inv(1) by blast
    have "length (Chan st) < length (Pool st)" using j(1) Nil by (cases "Pool st") auto
    then show ?thesis using j batch_step.send [OF j(1)] batch_step.release [OF j(1)] by blast
  next
    case False
    then have "holding (Pool st) = 0"
      using inv(1) by (auto simp: holding_def filter_empty_conv in_set_conv_nth)
    moreover have "Pool st ! i = Waiting" using i i2 False by blast
    moreover have "i < length (Pool st)" using i inv(1) by simp
    ultimately show ?thesis using batch_step.acquire [of i st limit] assms(2) by auto
  qed
qed

text \<open>Termination: every step moves one goroutine or one result forward.\<close>

primrec work_left :: "goroutine \<Rightarrow> nat" where
  "work_left Waiting = 4"
| "work_left Scanning = 3"
| "work_left Sent = 1"
| "work_left Finished = 0"

definition batch_measure :: "batch_state \<Rightarrow> nat" where
  "batch_measure st = sum_list (map work_left (Pool st)) + length (Chan st)"

lemma sum_work_update:
  "i < length gs \<Longrightarrow>
   sum_list (map work_left (gs[i := g])) + work_left (gs ! i) = sum_list (map work_left gs) + work_left g"
  by (induction gs arbitrary: i) (auto split: nat.splits)

lemma batch_step_measure: "batch_step limit st st' \<Longrightarrow> batch_measure st' < batch_measure st"
proof (induction rule: batch_step.induct)
  case (acquire i st)
  then show ?case using sum_work_update [of i "Pool st" Scanning] by (simp add: batch_measure_def)
next
  case (send i st)
  then show ?case using sum_work_update [of i "Pool st" Sent] by (simp add: batch_measure_def)
next
  case (release i st)
  then show ?case using sum_work_update [of i "Pool st" Finished] by (simp add: batch_measure_def)
next
  case (receive st i c)
  then show ?case by (simp add: batch_measure_def)
qed

lemma pool_got_all:
  assumes "pool_inv limit n st" and "length (Got st) = n"
  shows "mset (Got st) = mset [0 ..< n]"
proof -
  have d: "distinct (Got st)" and sub: "set (Got st) \<subseteq> {..< n}" using assms(1) by (auto simp: pool_inv_def)
  have "set (Got st) = {..< n}"
    by (rule card_subset_eq) (use d sub assms(2) in \<open>simp_all add: distinct_card\<close>)
  then have "set (Got st) = set [0 ..< n]" by (simp only: atLeast_upt)
  then show ?thesis
    by (rule iffD1 [OF set_eq_iff_mset_eq_distinct [OF d distinct_upt]])
qed

section \<open>The service over the contracts of its components\<close>

text \<open>The service only relies on the contracts of a scanner, a redaction engine and a checker.\<close>

locale dlp_service =
  scan: dlp_scanner scan_content patterns validate +
  red: redaction_engine redact redaction_map +
  chk: compliance_checker check
  for scan_content :: "'env \<Rightarrow> string \<Rightarrow> ScanConfig option \<Rightarrow> (string, ScanResult) outcome"
    and patterns :: "PatternInfo list" and validate :: "ScanConfig \<Rightarrow> string option"
    and redact :: "string \<Rightarrow> Finding list \<Rightarrow> RedactionStrategy \<Rightarrow> (string, string) outcome"
    and redaction_map :: "Finding list \<Rightarrow> RedactionStrategy \<Rightarrow> (string \<rightharpoonup> string)"
    and check :: "'cenv \<Rightarrow> ScanResult \<Rightarrow> ComplianceRule list \<Rightarrow> ComplianceResult" +
  fixes config :: DLPServiceConfig
begin

abbreviation service :: "('env, 'cenv) DLPService" where
  "service \<equiv> \<lparr>Svc_scan = scan_content, Svc_redact = redact, Svc_redaction_map = redaction_map,
     Svc_check = check, Svc_config = config\<rparr>"

lemma service_response:
  assumes "SvcScanContent service env request = Ok resp"
  shows "validateScanRequest config request = None \<and>
    scan_content (Senv_scan env) (Req_Content request)
      (Some (prepareScanConfig config (Req_TenantID request) (Req_ScanConfig request))) = Ok (Resp_ScanResult resp) \<and>
    Resp_Recommendations resp = generateRecommendations (Resp_ScanResult resp) (Resp_ComplianceResult resp)"
  using assms
  by (auto simp: SvcScanContent_def Let_def split: option.splits outcome.splits if_splits)

lemma service_totals:
  assumes "SvcScanContent service env request = Ok resp"
  shows "Scan_TotalMatches (Resp_ScanResult resp) = int (length (Scan_Findings (Resp_ScanResult resp)))"
  using service_response [OF assms] scan.scan_total by blast

lemma service_panics_only_in_redaction:
  assumes "SvcScanContent service env request = Panic"
  shows "\<exists>r mode. scan_content (Senv_scan env) (Req_Content request)
      (Some (prepareScanConfig config (Req_TenantID request) (Req_ScanConfig request))) = Ok r \<and>
    \<not> disjoint_findings (Scan_Findings r) \<and> redact (Req_Content request) (Scan_Findings r) mode = Panic"
proof -
  obtain r mode where r: "scan_content (Senv_scan env) (Req_Content request)
      (Some (prepareScanConfig config (Req_TenantID request) (Req_ScanConfig request))) = Ok r"
    "redact (Req_Content request) (Scan_Findings r) mode = Panic"
    using assms scan.scan_no_panic
    by (auto simp: SvcScanContent_def Let_def split: option.splits outcome.splits if_splits)
  then show ?thesis
    using red.redact_disjoint_ok [OF _ scan.scan_findings_in [OF r(1)], of mode] by auto
qed

end

interpretation basic_service: dlp_service ScanContent GetSupportedPatterns ValidateConfig
    "RedactContent insertion_sort" GenerateRedactionMap check_rules_of config for config
  by (rule dlp_service.intro basic_scanner.dlp_scanner_axioms
      basic_redaction.redaction_engine_axioms basic_checker.compliance_checker_axioms)+

lemma NewDLPService_eq:
  "NewDLPService srt (Some config) =
     \<lparr>Svc_scan = ScanContent, Svc_redact = RedactContent srt, Svc_redaction_map = GenerateRedactionMap,
      Svc_check = check_rules_of, Svc_config = config\<rparr>"
  by (simp add: NewDLPService_def)

section \<open>Correctness of the service\<close>

text \<open>A request of an ordinary tenant.\<close>

definition sample_request :: "string \<Rightarrow> RedactionStrategy \<Rightarrow> DLPScanRequest" where
  "sample_request content mode =
     \<lparr>Req_TenantID = ''7d444840-9dc0-11d1-b245-5ffdce74fad2'', Req_ContentID = ''c1'',
      Req_Content = content, Req_Metadata = [], Req_ScanConfig = None, Req_ComplianceRules = [],
      Req_RedactionMode = mode\<rparr>"

definition plain_check_env :: check_env where
  "plain_check_env = \<lparr>Chk_start = 0, Chk_clock = (\<lambda>_. 0), Chk_range = (\<lambda>_. [])\<rparr>"

definition plain_service_env :: "(scan_env, check_env) service_env" where
  "plain_service_env =
     \<lparr>Senv_RequestID = ''r1'', Senv_scan = plain_env, Senv_check = plain_check_env, Senv_elapsed = 3\<rparr>"

lemma prepare_None_simps [simp]:
  "Cfg_EnabledPatterns (prepareScanConfig cfg t None) = []"
  "Cfg_DisabledPatterns (prepareScanConfig cfg t None) = []"
  "Cfg_CustomPatterns (prepareScanConfig cfg t None) = []"
  "Cfg_MinConfidence (prepareScanConfig cfg t None) = Svc_DefaultMinConfidence cfg"
  "Cfg_ScanTimeout (prepareScanConfig cfg t None) = Svc_DefaultScanTimeout cfg"
  "Cfg_ContextWindow (prepareScanConfig cfg t None) = 20"
  by (simp_all add: prepareScanConfig_def zero_config_def Let_def)

lemma default_config_simps [simp]:
  "Svc_DefaultMinConfidence GetDefaultDLPServiceConfig = round64 (7/10)"
  "Svc_DefaultScanTimeout GetDefaultDLPServiceConfig = 30000000000"
  "Svc_MaxContentLength GetDefaultDLPServiceConfig = 1048576"
  "Svc_DefaultRedactionMode GetDefaultDLPServiceConfig = RedactionMask"
  by (simp_all add: GetDefaultDLPServiceConfig_def)

lemma prepare_None_valid: "ValidateConfig (prepareScanConfig GetDefaultDLPServiceConfig t None) = None"
  by (simp add: ValidateConfig_None_iff)

lemma service_scan_returns:
  assumes "\<And>k. Env_done env k = None"
  shows "\<exists>r. ScanContent env content (Some (prepareScanConfig GetDefaultDLPServiceConfig t None)) = Ok r"
  by (rule ScanContent_returns) (simp_all add: effective_config_def prepare_None_valid assms)


lemma overlap_request_panics:
  assumes "env_ok (Senv_scan env)" and "\<And>k. Env_done (Senv_scan env) k = None" and "slice_sort srt"
  shows "SvcScanContent (NewDLPService srt None) env
    (sample_request ''123-45-6789@a.io'' RedactionReplace) = Panic"
proof -
  let ?c = "prepareScanConfig GetDefaultDLPServiceConfig ''7d444840-9dc0-11d1-b245-5ffdce74fad2'' None"
  obtain r where r: "ScanContent (Senv_scan env) ''123-45-6789@a.io'' (Some ?c) = Ok r"
    using service_scan_returns [OF assms(2)] by blast
  have "RedactContent srt ''123-45-6789@a.io'' (Scan_Findings r) RedactionReplace = Panic"
    by (rule overlapping_findings_panic [OF assms(1,3) r]) simp_all
  with r show ?thesis
    by (simp add: SvcScanContent_def NewDLPService_def sample_request_def validateScanRequest_def
        nil_uuid_def Let_def)
qed


text \<open>A request can make the service panic.  Its content is an e-mail address whose user name is a
  social security number and its redaction mode is replacement; this happens for every order in
  which the scanner ranges over its matchers and for every sorting function.\<close>

theorem request_with_overlap_panics:
  assumes "env_ok (Senv_scan env)" and "\<And>k. Env_done (Senv_scan env) k = None" and "slice_sort srt"
  shows "SvcScanContent (NewDLPService srt None) env
    (sample_request ''123-45-6789@a.io'' RedactionReplace) = Panic"
  by (rule overlap_request_panics [OF assms])

theorem request_with_overlap_panics_witness:
  "SvcScanContent (NewDLPService insertion_sort None) plain_service_env
     (sample_request ''123-45-6789@a.io'' RedactionReplace) = Panic"
  by (rule request_with_overlap_panics [OF _ _ insertion_sort.slice_sort_axioms])
    (simp_all add: plain_service_env_def)

text \<open>The checks of a request.  Without a configuration of its own and with a live context, a request
  to the default service is rejected exactly when its content is empty or longer than 1 MiB, or
  its tenant is the nil UUID.\<close>

theorem service_rejects_iff:
  assumes "Req_ScanConfig request = None" and "\<And>k. Env_done (Senv_scan env) k = None"
  shows "(\<exists>e. SvcScanContent (NewDLPService insertion_sort None) env request = Err e) \<longleftrightarrow>
    Req_Content request = [] \<or> 1048576 < length (Req_Content request) \<or> Req_TenantID request = nil_uuid"
proof -
  obtain r where r: "ScanContent (Senv_scan env) (Req_Content request)
      (Some (prepareScanConfig GetDefaultDLPServiceConfig (Req_TenantID request) None)) = Ok r"
    using service_scan_returns [OF assms(2)] by blast
  have "int (length c) > 1048576 \<longleftrightarrow> 1048576 < length c" for c :: string by linarith
  then show ?thesis
    using r by (auto simp: SvcScanContent_def NewDLPService_def validateScanRequest_def Let_def assms(1)
        split: outcome.splits if_splits)
qed

theorem service_rejects_iff_witness:
  "\<not> (\<exists>e. SvcScanContent (NewDLPService insertion_sort None) plain_service_env
      (sample_request ''no data'' RedactionMask) = Err e)"
proof -
  have "Req_ScanConfig (sample_request ''no data'' RedactionMask) = None"
    and "Env_done (Senv_scan plain_service_env) k = None" for k
    by (simp_all add: sample_request_def plain_service_env_def)
  then show ?thesis
    using service_rejects_iff [of "sample_request ''no data'' RedactionMask" plain_service_env]
    by (simp add: sample_request_def nil_uuid_def)
qed

section \<open>Correctness of a batch\<close>



definition scan_of :: "('e, 'c) DLPService \<Rightarrow> (nat \<Rightarrow> ('e, 'c) service_env) \<Rightarrow> BatchScanRequest \<Rightarrow> nat \<Rightarrow>
    string \<times> (string, DLPScanResponse) outcome" where
  "scan_of s env request i =
     (CReq_ChunkID (Batch_Chunks request ! i), SvcScanChunk s (env i) (Batch_Chunks request ! i))"

lemma collect_step:
  "snd r = Ok x \<Longrightarrow> collect (a, b, m) r = (a + 1, b, m(fst r \<mapsto> x))"
  "snd r = Err e \<Longrightarrow> collect (a, b, m) r = (a, b + 1, m)"
  "snd r = Panic \<Longrightarrow> collect (a, b, m) r = (a, b + 1, m)"
  by (simp_all add: collect_def)

lemma collect_counts:
  assumes "foldl collect (a, b, m) rs = (a', b', m')"
  shows "a' + b' = a + b + int (length rs) \<and> a' = a + int (length (filter (\<lambda>r. \<exists>x. snd r = Ok x) rs))"
  using assms
proof (induction rs arbitrary: a b m)
  case Nil
  then show ?case by simp
next
  case (Cons r rs)
  show ?case
  proof (cases "snd r")
    case (Ok x)
    with Cons.prems have "foldl collect (a + 1, b, m(fst r \<mapsto> x)) rs = (a', b', m')" by (simp add: collect_step)
    from Cons.IH [OF this] Ok show ?thesis by simp
  next
    case (Err e)
    with Cons.prems have "foldl collect (a, b + 1, m) rs = (a', b', m')" by (simp add: collect_step)
    from Cons.IH [OF this] Err show ?thesis by simp
  next
    case Panic
    with Cons.prems have "foldl collect (a, b + 1, m) rs = (a', b', m')" by (simp add: collect_step)
    from Cons.IH [OF this] Panic show ?thesis by simp
  qed
qed

lemma collect_map:
  assumes "foldl collect (a, b, m) rs = (a', b', m')" and "distinct (map fst rs)"
  shows "m' c = Some x \<longleftrightarrow> (c, Ok x) \<in> set rs \<or> (\<forall>y. (c, Ok y) \<notin> set rs) \<and> m c = Some x"
  using assms
proof (induction rs arbitrary: a b m)
  case Nil
  then show ?case by simp
next
  case (Cons r rs)
  obtain d o' where r: "r = (d, o')" by (cases r)
  have "d \<notin> fst ` set rs" using Cons.prems(2) by (simp add: r)
  then have d: "(d, y) \<notin> set rs" for y by force
  show ?case
  proof (cases o')
    case (Ok z)
    with Cons.prems have "foldl collect (a + 1, b, m(d \<mapsto> z)) rs = (a', b', m')"
      and "distinct (map fst rs)" by (simp_all add: collect_step r)
    from Cons.IH [OF this] show ?thesis using d by (auto simp: r Ok)
  next
    case (Err e)
    with Cons.prems have "foldl collect (a, b + 1, m) rs = (a', b', m')"
      and "distinct (map fst rs)" by (simp_all add: collect_step r)
    from Cons.IH [OF this] show ?thesis by (auto simp: r Err)
  next
    case Panic
    with Cons.prems have "foldl collect (a, b + 1, m) rs = (a', b', m')"
      and "distinct (map fst rs)" by (simp_all add: collect_step r)
    from Cons.IH [OF this] show ?thesis by (auto simp: r Panic)
  qed
qed

text \<open>The result of a batch does not depend on the order in which the goroutines finish.  When the
  results of all chunks have arrived, the numbers of scanned and failed chunks add up to the number
  of chunks, and, if the chunks have different identifiers, the results hold for every identifier
  exactly the response of its chunk.\<close>

theorem batch_results_complete:
  assumes "ScanBatch s env rid el arrived rng request = Ok resp"
    and "mset arrived = mset [0 ..< length (Batch_Chunks request)]"
    and "distinct (map CReq_ChunkID (Batch_Chunks request))"
  shows "BResp_ScannedChunks resp + BResp_FailedChunks resp = BResp_TotalChunks resp \<and>
    (\<forall>c x. BResp_Results resp c = Some x \<longleftrightarrow>
      (\<exists>i < length (Batch_Chunks request). scan_of s env request i = (c, Ok x)))"
proof -
  let ?n = "length (Batch_Chunks request)" and ?rs = "map (scan_of s env request) arrived"
  have st: "set arrived = {..< ?n}" using assms(2) mset_eq_setD by fastforce
  have ln: "length arrived = ?n" using assms(2) by (metis diff_zero length_upt size_mset)
  have "distinct arrived" using assms(2) by (metis distinct_upt mset_eq_imp_distinct_iff)
  moreover have "inj_on (\<lambda>i. CReq_ChunkID (Batch_Chunks request ! i)) {..< ?n}"
    using assms(3) by (auto simp: inj_on_def distinct_conv_nth)
  ultimately have d: "distinct (map fst ?rs)"
    by (simp add: distinct_map st comp_def scan_of_def)
  obtain sc fl m where f: "foldl collect (0, 0, Map.empty) ?rs = (sc, fl, m)" by (metis prod_cases3)
  have "ScanBatch s env rid el arrived rng request = Ok resp \<Longrightarrow>
      BResp_ScannedChunks resp = sc \<and> BResp_FailedChunks resp = fl \<and> BResp_Results resp = m \<and>
      BResp_TotalChunks resp = int ?n"
    using f by (auto simp: ScanBatch_def Let_def scan_of_def [abs_def] split: if_splits)
  with assms(1) have r: "BResp_ScannedChunks resp = sc" "BResp_FailedChunks resp = fl"
    "BResp_Results resp = m" "BResp_TotalChunks resp = int ?n" by auto
  have "m c = Some x \<longleftrightarrow> (\<exists>i < ?n. scan_of s env request i = (c, Ok x))" for c x
  proof -
    have "m c = Some x \<longleftrightarrow> (c, Ok x) \<in> scan_of s env request ` set arrived"
      using collect_map [OF f d] by simp
    then show ?thesis unfolding st image_iff by (metis lessThan_iff)
  qed
  moreover have "sc + fl = int ?n" using collect_counts [OF f] ln by simp
  ultimately show ?thesis using r by simp
qed

definition status_response :: "bool \<Rightarrow> DLPScanResponse" where
  "status_response ok =
     \<lparr>Resp_RequestID = ''r'', Resp_ScanResult = sample_scan [],
      Resp_ComplianceResult =
        Some \<lparr>Comp_IsCompliant = ok, Comp_Violations = [], Comp_Regulation = ''GDPR'',
              Comp_CheckedAt = 0, Comp_RequiredActions = []\<rparr>,
      Resp_RedactedContent = [], Resp_RedactionMap = Map.empty, Resp_ProcessingTime = 0,
      Resp_Recommendations = []\<rparr>"

text \<open>The status of a regulation in the statistics is the one of the last response a range over the
  results visits: of two responses for the same regulation, one not compliant and one compliant,
  the statistics report the regulation as compliant or not depending on the order of the range.\<close>

theorem aggregate_status_depends_on_order:
  "Agg_ComplianceStatus (calculateAggregateStats [status_response False, status_response True]) ''GDPR'' = Some True \<and>
   Agg_ComplianceStatus (calculateAggregateStats [status_response True, status_response False]) ''GDPR'' = Some False"
  by (simp add: calculateAggregateStats_def add_response_def status_response_def Let_def)

lemma add_response_step:
  "add_response (st, t, n) r = (st', t', n') \<Longrightarrow>
   n' = Suc n \<and> t' = f64_add t (Scan_RiskScore (Resp_ScanResult r)) \<and>
   Agg_TotalFindings st' = Agg_TotalFindings st + Scan_TotalMatches (Resp_ScanResult r)"
  by (auto simp: add_response_def Let_def split: option.splits)

lemma add_responses:
  assumes "list_all (\<lambda>r. 0 \<le> Scan_RiskScore (Resp_ScanResult r) \<and> Scan_RiskScore (Resp_ScanResult r) \<le> 1) rs"
    and "length rs \<le> 2 ^ 53"
    and "foldl add_response (st0, 0, 0) rs = (st, tot, n)"
  shows "Agg_TotalFindings st = Agg_TotalFindings st0 + (\<Sum>r\<leftarrow>rs. Scan_TotalMatches (Resp_ScanResult r)) \<and>
    n = length rs \<and> 0 \<le> tot \<and> tot \<le> of_nat n"
  using assms
proof (induction rs arbitrary: st tot n rule: rev_induct)
  case Nil
  then show ?case by simp
next
  case (snoc r rs)
  obtain st1 t1 n1 where f: "foldl add_response (st0, 0, 0) rs = (st1, t1, n1)" by (metis prod_cases3)
  have IH: "Agg_TotalFindings st1 = Agg_TotalFindings st0 + (\<Sum>r\<leftarrow>rs. Scan_TotalMatches (Resp_ScanResult r))"
    "n1 = length rs" "0 \<le> t1" "t1 \<le> of_nat n1"
    using snoc.IH [OF _ _ f] snoc.prems by auto
  let ?w = "Scan_RiskScore (Resp_ScanResult r)"
  have w: "0 \<le> ?w" "?w \<le> 1" using snoc.prems(1) by auto
  have eq: "n = Suc n1" "tot = f64_add t1 ?w"
    "Agg_TotalFindings st = Agg_TotalFindings st1 + Scan_TotalMatches (Resp_ScanResult r)"
    using snoc.prems(3) add_response_step [of st1 t1 n1 r st tot n] by (simp_all add: f)
  have "round64 (t1 + ?w) \<le> round64 (of_nat n)"
    by (rule round64_mono) (use IH w eq in auto)
  also have "\<dots> = of_nat n" by (rule round64_of_nat) (use IH(2) eq(1) snoc.prems(2) in simp)
  finally show ?case using IH w eq by (simp add: f64_add_def round64_nonneg)
qed

text \<open>The statistics of a batch: the total is the sum of the totals of the responses, and if every
  risk score is between 0 and 1 so is the average.\<close>

theorem aggregate_stats_bounds:
  assumes "list_all (\<lambda>r. 0 \<le> Scan_RiskScore (Resp_ScanResult r) \<and> Scan_RiskScore (Resp_ScanResult r) \<le> 1) rs"
    and "length rs \<le> 2 ^ 53"
  shows "Agg_TotalFindings (calculateAggregateStats rs) = (\<Sum>r\<leftarrow>rs. Scan_TotalMatches (Resp_ScanResult r)) \<and>
    0 \<le> Agg_AverageRiskScore (calculateAggregateStats rs) \<and>
    Agg_AverageRiskScore (calculateAggregateStats rs) \<le> 1"
proof -
  let ?st0 = "\<lparr>Agg_TotalFindings = 0, Agg_FindingsByType = (\<lambda>_. 0), Agg_FindingsByRisk = (\<lambda>_. 0),
    Agg_AverageRiskScore = 0, Agg_ComplianceStatus = Map.empty, Agg_TopViolations = []\<rparr>"
  obtain st t n where f: "foldl add_response (?st0, 0, 0) rs = (st, t, n)" by (metis prod_cases3)
  note A = add_responses [OF assms f]
  have avg: "0 \<le> f64_div t (round64 (of_nat n)) \<and> f64_div t (round64 (of_nat n)) \<le> 1" if "0 < n"
  proof -
    have "round64 (of_nat n) = of_nat n" by (rule round64_of_nat) (use A assms(2) in simp)
    moreover have "0 \<le> t / of_nat n" "t / of_nat n \<le> 1" using A that by (auto simp: divide_le_eq)
    ultimately show ?thesis by (simp add: f64_div_def)
  qed
  have z: "rs = [] \<Longrightarrow> st = ?st0" using f by simp
  show ?thesis
  proof (cases "n > 0")
    case True
    with A avg f show ?thesis by (simp add: calculateAggregateStats_def)
  next
    case False
    with A z f show ?thesis by (simp add: calculateAggregateStats_def)
  qed
qed

theorem aggregate_stats_bounds_witness:
  "Agg_AverageRiskScore (calculateAggregateStats [status_response True, status_response False]) \<le> 1"
  by (rule aggregate_stats_bounds [THEN conjunct2, THEN conjunct2])
    (simp_all add: status_response_def sample_scan_def)

text \<open>A service whose scanner finds nothing, and a batch of two chunks.\<close>

definition quiet_service :: "(unit, unit) DLPService" where
  "quiet_service =
     \<lparr>Svc_scan = (\<lambda>_ _ _. Ok (sample_scan [])), Svc_redact = (\<lambda>c _ _. Ok c),
      Svc_redaction_map = (\<lambda>_ _. Map.empty),
      Svc_check = (\<lambda>_ _ _. \<lparr>Comp_IsCompliant = True, Comp_Violations = [], Comp_Regulation = [],
        Comp_CheckedAt = 0, Comp_RequiredActions = []\<rparr>),
      Svc_config = GetDefaultDLPServiceConfig\<rparr>"

definition quiet_env :: "(unit, unit) service_env" where
  "quiet_env = \<lparr>Senv_RequestID = ''r'', Senv_scan = (), Senv_check = (), Senv_elapsed = 1\<rparr>"

definition sample_chunk_request :: "string \<Rightarrow> ChunkScanRequest" where
  "sample_chunk_request i =
     \<lparr>CReq_TenantID = ''t'', CReq_ChunkID = i, CReq_FileID = ''f'', CReq_Content = ''text'',
      CReq_Metadata = [], CReq_ScanConfig = None, CReq_ComplianceRules = []\<rparr>"

definition sample_batch :: BatchScanRequest where
  "sample_batch =
     \<lparr>Batch_TenantID = ''t'', Batch_Chunks = [sample_chunk_request ''a'', sample_chunk_request ''b''],
      Batch_ScanConfig = None, Batch_ComplianceRules = [], Batch_MaxConcurrency = 2\<rparr>"

lemma quiet_chunk_ok: "\<exists>x. SvcScanChunk quiet_service quiet_env (sample_chunk_request i) = Ok x"
  by (simp add: SvcScanChunk_def SvcScanContent_def quiet_service_def sample_chunk_request_def
      validateScanRequest_def nil_uuid_def GetDefaultDLPServiceConfig_def quiet_env_def Let_def)

theorem batch_results_complete_witness:
  "\<exists>resp. ScanBatch quiet_service (\<lambda>_. quiet_env) ''rid'' 5 [1, 0] (\<lambda>_. []) sample_batch = Ok resp \<and>
     BResp_ScannedChunks resp + BResp_FailedChunks resp = BResp_TotalChunks resp \<and>
     BResp_Results resp ''a'' \<noteq> None"
proof -
  have ch: "Batch_Chunks sample_batch = [sample_chunk_request ''a'', sample_chunk_request ''b'']"
    by (simp add: sample_batch_def)
  obtain x y where xy: "SvcScanChunk quiet_service quiet_env (sample_chunk_request ''a'') = Ok x"
    "SvcScanChunk quiet_service quiet_env (sample_chunk_request ''b'') = Ok y"
    using quiet_chunk_ok by blast
  then obtain resp where resp:
    "ScanBatch quiet_service (\<lambda>_. quiet_env) ''rid'' 5 [1, 0] (\<lambda>_. []) sample_batch = Ok resp"
    by (simp add: ScanBatch_def ch collect_step)
  have "mset [1, 0] = mset [0 ..< length (Batch_Chunks sample_batch)]"
    by (simp add: ch upt_conv_Cons)
  from batch_results_complete [OF resp this]
  have "BResp_ScannedChunks resp + BResp_FailedChunks resp = BResp_TotalChunks resp"
    and r: "\<And>c x. BResp_Results resp c = Some x \<longleftrightarrow>
      (\<exists>i < length (Batch_Chunks sample_batch). scan_of quiet_service (\<lambda>_. quiet_env) sample_batch i = (c, Ok x))"
    by (simp_all add: ch sample_chunk_request_def)
  moreover have "BResp_Results resp ''a'' = Some x"
    unfolding r by (rule exI [of _ 0]) (simp add: ch scan_of_def xy, simp add: sample_chunk_request_def)
  ultimately show ?thesis using resp by auto
qed

end
