(* ===== verification/Dlp_Shadow.thy ===== *)
theory Dlp_Shadow
  imports Dlp_Service "HOL-Library.List_Lexorder"
begin

text \<open>
  The shadow scanner (\<^verbatim>\<open>pkg/dlp/shadow/scanner.go\<close>): it runs the primary scanner, runs the
  Gatekeeper library on the same content, logs the difference of their findings by type, and
  returns the primary result.  Gatekeeper is not part of the repository: its scan is the argument
  \<open>gk\<close>, a function from the content to an error or to the identifiers of its findings, \<open>None\<close> being
  a nil result.  What is logged is a list of lines.
\<close>

type_synonym gatekeeper = "string \<Rightarrow> (string, string list option) outcome"

section \<open>Types of findings\<close>

fun strip_first_prefix :: "string list \<Rightarrow> string \<Rightarrow> string" where
  "strip_first_prefix [] s = s"
| "strip_first_prefix (p # ps) s = (if prefix p s then drop (length p) s else strip_first_prefix ps s)"

definition canonical :: "string \<Rightarrow> string" where
  "canonical s0 =
     (let s = to_lower (trim_space s0);
          s = strip_first_prefix [''pii-'', ''cred-'', ''credential-'', ''injection-'', ''inj-''] s;
          s = replace_byte (CHR ''-'') ''_'' s
      in if s = ''phone'' then ''phone_number''
         else if s = ''dob'' then ''date_of_birth''
         else if s = ''mrn'' then ''medical_record_number''
         else s)"

section \<open>The difference\<close>

record diffResult =
  Diff_both :: "string \<rightharpoonup> int \<times> int"
  Diff_gatekeeperOnly :: "string \<rightharpoonup> int"
  Diff_primaryOnly :: "string \<rightharpoonup> int"

text \<open>The counting loops, \<^verbatim>\<open>m[t]++\<close> for every finding.\<close>

definition tally :: "string list \<Rightarrow> (string \<rightharpoonup> int)" where
  "tally ts = foldl (\<lambda>m t. m(t \<mapsto> (case m t of None \<Rightarrow> 0 | Some n \<Rightarrow> n) + 1)) Map.empty ts"

definition diff :: "ScanResult \<Rightarrow> string list option \<Rightarrow> diffResult" where
  "diff primary gkRes =
     (let prim = tally (map (\<lambda>f. canonical (Finding_Type f)) (Scan_Findings primary));
          gkc = tally (map canonical (case gkRes of None \<Rightarrow> [] | Some ids \<Rightarrow> ids))
      in \<lparr>Diff_both = (\<lambda>t. case (prim t, gkc t) of (Some pc, Some gc) \<Rightarrow> Some (pc, gc) | _ \<Rightarrow> None),
          Diff_gatekeeperOnly = (\<lambda>t. case (prim t, gkc t) of (None, Some gc) \<Rightarrow> Some gc | _ \<Rightarrow> None),
          Diff_primaryOnly = (\<lambda>t. case (prim t, gkc t) of (Some pc, None) \<Rightarrow> Some pc | _ \<Rightarrow> None)\<rparr>)"

text \<open>The digits of a number, last first, as the loop writes them from the end of its buffer.\<close>

function itoa_loop :: "int \<Rightarrow> string \<Rightarrow> string" where
  "itoa_loop n b = (if n > 0 then itoa_loop (n div 10) (char_of (nat (48 + n mod 10)) # b) else b)"
  by pat_completeness auto
termination by (relation "measure (\<lambda>(n, b). nat n)") auto

declare itoa_loop.simps [simp del]

definition itoa :: "int \<Rightarrow> string" where
  "itoa n = (if n = 0 then ''0'' else itoa_loop n [])"

text \<open>The rendering: ranges over the three maps, whose orders are the arguments.\<close>

definition fmtCounts :: "(string \<times> int) list \<Rightarrow> string" where
  "fmtCounts es = join_strings '' '' (sort (map (\<lambda>(t, c). t @ '':'' @ itoa c) es))"

definition fmtBoth :: "(string \<times> int \<times> int) list \<Rightarrow> string list" where
  "fmtBoth es =
     map (\<lambda>(t, p, g). t @ '':'' @ itoa p @ ''/'' @ itoa g @ (if p \<noteq> g then ''(mismatch)'' else [])) es"

definition diff_string ::
  "(string \<times> int) list \<Rightarrow> (string \<times> int) list \<Rightarrow> (string \<times> int \<times> int) list \<Rightarrow> string" where
  "diff_string gks prims boths =
     trim_space
       ((if gks \<noteq> [] then ''gatekeeper_only=['' @ fmtCounts gks @ ''] '' else []) @
        (if prims \<noteq> [] then ''audimodal_only=['' @ fmtCounts prims @ ''] '' else []) @
        (if boths \<noteq> [] then ''both(audimodal/gk)=['' @ join_strings '' '' (sort (fmtBoth boths)) @ '']''
         else []))"

section \<open>The scanner\<close>

text \<open>The orders in which one call ranges over the three maps of a difference.\<close>

record range_orders =
  Ord_gk :: "(string \<rightharpoonup> int) \<Rightarrow> (string \<times> int) list"
  Ord_prim :: "(string \<rightharpoonup> int) \<Rightarrow> (string \<times> int) list"
  Ord_both :: "(string \<rightharpoonup> int \<times> int) \<Rightarrow> (string \<times> int \<times> int) list"

definition orders_ok :: "range_orders \<Rightarrow> bool" where
  "orders_ok o' \<longleftrightarrow>
     (\<forall>m. finite (dom m) \<longrightarrow> ranges_over (Ord_gk o' m) m) \<and>
     (\<forall>m. finite (dom m) \<longrightarrow> ranges_over (Ord_prim o' m) m) \<and>
     (\<forall>m. finite (dom m) \<longrightarrow> ranges_over (Ord_both o' m) m)"

definition diff_empty :: "diffResult \<Rightarrow> bool" where
  "diff_empty d \<longleftrightarrow> Diff_both d = Map.empty \<and> Diff_gatekeeperOnly d = Map.empty \<and> Diff_primaryOnly d = Map.empty"

definition render_diff :: "range_orders \<Rightarrow> diffResult \<Rightarrow> string" where
  "render_diff o' d =
     diff_string (Ord_gk o' (Diff_gatekeeperOnly d)) (Ord_prim o' (Diff_primaryOnly d)) (Ord_both o' (Diff_both d))"

definition shadow ::
  "gatekeeper \<Rightarrow> range_orders \<Rightarrow> string \<Rightarrow> ScanResult \<Rightarrow> (string, string list) outcome" where
  "shadow gk o' content primary =
     (if content = [] then Ok []
      else case gk content of
             Panic \<Rightarrow> Panic
           | Err e \<Rightarrow> Ok [''dlp-shadow: gatekeeper scan error (ignored): '' @ e]
           | Ok gkRes \<Rightarrow>
               let d = diff primary gkRes
               in if diff_empty d then Ok [] else Ok [''dlp-shadow: '' @ render_diff o' d])"

text \<open>A call returns the result and the logged lines.\<close>

definition ShadowScanContent ::
  "('e \<Rightarrow> string \<Rightarrow> ScanConfig option \<Rightarrow> (string, ScanResult) outcome) \<Rightarrow> gatekeeper \<Rightarrow> range_orders \<Rightarrow>
     'e \<Rightarrow> string \<Rightarrow> ScanConfig option \<Rightarrow> (string, ScanResult) outcome \<times> string list" where
  "ShadowScanContent primary gk o' env content config =
     (case primary env content config of
        Ok res \<Rightarrow>
          (case shadow gk o' content res of
             Ok lines \<Rightarrow> (Ok res, lines)
           | _ \<Rightarrow> (Panic, []))
      | r \<Rightarrow> (r, []))"

definition ShadowScanChunk ::
  "('e \<Rightarrow> ChunkContent \<Rightarrow> ScanConfig option \<Rightarrow> (string, ScanResult) outcome) \<Rightarrow> gatekeeper \<Rightarrow> range_orders \<Rightarrow>
     'e \<Rightarrow> ChunkContent \<Rightarrow> ScanConfig option \<Rightarrow> (string, ScanResult) outcome \<times> string list" where
  "ShadowScanChunk primary gk o' env chunk config =
     (case primary env chunk config of
        Ok res \<Rightarrow>
          (case shadow gk o' (Chunk_Content chunk) res of
             Ok lines \<Rightarrow> (Ok res, lines)
           | _ \<Rightarrow> (Panic, []))
      | r \<Rightarrow> (r, []))"

section \<open>Lemmas\<close>

lemma shadow_no_error: "shadow gk o' content res \<noteq> Err e"
  by (auto simp: shadow_def Let_def split: outcome.splits)

lemma shadow_panic_iff: "shadow gk o' content res = Panic \<longleftrightarrow> content \<noteq> [] \<and> gk content = Panic"
  by (auto simp: shadow_def Let_def split: outcome.splits)

lemma shadow_transparent:
  assumes "gk content \<noteq> Panic"
  shows "fst (ShadowScanContent primary gk o' env content config) = primary env content config"
proof (cases "primary env content config")
  case (Ok res)
  have "shadow gk o' content res \<noteq> Panic" using assms by (simp add: shadow_panic_iff)
  then obtain ls where "shadow gk o' content res = Ok ls"
    using shadow_no_error by (metis outcome.exhaust)
  with Ok show ?thesis by (simp add: ShadowScanContent_def)
qed (simp_all add: ShadowScanContent_def)

lemma shadow_chunk_transparent:
  assumes "gk (Chunk_Content chunk) \<noteq> Panic"
  shows "fst (ShadowScanChunk primary gk o' env chunk config) = primary env chunk config"
proof (cases "primary env chunk config")
  case (Ok res)
  have "shadow gk o' (Chunk_Content chunk) res \<noteq> Panic" using assms by (simp add: shadow_panic_iff)
  then obtain ls where "shadow gk o' (Chunk_Content chunk) res = Ok ls"
    using shadow_no_error by (metis outcome.exhaust)
  with Ok show ?thesis by (simp add: ShadowScanChunk_def)
qed (simp_all add: ShadowScanChunk_def)

text \<open>A scanner in the shadow of which a library that does not panic runs is again a scanner.\<close>

locale shadowed_scanner = dlp_scanner scan_content patterns validate
  for scan_content :: "'env \<Rightarrow> string \<Rightarrow> ScanConfig option \<Rightarrow> (string, ScanResult) outcome"
    and patterns :: "PatternInfo list" and validate :: "ScanConfig \<Rightarrow> string option" +
  fixes gk :: gatekeeper and ords :: range_orders
  assumes gk_no_panic: "gk content \<noteq> Panic"

sublocale shadowed_scanner \<subseteq> shadowed: dlp_scanner
    "\<lambda>env content config. fst (ShadowScanContent scan_content gk ords env content config)" patterns validate
proof -
  have "(\<lambda>env content config. fst (ShadowScanContent scan_content gk ords env content config)) = scan_content"
    by (intro ext shadow_transparent gk_no_panic)
  then show "dlp_scanner (\<lambda>env content config. fst (ShadowScanContent scan_content gk ords env content config)) validate"
    using dlp_scanner_axioms by simp
qed

lemma tally_count: "tally ts t = (if t \<in> set ts then Some (int (count_list ts t)) else None)"
proof (induction ts rule: rev_induct)
  case Nil
  then show ?case by (simp add: tally_def)
next
  case (snoc s ts)
  have "tally (ts @ [s]) = (tally ts)(s \<mapsto> (case tally ts s of None \<Rightarrow> 0 | Some n \<Rightarrow> n) + 1)"
    by (simp add: tally_def)
  moreover have "(case tally ts t of None \<Rightarrow> 0 | Some n \<Rightarrow> n) = int (count_list ts t)"
    using snoc by (simp add: count_list_0_iff)
  ultimately show ?case using snoc by auto
qed

lemma itoa_loop_show: "0 < n \<Longrightarrow> itoa_loop n b = show_nat (nat n) @ b"
proof (induction n b rule: itoa_loop.induct)
  case (1 n b)
  have d: "char_of (nat (48 + n mod 10)) = (char_of (48 + nat n mod 10) :: char)"
    using 1(2) by (simp add: nat_add_distrib nat_mod_distrib)
  show ?case
  proof (cases "n < 10")
    case True
    then have "n div 10 = 0" "n mod 10 = n" using 1(2) by auto
    with 1(2) True d show ?thesis
      by (simp add: itoa_loop.simps [of n] itoa_loop.simps [of 0] show_nat.simps [of "nat n"])
  next
    case False
    then have "0 < n div 10" and "nat (n div 10) = nat n div 10" and "\<not> nat n < 10"
      using 1(2) by (auto simp: nat_div_distrib)
    with 1 d show ?thesis
      by (simp add: itoa_loop.simps [of n] show_nat.simps [of "nat n"])
  qed
qed

text \<open>Every library is covered that never panics: a panicking one is replaced by one that fails.\<close>

definition guarded :: "gatekeeper \<Rightarrow> gatekeeper" where
  "guarded gk content = (case gk content of Panic \<Rightarrow> Err ''panic'' | r \<Rightarrow> r)"

interpretation basic_shadow: shadowed_scanner ScanContent GetSupportedPatterns ValidateConfig "guarded gk" ords
  for gk ords
  by unfold_locales (auto simp: guarded_def split: outcome.splits)

section \<open>Correctness of the shadow\<close>

text \<open>The shadow is transparent.  As long as the library does not panic on the content, scanning a
  content or a chunk with the shadow gives exactly the result of the primary scanner, errors
  included, whatever the library finds and in whatever order maps are visited.\<close>

theorem shadow_changes_nothing:
  assumes "gk content \<noteq> Panic" and "gk (Chunk_Content chunk) \<noteq> Panic"
  shows "fst (ShadowScanContent ScanContent gk ords env content config) = ScanContent env content config \<and>
    fst (ShadowScanChunk ScanChunk gk ords envs chunk config) = ScanChunk envs chunk config"
  by (simp add: shadow_transparent shadow_chunk_transparent assms)

theorem shadow_changes_nothing_witness:
  "fst (ShadowScanContent ScanContent (\<lambda>_. Err ''timeout'') \<lparr>Ord_gk = (\<lambda>_. []), Ord_prim = (\<lambda>_. []), Ord_both = (\<lambda>_. [])\<rparr>
      plain_env ''ssn 123-45-6789'' None) = ScanContent plain_env ''ssn 123-45-6789'' None"
  by (rule shadow_changes_nothing [THEN conjunct1]) simp_all

text \<open>The three parts of a difference split the canonical types of the two scans: a type found by both
  engines has both counts, and a type found by one engine only is in the part of that engine with
  its count.\<close>

theorem diff_splits_types:
  fixes prim :: ScanResult and ids :: "string list" and t :: string
  defines "p \<equiv> count_list (map (\<lambda>f. canonical (Finding_Type f)) (Scan_Findings prim)) t"
    and "g \<equiv> count_list (map canonical ids) t"
  shows "Diff_both (diff prim (Some ids)) t = (if p > 0 \<and> g > 0 then Some (int p, int g) else None) \<and>
    Diff_gatekeeperOnly (diff prim (Some ids)) t = (if p = 0 \<and> g > 0 then Some (int g) else None) \<and>
    Diff_primaryOnly (diff prim (Some ids)) t = (if p > 0 \<and> g = 0 then Some (int p) else None)"
proof -
  have c: "tally ts t = (if count_list ts t > 0 then Some (int (count_list ts t)) else None)" for ts
    using count_list_0_iff [of ts t] by (auto simp: tally_count)
  show ?thesis by (auto simp: diff_def Let_def p_def g_def c)
qed

lemma ranges_over_sort:
  "ranges_over xs m \<Longrightarrow> ranges_over ys m \<Longrightarrow> sort (map f xs) = (sort (map f ys) :: string list)"
proof -
  assume "ranges_over xs m" "ranges_over ys m"
  then have "mset (map f xs) = mset (map f ys)" using ranges_over_mset by (metis mset_map)
  then show ?thesis by (intro properties_for_sort) simp_all
qed

text \<open>The logged line does not depend on the order in which Go ranges over the maps.\<close>

theorem diff_line_deterministic:
  assumes "ranges_over gks m1" and "ranges_over gks' m1" and "ranges_over prims m2"
    and "ranges_over prims' m2" and "ranges_over boths m3" and "ranges_over boths' m3"
  shows "diff_string gks prims boths = diff_string gks' prims' boths'"
proof -
  have e: "xs = [] \<longleftrightarrow> ys = []" if "ranges_over xs m" "ranges_over ys m" for xs ys :: "('k \<times> 'v) list" and m
    using ranges_over_mset [OF that] by auto
  have "fmtCounts gks = fmtCounts gks'" "fmtCounts prims = fmtCounts prims'"
    unfolding fmtCounts_def by (simp_all only: ranges_over_sort [OF assms(1,2)] ranges_over_sort [OF assms(3,4)])
  moreover have "sort (fmtBoth boths) = sort (fmtBoth boths')"
    unfolding fmtBoth_def by (rule ranges_over_sort [OF assms(5,6)])
  ultimately show ?thesis
    using e [OF assms(1,2)] e [OF assms(3,4)] e [OF assms(5,6)] by (simp add: diff_string_def)
qed

theorem diff_line_deterministic_witness:
  "diff_string [(''aws_key'', 1), (''private_key'', 2)] [] [(''email'', 1, 3)] =
   diff_string [(''private_key'', 2), (''aws_key'', 1)] [] [(''email'', 1, 3)]"
  by (rule diff_line_deterministic [where ?m1.0 = "[''aws_key'' \<mapsto> 1, ''private_key'' \<mapsto> 2]"
        and ?m2.0 = Map.empty and ?m3.0 = "[''email'' \<mapsto> (1, 3)]"])
    (auto simp: ranges_over_def)

lemma length_show_nat: "0 < k \<Longrightarrow> n < 10 ^ k \<Longrightarrow> length (show_nat n) \<le> k"
proof (induction n arbitrary: k rule: show_nat.induct)
  case (1 n)
  show ?case
  proof (cases "n < 10")
    case True
    with 1(2) show ?thesis by (subst show_nat.simps) simp
  next
    case False
    then obtain j where k: "k = Suc j" "0 < j" using 1(2,3) by (cases k; cases "k = 1") auto
    then have "n div 10 < 10 ^ j" using 1(3) by (simp add: less_mult_imp_div_less mult.commute)
    from 1(1) [OF False k(2) this] False k show ?thesis by (subst show_nat.simps) simp
  qed
qed

text \<open>The hand-written decimal conversion agrees with the standard one on every count, and for a
  64 bit count its text has at most 19 characters, so the loop never leaves its buffer of 20.\<close>

theorem itoa_decimal:
  assumes "0 \<le> n" and "n < 2 ^ 63"
  shows "itoa n = show_int n \<and> length (itoa n) \<le> 19"
proof -
  have "show_nat 0 = ''0''" by code_simp
  then have eq: "itoa n = show_nat (nat n)"
    using assms(1) by (cases "n = 0") (simp_all add: itoa_def itoa_loop_show)
  moreover have "show_nat (nat n) = show_int n" using assms(1) by (simp add: show_int_def)
  moreover have "nat n < 10 ^ 19" using assms by simp
  then have "length (show_nat (nat n)) \<le> 19" by (intro length_show_nat) simp_all
  ultimately show ?thesis by simp
qed

theorem itoa_decimal_witness: "itoa 1234567890 = show_int 1234567890 \<and> length (itoa 1234567890) \<le> 19"
  by (rule itoa_decimal) simp_all

end
