(* ===== verification/Text_Sanitize.thy ===== *)
theory Text_Sanitize
  imports Go_Utf8
begin

text \<open>
  The repair of text that is not valid UTF-8 (\<^verbatim>\<open>pkg/preprocessing/encoding.go\<close>,
  \<^verbatim>\<open>SanitizeUTF8String\<close> and \<^verbatim>\<open>SanitizeUTF8Bytes\<close>), which the assembler applies to every page before
  it is stored.  A byte slice is a list of bytes like a string, so both functions are one.
\<close>

function sanitize_loop :: "string \<Rightarrow> string \<Rightarrow> string" where
  "sanitize_loop [] builder = builder"
| "sanitize_loop (c # cs) builder =
     (let (r, size) = decode_rune (c # cs)
      in if r = rune_error \<and> size = 1
         then sanitize_loop cs (builder @ encode_rune rune_error)
         else sanitize_loop (drop size (c # cs)) (builder @ encode_rune r))"
  by pat_completeness auto
termination
proof (relation "measure (\<lambda>(s, b). length s)", goal_cases)
  case (3 c cs b x r size)
  then have "size = snd (decode_rune (c # cs))" by (metis snd_conv)
  then have "0 < size" by simp
  then show ?case by simp
qed auto

declare sanitize_loop.simps [simp del]

definition SanitizeUTF8String :: "string \<Rightarrow> string" where
  "SanitizeUTF8String s = (if valid_utf8 s then s else sanitize_loop s [])"

section \<open>The runes of a string\<close>

lemma range_runes_map: "map snd (range_runes i s) = map snd (range_runes 0 s)"
proof (induction i s rule: range_runes.induct)
  case (1 i)
  then show ?case by simp
next
  case (2 i c cs)
  have "map snd (range_runes j s) = map snd (range_runes k s)" for j k s
  proof (induction s arbitrary: j k rule: length_induct)
    case (1 s)
    show ?case
    proof (cases s)
      case (Cons d ds)
      have "length (drop (snd (decode_rune (d # ds))) (d # ds)) < length (d # ds)"
        using decode_width_pos [of d ds] by simp
      with 1 Cons show ?thesis by (simp add: range_runes.simps)
    qed simp
  qed
  then show ?case by blast
qed

lemma runes_of_Nil [simp]: "runes_of [] = []"
  by (simp add: runes_of_def)

lemma runes_of_Cons:
  "runes_of (c # cs) = fst (decode_rune (c # cs)) # runes_of (drop (snd (decode_rune (c # cs))) (c # cs))"
  unfolding runes_of_def range_runes.simps list.map snd_conv add_0
  by (simp only: range_runes_map [of "snd (decode_rune (c # cs))"])

lemma encode_nonempty [simp]: "encode_rune r \<noteq> []"
  by (simp add: encode_rune_def Let_def)

lemma runes_of_encode: "valid_rune r \<Longrightarrow> runes_of (encode_rune r @ s) = r # runes_of s"
proof -
  assume v: "valid_rune r"
  have ne: "encode_rune r \<noteq> []" by (simp add: encode_rune_def Let_def)
  then obtain c cs where c: "encode_rune r @ s = c # cs" by (cases "encode_rune r") auto
  have "decode_rune (c # cs) = (r, length (encode_rune r))"
    using decode_encode_rune [OF v, of s] by (simp only: c)
  then have "runes_of (c # cs) = r # runes_of (drop (length (encode_rune r)) (c # cs))"
    by (simp only: runes_of_Cons fst_conv snd_conv)
  moreover have "drop (length (encode_rune r)) (c # cs) = s"
    by (simp only: c [symmetric]) simp
  ultimately show ?thesis by (simp only: c)
qed

lemma runes_of_string_of_runes: "list_all valid_rune rs \<Longrightarrow> runes_of (string_of_runes rs) = rs"
  by (induction rs) (simp_all add: string_of_runes_def runes_of_encode)

lemma valid_rune_error: "valid_rune rune_error"
  by (simp add: valid_rune_def rune_error_def)

lemma is_cont_bound: "is_cont c \<Longrightarrow> byte_of c - 128 < 64"
  by (auto simp: is_cont_def)

lemma second_lo_ge: "128 \<le> second_lo b"
  by (simp add: second_lo_def)

lemma rune1_valid: "b < 128 \<Longrightarrow> valid_rune b"
  by (simp add: valid_rune_def)

lemma rune2_valid: "194 \<le> b \<Longrightarrow> b < 224 \<Longrightarrow> c < 192 \<Longrightarrow> valid_rune ((b - 192) * 64 + (c - 128))"
  by (auto simp: valid_rune_def)

lemma rune3_valid:
  assumes "224 \<le> b" "b < 240" "second_lo b \<le> c" "c < second_hi b" "d < 192"
  shows "valid_rune ((b - 224) * 4096 + (c - 128) * 64 + (d - 128))"
proof -
  obtain i j where i: "b = 224 + i" and j: "c = 128 + j"
    using assms(1,3) second_lo_ge [of b] by (metis le_iff_add order_trans)
  define k where "k = d - 128"
  have "k < 64" "i < 16" using assms by (auto simp: k_def i)
  moreover have "j < 64" "i = 13 \<Longrightarrow> j < 32" using assms(4) by (auto simp: second_hi_def i j split: if_splits)
  moreover have "i \<le> 12 \<or> i = 13 \<or> 14 \<le> i" by linarith
  ultimately have "i * 4096 + j * 64 + k < 55296 \<or> 57344 \<le> i * 4096 + j * 64 + k \<and> i * 4096 + j * 64 + k < 1114112"
    by linarith
  then show ?thesis by (simp add: valid_rune_def i j k_def)
qed

lemma rune4_valid:
  assumes "240 \<le> b" "b < 245" "second_lo b \<le> c" "c < second_hi b" "d < 192" "e < 192"
  shows "valid_rune ((b - 240) * 262144 + (c - 128) * 4096 + (d - 128) * 64 + (e - 128))"
proof -
  obtain i j where i: "b = 240 + i" and j: "c = 128 + j"
    using assms(1,3) second_lo_ge [of b] by (metis le_iff_add order_trans)
  define k l where "k = d - 128" and "l = e - 128"
  have "k < 64" "l < 64" "i < 5" using assms by (auto simp: k_def l_def i)
  moreover have "j < 64" "i = 4 \<Longrightarrow> j < 16" using assms(4) by (auto simp: second_hi_def i j split: if_splits)
  moreover have "i = 0 \<Longrightarrow> 16 \<le> j" using assms(3) by (auto simp: second_lo_def i j split: if_splits)
  moreover have "i = 0 \<or> 1 \<le> i \<and> i \<le> 3 \<or> i = 4" using \<open>i < 5\<close> by linarith
  ultimately have "57344 \<le> i * 262144 + j * 4096 + k * 64 + l \<and> i * 262144 + j * 4096 + k * 64 + l < 1114112"
    by linarith
  then show ?thesis by (simp add: valid_rune_def i j k_def l_def)
qed

lemma valid_if: "(P \<Longrightarrow> valid_rune v) \<Longrightarrow> valid_rune (fst (if P then (v, n) else (rune_error, m)))"
  by (simp add: valid_rune_error)

lemma decode_valid: "valid_rune (fst (decode_rune s))"
proof (cases s)
  case (Cons c cs)
  consider "byte_of c < 128" | "128 \<le> byte_of c" "byte_of c < 194" | "194 \<le> byte_of c" "byte_of c < 224"
    | "224 \<le> byte_of c" "byte_of c < 240" | "240 \<le> byte_of c" "byte_of c < 245" | "245 \<le> byte_of c"
    by linarith
  then have "valid_rune (fst (decode_rune (c # cs)))"
  proof cases
    case 1
    then show ?thesis by (simp add: decode_rune.simps valid_rune_def)
  next
    case 3
    show ?thesis
    proof (cases cs)
      case (Cons x xs)
      have "decode_rune (c # cs) =
          (if is_cont x then ((byte_of c - 192) * 64 + (byte_of x - 128), 2) else (rune_error, 1))"
        using 3 by (simp add: decode_rune.simps Cons)
      then show ?thesis using 3
        by (simp only:) (rule valid_if, rule rune2_valid, simp_all add: is_cont_def)
    qed (use 3 in \<open>simp add: decode_rune.simps valid_rune_error\<close>)
  next
    case 4
    show ?thesis
    proof (cases "\<exists>x y zs. cs = x # y # zs")
      case True
      then obtain x y zs where cs: "cs = x # y # zs" by blast
      have "decode_rune (c # cs) =
          (if second_ok c x \<and> is_cont y
           then ((byte_of c - 224) * 4096 + (byte_of x - 128) * 64 + (byte_of y - 128), 3)
           else (rune_error, 1))"
        using 4 by (simp add: decode_rune.simps cs)
      then show ?thesis using 4
        by (simp only:) (rule valid_if, rule rune3_valid, simp_all add: is_cont_def second_ok_def)
    qed (use 4 in \<open>auto simp: decode_rune.simps valid_rune_error split: list.splits\<close>)
  next
    case 5
    show ?thesis
    proof (cases "\<exists>x y z us. cs = x # y # z # us")
      case True
      then obtain x y z us where cs: "cs = x # y # z # us" by blast
      have "decode_rune (c # cs) =
          (if second_ok c x \<and> is_cont y \<and> is_cont z
           then ((byte_of c - 240) * 262144 + (byte_of x - 128) * 4096 + (byte_of y - 128) * 64 +
                 (byte_of z - 128), 4)
           else (rune_error, 1))"
        using 5 by (simp add: decode_rune.simps cs)
      then show ?thesis using 5
        by (simp only:) (rule valid_if, rule rune4_valid, simp_all add: is_cont_def second_ok_def)
    qed (use 5 in \<open>auto simp: decode_rune.simps valid_rune_error split: list.splits\<close>)
  qed (simp_all add: decode_rune.simps valid_rune_error)
  then show ?thesis by (simp only: Cons)
qed (simp add: decode_rune.simps valid_rune_error)

lemma runes_of_valid: "list_all valid_rune (runes_of s)"
proof (induction s rule: length_induct)
  case (1 s)
  then show ?case
    using decode_width_pos by (cases s) (simp_all add: runes_of_Cons decode_valid)
qed

lemma sanitize_loop_runes: "sanitize_loop s b = b @ string_of_runes (runes_of s)"
proof (induction s b rule: sanitize_loop.induct)
  case (1 b)
  then show ?case by (simp add: sanitize_loop.simps string_of_runes_def)
next
  case (2 c cs b)
  obtain r n where d: "decode_rune (c # cs) = (r, n)" by (cases "decode_rune (c # cs)")
  then have "runes_of (c # cs) = r # runes_of (drop n (c # cs))" by (simp add: runes_of_Cons)
  with 2 d show ?case
    by (cases "r = rune_error \<and> n = 1") (simp_all add: sanitize_loop.simps string_of_runes_def)
qed

section \<open>Validity\<close>

text \<open>Validity by recursion over the decoded runes.\<close>

lemma valid_utf8_Cons:
  "valid_utf8 (c # cs) \<longleftrightarrow> decode_rune (c # cs) \<noteq> (rune_error, 1) \<and>
     valid_utf8 (drop (snd (decode_rune (c # cs))) (c # cs))"
proof -
  have shift: "list_all (\<lambda>(i, r). P r (drop i (u @ s))) (range_runes (length u) s) \<longleftrightarrow>
      list_all (\<lambda>(i, r). P r (drop i s)) (range_runes 0 s)" for P u s
  proof -
    have "range_runes (k + j) s = map (\<lambda>(i, r). (k + i, r)) (range_runes j s)" for k j s
    proof (induction j s rule: range_runes.induct)
      case (2 j c cs)
      then show ?case by (simp add: range_runes.simps add.assoc)
    qed simp
    from this [of "length u" 0 s] have "range_runes (length u) s = map (\<lambda>(i, r). (length u + i, r)) (range_runes 0 s)"
      by simp
    then show ?thesis by (simp add: list_all_iff split_beta)
  qed
  obtain r n where d: "decode_rune (c # cs) = (r, n)" by (cases "decode_rune (c # cs)")
  have n: "n \<le> length (c # cs)" using decode_width_bounds [of "c # cs"] d by simp
  have s: "c # cs = take n (c # cs) @ drop n (c # cs)" by simp
  have "list_all (\<lambda>(i, r). \<not> (r = rune_error \<and> snd (decode_rune (drop i (c # cs))) = 1))
      (range_runes n (drop n (c # cs))) \<longleftrightarrow> valid_utf8 (drop n (c # cs))"
    using shift [of "\<lambda>r t. \<not> (r = rune_error \<and> snd (decode_rune t) = 1)" "take n (c # cs)" "drop n (c # cs)"] n
    by (simp add: valid_utf8_def)
  then show ?thesis by (simp add: valid_utf8_def range_runes.simps [of 0] d)
qed

lemma valid_utf8_Nil [simp]: "valid_utf8 []"
  by (simp add: valid_utf8_def)

lemma encode_width_error: "valid_rune r \<Longrightarrow> (r, length (encode_rune r)) \<noteq> (rune_error, 1)"
  by (auto simp: encode_rune_def rune_error_def Let_def valid_rune_def)

lemma valid_string_of_runes: "list_all valid_rune rs \<Longrightarrow> valid_utf8 (string_of_runes rs)"
proof (induction rs)
  case (Cons r rs)
  then have v: "valid_rune r" by simp
  obtain c cs where c: "string_of_runes (r # rs) = c # cs"
    by (cases "string_of_runes (r # rs)") (auto simp: string_of_runes_def)
  have d: "decode_rune (c # cs) = (r, length (encode_rune r))"
    using decode_encode_rune [OF v, of "string_of_runes rs"] c by (simp add: string_of_runes_def)
  have "drop (length (encode_rune r)) (c # cs) = string_of_runes rs"
    by (simp only: c [symmetric]) (simp add: string_of_runes_def)
  moreover have "valid_utf8 (string_of_runes rs)" using Cons by simp
  ultimately show ?case unfolding c valid_utf8_Cons d snd_conv using encode_width_error [OF v] by simp
qed (simp add: string_of_runes_def)

lemma SanitizeUTF8String_valid: "valid_utf8 (SanitizeUTF8String s)"
  by (simp add: SanitizeUTF8String_def sanitize_loop_runes valid_string_of_runes runes_of_valid)

section \<open>Correctness\<close>

text \<open>C30: The repaired text is valid UTF-8, valid text is not changed, repairing twice changes nothing, and
  the runes a Go loop reads from the text, with the replacement rune for every invalid byte, are
  those it reads from the repaired text.\<close>

theorem sanitize_correct:
  "valid_utf8 (SanitizeUTF8String s) \<and> (if valid_utf8 s then SanitizeUTF8String s = s else True) \<and>
   SanitizeUTF8String (SanitizeUTF8String s) = SanitizeUTF8String s \<and>
   runes_of (SanitizeUTF8String s) = runes_of s"
proof -
  have "runes_of (SanitizeUTF8String s) = runes_of s"
    by (simp add: SanitizeUTF8String_def sanitize_loop_runes runes_of_string_of_runes runes_of_valid)
  then show ?thesis using SanitizeUTF8String_valid [of s]
    by (simp add: SanitizeUTF8String_def)
qed

end
