(* ===== verification/Job_Models.thy ===== *)
theory Job_Models
  imports Dlp_Types
begin

text \<open>
  The records of the processing pipeline and their methods (\<^verbatim>\<open>internal/database/models\<close>): the job of
  a file (\<^verbatim>\<open>processing_job.go\<close>), the intermediate result of a page with its life cycle and retries
  (\<^verbatim>\<open>page_result.go\<close>), and the session of a set of files (\<^verbatim>\<open>processing_session.go\<close>).  A pointer field is
  an option, and a method that reads the clock takes the time as an argument.  Relationship fields
  and the JSON hooks are left out.
\<close>

section \<open>Jobs\<close>

definition JobStatusSplitting :: string where [simp]: "JobStatusSplitting = ''splitting''"
definition JobStatusProcessing :: string where [simp]: "JobStatusProcessing = ''processing''"
definition JobStatusAssembling :: string where [simp]: "JobStatusAssembling = ''assembling''"
definition JobStatusCompleted :: string where [simp]: "JobStatusCompleted = ''completed''"
definition JobStatusPartial :: string where [simp]: "JobStatusPartial = ''processed_partial''"
definition JobStatusFailed :: string where [simp]: "JobStatusFailed = ''failed''"
definition JobStatusTimedOut :: string where [simp]: "JobStatusTimedOut = ''timed_out''"

definition PipelinePagePending :: string where [simp]: "PipelinePagePending = ''pending''"
definition PipelinePageProcessing :: string where [simp]: "PipelinePageProcessing = ''processing''"
definition PipelinePageCompleted :: string where [simp]: "PipelinePageCompleted = ''completed''"
definition PipelinePageFailed :: string where [simp]: "PipelinePageFailed = ''failed''"

text \<open>A value of a JSON object, as far as type assertions tell them apart.\<close>

datatype json_value = JString string | JBool bool | JOther

type_synonym JobMetadata = "string \<rightharpoonup> json_value"

record ProcessingJob =
  Job_ID :: uuid
  Job_TenantID :: uuid
  Job_FileID :: uuid
  Job_TotalPages :: int
  Job_CompletedPages :: int
  Job_FailedPages :: int
  Job_Status :: string
  Job_CreatedAt :: time
  Job_UpdatedAt :: time
  Job_CompletedAt :: "time option"
  Job_ErrorMessage :: "string option"
  Job_Metadata :: JobMetadata

definition JobIsComplete :: "ProcessingJob \<Rightarrow> bool" where
  "JobIsComplete j \<longleftrightarrow> Job_CompletedPages j + Job_FailedPages j \<ge> Job_TotalPages j"

definition FailureRate :: "ProcessingJob \<Rightarrow> float64" where
  "FailureRate j =
     (if Job_TotalPages j = 0 then 0
      else f64_div (round64 (of_int (Job_FailedPages j))) (round64 (of_int (Job_TotalPages j))))"

record PipelinePageResult =
  PPR_JobID :: uuid
  PPR_TenantID :: uuid
  PPR_FileID :: uuid
  PPR_PageNumber :: int
  PPR_Status :: string
  PPR_ContentS3Key :: string
  PPR_ExtractionMethod :: string
  PPR_OCRConfidence :: "float64 option"
  PPR_ProcessingDurationMs :: "int option"
  PPR_ErrorType :: string
  PPR_ErrorMessage :: "string option"
  PPR_UpdatedAt :: time

section \<open>Pages\<close>

definition PageStatusPending :: string where [simp]: "PageStatusPending = ''pending''"
definition PageStatusClassifying :: string where [simp]: "PageStatusClassifying = ''classifying''"
definition PageStatusExtracting :: string where [simp]: "PageStatusExtracting = ''extracting''"
definition PageStatusCompleted :: string where [simp]: "PageStatusCompleted = ''completed''"
definition PageStatusFailed :: string where [simp]: "PageStatusFailed = ''failed''"
definition PageStatusSkipped :: string where [simp]: "PageStatusSkipped = ''skipped''"

definition PageClassTextOnly :: string where [simp]: "PageClassTextOnly = ''text_only''"
definition PageClassImageOnly :: string where [simp]: "PageClassImageOnly = ''image_only''"
definition PageClassHybrid :: string where [simp]: "PageClassHybrid = ''hybrid''"
definition PageClassScanned :: string where [simp]: "PageClassScanned = ''scanned''"
definition PageClassEmpty :: string where [simp]: "PageClassEmpty = ''empty''"
definition PageClassUnknown :: string where [simp]: "PageClassUnknown = ''unknown''"

definition ExtractionMethodSkipped :: string where [simp]: "ExtractionMethodSkipped = ''skipped''"
definition ExtractionMethodPending :: string where [simp]: "ExtractionMethodPending = ''pending''"

record PageResult =
  Page_TenantID :: uuid
  Page_FileID :: uuid
  Page_ProcessingSessionID :: "uuid option"
  Page_PageNumber :: int
  Page_TotalPages :: int
  Page_Classification :: string
  Page_ClassificationConfidence :: "float64 option"
  Page_HasEmbeddedFonts :: bool
  Page_HasImages :: bool
  Page_ImageCount :: int
  Page_LargeImageCount :: int
  Page_TextCharCount :: int
  Page_Content :: string
  Page_ContentHash :: string
  Page_ExtractionMethod :: string
  Page_OCRConfidence :: "float64 option"
  Page_OCRLanguage :: string
  Page_OCRDPI :: int
  Page_ProcessingStatus :: string
  Page_ProcessingError :: "string option"
  Page_ProcessingStartedAt :: "time option"
  Page_ProcessingCompletedAt :: "time option"
  Page_ProcessingDurationMs :: "int option"
  Page_WorkerID :: string
  Page_RetryCount :: int
  Page_MaxRetries :: int
  Page_PeakMemoryBytes :: int
  Page_ImageSizeBytes :: int
  Page_CreatedAt :: time
  Page_UpdatedAt :: time

definition PageIsCompleted :: "PageResult \<Rightarrow> bool" where
  "PageIsCompleted p \<longleftrightarrow> Page_ProcessingStatus p = PageStatusCompleted"

definition PageIsFailed :: "PageResult \<Rightarrow> bool" where
  "PageIsFailed p \<longleftrightarrow> Page_ProcessingStatus p = PageStatusFailed"

definition PageIsSkipped :: "PageResult \<Rightarrow> bool" where
  "PageIsSkipped p \<longleftrightarrow> Page_ProcessingStatus p = PageStatusSkipped"

definition PageIsPending :: "PageResult \<Rightarrow> bool" where
  "PageIsPending p \<longleftrightarrow> Page_ProcessingStatus p = PageStatusPending"

definition PageIsProcessing :: "PageResult \<Rightarrow> bool" where
  "PageIsProcessing p \<longleftrightarrow>
     Page_ProcessingStatus p = PageStatusClassifying \<or> Page_ProcessingStatus p = PageStatusExtracting"

definition PageCanRetry :: "PageResult \<Rightarrow> bool" where
  "PageCanRetry p \<longleftrightarrow> Page_ProcessingStatus p = PageStatusFailed \<and> Page_RetryCount p < Page_MaxRetries p"

definition NeedsOCR :: "PageResult \<Rightarrow> bool" where
  "NeedsOCR p \<longleftrightarrow>
     (if Page_Classification p = PageClassScanned \<or> Page_Classification p = PageClassImageOnly then True
      else if Page_Classification p = PageClassHybrid then True else False)"

definition MarkClassifying :: "time \<Rightarrow> string \<Rightarrow> PageResult \<Rightarrow> PageResult" where
  "MarkClassifying now workerID p =
     p\<lparr>Page_ProcessingStatus := PageStatusClassifying, Page_ProcessingStartedAt := Some now,
       Page_WorkerID := workerID\<rparr>"

definition MarkExtracting :: "time \<Rightarrow> string \<Rightarrow> PageResult \<Rightarrow> PageResult" where
  "MarkExtracting now workerID p =
     p\<lparr>Page_ProcessingStatus := PageStatusExtracting,
       Page_ProcessingStartedAt :=
         (case Page_ProcessingStartedAt p of None \<Rightarrow> Some now | Some t \<Rightarrow> Some t),
       Page_WorkerID := workerID\<rparr>"

definition SetClassification ::
  "string \<Rightarrow> float64 \<Rightarrow> bool \<Rightarrow> bool \<Rightarrow> int \<Rightarrow> int \<Rightarrow> int \<Rightarrow> PageResult \<Rightarrow> PageResult" where
  "SetClassification classification confidence hasFonts hasImages imageCount largeImageCount textCharCount p =
     p\<lparr>Page_Classification := classification, Page_ClassificationConfidence := Some confidence,
       Page_HasEmbeddedFonts := hasFonts, Page_HasImages := hasImages, Page_ImageCount := imageCount,
       Page_LargeImageCount := largeImageCount, Page_TextCharCount := textCharCount\<rparr>"

text \<open>\<open>now.Sub(started).Milliseconds()\<close> truncates towards zero.\<close>

definition millis :: "duration \<Rightarrow> int" where
  "millis d = (if 0 \<le> d then d div 1000000 else - (- d div 1000000))"

definition duration_ms :: "time \<Rightarrow> PageResult \<Rightarrow> int option" where
  "duration_ms now p =
     (case Page_ProcessingStartedAt p of
        None \<Rightarrow> Page_ProcessingDurationMs p
      | Some started \<Rightarrow> Some (millis (now - started)))"

definition MarkCompleted :: "time \<Rightarrow> string \<Rightarrow> string \<Rightarrow> float64 \<Rightarrow> PageResult \<Rightarrow> PageResult" where
  "MarkCompleted now content method confidence p =
     p\<lparr>Page_ProcessingStatus := PageStatusCompleted, Page_Content := content,
       Page_ExtractionMethod := method, Page_OCRConfidence := Some confidence,
       Page_ProcessingCompletedAt := Some now, Page_ProcessingDurationMs := duration_ms now p\<rparr>"

definition MarkFailed :: "time \<Rightarrow> string \<Rightarrow> PageResult \<Rightarrow> PageResult" where
  "MarkFailed now err p =
     p\<lparr>Page_ProcessingStatus := PageStatusFailed, Page_ProcessingError := Some err,
       Page_ProcessingCompletedAt := Some now, Page_RetryCount := Page_RetryCount p + 1\<rparr>"

definition MarkSkipped :: "time \<Rightarrow> string \<Rightarrow> PageResult \<Rightarrow> PageResult" where
  "MarkSkipped now reason p =
     p\<lparr>Page_ProcessingStatus := PageStatusSkipped, Page_ExtractionMethod := ExtractionMethodSkipped,
       Page_ProcessingError := Some reason, Page_ProcessingCompletedAt := Some now,
       Page_ProcessingDurationMs := duration_ms now p\<rparr>"

definition PrepareForRetry :: "PageResult \<Rightarrow> PageResult" where
  "PrepareForRetry p =
     p\<lparr>Page_ProcessingStatus := PageStatusPending, Page_ProcessingError := None,
       Page_ProcessingStartedAt := None, Page_ProcessingCompletedAt := None,
       Page_ProcessingDurationMs := None, Page_WorkerID := []\<rparr>"

definition GetContentLength :: "PageResult \<Rightarrow> int" where
  "GetContentLength p = int (length (Page_Content p))"

definition HasContent :: "PageResult \<Rightarrow> bool" where
  "HasContent p \<longleftrightarrow> length (Page_Content p) > 0"

definition SetMetrics :: "int \<Rightarrow> int \<Rightarrow> PageResult \<Rightarrow> PageResult" where
  "SetMetrics peakMemory imageSize p =
     p\<lparr>Page_PeakMemoryBytes := peakMemory, Page_ImageSizeBytes := imageSize\<rparr>"

definition SetOCRParams :: "string \<Rightarrow> int \<Rightarrow> PageResult \<Rightarrow> PageResult" where
  "SetOCRParams language dpi p = p\<lparr>Page_OCRLanguage := language, Page_OCRDPI := dpi\<rparr>"

definition NewPageResult :: "time \<Rightarrow> uuid \<Rightarrow> uuid \<Rightarrow> int \<Rightarrow> int \<Rightarrow> PageResult" where
  "NewPageResult now tenantID fileID pageNumber totalPages =
     \<lparr>Page_TenantID = tenantID, Page_FileID = fileID, Page_ProcessingSessionID = None,
      Page_PageNumber = pageNumber, Page_TotalPages = totalPages,
      Page_Classification = PageClassUnknown, Page_ClassificationConfidence = None,
      Page_HasEmbeddedFonts = False, Page_HasImages = False, Page_ImageCount = 0,
      Page_LargeImageCount = 0, Page_TextCharCount = 0, Page_Content = [], Page_ContentHash = [],
      Page_ExtractionMethod = ExtractionMethodPending, Page_OCRConfidence = None,
      Page_OCRLanguage = [], Page_OCRDPI = 0, Page_ProcessingStatus = PageStatusPending,
      Page_ProcessingError = None, Page_ProcessingStartedAt = None,
      Page_ProcessingCompletedAt = None, Page_ProcessingDurationMs = None, Page_WorkerID = [],
      Page_RetryCount = 0, Page_MaxRetries = 3, Page_PeakMemoryBytes = 0, Page_ImageSizeBytes = 0,
      Page_CreatedAt = now, Page_UpdatedAt = now\<rparr>"

definition NewPageResultWithSession ::
  "time \<Rightarrow> uuid \<Rightarrow> uuid \<Rightarrow> uuid option \<Rightarrow> int \<Rightarrow> int \<Rightarrow> PageResult" where
  "NewPageResultWithSession now tenantID fileID sessionID pageNumber totalPages =
     (NewPageResult now tenantID fileID pageNumber totalPages)\<lparr>Page_ProcessingSessionID := sessionID\<rparr>"

section \<open>Sessions\<close>

record ProcessingSession =
  Sess_Status :: string
  Sess_Progress :: float64
  Sess_TotalFiles :: int
  Sess_ProcessedFiles :: int
  Sess_FailedFiles :: int
  Sess_StartedAt :: "time option"
  Sess_CompletedAt :: "time option"
  Sess_DeletedAt :: "time option"
  Sess_LastError :: "string option"
  Sess_ErrorCount :: int
  Sess_RetryCount :: int
  Sess_MaxRetries :: int
  Sess_ProcessedBytes :: int
  Sess_Priority :: string
  Sess_BatchSize :: int

definition SessIsActive :: "ProcessingSession \<Rightarrow> bool" where
  "SessIsActive p \<longleftrightarrow>
     Sess_Status p \<noteq> ''completed'' \<and> Sess_Status p \<noteq> ''failed'' \<and> Sess_Status p \<noteq> ''cancelled'' \<and>
     Sess_DeletedAt p = None"

definition SessIsCompleted :: "ProcessingSession \<Rightarrow> bool" where
  "SessIsCompleted p \<longleftrightarrow> Sess_Status p = ''completed''"

definition SessIsFailed :: "ProcessingSession \<Rightarrow> bool" where
  "SessIsFailed p \<longleftrightarrow> Sess_Status p = ''failed''"

definition GetProgress :: "ProcessingSession \<Rightarrow> float64" where
  "GetProgress p =
     (if Sess_TotalFiles p = 0 then 0
      else f64_mul (f64_div (round64 (of_int (Sess_ProcessedFiles p))) (round64 (of_int (Sess_TotalFiles p)))) 100)"

definition GetPriority :: "ProcessingSession \<Rightarrow> string" where
  "GetPriority p = (if Sess_Priority p = [] then ''normal'' else Sess_Priority p)"

definition GetBatchSize :: "ProcessingSession \<Rightarrow> int" where
  "GetBatchSize p = (if Sess_BatchSize p \<le> 0 then 10 else Sess_BatchSize p)"

definition SessCanRetry :: "ProcessingSession \<Rightarrow> bool" where
  "SessCanRetry p \<longleftrightarrow> Sess_RetryCount p < Sess_MaxRetries p \<and> Sess_Status p = ''failed''"

definition UpdateProgress :: "time \<Rightarrow> int \<Rightarrow> int \<Rightarrow> int \<Rightarrow> ProcessingSession \<Rightarrow> ProcessingSession" where
  "UpdateProgress now processedFiles failedFiles processedBytes p0 =
     (let p = p0\<lparr>Sess_ProcessedFiles := processedFiles, Sess_FailedFiles := failedFiles,
                 Sess_ProcessedBytes := processedBytes\<rparr>;
          p = p\<lparr>Sess_Progress := GetProgress p\<rparr>
      in if Sess_ProcessedFiles p + Sess_FailedFiles p \<ge> Sess_TotalFiles p
         then (if Sess_FailedFiles p = 0
               then p\<lparr>Sess_Status := ''completed'', Sess_CompletedAt := Some now\<rparr>
               else if Sess_ProcessedFiles p = 0
               then p\<lparr>Sess_Status := ''failed'', Sess_CompletedAt := Some now\<rparr>
               else p\<lparr>Sess_Status := ''completed_with_errors'', Sess_CompletedAt := Some now\<rparr>)
         else p)"

definition SessStart :: "time \<Rightarrow> ProcessingSession \<Rightarrow> ProcessingSession" where
  "SessStart now p = p\<lparr>Sess_Status := ''running'', Sess_StartedAt := Some now\<rparr>"

definition SessFail :: "time \<Rightarrow> string \<Rightarrow> ProcessingSession \<Rightarrow> ProcessingSession" where
  "SessFail now errorMsg p =
     p\<lparr>Sess_Status := ''failed'', Sess_LastError := Some errorMsg,
       Sess_ErrorCount := Sess_ErrorCount p + 1, Sess_CompletedAt := Some now\<rparr>"

definition SessCancel :: "time \<Rightarrow> ProcessingSession \<Rightarrow> ProcessingSession" where
  "SessCancel now p = p\<lparr>Sess_Status := ''cancelled'', Sess_CompletedAt := Some now\<rparr>"

section \<open>Lemmas\<close>

lemma round64_of_int: "0 \<le> n \<Longrightarrow> n \<le> 2 ^ 53 \<Longrightarrow> round64 (of_int n) = of_int n"
proof -
  assume "0 \<le> n" "n \<le> 2 ^ 53"
  then obtain k where "n = int k" "k \<le> 2 ^ 53" by (metis nonneg_int_cases of_nat_le_iff of_nat_numeral of_nat_power)
  then show ?thesis using round64_of_nat [of k] by simp
qed

section \<open>Correctness\<close>

text \<open>The threshold of failed pages is exact.  For jobs of up to a million pages, the rounded failure
  rate reaches the rounded constant 0.2 exactly when at least a fifth of the pages failed.\<close>

theorem failure_rate_threshold:
  assumes "0 < Job_TotalPages j" and "Job_TotalPages j \<le> 1000000"
    and "0 \<le> Job_FailedPages j" and "Job_FailedPages j \<le> Job_TotalPages j"
  shows "FailureRate j \<ge> round64 (2/10) \<longleftrightarrow> 5 * Job_FailedPages j \<ge> Job_TotalPages j"
proof -
  let ?f = "Job_FailedPages j" and ?t = "Job_TotalPages j"
  have r: "FailureRate j = round64 (of_int ?f / of_int ?t)"
    using assms by (simp add: FailureRate_def f64_div_def round64_of_int)
  have t: "0 < (of_int ?t :: rat)" using assms(1) by simp
  show ?thesis
  proof
    assume "5 * ?f \<ge> ?t"
    then have "(of_int ?t :: rat) \<le> of_int (5 * ?f)" by (simp only: of_int_le_iff)
    then have "2/10 \<le> (of_int ?f / of_int ?t :: rat)" using t by (simp add: le_divide_eq)
    then show "FailureRate j \<ge> round64 (2/10)" unfolding r by (intro round64_mono) simp_all
  next
    assume ge: "FailureRate j \<ge> round64 (2/10)"
    show "5 * ?f \<ge> ?t"
    proof (rule ccontr)
      assume "\<not> 5 * ?f \<ge> ?t"
      then have "5 * ?f + 1 \<le> ?t" by linarith
      then have "(of_int (5 * ?f + 1) :: rat) \<le> of_int ?t" by (simp only: of_int_le_iff)
      moreover have "(of_int ?t :: rat) \<le> of_int 1000000" using assms(2) by (simp only: of_int_le_iff)
      ultimately have "of_int ?f / of_int ?t \<le> (999999/5000000 :: rat)"
        using t by (simp add: divide_le_eq)
      then have "round64 (of_int ?f / of_int ?t) \<le> round64 (999999/5000000)"
        by (rule round64_mono [rotated]) (use assms(3) t in simp)
      moreover have "round64 (999999/5000000) < round64 (2/10)" by code_simp
      ultimately show False using ge unfolding r by simp
    qed
  qed
qed

definition sample_job :: "int \<Rightarrow> int \<Rightarrow> int \<Rightarrow> ProcessingJob" where
  "sample_job t c f =
     \<lparr>Job_ID = ''j'', Job_TenantID = ''t'', Job_FileID = ''f'', Job_TotalPages = t, Job_CompletedPages = c,
      Job_FailedPages = f, Job_Status = JobStatusProcessing, Job_CreatedAt = 0, Job_UpdatedAt = 0,
      Job_CompletedAt = None, Job_ErrorMessage = None, Job_Metadata = Map.empty\<rparr>"

theorem failure_rate_threshold_witness: "FailureRate (sample_job 10 8 2) \<ge> round64 (2/10)"
  using failure_rate_threshold [of "sample_job 10 8 2"] by (simp add: sample_job_def)

text \<open>A failed attempt: the page is marked as failed and then prepared for a retry.\<close>

definition failed_attempt :: "PageResult \<Rightarrow> time \<times> string \<Rightarrow> PageResult" where
  "failed_attempt p e = PrepareForRetry (MarkFailed (fst e) (snd e) p)"

lemma failed_attempt_simps [simp]:
  "Page_RetryCount (failed_attempt p e) = Page_RetryCount p + 1"
  "Page_MaxRetries (failed_attempt p e) = Page_MaxRetries p"
  "Page_ProcessingStatus (failed_attempt p e) = PageStatusPending"
  "Page_ProcessingError (failed_attempt p e) = None"
  "Page_ProcessingStartedAt (failed_attempt p e) = None"
  by (simp_all add: failed_attempt_def PrepareForRetry_def MarkFailed_def)

lemma failed_attempts_count:
  "Page_RetryCount (foldl failed_attempt p es) = Page_RetryCount p + int (length es)"
  "Page_MaxRetries (foldl failed_attempt p es) = Page_MaxRetries p"
  by (induction es arbitrary: p) simp_all

lemma failed_attempts_pending:
  "PageIsPending p \<Longrightarrow> Page_ProcessingStartedAt p = None \<Longrightarrow>
   PageIsPending (foldl failed_attempt p es) \<and> Page_ProcessingStartedAt (foldl failed_attempt p es) = None"
  by (induction es arbitrary: p) (simp_all add: PageIsPending_def)

text \<open>Retries are bounded.  After any number of failed attempts each prepared for a retry, a new page
  is pending again with every failure counted and no start time left; if it then fails again, it
  may be retried exactly when this is its first or second failure, so a page is tried at most three
  times.\<close>

theorem page_retries_bounded:
  "PageIsPending (foldl failed_attempt (NewPageResult t tenant file n m) es) \<and>
   Page_RetryCount (foldl failed_attempt (NewPageResult t tenant file n m) es) = int (length es) \<and>
   Page_ProcessingStartedAt (foldl failed_attempt (NewPageResult t tenant file n m) es) = None \<and>
   (PageCanRetry (MarkFailed now err (foldl failed_attempt (NewPageResult t tenant file n m) es)) \<longleftrightarrow>
     length es < 2)"
proof -
  let ?p = "NewPageResult t tenant file n m"
  have new: "PageIsPending ?p" "Page_ProcessingStartedAt ?p = None" "Page_RetryCount ?p = 0"
    "Page_MaxRetries ?p = 3"
    by (simp_all add: NewPageResult_def PageIsPending_def)
  have "PageCanRetry (MarkFailed now err q) \<longleftrightarrow> Page_RetryCount q + 1 < Page_MaxRetries q" for q
    by (simp add: PageCanRetry_def MarkFailed_def)
  then show ?thesis
    using failed_attempts_pending [OF new(1,2), of es] failed_attempts_count [of ?p es] new(3,4)
    by (simp add: less_diff_eq)
qed

lemma round64_100: "round64 100 = 100"
  using round64_of_nat [of 100] by simp

lemma GetProgress_bounds:
  assumes "0 \<le> Sess_ProcessedFiles p" and "Sess_ProcessedFiles p \<le> Sess_TotalFiles p"
    and "Sess_TotalFiles p \<le> 2 ^ 53"
  shows "0 \<le> GetProgress p \<and> GetProgress p \<le> 100 \<and>
    (0 < Sess_TotalFiles p \<and> Sess_ProcessedFiles p = Sess_TotalFiles p \<longrightarrow> GetProgress p = 100)"
proof (cases "Sess_TotalFiles p = 0")
  case False
  let ?a = "Sess_ProcessedFiles p" and ?t = "Sess_TotalFiles p"
  let ?q = "of_int ?a / of_int ?t :: rat"
  have t: "0 < (of_int ?t :: rat)" using False assms by simp
  have le: "(of_int ?a :: rat) \<le> of_int ?t" using assms(2) by (simp only: of_int_le_iff)
  have q: "0 \<le> ?q" "?q \<le> 1" using t le assms(1) by (simp_all add: divide_le_eq)
  have eq: "GetProgress p = round64 (round64 ?q * 100)"
    using False assms by (simp add: GetProgress_def f64_mul_def f64_div_def round64_of_int)
  have u: "0 \<le> round64 ?q" "round64 ?q \<le> 1" using round64_in_unit [OF q] by auto
  have "round64 (round64 ?q * 100) \<le> round64 100" by (rule round64_mono) (use u in simp_all)
  then show ?thesis
    using u t by (simp add: eq round64_100 round64_nonneg)
qed (simp add: GetProgress_def)

definition sample_session :: "int \<Rightarrow> ProcessingSession" where
  "sample_session n =
     \<lparr>Sess_Status = ''running'', Sess_Progress = 0, Sess_TotalFiles = n, Sess_ProcessedFiles = 0,
      Sess_FailedFiles = 0, Sess_StartedAt = Some 0, Sess_CompletedAt = None, Sess_DeletedAt = None,
      Sess_LastError = None, Sess_ErrorCount = 0, Sess_RetryCount = 0, Sess_MaxRetries = 3,
      Sess_ProcessedBytes = 0, Sess_Priority = [], Sess_BatchSize = 0\<rparr>"

text \<open>The progress of a session.  It is between 0 and 100 percent and is 100 when all files are
  processed.  When all files are accounted for, the session is completed if none failed and failed
  if none was processed; but with some of each it gets a status that counts neither as completed
  nor as failed, so the session stays active for ever and cannot be retried.\<close>

theorem session_progress:
  assumes "0 \<le> a" and "0 \<le> f" and "a + f = Sess_TotalFiles p" and "Sess_TotalFiles p \<le> 2 ^ 53"
    and "Sess_DeletedAt p = None" and "q = UpdateProgress now a f bytes p"
  shows "0 \<le> Sess_Progress q \<and> Sess_Progress q \<le> 100 \<and>
    (f = 0 \<longrightarrow> SessIsCompleted q \<and> (0 < a \<longrightarrow> Sess_Progress q = 100)) \<and>
    (0 < f \<and> a = 0 \<longrightarrow> SessIsFailed q) \<and>
    (0 < f \<and> 0 < a \<longrightarrow>
      SessIsActive q \<and> \<not> SessIsCompleted q \<and> \<not> SessIsFailed q \<and> \<not> SessCanRetry q)"
proof -
  let ?p = "p\<lparr>Sess_ProcessedFiles := a, Sess_FailedFiles := f, Sess_ProcessedBytes := bytes\<rparr>"
  have "Sess_Progress q = GetProgress ?p"
    by (simp add: assms(6) UpdateProgress_def Let_def)
  moreover have "0 \<le> GetProgress ?p \<and> GetProgress ?p \<le> 100 \<and>
      (0 < Sess_TotalFiles ?p \<and> Sess_ProcessedFiles ?p = Sess_TotalFiles ?p \<longrightarrow> GetProgress ?p = 100)"
    by (rule GetProgress_bounds) (use assms in simp_all)
  moreover have "f = 0 \<Longrightarrow> SessIsCompleted q"
    and "0 < f \<Longrightarrow> a = 0 \<Longrightarrow> SessIsFailed q"
    and "0 < f \<Longrightarrow> 0 < a \<Longrightarrow> SessIsActive q \<and> \<not> SessIsCompleted q \<and> \<not> SessIsFailed q \<and> \<not> SessCanRetry q"
    using assms(3,5)
    by (simp_all add: assms(6) UpdateProgress_def Let_def SessIsCompleted_def SessIsFailed_def
        SessIsActive_def SessCanRetry_def)
  ultimately show ?thesis using assms(3) by (cases "f = 0") auto
qed

theorem session_progress_witness:
  "SessIsActive (UpdateProgress 9 3 1 100 (sample_session 4)) \<and>
   \<not> SessIsCompleted (UpdateProgress 9 3 1 100 (sample_session 4))"
  using session_progress [of 3 1 "sample_session 4" "UpdateProgress 9 3 1 100 (sample_session 4)" 9 100]
  by (simp add: sample_session_def)

end
