(* ===== verification/Assembler.thy ===== *)
theory Assembler
  imports Dlp_Service Text_Sanitize Job_Models
begin

text \<open>
  The assembler (\<^verbatim>\<open>cmd/assembler/main.go\<close>): it consumes the results of single pages, counts them on
  the job of their file, and assembles the file when all pages are accounted for.  The state is
  what the program reads and writes outside itself: the rows of the database, the objects of the
  store and the published messages.

  A database statement whose error the program ignores always succeeds here, unless it names a
  column its table does not have; those whose error it tests (the look-up of a row, the insertion of the chunks, the transfers of objects and the
  publication of messages) may fail, as the environment says.  Identifiers, the clock and the
  parsing of UUIDs come from the environment too.  A panic of the DLP service ends the program.
\<close>

section \<open>Names of buckets and objects\<close>

definition GetTenantBucket :: "string \<Rightarrow> string" where
  "GetTenantBucket tenantShortID = ''upload-'' @ tenantShortID"

definition GetFileKey :: "string \<Rightarrow> string \<Rightarrow> string" where
  "GetFileKey fileID filename = fileID @ ''/'' @ filename"

definition GetChunkKey :: "string \<Rightarrow> string \<Rightarrow> string" where
  "GetChunkKey fileID chunkID = fileID @ ''/chunks/'' @ chunkID @ ''.txt''"

definition GetTenantShortID :: "string \<Rightarrow> string" where
  "GetTenantShortID tenantName =
     (if 36 \<le> length tenantName \<and> tenantName ! 8 = CHR ''-''
      then replace_byte (CHR ''-'') [] (take 10 tenantName)
      else let cleaned = to_lower (replace_byte (CHR '' '') ''-'' tenantName)
           in if 20 < length cleaned then take 20 cleaned else cleaned)"

section \<open>State\<close>

record PageResultMessage =
  Msg_TenantID :: string
  Msg_FileID :: string
  Msg_JobID :: string
  Msg_PageNumber :: int
  Msg_TotalPages :: int
  Msg_Status :: string
  Msg_Content :: string
  Msg_ContentS3Key :: string
  Msg_ExtractionMethod :: string
  Msg_OCRConfidence :: float64
  Msg_ProcessingDurationMs :: int
  Msg_Error :: string
  Msg_ErrorType :: string

record FileRow =
  File_URL :: string
  File_Path :: string
  File_Filename :: string
  File_Neo4jDocumentID :: "string option"
  File_Status :: string
  File_ErrorMessage :: string
  File_ChunkCount :: int
  File_ProcessedAt :: "time option"
  File_ProcessingDuration :: int
  File_UpdatedAt :: time

record Chunk =
  CK_TenantID :: uuid
  CK_FileID :: uuid
  CK_ChunkID :: string
  CK_ChunkType :: string
  CK_ChunkNumber :: int
  CK_S3Bucket :: string
  CK_S3Key :: string
  CK_ContentPreview :: string
  CK_ContentHash :: string
  CK_SizeBytes :: int
  CK_PageNumber :: int
  CK_ProcessedBy :: string
  CK_ProcessingTime :: int
  CK_EmbeddingStatus :: string
  CK_DLPScanStatus :: string
  CK_DLPScanResult :: "ScanResult option"
  CK_PIIDetected :: bool
  CK_Context :: "(string \<times> string) list"
  CK_CreatedAt :: time

datatype published =
    DlpJob (dlp_tenant: string) (dlp_file: string) (dlp_chunk: Chunk)
  | ProcessingComplete (pc_file: string) (pc_document: string) (pc_chunks: int) (pc_success: bool)
  | DocumentProcessed (dp_file: string) (dp_name: string) (dp_chunks: int) (dp_duration: int) (dp_ocr: float64)
  | DocumentFailed (df_file: string) (df_stage: string) (df_error: string)

record asm_state =
  Db_Jobs :: "uuid \<rightharpoonup> ProcessingJob"
  Db_Pages :: "PipelinePageResult list"
  Db_Files :: "uuid \<times> uuid \<rightharpoonup> FileRow"
  Db_Chunks :: "Chunk list"
  S3_Objects :: "string \<times> string \<rightharpoonup> string"
  Out_Messages :: "published list"

record asm_env =
  Asm_now :: time
  Asm_parse :: "string \<Rightarrow> uuid"
  Asm_uuid :: "nat \<Rightarrow> uuid"
  Asm_put_ok :: "string \<Rightarrow> string \<Rightarrow> bool"
  Asm_get_ok :: "string \<Rightarrow> string \<Rightarrow> bool"
  Asm_insert_error :: "string option"
  Asm_file_column :: "string \<Rightarrow> bool"
  Asm_publish_ok :: "published \<Rightarrow> bool"
  Asm_dlp :: "nat \<Rightarrow> (scan_env, check_env) service_env"
  Asm_sort :: finding_sorter
  Asm_activity :: bool

section \<open>The store and the rows\<close>

definition UploadChunkContent :: "asm_env \<Rightarrow> string \<Rightarrow> string \<Rightarrow> string \<Rightarrow> asm_state \<Rightarrow> asm_state option" where
  "UploadChunkContent env bucket key content st =
     (if Asm_put_ok env bucket key
      then Some (st\<lparr>S3_Objects := (S3_Objects st)((bucket, key) \<mapsto> content)\<rparr>) else None)"

definition GetChunkContent :: "asm_env \<Rightarrow> string \<Rightarrow> string \<Rightarrow> asm_state \<Rightarrow> string option" where
  "GetChunkContent env bucket key st =
     (if Asm_get_ok env bucket key then S3_Objects st (bucket, key) else None)"

definition update_job :: "uuid \<Rightarrow> (ProcessingJob \<Rightarrow> ProcessingJob) \<Rightarrow> asm_state \<Rightarrow> asm_state" where
  "update_job i f st = st\<lparr>Db_Jobs := (Db_Jobs st)(i := map_option f (Db_Jobs st i))\<rparr>"

definition update_file :: "uuid \<times> uuid \<Rightarrow> (FileRow \<Rightarrow> FileRow) \<Rightarrow> asm_state \<Rightarrow> asm_state" where
  "update_file k f st = st\<lparr>Db_Files := (Db_Files st)(k := map_option f (Db_Files st k))\<rparr>"

definition update_pages :: "uuid \<Rightarrow> int \<Rightarrow> (PipelinePageResult \<Rightarrow> PipelinePageResult) \<Rightarrow> asm_state \<Rightarrow> asm_state" where
  "update_pages jobID n f st =
     st\<lparr>Db_Pages := map (\<lambda>p. if PPR_JobID p = jobID \<and> PPR_PageNumber p = n then f p else p) (Db_Pages st)\<rparr>"

text \<open>A statement that names a column the table does not have is rejected by the database, and the
  program ignores the error: then nothing changes.  The migrations of the repository give \<^verbatim>\<open>files\<close> a
  column \<^verbatim>\<open>processing_error\<close>, but none called \<^verbatim>\<open>error_message\<close>.\<close>

definition updateFileStatus :: "asm_env \<Rightarrow> uuid \<Rightarrow> uuid \<Rightarrow> string \<Rightarrow> string \<Rightarrow> asm_state \<Rightarrow> asm_state" where
  "updateFileStatus env tenantID fileID status errMsg st =
     (if errMsg \<noteq> [] \<and> \<not> Asm_file_column env ''error_message'' then st
      else update_file (fileID, tenantID)
             (\<lambda>f. let f = f\<lparr>File_Status := status, File_UpdatedAt := Asm_now env\<rparr>
                  in if errMsg \<noteq> [] then f\<lparr>File_ErrorMessage := errMsg\<rparr> else f) st)"

definition markJobFailed :: "asm_env \<Rightarrow> uuid \<Rightarrow> string \<Rightarrow> asm_state \<Rightarrow> asm_state" where
  "markJobFailed env jobID errMsg =
     update_job jobID (\<lambda>j. j\<lparr>Job_Status := JobStatusFailed, Job_ErrorMessage := Some errMsg,
       Job_CompletedAt := Some (Asm_now env), Job_UpdatedAt := Asm_now env\<rparr>)"

definition publish :: "asm_env \<Rightarrow> published \<Rightarrow> asm_state \<Rightarrow> asm_state" where
  "publish env m st =
     (if Asm_publish_ok env m then st\<lparr>Out_Messages := Out_Messages st @ [m]\<rparr> else st)"

definition publishActivityFailed :: "asm_env \<Rightarrow> uuid \<Rightarrow> string \<Rightarrow> string \<Rightarrow> asm_state \<Rightarrow> asm_state" where
  "publishActivityFailed env fileID stage errMsg st =
     (if \<not> Asm_activity env then st else publish env (DocumentFailed fileID stage errMsg) st)"

definition publishDLPJobs :: "asm_env \<Rightarrow> Chunk list \<Rightarrow> string \<Rightarrow> string \<Rightarrow> asm_state \<Rightarrow> asm_state" where
  "publishDLPJobs env chunks tenantID fileID st =
     foldl (\<lambda>st c. publish env (DlpJob tenantID fileID c) st) st chunks"

definition averageOCRConfidence :: "PipelinePageResult list \<Rightarrow> float64" where
  "averageOCRConfidence prs =
     (let (s, n) = foldl (\<lambda>(s, n) pr. case PPR_OCRConfidence pr of
                            None \<Rightarrow> (s, n) | Some c \<Rightarrow> (f64_add s c, Suc n)) (0, 0) prs
      in if n = 0 then 0 else f64_div s (round64 (of_nat n)))"

section \<open>Assembling a file\<close>

definition metadata_string :: "JobMetadata \<Rightarrow> string \<Rightarrow> string" where
  "metadata_string m k = (case m k of Some (JString s) \<Rightarrow> s | _ \<Rightarrow> [])"

definition metadata_bool :: "JobMetadata \<Rightarrow> string \<Rightarrow> bool" where
  "metadata_bool m k = (case m k of Some (JBool b) \<Rightarrow> b | _ \<Rightarrow> False)"

definition file_bucket :: "string \<Rightarrow> uuid \<Rightarrow> string" where
  "file_bucket url tenantID =
     (let b = (if prefix ''s3://'' url
               then (let s3URL = drop 5 url; idx = str_index s3URL ''/''
                     in if idx > 0 then take (nat idx) s3URL else [])
               else [])
      in if b = [] then GetTenantBucket (GetTenantShortID tenantID) else b)"

definition redaction_enabled :: "ProcessingJob \<Rightarrow> bool" where
  "redaction_enabled job \<longleftrightarrow>
     metadata_bool (Job_Metadata job) ''dlp_scan_enabled'' \<and>
     metadata_string (Job_Metadata job) ''redaction_mode'' \<noteq> [] \<and>
     metadata_string (Job_Metadata job) ''redaction_mode'' \<noteq> ''none''"

text \<open>The scan and redaction of one page: the content to store, the status, whether personal data was
  found, and the result that is stored with the chunk.\<close>

definition page_request :: "uuid \<Rightarrow> uuid \<Rightarrow> int \<Rightarrow> string \<Rightarrow> DLPScanRequest" where
  "page_request tenantID fileID n content =
     \<lparr>Req_TenantID = tenantID, Req_ContentID = ''page_'' @ show_int n, Req_Content = content,
      Req_Metadata = [(''file_id'', fileID), (''page_number'', show_int n), (''pipeline'', ''kafka'')],
      Req_ScanConfig = None, Req_ComplianceRules = [], Req_RedactionMode = RedactionOther []\<rparr>"

definition protect_page ::
  "asm_env \<Rightarrow> nat \<Rightarrow> bool \<Rightarrow> string \<Rightarrow> uuid \<Rightarrow> uuid \<Rightarrow> int \<Rightarrow> string \<Rightarrow>
     (string, string \<times> string \<times> bool \<times> ScanResult option) outcome" where
  "protect_page env i enabled mode tenantID fileID n content =
     (if \<not> enabled then Ok (content, ''pending'', False, None)
      else case SvcScanContent (NewDLPService (Asm_sort env) None) (Asm_dlp env i)
                  (page_request tenantID fileID n content) of
             Panic \<Rightarrow> Panic
           | Err _ \<Rightarrow> Ok (content, ''pending'', False, None)
           | Ok resp \<Rightarrow>
               let r = Resp_ScanResult resp
               in if Scan_TotalMatches r > 0
                  then (case RedactContent (Asm_sort env) content (Scan_Findings r) (strategy_of_string mode) of
                          Panic \<Rightarrow> Panic
                        | Err _ \<Rightarrow> Ok (content, ''completed'', True, Some r)
                        | Ok redacted \<Rightarrow> Ok (redacted, ''completed'', True, Some r))
                  else Ok (content, ''completed'', False, Some r))"

definition mk_chunk ::
  "asm_env \<Rightarrow> uuid \<Rightarrow> uuid \<Rightarrow> string \<Rightarrow> string \<Rightarrow> nat \<Rightarrow> PipelinePageResult \<Rightarrow>
     string \<times> string \<times> bool \<times> ScanResult option \<Rightarrow> Chunk" where
  "mk_chunk env tenantID fileID bucket key i pr prot =
     (let (content, status, pii, res) = prot
      in \<lparr>CK_TenantID = tenantID, CK_FileID = fileID,
          CK_ChunkID = ''page_'' @ show_int (PPR_PageNumber pr), CK_ChunkType = ''pdf_page'',
          CK_ChunkNumber = int i + 1, CK_S3Bucket = bucket, CK_S3Key = key,
          CK_ContentPreview =
            string_of_runes (if 500 < length (runes_of content) then take 500 (runes_of content)
                             else runes_of content),
          CK_ContentHash = hex_of (sha256 content), CK_SizeBytes = int (length content),
          CK_PageNumber = PPR_PageNumber pr, CK_ProcessedBy = ''kafka_pipeline'',
          CK_ProcessingTime = (case PPR_ProcessingDurationMs pr of None \<Rightarrow> 0 | Some d \<Rightarrow> d),
          CK_EmbeddingStatus = ''pending'', CK_DLPScanStatus = status, CK_DLPScanResult = res,
          CK_PIIDetected = pii,
          CK_Context = [(''page_number'', show_int (PPR_PageNumber pr)),
            (''extraction_method'', SanitizeUTF8String (PPR_ExtractionMethod pr)),
            (''pipeline'', ''kafka'')],
          CK_CreatedAt = Asm_now env\<rparr>)"

text \<open>The content of a page: nothing without a key, \<open>None\<close> when it cannot be read.\<close>

definition page_content :: "asm_env \<Rightarrow> string \<Rightarrow> PipelinePageResult \<Rightarrow> asm_state \<Rightarrow> string option" where
  "page_content env bucket pr st =
     (if PPR_ContentS3Key pr \<noteq> [] then GetChunkContent env bucket (PPR_ContentS3Key pr) st else Some [])"

text \<open>The loop over the pages; \<open>i\<close> is the index of the page.\<close>

fun chunk_loop ::
  "asm_env \<Rightarrow> bool \<Rightarrow> string \<Rightarrow> uuid \<Rightarrow> uuid \<Rightarrow> string \<Rightarrow> nat \<Rightarrow> PipelinePageResult list \<Rightarrow>
     Chunk list \<Rightarrow> asm_state \<Rightarrow> (string, Chunk list \<times> asm_state) outcome" where
  "chunk_loop env enabled mode tenantID fileID bucket i [] chunks st = Ok (chunks, st)"
| "chunk_loop env enabled mode tenantID fileID bucket i (pr # prs) chunks st =
     (case page_content env bucket pr st of
        None \<Rightarrow> chunk_loop env enabled mode tenantID fileID bucket (Suc i) prs chunks st
      | Some content0 \<Rightarrow>
          if content0 = [] then chunk_loop env enabled mode tenantID fileID bucket (Suc i) prs chunks st
          else
            case protect_page env i enabled mode tenantID fileID (PPR_PageNumber pr)
                   (SanitizeUTF8String content0) of
              Panic \<Rightarrow> Panic
            | Err e \<Rightarrow> Err e
            | Ok prot \<Rightarrow>
                let key = GetChunkKey fileID (Asm_uuid env i)
                in case UploadChunkContent env bucket key (fst prot) st of
                     None \<Rightarrow> chunk_loop env enabled mode tenantID fileID bucket (Suc i) prs chunks st
                   | Some st' \<Rightarrow>
                       chunk_loop env enabled mode tenantID fileID bucket (Suc i) prs
                         (chunks @ [mk_chunk env tenantID fileID bucket key i pr prot]) st')"

definition publishCompleteEvent ::
  "asm_env \<Rightarrow> uuid \<Rightarrow> FileRow \<Rightarrow> int \<Rightarrow> PipelinePageResult list \<Rightarrow> ProcessingJob \<Rightarrow> asm_state \<Rightarrow> asm_state" where
  "publishCompleteEvent env fileID file chunkCount prs job st =
     (let documentID = (case File_Neo4jDocumentID file of None \<Rightarrow> [] | Some d \<Rightarrow> d);
          success = (Job_FailedPages job = 0);
          st = publish env (ProcessingComplete fileID documentID chunkCount success) st
      in if \<not> Asm_activity env then st
         else if success
         then publish env (DocumentProcessed fileID (File_Filename file) chunkCount
                (millis (Asm_now env - Job_CreatedAt job)) (averageOCRConfidence prs)) st
         else publishActivityFailed env fileID ''assemble''
                (show_int (Job_FailedPages job) @ '' of '' @ show_int (Job_TotalPages job) @ '' pages failed'') st)"

definition completed_pages :: "uuid \<Rightarrow> asm_state \<Rightarrow> PipelinePageResult list" where
  "completed_pages jobID st =
     sort_key PPR_PageNumber
       (filter (\<lambda>p. PPR_JobID p = jobID \<and> PPR_Status p = PipelinePageCompleted) (Db_Pages st))"

definition set_file_times :: "asm_env \<Rightarrow> ProcessingJob \<Rightarrow> FileRow \<Rightarrow> FileRow" where
  "set_file_times env job f =
     f\<lparr>File_ProcessedAt := Some (Asm_now env),
       File_ProcessingDuration := millis (Asm_now env - Job_CreatedAt job)\<rparr>"

definition failed_pages_message :: "ProcessingJob \<Rightarrow> string" where
  "failed_pages_message job =
     ''too many failed pages: '' @ show_int (Job_FailedPages job) @ ''/'' @ show_int (Job_TotalPages job) @
     '' ('' @ show_int (round_half_even (f64_mul (FailureRate job) 100)) @ ''%)''"

text \<open>The part after the loop: insertion of the chunks, messages and final states.\<close>

definition finish_assembly ::
  "asm_env \<Rightarrow> ProcessingJob \<Rightarrow> uuid \<Rightarrow> uuid \<Rightarrow> FileRow \<Rightarrow> PipelinePageResult list \<Rightarrow>
     Chunk list \<times> asm_state \<Rightarrow> (string, asm_state) outcome" where
  "finish_assembly env job tenantID fileID file pageResults r =
     (let (chunks, st) = r;
          now = Asm_now env
      in case (if chunks = [] then None else Asm_insert_error env) of
           Some e \<Rightarrow> Ok (markJobFailed env (Job_ID job) (''chunk insert failed: '' @ e) st)
         | None \<Rightarrow>
             let st = st\<lparr>Db_Chunks := Db_Chunks st @ chunks\<rparr>;
                 st = publishDLPJobs env chunks tenantID fileID st;
                 finalStatus = (if Job_FailedPages job > 0 then JobStatusPartial else JobStatusCompleted);
                 st = update_job (Job_ID job) (\<lambda>j. j\<lparr>Job_Status := finalStatus,
                        Job_CompletedAt := Some now, Job_UpdatedAt := now\<rparr>) st;
                 st = updateFileStatus env tenantID fileID ''processed'' [] st;
                 st = update_file (fileID, tenantID)
                        (\<lambda>f. (set_file_times env job f)\<lparr>File_ChunkCount := int (length chunks)\<rparr>) st
             in Ok (publishCompleteEvent env fileID file (int (length chunks)) pageResults job st))"

definition assembleFile ::
  "asm_env \<Rightarrow> ProcessingJob \<Rightarrow> uuid \<Rightarrow> uuid \<Rightarrow> asm_state \<Rightarrow> (string, asm_state) outcome" where
  "assembleFile env job tenantID fileID st0 =
     (let now = Asm_now env;
          st = update_job (Job_ID job) (\<lambda>j. j\<lparr>Job_Status := JobStatusAssembling, Job_UpdatedAt := now\<rparr>) st0
      in if FailureRate job \<ge> round64 (2/10)
         then let errMsg = failed_pages_message job;
                  st = update_job (Job_ID job) (\<lambda>j. j\<lparr>Job_Status := JobStatusFailed,
                         Job_ErrorMessage := Some errMsg, Job_CompletedAt := Some now, Job_UpdatedAt := now\<rparr>) st;
                  st = updateFileStatus env tenantID fileID ''error'' errMsg st;
                  st = update_file (fileID, tenantID) (set_file_times env job) st
              in Ok (publishActivityFailed env fileID ''assemble'' errMsg st)
         else let pageResults = completed_pages (Job_ID job) st
              in case Db_Files st (fileID, tenantID) of
                   None \<Rightarrow> Ok (markJobFailed env (Job_ID job) ''file not found: record not found'' st)
                 | Some file \<Rightarrow>
                     let bucket = file_bucket (File_URL file) tenantID
                     in bind_outcome
                          (chunk_loop env (redaction_enabled job)
                             (metadata_string (Job_Metadata job) ''redaction_mode'')
                             tenantID fileID bucket 0 pageResults [] st)
                          (finish_assembly env job tenantID fileID file pageResults))"

section \<open>A page result\<close>

text \<open>The inline content of a page goes to the store, unless the message has a key already.\<close>

definition store_inline :: "asm_env \<Rightarrow> uuid \<Rightarrow> uuid \<Rightarrow> PageResultMessage \<Rightarrow> asm_state \<Rightarrow> string \<times> asm_state" where
  "store_inline env tenantID fileID msg st =
     (if Msg_Status msg = ''completed'' \<and> Msg_Content msg \<noteq> [] \<and> Msg_ContentS3Key msg = []
      then let pageKey = fileID @ ''/pages/page_'' @ show_int (Msg_PageNumber msg) @ ''.txt''
           in case UploadChunkContent env (GetTenantBucket (GetTenantShortID tenantID)) pageKey (Msg_Content msg) st of
                None \<Rightarrow> (Msg_ContentS3Key msg, st)
              | Some st' \<Rightarrow> (pageKey, st')
      else (Msg_ContentS3Key msg, st))"

definition page_update :: "asm_env \<Rightarrow> PageResultMessage \<Rightarrow> string \<Rightarrow> PipelinePageResult \<Rightarrow> PipelinePageResult" where
  "page_update env msg key p =
     (let p = p\<lparr>PPR_Status := Msg_Status msg, PPR_UpdatedAt := Asm_now env\<rparr>;
          p = (if key \<noteq> [] then p\<lparr>PPR_ContentS3Key := key\<rparr> else p);
          p = (if Msg_ExtractionMethod msg \<noteq> [] then p\<lparr>PPR_ExtractionMethod := Msg_ExtractionMethod msg\<rparr> else p);
          p = (if Msg_OCRConfidence msg > 0 then p\<lparr>PPR_OCRConfidence := Some (Msg_OCRConfidence msg)\<rparr> else p);
          p = (if Msg_ProcessingDurationMs msg > 0
               then p\<lparr>PPR_ProcessingDurationMs := Some (Msg_ProcessingDurationMs msg)\<rparr> else p);
          p = (if Msg_Error msg \<noteq> [] then p\<lparr>PPR_ErrorMessage := Some (Msg_Error msg)\<rparr> else p)
      in if Msg_ErrorType msg \<noteq> [] then p\<lparr>PPR_ErrorType := Msg_ErrorType msg\<rparr> else p)"

definition count_page :: "asm_env \<Rightarrow> PageResultMessage \<Rightarrow> ProcessingJob \<Rightarrow> ProcessingJob" where
  "count_page env msg j =
     (if Msg_Status msg = ''completed''
      then j\<lparr>Job_CompletedPages := Job_CompletedPages j + 1, Job_UpdatedAt := Asm_now env\<rparr>
      else j\<lparr>Job_FailedPages := Job_FailedPages j + 1, Job_UpdatedAt := Asm_now env\<rparr>)"

text \<open>A message that cannot be decoded is \<open>None\<close>.\<close>

definition processPageResult ::
  "asm_env \<Rightarrow> PageResultMessage option \<Rightarrow> asm_state \<Rightarrow> (string, asm_state) outcome" where
  "processPageResult env msg0 st0 =
     (case msg0 of
        None \<Rightarrow> Ok st0
      | Some msg \<Rightarrow>
          let jobID = Asm_parse env (Msg_JobID msg);
              fileID = Asm_parse env (Msg_FileID msg);
              tenantID = Asm_parse env (Msg_TenantID msg);
              (key, st) = store_inline env tenantID fileID msg st0;
              st = update_pages jobID (Msg_PageNumber msg) (page_update env msg key) st;
              st = update_job jobID (count_page env msg) st
          in case Db_Jobs st jobID of
               None \<Rightarrow> Ok st
             | Some job \<Rightarrow>
                 if \<not> JobIsComplete job then Ok st
                 else assembleFile env job tenantID fileID st)"

text \<open>Jobs that have not changed for four hours are given up.\<close>

definition staleJobTimeout :: duration where
  "staleJobTimeout = 4 * 3600 * 1000000000"

definition detectStaleJobs :: "time \<Rightarrow> time \<Rightarrow> asm_state \<Rightarrow> asm_state" where
  "detectStaleJobs now now' st =
     st\<lparr>Db_Jobs := (\<lambda>i. map_option (\<lambda>j.
          if (Job_Status j = JobStatusSplitting \<or> Job_Status j = JobStatusProcessing) \<and>
             Job_UpdatedAt j < now - staleJobTimeout
          then j\<lparr>Job_Status := JobStatusTimedOut, Job_UpdatedAt := now'\<rparr> else j) (Db_Jobs st i))\<rparr>"

section \<open>What the helpers leave alone\<close>

definition job_counts :: "ProcessingJob \<Rightarrow> int \<times> int \<times> int" where
  "job_counts j = (Job_TotalPages j, Job_CompletedPages j, Job_FailedPages j)"

definition counts_of :: "asm_state \<Rightarrow> uuid \<Rightarrow> (int \<times> int \<times> int) option" where
  "counts_of st i = map_option job_counts (Db_Jobs st i)"

named_theorems asm_frame "what the helpers of the assembler leave unchanged"

lemma update_job_simps [asm_frame]:
  "Db_Jobs (update_job i f st) = (Db_Jobs st)(i := map_option f (Db_Jobs st i))"
  "Db_Pages (update_job i f st) = Db_Pages st" "Db_Files (update_job i f st) = Db_Files st"
  "Db_Chunks (update_job i f st) = Db_Chunks st" "S3_Objects (update_job i f st) = S3_Objects st"
  "Out_Messages (update_job i f st) = Out_Messages st"
  by (simp_all add: update_job_def)

lemma update_file_simps [asm_frame]:
  "Db_Files (update_file k g st) = (Db_Files st)(k := map_option g (Db_Files st k))"
  "Db_Jobs (update_file k g st) = Db_Jobs st" "Db_Pages (update_file k g st) = Db_Pages st"
  "Db_Chunks (update_file k g st) = Db_Chunks st" "S3_Objects (update_file k g st) = S3_Objects st"
  by (simp_all add: update_file_def)

lemma update_pages_simps [asm_frame]:
  "Db_Jobs (update_pages i n h st) = Db_Jobs st" "Db_Files (update_pages i n h st) = Db_Files st"
  "Db_Chunks (update_pages i n h st) = Db_Chunks st" "S3_Objects (update_pages i n h st) = S3_Objects st"
  by (simp_all add: update_pages_def)

lemma publish_simps [asm_frame]:
  "Db_Jobs (publish env m st) = Db_Jobs st" "Db_Pages (publish env m st) = Db_Pages st"
  "Db_Files (publish env m st) = Db_Files st" "Db_Chunks (publish env m st) = Db_Chunks st"
  "S3_Objects (publish env m st) = S3_Objects st"
  by (simp_all add: publish_def)

lemma publish_all_simps [asm_frame]:
  "Db_Jobs (publishDLPJobs env cs t f st) = Db_Jobs st"
  "Db_Files (publishDLPJobs env cs t f st) = Db_Files st"
  "Db_Chunks (publishDLPJobs env cs t f st) = Db_Chunks st"
  unfolding publishDLPJobs_def by (induction cs arbitrary: st) (simp_all add: asm_frame)

lemma publish_failed_simps [asm_frame]:
  "Db_Jobs (publishActivityFailed env f s e st) = Db_Jobs st"
  "Db_Files (publishActivityFailed env f s e st) = Db_Files st"
  "Db_Chunks (publishActivityFailed env f s e st) = Db_Chunks st"
  by (simp_all add: publishActivityFailed_def asm_frame)

lemma publish_complete_simps [asm_frame]:
  "Db_Jobs (publishCompleteEvent env f file n prs job st) = Db_Jobs st"
  "Db_Files (publishCompleteEvent env f file n prs job st) = Db_Files st"
  "Db_Chunks (publishCompleteEvent env f file n prs job st) = Db_Chunks st"
  by (simp_all add: publishCompleteEvent_def asm_frame Let_def)

lemma status_helpers_simps [asm_frame]:
  "Db_Jobs (updateFileStatus env t f s e st) = Db_Jobs st"
  "Db_Chunks (updateFileStatus env t f s e st) = Db_Chunks st"
  "Db_Files (markJobFailed env i e st) = Db_Files st"
  "Db_Chunks (markJobFailed env i e st) = Db_Chunks st"
  by (simp_all add: updateFileStatus_def markJobFailed_def asm_frame)

lemma UploadChunkContent_simps:
  "UploadChunkContent env b k c st = Some st' \<Longrightarrow>
   Db_Jobs st' = Db_Jobs st \<and> Db_Pages st' = Db_Pages st \<and> Db_Files st' = Db_Files st \<and>
   Db_Chunks st' = Db_Chunks st"
  by (auto simp: UploadChunkContent_def split: if_splits)

lemma store_inline_simps:
  "store_inline env t f msg st = (key, st') \<Longrightarrow>
   Db_Jobs st' = Db_Jobs st \<and> Db_Pages st' = Db_Pages st \<and> Db_Files st' = Db_Files st \<and>
   Db_Chunks st' = Db_Chunks st"
  by (auto simp: store_inline_def Let_def split: if_splits option.splits dest: UploadChunkContent_simps)

lemma chunk_loop_frame:
  "chunk_loop env en mode t f b i prs cs st = Ok (cs', st') \<Longrightarrow>
   Db_Jobs st' = Db_Jobs st \<and> Db_Files st' = Db_Files st \<and> Db_Chunks st' = Db_Chunks st"
proof (induction prs arbitrary: i cs st)
  case Nil
  then show ?case by simp
next
  case (Cons pr prs)
  then show ?case
    by (auto simp: Let_def split: option.splits if_splits outcome.splits dest!: Cons.IH UploadChunkContent_simps)
qed

lemma chunk_loop_no_error: "chunk_loop env en mode t f b i prs cs st \<noteq> Err e"
proof (induction prs arbitrary: i cs st)
  case Nil
  then show ?case by simp
next
  case (Cons pr prs)
  have "protect_page env i en mode t f n c \<noteq> Err e'" for i n c e'
    by (auto simp: protect_page_def Let_def split: outcome.splits)
  then show ?case
    by (auto simp: Let_def Cons.IH split: option.splits outcome.splits)
qed

text \<open>The outcome of an assembly: the job gets a final status, and the chunks are appended only when
  it did not fail.\<close>

definition final_job :: "(ProcessingJob \<Rightarrow> ProcessingJob) \<Rightarrow> string \<Rightarrow> bool" where
  "final_job g status \<longleftrightarrow> (\<forall>j. job_counts (g j) = job_counts j \<and> Job_Status (g j) = status)"

definition assembled :: "ProcessingJob \<Rightarrow> string \<Rightarrow> Chunk list \<Rightarrow> asm_state \<Rightarrow> asm_state \<Rightarrow> bool" where
  "assembled job status cs st st' \<longleftrightarrow>
     (\<exists>g. final_job g status \<and>
        Db_Jobs st' = (Db_Jobs st)(Job_ID job := map_option g (Db_Jobs st (Job_ID job)))) \<and>
     Db_Chunks st' = Db_Chunks st @ cs"

lemma assembled_too_many_failures:
  assumes "FailureRate job \<ge> round64 (2/10)"
  shows "\<exists>st'. assembleFile env job t f st = Ok st' \<and> assembled job JobStatusFailed [] st st'"
  using assms
  by (auto simp: assembleFile_def Let_def asm_frame assembled_def final_job_def job_counts_def
      option.map_comp comp_def
      intro!: exI [of _ "\<lambda>j. j\<lparr>Job_Status := JobStatusFailed,
        Job_ErrorMessage := Some (failed_pages_message job), Job_CompletedAt := Some (Asm_now env),
        Job_UpdatedAt := Asm_now env\<rparr>"])

lemma assembled_no_file:
  assumes "\<not> FailureRate job \<ge> round64 (2/10)" and "Db_Files st (f, t) = None"
  shows "\<exists>st'. assembleFile env job t f st = Ok st' \<and> assembled job JobStatusFailed [] st st'"
  using assms
  by (auto simp: assembleFile_def markJobFailed_def Let_def asm_frame assembled_def final_job_def job_counts_def
      option.map_comp comp_def
      intro!: exI [of _ "\<lambda>j. j\<lparr>Job_Status := JobStatusFailed,
        Job_ErrorMessage := Some ''file not found: record not found'', Job_CompletedAt := Some (Asm_now env),
        Job_UpdatedAt := Asm_now env\<rparr>"])

lemma assembled_with_file:
  assumes "\<not> FailureRate job \<ge> round64 (2/10)" and "Db_Files st (f, t) = Some file"
    and ok: "assembleFile env job t f st = Ok st'"
  shows "assembled job JobStatusFailed [] st st' \<or>
    (\<exists>cs. assembled job (if Job_FailedPages job > 0 then JobStatusPartial else JobStatusCompleted) cs st st' \<and>
       map_option File_ChunkCount (Db_Files st' (f, t)) = Some (int (length cs)))"
proof -
  let ?st = "update_job (Job_ID job)
    (\<lambda>j. j\<lparr>Job_Status := JobStatusAssembling, Job_UpdatedAt := Asm_now env\<rparr>) st"
  obtain cs st1 where loop: "chunk_loop env (redaction_enabled job)
      (metadata_string (Job_Metadata job) ''redaction_mode'') t f (file_bucket (File_URL file) t) 0
      (completed_pages (Job_ID job) ?st) [] ?st = Ok (cs, st1)"
    and rest: "finish_assembly env job t f file (completed_pages (Job_ID job) ?st) (cs, st1) = Ok st'"
    using ok assms(1,2) by (auto simp: assembleFile_def Let_def bind_outcome_iffs asm_frame)
  have frame: "Db_Jobs st1 = Db_Jobs ?st" "Db_Files st1 = Db_Files st" "Db_Chunks st1 = Db_Chunks st"
    using chunk_loop_frame [OF loop] by (simp_all add: asm_frame)
  show ?thesis
  proof (cases "if cs = [] then None else Asm_insert_error env")
    case None
    let ?g = "\<lambda>j. j\<lparr>Job_Status := (if Job_FailedPages job > 0 then JobStatusPartial else JobStatusCompleted),
        Job_CompletedAt := Some (Asm_now env), Job_UpdatedAt := Asm_now env\<rparr>"
    have "assembled job (if Job_FailedPages job > 0 then JobStatusPartial else JobStatusCompleted) cs st st'"
      unfolding assembled_def
    proof (intro conjI exI [of _ ?g])
      show "final_job ?g (if Job_FailedPages job > 0 then JobStatusPartial else JobStatusCompleted)"
        by (simp add: final_job_def job_counts_def)
      show "Db_Jobs st' = (Db_Jobs st)(Job_ID job := map_option ?g (Db_Jobs st (Job_ID job)))"
        using rest None by (auto simp: finish_assembly_def Let_def asm_frame frame option.map_comp comp_def)
      show "Db_Chunks st' = Db_Chunks st @ cs"
        using rest None by (auto simp: finish_assembly_def Let_def asm_frame frame)
    qed
    moreover have "map_option File_ChunkCount (Db_Files st' (f, t)) = Some (int (length cs))"
      using rest None
      by (auto simp: finish_assembly_def Let_def asm_frame frame assms(2) updateFileStatus_def set_file_times_def)
    ultimately show ?thesis by blast
  next
    case (Some e)
    let ?g = "\<lambda>j. j\<lparr>Job_Status := JobStatusFailed, Job_ErrorMessage := Some (''chunk insert failed: '' @ e),
        Job_CompletedAt := Some (Asm_now env), Job_UpdatedAt := Asm_now env\<rparr>"
    have "assembled job JobStatusFailed [] st st'"
      unfolding assembled_def
    proof (intro conjI exI [of _ ?g])
      show "final_job ?g JobStatusFailed" by (simp add: final_job_def job_counts_def)
      show "Db_Jobs st' = (Db_Jobs st)(Job_ID job := map_option ?g (Db_Jobs st (Job_ID job)))"
        using rest Some by (auto simp: finish_assembly_def Let_def markJobFailed_def asm_frame frame option.map_comp comp_def)
      show "Db_Chunks st' = Db_Chunks st @ []"
        using rest Some by (auto simp: finish_assembly_def Let_def asm_frame frame)
    qed
    then show ?thesis by blast
  qed
qed

lemma assembled_counts: "assembled job status cs st st' \<Longrightarrow> counts_of st' = counts_of st"
  by (rule ext) (auto simp: assembled_def counts_of_def final_job_def option.map_comp comp_def)

lemma assembleFile_counts:
  assumes "assembleFile env job t f st = Ok st'"
  shows "counts_of st' = counts_of st"
proof (cases "FailureRate job \<ge> round64 (2/10)")
  case True
  then show ?thesis using assembled_too_many_failures [OF True, of env t f st] assms assembled_counts by fastforce
next
  case False
  show ?thesis
  proof (cases "Db_Files st (f, t)")
    case None
    then show ?thesis using assembled_no_file [OF False None, of env] assms assembled_counts by fastforce
  next
    case (Some row)
    then show ?thesis using assembled_with_file [OF False Some assms] assembled_counts by blast
  qed
qed

section \<open>Correctness\<close>

text \<open>The environment and the state of the examples: a job of two pages of a file.\<close>

definition plain_asm_env :: asm_env where
  "plain_asm_env =
     \<lparr>Asm_now = 1000, Asm_parse = (\<lambda>s. s), Asm_uuid = (\<lambda>n. ''chunk-'' @ show_nat n),
      Asm_put_ok = (\<lambda>_ _. True), Asm_get_ok = (\<lambda>_ _. True), Asm_insert_error = None,
      Asm_file_column = (\<lambda>c. c \<noteq> ''error_message''),
      Asm_publish_ok = (\<lambda>_. True), Asm_dlp = (\<lambda>_. plain_service_env), Asm_sort = insertion_sort,
      Asm_activity = False\<rparr>"

definition pending_page :: "int \<Rightarrow> PipelinePageResult" where
  "pending_page n =
     \<lparr>PPR_JobID = ''j'', PPR_TenantID = ''t'', PPR_FileID = ''f'', PPR_PageNumber = n,
      PPR_Status = PipelinePagePending, PPR_ContentS3Key = [], PPR_ExtractionMethod = [],
      PPR_OCRConfidence = None, PPR_ProcessingDurationMs = None, PPR_ErrorType = [],
      PPR_ErrorMessage = None, PPR_UpdatedAt = 0\<rparr>"

definition sample_file :: "string \<Rightarrow> FileRow" where
  "sample_file url =
     \<lparr>File_URL = url, File_Path = ''p'', File_Filename = ''n'', File_Neo4jDocumentID = None,
      File_Status = ''processing'', File_ErrorMessage = [], File_ChunkCount = 0,
      File_ProcessedAt = None, File_ProcessingDuration = 0, File_UpdatedAt = 0\<rparr>"

definition sample_state :: "string \<Rightarrow> int \<Rightarrow> PipelinePageResult list \<Rightarrow> asm_state" where
  "sample_state url n pages =
     \<lparr>Db_Jobs = [''j'' \<mapsto> sample_job n 0 0], Db_Pages = pages, Db_Files = [(''f'', ''t'') \<mapsto> sample_file url],
      Db_Chunks = [], S3_Objects = Map.empty, Out_Messages = []\<rparr>"

definition page_message :: "int \<Rightarrow> string \<Rightarrow> PageResultMessage" where
  "page_message n status =
     \<lparr>Msg_TenantID = ''t'', Msg_FileID = ''f'', Msg_JobID = ''j'', Msg_PageNumber = n, Msg_TotalPages = 2,
      Msg_Status = status, Msg_Content = ''text'', Msg_ContentS3Key = [], Msg_ExtractionMethod = ''ocr'',
      Msg_OCRConfidence = 0, Msg_ProcessingDurationMs = 0, Msg_Error = [], Msg_ErrorType = []\<rparr>"

text \<open>Every page result that does not end the program is counted once: exactly one of the two
  counters of its job goes up by one, the total does not change, and no other job's counters do,
  whether or not the file is assembled by it.\<close>

theorem page_result_counted:
  assumes "processPageResult env (Some msg) st = Ok st'"
    and "Db_Jobs st (Asm_parse env (Msg_JobID msg)) = Some j"
  shows "counts_of st' = (counts_of st)(Asm_parse env (Msg_JobID msg) \<mapsto>
    (if Msg_Status msg = ''completed''
     then (Job_TotalPages j, Job_CompletedPages j + 1, Job_FailedPages j)
     else (Job_TotalPages j, Job_CompletedPages j, Job_FailedPages j + 1)))"
proof -
  let ?i = "Asm_parse env (Msg_JobID msg)"
  obtain key st1 where s1: "store_inline env (Asm_parse env (Msg_TenantID msg)) (Asm_parse env (Msg_FileID msg)) msg st = (key, st1)"
    by (metis surj_pair)
  let ?st2 = "update_job ?i (count_page env msg) (update_pages ?i (Msg_PageNumber msg) (page_update env msg key) st1)"
  have j2: "Db_Jobs ?st2 = (Db_Jobs st)(?i \<mapsto> count_page env msg j)"
    using store_inline_simps [OF s1] assms(2) by (simp add: asm_frame)
  have "counts_of st' = counts_of ?st2"
    using assms(1) s1 j2 assembleFile_counts
    by (auto simp: processPageResult_def Let_def split: if_splits)
  also have "\<dots> = (counts_of st)(?i \<mapsto> job_counts (count_page env msg j))"
    by (rule ext) (simp add: counts_of_def j2)
  finally show ?thesis by (simp add: job_counts_def count_page_def)
qed

theorem page_result_counted_witness:
  "\<exists>st'. processPageResult plain_asm_env (Some (page_message 1 ''failed''))
       (sample_state ''s3://b/f'' 2 [pending_page 1, pending_page 2]) = Ok st' \<and>
     counts_of st' ''j'' = Some (2, 0, 1)"
proof -
  let ?st = "sample_state ''s3://b/f'' 2 [pending_page 1, pending_page 2]"
  have "\<exists>st'. processPageResult plain_asm_env (Some (page_message 1 ''failed'')) ?st = Ok st'"
    by (simp add: processPageResult_def page_message_def store_inline_def plain_asm_env_def sample_state_def
        Let_def asm_frame count_page_def JobIsComplete_def sample_job_def)
  then obtain st' where ok: "processPageResult plain_asm_env (Some (page_message 1 ''failed'')) ?st = Ok st'" ..
  have "Db_Jobs ?st (Asm_parse plain_asm_env (Msg_JobID (page_message 1 ''failed''))) = Some (sample_job 2 0 0)"
    by (simp add: sample_state_def plain_asm_env_def page_message_def)
  from page_result_counted [OF ok this] ok show ?thesis
    by (auto simp: plain_asm_env_def page_message_def sample_job_def)
qed

lemma sample_failure_rate: "round64 (2/10) \<le> FailureRate ((sample_job 10 7 3)\<lparr>Job_ID := ''j''\<rparr>)"
proof -
  have "FailureRate ((sample_job 10 7 3)\<lparr>Job_ID := ''j''\<rparr>) = round64 (3/10)"
    using round64_of_nat [of 3] round64_of_nat [of 10]
    by (simp add: FailureRate_def sample_job_def f64_div_def)
  then show ?thesis by (simp add: round64_mono)
qed

text \<open>C31: The outcome of an assembly.  If a fifth of the pages failed by the rounded rate, the job fails
  and no chunk is added.  Otherwise the job fails without a chunk, or it becomes completed or
  partially processed, according to whether a page failed, and the file's chunk count is the number
  of chunks added.\<close>

theorem assembly_outcome:
  assumes "assembleFile env job t f st = Ok st'" and "Db_Jobs st (Job_ID job) = Some j"
  shows "\<exists>j' cs. Db_Jobs st' = (Db_Jobs st)(Job_ID job \<mapsto> j') \<and> Db_Chunks st' = Db_Chunks st @ cs \<and>
    (if FailureRate job \<ge> round64 (2/10) then Job_Status j' = JobStatusFailed \<and> cs = []
     else Job_Status j' = JobStatusFailed \<and> cs = [] \<or>
          Job_Status j' = (if Job_FailedPages job > 0 then JobStatusPartial else JobStatusCompleted) \<and>
          map_option File_ChunkCount (Db_Files st' (f, t)) = Some (int (length cs)))"
proof -
  have get: "\<exists>j'. Db_Jobs st' = (Db_Jobs st)(Job_ID job \<mapsto> j') \<and> Db_Chunks st' = Db_Chunks st @ cs \<and> Job_Status j' = s"
    if "assembled job s cs st st'" for s cs
    using that assms(2) by (auto simp: assembled_def final_job_def)
  show ?thesis
  proof (cases "FailureRate job \<ge> round64 (2/10)")
    case True
    then have "assembled job JobStatusFailed [] st st'"
      using assembled_too_many_failures [OF True, of env t f st] assms(1) by auto
    from get [OF this] True show ?thesis by auto
  next
    case False
    show ?thesis
    proof (cases "Db_Files st (f, t)")
      case None
      then have "assembled job JobStatusFailed [] st st'"
        using assembled_no_file [OF False None, of env] assms(1) by auto
      from get [OF this] False show ?thesis by auto
    next
      case (Some row)
      from assembled_with_file [OF False Some assms(1)] show ?thesis
      proof (elim disjE exE conjE)
        assume "assembled job JobStatusFailed [] st st'"
        from get [OF this] False show ?thesis by auto
      next
        fix cs assume "assembled job (if Job_FailedPages job > 0 then JobStatusPartial else JobStatusCompleted) cs st st'"
          and c: "map_option File_ChunkCount (Db_Files st' (f, t)) = Some (int (length cs))"
        from get [OF this(1)] obtain j' where "Db_Jobs st' = (Db_Jobs st)(Job_ID job \<mapsto> j')"
          "Db_Chunks st' = Db_Chunks st @ cs"
          "Job_Status j' = (if Job_FailedPages job > 0 then JobStatusPartial else JobStatusCompleted)" by blast
        with c False show ?thesis by (intro exI [of _ j'] exI [of _ cs]) simp
      qed
    qed
  qed
qed

theorem assembly_outcome_witness:
  "\<exists>st' j'. assembleFile plain_asm_env ((sample_job 10 7 3)\<lparr>Job_ID := ''j''\<rparr>) ''t'' ''f'' (sample_state [] 10 []) = Ok st' \<and>
     Db_Jobs st' ''j'' = Some j' \<and> Job_Status j' = JobStatusFailed \<and> Db_Chunks st' = []"
proof -
  let ?job = "(sample_job 10 7 3)\<lparr>Job_ID := ''j''\<rparr>" and ?st = "sample_state [] 10 []"
  note rate = sample_failure_rate
  obtain st' where ok: "assembleFile plain_asm_env ?job ''t'' ''f'' ?st = Ok st'"
    using assembled_too_many_failures [OF rate, of plain_asm_env "''t''" "''f''" ?st] by auto
  have j: "Db_Jobs ?st (Job_ID ?job) = Some (sample_job 10 0 0)" by (simp add: sample_state_def)
  from assembly_outcome [OF ok j] rate ok show ?thesis by (auto simp: sample_state_def)
qed

lemma page_request_simps [simp]:
  "Req_Content (page_request t f n c) = c" "Req_TenantID (page_request t f n c) = t"
  "Req_ScanConfig (page_request t f n c) = None"
  by (simp_all add: page_request_def)

text \<open>Redaction before storage has a gap.  With redaction enabled, a page of more than 1 MiB is
  rejected by the DLP service, and the assembler then stores it as it is, with its scan pending and
  no personal data recorded.\<close>

theorem oversized_page_stored_unredacted:
  assumes "1048576 < length content"
  shows "protect_page env i True mode t f n content = Ok (content, ''pending'', False, None)"
proof -
  have "int (length content) > 1048576" using assms by linarith
  then have "\<exists>e. SvcScanContent (NewDLPService (Asm_sort env) None) (Asm_dlp env i) (page_request t f n content) = Err e"
    using assms by (auto simp: SvcScanContent_def NewDLPService_def validateScanRequest_def)
  then show ?thesis by (auto simp: protect_page_def)
qed

theorem oversized_page_stored_unredacted_witness:
  "protect_page plain_asm_env 0 True ''mask'' ''t'' ''f'' 1 (replicate 1048577 (CHR ''7'')) =
     Ok (replicate 1048577 (CHR ''7''), ''pending'', False, None)"
  by (rule oversized_page_stored_unredacted) simp

lemma NewDLPService_None_scan:
  "SvcScanContent (NewDLPService srt None) env request = Ok resp \<Longrightarrow>
   ScanContent (Senv_scan env) (Req_Content request)
     (Some (prepareScanConfig GetDefaultDLPServiceConfig (Req_TenantID request) (Req_ScanConfig request))) =
   Ok (Resp_ScanResult resp)"
  by (auto simp: SvcScanContent_def NewDLPService_def Let_def split: option.splits outcome.splits if_splits)



definition after_first :: asm_state where
  "after_first =
     (sample_state ''s3://upload-t/f'' 2 [pending_page 1, pending_page 2])
       \<lparr>Db_Jobs := [''j'' \<mapsto> (sample_job 2 1 0)\<lparr>Job_UpdatedAt := 1000\<rparr>],
        Db_Pages := [(pending_page 1)\<lparr>PPR_Status := PipelinePageCompleted, PPR_UpdatedAt := 1000,
          PPR_ContentS3Key := ''f/pages/page_1.txt'', PPR_ExtractionMethod := ''ocr''\<rparr>, pending_page 2],
        S3_Objects := [(''upload-t'', ''f/pages/page_1.txt'') \<mapsto> ''text'']\<rparr>"

lemma show_int_1: "show_int 1 = ''1''" by code_simp

lemma buckets_t: "GetTenantBucket (GetTenantShortID ''t'') = ''upload-t''"  "file_bucket ''s3://upload-t/f'' ''t'' = ''upload-t''"
  by code_simp+

lemma first_delivery:
  "processPageResult plain_asm_env (Some (page_message 1 ''completed''))
       (sample_state ''s3://upload-t/f'' 2 [pending_page 1, pending_page 2]) = Ok after_first"
  by (simp add: processPageResult_def page_message_def store_inline_def plain_asm_env_def sample_state_def
        Let_def count_page_def JobIsComplete_def sample_job_def UploadChunkContent_def update_pages_def update_job_def
        page_update_def pending_page_def after_first_def show_int_1 buckets_t PipelinePageCompleted_def)

lemma SanitizeUTF8String_text: "SanitizeUTF8String ''text'' = ''text''"
proof -
  have "valid_utf8 ''text''" by (simp add: valid_utf8_Cons decode_ascii rune_error_def)
  then show ?thesis by (simp add: SanitizeUTF8String_def)
qed

lemma no_failed_pages: "Job_FailedPages job = 0 \<Longrightarrow> \<not> round64 (1/5) \<le> FailureRate job"
proof -
  assume a: "Job_FailedPages job = 0"
  have "FailureRate job = 0" by (simp add: FailureRate_def a f64_div_def)
  moreover have "0 < round64 (1/5)" by code_simp
  ultimately show ?thesis by simp
qed

lemma second_delivery:
  "\<exists>st2. processPageResult plain_asm_env (Some (page_message 1 ''completed'')) after_first = Ok st2 \<and>
     map_option Job_Status (Db_Jobs st2 ''j'') = Some JobStatusCompleted \<and>
     map_option File_Status (Db_Files st2 (''f'', ''t'')) = Some ''processed'' \<and>
     map CK_PageNumber (Db_Chunks st2) = [1] \<and>
     map PPR_Status (Db_Pages st2) = [PipelinePageCompleted, PipelinePagePending]"
  by (simp add: processPageResult_def page_message_def store_inline_def plain_asm_env_def sample_state_def
        Let_def count_page_def JobIsComplete_def sample_job_def UploadChunkContent_def update_pages_def update_job_def
        page_update_def pending_page_def after_first_def show_int_1 buckets_t PipelinePageCompleted_def
        assembleFile_def no_failed_pages completed_pages_def sample_file_def PipelinePagePending_def
        page_content_def GetChunkContent_def redaction_enabled_def metadata_bool_def protect_page_def
        SanitizeUTF8String_text finish_assembly_def publishDLPJobs_def publish_def updateFileStatus_def
        update_file_def set_file_times_def publishCompleteEvent_def mk_chunk_def)

text \<open>A message delivered twice counts twice, and Kafka delivers at least once.  For a job of two
  pages, the result of page 1 delivered twice completes the job: the file is assembled from page 1
  alone and marked as processed, while page 2 is still pending.\<close>

theorem redelivery_assembles_early:
  "\<exists>st1 st2. processPageResult plain_asm_env (Some (page_message 1 ''completed''))
       (sample_state ''s3://upload-t/f'' 2 [pending_page 1, pending_page 2]) = Ok st1 \<and>
     processPageResult plain_asm_env (Some (page_message 1 ''completed'')) st1 = Ok st2 \<and>
     map_option Job_Status (Db_Jobs st2 ''j'') = Some JobStatusCompleted \<and>
     map_option File_Status (Db_Files st2 (''f'', ''t'')) = Some ''processed'' \<and>
     map CK_PageNumber (Db_Chunks st2) = [1] \<and>
     map PPR_Status (Db_Pages st2) = [PipelinePageCompleted, PipelinePagePending]"
  by (rule exI [of _ after_first]) (simp only: first_delivery second_delivery simp_thms ex_simps)

text \<open>The content of an inline page is stored in the bucket that the tenant's identifier gives.\<close>

lemma chunk_loop_unreadable:
  "(\<And>pr. pr \<in> set prs \<Longrightarrow> page_content env b pr st = None) \<Longrightarrow>
   chunk_loop env en mode t f b i prs cs st = Ok (cs, st)"
  by (induction prs arbitrary: i) auto

text \<open>The two halves of the assembler disagree about the bucket.  A page's inline content is stored
  in the bucket of the tenant's identifier, but read back from the bucket of the file's URL.  When
  no object of that bucket has the keys of the completed pages, the job is completed and the file
  is processed all the same, with no chunk at all and no page failed.\<close>

theorem foreign_bucket_loses_pages:
  assumes "Db_Files st (f, t) = Some file" and "Db_Jobs st (Job_ID job) = Some j"
    and "Job_FailedPages job = 0"
    and "\<And>p. p \<in> set (completed_pages (Job_ID job) st) \<Longrightarrow>
      PPR_ContentS3Key p \<noteq> [] \<and> S3_Objects st (file_bucket (File_URL file) t, PPR_ContentS3Key p) = None"
  shows "\<exists>st'. assembleFile env job t f st = Ok st' \<and> Db_Chunks st' = Db_Chunks st \<and>
    map_option Job_Status (Db_Jobs st' (Job_ID job)) = Some JobStatusCompleted \<and>
    map_option (\<lambda>r. (File_Status r, File_ChunkCount r)) (Db_Files st' (f, t)) = Some (''processed'', 0)"
proof -
  let ?st = "update_job (Job_ID job) (\<lambda>j. j\<lparr>Job_Status := JobStatusAssembling, Job_UpdatedAt := Asm_now env\<rparr>) st"
  have pages: "completed_pages (Job_ID job) ?st = completed_pages (Job_ID job) st"
    by (simp add: completed_pages_def asm_frame)
  have loop: "chunk_loop env (redaction_enabled job) (metadata_string (Job_Metadata job) ''redaction_mode'')
      t f (file_bucket (File_URL file) t) 0 (completed_pages (Job_ID job) ?st) [] ?st = Ok ([], ?st)"
    by (rule chunk_loop_unreadable) (use assms(4) pages in \<open>auto simp: page_content_def GetChunkContent_def asm_frame\<close>)
  then show ?thesis
    using assms(1-3) no_failed_pages [OF assms(3)]
    by (simp add: assembleFile_def finish_assembly_def asm_frame Let_def updateFileStatus_def set_file_times_def)
qed

theorem foreign_bucket_loses_pages_witness:
  "\<exists>st'. assembleFile plain_asm_env (sample_job 1 1 0) ''t'' ''f''
       (after_first\<lparr>Db_Files := [(''f'', ''t'') \<mapsto> sample_file ''s3://docs/f'']\<rparr>) = Ok st' \<and>
     S3_Objects after_first (''upload-t'', ''f/pages/page_1.txt'') = Some ''text'' \<and> Db_Chunks st' = [] \<and>
     map_option (\<lambda>r. (File_Status r, File_ChunkCount r)) (Db_Files st' (''f'', ''t'')) = Some (''processed'', 0)"
proof -
  let ?st = "after_first\<lparr>Db_Files := [(''f'', ''t'') \<mapsto> sample_file ''s3://docs/f'']\<rparr>"
  have b: "file_bucket (File_URL (sample_file ''s3://docs/f'')) ''t'' = ''docs''"
    by (simp add: sample_file_def) code_simp
  have "\<exists>st'. assembleFile plain_asm_env (sample_job 1 1 0) ''t'' ''f'' ?st = Ok st' \<and>
      Db_Chunks st' = Db_Chunks ?st \<and>
      map_option Job_Status (Db_Jobs st' (Job_ID (sample_job 1 1 0))) = Some JobStatusCompleted \<and>
      map_option (\<lambda>r. (File_Status r, File_ChunkCount r)) (Db_Files st' (''f'', ''t'')) = Some (''processed'', 0)"
  proof (rule foreign_bucket_loses_pages)
    show "Db_Files ?st (''f'', ''t'') = Some (sample_file ''s3://docs/f'')" by simp
    show "Db_Jobs ?st (Job_ID (sample_job 1 1 0)) = Some ((sample_job 2 1 0)\<lparr>Job_UpdatedAt := 1000\<rparr>)"
      by (simp add: after_first_def sample_job_def)
    show "Job_FailedPages (sample_job 1 1 0) = 0" by (simp add: sample_job_def)
    show "PPR_ContentS3Key p \<noteq> [] \<and> S3_Objects ?st (file_bucket (File_URL (sample_file ''s3://docs/f'')) ''t'', PPR_ContentS3Key p) = None"
      if "p \<in> set (completed_pages (Job_ID (sample_job 1 1 0)) ?st)" for p
      using that unfolding b
      by (simp add: completed_pages_def after_first_def sample_job_def pending_page_def PipelinePageCompleted_def
          PipelinePagePending_def)
  qed
  then show ?thesis by (auto simp: after_first_def sample_state_def)
qed

text \<open>A failed assembly does not reach the file.  The status of the file is written together with a
  column that the table of files does not have, so the statement is rejected: the job fails, but
  the file keeps the status it had, and only its processing times are set.\<close>

theorem failed_assembly_keeps_file_status:
  assumes "FailureRate job \<ge> round64 (2/10)" and "\<not> Asm_file_column env ''error_message''"
    and "Db_Files st (f, t) = Some row" and "Db_Jobs st (Job_ID job) = Some j"
  shows "\<exists>st'. assembleFile env job t f st = Ok st' \<and>
    map_option Job_Status (Db_Jobs st' (Job_ID job)) = Some JobStatusFailed \<and>
    Db_Files st' (f, t) = Some (row\<lparr>File_ProcessedAt := Some (Asm_now env),
      File_ProcessingDuration := millis (Asm_now env - Job_CreatedAt job)\<rparr>)"
  using assms
  by (simp add: assembleFile_def Let_def asm_frame updateFileStatus_def set_file_times_def failed_pages_message_def)

theorem failed_assembly_keeps_file_status_witness:
  "\<exists>st'. assembleFile plain_asm_env ((sample_job 10 7 3)\<lparr>Job_ID := ''j''\<rparr>) ''t'' ''f''
       (sample_state [] 10 []) = Ok st' \<and>
     map_option Job_Status (Db_Jobs st' ''j'') = Some ''failed'' \<and>
     map_option File_Status (Db_Files st' (''f'', ''t'')) = Some ''processing''"
proof -
  from failed_assembly_keeps_file_status [OF sample_failure_rate, of plain_asm_env "sample_state [] 10 []" "''f''" "''t''"
      "sample_file []" "sample_job 10 0 0"]
  show ?thesis by (auto simp: plain_asm_env_def sample_state_def sample_file_def)
qed
end
