(* ===== verification/Text_Chunks.thy ===== *)
theory Text_Chunks imports Go_Utf8 Go_Float64 begin

text \<open>
  The chunking of text into pieces of a fixed size (\<^verbatim>\<open>pkg/strategies/text/fixed_size.go\<close>), with the types
  of \<^verbatim>\<open>pkg/core/interfaces.go\<close> that it fills in.  Positions are byte indices into the normalised text.
  The loop over the text has a safety limit of 10000 iterations in the code, over which it recurses here.

  \<open>windows\<close> is the sequence of the slices that the loop cuts out.  The lemmas: the chunks are the
  trimmed windows of sufficient length, consecutive windows leave no gap and always advance, and
  together they cover the text unless the limit strikes first.
\<close>

section \<open>Types\<close>

record QualityMetrics =
  Qual_Completeness :: float64
  Qual_Coherence :: float64
  Qual_Uniqueness :: float64
  Qual_Readability :: float64
  Qual_LanguageConf :: float64
  Qual_Language :: string

record ChunkMetadata =
  CM_SourcePath :: string
  CM_ChunkID :: string
  CM_ChunkType :: string
  CM_SizeBytes :: int
  CM_StartPosition :: "int option"
  CM_EndPosition :: "int option"
  CM_ProcessedAt :: time
  CM_ProcessedBy :: string
  CM_Quality :: "QualityMetrics option"
  CM_Context :: "string \<rightharpoonup> string"

text \<open>The data of a text chunk is a string.\<close>

record TextChunk =
  TC_Data :: string
  TC_Metadata :: ChunkMetadata

text \<open>Raw data and configuration values, as far as type assertions tell them apart; \<open>RawOther\<close> has the name
  of the type.\<close>

datatype raw_data = RawString string | RawOther string
datatype config_value = ConfigFloat float64 | ConfigOther

record chunkConfig =
  CC_ChunkSize :: int
  CC_OverlapSize :: int
  CC_SplitOnSentences :: bool
  CC_PreserveParagraphs :: bool
  CC_MinChunkSize :: int

definition getDefaultChunkConfig :: chunkConfig where
  "getDefaultChunkConfig =
     \<lparr>CC_ChunkSize = 1000, CC_OverlapSize = 100, CC_SplitOnSentences = True, CC_PreserveParagraphs = False,
      CC_MinChunkSize = 50\<rparr>"

definition strategy_name :: string where
  "strategy_name = ''fixed_size_text''"

section \<open>Configuration\<close>

text \<open>The value of a key: the default unless it is a number; \<open>None\<close> when it is out of its range.\<close>

definition config_int :: "(string \<rightharpoonup> config_value) \<Rightarrow> string \<Rightarrow> float64 \<Rightarrow> float64 \<Rightarrow> int \<Rightarrow> int option" where
  "config_int config key lo hi dflt =
     (case config key of
        Some (ConfigFloat x) \<Rightarrow> if x < lo \<or> x > hi then None else Some \<lfloor>x\<rfloor>
      | _ \<Rightarrow> Some dflt)"

definition ValidateChunkConfig :: "(string \<rightharpoonup> config_value) \<Rightarrow> string option" where
  "ValidateChunkConfig config =
     (case config_int config ''chunk_size'' 100 10000 1000 of
        None \<Rightarrow> Some ''chunk_size must be between 100 and 10000''
      | Some chunkSize \<Rightarrow>
     (case config_int config ''overlap_size'' 0 500 100 of
        None \<Rightarrow> Some ''overlap_size must be between 0 and 500''
      | Some overlapSize \<Rightarrow>
     (case config_int config ''min_chunk_size'' 10 1000 50 of
        None \<Rightarrow> Some ''min_chunk_size must be between 10 and 1000''
      | Some minChunkSize \<Rightarrow>
          if overlapSize \<ge> chunkSize then Some ''overlap_size must be less than chunk_size''
          else if minChunkSize > chunkSize then Some ''min_chunk_size must be less than or equal to chunk_size''
          else None)))"

text \<open>\<^verbatim>\<open>fmt.Sscanf(s, "%d", &n)\<close> on ASCII: spaces but no newline, a sign, then as many digits as there are;
  what follows is ignored.\<close>

definition parseInt :: "string \<Rightarrow> int option" where
  "parseInt s =
     (let s = dropWhile (\<lambda>c. is_space c \<and> c \<noteq> CHR 0x0A) s;
          neg = (s \<noteq> [] \<and> hd s = CHR ''-'');
          ds = takeWhile is_digit (if s \<noteq> [] \<and> (hd s = CHR ''-'' \<or> hd s = CHR ''+'') then tl s else s)
      in atoi ((if neg then ''-'' else []) @ ds))"

definition context_int :: "(string \<rightharpoonup> string) \<Rightarrow> string \<Rightarrow> int \<Rightarrow> int" where
  "context_int ctx key dflt =
     (case Option.bind (ctx key) parseInt of None \<Rightarrow> dflt | Some n \<Rightarrow> n)"

definition context_bool :: "(string \<rightharpoonup> string) \<Rightarrow> string \<Rightarrow> bool \<Rightarrow> bool" where
  "context_bool ctx key dflt = (case ctx key of None \<Rightarrow> dflt | Some v \<Rightarrow> v = ''true'')"

definition context_config :: "(string \<rightharpoonup> string) \<Rightarrow> chunkConfig" where
  "context_config ctx =
     \<lparr>CC_ChunkSize = context_int ctx ''chunk_size'' (CC_ChunkSize getDefaultChunkConfig),
      CC_OverlapSize = context_int ctx ''overlap_size'' (CC_OverlapSize getDefaultChunkConfig),
      CC_SplitOnSentences = context_bool ctx ''split_on_sentences'' (CC_SplitOnSentences getDefaultChunkConfig),
      CC_PreserveParagraphs = context_bool ctx ''preserve_paragraphs'' (CC_PreserveParagraphs getDefaultChunkConfig),
      CC_MinChunkSize = context_int ctx ''min_chunk_size'' (CC_MinChunkSize getDefaultChunkConfig)\<rparr>"

section \<open>Normalisation\<close>

text \<open>The flags are \<open>inWhitespace\<close> and \<open>pendingNewline\<close>.\<close>

primrec normalize_loop :: "bool \<Rightarrow> bool \<Rightarrow> string \<Rightarrow> string" where
  "normalize_loop inWs pending [] = []"
| "normalize_loop inWs pending (c # cs) =
     (if c = CHR '' '' \<or> c = CHR 0x09 \<or> c = CHR 0x0D
      then (if \<not> inWs then [CHR '' ''] else []) @ normalize_loop True False cs
      else if c = CHR 0x0A
      then (if pending then [CHR 0x0A, CHR 0x0A] @ normalize_loop True False cs
            else (if \<not> inWs then [CHR '' ''] else []) @ normalize_loop True True cs)
      else c # normalize_loop False False cs)"

definition normalizeText :: "string \<Rightarrow> string" where
  "normalizeText body = (if body = [] then body else TrimSpace (normalize_loop False False body))"

section \<open>Quality\<close>

definition quality_space :: "char \<Rightarrow> bool" where
  "quality_space c \<longleftrightarrow> c \<in> {CHR '' '', CHR 0x09, CHR 0x0A, CHR 0x0D}"

definition sentence_end :: "char \<Rightarrow> bool" where
  "sentence_end c \<longleftrightarrow> c \<in> {CHR ''.'', CHR ''!'', CHR ''?''}"

text \<open>The counts of words and sentences; the flag is \<open>inWord\<close>.\<close>

fun count_words :: "bool \<Rightarrow> string \<Rightarrow> nat" where
  "count_words inWord [] = 0"
| "count_words inWord (c # cs) =
     (if quality_space c then count_words False cs
      else (if inWord then 0 else 1) + count_words True cs)"

definition count_sentences :: "string \<Rightarrow> nat" where
  "count_sentences s = length (filter sentence_end s)"

definition calculateQuality :: "string \<Rightarrow> QualityMetrics" where
  "calculateQuality body =
     (if body = [] then \<lparr>Qual_Completeness = 0, Qual_Coherence = 0, Qual_Uniqueness = 0, Qual_Readability = 0,
        Qual_LanguageConf = 0, Qual_Language = []\<rparr>
      else
        (let words = count_words False body; sentences = count_sentences body;
             lastChar = (case dropWhile quality_space (rev body) of [] \<Rightarrow> CHR 0x00 | c # _ \<Rightarrow> c);
             completeness = (if \<not> sentence_end lastChar then round64 (8/10) else 1);
             perSentence = f64_div (of_nat words) (of_nat sentences);
             coherence = (if sentences > 0
                          then if perSentence \<ge> 10 \<and> perSentence \<le> 25 then round64 (9/10)
                               else if perSentence \<ge> 5 \<and> perSentence \<le> 35 then round64 (7/10) else 1/2
                          else 1/2);
             perWord = f64_div (of_nat (length body)) (of_nat words);
             readability = (if words > 0 \<and> sentences > 0
                            then if perWord < 6 \<and> perSentence < 20 then round64 (8/10)
                                 else if perWord < 8 \<and> perSentence < 30 then round64 (6/10) else 1/2
                            else 1/2)
         in \<lparr>Qual_Completeness = completeness, Qual_Coherence = coherence, Qual_Uniqueness = 0,
             Qual_Readability = readability, Qual_LanguageConf = round64 (8/10), Qual_Language = ''en''\<rparr>))"

section \<open>Break points\<close>

text \<open>\<^verbatim>\<open>strings.LastIndexAny(s, ".!?")\<close>.\<close>

fun last_index :: "('a \<Rightarrow> bool) \<Rightarrow> 'a list \<Rightarrow> nat option" where
  "last_index P [] = None"
| "last_index P (x # xs) =
     (case last_index P xs of Some i \<Rightarrow> Some (Suc i) | None \<Rightarrow> if P x then Some 0 else None)"

text \<open>\<^verbatim>\<open>unicode.IsSpace\<close> of one byte taken as a rune.\<close>

definition byte_space :: "char \<Rightarrow> bool" where
  "byte_space c \<longleftrightarrow> is_space_rune (byte_of c)"

text \<open>The loop that goes back from one sentence end to the one before, at most \<open>n\<close> times.\<close>

primrec sentence_loop :: "nat \<Rightarrow> string \<Rightarrow> nat \<Rightarrow> string \<Rightarrow> nat option" where
  "sentence_loop 0 body start searchText = None"
| "sentence_loop (Suc n) body start searchText =
     (case last_index sentence_end searchText of
        None \<Rightarrow> None
      | Some idx \<Rightarrow>
          let absPos = start + idx
          in if absPos + 1 \<ge> length body \<or> byte_space (body ! (absPos + 1)) then Some (absPos + 1)
             else if idx = 0 then None
             else sentence_loop n body start (take idx searchText))"

text \<open>Positions are natural numbers: the loop calls both functions with \<open>0 \<le> start\<close>, and with an end before the
  start only when the chunk size is not positive, where it stops whatever they return.\<close>

definition findSentenceBreak :: "string \<Rightarrow> nat \<Rightarrow> nat \<Rightarrow> nat" where
  "findSentenceBreak body start stop =
     (let stop = min stop (length body)
      in if start \<ge> stop then stop
         else case sentence_loop 50 body start (take (stop - start) (drop start body)) of
                Some p \<Rightarrow> p | None \<Rightarrow> stop)"

definition findParagraphBreak :: "string \<Rightarrow> nat \<Rightarrow> nat \<Rightarrow> nat" where
  "findParagraphBreak body start stop =
     (let stop = min stop (length body)
      in if start \<ge> stop then stop
         else case filter (\<lambda>i. body ! i = CHR 0x0A \<and> body ! (i - 1) = CHR 0x0A) (rev [start + 2 ..< stop]) of
                i # _ \<Rightarrow> i + 1 | [] \<Rightarrow> stop)"

section \<open>The loop\<close>

text \<open>The end of the window that starts at \<open>start\<close>.\<close>

definition window_end :: "chunkConfig \<Rightarrow> string \<Rightarrow> int \<Rightarrow> int" where
  "window_end config body start =
     (let len = int (length body);
          stop = start + CC_ChunkSize config;
          stop = (if stop > len then len else stop);
          stop = (if CC_SplitOnSentences config \<and> stop < len
                  then let better = int (findSentenceBreak body (nat start) (nat stop))
                       in if better > start + CC_MinChunkSize config then better else stop
                  else stop);
          stop = (if CC_PreserveParagraphs config \<and> stop < len
                  then let better = int (findParagraphBreak body (nat start) (nat stop))
                       in if better > start + CC_MinChunkSize config then better else stop
                  else stop)
      in if stop > len then len else stop)"

text \<open>Where the next window starts: at an overlap with this one, unless that would not advance.\<close>

definition next_start :: "chunkConfig \<Rightarrow> string \<Rightarrow> int \<Rightarrow> int \<Rightarrow> int" where
  "next_start config body start stop =
     (let s = (if CC_OverlapSize config > 0 \<and> stop < int (length body) then stop - CC_OverlapSize config else stop)
      in if s \<le> start then stop else s)"

definition window_text :: "string \<Rightarrow> int \<Rightarrow> int \<Rightarrow> string" where
  "window_text body start stop = TrimSpace (take (nat (stop - start)) (drop (nat start) body))"

definition window_chunk :: "ChunkMetadata \<Rightarrow> nat \<Rightarrow> string \<Rightarrow> int \<Rightarrow> int \<Rightarrow> TextChunk" where
  "window_chunk metadata n data start stop =
     \<lparr>TC_Data = data,
      TC_Metadata =
        \<lparr>CM_SourcePath = CM_SourcePath metadata,
         CM_ChunkID = CM_ChunkID metadata @ '':chunk:'' @ show_nat n,
         CM_ChunkType = ''text'', CM_SizeBytes = int (length data),
         CM_StartPosition = Some start, CM_EndPosition = Some stop,
         CM_ProcessedAt = CM_ProcessedAt metadata, CM_ProcessedBy = strategy_name,
         CM_Quality = Some (calculateQuality data),
         CM_Context = [''chunk_strategy'' \<mapsto> ''fixed_size'', ''chunk_number'' \<mapsto> show_nat n,
           ''start_pos'' \<mapsto> show_int start, ''end_pos'' \<mapsto> show_int stop]\<rparr>\<rparr>"

text \<open>The first argument counts the iterations that the safety limit leaves.\<close>

primrec split_loop :: "nat \<Rightarrow> chunkConfig \<Rightarrow> ChunkMetadata \<Rightarrow> string \<Rightarrow> int \<Rightarrow> nat \<Rightarrow> TextChunk list" where
  "split_loop 0 config metadata body start n = []"
| "split_loop (Suc k) config metadata body start0 n =
     (if \<not> start0 < int (length body) then []
      else let stop = window_end config body start0;
               start = (if start0 < 0 then 0 else start0)
           in if start \<ge> stop then []
              else let data = window_text body start stop;
                       next = next_start config body start stop
                   in if int (length data) \<ge> CC_MinChunkSize config
                      then window_chunk metadata n data start stop # split_loop k config metadata body next (n + 1)
                      else split_loop k config metadata body next n)"

definition maxLoops :: nat where
  "maxLoops = 10000"

definition set_total :: "nat \<Rightarrow> TextChunk \<Rightarrow> TextChunk" where
  "set_total n c =
     c\<lparr>TC_Metadata := (TC_Metadata c)\<lparr>CM_Context := (CM_Context (TC_Metadata c))(''total_chunks'' \<mapsto> show_nat n)\<rparr>\<rparr>"

definition single_chunk :: "ChunkMetadata \<Rightarrow> string \<Rightarrow> TextChunk" where
  "single_chunk metadata body =
     \<lparr>TC_Data = body,
      TC_Metadata =
        \<lparr>CM_SourcePath = CM_SourcePath metadata, CM_ChunkID = CM_ChunkID metadata @ '':chunk:1'',
         CM_ChunkType = ''text'', CM_SizeBytes = int (length body), CM_StartPosition = None, CM_EndPosition = None,
         CM_ProcessedAt = CM_ProcessedAt metadata, CM_ProcessedBy = strategy_name,
         CM_Quality = Some (calculateQuality body),
         CM_Context = [''chunk_strategy'' \<mapsto> ''fixed_size'', ''chunk_number'' \<mapsto> ''1'', ''total_chunks'' \<mapsto> ''1'']\<rparr>\<rparr>"

definition chunkText :: "string \<Rightarrow> chunkConfig \<Rightarrow> ChunkMetadata \<Rightarrow> TextChunk list" where
  "chunkText body0 config metadata =
     (let body = normalizeText body0
      in if int (length body) \<le> CC_ChunkSize config then [single_chunk metadata body]
         else let chunks = split_loop maxLoops config metadata body 0 1
              in map (set_total (length chunks)) chunks)"

definition ProcessTextChunk :: "raw_data \<Rightarrow> ChunkMetadata \<Rightarrow> (string, TextChunk list) outcome" where
  "ProcessTextChunk rawData metadata =
     (case rawData of
        RawOther ty \<Rightarrow> Err (''fixed-size strategy expects string input, got '' @ ty)
      | RawString body \<Rightarrow> Ok (chunkText body (context_config (CM_Context metadata)) metadata))"

section \<open>Windows\<close>

primrec windows :: "nat \<Rightarrow> chunkConfig \<Rightarrow> string \<Rightarrow> int \<Rightarrow> (int \<times> int) list" where
  "windows 0 config body start = []"
| "windows (Suc k) config body start =
     (let stop = window_end config body start
      in if start \<ge> int (length body) \<or> start \<ge> stop then []
         else (start, stop) # windows k config body (next_start config body start stop))"

lemma window_end_le: "window_end config body start \<le> int (length body)"
  by (simp add: window_end_def Let_def)

lemma next_start_gt: "start < stop \<Longrightarrow> start < next_start config body start stop"
  and next_start_le: "start < stop \<Longrightarrow> next_start config body start stop \<le> stop"
  by (auto simp: next_start_def Let_def)

text \<open>The chunk of a window, if it is long enough.\<close>

definition long_windows :: "chunkConfig \<Rightarrow> string \<Rightarrow> (int \<times> int) list \<Rightarrow> (int \<times> int) list" where
  "long_windows config body ws = filter (\<lambda>(a, b). CC_MinChunkSize config \<le> int (length (window_text body a b))) ws"

primrec number_chunks :: "ChunkMetadata \<Rightarrow> string \<Rightarrow> nat \<Rightarrow> (int \<times> int) list \<Rightarrow> TextChunk list" where
  "number_chunks metadata body n [] = []"
| "number_chunks metadata body n (w # ws) =
     window_chunk metadata n (window_text body (fst w) (snd w)) (fst w) (snd w) # number_chunks metadata body (n + 1) ws"

lemma split_loop_windows:
  "0 \<le> start \<Longrightarrow> split_loop k config metadata body start n =
     number_chunks metadata body n (long_windows config body (windows k config body start))"
proof (induction k arbitrary: start n)
  case (Suc k)
  let ?stop = "window_end config body start"
  show ?case
  proof (cases "start \<ge> int (length body) \<or> start \<ge> ?stop")
    case True
    then show ?thesis using Suc.prems by (auto simp: long_windows_def Let_def)
  next
    case False
    then have "0 \<le> next_start config body start ?stop" using next_start_gt [of start ?stop config body] Suc.prems by simp
    then show ?thesis using Suc.IH False Suc.prems by (auto simp: long_windows_def Let_def)
  qed
qed (simp add: long_windows_def)

section \<open>Where windows end\<close>

lemma last_index_Some: "last_index P xs = Some i \<Longrightarrow> i < length xs \<and> P (xs ! i)"
  by (induction xs arbitrary: i) (auto split: option.splits if_splits)

lemma sentence_loop_bounds:
  "sentence_loop n body start s = Some p \<Longrightarrow> start < p \<and> p \<le> start + length s"
proof (induction n arbitrary: s)
  case (Suc n)
  then obtain idx where idx: "last_index sentence_end s = Some idx" by (auto split: option.splits)
  note i = last_index_Some [OF idx]
  show ?case
  proof (cases "start + idx + 1 \<ge> length body \<or> byte_space (body ! (start + idx + 1))")
    case True
    then show ?thesis using Suc.prems idx i by (auto simp: Let_def)
  next
    case False
    then have "sentence_loop n body start (take idx s) = Some p" using Suc.prems idx by (auto simp: Let_def split: if_splits)
    from Suc.IH [OF this] show ?thesis by auto
  qed
qed simp

lemma findSentenceBreak_bounds:
  assumes "start < stop" and "stop \<le> length body"
  shows "start < findSentenceBreak body start stop \<and> findSentenceBreak body start stop \<le> stop"
proof (cases "sentence_loop 50 body start (take (stop - start) (drop start body))")
  case None
  then show ?thesis using assms by (simp add: findSentenceBreak_def Let_def min_def)
next
  case (Some p)
  have "start < p" "p \<le> stop" using sentence_loop_bounds [OF Some] assms by (auto simp: min_def split: if_splits)
  then show ?thesis using assms Some by (simp add: findSentenceBreak_def Let_def min_def)
qed

lemma findParagraphBreak_bounds:
  assumes "start < stop" and "stop \<le> length body"
  shows "start < findParagraphBreak body start stop \<and> findParagraphBreak body start stop \<le> stop"
proof (cases "filter (\<lambda>i. body ! i = CHR 0x0A \<and> body ! (i - 1) = CHR 0x0A) (rev [start + 2 ..< stop])")
  case Nil
  then show ?thesis using assms by (simp add: findParagraphBreak_def Let_def min_def)
next
  case (Cons i js)
  then have "i \<in> set (rev [start + 2 ..< stop])" by (metis filter_eq_ConsD in_set_conv_decomp)
  with Cons assms show ?thesis by (auto simp: findParagraphBreak_def Let_def min_def)
qed

lemma break_bounds_int:
  assumes "0 \<le> start" and "start < stop" and "stop \<le> int (length body)"
  shows "start < int (findSentenceBreak body (nat start) (nat stop)) \<and> int (findSentenceBreak body (nat start) (nat stop)) \<le> stop"
    and "start < int (findParagraphBreak body (nat start) (nat stop)) \<and> int (findParagraphBreak body (nat start) (nat stop)) \<le> stop"
proof -
  have "nat start < nat stop" "nat stop \<le> length body" using assms by simp_all
  from findSentenceBreak_bounds [OF this] findParagraphBreak_bounds [OF this] assms
  show "start < int (findSentenceBreak body (nat start) (nat stop)) \<and> int (findSentenceBreak body (nat start) (nat stop)) \<le> stop"
    "start < int (findParagraphBreak body (nat start) (nat stop)) \<and> int (findParagraphBreak body (nat start) (nat stop)) \<le> stop"
    by (simp_all add: nat_less_iff le_nat_iff)
qed

lemma window_end_bounds:
  assumes "0 < CC_ChunkSize config" and "0 \<le> start" and "start < int (length body)"
  shows "start < window_end config body start \<and> window_end config body start \<le> start + CC_ChunkSize config"
proof -
  define e0 where "e0 = (if start + CC_ChunkSize config > int (length body) then int (length body) else start + CC_ChunkSize config)"
  have e0: "start < e0" "e0 \<le> start + CC_ChunkSize config" "e0 \<le> int (length body)" using assms by (auto simp: e0_def)
  define e1 where "e1 = (if CC_SplitOnSentences config \<and> e0 < int (length body)
      then let better = int (findSentenceBreak body (nat start) (nat e0))
           in if better > start + CC_MinChunkSize config then better else e0 else e0)"
  have e1: "start < e1" "e1 \<le> e0"
    using break_bounds_int(1) [OF assms(2) e0(1,3)] e0 unfolding e1_def Let_def by (simp_all split: if_splits)
  define e2 where "e2 = (if CC_PreserveParagraphs config \<and> e1 < int (length body)
      then let better = int (findParagraphBreak body (nat start) (nat e1))
           in if better > start + CC_MinChunkSize config then better else e1 else e1)"
  have e2: "start < e2" "e2 \<le> e1"
    using break_bounds_int(2) [OF assms(2) e1(1)] e0 e1 unfolding e2_def Let_def by (simp_all split: if_splits)
  have "window_end config body start = (if e2 > int (length body) then int (length body) else e2)"
    unfolding e2_def e1_def e0_def window_end_def Let_def by (rule refl)
  then show ?thesis using e0 e1 e2 by (simp split: if_splits)
qed

lemma windows_bounds:
  "0 < CC_ChunkSize config \<Longrightarrow> 0 \<le> start \<Longrightarrow> (a, b) \<in> set (windows k config body start) \<Longrightarrow>
   start \<le> a \<and> a < b \<and> b \<le> a + CC_ChunkSize config \<and> b \<le> int (length body) \<and> b \<le> start + int k * CC_ChunkSize config"
proof (induction k arbitrary: start)
  case (Suc k)
  let ?stop = "window_end config body start" and ?next = "next_start config body start (window_end config body start)"
  from Suc.prems(3) have s: "start < int (length body)" by (auto simp: Let_def split: if_splits)
  note w = window_end_bounds [OF Suc.prems(1,2) s] window_end_le [of config body start]
  note n = next_start_gt [of start ?stop config body] next_start_le [of start ?stop config body]
  show ?case
  proof (cases "(a, b) = (start, ?stop)")
    case True
    have "0 \<le> int k * CC_ChunkSize config" using Suc.prems(1) by simp
    then have "window_end config body start \<le> start + int (Suc k) * CC_ChunkSize config"
      using w by (simp only: of_nat_Suc distrib_right mult_1) linarith
    then show ?thesis using True w by auto
  next
    case False
    then have "(a, b) \<in> set (windows k config body ?next)" using Suc.prems(3) by (auto simp: Let_def split: if_splits)
    from Suc.IH [OF Suc.prems(1) _ this] w n Suc.prems(2) show ?thesis by (auto simp: distrib_right)
  qed
qed simp

lemma windows_length: "0 < CC_ChunkSize config \<Longrightarrow> 0 \<le> start \<Longrightarrow> start \<le> int (length body) \<Longrightarrow>
    int (length (windows k config body start)) \<le> int (length body) - start"
proof (induction k arbitrary: start)
  case (Suc k)
  let ?stop = "window_end config body start" and ?next = "next_start config body start (window_end config body start)"
  show ?case
  proof (cases "start < int (length body)")
    case True
    note w = window_end_bounds [OF Suc.prems(1,2) True] window_end_le [of config body start]
    note n = next_start_gt [of start ?stop config body] next_start_le [of start ?stop config body]
    have "int (length (windows k config body ?next)) \<le> int (length body) - ?next"
      by (rule Suc.IH) (use Suc.prems w n in linarith)+
    then show ?thesis using w n True by (simp add: Let_def)
  next
    case False
    then show ?thesis using Suc.prems by (simp add: Let_def)
  qed
qed simp

text \<open>Windows that end before the limit cover the rest of the text.\<close>

lemma windows_cover:
  "0 < CC_ChunkSize config \<Longrightarrow> 0 \<le> start \<Longrightarrow> length (windows k config body start) < k \<Longrightarrow>
   start \<le> i \<Longrightarrow> i < int (length body) \<Longrightarrow> \<exists>a b. (a, b) \<in> set (windows k config body start) \<and> a \<le> i \<and> i < b"
proof (induction k arbitrary: start)
  case (Suc k)
  let ?stop = "window_end config body start" and ?next = "next_start config body start (window_end config body start)"
  have s: "start < int (length body)" using Suc.prems by simp
  note w = window_end_bounds [OF Suc.prems(1,2) s]
  note n = next_start_gt [of start ?stop config body] next_start_le [of start ?stop config body]
  have ws: "windows (Suc k) config body start = (start, ?stop) # windows k config body ?next"
    using s w by (simp add: Let_def)
  show ?case
  proof (cases "i < ?stop")
    case True
    then show ?thesis using Suc.prems unfolding ws by auto
  next
    case False
    have "length (windows k config body ?next) < k" using Suc.prems(3) unfolding ws by simp
    then have "\<exists>a b. (a, b) \<in> set (windows k config body ?next) \<and> a \<le> i \<and> i < b"
      by (rule Suc.IH [rotated 2]) (use Suc.prems w n False in linarith)+
    then show ?thesis unfolding ws by auto
  qed
qed simp

section \<open>The chunks of a text\<close>

lemma set_number_chunks:
  "c \<in> set (number_chunks metadata body n ws) \<Longrightarrow>
   \<exists>k a b. (a, b) \<in> set ws \<and> c = window_chunk metadata k (window_text body a b) a b"
proof (induction ws arbitrary: n)
  case (Cons w ws)
  show ?case
  proof (cases "c = window_chunk metadata n (window_text body (fst w) (snd w)) (fst w) (snd w)")
    case True
    then show ?thesis by (intro exI [of _ n] exI [of _ "fst w"] exI [of _ "snd w"]) simp
  next
    case False
    then obtain k a b where "(a, b) \<in> set ws" "c = window_chunk metadata k (window_text body a b) a b"
      using Cons by fastforce
    then show ?thesis by (intro exI [of _ k] exI [of _ a] exI [of _ b]) simp
  qed
qed simp

lemma number_chunks_member:
  "(a, b) \<in> set ws \<Longrightarrow> \<exists>k. window_chunk metadata k (window_text body a b) a b \<in> set (number_chunks metadata body n ws)"
proof (induction ws arbitrary: n)
  case (Cons w ws)
  show ?case
  proof (cases "w = (a, b)")
    case False
    then have "(a, b) \<in> set ws" using Cons.prems by auto
    then obtain k where "window_chunk metadata k (window_text body a b) a b \<in> set (number_chunks metadata body (n + 1) ws)"
      using Cons.IH by blast
    then show ?thesis by (intro exI [of _ k]) simp
  qed (auto intro: exI [of _ n])
qed simp

lemma number_chunks_nth:
  "i < length (number_chunks metadata body n ws) \<Longrightarrow>
   \<exists>a b. (a, b) \<in> set ws \<and> number_chunks metadata body n ws ! i = window_chunk metadata (n + i) (window_text body a b) a b"
proof (induction ws arbitrary: n i)
  case (Cons w ws)
  show ?case
  proof (cases i)
    case 0
    then show ?thesis by (intro exI [of _ "fst w"] exI [of _ "snd w"]) simp
  next
    case (Suc j)
    then obtain a b where "(a, b) \<in> set ws" "number_chunks metadata body (n + 1) ws ! j = window_chunk metadata (n + 1 + j) (window_text body a b) a b"
      using Cons.IH [of j "n + 1"] Cons.prems by auto
    then show ?thesis using Suc by (intro exI [of _ a] exI [of _ b]) simp
  qed
qed simp

lemma chunkText_long:
  "int (length (normalizeText t)) > CC_ChunkSize config \<Longrightarrow>
   chunkText t config metadata =
     (let chunks = number_chunks metadata (normalizeText t) 1
        (long_windows config (normalizeText t) (windows maxLoops config (normalizeText t) 0))
      in map (set_total (length chunks)) chunks)"
  by (simp add: chunkText_def Let_def split_loop_windows)

lemma set_total_simps [simp]:
  "TC_Data (set_total n c) = TC_Data c" "CM_StartPosition (TC_Metadata (set_total n c)) = CM_StartPosition (TC_Metadata c)"
  "CM_EndPosition (TC_Metadata (set_total n c)) = CM_EndPosition (TC_Metadata c)"
  "CM_ChunkID (TC_Metadata (set_total n c)) = CM_ChunkID (TC_Metadata c)"
  "CM_SizeBytes (TC_Metadata (set_total n c)) = CM_SizeBytes (TC_Metadata c)"
  by (simp_all add: set_total_def)

lemma window_chunk_simps [simp]:
  "TC_Data (window_chunk md n data a b) = data" "CM_StartPosition (TC_Metadata (window_chunk md n data a b)) = Some a"
  "CM_EndPosition (TC_Metadata (window_chunk md n data a b)) = Some b"
  "CM_ChunkID (TC_Metadata (window_chunk md n data a b)) = CM_ChunkID md @ '':chunk:'' @ show_nat n"
  "CM_SizeBytes (TC_Metadata (window_chunk md n data a b)) = int (length data)"
  by (simp_all add: window_chunk_def)

lemma length_window_text: "int (length (window_text body a b)) \<le> max 0 (b - a)"
proof -
  have "length (window_text body a b) \<le> nat (b - a)"
    using length_TrimSpace [of "take (nat (b - a)) (drop (nat a) body)"] by (simp add: window_text_def)
  then show ?thesis by (cases "a \<le> b") auto
qed

section \<open>Normal form\<close>

definition ws4 :: "char \<Rightarrow> bool" where
  "ws4 c \<longleftrightarrow> c \<in> {CHR '' '', CHR 0x09, CHR 0x0A, CHR 0x0D}"

lemma ws4_space: "ws4 c \<Longrightarrow> is_space c"
  by (auto simp: ws4_def is_space_def)

text \<open>Texts that the loop leaves as they are: no tabs and carriage returns, no two spaces in a row, newlines in
  pairs and after white space only.\<close>

fun normal_form :: "bool \<Rightarrow> string \<Rightarrow> bool" where
  "normal_form inWs [] = True"
| "normal_form inWs (c # cs) =
     (if c = CHR '' '' then \<not> inWs \<and> normal_form True cs
      else if c = CHR 0x09 \<or> c = CHR 0x0D then False
      else if c = CHR 0x0A then (case cs of d # ds \<Rightarrow> inWs \<and> d = CHR 0x0A \<and> normal_form True ds | [] \<Rightarrow> False)
      else normal_form False cs)"

lemma normal_form_loop: "(pending \<longrightarrow> inWs) \<Longrightarrow> normal_form inWs (normalize_loop inWs pending t)"
  by (induction t arbitrary: inWs pending) auto

lemma loop_normal_form: "normal_form inWs t \<Longrightarrow> normalize_loop inWs False t = t"
proof (induction inWs t rule: normal_form.induct)
  case (2 inWs c cs)
  then show ?case by (auto split: if_splits list.splits)
qed simp

lemma normal_form_regular: "\<not> ws4 c \<Longrightarrow> normal_form inWs (c # cs) = normal_form False cs"
  by (auto simp: ws4_def)

lemma normal_form_chars:
  "normal_form i (CHR '' '' # cs) \<longleftrightarrow> \<not> i \<and> normal_form True cs" "\<not> normal_form i (CHR 0x09 # cs)" "\<not> normal_form i (CHR 0x0D # cs)"
  "\<not> normal_form i [CHR 0x0A]" "normal_form i (CHR 0x0A # d # ds) \<longleftrightarrow> i \<and> d = CHR 0x0A \<and> normal_form True ds"
  by auto

lemma char_cases:
  obtains "c = CHR '' ''" | "c = CHR 0x09" | "c = CHR 0x0D" | "c = CHR 0x0A" | "\<not> ws4 c"
  by (auto simp: ws4_def)

declare normal_form.simps(2) [simp del]

lemma normal_form_suffix: "normal_form inWs (a @ s) \<Longrightarrow> s = [] \<or> \<not> ws4 (hd s) \<Longrightarrow> normal_form False s"
proof (induction a arbitrary: inWs rule: length_induct)
  case (1 a)
  show ?case
  proof (cases a)
    case Nil
    then show ?thesis using 1(2,3) by (cases s) (auto simp: normal_form_regular)
  next
    case (Cons c cs)
    have IH: "normal_form i (bs @ s) \<Longrightarrow> length bs < length a \<Longrightarrow> normal_form False s" for i bs
      using 1(1,3) by blast
    show ?thesis
    proof (cases rule: char_cases [of c])
      case 4
      have "cs \<noteq> []" using 1(2,3) 4 Cons by (cases s) (auto simp: normal_form_chars ws4_def)
      then obtain d ds where "cs = d # ds" by (cases cs) auto
      then show ?thesis using IH [of True ds] 1(2) 4 Cons by (simp add: normal_form_chars)
    qed (use IH [of True cs] IH [of False cs] 1(2) Cons in \<open>auto simp: normal_form_chars normal_form_regular\<close>)
  qed
qed

lemma normal_form_prefix: "normal_form inWs (s @ b) \<Longrightarrow> s = [] \<or> \<not> ws4 (last s) \<Longrightarrow> normal_form inWs s"
proof (induction s arbitrary: inWs rule: length_induct)
  case (1 s)
  show ?case
  proof (cases s)
    case (Cons c cs)
    have last: "cs = [] \<or> \<not> ws4 (last cs)" using 1(3) Cons by auto
    have IH: "normal_form i (bs @ b) \<Longrightarrow> length bs < length s \<Longrightarrow> bs = [] \<or> \<not> ws4 (last bs) \<Longrightarrow> normal_form i bs" for i bs
      using 1(1) by blast
    show ?thesis
    proof (cases rule: char_cases [of c])
      case 4
      have "cs \<noteq> []" using 1(3) 4 Cons by (auto simp: ws4_def)
      then obtain d ds where cs: "cs = d # ds" by (cases cs) auto
      have "ds = [] \<or> \<not> ws4 (last ds)" using last cs by auto
      then show ?thesis using IH [of True ds] 1(2) 4 Cons cs by (simp add: normal_form_chars)
    qed (use IH [of True cs] IH [of False cs] 1(2) Cons last in \<open>auto simp: normal_form_chars normal_form_regular\<close>)
  qed simp
qed

lemma dropWhile_suffix: "\<exists>p. xs = p @ dropWhile P xs"
  by (metis takeWhile_dropWhile_id)

lemma trim_space_ends: "trim_space s = [] \<or> \<not> is_space (hd (trim_space s)) \<and> \<not> is_space (last (trim_space s))"
proof (cases "trim_space s = []")
  case False
  let ?d = "dropWhile is_space s"
  obtain p where p: "rev ?d = p @ dropWhile is_space (rev ?d)" using dropWhile_suffix by blast
  then have "rev (rev ?d) = rev (p @ dropWhile is_space (rev ?d))" by (rule arg_cong)
  then have d: "?d = trim_space s @ rev p" by (simp add: trim_space_def)
  then have "\<not> is_space (hd (trim_space s))" using False hd_dropWhile [of is_space s] by auto
  moreover have "\<not> is_space (last (trim_space s))"
    using False hd_dropWhile [of is_space "rev ?d"] by (simp add: trim_space_def last_rev)
  ultimately show ?thesis by blast
qed simp

lemma filter_trim_space: "filter (\<lambda>c. \<not> is_space c) (trim_space s) = filter (\<lambda>c. \<not> is_space c) s"
proof -
  have d: "filter (\<lambda>c. \<not> is_space c) (dropWhile is_space xs) = filter (\<lambda>c. \<not> is_space c) xs" for xs by (induction xs) auto
  show ?thesis by (simp add: trim_space_def rev_filter [symmetric] d)
qed

lemma trim_space_id: "s = [] \<or> \<not> is_space (hd s) \<and> \<not> is_space (last s) \<Longrightarrow> trim_space s = s"
proof (cases "s = []")
  case False
  assume "s = [] \<or> \<not> is_space (hd s) \<and> \<not> is_space (last s)"
  with False have "dropWhile is_space s = s" "dropWhile is_space (rev s) = rev s"
    by (simp_all add: dropWhile_eq_self_iff hd_rev)
  then show ?thesis by (simp add: trim_space_def)
qed (simp add: trim_space_def)

lemma filter_normalize_loop:
  "filter (\<lambda>c. \<not> is_space c) (normalize_loop inWs pending t) = filter (\<lambda>c. \<not> is_space c) t"
  by (induction t arbitrary: inWs pending) (auto simp: is_space_def)

lemma ascii_normalize_loop: "ascii t \<Longrightarrow> ascii (normalize_loop inWs pending t)"
  by (induction t arbitrary: inWs pending) auto

lemma normalizeText_ascii: "ascii t \<Longrightarrow> normalizeText t = trim_space (normalize_loop False False t)"
  by (auto simp: normalizeText_def TrimSpace_ascii ascii_normalize_loop trim_space_def)

lemma normalized_normal_form: "ascii t \<Longrightarrow> normal_form False (normalizeText t)"
proof -
  assume t: "ascii t"
  let ?u = "normalize_loop False False t"
  obtain a b where "?u = a @ TrimSpace ?u @ b" using TrimSpace_sublist by blast
  then have u: "?u = a @ trim_space ?u @ b" using t by (simp add: TrimSpace_ascii ascii_normalize_loop)
  have n: "normal_form False (a @ trim_space ?u @ b)" using normal_form_loop [of False False t] u by simp
  have ends: "trim_space ?u = [] \<or> \<not> ws4 (hd (trim_space ?u)) \<and> \<not> ws4 (last (trim_space ?u))"
    using trim_space_ends [of ?u] ws4_space by blast
  show ?thesis
  proof (cases "trim_space ?u = []")
    case True
    then show ?thesis using t by (simp add: normalizeText_ascii)
  next
    case False
    then have "normal_form False (trim_space ?u @ b)" using normal_form_suffix [OF n] ends by auto
    then have "normal_form False (trim_space ?u)" using normal_form_prefix ends by blast
    then show ?thesis using t by (simp add: normalizeText_ascii)
  qed
qed

section \<open>Correctness\<close>

definition sample_metadata :: "(string \<rightharpoonup> string) \<Rightarrow> ChunkMetadata" where
  "sample_metadata ctx =
     \<lparr>CM_SourcePath = ''/a.txt'', CM_ChunkID = ''f'', CM_ChunkType = [], CM_SizeBytes = 0, CM_StartPosition = None,
      CM_EndPosition = None, CM_ProcessedAt = 0, CM_ProcessedBy = [], CM_Quality = None, CM_Context = ctx\<rparr>"

definition sample_config :: "int \<Rightarrow> int \<Rightarrow> int \<Rightarrow> chunkConfig" where
  "sample_config n k m =
     \<lparr>CC_ChunkSize = n, CC_OverlapSize = k, CC_SplitOnSentences = True, CC_PreserveParagraphs = False, CC_MinChunkSize = m\<rparr>"

lemma sample_config_simps [simp]:
  "CC_ChunkSize (sample_config n k m) = n" "CC_MinChunkSize (sample_config n k m) = m"
  by (simp_all add: sample_config_def)

lemma set_trim_space: "set (trim_space s) \<subseteq> set s"
proof -
  have "set (dropWhile is_space xs) \<subseteq> set xs" for xs :: string by (metis set_dropWhileD subsetI)
  then show ?thesis unfolding trim_space_def by (metis set_rev subset_trans)
qed

text \<open>Normalisation of ASCII text changes white space only and is idempotent: every other byte is kept, in
  order, and normalising the result again changes nothing.\<close>

theorem normalize_text_correct:
  assumes "ascii t"
  shows "filter (\<lambda>c. \<not> is_space c) (normalizeText t) = filter (\<lambda>c. \<not> is_space c) t \<and>
    normalizeText (normalizeText t) = normalizeText t"
proof -
  have n: "normal_form False (normalizeText t)" by (rule normalized_normal_form [OF assms])
  have a: "\<forall>c \<in> set (normalizeText t). byte_of c < 128"
    using ascii_normalize_loop [OF assms, of False False] set_trim_space [of "normalize_loop False False t"]
    unfolding normalizeText_ascii [OF assms] list_all_iff by blast
  then have a: "ascii (normalizeText t)" by (simp add: list_all_iff)
  have "normalizeText (normalizeText t) = trim_space (normalizeText t)"
    by (simp add: normalizeText_ascii [OF a] loop_normal_form [OF n])
  also have "\<dots> = normalizeText t"
    unfolding normalizeText_ascii [OF assms] by (rule trim_space_id [OF trim_space_ends])
  finally show ?thesis by (simp add: normalizeText_ascii assms filter_trim_space filter_normalize_loop)
qed

theorem normalize_text_correct_witness:
  "normalizeText (normalizeText (''a'' @ [CHR 0x09, CHR 0x0A, CHR 0x0A] @ '' b'')) =
   normalizeText (''a'' @ [CHR 0x09, CHR 0x0A, CHR 0x0A] @ '' b'')"
  using normalize_text_correct [of "''a'' @ [CHR 0x09, CHR 0x0A, CHR 0x0A] @ '' b''"] by simp

text \<open>Every chunk of a text longer than the chunk size is a slice of the normalised text, trimmed, with the
  positions of the slice; it has at least the minimum and at most the maximum number of bytes, and
  the chunks are numbered from one on.\<close>

theorem chunks_sound:
  assumes "0 < CC_ChunkSize config" and "CC_ChunkSize config < int (length (normalizeText t))"
    and "i < length (chunkText t config metadata)"
  shows "\<exists>a b. 0 \<le> a \<and> a < b \<and> b \<le> a + CC_ChunkSize config \<and> b \<le> int (length (normalizeText t)) \<and>
    (let c = chunkText t config metadata ! i; m = TC_Metadata c in
       TC_Data c = TrimSpace (take (nat (b - a)) (drop (nat a) (normalizeText t))) \<and>
       CC_MinChunkSize config \<le> int (length (TC_Data c)) \<and> int (length (TC_Data c)) \<le> CC_ChunkSize config \<and>
       CM_SizeBytes m = int (length (TC_Data c)) \<and> CM_StartPosition m = Some a \<and> CM_EndPosition m = Some b \<and>
       CM_ChunkID m = CM_ChunkID metadata @ '':chunk:'' @ show_nat (i + 1))"
proof -
  let ?body = "normalizeText t"
  let ?ws = "long_windows config ?body (windows maxLoops config ?body 0)"
  have c: "chunkText t config metadata =
      map (set_total (length (number_chunks metadata ?body 1 ?ws))) (number_chunks metadata ?body 1 ?ws)"
    using chunkText_long [of config t metadata] assms(2) by (simp add: Let_def)
  then have "i < length (number_chunks metadata ?body 1 ?ws)" using assms(3) by simp
  then obtain a b where ab: "(a, b) \<in> set ?ws"
      and nth: "number_chunks metadata ?body 1 ?ws ! i = window_chunk metadata (1 + i) (window_text ?body a b) a b"
    using number_chunks_nth by blast
  from ab have w: "(a, b) \<in> set (windows maxLoops config ?body 0)"
      and min: "CC_MinChunkSize config \<le> int (length (window_text ?body a b))" by (auto simp: long_windows_def)
  note bd = windows_bounds [OF assms(1) order_refl w]
  have "int (length (window_text ?body a b)) \<le> CC_ChunkSize config" using length_window_text [of ?body a b] bd by linarith
  moreover have "chunkText t config metadata ! i =
      set_total (length (number_chunks metadata ?body 1 ?ws)) (window_chunk metadata (1 + i) (window_text ?body a b) a b)"
    using assms(3) nth by (simp add: c)
  ultimately show ?thesis
    using bd min by (intro exI [of _ a] exI [of _ b]) (simp add: Let_def window_text_def add.commute)
qed

definition ten_letters :: string where
  "ten_letters = ''abcdefghij''"

lemma ten_letters_normal: "normalizeText ten_letters = ten_letters"
  by code_simp

lemma length_ten_letters: "length ten_letters = 10"
  by (simp add: ten_letters_def)

text \<open>The texts of the chunks, without their metadata.\<close>

lemma data_number_chunks: "map TC_Data (number_chunks metadata body n ws) = map (\<lambda>(a, b). window_text body a b) ws"
  by (induction ws arbitrary: n) auto

lemma data_chunkText:
  "CC_ChunkSize config < int (length (normalizeText t)) \<Longrightarrow>
   map TC_Data (chunkText t config metadata) =
     (let body = normalizeText t in map (\<lambda>(a, b). window_text body a b) (long_windows config body (windows maxLoops config body 0)))"
  by (simp add: chunkText_long Let_def comp_def data_number_chunks)

lemma windows_enough:
  "length (windows k config body start) < k \<Longrightarrow> k \<le> m \<Longrightarrow> windows m config body start = windows k config body start"
proof (induction k arbitrary: start m)
  case (Suc k)
  let ?stop = "window_end config body start"
  obtain n where m: "m = Suc n" "k \<le> n" using Suc.prems(2) by (cases m) auto
  show ?case
  proof (cases "start \<ge> int (length body) \<or> start \<ge> ?stop")
    case False
    then have "length (windows k config body (next_start config body start ?stop)) < k"
      using Suc.prems(1) by (simp add: Let_def)
    from Suc.IH [OF this m(2)] show ?thesis using m(1) False by (simp add: Let_def)
  qed (auto simp: m Let_def)
qed simp

lemma maxLoops_ge: "9 \<le> maxLoops"
  by (simp add: maxLoops_def)

lemma windows_maxLoops:
  "length (windows 9 config body 0) < 9 \<Longrightarrow> windows maxLoops config body 0 = windows 9 config body 0"
  using windows_enough [of 9 config body 0 maxLoops] maxLoops_ge by blast

theorem chunks_sound_witness:
  "\<exists>a b. CM_StartPosition (TC_Metadata (chunkText ten_letters (sample_config 4 1 1) (sample_metadata Map.empty) ! 0)) = Some a \<and>
     b \<le> a + 4"
proof -
  have w: "length (windows 9 (sample_config 4 1 1) ten_letters 0) < 9" by code_simp
  have "map TC_Data (chunkText ten_letters (sample_config 4 1 1) (sample_metadata Map.empty)) =
      (let body = ten_letters in map (\<lambda>(a, b). window_text body a b)
         (long_windows (sample_config 4 1 1) body (windows 9 (sample_config 4 1 1) body 0)))"
    using data_chunkText [of "sample_config 4 1 1" ten_letters "sample_metadata Map.empty"]
    by (simp add: ten_letters_normal length_ten_letters windows_maxLoops [OF w])
  also have "\<dots> = [''abcd'', ''defg'', ''ghij'']" by code_simp
  finally have "0 < length (chunkText ten_letters (sample_config 4 1 1) (sample_metadata Map.empty))"
    by (metis length_greater_0_conv list.map_disc_iff list.distinct(1))
  from chunks_sound [OF _ _ this] show ?thesis by (auto simp: ten_letters_normal length_ten_letters Let_def)
qed



text \<open>The safety limit truncates long texts in silence.  When the normalised text has more than 10000 times
  the chunk size bytes, what comes after those bytes is in no chunk.\<close>

theorem long_text_truncated:
  assumes "0 < CC_ChunkSize config" and "int maxLoops * CC_ChunkSize config < int (length (normalizeText t))"
    and "c \<in> set (chunkText t config metadata)"
  shows "\<exists>b. CM_EndPosition (TC_Metadata c) = Some b \<and> b \<le> int maxLoops * CC_ChunkSize config \<and>
    b < int (length (normalizeText t))"
proof -
  let ?body = "normalizeText t"
  have "CC_ChunkSize config \<le> int maxLoops * CC_ChunkSize config" using assms(1) by (simp add: maxLoops_def)
  then have "CC_ChunkSize config < int (length ?body)" using assms(2) by linarith
  then obtain d n where d: "d \<in> set (number_chunks metadata ?body 1 (long_windows config ?body (windows maxLoops config ?body 0)))"
      "c = set_total n d"
    using assms(3) by (auto simp: chunkText_long Let_def)
  then obtain k a b where ab: "(a, b) \<in> set (windows maxLoops config ?body 0)"
      "d = window_chunk metadata k (window_text ?body a b) a b"
    using set_number_chunks [OF d(1)] by (auto simp: long_windows_def)
  have "b \<le> int maxLoops * CC_ChunkSize config" using windows_bounds [OF assms(1) order_refl ab(1)] by simp
  then show ?thesis using assms(2) d(2) ab(2) by auto
qed

lemma normalize_letters: "normalizeText (replicate n CHR ''a'') = replicate n CHR ''a''"
proof -
  have "normalize_loop i p (replicate n CHR ''a'') = replicate n CHR ''a''" for i p
    by (induction n arbitrary: i p) simp_all
  moreover have "trim_space (replicate n CHR ''a'') = replicate n CHR ''a''"
    by (rule trim_space_id) (cases n; simp add: is_space_def)
  moreover have "ascii (replicate n CHR ''a'')" by (simp add: list_all_iff)
  ultimately show ?thesis by (simp add: normalizeText_ascii)
qed

theorem long_text_truncated_witness:
  "list_all (\<lambda>c. \<exists>b. CM_EndPosition (TC_Metadata c) = Some b \<and> b < 10001)
     (chunkText (replicate 10001 CHR ''a'') (sample_config 1 0 1) (sample_metadata Map.empty))"
  unfolding list_all_iff
proof
  fix c assume c: "c \<in> set (chunkText (replicate 10001 CHR ''a'') (sample_config 1 0 1) (sample_metadata Map.empty))"
  have l: "length (normalizeText (replicate 10001 CHR ''a'')) = 10001" unfolding normalize_letters by simp
  have "\<exists>b. CM_EndPosition (TC_Metadata c) = Some b \<and> b \<le> int maxLoops * CC_ChunkSize (sample_config 1 0 1) \<and>
      b < int (length (normalizeText (replicate 10001 CHR ''a'')))"
    using long_text_truncated [OF _ _ c] unfolding l by (simp add: maxLoops_def)
  then show "\<exists>b. CM_EndPosition (TC_Metadata c) = Some b \<and> b < 10001" unfolding l by auto
qed

text \<open>The settings come from the context of the chunk without validation.  A chunk size of zero or less
  makes the text vanish: no chunk and no error.\<close>

theorem unchecked_chunk_size_loses_text:
  assumes "CM_Context metadata ''chunk_size'' = Some v" and "parseInt v = Some n" and "n \<le> 0"
    and "normalizeText t \<noteq> []"
  shows "ProcessTextChunk (RawString t) metadata = Ok []"
proof -
  let ?config = "context_config (CM_Context metadata)" and ?body = "normalizeText t"
  have n: "CC_ChunkSize ?config = n" using assms(1,2) by (simp add: context_config_def context_int_def)
  have "0 < int (length ?body)" using assms(4) by simp
  moreover have "window_end ?config ?body 0 \<le> 0"
  proof -
    have p: "\<not> 0 < nat (0 + n)" "nat (0 + n) \<le> length ?body" using assms(3) by auto
    have "findSentenceBreak ?body 0 0 = 0" "findParagraphBreak ?body 0 0 = 0"
      by (simp_all add: findSentenceBreak_def findParagraphBreak_def Let_def)
    then show ?thesis using assms(3) by (simp add: window_end_def Let_def n) 
  qed
  ultimately have "windows k ?config ?body 0 = []" for k by (cases k) (simp_all add: Let_def)
  moreover have "CC_ChunkSize ?config < int (length ?body)" using n assms(3) \<open>0 < int (length ?body)\<close> by linarith
  ultimately show ?thesis by (simp add: ProcessTextChunk_def chunkText_long Let_def long_windows_def)
qed

theorem unchecked_chunk_size_loses_text_witness:
  "ProcessTextChunk (RawString ten_letters) (sample_metadata [''chunk_size'' \<mapsto> ''0'']) = Ok []"
proof -
  have p: "parseInt ''0'' = Some 0" by code_simp
  show ?thesis
    by (rule unchecked_chunk_size_loses_text [OF _ p]) (simp_all add: sample_metadata_def ten_letters_normal, simp add: ten_letters_def)
qed

text \<open>A text with an accented letter: the bytes C3 A9 are the character e with an acute accent.\<close>

definition accented :: string where
  "accented = ''abc'' @ [CHR 0xC3, CHR 0xA9] @ ''de''"

lemmas utf8_eval = valid_utf8_def range_runes.simps decode_rune.simps rune_error_def is_cont_def

lemma accented_facts:
  "valid_utf8 accented" "\<not> valid_utf8 (''abc'' @ [CHR 0xC3])" "\<not> valid_utf8 (CHR 0xA9 # ''de'')"
  "length accented = 7"
  by (simp_all add: accented_def utf8_eval)

lemmas trim_eval = TrimSpace_def trim_left.simps trim_right.simps decode_last_rune_def decode_rune.simps rune_error_def
  is_cont_def is_space_rune_def second_ok_def second_lo_def second_hi_def

lemma accented_windows:
  "normalizeText accented = accented"
  "windows 9 (sample_config 4 0 1) accented 0 = [(0, 4), (4, 7)]"
  "window_text accented 0 4 = ''abc'' @ [CHR 0xC3]" "window_text accented 4 7 = CHR 0xA9 # ''de''"
proof -
  show "normalizeText accented = accented" by (simp add: normalizeText_def accented_def trim_eval)
  show "windows 9 (sample_config 4 0 1) accented 0 = [(0, 4), (4, 7)]" by code_simp
  show "window_text accented 0 4 = ''abc'' @ [CHR 0xC3]" "window_text accented 4 7 = CHR 0xA9 # ''de''"
    by (simp_all add: window_text_def accented_def trim_eval)
qed

text \<open>Windows end at bytes, not at characters.  A valid text can give chunks that are not valid UTF-8.\<close>

theorem chunk_splits_character:
  "valid_utf8 accented \<and>
   map TC_Data (chunkText accented (sample_config 4 0 1) metadata) = [''abc'' @ [CHR 0xC3], CHR 0xA9 # ''de''] \<and>
   \<not> valid_utf8 (''abc'' @ [CHR 0xC3]) \<and> \<not> valid_utf8 (CHR 0xA9 # ''de'')"
proof -
  have "map TC_Data (chunkText accented (sample_config 4 0 1) metadata) = [''abc'' @ [CHR 0xC3], CHR 0xA9 # ''de'']"
    using data_chunkText [of "sample_config 4 0 1" accented metadata]
    by (simp add: Let_def accented_windows windows_maxLoops accented_facts(4) long_windows_def)
  then show ?thesis using accented_facts by blast
qed

end
