(* ===== verification/Auth_Types.thy ===== *)
theory Auth_Types imports Go_Prelude begin

text \<open>
  The data of the authentication package (\<^verbatim>\<open>pkg/auth/types.go\<close>): users, tenants, claims, requests,
  errors, and the tables of the permissions that roles grant.  Roles, statuses and permissions are
  strings, as in the code, so a stored value need not be one of the constants.

  The lemmas say what the tables promise: the roles for people form a chain, the roles within a tenant
  form another, and every table holds declared permissions without repetition.
\<close>

named_theorems auth_consts "the strings of roles, permissions and statuses"

type_synonym Role = string
type_synonym TenantRole = string
type_synonym Permission = string

section \<open>Roles and permissions\<close>

definition RoleSuperAdmin :: Role where [auth_consts]: "RoleSuperAdmin = ''super_admin''"
definition RoleAdmin :: Role where [auth_consts]: "RoleAdmin = ''admin''"
definition RoleUser :: Role where [auth_consts]: "RoleUser = ''user''"
definition RoleViewer :: Role where [auth_consts]: "RoleViewer = ''viewer''"
definition RoleAPIClient :: Role where [auth_consts]: "RoleAPIClient = ''api_client''"
definition RoleServiceAccount :: Role where [auth_consts]: "RoleServiceAccount = ''service_account''"
definition TenantRoleOwner :: TenantRole where [auth_consts]: "TenantRoleOwner = ''owner''"
definition TenantRoleAdmin :: TenantRole where [auth_consts]: "TenantRoleAdmin = ''admin''"
definition TenantRoleMember :: TenantRole where [auth_consts]: "TenantRoleMember = ''member''"
definition TenantRoleViewer :: TenantRole where [auth_consts]: "TenantRoleViewer = ''viewer''"
definition TenantRoleGuest :: TenantRole where [auth_consts]: "TenantRoleGuest = ''guest''"
definition PermissionSystemRead :: Permission where [auth_consts]: "PermissionSystemRead = ''system:read''"
definition PermissionSystemWrite :: Permission where [auth_consts]: "PermissionSystemWrite = ''system:write''"
definition PermissionSystemAdmin :: Permission where [auth_consts]: "PermissionSystemAdmin = ''system:admin''"
definition PermissionUserRead :: Permission where [auth_consts]: "PermissionUserRead = ''user:read''"
definition PermissionUserWrite :: Permission where [auth_consts]: "PermissionUserWrite = ''user:write''"
definition PermissionUserDelete :: Permission where [auth_consts]: "PermissionUserDelete = ''user:delete''"
definition PermissionUserAdmin :: Permission where [auth_consts]: "PermissionUserAdmin = ''user:admin''"
definition PermissionTenantRead :: Permission where [auth_consts]: "PermissionTenantRead = ''tenant:read''"
definition PermissionTenantWrite :: Permission where [auth_consts]: "PermissionTenantWrite = ''tenant:write''"
definition PermissionTenantDelete :: Permission where [auth_consts]: "PermissionTenantDelete = ''tenant:delete''"
definition PermissionTenantAdmin :: Permission where [auth_consts]: "PermissionTenantAdmin = ''tenant:admin''"
definition PermissionDataRead :: Permission where [auth_consts]: "PermissionDataRead = ''data:read''"
definition PermissionDataWrite :: Permission where [auth_consts]: "PermissionDataWrite = ''data:write''"
definition PermissionDataDelete :: Permission where [auth_consts]: "PermissionDataDelete = ''data:delete''"
definition PermissionDataProcess :: Permission where [auth_consts]: "PermissionDataProcess = ''data:process''"
definition PermissionDataExport :: Permission where [auth_consts]: "PermissionDataExport = ''data:export''"
definition PermissionAPIRead :: Permission where [auth_consts]: "PermissionAPIRead = ''api:read''"
definition PermissionAPIWrite :: Permission where [auth_consts]: "PermissionAPIWrite = ''api:write''"
definition PermissionAPIAdmin :: Permission where [auth_consts]: "PermissionAPIAdmin = ''api:admin''"
definition PermissionWorkflowRead :: Permission where [auth_consts]: "PermissionWorkflowRead = ''workflow:read''"
definition PermissionWorkflowWrite :: Permission where [auth_consts]: "PermissionWorkflowWrite = ''workflow:write''"
definition PermissionWorkflowExecute :: Permission where [auth_consts]: "PermissionWorkflowExecute = ''workflow:execute''"
definition PermissionWorkflowAdmin :: Permission where [auth_consts]: "PermissionWorkflowAdmin = ''workflow:admin''"
definition PermissionClassifyRead :: Permission where [auth_consts]: "PermissionClassifyRead = ''classify:read''"
definition PermissionClassifyWrite :: Permission where [auth_consts]: "PermissionClassifyWrite = ''classify:write''"
definition PermissionClassifyAdmin :: Permission where [auth_consts]: "PermissionClassifyAdmin = ''classify:admin''"
definition GetRolePermissions :: "Role \<Rightarrow> Permission list" where
  "GetRolePermissions role =
     (if role = RoleSuperAdmin then
       [PermissionSystemRead, PermissionSystemWrite, PermissionSystemAdmin, PermissionUserRead,
        PermissionUserWrite, PermissionUserDelete, PermissionUserAdmin, PermissionTenantRead,
        PermissionTenantWrite, PermissionTenantDelete, PermissionTenantAdmin, PermissionDataRead,
        PermissionDataWrite, PermissionDataDelete, PermissionDataProcess, PermissionDataExport,
        PermissionAPIRead, PermissionAPIWrite, PermissionAPIAdmin, PermissionWorkflowRead,
        PermissionWorkflowWrite, PermissionWorkflowExecute, PermissionWorkflowAdmin, PermissionClassifyRead,
        PermissionClassifyWrite, PermissionClassifyAdmin]
     else if role = RoleAdmin then
       [PermissionUserRead, PermissionUserWrite, PermissionUserAdmin, PermissionTenantRead,
        PermissionTenantWrite, PermissionDataRead, PermissionDataWrite, PermissionDataProcess,
        PermissionDataExport, PermissionAPIRead, PermissionAPIWrite, PermissionWorkflowRead,
        PermissionWorkflowWrite, PermissionWorkflowExecute, PermissionClassifyRead, PermissionClassifyWrite]
     else if role = RoleUser then
       [PermissionDataRead, PermissionDataWrite, PermissionDataProcess, PermissionAPIRead, PermissionAPIWrite,
        PermissionWorkflowRead, PermissionWorkflowExecute, PermissionClassifyRead]
     else if role = RoleViewer then
       [PermissionDataRead, PermissionAPIRead, PermissionWorkflowRead, PermissionClassifyRead]
     else if role = RoleAPIClient then
       [PermissionAPIRead, PermissionAPIWrite, PermissionDataRead, PermissionDataWrite, PermissionDataProcess,
        PermissionClassifyRead, PermissionClassifyWrite]
     else if role = RoleServiceAccount then
       [PermissionAPIRead, PermissionAPIWrite, PermissionDataRead, PermissionDataWrite, PermissionDataProcess,
        PermissionWorkflowRead, PermissionWorkflowExecute, PermissionClassifyRead, PermissionClassifyWrite]
     else [])"

definition GetTenantRolePermissions :: "TenantRole \<Rightarrow> Permission list" where
  "GetTenantRolePermissions role =
     (if role = TenantRoleOwner then
       [PermissionTenantRead, PermissionTenantWrite, PermissionTenantAdmin, PermissionUserRead,
        PermissionUserWrite, PermissionUserAdmin, PermissionDataRead, PermissionDataWrite,
        PermissionDataDelete, PermissionDataProcess, PermissionDataExport, PermissionWorkflowRead,
        PermissionWorkflowWrite, PermissionWorkflowExecute, PermissionWorkflowAdmin, PermissionClassifyRead,
        PermissionClassifyWrite, PermissionClassifyAdmin]
     else if role = TenantRoleAdmin then
       [PermissionTenantRead, PermissionTenantWrite, PermissionUserRead, PermissionUserWrite,
        PermissionDataRead, PermissionDataWrite, PermissionDataProcess, PermissionDataExport,
        PermissionWorkflowRead, PermissionWorkflowWrite, PermissionWorkflowExecute, PermissionClassifyRead,
        PermissionClassifyWrite]
     else if role = TenantRoleMember then
       [PermissionDataRead, PermissionDataWrite, PermissionDataProcess, PermissionWorkflowRead,
        PermissionWorkflowExecute, PermissionClassifyRead, PermissionClassifyWrite]
     else if role = TenantRoleViewer then
       [PermissionDataRead, PermissionWorkflowRead, PermissionClassifyRead]
     else if role = TenantRoleGuest then
       [PermissionDataRead]
     else [])"

section \<open>Statuses and kinds\<close>

definition UserStatusActive :: string where [auth_consts]: "UserStatusActive = ''active''"
definition UserStatusInactive :: string where [auth_consts]: "UserStatusInactive = ''inactive''"
definition UserStatusSuspended :: string where [auth_consts]: "UserStatusSuspended = ''suspended''"
definition UserStatusPending :: string where [auth_consts]: "UserStatusPending = ''pending''"
definition UserStatusExpired :: string where [auth_consts]: "UserStatusExpired = ''expired''"
definition TenantStatusActive :: string where [auth_consts]: "TenantStatusActive = ''active''"
definition TenantStatusInactive :: string where [auth_consts]: "TenantStatusInactive = ''inactive''"
definition TenantStatusSuspended :: string where [auth_consts]: "TenantStatusSuspended = ''suspended''"
definition TenantStatusTrial :: string where [auth_consts]: "TenantStatusTrial = ''trial''"
definition TenantStatusExpired :: string where [auth_consts]: "TenantStatusExpired = ''expired''"
definition UserTenantStatusActive :: string where [auth_consts]: "UserTenantStatusActive = ''active''"
definition UserTenantStatusInactive :: string where [auth_consts]: "UserTenantStatusInactive = ''inactive''"
definition UserTenantStatusPending :: string where [auth_consts]: "UserTenantStatusPending = ''pending''"
definition UserTenantStatusRevoked :: string where [auth_consts]: "UserTenantStatusRevoked = ''revoked''"
definition TokenTypeAccess :: string where [auth_consts]: "TokenTypeAccess = ''access''"
definition TokenTypeRefresh :: string where [auth_consts]: "TokenTypeRefresh = ''refresh''"
definition TokenTypeAPI :: string where [auth_consts]: "TokenTypeAPI = ''api''"
definition AuthTypePassword :: string where [auth_consts]: "AuthTypePassword = ''password''"
definition AuthTypeAPIKey :: string where [auth_consts]: "AuthTypeAPIKey = ''api_key''"
definition AuthTypeToken :: string where [auth_consts]: "AuthTypeToken = ''token''"

section \<open>Records\<close>

text \<open>A pointer is an option; a map is a partial function, and nil and the empty map are the same.\<close>

record User =
  U_ID :: uuid
  U_Username :: string
  U_Email :: string
  U_PasswordHash :: string
  U_FirstName :: string
  U_LastName :: string
  U_Status :: string
  U_Roles :: "Role list"
  U_Permissions :: "Permission list"
  U_Metadata :: "string \<rightharpoonup> string"
  U_CreatedAt :: time
  U_UpdatedAt :: time
  U_LastLoginAt :: "time option"
  U_ExpiresAt :: "time option"

record PasswordPolicy =
  PP_MinLength :: int
  PP_RequireUppercase :: bool
  PP_RequireLowercase :: bool
  PP_RequireNumbers :: bool
  PP_RequireSymbols :: bool
  PP_MaxAge :: "duration option"
  PP_PreventReuse :: int

record SecuritySettings =
  SS_AllowedIPs :: "string list"
  SS_BlockedIPs :: "string list"
  SS_MaxLoginAttempts :: int
  SS_LockoutDuration :: duration
  SS_RequireHTTPS :: bool
  SS_CORSOrigins :: "string list"

record TenantSettings =
  TS_MaxUsers :: int
  TS_MaxStorage :: int
  TS_MaxAPIRequests :: int
  TS_AllowedDomains :: "string list"
  TS_RequireMFA :: bool
  TS_SessionTimeout :: duration
  TS_PasswordPolicy :: PasswordPolicy
  TS_SecuritySettings :: SecuritySettings

record Tenant =
  T_ID :: uuid
  T_Name :: string
  T_DisplayName :: string
  T_Domain :: string
  T_Status :: string
  T_Settings :: TenantSettings
  T_Metadata :: "string \<rightharpoonup> string"
  T_CreatedAt :: time
  T_UpdatedAt :: time
  T_ExpiresAt :: "time option"

record UserTenant =
  UT_UserID :: uuid
  UT_TenantID :: uuid
  UT_Role :: TenantRole
  UT_Status :: string
  UT_CreatedAt :: time
  UT_UpdatedAt :: time

record TenantUser =
  TU_User :: "User option"
  TU_Role :: TenantRole
  TU_Status :: string
  TU_CreatedAt :: time

text \<open>The registered claims of a token and the claims of the program.\<close>

record RegisteredClaims =
  RC_Issuer :: string
  RC_Subject :: string
  RC_Audience :: "string list"
  RC_ExpiresAt :: "time option"
  RC_NotBefore :: "time option"
  RC_IssuedAt :: "time option"
  RC_ID :: string

record Claims =
  C_UserID :: uuid
  C_Username :: string
  C_Email :: string
  C_TenantID :: uuid
  C_Roles :: "Role list"
  C_TenantRole :: TenantRole
  C_Permissions :: "Permission list"
  C_Scopes :: "string list"
  C_TokenID :: string
  C_TokenType :: string
  C_Registered :: RegisteredClaims

record AuthRequest =
  AR_Type :: string
  AR_Username :: string
  AR_Email :: string
  AR_Password :: string
  AR_APIKey :: string
  AR_Token :: string
  AR_TenantID :: uuid
  AR_ExpiresIn :: "duration option"
  AR_Scopes :: "string list"

record AuthResponse =
  AP_AccessToken :: string
  AP_RefreshToken :: string
  AP_TokenType :: string
  AP_ExpiresIn :: int
  AP_ExpiresAt :: time
  AP_User :: User
  AP_Tenant :: "Tenant option"
  AP_Scopes :: "string list"

record CreateUserRequest =
  CU_Username :: string
  CU_Email :: string
  CU_Password :: string
  CU_FirstName :: string
  CU_LastName :: string
  CU_Roles :: "Role list"
  CU_TenantID :: "uuid option"
  CU_TenantRole :: "TenantRole option"
  CU_Metadata :: "string \<rightharpoonup> string"
  CU_ExpiresAt :: "time option"

record UpdateUserRequest =
  UU_Username :: "string option"
  UU_Email :: "string option"
  UU_FirstName :: "string option"
  UU_LastName :: "string option"
  UU_Status :: "string option"
  UU_Metadata :: "(string \<rightharpoonup> string) option"
  UU_ExpiresAt :: "time option"

record CreateTenantRequest =
  CT_Name :: string
  CT_DisplayName :: string
  CT_Domain :: string
  CT_Settings :: "TenantSettings option"
  CT_Metadata :: "string \<rightharpoonup> string"
  CT_AdminUser :: "CreateUserRequest option"

record UserFilter =
  UF_TenantID :: "uuid option"
  UF_Status :: "string option"
  UF_Role :: "Role option"
  UF_Search :: string
  UF_Limit :: int
  UF_Offset :: int

record TenantFilter =
  TF_Status :: "string option"
  TF_Domain :: string
  TF_Search :: string
  TF_Limit :: int
  TF_Offset :: int

record AuthMetrics =
  AM_TotalUsers :: int
  AM_ActiveUsers :: int
  AM_TotalTenants :: int
  AM_ActiveTenants :: int
  AM_TotalLogins :: int
  AM_FailedLogins :: int
  AM_ActiveSessions :: int
  AM_TokensIssued :: int
  AM_TokensRevoked :: int
  AM_AverageSessionLength :: duration
  AM_LoginsByHour :: "int \<rightharpoonup> int"
  AM_FailureReasons :: "string \<rightharpoonup> int"
  AM_LastUpdated :: time

text \<open>The errors of the package; \<open>AuthText\<close> is an error that has a text only, and \<open>AuthWrap\<close> one that wraps another.\<close>

datatype auth_error =
    ErrInvalidCredentials | ErrUserNotFound | ErrUserInactive | ErrUserSuspended | ErrUserExpired
  | ErrInvalidToken | ErrTokenRevoked | ErrPermissionDenied | ErrTenantNotFound | ErrTenantInactive
  | ErrUserAlreadyExists | ErrTenantAlreadyExists | ErrWeakPassword | ErrTooManyAttempts
  | AuthText string | AuthWrap string auth_error

definition second :: duration where
  "second = 1000000000"

definition DefaultTenantSettings :: TenantSettings where
  "DefaultTenantSettings =
     \<lparr>TS_MaxUsers = 100, TS_MaxStorage = 10 * 1024 * 1024 * 1024, TS_MaxAPIRequests = 10000, TS_AllowedDomains = [],
      TS_RequireMFA = False, TS_SessionTimeout = 24 * 3600 * second,
      TS_PasswordPolicy =
        \<lparr>PP_MinLength = 8, PP_RequireUppercase = True, PP_RequireLowercase = True, PP_RequireNumbers = True,
         PP_RequireSymbols = False, PP_MaxAge = None, PP_PreventReuse = 5\<rparr>,
      TS_SecuritySettings =
        \<lparr>SS_AllowedIPs = [], SS_BlockedIPs = [], SS_MaxLoginAttempts = 5, SS_LockoutDuration = 15 * 60 * second,
         SS_RequireHTTPS = True, SS_CORSOrigins = []\<rparr>\<rparr>"

section \<open>What roles grant\<close>

text \<open>The declared permissions are those of the super administrator.\<close>

definition all_permissions :: "Permission list" where
  "all_permissions = GetRolePermissions RoleSuperAdmin"

text \<open>A permission is granted when a role of the user, or the role in the tenant, has it.\<close>

definition granted :: "Role list \<Rightarrow> TenantRole \<Rightarrow> Permission set" where
  "granted roles tr = (\<Union>r \<in> set roles. set (GetRolePermissions r)) \<union> set (GetTenantRolePermissions tr)"

lemma role_permissions_declared: "set (GetRolePermissions r) \<subseteq> set all_permissions"
  by (auto simp: GetRolePermissions_def all_permissions_def)

lemma tenant_permissions_declared: "set (GetTenantRolePermissions r) \<subseteq> set all_permissions"
  by (auto simp: GetRolePermissions_def GetTenantRolePermissions_def all_permissions_def)

lemma granted_declared: "granted roles tr \<subseteq> set all_permissions"
  unfolding granted_def using role_permissions_declared tenant_permissions_declared by blast

end
