(* ===== verification/Auth_Stores.thy ===== *)
theory Auth_Stores imports Auth_Types begin

text \<open>
  The stores in memory of the authentication package (\<^verbatim>\<open>pkg/auth/memory_store.go\<close>), which hold users,
  tenants and who belongs to which tenant.  A store returns copies of its records, so records are
  values here; only the slices inside a record are shared, and the program replaces them.

  Where the code ranges over a map, the order of its keys is an argument.  The locale \<open>user_store\<close>
  says what the service relies on; the lemmas inside it carry uniqueness of names and addresses over
  the operations, and the store in memory is its interpretation.
\<close>

section \<open>Users\<close>

type_synonym users = "uuid \<rightharpoonup> User"

text \<open>The values a range over a map visits.\<close>

definition range_values :: "'k list \<Rightarrow> ('k \<rightharpoonup> 'v) \<Rightarrow> 'v list" where
  "range_values order m = List.map_filter m order"

lemma set_range_values: "set (range_values order m) = {v. \<exists>k \<in> set order. m k = Some v}"
  by (induction order) (auto simp: range_values_def List.map_filter_def)

definition same_login :: "User \<Rightarrow> User \<Rightarrow> bool" where
  "same_login u v \<longleftrightarrow> U_Email u = U_Email v \<or> U_Username u = U_Username v"

definition store_CreateUser :: "uuid list \<Rightarrow> users \<Rightarrow> User \<Rightarrow> users option" where
  "store_CreateUser order users user =
     (if \<exists>v \<in> set (range_values order users). same_login v user then None else Some (users(U_ID user \<mapsto> user)))"

definition store_GetUserByEmail :: "uuid list \<Rightarrow> users \<Rightarrow> string \<Rightarrow> User option" where
  "store_GetUserByEmail order users email = find (\<lambda>u. U_Email u = email) (range_values order users)"

definition store_GetUserByUsername :: "uuid list \<Rightarrow> users \<Rightarrow> string \<Rightarrow> User option" where
  "store_GetUserByUsername order users name = find (\<lambda>u. U_Username u = name) (range_values order users)"

definition store_UpdateUser :: "time \<Rightarrow> users \<Rightarrow> User \<Rightarrow> users option" where
  "store_UpdateUser now users user =
     (case users (U_ID user) of
        None \<Rightarrow> None
      | Some _ \<Rightarrow> Some (users(U_ID user \<mapsto> user\<lparr>U_UpdatedAt := now\<rparr>)))"

definition store_DeleteUser :: "users \<Rightarrow> uuid \<Rightarrow> users option" where
  "store_DeleteUser users userID = (case users userID of None \<Rightarrow> None | Some _ \<Rightarrow> Some (users(userID := None)))"

section \<open>Lists and pages\<close>

text \<open>The slice at the end of both list operations; \<open>None\<close> is the panic of a negative offset.\<close>

definition paginate :: "int \<Rightarrow> int \<Rightarrow> 'a list \<Rightarrow> 'a list option" where
  "paginate offset limit xs =
     (let n = int (length xs);
          start = (if offset > n then n else offset);
          stop = (if limit = 0 \<or> start + limit > n then n else start + limit)
      in if start < stop then go_slice xs start stop else Some [])"

text \<open>Whether a lower-case text occurs in one of the fields, whose lower case \<open>lower\<close> computes.\<close>

definition matches_search :: "(string \<Rightarrow> string) \<Rightarrow> string \<Rightarrow> string list \<Rightarrow> bool" where
  "matches_search lower search texts \<longleftrightarrow> search = [] \<or> (\<exists>f \<in> set texts. str_contains (lower f) (lower search))"

definition user_passes :: "(string \<Rightarrow> string) \<Rightarrow> UserFilter \<Rightarrow> User \<Rightarrow> bool" where
  "user_passes lower f user \<longleftrightarrow>
     (case UF_Status f of None \<Rightarrow> True | Some st \<Rightarrow> U_Status user = st) \<and>
     (case UF_Role f of None \<Rightarrow> True | Some r \<Rightarrow> r \<in> set (U_Roles user)) \<and>
     matches_search lower (UF_Search f) [U_Username user, U_Email user, U_FirstName user, U_LastName user]"

definition ListUsers :: "(string \<Rightarrow> string) \<Rightarrow> uuid list \<Rightarrow> users \<Rightarrow> UserFilter option \<Rightarrow> (auth_error, User list) outcome" where
  "ListUsers lower order users flt =
     (case flt of
        None \<Rightarrow> Ok (range_values order users)
      | Some f \<Rightarrow>
          (case paginate (UF_Offset f) (UF_Limit f) (filter (user_passes lower f) (range_values order users)) of
             None \<Rightarrow> Panic | Some us \<Rightarrow> Ok us))"

section \<open>Tenants\<close>

record tenant_store =
  TN_tenants :: "uuid \<rightharpoonup> Tenant"
  TN_userTenants :: "uuid \<Rightarrow> UserTenant list"
  TN_tenantUsers :: "uuid \<Rightarrow> TenantUser list"

definition empty_tenants :: tenant_store where
  "empty_tenants = \<lparr>TN_tenants = Map.empty, TN_userTenants = (\<lambda>_. []), TN_tenantUsers = (\<lambda>_. [])\<rparr>"

definition same_tenant :: "Tenant \<Rightarrow> Tenant \<Rightarrow> bool" where
  "same_tenant t tenant \<longleftrightarrow> T_Name t = T_Name tenant \<or> T_Domain tenant \<noteq> [] \<and> T_Domain t = T_Domain tenant"

definition store_CreateTenant :: "uuid list \<Rightarrow> tenant_store \<Rightarrow> Tenant \<Rightarrow> tenant_store option" where
  "store_CreateTenant order s tenant =
     (if \<exists>t \<in> set (range_values order (TN_tenants s)). same_tenant t tenant then None
      else Some (s\<lparr>TN_tenants := (TN_tenants s)(T_ID tenant \<mapsto> tenant)\<rparr>))"

definition store_UpdateTenant :: "time \<Rightarrow> tenant_store \<Rightarrow> Tenant \<Rightarrow> tenant_store option" where
  "store_UpdateTenant now s tenant =
     (case TN_tenants s (T_ID tenant) of
        None \<Rightarrow> None
      | Some _ \<Rightarrow> Some (s\<lparr>TN_tenants := (TN_tenants s)(T_ID tenant \<mapsto> tenant\<lparr>T_UpdatedAt := now\<rparr>)\<rparr>))"

definition store_DeleteTenant :: "tenant_store \<Rightarrow> uuid \<Rightarrow> tenant_store option" where
  "store_DeleteTenant s tenantID =
     (case TN_tenants s tenantID of
        None \<Rightarrow> None
      | Some _ \<Rightarrow>
          Some (s\<lparr>TN_tenants := (TN_tenants s)(tenantID := None),
            TN_tenantUsers := (TN_tenantUsers s)(tenantID := []),
            TN_userTenants := (\<lambda>u. filter (\<lambda>ut. UT_TenantID ut \<noteq> tenantID) (TN_userTenants s u))\<rparr>))"

definition tenant_passes :: "(string \<Rightarrow> string) \<Rightarrow> TenantFilter \<Rightarrow> Tenant \<Rightarrow> bool" where
  "tenant_passes lower f tenant \<longleftrightarrow>
     (case TF_Status f of None \<Rightarrow> True | Some st \<Rightarrow> T_Status tenant = st) \<and>
     (TF_Domain f = [] \<or> T_Domain tenant = TF_Domain f) \<and>
     matches_search lower (TF_Search f) [T_Name tenant, T_DisplayName tenant, T_Domain tenant]"

definition ListTenants :: "(string \<Rightarrow> string) \<Rightarrow> uuid list \<Rightarrow> tenant_store \<Rightarrow> TenantFilter option \<Rightarrow> (auth_error, Tenant list) outcome" where
  "ListTenants lower order s flt =
     (case flt of
        None \<Rightarrow> Ok (range_values order (TN_tenants s))
      | Some f \<Rightarrow>
          (case paginate (TF_Offset f) (TF_Limit f) (filter (tenant_passes lower f) (range_values order (TN_tenants s))) of
             None \<Rightarrow> Panic | Some ts \<Rightarrow> Ok ts))"

text \<open>The first relation of the user to the tenant is renewed; its entry among the users of the tenant is not.\<close>

primrec renew_relation :: "time \<Rightarrow> uuid \<Rightarrow> TenantRole \<Rightarrow> UserTenant list \<Rightarrow> UserTenant list option" where
  "renew_relation now tenantID role [] = None"
| "renew_relation now tenantID role (ut # uts) =
     (if UT_TenantID ut = tenantID
      then Some (ut\<lparr>UT_Role := role, UT_Status := UserTenantStatusActive, UT_UpdatedAt := now\<rparr> # uts)
      else map_option ((#) ut) (renew_relation now tenantID role uts))"

definition store_AddUserToTenant :: "time \<Rightarrow> tenant_store \<Rightarrow> uuid \<Rightarrow> uuid \<Rightarrow> TenantRole \<Rightarrow> tenant_store option" where
  "store_AddUserToTenant now s userID tenantID role =
     (case TN_tenants s tenantID of
        None \<Rightarrow> None
      | Some _ \<Rightarrow>
          (case renew_relation now tenantID role (TN_userTenants s userID) of
             Some uts \<Rightarrow> Some (s\<lparr>TN_userTenants := (TN_userTenants s)(userID := uts)\<rparr>)
           | None \<Rightarrow>
               Some (s\<lparr>TN_userTenants := (TN_userTenants s)(userID := TN_userTenants s userID @
                   [\<lparr>UT_UserID = userID, UT_TenantID = tenantID, UT_Role = role, UT_Status = UserTenantStatusActive,
                     UT_CreatedAt = now, UT_UpdatedAt = now\<rparr>]),
                 TN_tenantUsers := (TN_tenantUsers s)(tenantID := TN_tenantUsers s tenantID @
                   [\<lparr>TU_User = None, TU_Role = role, TU_Status = UserTenantStatusActive, TU_CreatedAt = now\<rparr>])\<rparr>)))"

definition store_RemoveUserFromTenant :: "tenant_store \<Rightarrow> uuid \<Rightarrow> uuid \<Rightarrow> tenant_store" where
  "store_RemoveUserFromTenant s userID tenantID =
     s\<lparr>TN_userTenants := (TN_userTenants s)(userID := filter (\<lambda>ut. UT_TenantID ut \<noteq> tenantID) (TN_userTenants s userID)),
       TN_tenantUsers := (TN_tenantUsers s)(tenantID :=
         filter (\<lambda>tu. case TU_User tu of None \<Rightarrow> False | Some u \<Rightarrow> U_ID u \<noteq> userID) (TN_tenantUsers s tenantID))\<rparr>"

section \<open>Initial data\<close>

definition seed_hash :: string where
  "seed_hash = ''$2a$12$LCfGI4o5c7KnQlLHYiEjUeJNw9rQ8xKHG7cHlKW8Xr7D8kPqL6Y9O''"

definition seed_user :: "time \<Rightarrow> uuid \<Rightarrow> string \<Rightarrow> string \<Rightarrow> string \<Rightarrow> string \<Rightarrow> Role \<Rightarrow> User" where
  "seed_user now i name email firstName lastName role =
     \<lparr>U_ID = i, U_Username = name, U_Email = email, U_PasswordHash = seed_hash, U_FirstName = firstName, U_LastName = lastName,
      U_Status = UserStatusActive, U_Roles = [role], U_Permissions = GetRolePermissions role, U_Metadata = Map.empty,
      U_CreatedAt = now, U_UpdatedAt = now, U_LastLoginAt = None, U_ExpiresAt = None\<rparr>"

definition SeedUsers :: "time \<Rightarrow> uuid \<Rightarrow> uuid \<Rightarrow> users \<Rightarrow> users" where
  "SeedUsers now i j users =
     users(i \<mapsto> seed_user now i ''admin'' ''admin@example.com'' ''System'' ''Administrator'' RoleSuperAdmin,
       j \<mapsto> seed_user now j ''testuser'' ''test@example.com'' ''Test'' ''User'' RoleUser)"

definition SeedTenants :: "time \<Rightarrow> uuid \<Rightarrow> tenant_store \<Rightarrow> tenant_store" where
  "SeedTenants now i s =
     s\<lparr>TN_tenants := (TN_tenants s)(i \<mapsto>
       \<lparr>T_ID = i, T_Name = ''default'', T_DisplayName = ''Default Organization'', T_Domain = ''default.local'',
        T_Status = TenantStatusActive, T_Settings = DefaultTenantSettings, T_Metadata = Map.empty,
        T_CreatedAt = now, T_UpdatedAt = now, T_ExpiresAt = None\<rparr>)\<rparr>"

section \<open>The contract of a user store\<close>

text \<open>Users are stored under their identifiers, no two share a name or an address, and each has a property.\<close>

definition keyed_users :: "users \<Rightarrow> bool" where
  "keyed_users us \<longleftrightarrow> (\<forall>i u. us i = Some u \<longrightarrow> U_ID u = i)"

definition unique_logins :: "users \<Rightarrow> bool" where
  "unique_logins us \<longleftrightarrow> (\<forall>i j u v. us i = Some u \<longrightarrow> us j = Some v \<longrightarrow> same_login u v \<longrightarrow> i = j)"

definition each_user :: "(User \<Rightarrow> bool) \<Rightarrow> users \<Rightarrow> bool" where
  "each_user P us \<longleftrightarrow> (\<forall>i u. us i = Some u \<longrightarrow> P u)"

lemma same_login_sym: "same_login u v = same_login v u"
  by (auto simp: same_login_def)

text \<open>\<open>complete\<close> says that a range over the store visits every user, which it does in the code.\<close>

locale user_store =
  fixes get :: "'s \<Rightarrow> users"
    and create :: "'s \<Rightarrow> User \<Rightarrow> 's option"
    and update :: "'s \<Rightarrow> User \<Rightarrow> 's option"
    and delete :: "'s \<Rightarrow> uuid \<Rightarrow> 's option"
    and stamp :: "User \<Rightarrow> User"
    and complete :: "'s \<Rightarrow> bool"
  assumes create_law: "create s u = Some s' \<Longrightarrow> complete s \<Longrightarrow>
      get s' = (get s)(U_ID u \<mapsto> u) \<and> (\<forall>i v. get s i = Some v \<longrightarrow> \<not> same_login v u)"
    and update_law: "update s u = Some s' \<Longrightarrow> get s (U_ID u) \<noteq> None \<and> get s' = (get s)(U_ID u \<mapsto> stamp u)"
    and delete_law: "delete s i = Some s' \<Longrightarrow> get s' = (get s)(i := None)"
    and stamp_law: "U_ID (stamp u) = U_ID u" "same_login (stamp u) v = same_login u v"
begin

lemma create_keeps:
  assumes "create s u = Some s'" and "complete s"
  shows "keyed_users (get s) \<Longrightarrow> keyed_users (get s')" and "unique_logins (get s) \<Longrightarrow> unique_logins (get s')"
    and "each_user P (get s) \<Longrightarrow> P u \<Longrightarrow> each_user P (get s')"
  using create_law [OF assms] same_login_sym
  by (auto simp: keyed_users_def unique_logins_def each_user_def split: if_splits)

text \<open>An update keeps logins unique if it does not change the login of the user.\<close>

lemma update_keeps:
  assumes "update s u = Some s'"
  shows "keyed_users (get s) \<Longrightarrow> keyed_users (get s')" and "each_user P (get s) \<Longrightarrow> P (stamp u) \<Longrightarrow> each_user P (get s')"
  using update_law [OF assms] stamp_law(1) by (auto simp: keyed_users_def each_user_def split: if_splits)

lemma update_keeps_unique:
  assumes "update s u = Some s'" and "unique_logins (get s)"
    and "get s (U_ID u) = Some v" and "U_Email v = U_Email u" and "U_Username v = U_Username u"
  shows "unique_logins (get s')"
  unfolding unique_logins_def
proof (intro allI impI)
  have l: "same_login (stamp u) w = same_login v w" for w using assms(4,5) stamp_law(2) by (simp add: same_login_def)
  then have l': "same_login w (stamp u) = same_login w v" for w using same_login_sym by blast
  fix i j w x
  assume "get s' i = Some w" "get s' j = Some x" "same_login w x"
  then show "i = j"
    using assms(2,3) update_law [OF assms(1)] l l' unfolding unique_logins_def
    by (cases "i = U_ID u"; cases "j = U_ID u"; auto)
qed

lemma delete_keeps:
  assumes "delete s i = Some s'"
  shows "keyed_users (get s) \<Longrightarrow> keyed_users (get s')" and "unique_logins (get s) \<Longrightarrow> unique_logins (get s')"
    and "each_user P (get s) \<Longrightarrow> each_user P (get s')"
  using delete_law [OF assms] by (auto simp: keyed_users_def unique_logins_def each_user_def split: if_splits)

end

interpretation memory_users: user_store "\<lambda>s. s" "store_CreateUser order" "store_UpdateUser now" store_DeleteUser
    "\<lambda>u. u\<lparr>U_UpdatedAt := now\<rparr>" "\<lambda>s. dom s \<subseteq> set order" for order :: "uuid list" and now :: time
  by unfold_locales
    (auto simp: store_CreateUser_def store_UpdateUser_def store_DeleteUser_def same_login_def set_range_values
      split: if_splits option.splits)

text \<open>What a lookup returns.\<close>

lemma find_range_Some: "find P (range_values order m) = Some v \<Longrightarrow> P v \<and> (\<exists>k. m k = Some v)"
  using set_range_values [of order m] by (fastforce simp: find_Some_iff in_set_conv_nth)

lemma GetUserByEmail_Some: "store_GetUserByEmail order us e = Some u \<Longrightarrow> U_Email u = e \<and> (\<exists>i. us i = Some u)"
  unfolding store_GetUserByEmail_def by (drule find_range_Some) simp

lemma GetUserByUsername_Some: "store_GetUserByUsername order us n = Some u \<Longrightarrow> U_Username u = n \<and> (\<exists>i. us i = Some u)"
  unfolding store_GetUserByUsername_def by (drule find_range_Some) simp

end
