(* ===== verification/Auth_Tokens.thy ===== *)
theory Auth_Tokens imports Auth_Types begin

text \<open>
  The token manager (\<^verbatim>\<open>pkg/auth/jwt_manager.go\<close>).  The library of JSON web tokens is third-party code
  and a parameter, the record \<open>jwt_library\<close>: \<open>sign\<close> is \<^verbatim>\<open>SignedString\<close> with the private key of the
  manager, \<open>parse\<close> is \<^verbatim>\<open>ParseWithClaims\<close> with the public key at a time (which checks the signature and
  the dates), \<open>peek\<close> is \<^verbatim>\<open>ParseUnverified\<close>, and \<open>numeric_date\<close> the rounding of \<^verbatim>\<open>NewNumericDate\<close>.

  The lemmas: what a pair of tokens grants, what a refreshed token carries, and how long a revocation
  lasts while the clean-up of the revocation list runs.
\<close>

record jwt_library =
  numeric_date :: "time \<Rightarrow> time"
  sign :: "Claims \<Rightarrow> string option"
  parse :: "time \<Rightarrow> string \<Rightarrow> Claims option"
  peek :: "string \<Rightarrow> Claims option"

section \<open>The manager\<close>

record JWTConfig =
  JC_PrivateKeyPEM :: string
  JC_PublicKeyPEM :: string
  JC_Issuer :: string
  JC_AccessTTL :: duration
  JC_RefreshTTL :: duration
  JC_KeySize :: int

definition DefaultJWTConfig :: JWTConfig where
  "DefaultJWTConfig =
     \<lparr>JC_PrivateKeyPEM = [], JC_PublicKeyPEM = [], JC_Issuer = ''eai-ingest'', JC_AccessTTL = 15 * 60 * second,
      JC_RefreshTTL = 7 * 24 * 3600 * second, JC_KeySize = 2048\<rparr>"

record JWTManager =
  JM_issuer :: string
  JM_accessTTL :: duration
  JM_refreshTTL :: duration
  JM_revokedTokens :: "string \<rightharpoonup> time"

text \<open>\<open>keys\<close> loads or makes the keys; its result is the error, if any.\<close>

definition NewJWTManager :: "(JWTConfig \<Rightarrow> auth_error option) \<Rightarrow> JWTConfig option \<Rightarrow> (auth_error, JWTManager) outcome" where
  "NewJWTManager keys config =
     (let c = (case config of None \<Rightarrow> DefaultJWTConfig | Some c \<Rightarrow> c)
      in case keys c of
           Some e \<Rightarrow> Err (AuthWrap ''failed to initialize keys'' e)
         | None \<Rightarrow> Ok \<lparr>JM_issuer = JC_Issuer c, JM_accessTTL = JC_AccessTTL c, JM_refreshTTL = JC_RefreshTTL c,
                     JM_revokedTokens = Map.empty\<rparr>)"

definition year :: duration where
  "year = 365 * 24 * 3600 * second"

definition getTokenTTL :: "JWTManager \<Rightarrow> string \<Rightarrow> duration" where
  "getTokenTTL m tokenType =
     (if tokenType = TokenTypeAccess then JM_accessTTL m
      else if tokenType = TokenTypeRefresh then JM_refreshTTL m
      else if tokenType = TokenTypeAPI then year
      else JM_accessTTL m)"

definition registered :: "jwt_library \<Rightarrow> JWTManager \<Rightarrow> time \<Rightarrow> time \<Rightarrow> uuid \<Rightarrow> string \<Rightarrow> RegisteredClaims" where
  "registered lib m now expires userID tokenID =
     \<lparr>RC_Issuer = JM_issuer m, RC_Subject = userID, RC_Audience = [JM_issuer m],
      RC_ExpiresAt = Some (numeric_date lib expires), RC_NotBefore = Some (numeric_date lib now),
      RC_IssuedAt = Some (numeric_date lib now), RC_ID = tokenID\<rparr>"

text \<open>The claims as they are signed; \<open>fresh\<close> is the new identifier that is drawn when there is none.\<close>

definition stamped_claims :: "jwt_library \<Rightarrow> JWTManager \<Rightarrow> time \<Rightarrow> string \<Rightarrow> Claims \<Rightarrow> Claims" where
  "stamped_claims lib m now fresh claims =
     (let tokenID = (if C_TokenID claims = [] then fresh else C_TokenID claims)
      in claims\<lparr>C_TokenID := tokenID,
           C_Registered := registered lib m now (now + getTokenTTL m (C_TokenType claims)) (C_UserID claims) tokenID\<rparr>)"

definition sign_token :: "jwt_library \<Rightarrow> Claims \<Rightarrow> (auth_error, string) outcome" where
  "sign_token lib claims = (case sign lib claims of None \<Rightarrow> Err (AuthText ''failed to sign token'') | Some t \<Rightarrow> Ok t)"

definition GenerateToken :: "jwt_library \<Rightarrow> JWTManager \<Rightarrow> time \<Rightarrow> string \<Rightarrow> Claims option \<Rightarrow> (auth_error, string) outcome" where
  "GenerateToken lib m now fresh claims =
     (case claims of
        None \<Rightarrow> Err (AuthText ''claims cannot be nil'')
      | Some c \<Rightarrow> sign_token lib (stamped_claims lib m now fresh c))"

definition IsTokenRevoked :: "JWTManager \<Rightarrow> string \<Rightarrow> bool" where
  "IsTokenRevoked m tokenID \<longleftrightarrow> JM_revokedTokens m tokenID \<noteq> None"

definition ValidateToken :: "jwt_library \<Rightarrow> JWTManager \<Rightarrow> time \<Rightarrow> string \<Rightarrow> (auth_error, Claims) outcome" where
  "ValidateToken lib m now tokenString =
     (case parse lib now tokenString of
        None \<Rightarrow> Err (AuthText ''failed to parse token'')
      | Some claims \<Rightarrow> if IsTokenRevoked m (C_TokenID claims) then Err ErrTokenRevoked else Ok claims)"

definition no_registered :: RegisteredClaims where
  "no_registered =
     \<lparr>RC_Issuer = [], RC_Subject = [], RC_Audience = [], RC_ExpiresAt = None, RC_NotBefore = None, RC_IssuedAt = None, RC_ID = []\<rparr>"

definition refreshed_claims :: "Claims \<Rightarrow> Claims" where
  "refreshed_claims claims =
     \<lparr>C_UserID = C_UserID claims, C_Username = C_Username claims, C_Email = C_Email claims, C_TenantID = C_TenantID claims,
      C_Roles = C_Roles claims, C_TenantRole = C_TenantRole claims, C_Permissions = C_Permissions claims,
      C_Scopes = C_Scopes claims, C_TokenID = [], C_TokenType = TokenTypeAccess, C_Registered = no_registered\<rparr>"

definition JWTRefreshToken :: "jwt_library \<Rightarrow> JWTManager \<Rightarrow> time \<Rightarrow> string \<Rightarrow> string \<Rightarrow> (auth_error, string) outcome" where
  "JWTRefreshToken lib m now fresh tokenString =
     bind_outcome (ValidateToken lib m now tokenString) (\<lambda>claims.
       if C_TokenType claims \<noteq> TokenTypeRefresh then Err (AuthText ''token is not a refresh token'')
       else GenerateToken lib m now fresh (Some (refreshed_claims claims)))"

definition ExtractClaims :: "jwt_library \<Rightarrow> string \<Rightarrow> (auth_error, Claims) outcome" where
  "ExtractClaims lib tokenString =
     (case peek lib tokenString of None \<Rightarrow> Err (AuthText ''failed to parse token'') | Some c \<Rightarrow> Ok c)"

definition JWTRevokeToken :: "JWTManager \<Rightarrow> time \<Rightarrow> string \<Rightarrow> JWTManager" where
  "JWTRevokeToken m now tokenID = m\<lparr>JM_revokedTokens := (JM_revokedTokens m)(tokenID \<mapsto> now)\<rparr>"

definition cleanupRevokedTokens :: "JWTManager \<Rightarrow> time \<Rightarrow> JWTManager" where
  "cleanupRevokedTokens m now =
     m\<lparr>JM_revokedTokens := (\<lambda>i. case JM_revokedTokens m i of
        None \<Rightarrow> None | Some at \<Rightarrow> if now - at > JM_refreshTTL m then None else Some at)\<rparr>"

definition api_claims :: "jwt_library \<Rightarrow> JWTManager \<Rightarrow> time \<Rightarrow> string \<Rightarrow> uuid \<Rightarrow> uuid \<Rightarrow> string list \<Rightarrow> time option \<Rightarrow> Claims" where
  "api_claims lib m now fresh userID tenantID scopes expiresAt =
     \<lparr>C_UserID = userID, C_Username = [], C_Email = [], C_TenantID = tenantID, C_Roles = [], C_TenantRole = [],
      C_Permissions = [], C_Scopes = scopes, C_TokenID = fresh, C_TokenType = TokenTypeAPI,
      C_Registered = registered lib m now (case expiresAt of None \<Rightarrow> now + year | Some e \<Rightarrow> e) userID fresh\<rparr>"

definition GenerateAPIKey :: "jwt_library \<Rightarrow> JWTManager \<Rightarrow> time \<Rightarrow> string \<Rightarrow> uuid \<Rightarrow> uuid \<Rightarrow> string list \<Rightarrow> time option \<Rightarrow>
    (auth_error, string) outcome" where
  "GenerateAPIKey lib m now fresh userID tenantID scopes expiresAt =
     sign_token lib (api_claims lib m now fresh userID tenantID scopes expiresAt)"

definition ValidateAPIKey :: "jwt_library \<Rightarrow> JWTManager \<Rightarrow> time \<Rightarrow> string \<Rightarrow> (auth_error, Claims) outcome" where
  "ValidateAPIKey lib m now tokenString =
     bind_outcome (ValidateToken lib m now tokenString) (\<lambda>claims.
       if C_TokenType claims \<noteq> TokenTypeAPI then Err (AuthText ''token is not an API key'') else Ok claims)"

text \<open>The permissions without those that occurred before; \<open>seen\<close> is the map of the loop.\<close>

primrec unique_permissions :: "(Permission \<Rightarrow> bool) \<Rightarrow> Permission list \<Rightarrow> Permission list" where
  "unique_permissions seen [] = []"
| "unique_permissions seen (p # ps) =
     (if \<not> seen p then p # unique_permissions (seen(p := True)) ps else unique_permissions seen ps)"

definition pair_permissions :: "Role list \<Rightarrow> TenantRole \<Rightarrow> Permission list" where
  "pair_permissions roles tenantRole =
     unique_permissions (\<lambda>_. False) (concat (map GetRolePermissions roles) @ GetTenantRolePermissions tenantRole)"

definition access_claims :: "uuid \<Rightarrow> string \<Rightarrow> string \<Rightarrow> uuid \<Rightarrow> Role list \<Rightarrow> TenantRole \<Rightarrow> string list \<Rightarrow> Claims" where
  "access_claims userID username email tenantID roles tenantRole scopes =
     \<lparr>C_UserID = userID, C_Username = username, C_Email = email, C_TenantID = tenantID, C_Roles = roles,
      C_TenantRole = tenantRole, C_Permissions = pair_permissions roles tenantRole, C_Scopes = scopes,
      C_TokenID = [], C_TokenType = TokenTypeAccess, C_Registered = no_registered\<rparr>"

definition refresh_claims :: "uuid \<Rightarrow> string \<Rightarrow> string \<Rightarrow> uuid \<Rightarrow> Claims" where
  "refresh_claims userID username email tenantID =
     \<lparr>C_UserID = userID, C_Username = username, C_Email = email, C_TenantID = tenantID, C_Roles = [], C_TenantRole = [],
      C_Permissions = [], C_Scopes = [], C_TokenID = [], C_TokenType = TokenTypeRefresh, C_Registered = no_registered\<rparr>"

definition token_error :: "string \<Rightarrow> (auth_error, 'a) outcome \<Rightarrow> (auth_error, 'a) outcome" where
  "token_error text r = (case r of Err e \<Rightarrow> Err (AuthWrap text e) | _ \<Rightarrow> r)"

definition CreateTokenPair :: "jwt_library \<Rightarrow> JWTManager \<Rightarrow> time \<Rightarrow> string \<Rightarrow> string \<Rightarrow> uuid \<Rightarrow> string \<Rightarrow> string \<Rightarrow> uuid \<Rightarrow>
    Role list \<Rightarrow> TenantRole \<Rightarrow> string list \<Rightarrow> (auth_error, string \<times> string) outcome" where
  "CreateTokenPair lib m now fresh1 fresh2 userID username email tenantID roles tenantRole scopes =
     bind_outcome (token_error ''failed to generate access token''
         (GenerateToken lib m now fresh1 (Some (access_claims userID username email tenantID roles tenantRole scopes)))) (\<lambda>accessToken.
     bind_outcome (token_error ''failed to generate refresh token''
         (GenerateToken lib m now fresh2 (Some (refresh_claims userID username email tenantID)))) (\<lambda>refreshToken.
       Ok (accessToken, refreshToken)))"

section \<open>What tokens grant\<close>

lemma set_unique_permissions: "set (unique_permissions seen ps) = {p \<in> set ps. \<not> seen p}"
  by (induction ps arbitrary: seen) auto

lemma distinct_unique_permissions: "distinct (unique_permissions seen ps)"
  by (induction ps arbitrary: seen) (auto simp: set_unique_permissions)

lemma set_pair_permissions: "set (pair_permissions roles tr) = granted roles tr"
  by (auto simp: pair_permissions_def set_unique_permissions granted_def)

lemma stamped_simps [simp]:
  "C_UserID (stamped_claims lib m now fresh c) = C_UserID c" "C_TenantID (stamped_claims lib m now fresh c) = C_TenantID c"
  "C_Roles (stamped_claims lib m now fresh c) = C_Roles c" "C_TenantRole (stamped_claims lib m now fresh c) = C_TenantRole c"
  "C_Permissions (stamped_claims lib m now fresh c) = C_Permissions c" "C_Scopes (stamped_claims lib m now fresh c) = C_Scopes c"
  "C_TokenType (stamped_claims lib m now fresh c) = C_TokenType c"
  "C_TokenID c = [] \<Longrightarrow> C_TokenID (stamped_claims lib m now fresh c) = fresh"
  "RC_ExpiresAt (C_Registered (stamped_claims lib m now fresh c)) =
     Some (numeric_date lib (now + getTokenTTL m (C_TokenType c)))"
  by (simp_all add: stamped_claims_def registered_def Let_def)

lemma sign_token_Ok: "sign_token lib c = Ok t \<longleftrightarrow> sign lib c = Some t"
  by (simp add: sign_token_def split: option.splits)

lemma token_error_Ok: "token_error text r = Ok t \<longleftrightarrow> r = Ok t"
  by (cases r) (simp_all add: token_error_def)

lemma GenerateToken_Ok:
  "GenerateToken lib m now fresh (Some c) = Ok t \<longleftrightarrow> sign lib (stamped_claims lib m now fresh c) = Some t"
  by (simp add: GenerateToken_def sign_token_Ok)

lemma CreateTokenPair_Ok:
  "CreateTokenPair lib m now f1 f2 uid name email tid roles tr scopes = Ok (a, r) \<longleftrightarrow>
     sign lib (stamped_claims lib m now f1 (access_claims uid name email tid roles tr scopes)) = Some a \<and>
     sign lib (stamped_claims lib m now f2 (refresh_claims uid name email tid)) = Some r"
  by (auto simp: CreateTokenPair_def bind_outcome_iffs token_error_Ok GenerateToken_Ok)

lemma access_claims_simps [simp]:
  "C_UserID (access_claims uid name email tid roles tr scopes) = uid" "C_TenantID (access_claims uid name email tid roles tr scopes) = tid"
  "C_Roles (access_claims uid name email tid roles tr scopes) = roles" "C_TenantRole (access_claims uid name email tid roles tr scopes) = tr"
  "C_Permissions (access_claims uid name email tid roles tr scopes) = pair_permissions roles tr"
  "C_Scopes (access_claims uid name email tid roles tr scopes) = scopes" "C_TokenID (access_claims uid name email tid roles tr scopes) = []"
  "C_TokenType (access_claims uid name email tid roles tr scopes) = TokenTypeAccess"
  by (simp_all add: access_claims_def)

lemma refresh_claims_simps [simp]:
  "C_UserID (refresh_claims uid name email tid) = uid" "C_TenantID (refresh_claims uid name email tid) = tid"
  "C_Roles (refresh_claims uid name email tid) = []" "C_TenantRole (refresh_claims uid name email tid) = []"
  "C_Permissions (refresh_claims uid name email tid) = []" "C_Scopes (refresh_claims uid name email tid) = []"
  "C_TokenID (refresh_claims uid name email tid) = []" "C_TokenType (refresh_claims uid name email tid) = TokenTypeRefresh"
  by (simp_all add: refresh_claims_def)

text \<open>A library in which tokens are single bytes; it knows one refresh token and one API key.\<close>

definition sample_manager :: JWTManager where
  "sample_manager = \<lparr>JM_issuer = ''i'', JM_accessTTL = 10, JM_refreshTTL = 100, JM_revokedTokens = Map.empty\<rparr>"

definition sample_refresh :: Claims where
  "sample_refresh =
     (refresh_claims ''u'' ''n'' ''e'' ''t'')\<lparr>C_TokenID := ''2'', C_Registered :=
       \<lparr>RC_Issuer = ''i'', RC_Subject = ''u'', RC_Audience = [''i''], RC_ExpiresAt = Some 100, RC_NotBefore = Some 0,
        RC_IssuedAt = Some 0, RC_ID = ''2''\<rparr>\<rparr>"

definition sample_library :: jwt_library where
  "sample_library =
     \<lparr>numeric_date = id, sign = (\<lambda>c. Some (if c = sample_refresh then ''r'' else ''a'')),
      parse = (\<lambda>now t. if t = ''r'' \<and> now < 100 then Some sample_refresh else None), peek = (\<lambda>t. None)\<rparr>"

lemma sample_refresh_stamped:
  "stamped_claims sample_library sample_manager 0 ''2'' (refresh_claims ''u'' ''n'' ''e'' ''t'') = sample_refresh"
  by (simp add: stamped_claims_def registered_def sample_library_def sample_manager_def sample_refresh_def getTokenTTL_def
      auth_consts Let_def)

lemma sample_access: "C_TokenType c = TokenTypeAccess \<Longrightarrow> stamped_claims lib m now f c \<noteq> sample_refresh"
proof
  assume "C_TokenType c = TokenTypeAccess" and "stamped_claims lib m now f c = sample_refresh"
  then have "C_TokenType sample_refresh = TokenTypeAccess" by (metis stamped_simps(7))
  then show False by (simp add: sample_refresh_def auth_consts)
qed

lemma sample_pair:
  "CreateTokenPair sample_library sample_manager 0 ''1'' ''2'' ''u'' ''n'' ''e'' ''t'' [RoleViewer] [] [] = Ok (''a'', ''r'')"
  unfolding CreateTokenPair_Ok sample_refresh_stamped by (simp add: sample_library_def sample_access)

text \<open>A new access token carries exactly the permissions of the roles of the user and of the role in the
  tenant, each once and all of them declared ones; it expires after the lifetime of access tokens.
  The refresh token carries none.\<close>

theorem token_pair_grants:
  assumes "CreateTokenPair lib m now f1 f2 uid name email tid roles tr scopes = Ok (a, r)"
  shows "\<exists>ca cr. sign lib ca = Some a \<and> sign lib cr = Some r \<and>
     set (C_Permissions ca) = granted roles tr \<and> distinct (C_Permissions ca) \<and> set (C_Permissions ca) \<subseteq> set all_permissions \<and>
     C_UserID ca = uid \<and> C_TenantID ca = tid \<and> C_TokenType ca = TokenTypeAccess \<and>
     RC_ExpiresAt (C_Registered ca) = Some (numeric_date lib (now + JM_accessTTL m)) \<and>
     C_Permissions cr = [] \<and> C_TokenType cr = TokenTypeRefresh"
  using assms unfolding CreateTokenPair_Ok
  by (intro exI [of _ "stamped_claims lib m now f1 (access_claims uid name email tid roles tr scopes)"]
        exI [of _ "stamped_claims lib m now f2 (refresh_claims uid name email tid)"])
    (simp add: set_pair_permissions granted_declared getTokenTTL_def, simp add: pair_permissions_def distinct_unique_permissions)

theorem token_pair_grants_witness:
  "\<exists>ca. sign sample_library ca = Some ''a'' \<and> set (C_Permissions ca) = granted [RoleViewer] [] \<and> distinct (C_Permissions ca)"
proof -
  from token_pair_grants [OF sample_pair] show ?thesis by blast
qed

text \<open>Refreshing gives a token without any rights.  The refresh token that a login creates holds neither
  roles nor permissions nor scopes, and refreshing copies the claims of the refresh token.\<close>

theorem refreshed_token_powerless:
  assumes "CreateTokenPair lib m now f1 f2 uid name email tid roles tr scopes = Ok (a, r)"
    and "\<And>c d. parse lib later r = Some c \<Longrightarrow> sign lib d = Some r \<Longrightarrow> c = d"
    and "JWTRefreshToken lib m' later fresh r = Ok t"
  shows "\<exists>c. sign lib c = Some t \<and> C_TokenType c = TokenTypeAccess \<and> C_UserID c = uid \<and> C_TenantID c = tid \<and>
     C_Roles c = [] \<and> C_TenantRole c = [] \<and> C_Permissions c = [] \<and> C_Scopes c = []"
proof -
  let ?cr = "stamped_claims lib m now f2 (refresh_claims uid name email tid)"
  obtain c where c: "parse lib later r = Some c" "GenerateToken lib m' later fresh (Some (refreshed_claims c)) = Ok t"
    using assms(3) by (auto simp: JWTRefreshToken_def ValidateToken_def bind_outcome_iffs split: option.splits if_splits)
  have "c = ?cr" using assms(2) [OF c(1)] assms(1) unfolding CreateTokenPair_Ok by blast
  then show ?thesis
    using c(2) unfolding GenerateToken_Ok
    by (intro exI [of _ "stamped_claims lib m' later fresh (refreshed_claims c)"]) (simp add: refreshed_claims_def)
qed

theorem refreshed_token_powerless_witness:
  "\<exists>c. sign sample_library c = Some ''a'' \<and> C_UserID c = ''u'' \<and> C_Permissions c = []"
proof -
  have "JWTRefreshToken sample_library sample_manager 1 ''3'' ''r'' = Ok ''a''"
  proof -
    have "parse sample_library 1 ''r'' = Some sample_refresh" "sign sample_library (stamped_claims lib m now f (refreshed_claims c)) = Some ''a''"
      for lib m now f c by (simp_all add: sample_library_def sample_access refreshed_claims_def)
    moreover have "C_TokenType sample_refresh = TokenTypeRefresh" "JM_revokedTokens sample_manager = Map.empty"
      by (simp_all add: sample_refresh_def sample_manager_def)
    ultimately show ?thesis
      by (simp add: JWTRefreshToken_def ValidateToken_def IsTokenRevoked_def GenerateToken_def sign_token_def)
  qed
  moreover have "c = d" if "parse sample_library 1 ''r'' = Some c" "sign sample_library d = Some ''r''" for c d
    using that by (auto simp: sample_library_def split: if_splits)
  ultimately show ?thesis using refreshed_token_powerless [OF sample_pair, of 1] by blast
qed

section \<open>How long a revocation lasts\<close>

text \<open>What happens to the manager over time: tokens are revoked, and the ticker cleans up.\<close>

inductive token_step :: "time \<times> JWTManager \<Rightarrow> time \<times> JWTManager \<Rightarrow> bool" where
  revoke: "t \<le> t' \<Longrightarrow> token_step (t, m) (t', JWTRevokeToken m t' i)"
| clean: "t \<le> t' \<Longrightarrow> token_step (t, m) (t', cleanupRevokedTokens m t')"
| wait: "t \<le> t' \<Longrightarrow> token_step (t, m) (t', m)"

inductive_cases token_stepE: "token_step (t, m) s"

text \<open>The token is listed as revoked at \<open>t0\<close> or later, or more than the lifetime of refresh tokens has passed since.\<close>

definition revoked_since :: "time \<Rightarrow> duration \<Rightarrow> string \<Rightarrow> time \<times> JWTManager \<Rightarrow> bool" where
  "revoked_since t0 ttl i s \<longleftrightarrow> JM_refreshTTL (snd s) = ttl \<and>
     ((\<exists>t. JM_revokedTokens (snd s) i = Some t \<and> t0 \<le> t) \<or> fst s - t0 > ttl) \<and> t0 \<le> fst s"

lemma revoked_since_step: "token_step s s' \<Longrightarrow> revoked_since t0 ttl i s \<Longrightarrow> revoked_since t0 ttl i s'"
  by (induction rule: token_step.induct)
    (auto simp: revoked_since_def JWTRevokeToken_def cleanupRevokedTokens_def split: option.splits)

lemma revoked_since_run: "token_step\<^sup>*\<^sup>* s s' \<Longrightarrow> revoked_since t0 ttl i s \<Longrightarrow> revoked_since t0 ttl i s'"
  by (induction rule: rtranclp_induct) (auto intro: revoked_since_step)

text \<open>C38: A revoked token is never accepted again, however the revocations and clean-ups after it interleave,
  provided that it expires within the lifetime of refresh tokens after the revocation, as access and
  refresh tokens do.\<close>

theorem revocation_is_final:
  assumes "token_step\<^sup>*\<^sup>* (t0, JWTRevokeToken m t0 (C_TokenID c)) (now, m')"
    and "parse lib now token \<in> {None, Some c}"
    and "parse lib now token = Some c \<Longrightarrow> now < expiry" and "expiry \<le> t0 + JM_refreshTTL m"
  shows "\<exists>e. ValidateToken lib m' now token = Err e"
proof -
  have "revoked_since t0 (JM_refreshTTL m) (C_TokenID c) (t0, JWTRevokeToken m t0 (C_TokenID c))"
    by (simp add: revoked_since_def JWTRevokeToken_def)
  from revoked_since_run [OF assms(1) this] show ?thesis
    using assms(2-4) by (auto simp: revoked_since_def ValidateToken_def IsTokenRevoked_def)
qed

theorem revocation_is_final_witness:
  "\<exists>e. ValidateToken sample_library (cleanupRevokedTokens (JWTRevokeToken sample_manager 5 ''2'') 50) 50 ''r'' = Err e"
proof -
  have "token_step (5, JWTRevokeToken sample_manager 5 (C_TokenID sample_refresh))
      (50, cleanupRevokedTokens (JWTRevokeToken sample_manager 5 (C_TokenID sample_refresh)) 50)"
    by (rule clean) simp
  then have "token_step\<^sup>*\<^sup>* (5, JWTRevokeToken sample_manager 5 (C_TokenID sample_refresh))
      (50, cleanupRevokedTokens (JWTRevokeToken sample_manager 5 (C_TokenID sample_refresh)) 50)" by blast
  from revocation_is_final [OF this, of sample_library "''r''" 100] show ?thesis
    by (simp add: sample_library_def sample_manager_def sample_refresh_def)
qed

text \<open>An API key outlives its revocation.  Keys are valid for a year by default, but the clean-up drops a
  revocation after the lifetime of refresh tokens, and then the key is accepted again.\<close>

theorem revoked_key_accepted_again:
  assumes "ValidateAPIKey lib m t key = Ok c" and "parse lib now key = Some c"
    and "now - t > JM_refreshTTL m"
  shows "ValidateAPIKey lib (JWTRevokeToken m t (C_TokenID c)) t key = Err ErrTokenRevoked \<and>
    ValidateAPIKey lib (cleanupRevokedTokens (JWTRevokeToken m t (C_TokenID c)) now) now key = Ok c"
proof -
  have c: "C_TokenType c = TokenTypeAPI" "parse lib t key = Some c" "JM_revokedTokens m (C_TokenID c) = None"
    using assms(1) by (auto simp: ValidateAPIKey_def bind_outcome_iffs ValidateToken_def IsTokenRevoked_def
        split: option.splits if_splits)
  then show ?thesis using assms(2,3)
    by (simp add: ValidateAPIKey_def ValidateToken_def IsTokenRevoked_def JWTRevokeToken_def cleanupRevokedTokens_def)
qed

definition sample_key :: Claims where
  "sample_key = api_claims sample_library sample_manager 0 ''k'' ''u'' nil_uuid [] None"

definition key_library :: jwt_library where
  "key_library = sample_library\<lparr>parse := (\<lambda>now t. if t = ''key'' \<and> now < year then Some sample_key else None)\<rparr>"

theorem revoked_key_accepted_again_witness:
  "ValidateAPIKey key_library (cleanupRevokedTokens (JWTRevokeToken sample_manager 5 ''k'') 200) 200 ''key'' = Ok sample_key"
proof -
  have s: "C_TokenType sample_key = TokenTypeAPI" "C_TokenID sample_key = ''k''"
    by (simp_all add: sample_key_def api_claims_def)
  have y: "parse key_library t ''key'' = (if t < year then Some sample_key else None)" for t
    by (simp add: key_library_def)
  have "ValidateAPIKey key_library sample_manager 5 ''key'' = Ok sample_key"
    by (simp add: ValidateAPIKey_def ValidateToken_def IsTokenRevoked_def y s) (simp add: year_def second_def sample_manager_def)
  from revoked_key_accepted_again [OF this, of 200] show ?thesis
    by (simp add: y s) (simp add: year_def second_def sample_manager_def)
qed

end
