(* ===== verification/Auth_Service.thy ===== *)
theory Auth_Service imports Auth_Stores Auth_Tokens Go_Regexp Go_Float64 begin

text \<open>
  The authentication service (\<^verbatim>\<open>pkg/auth/service.go\<close>) over the stores in memory and the token manager.
  A method takes the immutable part of the service (\<open>auth_env\<close>: the configuration, the password policy
  and the third-party libraries, with \<^verbatim>\<open>bcrypt\<close> as two functions), the circumstances of the call (\<open>call\<close>:
  one reading of the clock, its hour, new identifiers, and the orders in which ranges visit users,
  tenants and login attempts) and the state, and returns its result with the new state.

  The lemmas are about who gets in: what a successful login implies, how many attempts there are,
  what permissions users have after any sequence of operations; and about who should not get in.
\<close>

section \<open>The service\<close>

record ServiceConfig =
  SC_DefaultTokenTTL :: duration
  SC_MaxLoginAttempts :: int
  SC_LockoutDuration :: duration
  SC_PasswordCost :: int
  SC_RequireEmailVerification :: bool
  SC_EnableMFA :: bool
  SC_SessionTimeout :: duration
  SC_CleanupInterval :: duration

record LoginAttempt =
  LA_Count :: int
  LA_LastAttempt :: time
  LA_LockedUntil :: "time option"

definition DefaultServiceConfig :: ServiceConfig where
  "DefaultServiceConfig =
     \<lparr>SC_DefaultTokenTTL = 24 * 3600 * second, SC_MaxLoginAttempts = 5, SC_LockoutDuration = 15 * 60 * second,
      SC_PasswordCost = 12, SC_RequireEmailVerification = False, SC_EnableMFA = False,
      SC_SessionTimeout = 24 * 3600 * second, SC_CleanupInterval = 3600 * second\<rparr>"

record auth_env =
  E_lib :: jwt_library
  E_bcrypt_hash :: "int \<Rightarrow> string \<Rightarrow> string option"
  E_bcrypt_ok :: "string \<Rightarrow> string \<Rightarrow> bool"
  E_config :: ServiceConfig
  E_policy :: PasswordPolicy

record call =
  K_now :: time
  K_hour :: int
  K_ids :: "nat \<Rightarrow> string"
  K_users :: "uuid list"
  K_tenants :: "uuid list"

record auth_state =
  S_users :: users
  S_tenants :: tenant_store
  S_jwt :: JWTManager
  S_attempts :: "string \<rightharpoonup> LoginAttempt"
  S_metrics :: AuthMetrics

definition NewService :: "jwt_library \<Rightarrow> (int \<Rightarrow> string \<Rightarrow> string option) \<Rightarrow> (string \<Rightarrow> string \<Rightarrow> bool) \<Rightarrow> time \<Rightarrow>
    JWTManager \<Rightarrow> users \<Rightarrow> tenant_store \<Rightarrow> ServiceConfig option \<Rightarrow> auth_env \<times> auth_state" where
  "NewService lib bhash bok now jwt us ts config =
     (\<lparr>E_lib = lib, E_bcrypt_hash = bhash, E_bcrypt_ok = bok,
       E_config = (case config of None \<Rightarrow> DefaultServiceConfig | Some c \<Rightarrow> c),
       E_policy = TS_PasswordPolicy DefaultTenantSettings\<rparr>,
      \<lparr>S_users = us, S_tenants = ts, S_jwt = jwt, S_attempts = Map.empty,
       S_metrics = \<lparr>AM_TotalUsers = 0, AM_ActiveUsers = 0, AM_TotalTenants = 0, AM_ActiveTenants = 0, AM_TotalLogins = 0,
         AM_FailedLogins = 0, AM_ActiveSessions = 0, AM_TokensIssued = 0, AM_TokensRevoked = 0,
         AM_AverageSessionLength = 0, AM_LoginsByHour = Map.empty, AM_FailureReasons = Map.empty, AM_LastUpdated = now\<rparr>\<rparr>)"

type_synonym 'a result = "(auth_error, 'a) outcome \<times> auth_state"

section \<open>Counters and attempts\<close>

definition bump :: "('k \<rightharpoonup> int) \<Rightarrow> 'k \<Rightarrow> 'k \<rightharpoonup> int" where
  "bump m k = m(k \<mapsto> (case m k of None \<Rightarrow> 0 | Some n \<Rightarrow> n) + 1)"

definition recordSuccess :: "call \<Rightarrow> auth_state \<Rightarrow> auth_state" where
  "recordSuccess k s =
     (let m = S_metrics s
      in s\<lparr>S_metrics := m\<lparr>AM_TotalLogins := AM_TotalLogins m + 1, AM_LoginsByHour := bump (AM_LoginsByHour m) (K_hour k)\<rparr>\<rparr>)"

definition recordFailure :: "string \<Rightarrow> auth_state \<Rightarrow> auth_state" where
  "recordFailure reason s =
     (let m = S_metrics s
      in s\<lparr>S_metrics := m\<lparr>AM_FailedLogins := AM_FailedLogins m + 1, AM_FailureReasons := bump (AM_FailureReasons m) reason\<rparr>\<rparr>)"

text \<open>The error, and the attempts without a lock that has expired.\<close>

definition checkRateLimit :: "time \<Rightarrow> string \<Rightarrow> (string \<rightharpoonup> LoginAttempt) \<Rightarrow> auth_error option \<times> (string \<rightharpoonup> LoginAttempt)" where
  "checkRateLimit now identifier as =
     (case as identifier of
        None \<Rightarrow> (None, as)
      | Some attempt \<Rightarrow>
          (case LA_LockedUntil attempt of
             None \<Rightarrow> (None, as)
           | Some until \<Rightarrow>
               if now < until then (Some ErrTooManyAttempts, as)
               else if now > until then (None, as(identifier := None))
               else (None, as)))"

definition recordLoginAttempt :: "ServiceConfig \<Rightarrow> time \<Rightarrow> string \<Rightarrow> bool \<Rightarrow> (string \<rightharpoonup> LoginAttempt) \<Rightarrow> string \<rightharpoonup> LoginAttempt" where
  "recordLoginAttempt config now identifier success as =
     (if success then as(identifier := None)
      else let old = (case as identifier of None \<Rightarrow> \<lparr>LA_Count = 0, LA_LastAttempt = 0, LA_LockedUntil = None\<rparr> | Some a \<Rightarrow> a);
               new = old\<lparr>LA_Count := LA_Count old + 1, LA_LastAttempt := now\<rparr>
           in as(identifier \<mapsto>
                (if LA_Count new \<ge> SC_MaxLoginAttempts config
                 then new\<lparr>LA_LockedUntil := Some (now + SC_LockoutDuration config)\<rparr> else new)))"

definition service_cleanup :: "time \<Rightarrow> auth_state \<Rightarrow> auth_state" where
  "service_cleanup now s =
     s\<lparr>S_attempts := (\<lambda>i. case S_attempts s i of
        None \<Rightarrow> None
      | Some a \<Rightarrow>
          if (case LA_LockedUntil a of None \<Rightarrow> False | Some until \<Rightarrow> now > until) then None
          else if now - LA_LastAttempt a > 24 * 3600 * second then None
          else Some a)\<rparr>"

section \<open>Statuses\<close>

definition past :: "time \<Rightarrow> time option \<Rightarrow> bool" where
  "past now expires \<longleftrightarrow> (case expires of None \<Rightarrow> False | Some e \<Rightarrow> now > e)"

definition checkUserStatus :: "time \<Rightarrow> User \<Rightarrow> auth_error option" where
  "checkUserStatus now user =
     (if U_Status user = UserStatusInactive then Some ErrUserInactive
      else if U_Status user = UserStatusSuspended then Some ErrUserSuspended
      else if U_Status user = UserStatusExpired then Some ErrUserExpired
      else if U_Status user = UserStatusPending then Some (AuthText ''user account is pending activation'')
      else if past now (U_ExpiresAt user) then Some ErrUserExpired
      else None)"

definition checkTenantStatus :: "time \<Rightarrow> Tenant \<Rightarrow> auth_error option" where
  "checkTenantStatus now tenant =
     (if T_Status tenant = TenantStatusInactive then Some ErrTenantInactive
      else if T_Status tenant = TenantStatusSuspended then Some (AuthText ''tenant is suspended'')
      else if T_Status tenant = TenantStatusExpired then Some (AuthText ''tenant has expired'')
      else if past now (T_ExpiresAt tenant) then Some (AuthText ''tenant has expired'')
      else None)"

text \<open>\<^verbatim>\<open>int64(d.Seconds())\<close>.\<close>

definition whole_seconds :: "duration \<Rightarrow> int" where
  "whole_seconds d =
     (let x = f64_add (of_int (go_quot d second)) (f64_div (of_int (go_rem d second)) 1000000000)
      in if x \<ge> 0 then \<lfloor>x\<rfloor> else \<lceil>x\<rceil>)"

section \<open>Authentication\<close>

text \<open>A tenant that is looked up and must be usable: its result is the reason of the failure and the error.\<close>

definition use_tenant :: "call \<Rightarrow> auth_state \<Rightarrow> uuid \<Rightarrow> (string \<times> auth_error) + Tenant option" where
  "use_tenant k s tenantID =
     (if tenantID = nil_uuid then Inr None
      else case TN_tenants (S_tenants s) tenantID of
             None \<Rightarrow> Inl (''tenant_not_found'', ErrTenantNotFound)
           | Some tenant \<Rightarrow>
               (case checkTenantStatus (K_now k) tenant of
                  Some e \<Rightarrow> Inl (''tenant_inactive'', e)
                | None \<Rightarrow> Inr (Some tenant)))"

definition login_tenant :: "auth_state \<Rightarrow> AuthRequest \<Rightarrow> User \<Rightarrow> uuid" where
  "login_tenant s req user =
     (if AR_TenantID req = nil_uuid \<and> U_Roles user \<noteq> []
      then (case TN_userTenants (S_tenants s) (U_ID user) of [] \<Rightarrow> AR_TenantID req | ut # _ \<Rightarrow> UT_TenantID ut)
      else AR_TenantID req)"

definition role_in_tenant :: "auth_state \<Rightarrow> User \<Rightarrow> Tenant option \<Rightarrow> TenantRole" where
  "role_in_tenant s user tenant =
     (case tenant of
        None \<Rightarrow> []
      | Some t \<Rightarrow>
          (case find (\<lambda>ut. UT_TenantID ut = T_ID t) (TN_userTenants (S_tenants s) (U_ID user)) of
             None \<Rightarrow> [] | Some ut \<Rightarrow> UT_Role ut))"

definition login_identifier :: "AuthRequest \<Rightarrow> string" where
  "login_identifier req = (if AR_Username req = [] then AR_Email req else AR_Username req)"

definition login_user :: "call \<Rightarrow> auth_state \<Rightarrow> string \<Rightarrow> User option" where
  "login_user k s identifier =
     (if str_contains identifier ''@'' then store_GetUserByEmail (K_users k) (S_users s) identifier
      else store_GetUserByUsername (K_users k) (S_users s) identifier)"

text \<open>A failure that counts as a login attempt.\<close>

definition login_failure :: "auth_env \<Rightarrow> call \<Rightarrow> string \<Rightarrow> string \<Rightarrow> auth_error \<Rightarrow> auth_state \<Rightarrow> 'a result" where
  "login_failure env k identifier reason e s =
     (Err e, recordFailure reason (s\<lparr>S_attempts := recordLoginAttempt (E_config env) (K_now k) identifier False (S_attempts s)\<rparr>))"

definition login_success :: "auth_env \<Rightarrow> call \<Rightarrow> AuthRequest \<Rightarrow> string \<Rightarrow> User \<Rightarrow> Tenant option \<Rightarrow> string \<Rightarrow> string \<Rightarrow>
    auth_state \<Rightarrow> AuthResponse result" where
  "login_success env k req identifier user tenant accessToken refreshToken s =
     (let user = user\<lparr>U_LastLoginAt := Some (K_now k)\<rparr>;
          us = (case store_UpdateUser (K_now k) (S_users s) user of None \<Rightarrow> S_users s | Some us \<Rightarrow> us);
          as = recordLoginAttempt (E_config env) (K_now k) identifier True (S_attempts s);
          expiresIn = (case AR_ExpiresIn req of None \<Rightarrow> SC_DefaultTokenTTL (E_config env) | Some d \<Rightarrow> d)
      in (Ok \<lparr>AP_AccessToken = accessToken, AP_RefreshToken = refreshToken, AP_TokenType = ''Bearer'',
            AP_ExpiresIn = whole_seconds expiresIn, AP_ExpiresAt = K_now k + expiresIn, AP_User = user, AP_Tenant = tenant,
            AP_Scopes = AR_Scopes req\<rparr>,
          recordSuccess k (s\<lparr>S_users := us, S_attempts := as\<rparr>)))"

definition authenticatePassword :: "auth_env \<Rightarrow> call \<Rightarrow> AuthRequest \<Rightarrow> auth_state \<Rightarrow> AuthResponse result" where
  "authenticatePassword env k req s =
     (let identifier = login_identifier req
      in if identifier = [] \<or> AR_Password req = [] then (Err ErrInvalidCredentials, recordFailure ''missing_credentials'' s)
         else case checkRateLimit (K_now k) identifier (S_attempts s) of
           (Some e, as) \<Rightarrow> (Err e, recordFailure ''rate_limited'' (s\<lparr>S_attempts := as\<rparr>))
         | (None, as) \<Rightarrow>
             (let s = s\<lparr>S_attempts := as\<rparr>
              in case login_user k s identifier of
                   None \<Rightarrow> login_failure env k identifier ''user_not_found'' ErrInvalidCredentials s
                 | Some user \<Rightarrow>
                     (case checkUserStatus (K_now k) user of
                        Some e \<Rightarrow> login_failure env k identifier ''user_inactive'' e s
                      | None \<Rightarrow>
                          if \<not> E_bcrypt_ok env (U_PasswordHash user) (AR_Password req)
                          then login_failure env k identifier ''invalid_password'' ErrInvalidCredentials s
                          else case use_tenant k s (login_tenant s req user) of
                                 Inl (reason, e) \<Rightarrow> login_failure env k identifier reason e s
                               | Inr tenant \<Rightarrow>
                                   (case CreateTokenPair (E_lib env) (S_jwt s) (K_now k) (K_ids k 0) (K_ids k 1) (U_ID user)
                                       (U_Username user) (U_Email user) (login_tenant s req user) (U_Roles user)
                                       (role_in_tenant s user tenant) (AR_Scopes req) of
                                      Ok (a, r) \<Rightarrow> login_success env k req identifier user tenant a r s
                                    | Err e \<Rightarrow> login_failure env k identifier ''token_generation_failed''
                                        (AuthWrap ''failed to generate tokens'' e) s
                                    | Panic \<Rightarrow> (Panic, s)))))"

definition failure :: "string \<Rightarrow> auth_error \<Rightarrow> auth_state \<Rightarrow> 'a result" where
  "failure reason e s = (Err e, recordFailure reason s)"

text \<open>The second half of the logins by a token: the user and the tenant of the claims must be usable.  A token
  without a date of expiry makes the program dereference a nil pointer.\<close>

definition authenticate_claims :: "call \<Rightarrow> string \<Rightarrow> Claims \<Rightarrow> auth_state \<Rightarrow> AuthResponse result" where
  "authenticate_claims k token claims s =
     (case S_users s (C_UserID claims) of
        None \<Rightarrow> failure ''user_not_found'' ErrUserNotFound s
      | Some user \<Rightarrow>
          (case checkUserStatus (K_now k) user of
             Some e \<Rightarrow> failure ''user_inactive'' e s
           | None \<Rightarrow>
               (case use_tenant k s (C_TenantID claims) of
                  Inl (reason, e) \<Rightarrow> failure reason e s
                | Inr tenant \<Rightarrow>
                    (case RC_ExpiresAt (C_Registered claims) of
                       None \<Rightarrow> (Panic, recordSuccess k s)
                     | Some expires \<Rightarrow>
                         (Ok \<lparr>AP_AccessToken = token, AP_RefreshToken = [], AP_TokenType = ''Bearer'',
                            AP_ExpiresIn = whole_seconds (expires - K_now k), AP_ExpiresAt = expires, AP_User = user,
                            AP_Tenant = tenant, AP_Scopes = C_Scopes claims\<rparr>, recordSuccess k s)))))"

definition authenticateAPIKey :: "auth_env \<Rightarrow> call \<Rightarrow> AuthRequest \<Rightarrow> auth_state \<Rightarrow> AuthResponse result" where
  "authenticateAPIKey env k req s =
     (if AR_APIKey req = [] then failure ''missing_api_key'' (AuthText ''API key is required'') s
      else case ValidateAPIKey (E_lib env) (S_jwt s) (K_now k) (AR_APIKey req) of
             Ok claims \<Rightarrow> authenticate_claims k (AR_APIKey req) claims s
           | Err e \<Rightarrow> failure ''invalid_api_key'' (AuthWrap ''invalid API key'' e) s
           | Panic \<Rightarrow> (Panic, s))"

definition authenticateToken :: "auth_env \<Rightarrow> call \<Rightarrow> AuthRequest \<Rightarrow> auth_state \<Rightarrow> AuthResponse result" where
  "authenticateToken env k req s =
     (if AR_Token req = [] then failure ''missing_token'' (AuthText ''token is required'') s
      else case ValidateToken (E_lib env) (S_jwt s) (K_now k) (AR_Token req) of
             Ok claims \<Rightarrow> authenticate_claims k (AR_Token req) claims s
           | Err e \<Rightarrow> failure ''invalid_token'' (AuthWrap ''invalid token'' e) s
           | Panic \<Rightarrow> (Panic, s))"

definition Authenticate :: "auth_env \<Rightarrow> call \<Rightarrow> AuthRequest \<Rightarrow> auth_state \<Rightarrow> AuthResponse result" where
  "Authenticate env k req s =
     (if AR_Type req = AuthTypePassword then authenticatePassword env k req s
      else if AR_Type req = AuthTypeAPIKey then authenticateAPIKey env k req s
      else if AR_Type req = AuthTypeToken then authenticateToken env k req s
      else failure ''unsupported_auth_type'' (AuthText (''unsupported authentication type: '' @ AR_Type req)) s)"

definition RefreshToken :: "auth_env \<Rightarrow> call \<Rightarrow> string \<Rightarrow> auth_state \<Rightarrow> AuthResponse result" where
  "RefreshToken env k refreshToken s =
     (case JWTRefreshToken (E_lib env) (S_jwt s) (K_now k) (K_ids k 0) refreshToken of
        Panic \<Rightarrow> (Panic, s)
      | Err e \<Rightarrow> failure ''refresh_failed'' (AuthWrap ''failed to refresh token'' e) s
      | Ok accessToken \<Rightarrow>
     (case ExtractClaims (E_lib env) accessToken of
        Panic \<Rightarrow> (Panic, s)
      | Err e \<Rightarrow> failure ''invalid_refreshed_token'' (AuthWrap ''invalid refreshed token'' e) s
      | Ok claims \<Rightarrow>
     (case S_users s (C_UserID claims) of
        None \<Rightarrow> failure ''user_not_found'' ErrUserNotFound s
      | Some user \<Rightarrow>
     (case RC_ExpiresAt (C_Registered claims) of
        None \<Rightarrow> (Panic, recordSuccess k s)
      | Some expires \<Rightarrow>
          (Ok \<lparr>AP_AccessToken = accessToken, AP_RefreshToken = refreshToken, AP_TokenType = ''Bearer'',
             AP_ExpiresIn = whole_seconds (expires - K_now k), AP_ExpiresAt = expires, AP_User = user,
             AP_Tenant = (if C_TenantID claims = nil_uuid then None else TN_tenants (S_tenants s) (C_TenantID claims)),
             AP_Scopes = C_Scopes claims\<rparr>, recordSuccess k s)))))"

definition RevokeToken :: "call \<Rightarrow> string \<Rightarrow> auth_state \<Rightarrow> auth_state" where
  "RevokeToken k tokenID s = s\<lparr>S_jwt := JWTRevokeToken (S_jwt s) (K_now k) tokenID\<rparr>"

definition Logout :: "call \<Rightarrow> uuid \<Rightarrow> string \<Rightarrow> auth_state \<Rightarrow> auth_state" where
  "Logout k userID tokenID s = (if tokenID \<noteq> [] then RevokeToken k tokenID s else s)"

text \<open>A stub in the code.\<close>

definition LogoutAll :: "uuid \<Rightarrow> auth_state \<Rightarrow> auth_state" where
  "LogoutAll userID s = s"

section \<open>Users\<close>

definition service_email_pattern :: rx where
  "service_email_pattern =
     rx_cats
       [rx_plus (Cls [(CHR ''a'', CHR ''z''), (CHR ''A'', CHR ''Z''), (CHR ''0'', CHR ''9''), (CHR ''.'', CHR ''.''),
                      (CHR ''_'', CHR ''_''), (CHR ''%'', CHR ''%''), (CHR ''+'', CHR ''+''), (CHR ''-'', CHR ''-'')]),
        rx_char CHR ''@'',
        rx_plus (Cls [(CHR ''a'', CHR ''z''), (CHR ''A'', CHR ''Z''), (CHR ''0'', CHR ''9''), (CHR ''.'', CHR ''.''),
                      (CHR ''-'', CHR ''-'')]),
        rx_char CHR ''.'',
        rx_rep 2 (Cls [(CHR ''a'', CHR ''z''), (CHR ''A'', CHR ''Z'')]),
        Star (Cls [(CHR ''a'', CHR ''z''), (CHR ''A'', CHR ''Z'')])]"

text \<open>The expression is anchored at both ends.\<close>

definition isValidEmail :: "string \<Rightarrow> bool" where
  "isValidEmail email \<longleftrightarrow> length email \<in> set (ends service_email_pattern email 0)"

definition validatePassword :: "PasswordPolicy \<Rightarrow> string \<Rightarrow> auth_error option" where
  "validatePassword policy password =
     (if int (length password) < PP_MinLength policy then Some ErrWeakPassword
      else if PP_RequireUppercase policy \<and> \<not> list_ex (in_cls [(CHR ''A'', CHR ''Z'')]) password then Some ErrWeakPassword
      else if PP_RequireLowercase policy \<and> \<not> list_ex (in_cls [(CHR ''a'', CHR ''z'')]) password then Some ErrWeakPassword
      else if PP_RequireNumbers policy \<and> \<not> list_ex (in_cls [(CHR ''0'', CHR ''9'')]) password then Some ErrWeakPassword
      else if PP_RequireSymbols policy \<and>
        \<not> list_ex (\<lambda>c. \<not> in_cls [(CHR ''a'', CHR ''z''), (CHR ''A'', CHR ''Z''), (CHR ''0'', CHR ''9'')] c) password
      then Some ErrWeakPassword
      else None)"

definition validateCreateUserRequest :: "auth_env \<Rightarrow> CreateUserRequest \<Rightarrow> auth_error option" where
  "validateCreateUserRequest env req =
     (if CU_Username req = [] then Some (AuthText ''username is required'')
      else if CU_Email req = [] then Some (AuthText ''email is required'')
      else if \<not> isValidEmail (CU_Email req) then Some (AuthText ''invalid email format'')
      else if CU_Password req = [] then Some (AuthText ''password is required'')
      else validatePassword (E_policy env) (CU_Password req))"

definition role_permissions :: "Role list \<Rightarrow> Permission list" where
  "role_permissions roles = concat (map GetRolePermissions roles)"

definition new_user :: "call \<Rightarrow> string \<Rightarrow> CreateUserRequest \<Rightarrow> User" where
  "new_user k hash req =
     \<lparr>U_ID = K_ids k 0, U_Username = CU_Username req, U_Email = CU_Email req, U_PasswordHash = hash,
      U_FirstName = CU_FirstName req, U_LastName = CU_LastName req, U_Status = UserStatusActive, U_Roles = CU_Roles req,
      U_Permissions = role_permissions (CU_Roles req), U_Metadata = CU_Metadata req, U_CreatedAt = K_now k,
      U_UpdatedAt = K_now k, U_LastLoginAt = None, U_ExpiresAt = CU_ExpiresAt req\<rparr>"

definition join_tenant :: "call \<Rightarrow> uuid \<Rightarrow> uuid option \<Rightarrow> TenantRole option \<Rightarrow> tenant_store \<Rightarrow> tenant_store" where
  "join_tenant k userID tenantID role ts =
     (case (tenantID, role) of
        (Some t, Some r) \<Rightarrow> (case store_AddUserToTenant (K_now k) ts userID t r of None \<Rightarrow> ts | Some ts' \<Rightarrow> ts')
      | _ \<Rightarrow> ts)"

definition CreateUser :: "auth_env \<Rightarrow> call \<Rightarrow> CreateUserRequest \<Rightarrow> auth_state \<Rightarrow> User result" where
  "CreateUser env k req s =
     (case validateCreateUserRequest env req of
        Some e \<Rightarrow> (Err e, s)
      | None \<Rightarrow>
          if store_GetUserByEmail (K_users k) (S_users s) (CU_Email req) \<noteq> None then (Err ErrUserAlreadyExists, s)
          else if store_GetUserByUsername (K_users k) (S_users s) (CU_Username req) \<noteq> None then (Err ErrUserAlreadyExists, s)
          else case E_bcrypt_hash env (SC_PasswordCost (E_config env)) (CU_Password req) of
                 None \<Rightarrow> (Err (AuthText ''failed to hash password''), s)
               | Some hash \<Rightarrow>
                   (let user = new_user k hash req
                    in case store_CreateUser (K_users k) (S_users s) user of
                         None \<Rightarrow> (Err (AuthWrap ''failed to create user'' ErrUserAlreadyExists), s)
                       | Some us \<Rightarrow>
                           (Ok user, s\<lparr>S_users := us,
                              S_tenants := join_tenant k (U_ID user) (CU_TenantID req) (CU_TenantRole req) (S_tenants s)\<rparr>)))"

definition GetUser :: "uuid \<Rightarrow> auth_state \<Rightarrow> (auth_error, User) outcome" where
  "GetUser userID s = (case S_users s userID of None \<Rightarrow> Err ErrUserNotFound | Some u \<Rightarrow> Ok u)"

definition or_old :: "'a option \<Rightarrow> 'a \<Rightarrow> 'a" where
  "or_old new old = (case new of None \<Rightarrow> old | Some x \<Rightarrow> x)"

definition updated_user :: "time \<Rightarrow> UpdateUserRequest \<Rightarrow> User \<Rightarrow> User" where
  "updated_user now req user =
     user\<lparr>U_Username := or_old (UU_Username req) (U_Username user), U_Email := or_old (UU_Email req) (U_Email user),
       U_FirstName := or_old (UU_FirstName req) (U_FirstName user), U_LastName := or_old (UU_LastName req) (U_LastName user),
       U_Status := or_old (UU_Status req) (U_Status user), U_Metadata := or_old (UU_Metadata req) (U_Metadata user),
       U_ExpiresAt := (if UU_ExpiresAt req = None then U_ExpiresAt user else UU_ExpiresAt req), U_UpdatedAt := now\<rparr>"

definition UpdateUser :: "call \<Rightarrow> uuid \<Rightarrow> UpdateUserRequest \<Rightarrow> auth_state \<Rightarrow> User result" where
  "UpdateUser k userID req s =
     (case S_users s userID of
        None \<Rightarrow> (Err ErrUserNotFound, s)
      | Some user \<Rightarrow>
          (let user = updated_user (K_now k) req user
           in case store_UpdateUser (K_now k) (S_users s) user of
                None \<Rightarrow> (Err (AuthWrap ''failed to update user'' ErrUserNotFound), s)
              | Some us \<Rightarrow> (Ok user, s\<lparr>S_users := us\<rparr>)))"

definition DeleteUser :: "uuid \<Rightarrow> auth_state \<Rightarrow> unit result" where
  "DeleteUser userID s =
     (case store_DeleteUser (S_users s) userID of
        None \<Rightarrow> (Err ErrUserNotFound, s) | Some us \<Rightarrow> (Ok (), s\<lparr>S_users := us\<rparr>))"

definition put_user :: "call \<Rightarrow> User \<Rightarrow> auth_state \<Rightarrow> unit result" where
  "put_user k user s =
     (case store_UpdateUser (K_now k) (S_users s) user of
        None \<Rightarrow> (Err ErrUserNotFound, s) | Some us \<Rightarrow> (Ok (), s\<lparr>S_users := us\<rparr>))"

section \<open>Roles and permissions\<close>

definition AssignRole :: "call \<Rightarrow> uuid \<Rightarrow> Role \<Rightarrow> auth_state \<Rightarrow> unit result" where
  "AssignRole k userID role s =
     (case S_users s userID of
        None \<Rightarrow> (Err ErrUserNotFound, s)
      | Some user \<Rightarrow>
          if role \<in> set (U_Roles user) then (Ok (), s)
          else put_user k (user\<lparr>U_Roles := U_Roles user @ [role], U_Permissions := U_Permissions user @ GetRolePermissions role,
                 U_UpdatedAt := K_now k\<rparr>) s)"

definition RevokeRole :: "call \<Rightarrow> uuid \<Rightarrow> Role \<Rightarrow> auth_state \<Rightarrow> unit result" where
  "RevokeRole k userID role s =
     (case S_users s userID of
        None \<Rightarrow> (Err ErrUserNotFound, s)
      | Some user \<Rightarrow>
          (let roles = filter (\<lambda>r. r \<noteq> role) (U_Roles user)
           in put_user k (user\<lparr>U_Roles := roles, U_Permissions := role_permissions roles, U_UpdatedAt := K_now k\<rparr>) s))"

definition CheckPermission :: "uuid \<Rightarrow> Permission \<Rightarrow> auth_state \<Rightarrow> (auth_error, bool) outcome" where
  "CheckPermission userID permission s =
     (case S_users s userID of
        None \<Rightarrow> Err ErrUserNotFound
      | Some user \<Rightarrow>
          Ok (permission \<in> set (U_Permissions user) \<or> list_ex (\<lambda>r. permission \<in> set (GetRolePermissions r)) (U_Roles user)))"

section \<open>Tenants\<close>

definition new_tenant :: "call \<Rightarrow> CreateTenantRequest \<Rightarrow> Tenant" where
  "new_tenant k req =
     \<lparr>T_ID = K_ids k 0, T_Name = CT_Name req, T_DisplayName = CT_DisplayName req, T_Domain = CT_Domain req,
      T_Status = TenantStatusActive, T_Settings = or_old (CT_Settings req) DefaultTenantSettings,
      T_Metadata = CT_Metadata req, T_CreatedAt = K_now k, T_UpdatedAt = K_now k, T_ExpiresAt = None\<rparr>"

text \<open>An error of the creation of the administrator is ignored.\<close>

definition CreateTenant :: "auth_env \<Rightarrow> call \<Rightarrow> CreateTenantRequest \<Rightarrow> auth_state \<Rightarrow> Tenant result" where
  "CreateTenant env k req s =
     (if CT_Name req = [] then (Err (AuthText ''tenant name is required''), s)
      else let tenant = new_tenant k req
           in case store_CreateTenant (K_tenants k) (S_tenants s) tenant of
                None \<Rightarrow> (Err (AuthWrap ''failed to create tenant'' ErrTenantAlreadyExists), s)
              | Some ts \<Rightarrow>
                  (let s = s\<lparr>S_tenants := ts\<rparr>
                   in (Ok tenant,
                       (case CT_AdminUser req of
                          None \<Rightarrow> s
                        | Some admin \<Rightarrow>
                            snd (CreateUser env (k\<lparr>K_ids := (\<lambda>n. K_ids k (n + 1))\<rparr>)
                              (admin\<lparr>CU_TenantID := Some (T_ID tenant), CU_TenantRole := Some TenantRoleOwner,
                                 CU_Roles := [RoleAdmin]\<rparr>) s)))))"

definition GetTenant :: "uuid \<Rightarrow> auth_state \<Rightarrow> (auth_error, Tenant) outcome" where
  "GetTenant tenantID s = (case TN_tenants (S_tenants s) tenantID of None \<Rightarrow> Err ErrTenantNotFound | Some t \<Rightarrow> Ok t)"

definition AddUserToTenant :: "call \<Rightarrow> uuid \<Rightarrow> uuid \<Rightarrow> TenantRole \<Rightarrow> auth_state \<Rightarrow> unit result" where
  "AddUserToTenant k userID tenantID role s =
     (case store_AddUserToTenant (K_now k) (S_tenants s) userID tenantID role of
        None \<Rightarrow> (Err ErrTenantNotFound, s) | Some ts \<Rightarrow> (Ok (), s\<lparr>S_tenants := ts\<rparr>))"

definition RemoveUserFromTenant :: "uuid \<Rightarrow> uuid \<Rightarrow> auth_state \<Rightarrow> auth_state" where
  "RemoveUserFromTenant userID tenantID s = s\<lparr>S_tenants := store_RemoveUserFromTenant (S_tenants s) userID tenantID\<rparr>"

section \<open>Health and metrics\<close>

definition health_claims :: "uuid \<Rightarrow> Claims" where
  "health_claims i =
     \<lparr>C_UserID = i, C_Username = [], C_Email = [], C_TenantID = nil_uuid, C_Roles = [], C_TenantRole = [], C_Permissions = [],
      C_Scopes = [], C_TokenID = [], C_TokenType = TokenTypeAccess, C_Registered = no_registered\<rparr>"

definition HealthCheck :: "auth_env \<Rightarrow> call \<Rightarrow> auth_state \<Rightarrow> (auth_error, unit) outcome" where
  "HealthCheck env k s =
     bind_outcome (token_error ''token generation failed''
        (GenerateToken (E_lib env) (S_jwt s) (K_now k) (K_ids k 1) (Some (health_claims (K_ids k 0))))) (\<lambda>token.
     bind_outcome (token_error ''token validation failed'' (ValidateToken (E_lib env) (S_jwt s) (K_now k) token)) (\<lambda>_. Ok ()))"

definition GetMetrics :: "call \<Rightarrow> auth_state \<Rightarrow> AuthMetrics \<times> auth_state" where
  "GetMetrics k s =
     (let m = (S_metrics s)\<lparr>AM_LastUpdated := K_now k\<rparr> in (m, s\<lparr>S_metrics := m\<rparr>))"

end
