(* ===== verification/Auth_Access.thy ===== *)
theory Auth_Access imports Auth_Service begin

text \<open>
  What the authentication service guarantees.  \<open>auth_step\<close> is one call of a method that changes the
  state, or one run of a clean-up; its rules cover all of them.  The first part is about logins, the
  second about the users, permissions and tenants after any number of steps.
\<close>

section \<open>Frames\<close>

lemma record_simps [simp]:
  "S_users (recordFailure r s) = S_users s" "S_users (recordSuccess k s) = S_users s"
  "S_tenants (recordFailure r s) = S_tenants s" "S_tenants (recordSuccess k s) = S_tenants s"
  "S_attempts (recordFailure r s) = S_attempts s" "S_attempts (recordSuccess k s) = S_attempts s"
  "S_jwt (recordFailure r s) = S_jwt s" "S_jwt (recordSuccess k s) = S_jwt s"
  by (simp_all add: recordFailure_def recordSuccess_def Let_def)

lemma login_failure_simps [simp]:
  "fst (login_failure env k i r e s) = Err e" "S_users (snd (login_failure env k i r e s)) = S_users s"
  "S_tenants (snd (login_failure env k i r e s)) = S_tenants s"
  "S_attempts (snd (login_failure env k i r e s)) = recordLoginAttempt (E_config env) (K_now k) i False (S_attempts s)"
  by (simp_all add: login_failure_def)

lemma failure_simps [simp]:
  "fst (failure r e s) = Err e" "S_users (snd (failure r e s)) = S_users s" "S_tenants (snd (failure r e s)) = S_tenants s"
  "S_attempts (snd (failure r e s)) = S_attempts s"
  by (simp_all add: failure_def)

lemma failure_not_Ok [simp]: "failure r e s \<noteq> (Ok x, s')" "login_failure env k i r e s \<noteq> (Ok x, s')"
  by (simp_all add: failure_def login_failure_def)

lemma use_tenant_Some:
  "use_tenant k s i = Inr (Some t) \<Longrightarrow> i \<noteq> nil_uuid \<and> TN_tenants (S_tenants s) i = Some t \<and> checkTenantStatus (K_now k) t = None"
  by (auto simp: use_tenant_def split: if_splits option.splits)

lemma authenticate_claims_simps [simp]:
  "S_users (snd (authenticate_claims k tok c s)) = S_users s" "S_tenants (snd (authenticate_claims k tok c s)) = S_tenants s"
  "S_attempts (snd (authenticate_claims k tok c s)) = S_attempts s"
  by (auto simp: authenticate_claims_def split: option.splits sum.splits)

text \<open>The access token of a pair.\<close>

lemma token_pair_grants_for:
  assumes "CreateTokenPair lib m now f1 f2 uid name email tid roles tr scopes = Ok (a, r)"
  shows "\<exists>c. sign lib c = Some a \<and> C_UserID c = uid \<and> C_TenantID c = tid \<and> C_TokenType c = TokenTypeAccess \<and>
    set (C_Permissions c) = granted roles tr"
  using assms unfolding CreateTokenPair_Ok
  by (intro exI [of _ "stamped_claims lib m now f1 (access_claims uid name email tid roles tr scopes)"])
    (simp add: set_pair_permissions)

section \<open>Logins by password\<close>

text \<open>The ways a login by password can go, after the checks of the request and of the limit.\<close>

definition login_attempt :: "auth_env \<Rightarrow> call \<Rightarrow> AuthRequest \<Rightarrow> User \<Rightarrow> Tenant option \<Rightarrow> auth_state \<Rightarrow> (auth_error, string \<times> string) outcome" where
  "login_attempt env k req user tenant s =
     CreateTokenPair (E_lib env) (S_jwt s) (K_now k) (K_ids k 0) (K_ids k 1) (U_ID user) (U_Username user) (U_Email user)
       (login_tenant s req user) (U_Roles user) (role_in_tenant s user tenant) (AR_Scopes req)"

lemma CreateTokenPair_not_Panic: "CreateTokenPair lib m now f g i n e t rs tr sc \<noteq> Panic"
  by (simp add: CreateTokenPair_def bind_outcome_iffs token_error_def GenerateToken_def sign_token_def split: option.splits outcome.splits)

lemma password_login_cases:
  obtains
    (missing) "login_identifier req = [] \<or> AR_Password req = []"
      "authenticatePassword env k req s = (Err ErrInvalidCredentials, recordFailure ''missing_credentials'' s)"
  | (locked) as where "login_identifier req \<noteq> []" "AR_Password req \<noteq> []"
      "checkRateLimit (K_now k) (login_identifier req) (S_attempts s) = (Some ErrTooManyAttempts, as)"
      "authenticatePassword env k req s = (Err ErrTooManyAttempts, recordFailure ''rate_limited'' (s\<lparr>S_attempts := as\<rparr>))"
  | (failed) as reason e where "login_identifier req \<noteq> []" "AR_Password req \<noteq> []"
      "checkRateLimit (K_now k) (login_identifier req) (S_attempts s) = (None, as)"
      "authenticatePassword env k req s = login_failure env k (login_identifier req) reason e (s\<lparr>S_attempts := as\<rparr>)"
  | (success) as user tenant a r where "login_identifier req \<noteq> []" "AR_Password req \<noteq> []"
      "checkRateLimit (K_now k) (login_identifier req) (S_attempts s) = (None, as)"
      "login_user k s (login_identifier req) = Some user" "checkUserStatus (K_now k) user = None"
      "E_bcrypt_ok env (U_PasswordHash user) (AR_Password req)"
      "use_tenant k s (login_tenant s req user) = Inr tenant" "login_attempt env k req user tenant s = Ok (a, r)"
      "authenticatePassword env k req s = login_success env k req (login_identifier req) user tenant a r (s\<lparr>S_attempts := as\<rparr>)"
proof (cases "login_identifier req = [] \<or> AR_Password req = []")
  case True
  then show thesis by (intro missing) (auto simp: authenticatePassword_def Let_def)
next
  case False
  obtain lim as where l: "checkRateLimit (K_now k) (login_identifier req) (S_attempts s) = (lim, as)" by fastforce
  have frame: "login_user k (s\<lparr>S_attempts := as\<rparr>) = login_user k s" "use_tenant k (s\<lparr>S_attempts := as\<rparr>) = use_tenant k s"
      "login_tenant (s\<lparr>S_attempts := as\<rparr>) = login_tenant s" "role_in_tenant (s\<lparr>S_attempts := as\<rparr>) = role_in_tenant s"
    by (auto simp: login_user_def use_tenant_def login_tenant_def role_in_tenant_def fun_eq_iff split: option.splits)
  show thesis
  proof (cases lim)
    case (Some e)
    then have "e = ErrTooManyAttempts" using l by (auto simp: checkRateLimit_def split: option.splits if_splits)
    then show thesis using False l Some by (intro locked) (auto simp: authenticatePassword_def Let_def)
  next
    case None
    note failed' = failed [OF _ _ l [unfolded None]]
    note auth = authenticatePassword_def Let_def l None frame
    show thesis
    proof (cases "login_user k s (login_identifier req)")
      case None
      then show thesis using False by (intro failed') (auto simp: auth)
    next
      case (Some user)
      note user = Some
      show thesis
      proof (cases "checkUserStatus (K_now k) user")
        case (Some e)
        then show thesis using False user by (intro failed') (auto simp: auth)
      next
        case None
        note status = None
        show thesis
        proof (cases "E_bcrypt_ok env (U_PasswordHash user) (AR_Password req)")
          case False
          then show thesis using \<open>\<not> (login_identifier req = [] \<or> AR_Password req = [])\<close> user status by (intro failed') (auto simp: auth)
        next
          case True
          show thesis
          proof (cases "use_tenant k s (login_tenant s req user)")
            case (Inl x)
            then show thesis using False user status True by (cases x) (intro failed', auto simp: auth)
          next
            case (Inr tenant)
            note ok = success [OF _ _ l [unfolded \<open>lim = None\<close>] user status True Inr]
            show thesis
            proof (cases "login_attempt env k req user tenant s")
              case (Ok p)
              then show thesis using False user status True Inr
                by (cases p) (intro ok, auto simp: auth login_attempt_def)
            next
              case (Err e)
              then show thesis using False user status True Inr by (intro failed') (auto simp: auth login_attempt_def)
            qed (simp add: login_attempt_def CreateTokenPair_not_Panic)
          qed
        qed
      qed
    qed
  qed
qed


lemma checkRateLimit_None:
  "checkRateLimit now i as = (None, as') \<Longrightarrow>
   (\<forall>a u. as i = Some a \<longrightarrow> LA_LockedUntil a = Some u \<longrightarrow> u \<le> now) \<and> (as' = as \<or> as' = as(i := None))"
  by (auto simp: checkRateLimit_def split: option.splits if_splits)

lemma checkRateLimit_error: "checkRateLimit now i as = (Some e, as') \<Longrightarrow> as' = as \<and> e = ErrTooManyAttempts"
  by (auto simp: checkRateLimit_def split: option.splits if_splits)

lemma login_user_Some:
  "login_user k s i = Some u \<Longrightarrow> (U_Email u = i \<or> U_Username u = i) \<and> (\<exists>j. S_users s j = Some u)"
  by (auto simp: login_user_def dest: GetUserByEmail_Some GetUserByUsername_Some split: if_splits)

lemma login_success_simps [simp]:
  "S_attempts (snd (login_success env k req i u t a r s)) = (S_attempts s)(i := None)"
  "S_tenants (snd (login_success env k req i u t a r s)) = S_tenants s"
  "S_users (snd (login_success env k req i u t a r s)) =
     (case store_UpdateUser (K_now k) (S_users s) (u\<lparr>U_LastLoginAt := Some (K_now k)\<rparr>) of None \<Rightarrow> S_users s | Some us \<Rightarrow> us)"
  by (simp_all add: login_success_def Let_def recordLoginAttempt_def)

lemma login_success_response:
  "login_success env k req i u t a r s = (Ok resp, s') \<Longrightarrow>
     AP_AccessToken resp = a \<and> AP_RefreshToken resp = r \<and> AP_Tenant resp = t \<and> S_attempts s' i = None"
  by (auto simp: login_success_def Let_def recordLoginAttempt_def)

text \<open>C1: Nobody logs in without a password that fits.  A successful login belongs to a user of the store with the
  given name or address, whose hash fits the password and who is active and not expired; no lock is in
  force; the tenant of the answer is active; and the access token is one for that user, with the
  permissions of the roles of the user and of the role in the tenant.\<close>

theorem login_sound:
  assumes "authenticatePassword env k req s = (Ok resp, s')"
  shows "\<exists>u i c. S_users s i = Some u \<and> login_identifier req \<in> {U_Email u, U_Username u} \<and>
     E_bcrypt_ok env (U_PasswordHash u) (AR_Password req) \<and> checkUserStatus (K_now k) u = None \<and>
     fst (checkRateLimit (K_now k) (login_identifier req) (S_attempts s)) = None \<and>
     (case AP_Tenant resp of None \<Rightarrow> True | Some t \<Rightarrow> checkTenantStatus (K_now k) t = None) \<and>
     sign (E_lib env) c = Some (AP_AccessToken resp) \<and> C_UserID c = U_ID u \<and> C_TokenType c = TokenTypeAccess \<and>
     set (C_Permissions c) = granted (U_Roles u) (role_in_tenant s u (AP_Tenant resp)) \<and>
     S_attempts s' (login_identifier req) = None"
proof (cases rule: password_login_cases [of req env k s])
  case (success as u tenant a r)
  obtain i where i: "S_users s i = Some u" "login_identifier req \<in> {U_Email u, U_Username u}"
    using login_user_Some [OF success(4)] by auto
  have resp: "AP_AccessToken resp = a" "AP_Tenant resp = tenant" "S_attempts s' (login_identifier req) = None"
    using login_success_response success(9) assms by metis+
  obtain c where "sign (E_lib env) c = Some a" "C_UserID c = U_ID u" "C_TokenType c = TokenTypeAccess"
      "set (C_Permissions c) = granted (U_Roles u) (role_in_tenant s u tenant)"
    using token_pair_grants_for [OF success(8) [unfolded login_attempt_def]] by blast
  moreover have "case tenant of None \<Rightarrow> True | Some t \<Rightarrow> checkTenantStatus (K_now k) t = None"
    using success(7) use_tenant_Some [of k s] by (auto split: option.splits)
  ultimately show ?thesis using i success(3,5,6) resp by (intro exI [of _ u] exI [of _ i] exI [of _ c]) auto
qed (use assms in \<open>auto simp: login_failure_def\<close>)

section \<open>The number of guesses\<close>

text \<open>The attempts with the identifier \<open>i\<close> and a password that are not turned away, up to the first success.\<close>

fun password_guesses :: "auth_env \<Rightarrow> string \<Rightarrow> (call \<times> AuthRequest) list \<Rightarrow> auth_state \<Rightarrow> nat" where
  "password_guesses env i [] s = 0"
| "password_guesses env i ((k, req) # rs) s =
     (case authenticatePassword env k req s of
        (r, s') \<Rightarrow>
          if login_identifier req \<noteq> i \<or> AR_Password req = [] \<or> r = Err ErrTooManyAttempts then password_guesses env i rs s'
          else (case r of Ok _ \<Rightarrow> 1 | _ \<Rightarrow> Suc (password_guesses env i rs s')))"

text \<open>The attempts that are used up; a lock uses them all.\<close>

definition used_attempts :: "auth_env \<Rightarrow> LoginAttempt option \<Rightarrow> int" where
  "used_attempts env a =
     (case a of None \<Rightarrow> 0
      | Some a \<Rightarrow> if LA_LockedUntil a = None then LA_Count a else SC_MaxLoginAttempts (E_config env))"

definition attempt_ok :: "auth_env \<Rightarrow> time \<Rightarrow> LoginAttempt option \<Rightarrow> bool" where
  "attempt_ok env t a \<longleftrightarrow>
     (case a of None \<Rightarrow> True
      | Some a \<Rightarrow> 0 \<le> LA_Count a \<and>
          (case LA_LockedUntil a of None \<Rightarrow> LA_Count a < SC_MaxLoginAttempts (E_config env) | Some u \<Rightarrow> t \<le> u))"

lemma attempt_step:
  assumes "attempt_ok env (t + SC_LockoutDuration (E_config env)) (as i)" and "t \<le> K_now k"
    and "K_now k < t + SC_LockoutDuration (E_config env)" and "1 \<le> SC_MaxLoginAttempts (E_config env)"
    and "checkRateLimit (K_now k) i as = (None, as')"
  shows "as' = as" and "used_attempts env (as i) < SC_MaxLoginAttempts (E_config env)"
    and "attempt_ok env (t + SC_LockoutDuration (E_config env)) (recordLoginAttempt (E_config env) (K_now k) i False as i)"
    and "used_attempts env (recordLoginAttempt (E_config env) (K_now k) i False as i) = used_attempts env (as i) + 1"
  using assms
  by (auto simp: attempt_ok_def used_attempts_def checkRateLimit_def recordLoginAttempt_def Let_def split: option.splits if_splits)

lemma recordLoginAttempt_other: "j \<noteq> i \<Longrightarrow> recordLoginAttempt c now j b as i = as i"
  by (simp add: recordLoginAttempt_def Let_def)

lemma checkRateLimit_other: "j \<noteq> i \<Longrightarrow> snd (checkRateLimit now j as) i = as i"
  by (auto simp: checkRateLimit_def split: option.splits)

lemma other_login:
  assumes "login_identifier req \<noteq> i"
  shows "S_attempts (snd (authenticatePassword env k req s)) i = S_attempts s i"
proof (cases rule: password_login_cases [of req env k s])
  case (failed as reason e)
  then show ?thesis using assms checkRateLimit_other [of "login_identifier req" i "K_now k" "S_attempts s"]
    by (simp add: recordLoginAttempt_other)
next
  case (success as u tenant a r)
  then show ?thesis using assms checkRateLimit_other [of "login_identifier req" i "K_now k" "S_attempts s"] by simp
qed (auto dest: checkRateLimit_error)

lemma guesses_bound:
  assumes "i \<noteq> []" and "1 \<le> SC_MaxLoginAttempts (E_config env)"
    and "\<forall>(k, req) \<in> set rs. t \<le> K_now k \<and> K_now k < t + SC_LockoutDuration (E_config env)"
    and "attempt_ok env (t + SC_LockoutDuration (E_config env)) (S_attempts s i)"
  shows "int (password_guesses env i rs s) \<le> SC_MaxLoginAttempts (E_config env) - used_attempts env (S_attempts s i)"
  using assms(3,4)
proof (induction rs arbitrary: s)
  case Nil
  then show ?case using assms(2) by (auto simp: attempt_ok_def used_attempts_def split: option.splits)
next
  case (Cons kr rs)
  obtain k req where kr: "kr = (k, req)" by (cases kr)
  let ?s' = "snd (authenticatePassword env k req s)"
  have t: "t \<le> K_now k" "K_now k < t + SC_LockoutDuration (E_config env)" using Cons.prems(1) kr by auto
  have IH: "attempt_ok env (t + SC_LockoutDuration (E_config env)) (S_attempts s' i) \<Longrightarrow>
      int (password_guesses env i rs s') \<le> SC_MaxLoginAttempts (E_config env) - used_attempts env (S_attempts s' i)" for s'
    using Cons by auto
  show ?case
  proof (cases "login_identifier req = i")
    case False
    then show ?thesis using IH [of ?s'] Cons.prems(2) other_login [OF False, of env k s] kr
      by (simp add: case_prod_unfold)
  next
    case True
    show ?thesis
    proof (cases rule: password_login_cases [of req env k s])
      case missing
      then show ?thesis using IH [of ?s'] Cons.prems(2) kr True assms(1) by simp
    next
      case (locked as)
      then show ?thesis using IH [of ?s'] Cons.prems(2) kr checkRateLimit_error [OF locked(3)] by simp
    next
      case (failed as reason e)
      note st = attempt_step [OF Cons.prems(2) t assms(2) failed(3) [unfolded True]]
      show ?thesis using IH [of ?s'] failed st kr True by (auto simp: login_failure_def)
    next
      case (success as u tenant a r)
      note st = attempt_step [OF Cons.prems(2) t assms(2) success(3) [unfolded True]]
      then show ?thesis using success kr True by (simp add: login_success_def Let_def)
    qed
  qed
qed


section \<open>Any sequence of operations\<close>

text \<open>Calls range over the whole store.\<close>

definition sees_all :: "call \<Rightarrow> auth_state \<Rightarrow> bool" where
  "sees_all k s \<longleftrightarrow> dom (S_users s) \<subseteq> set (K_users k)"

definition same_names :: "UpdateUserRequest \<Rightarrow> bool" where
  "same_names req \<longleftrightarrow> UU_Username req = None \<and> UU_Email req = None"

text \<open>The flag allows updates to change user names and addresses.\<close>

inductive auth_step :: "bool \<Rightarrow> auth_env \<Rightarrow> auth_state \<Rightarrow> auth_state \<Rightarrow> bool" for renames :: bool and env :: auth_env where
  authenticate: "sees_all k s \<Longrightarrow> auth_step renames env s (snd (Authenticate env k req s))"
| refresh: "auth_step renames env s (snd (RefreshToken env k token s))"
| logout: "auth_step renames env s (Logout k i tokenID s)"
| revoke: "auth_step renames env s (RevokeToken k tokenID s)"
| create_user: "sees_all k s \<Longrightarrow> auth_step renames env s (snd (CreateUser env k cu s))"
| update_user: "renames \<or> same_names uu \<Longrightarrow> auth_step renames env s (snd (UpdateUser k i uu s))"
| delete_user: "auth_step renames env s (snd (DeleteUser i s))"
| assign_role: "auth_step renames env s (snd (AssignRole k i role s))"
| revoke_role: "auth_step renames env s (snd (RevokeRole k i role s))"
| create_tenant: "sees_all k s \<Longrightarrow> auth_step renames env s (snd (CreateTenant env k ct s))"
| add_to_tenant: "auth_step renames env s (snd (AddUserToTenant k i t tr s))"
| remove_from_tenant: "auth_step renames env s (RemoveUserFromTenant i t s)"
| metrics: "auth_step renames env s (snd (GetMetrics k s))"
| clean_attempts: "auth_step renames env s (service_cleanup now s)"
| clean_tokens: "auth_step renames env s (s\<lparr>S_jwt := cleanupRevokedTokens (S_jwt s) now\<rparr>)"

text \<open>What a step does to the users: nothing, a new user, a change of one user, or a deletion.\<close>

definition permissions_follow :: "User \<Rightarrow> User \<Rightarrow> bool" where
  "permissions_follow u v \<longleftrightarrow>
     U_Roles v = U_Roles u \<and> U_Permissions v = U_Permissions u \<or>
     (\<exists>r. U_Roles v = U_Roles u @ [r] \<and> U_Permissions v = U_Permissions u @ GetRolePermissions r) \<or>
     U_Permissions v = role_permissions (U_Roles v)"

inductive user_change :: "bool \<Rightarrow> users \<Rightarrow> users \<Rightarrow> bool" for renames :: bool and us :: users where
  unchanged: "user_change renames us us"
| created: "store_CreateUser order us u = Some us' \<Longrightarrow> dom us \<subseteq> set order \<Longrightarrow>
    U_Permissions u = role_permissions (U_Roles u) \<Longrightarrow> user_change renames us us'"
| changed: "store_UpdateUser now us v = Some us' \<Longrightarrow> us i = Some u \<Longrightarrow> U_ID v = U_ID u \<Longrightarrow>
    renames \<or> U_Email v = U_Email u \<and> U_Username v = U_Username u \<Longrightarrow> permissions_follow u v \<Longrightarrow>
    user_change renames us us'"
| deleted: "store_DeleteUser us i = Some us' \<Longrightarrow> user_change renames us us'"

lemma put_user_users:
  "S_users (snd (put_user k u s)) = (case store_UpdateUser (K_now k) (S_users s) u of None \<Rightarrow> S_users s | Some us \<Rightarrow> us)"
  by (simp add: put_user_def split: option.splits)

lemma change_by_update:
  assumes "us i = Some u" and "U_ID v = U_ID u" and "renames \<or> U_Email v = U_Email u \<and> U_Username v = U_Username u"
    and "permissions_follow u v"
  shows "user_change renames us (case store_UpdateUser now us v of None \<Rightarrow> us | Some us' \<Rightarrow> us')"
proof (cases "store_UpdateUser now us v")
  case (Some us')
  from changed [OF Some assms] show ?thesis using Some by simp
qed (simp add: unchanged)

lemma permissions_follow_same [simp]:
  "U_Roles v = U_Roles u \<Longrightarrow> U_Permissions v = U_Permissions u \<Longrightarrow> permissions_follow u v"
  by (simp add: permissions_follow_def)

lemma CreateUser_change: "sees_all k s \<Longrightarrow> user_change renames (S_users s) (S_users (snd (CreateUser env k cu s)))"
  using unchanged [of renames "S_users s"] created [of "K_users k" "S_users s" "new_user k h cu" for h]
  by (fastforce simp: CreateUser_def Let_def sees_all_def new_user_def split: option.splits)

lemma password_login_change: "user_change renames (S_users s) (S_users (snd (authenticatePassword env k req s)))"
proof (cases rule: password_login_cases [of req env k s])
  case (success as u t a r)
  obtain j where "S_users s j = Some u" using login_user_Some [OF success(4)] by blast
  then show ?thesis unfolding success(9) login_success_simps
    using change_by_update [of "S_users s" j u "u\<lparr>U_LastLoginAt := Some (K_now k)\<rparr>" renames "K_now k"]
    by (simp cong: option.case_cong)
qed (auto intro: unchanged)

lemma Authenticate_change: "user_change renames (S_users s) (S_users (snd (Authenticate env k req s)))"
  using password_login_change unchanged
  by (auto simp: Authenticate_def authenticateAPIKey_def authenticateToken_def split: outcome.splits)

lemma UpdateUser_change:
  assumes "renames \<or> same_names uu"
  shows "user_change renames (S_users s) (S_users (snd (UpdateUser k i uu s)))"
proof (cases "S_users s i")
  case (Some u)
  have "user_change renames (S_users s)
      (case store_UpdateUser (K_now k) (S_users s) (updated_user (K_now k) uu u) of None \<Rightarrow> S_users s | Some us \<Rightarrow> us)"
    by (rule change_by_update [of "S_users s" i u, OF Some]) (use assms in \<open>auto simp: updated_user_def same_names_def or_old_def\<close>)
  then show ?thesis using Some by (simp add: UpdateUser_def Let_def split: option.splits)
qed (simp add: UpdateUser_def unchanged)

lemma role_change:
  "user_change renames (S_users s) (S_users (snd (AssignRole k i role s)))"
  "user_change renames (S_users s) (S_users (snd (RevokeRole k i role s)))"
  by (cases "S_users s i"; auto simp: AssignRole_def RevokeRole_def Let_def put_user_users permissions_follow_def
      intro: unchanged change_by_update)+

lemma CreateTenant_change:
  assumes "sees_all k s"
  shows "user_change renames (S_users s) (S_users (snd (CreateTenant env k ct s)))"
proof -
  have "user_change renames (S_users s) (S_users (snd (CreateUser env (k\<lparr>K_ids := f\<rparr>) cu (s\<lparr>S_tenants := ts\<rparr>))))" for f cu ts
    using CreateUser_change [of "k\<lparr>K_ids := f\<rparr>" "s\<lparr>S_tenants := ts\<rparr>" renames] assms by (simp add: sees_all_def)
  then show ?thesis by (auto simp: CreateTenant_def Let_def unchanged split: option.splits)
qed

lemma DeleteUser_change: "user_change renames (S_users s) (S_users (snd (DeleteUser i s)))"
  by (auto simp: DeleteUser_def intro: unchanged deleted split: option.splits)

lemma other_users [simp]:
  "S_users (snd (RefreshToken env k token s)) = S_users s" "S_users (Logout k i tokenID s) = S_users s"
  "S_users (RevokeToken k tokenID s) = S_users s" "S_users (snd (AddUserToTenant k i t tr s)) = S_users s"
  "S_users (RemoveUserFromTenant i t s) = S_users s" "S_users (snd (GetMetrics k s)) = S_users s"
  "S_users (service_cleanup now s) = S_users s"
  by (auto simp: RefreshToken_def Logout_def RevokeToken_def AddUserToTenant_def RemoveUserFromTenant_def GetMetrics_def
      service_cleanup_def Let_def split: outcome.splits option.splits)

lemmas method_changes = Authenticate_change CreateUser_change UpdateUser_change DeleteUser_change role_change CreateTenant_change

lemma auth_step_change: "auth_step renames env s s' \<Longrightarrow> user_change renames (S_users s) (S_users s')"
  by (induction rule: auth_step.induct) (simp_all add: method_changes unchanged)

section \<open>Permissions and logins\<close>

text \<open>The permissions of a user are those of the roles.\<close>

definition permissions_ok :: "User \<Rightarrow> bool" where
  "permissions_ok u \<longleftrightarrow> set (U_Permissions u) = set (role_permissions (U_Roles u))"

lemma permissions_follow_ok: "permissions_follow u v \<Longrightarrow> permissions_ok u \<Longrightarrow> permissions_ok v"
  by (auto simp: permissions_follow_def permissions_ok_def role_permissions_def)

definition store_ok :: "bool \<Rightarrow> users \<Rightarrow> bool" where
  "store_ok renames us \<longleftrightarrow> keyed_users us \<and> each_user permissions_ok us \<and> (renames \<or> unique_logins us)"

lemma user_change_ok:
  assumes "user_change renames us us'" and "store_ok renames us"
  shows "store_ok renames us'"
  using assms
proof (induction rule: user_change.induct)
  case (created order u us')
  then show ?case
    using memory_users.create_keeps [OF created(1,2)] by (auto simp: store_ok_def permissions_ok_def)
next
  case (changed now v us' i u)
  have u: "permissions_ok u" "U_ID u = i" using changed(2,6) by (auto simp: store_ok_def each_user_def keyed_users_def)
  have "permissions_ok (v\<lparr>U_UpdatedAt := now\<rparr>)"
    using permissions_follow_ok [OF changed(5) u(1)] by (simp add: permissions_ok_def)
  then show ?case
    using memory_users.update_keeps [OF changed(1)] memory_users.update_keeps_unique [OF changed(1)] changed u
    by (auto simp: store_ok_def)
next
  case (deleted i us')
  then show ?case using memory_users.delete_keeps [OF deleted(1)] by (auto simp: store_ok_def)
qed

lemma auth_steps_ok:
  "(auth_step renames env)\<^sup>*\<^sup>* s s' \<Longrightarrow> store_ok renames (S_users s) \<Longrightarrow> store_ok renames (S_users s')"
  by (induction rule: rtranclp_induct) (auto intro: user_change_ok auth_step_change)

lemma empty_store_ok: "store_ok renames Map.empty"
  by (simp add: store_ok_def keyed_users_def each_user_def unique_logins_def)

text \<open>C37: After any sequence of operations, a user has a permission exactly if one of the roles of the user grants
  it, and only declared permissions are ever granted.\<close>

theorem permission_iff_role:
  assumes "(auth_step True env)\<^sup>*\<^sup>* s s'" and "S_users s = Map.empty" and "S_users s' i = Some u"
  shows "CheckPermission i p s' = Ok (p \<in> granted (U_Roles u) []) \<and> set (U_Permissions u) = granted (U_Roles u) [] \<and>
    set (U_Permissions u) \<subseteq> set all_permissions"
proof -
  have "store_ok True (S_users s')" using auth_steps_ok [OF assms(1)] assms(2) empty_store_ok by simp
  then have "set (U_Permissions u) = granted (U_Roles u) []"
    using assms(3) by (auto simp: store_ok_def each_user_def permissions_ok_def role_permissions_def granted_def
        GetTenantRolePermissions_def auth_consts)
  then show ?thesis using assms(3) granted_declared [of "U_Roles u" "[]"]
    by (auto simp: CheckPermission_def granted_def list_ex_iff)
qed

text \<open>As long as no update changes names or addresses, no two users ever share a name or an address.\<close>

theorem logins_stay_unique:
  assumes "(auth_step False env)\<^sup>*\<^sup>* s s'" and "S_users s = Map.empty"
    and "S_users s' i = Some u" and "S_users s' j = Some v" and "i \<noteq> j"
  shows "U_Email u \<noteq> U_Email v \<and> U_Username u \<noteq> U_Username v"
proof -
  have "unique_logins (S_users s')" using auth_steps_ok [OF assms(1)] assms(2) empty_store_ok [of False]
    by (simp add: store_ok_def)
  then show ?thesis using assms(3-5) by (auto simp: unique_logins_def same_login_def)
qed

section \<open>Who belongs to a tenant\<close>

definition anonymous_members :: "tenant_store \<Rightarrow> bool" where
  "anonymous_members ts \<longleftrightarrow> (\<forall>t. \<forall>tu \<in> set (TN_tenantUsers ts t). TU_User tu = None)"

lemma anonymous_add: "store_AddUserToTenant now ts i t r = Some ts' \<Longrightarrow> anonymous_members ts \<Longrightarrow> anonymous_members ts'"
  by (auto simp: store_AddUserToTenant_def anonymous_members_def split: option.splits if_splits)

lemma anonymous_remove: "anonymous_members ts \<Longrightarrow> anonymous_members (store_RemoveUserFromTenant ts i t)"
  by (auto simp: store_RemoveUserFromTenant_def anonymous_members_def)

lemma anonymous_create: "store_CreateTenant order ts t = Some ts' \<Longrightarrow> anonymous_members ts \<Longrightarrow> anonymous_members ts'"
  by (auto simp: store_CreateTenant_def anonymous_members_def split: if_splits)

lemma anonymous_join: "anonymous_members ts \<Longrightarrow> anonymous_members (join_tenant k i t r ts)"
  by (auto simp: join_tenant_def intro: anonymous_add split: option.splits)

lemma anonymous_CreateUser: "anonymous_members (S_tenants s) \<Longrightarrow> anonymous_members (S_tenants (snd (CreateUser env k cu s)))"
  by (auto simp: CreateUser_def Let_def anonymous_join split: option.splits)

lemma password_tenants: "S_tenants (snd (authenticatePassword env k req s)) = S_tenants s"
  by (cases rule: password_login_cases [of req env k s]) auto

lemma other_tenants [simp]:
  "S_tenants (snd (Authenticate env k req s)) = S_tenants s" "S_tenants (snd (RefreshToken env k token s)) = S_tenants s"
  "S_tenants (Logout k i tokenID s) = S_tenants s" "S_tenants (RevokeToken k tokenID s) = S_tenants s"
  "S_tenants (snd (UpdateUser k i uu s)) = S_tenants s" "S_tenants (snd (DeleteUser i s)) = S_tenants s"
  "S_tenants (snd (put_user k u s)) = S_tenants s"
  "S_tenants (snd (GetMetrics k s)) = S_tenants s" "S_tenants (service_cleanup now s) = S_tenants s"
  by (auto simp: Authenticate_def authenticateAPIKey_def authenticateToken_def password_tenants RefreshToken_def Logout_def
      RevokeToken_def UpdateUser_def DeleteUser_def put_user_def GetMetrics_def service_cleanup_def Let_def
      split: outcome.splits option.splits)

lemma role_tenants [simp]:
  "S_tenants (snd (AssignRole k i role s)) = S_tenants s" "S_tenants (snd (RevokeRole k i role s)) = S_tenants s"
  by (auto simp: AssignRole_def RevokeRole_def Let_def split: option.splits)

lemma auth_step_anonymous: "auth_step renames env s s' \<Longrightarrow> anonymous_members (S_tenants s) \<Longrightarrow> anonymous_members (S_tenants s')"
proof (induction rule: auth_step.induct)
  case (create_tenant k s ct)
  have "anonymous_members ts \<Longrightarrow> anonymous_members (S_tenants (snd (CreateUser env k' cu (s\<lparr>S_tenants := ts\<rparr>))))" for ts k' cu
    using anonymous_CreateUser [of "s\<lparr>S_tenants := ts\<rparr>"] by simp
  then show ?case using create_tenant(2) anonymous_create
    by (auto simp: CreateTenant_def Let_def split: option.splits)
next
  case (add_to_tenant k i t tr s)
  then show ?case using anonymous_add by (auto simp: AddUserToTenant_def split: option.splits)
qed (simp_all add: anonymous_CreateUser anonymous_remove RemoveUserFromTenant_def)

text \<open>Removing one user from a tenant removes all its members.  The entries of the members never hold a user,
  and the removal drops every entry without one, so the tenant is left with no members.\<close>

theorem removal_empties_tenant:
  assumes "(auth_step renames env)\<^sup>*\<^sup>* s s'" and "S_tenants s = empty_tenants"
  shows "TN_tenantUsers (S_tenants (RemoveUserFromTenant i t s')) t = []"
proof -
  have "anonymous_members (S_tenants s')"
    using assms(1)
  proof (induction rule: rtranclp_induct)
    case base
    then show ?case by (simp add: assms(2) empty_tenants_def anonymous_members_def)
  qed (rule auth_step_anonymous)
  then show ?thesis
    by (auto simp: RemoveUserFromTenant_def store_RemoveUserFromTenant_def anonymous_members_def filter_empty_conv)
qed

section \<open>Who should not get in\<close>

lemma password_login_succeeds:
  assumes "login_identifier req \<noteq> []" and "AR_Password req \<noteq> []"
    and "checkRateLimit (K_now k) (login_identifier req) (S_attempts s) = (None, S_attempts s)"
    and "login_user k s (login_identifier req) = Some u" and "checkUserStatus (K_now k) u = None"
    and "E_bcrypt_ok env (U_PasswordHash u) (AR_Password req)"
    and "use_tenant k s (login_tenant s req u) = Inr tenant" and "login_attempt env k req u tenant s = Ok (a, r)"
  shows "\<exists>resp s'. authenticatePassword env k req s = (Ok resp, s') \<and> AP_AccessToken resp = a \<and> AP_Tenant resp = tenant"
proof -
  have "authenticatePassword env k req s = login_success env k req (login_identifier req) u tenant a r s"
    using assms by (simp add: authenticatePassword_def Let_def login_attempt_def)
  then show ?thesis by (simp add: login_success_def Let_def)
qed

text \<open>A login names any tenant and gets into it.  A user who belongs to no tenant at all can log in with the
  identifier of any active tenant, and receives that tenant and an access token for it, with the
  permissions of the roles of the user.\<close>

theorem login_into_foreign_tenant:
  assumes "login_identifier req \<noteq> []" and "AR_Password req \<noteq> []"
    and "checkRateLimit (K_now k) (login_identifier req) (S_attempts s) = (None, S_attempts s)"
    and "login_user k s (login_identifier req) = Some u" and "checkUserStatus (K_now k) u = None"
    and "E_bcrypt_ok env (U_PasswordHash u) (AR_Password req)"
    and "TN_userTenants (S_tenants s) (U_ID u) = []"
    and "AR_TenantID req = t" and "t \<noteq> nil_uuid" and "TN_tenants (S_tenants s) t = Some tenant"
    and "checkTenantStatus (K_now k) tenant = None" and "\<And>c. sign (E_lib env) c \<noteq> None"
  shows "\<exists>resp s' c. authenticatePassword env k req s = (Ok resp, s') \<and> AP_Tenant resp = Some tenant \<and>
     sign (E_lib env) c = Some (AP_AccessToken resp) \<and> C_UserID c = U_ID u \<and> C_TenantID c = t \<and>
     set (C_Permissions c) = granted (U_Roles u) []"
proof -
  have t: "login_tenant s req u = t" "use_tenant k s t = Inr (Some tenant)" "role_in_tenant s u (Some tenant) = []"
    using assms by (auto simp: login_tenant_def use_tenant_def role_in_tenant_def)
  obtain a r where pair: "login_attempt env k req u (Some tenant) s = Ok (a, r)"
    using assms(12) unfolding login_attempt_def CreateTokenPair_Ok not_None_eq by blast
  obtain resp s' where r: "authenticatePassword env k req s = (Ok resp, s')" "AP_AccessToken resp = a" "AP_Tenant resp = Some tenant"
    using password_login_succeeds [OF assms(1-6) _ pair] t by auto
  obtain c where "sign (E_lib env) c = Some a" "C_UserID c = U_ID u" "C_TenantID c = t" "set (C_Permissions c) = granted (U_Roles u) []"
    using token_pair_grants_for [OF pair [unfolded login_attempt_def]] t by auto
  then show ?thesis using r by blast
qed

text \<open>A suspended user keeps refreshing.  The refresh of a token checks that the user exists, but neither the
  status nor the date of expiry, so the user who can no longer log in still gets new access tokens.\<close>

theorem refresh_ignores_status:
  assumes "JWTRefreshToken (E_lib env) (S_jwt s) (K_now k) (K_ids k 0) token = Ok access"
    and "peek (E_lib env) access = Some c" and "RC_ExpiresAt (C_Registered c) = Some expires"
    and "S_users s (C_UserID c) = Some u" and "U_Status u = UserStatusSuspended"
  shows "\<exists>resp s'. RefreshToken env k token s = (Ok resp, s') \<and> AP_AccessToken resp = access \<and> AP_User resp = u \<and>
     checkUserStatus (K_now k) u = Some ErrUserSuspended"
  using assms by (simp add: RefreshToken_def ExtractClaims_def checkUserStatus_def auth_consts)

text \<open>Every token of a usable account authenticates, whatever its type: the login by a token checks that it
  is valid, but not that it is an access token, so a refresh token works as one for its longer life.\<close>

theorem any_token_authenticates:
  assumes "ValidateToken (E_lib env) (S_jwt s) (K_now k) (AR_Token req) = Ok c" and "AR_Token req \<noteq> []"
    and "C_TokenType c = TokenTypeRefresh" and "RC_ExpiresAt (C_Registered c) = Some expires"
    and "S_users s (C_UserID c) = Some u" and "checkUserStatus (K_now k) u = None" and "use_tenant k s (C_TenantID c) = Inr tenant"
  shows "\<exists>resp s'. authenticateToken env k req s = (Ok resp, s') \<and> AP_User resp = u \<and> AP_Tenant resp = tenant"
  using assms by (simp add: authenticateToken_def authenticate_claims_def)

text \<open>An update may take the address of another user, since it is not checked.  Afterwards the order in which
  the store is ranged over decides which of the two a login by the address reaches.\<close>

theorem renamed_user_shares_login:
  assumes "keyed_users (S_users s)" and "S_users s i = Some u" and "S_users s j = Some v" and "i \<noteq> j"
    and "str_contains (U_Email v) ''@''"
    and "req = \<lparr>UU_Username = None, UU_Email = Some (U_Email v), UU_FirstName = None, UU_LastName = None, UU_Status = None,
      UU_Metadata = None, UU_ExpiresAt = None\<rparr>"
  shows "\<exists>w s'. UpdateUser k i req s = (Ok w, s') \<and> U_Email w = U_Email v \<and> \<not> unique_logins (S_users s') \<and>
    map_option U_ID (login_user (k\<lparr>K_users := [i, j]\<rparr>) s' (U_Email v)) = Some i \<and>
    map_option U_ID (login_user (k\<lparr>K_users := [j, i]\<rparr>) s' (U_Email v)) = Some j"
proof -
  have ids: "U_ID u = i" "U_ID v = j" using assms(1-3) by (auto simp: keyed_users_def)
  let ?w = "updated_user (K_now k) req u"
  let ?s' = "s\<lparr>S_users := (S_users s)(i \<mapsto> ?w\<lparr>U_UpdatedAt := K_now k\<rparr>)\<rparr>"
  have w: "U_ID ?w = i" "U_Email ?w = U_Email v" using ids by (simp_all add: updated_user_def assms(6) or_old_def)
  have "UpdateUser k i req s = (Ok ?w, ?s')" using assms(2) w(1) by (simp add: UpdateUser_def store_UpdateUser_def Let_def)
  moreover have "\<not> unique_logins (S_users ?s')"
  proof
    assume unique: "unique_logins (S_users ?s')"
    have "S_users ?s' i = Some (?w\<lparr>U_UpdatedAt := K_now k\<rparr>)" "S_users ?s' j = Some v"
        "same_login (?w\<lparr>U_UpdatedAt := K_now k\<rparr>) v"
      using assms(3,4) w(2) by (simp_all add: same_login_def)
    with unique show False using assms(4) unfolding unique_logins_def by blast
  qed
  moreover have "login_user (k\<lparr>K_users := [i, j]\<rparr>) ?s' (U_Email v) = Some (?w\<lparr>U_UpdatedAt := K_now k\<rparr>)"
      "login_user (k\<lparr>K_users := [j, i]\<rparr>) ?s' (U_Email v) = Some v"
    using assms(3-5) w by (simp_all add: login_user_def store_GetUserByEmail_def range_values_def List.map_filter_def)
  ultimately show ?thesis using w ids by (intro exI [of _ ?w] exI [of _ ?s']) simp
qed

section \<open>Examples\<close>

text \<open>A user, a tenant to which nobody belongs, and tokens that consist of their type.\<close>

definition demo_user :: "string \<Rightarrow> User" where
  "demo_user status =
     \<lparr>U_ID = ''u'', U_Username = ''ann'', U_Email = ''ann@x.io'', U_PasswordHash = ''#secret'', U_FirstName = [], U_LastName = [],
      U_Status = status, U_Roles = [RoleUser], U_Permissions = GetRolePermissions RoleUser, U_Metadata = Map.empty,
      U_CreatedAt = 0, U_UpdatedAt = 0, U_LastLoginAt = None, U_ExpiresAt = None\<rparr>"

definition demo_tenant :: Tenant where
  "demo_tenant =
     \<lparr>T_ID = ''t'', T_Name = ''acme'', T_DisplayName = [], T_Domain = [], T_Status = TenantStatusActive,
      T_Settings = DefaultTenantSettings, T_Metadata = Map.empty, T_CreatedAt = 0, T_UpdatedAt = 0, T_ExpiresAt = None\<rparr>"

definition demo_claims :: "string \<Rightarrow> Claims" where
  "demo_claims type =
     \<lparr>C_UserID = ''u'', C_Username = ''ann'', C_Email = ''ann@x.io'', C_TenantID = nil_uuid, C_Roles = [], C_TenantRole = [],
      C_Permissions = [], C_Scopes = [], C_TokenID = ''1'', C_TokenType = type,
      C_Registered = \<lparr>RC_Issuer = ''i'', RC_Subject = ''u'', RC_Audience = [''i''], RC_ExpiresAt = Some 900, RC_NotBefore = Some 0,
        RC_IssuedAt = Some 0, RC_ID = ''1''\<rparr>\<rparr>"

definition demo_library :: jwt_library where
  "demo_library =
     \<lparr>numeric_date = id, sign = (\<lambda>c. Some (C_TokenType c)),
      parse = (\<lambda>now t. if now < 900 then Some (demo_claims t) else None), peek = (\<lambda>t. Some (demo_claims t))\<rparr>"

definition demo_env :: auth_env where
  "demo_env = fst (NewService demo_library (\<lambda>_ p. Some (''#'' @ p)) (\<lambda>h p. h = ''#'' @ p) 0 sample_manager Map.empty empty_tenants None)"

definition demo_state :: "users \<Rightarrow> (uuid \<rightharpoonup> Tenant) \<Rightarrow> auth_state" where
  "demo_state us ts =
     snd (NewService demo_library (\<lambda>_ p. Some (''#'' @ p)) (\<lambda>h p. h = ''#'' @ p) 0 sample_manager us
       (empty_tenants\<lparr>TN_tenants := ts\<rparr>) None)"

definition demo_call :: "time \<Rightarrow> call" where
  "demo_call now = \<lparr>K_now = now, K_hour = 0, K_ids = (\<lambda>n. if n = 0 then ''u'' else ''v''), K_users = [''u'', ''v''], K_tenants = [''t'']\<rparr>"

definition demo_login :: "string \<Rightarrow> AuthRequest" where
  "demo_login password =
     \<lparr>AR_Type = AuthTypePassword, AR_Username = ''ann'', AR_Email = [], AR_Password = password, AR_APIKey = [], AR_Token = [],
      AR_TenantID = ''t'', AR_ExpiresIn = None, AR_Scopes = []\<rparr>"

lemma demo_env_simps [simp]:
  "E_lib demo_env = demo_library" "E_bcrypt_ok demo_env h p = (h = ''#'' @ p)" "E_bcrypt_hash demo_env c p = Some (''#'' @ p)"
  "E_config demo_env = DefaultServiceConfig" "E_policy demo_env = TS_PasswordPolicy DefaultTenantSettings"
  by (simp_all add: demo_env_def NewService_def)

lemma demo_state_simps [simp]:
  "S_users (demo_state us ts) = us" "S_tenants (demo_state us ts) = empty_tenants\<lparr>TN_tenants := ts\<rparr>"
  "S_jwt (demo_state us ts) = sample_manager" "S_attempts (demo_state us ts) = Map.empty"
  by (simp_all add: demo_state_def NewService_def)

lemma demo_call_simps [simp]:
  "K_now (demo_call t) = t" "K_ids (demo_call t) 0 = ''u''" "K_users (demo_call t) = [''u'', ''v'']" "K_tenants (demo_call t) = [''t'']"
  by (simp_all add: demo_call_def)

lemma demo_user_simps [simp]:
  "U_ID (demo_user st) = ''u''" "U_Username (demo_user st) = ''ann''" "U_Email (demo_user st) = ''ann@x.io''"
  "U_PasswordHash (demo_user st) = ''#secret''" "U_Roles (demo_user st) = [RoleUser]" "U_Status (demo_user st) = st"
  "U_ExpiresAt (demo_user st) = None"
  by (simp_all add: demo_user_def)

lemma demo_login_simps [simp]:
  "login_identifier (demo_login p) = ''ann''" "AR_Password (demo_login p) = p" "AR_TenantID (demo_login p) = ''t''"
  "AR_Scopes (demo_login p) = []"
  by (simp_all add: demo_login_def login_identifier_def)

lemma demo_claims_simps [simp]:
  "C_UserID (demo_claims t) = ''u''" "C_TenantID (demo_claims t) = nil_uuid" "C_TokenType (demo_claims t) = t" "C_TokenID (demo_claims t) = ''1''"
  "RC_ExpiresAt (C_Registered (demo_claims t)) = Some 900"
  by (simp_all add: demo_claims_def)

lemma demo_library_simps [simp]:
  "sign demo_library c = Some (C_TokenType c)" "peek demo_library t = Some (demo_claims t)"
  "parse demo_library now t = (if now < 900 then Some (demo_claims t) else None)"
  by (simp_all add: demo_library_def)

abbreviation demo_users :: "string \<Rightarrow> users" where
  "demo_users st \<equiv> [''u'' \<mapsto> demo_user st]"

abbreviation demo_tenants :: "uuid \<rightharpoonup> Tenant" where
  "demo_tenants \<equiv> [''t'' \<mapsto> demo_tenant]"

lemma demo_found: "login_user (demo_call t) (demo_state (demo_users st) ts) ''ann'' = Some (demo_user st)"
  by (simp add: login_user_def str_contains_byte store_GetUserByUsername_def range_values_def List.map_filter_def)

lemma active_user_ok: "U_Status u = UserStatusActive \<Longrightarrow> U_ExpiresAt u = None \<Longrightarrow> checkUserStatus now u = None"
  by (simp add: checkUserStatus_def past_def auth_consts)

lemma demo_tenant_ok: "checkTenantStatus now demo_tenant = None"
  by (simp add: checkTenantStatus_def demo_tenant_def past_def auth_consts)

lemma demo_pair:
  "CreateTokenPair demo_library m now f1 f2 uid name email tid roles tr scopes = Ok (TokenTypeAccess, TokenTypeRefresh)"
  by (simp add: CreateTokenPair_Ok)

lemma demo_logs_in:
  "\<exists>resp s'. authenticatePassword demo_env (demo_call 5) (demo_login ''secret'') (demo_state (demo_users UserStatusActive) demo_tenants) =
     (Ok resp, s') \<and> AP_AccessToken resp = TokenTypeAccess"
proof -
  have "use_tenant (demo_call 5) (demo_state (demo_users UserStatusActive) demo_tenants) ''t'' = Inr (Some demo_tenant)"
    by (simp add: use_tenant_def nil_uuid_def demo_tenant_ok)
  moreover have "login_tenant s (demo_login ''secret'') u = ''t''" for s u by (simp add: login_tenant_def nil_uuid_def)
  ultimately have "\<exists>resp s'. authenticatePassword demo_env (demo_call 5) (demo_login ''secret'')
      (demo_state (demo_users UserStatusActive) demo_tenants) = (Ok resp, s') \<and> AP_AccessToken resp = TokenTypeAccess \<and>
      AP_Tenant resp = Some demo_tenant"
    by (intro password_login_succeeds [where u = "demo_user UserStatusActive" and r = TokenTypeRefresh])
      (simp_all add: checkRateLimit_def demo_found active_user_ok demo_pair login_attempt_def)
  then show ?thesis by blast
qed

theorem login_sound_witness:
  "\<exists>u c. E_bcrypt_ok demo_env (U_PasswordHash (u :: User)) ''secret'' \<and> sign demo_library c = Some TokenTypeAccess \<and> C_UserID (c :: Claims) = U_ID u"
proof -
  obtain resp s' where r: "authenticatePassword demo_env (demo_call 5) (demo_login ''secret'')
      (demo_state (demo_users UserStatusActive) demo_tenants) = (Ok resp, s')" "AP_AccessToken resp = TokenTypeAccess"
    using demo_logs_in by blast
  obtain u :: User and c :: Claims where "E_bcrypt_ok demo_env (U_PasswordHash u) (AR_Password (demo_login ''secret''))"
      "sign (E_lib demo_env) c = Some (AP_AccessToken resp)" "C_UserID c = U_ID u"
    using login_sound [OF r(1)] by blast
  then show ?thesis using r(2) by auto
qed


definition demo_signup :: "string \<Rightarrow> CreateUserRequest" where
  "demo_signup name =
     \<lparr>CU_Username = name, CU_Email = name @ ''@x.io'', CU_Password = ''Secret12'', CU_FirstName = [], CU_LastName = [],
      CU_Roles = [RoleViewer, ''other''], CU_TenantID = None, CU_TenantRole = None, CU_Metadata = Map.empty, CU_ExpiresAt = None\<rparr>"

lemma demo_signup_simps [simp]:
  "CU_Username (demo_signup n) = n" "CU_Email (demo_signup n) = n @ ''@x.io''" "CU_Password (demo_signup n) = ''Secret12''"
  "CU_Roles (demo_signup n) = [RoleViewer, ''other'']" "CU_TenantID (demo_signup n) = None" "CU_TenantRole (demo_signup n) = None"
  by (simp_all add: demo_signup_def)

lemma demo_signup_valid:
  "validateCreateUserRequest demo_env (demo_signup ''ann'') = None" "validateCreateUserRequest demo_env (demo_signup ''bob'') = None"
proof -
  have "isValidEmail ''ann@x.io''" "isValidEmail ''bob@x.io''"
    "validatePassword (TS_PasswordPolicy DefaultTenantSettings) ''Secret12'' = None"
    by code_simp+
  then show "validateCreateUserRequest demo_env (demo_signup ''ann'') = None" "validateCreateUserRequest demo_env (demo_signup ''bob'') = None"
    by (simp_all add: validateCreateUserRequest_def demo_signup_def)
qed

lemma demo_create:
  "snd (CreateUser demo_env (demo_call 0) (demo_signup ''ann'') (demo_state Map.empty Map.empty)) =
     demo_state [''u'' \<mapsto> new_user (demo_call 0) ''#Secret12'' (demo_signup ''ann'')] Map.empty"
  by (simp add: CreateUser_def demo_signup_valid store_GetUserByEmail_def store_GetUserByUsername_def store_CreateUser_def
      range_values_def List.map_filter_def Let_def new_user_def join_tenant_def)
    (simp add: demo_state_def NewService_def)

lemma demo_created:
  "auth_step renames demo_env (demo_state Map.empty Map.empty)
     (demo_state [''u'' \<mapsto> new_user (demo_call 0) ''#Secret12'' (demo_signup ''ann'')] Map.empty)"
  unfolding demo_create [symmetric] by (rule create_user) (simp add: sees_all_def)

theorem permission_iff_role_witness:
  "CheckPermission ''u'' PermissionDataRead (demo_state [''u'' \<mapsto> new_user (demo_call 0) ''#Secret12'' (demo_signup ''ann'')] Map.empty) = Ok True"
proof -
  have "PermissionDataRead \<in> granted [RoleViewer, ''other''] []"
    by (simp add: granted_def GetRolePermissions_def auth_consts)
  then show ?thesis
    using permission_iff_role [of demo_env, OF r_into_rtranclp [of "auth_step True demo_env", OF demo_created], of "''u''" _ PermissionDataRead]
    by (simp add: new_user_def demo_signup_def)
qed

definition demo_bob :: User where
  "demo_bob = (demo_user UserStatusActive)\<lparr>U_ID := ''v'', U_Username := ''bob'', U_Email := ''bob@x.io''\<rparr>"

theorem renamed_user_shares_login_witness:
  "\<exists>w s'. UpdateUser (demo_call 0) ''v''
      \<lparr>UU_Username = None, UU_Email = Some ''ann@x.io'', UU_FirstName = None, UU_LastName = None, UU_Status = None,
       UU_Metadata = None, UU_ExpiresAt = None\<rparr> (demo_state [''u'' \<mapsto> demo_user UserStatusActive, ''v'' \<mapsto> demo_bob] Map.empty) =
     (Ok w, s') \<and> \<not> unique_logins (S_users s')"
proof -
  have "keyed_users [''u'' \<mapsto> demo_user UserStatusActive, ''v'' \<mapsto> demo_bob]" by (simp add: keyed_users_def demo_bob_def)
  then show ?thesis
    using renamed_user_shares_login [of "demo_state [''u'' \<mapsto> demo_user UserStatusActive, ''v'' \<mapsto> demo_bob] Map.empty" "''v''" demo_bob
        "''u''" "demo_user UserStatusActive" _ "demo_call 0"]
    by (fastforce simp: str_contains_byte)
qed

theorem login_into_foreign_tenant_witness:
  "\<exists>resp s'. authenticatePassword demo_env (demo_call 5) (demo_login ''secret'')
      (demo_state (demo_users UserStatusActive) demo_tenants) = (Ok resp, s') \<and> AP_Tenant resp = Some demo_tenant"
proof -
  have "\<exists>resp s' c. authenticatePassword demo_env (demo_call 5) (demo_login ''secret'')
      (demo_state (demo_users UserStatusActive) demo_tenants) = (Ok resp, s') \<and> AP_Tenant resp = Some demo_tenant \<and>
     sign (E_lib demo_env) c = Some (AP_AccessToken resp) \<and> C_UserID c = U_ID (demo_user UserStatusActive) \<and> C_TenantID c = ''t'' \<and>
     set (C_Permissions c) = granted (U_Roles (demo_user UserStatusActive)) []"
    by (rule login_into_foreign_tenant)
      (simp_all add: checkRateLimit_def demo_found active_user_ok demo_tenant_ok empty_tenants_def nil_uuid_def)
  then show ?thesis by blast
qed

lemma demo_refresh:
  "JWTRefreshToken demo_library sample_manager 5 f TokenTypeRefresh = Ok TokenTypeAccess"
  by (simp add: JWTRefreshToken_def ValidateToken_def IsTokenRevoked_def sample_manager_def GenerateToken_def sign_token_def
      refreshed_claims_def)

theorem refresh_ignores_status_witness:
  "\<exists>resp s'. RefreshToken demo_env (demo_call 5) TokenTypeRefresh (demo_state (demo_users UserStatusSuspended) Map.empty) = (Ok resp, s')"
  using refresh_ignores_status [of demo_env "demo_state (demo_users UserStatusSuspended) Map.empty" "demo_call 5" TokenTypeRefresh
      TokenTypeAccess]
  by (fastforce simp: demo_refresh)

definition demo_token_login :: AuthRequest where
  "demo_token_login = (demo_login [])\<lparr>AR_Type := AuthTypeToken, AR_Token := TokenTypeRefresh\<rparr>"

theorem any_token_authenticates_witness:
  "\<exists>resp s'. authenticateToken demo_env (demo_call 5) demo_token_login (demo_state (demo_users UserStatusActive) Map.empty) = (Ok resp, s')"
proof -
  have "ValidateToken demo_library sample_manager 5 TokenTypeRefresh = Ok (demo_claims TokenTypeRefresh)"
    by (simp add: ValidateToken_def IsTokenRevoked_def sample_manager_def)
  moreover have "AR_Token demo_token_login = TokenTypeRefresh" "TokenTypeRefresh \<noteq> []"
    by (simp_all add: demo_token_login_def auth_consts)
  moreover have "use_tenant k s nil_uuid = Inr None" for k s by (simp add: use_tenant_def)
  ultimately show ?thesis
    using any_token_authenticates [of demo_env "demo_state (demo_users UserStatusActive) Map.empty" "demo_call 5" demo_token_login]
    by (fastforce simp: active_user_ok)
qed

lemma demo_create_second:
  "snd (CreateUser demo_env ((demo_call 0)\<lparr>K_ids := \<lambda>_. ''v''\<rparr>) (demo_signup ''bob'')
       (demo_state [''u'' \<mapsto> new_user (demo_call 0) ''#Secret12'' (demo_signup ''ann'')] Map.empty)) =
     demo_state [''u'' \<mapsto> new_user (demo_call 0) ''#Secret12'' (demo_signup ''ann''),
       ''v'' \<mapsto> new_user ((demo_call 0)\<lparr>K_ids := \<lambda>_. ''v''\<rparr>) ''#Secret12'' (demo_signup ''bob'')] Map.empty"
  by (simp add: CreateUser_def demo_signup_valid store_GetUserByEmail_def store_GetUserByUsername_def store_CreateUser_def
      range_values_def List.map_filter_def Let_def new_user_def join_tenant_def same_login_def)
    (simp add: demo_state_def NewService_def)

theorem logins_stay_unique_witness:
  "U_Email (new_user (demo_call 0) ''#Secret12'' (demo_signup ''ann'')) \<noteq> U_Email (new_user ((demo_call 0)\<lparr>K_ids := \<lambda>_. ''v''\<rparr>) ''#Secret12'' (demo_signup ''bob''))"
proof -
  let ?s = "demo_state [''u'' \<mapsto> new_user (demo_call 0) ''#Secret12'' (demo_signup ''ann'')] Map.empty"
  have "auth_step False demo_env ?s (snd (CreateUser demo_env ((demo_call 0)\<lparr>K_ids := \<lambda>_. ''v''\<rparr>) (demo_signup ''bob'') ?s))"
    by (rule create_user) (auto simp: sees_all_def)
  with demo_created [of False] have "(auth_step False demo_env)\<^sup>*\<^sup>* (demo_state Map.empty Map.empty)
      (snd (CreateUser demo_env ((demo_call 0)\<lparr>K_ids := \<lambda>_. ''v''\<rparr>) (demo_signup ''bob'') ?s))"
    by (meson r_into_rtranclp rtranclp.rtrancl_into_rtrancl)
  from logins_stay_unique [OF this [unfolded demo_create_second], of "''u''"
      "new_user (demo_call 0) ''#Secret12'' (demo_signup ''ann'')" "''v''"
      "new_user ((demo_call 0)\<lparr>K_ids := \<lambda>_. ''v''\<rparr>) ''#Secret12'' (demo_signup ''bob'')"] show ?thesis
    by (simp add: new_user_def)
qed

definition demo_members :: auth_state where
  "demo_members =
     snd (AddUserToTenant (demo_call 0) ''b'' ''u'' TenantRoleMember
       (snd (AddUserToTenant (demo_call 0) ''a'' ''u'' TenantRoleMember
         (snd (CreateTenant demo_env (demo_call 0)
           \<lparr>CT_Name = ''acme'', CT_DisplayName = [], CT_Domain = [], CT_Settings = None, CT_Metadata = Map.empty, CT_AdminUser = None\<rparr>
           (demo_state Map.empty Map.empty))))))"

theorem removal_empties_tenant_witness:
  "length (TN_tenantUsers (S_tenants demo_members) ''u'') = 2 \<and>
   TN_tenantUsers (S_tenants (RemoveUserFromTenant ''a'' ''u'' demo_members)) ''u'' = []"
proof -
  have "length (TN_tenantUsers (S_tenants demo_members) ''u'') = 2"
    by (simp add: demo_members_def AddUserToTenant_def store_AddUserToTenant_def CreateTenant_def store_CreateTenant_def
        range_values_def List.map_filter_def new_tenant_def empty_tenants_def Let_def)
  moreover have "(auth_step True demo_env)\<^sup>*\<^sup>* (demo_state Map.empty Map.empty) demo_members"
    unfolding demo_members_def
    by (rule rtranclp.rtrancl_into_rtrancl [OF rtranclp.rtrancl_into_rtrancl [OF r_into_rtranclp [of "auth_step True demo_env",
        OF create_tenant] add_to_tenant] add_to_tenant]) (simp add: sees_all_def)
  ultimately show ?thesis using removal_empties_tenant [of True demo_env _ demo_members] by (simp add: empty_tenants_def)
qed

section \<open>New users\<close>

lemma validate_default_password:
  "validatePassword (TS_PasswordPolicy DefaultTenantSettings) p = None \<Longrightarrow>
     8 \<le> length p \<and> (\<exists>c \<in> set p. in_cls [(CHR ''A'', CHR ''Z'')] c) \<and> (\<exists>c \<in> set p. in_cls [(CHR ''a'', CHR ''z'')] c) \<and>
     (\<exists>c \<in> set p. in_cls [(CHR ''0'', CHR ''9'')] c)"
  by (auto simp: validatePassword_def DefaultTenantSettings_def list_ex_iff split: if_splits)

text \<open>A user that is created has a well-formed address and a password of at least eight bytes with an upper-case
  letter, a lower-case letter and a digit; only its hash is stored; nobody had the name or the address
  before; and the permissions are those of the roles.\<close>

theorem created_user_sound:
  assumes "CreateUser env k req s = (Ok u, s')" and "sees_all k s" and "E_policy env = TS_PasswordPolicy DefaultTenantSettings"
  shows "isValidEmail (CU_Email req) \<and> 8 \<le> length (CU_Password req) \<and>
     (\<exists>a \<in> set (CU_Password req). in_cls [(CHR ''A'', CHR ''Z'')] a) \<and>
     (\<exists>a \<in> set (CU_Password req). in_cls [(CHR ''a'', CHR ''z'')] a) \<and>
     (\<exists>a \<in> set (CU_Password req). in_cls [(CHR ''0'', CHR ''9'')] a) \<and>
     E_bcrypt_hash env (SC_PasswordCost (E_config env)) (CU_Password req) = Some (U_PasswordHash u) \<and>
     (\<forall>i v. S_users s i = Some v \<longrightarrow> U_Email v \<noteq> CU_Email req \<and> U_Username v \<noteq> CU_Username req) \<and>
     S_users s' = (S_users s)(U_ID u \<mapsto> u) \<and> set (U_Permissions u) = granted (CU_Roles req) []"
proof -
  obtain hash us where c: "validateCreateUserRequest env req = None" "u = new_user k hash req" "S_users s' = us"
      "E_bcrypt_hash env (SC_PasswordCost (E_config env)) (CU_Password req) = Some hash"
      "store_CreateUser (K_users k) (S_users s) u = Some us"
    using assms(1) by (auto simp: CreateUser_def Let_def split: option.splits if_splits)
  have u: "U_Email u = CU_Email req" "U_Username u = CU_Username req" "U_PasswordHash u = hash"
      "set (U_Permissions u) = granted (CU_Roles req) []"
    by (simp_all add: c(2) new_user_def role_permissions_def granted_def GetTenantRolePermissions_def auth_consts)
  have "us = (S_users s)(U_ID u \<mapsto> u) \<and> (\<forall>i v. S_users s i = Some v \<longrightarrow> \<not> same_login v u)"
    using memory_users.create_law [OF c(5)] assms(2) by (simp add: sees_all_def)
  moreover have "isValidEmail (CU_Email req)" "validatePassword (E_policy env) (CU_Password req) = None"
    using c(1) by (auto simp: validateCreateUserRequest_def split: if_splits)
  moreover note validate_default_password [of "CU_Password req"]
  ultimately show ?thesis using c(3,4) u assms(3) by (simp add: same_login_def)
qed

theorem created_user_sound_witness:
  "isValidEmail (CU_Email (demo_signup ''ann'')) \<and> 8 \<le> length (CU_Password (demo_signup ''ann''))"
proof -
  have "\<exists>u s'. CreateUser demo_env (demo_call 0) (demo_signup ''ann'') (demo_state Map.empty Map.empty) = (Ok u, s')"
    by (simp add: CreateUser_def demo_signup_valid store_GetUserByEmail_def store_GetUserByUsername_def store_CreateUser_def
      range_values_def List.map_filter_def Let_def)
  then obtain u s' where c: "CreateUser demo_env (demo_call 0) (demo_signup ''ann'') (demo_state Map.empty Map.empty) = (Ok u, s')"
    by blast
  from created_user_sound [OF c] show ?thesis by (simp add: sees_all_def)
qed

end
