(* ===== verification/Auth_Middleware.thy ===== *)
theory Auth_Middleware imports Auth_Access begin

text \<open>
  The HTTP middleware of the authentication package (\<^verbatim>\<open>pkg/auth/middleware.go\<close>).  A request is what the
  middleware reads of it: the path, and the headers, cookies and query values by name.  A handler of
  gin either lets the request pass with a context or answers it with a status and a code.

  The lemmas: what a request that passes has shown, where the variant for plain \<^verbatim>\<open>net/http\<close> differs, and
  the bound that the rate limiter keeps in every window of a minute.
\<close>

section \<open>Requests and configuration\<close>

record http_request =
  R_path :: string
  R_header :: "string \<Rightarrow> string"
  R_cookie :: "string \<Rightarrow> string option"
  R_query :: "string \<Rightarrow> string"

record MiddlewareConfig =
  MC_RequireAuth :: bool
  MC_AllowedPaths :: "string list"
  MC_RequiredScopes :: "string list"
  MC_RequiredPermissions :: "Permission list"
  MC_TokenHeader :: string
  MC_TokenPrefix :: string
  MC_APIKeyHeader :: string
  MC_CookieName :: string
  MC_SkipPaths :: "string list"

definition DefaultMiddlewareConfig :: MiddlewareConfig where
  "DefaultMiddlewareConfig =
     \<lparr>MC_RequireAuth = True, MC_AllowedPaths = [''/health'', ''/metrics'', ''/auth/login'', ''/auth/register''],
      MC_RequiredScopes = [], MC_RequiredPermissions = [], MC_TokenHeader = ''Authorization'', MC_TokenPrefix = ''Bearer '',
      MC_APIKeyHeader = ''X-API-Key'', MC_CookieName = ''auth_token'', MC_SkipPaths = [''/health'', ''/metrics'', ''/swagger'']\<rparr>"

definition NewAuthMiddleware :: "MiddlewareConfig option \<Rightarrow> MiddlewareConfig" where
  "NewAuthMiddleware config = (case config of None \<Rightarrow> DefaultMiddlewareConfig | Some c \<Rightarrow> c)"

definition shouldSkipAuth :: "MiddlewareConfig \<Rightarrow> string \<Rightarrow> bool" where
  "shouldSkipAuth config path \<longleftrightarrow>
     list_ex (\<lambda>p. prefix p path) (MC_SkipPaths config) \<or>
     list_ex (\<lambda>p. path = p \<or> prefix p path) (MC_AllowedPaths config)"

text \<open>\<open>trim\<close> is \<^verbatim>\<open>strings.TrimSpace\<close>.\<close>

definition extractToken :: "(string \<Rightarrow> string) \<Rightarrow> MiddlewareConfig \<Rightarrow> http_request \<Rightarrow> string \<times> string" where
  "extractToken trim config r =
     (let authHeader = R_header r (MC_TokenHeader config); apiKey = R_header r (MC_APIKeyHeader config)
      in if authHeader \<noteq> []
         then (if prefix (MC_TokenPrefix config) authHeader
               then (trim (drop (length (MC_TokenPrefix config)) authHeader), AuthTypeToken)
               else (trim authHeader, AuthTypeToken))
         else if apiKey \<noteq> [] then (trim apiKey, AuthTypeAPIKey)
         else case (if MC_CookieName config \<noteq> [] then R_cookie r (MC_CookieName config) else None) of
                Some (c # cs) \<Rightarrow> (c # cs, AuthTypeToken)
              | _ \<Rightarrow>
                  if R_query r ''token'' \<noteq> [] then (R_query r ''token'', AuthTypeToken)
                  else if R_query r ''api_key'' \<noteq> [] then (R_query r ''api_key'', AuthTypeAPIKey)
                  else ([], AuthTypeToken))"

text \<open>\<^verbatim>\<open>hasRequiredScopes\<close> and \<^verbatim>\<open>hasRequiredPermissions\<close>, which agree on strings.\<close>

definition has_required :: "string list \<Rightarrow> string list \<Rightarrow> bool" where
  "has_required held required \<longleftrightarrow> required = [] \<or> list_all (\<lambda>r. r \<in> set held) required"

section \<open>The gates\<close>

record auth_context =
  X_user :: "User option"
  X_tenant :: "Tenant option"
  X_scopes :: "string list"
  X_claims :: "Claims option"

definition no_context :: auth_context where
  "no_context = \<lparr>X_user = None, X_tenant = None, X_scopes = [], X_claims = None\<rparr>"

datatype gate = Next auth_context | Abort int string | Crash

definition token_request :: "string \<Rightarrow> string \<Rightarrow> AuthRequest" where
  "token_request authType token =
     \<lparr>AR_Type = authType, AR_Username = [], AR_Email = [], AR_Password = [],
      AR_APIKey = (if authType = AuthTypeAPIKey then token else []),
      AR_Token = (if authType = AuthTypeAPIKey then [] else token), AR_TenantID = nil_uuid, AR_ExpiresIn = None, AR_Scopes = []\<rparr>"

definition claims_of :: "auth_env \<Rightarrow> call \<Rightarrow> string \<Rightarrow> auth_state \<Rightarrow> Claims option" where
  "claims_of env k token s = (case ValidateToken (E_lib env) (S_jwt s) (K_now k) token of Ok c \<Rightarrow> Some c | _ \<Rightarrow> None)"

definition user_context :: "auth_env \<Rightarrow> call \<Rightarrow> AuthResponse \<Rightarrow> auth_state \<Rightarrow> auth_context" where
  "user_context env k resp s =
     \<lparr>X_user = Some (AP_User resp), X_tenant = AP_Tenant resp, X_scopes = AP_Scopes resp,
      X_claims = claims_of env k (AP_AccessToken resp) s\<rparr>"

definition lacks_permissions :: "auth_env \<Rightarrow> call \<Rightarrow> MiddlewareConfig \<Rightarrow> string \<Rightarrow> auth_state \<Rightarrow> bool" where
  "lacks_permissions env k config token s \<longleftrightarrow>
     MC_RequiredPermissions config \<noteq> [] \<and>
     (case claims_of env k token s of None \<Rightarrow> True | Some c \<Rightarrow> \<not> has_required (C_Permissions c) (MC_RequiredPermissions config))"

definition AuthenticateGin :: "(string \<Rightarrow> string) \<Rightarrow> auth_env \<Rightarrow> call \<Rightarrow> MiddlewareConfig \<Rightarrow> http_request \<Rightarrow> auth_state \<Rightarrow> gate \<times> auth_state" where
  "AuthenticateGin trim env k config r s =
     (if shouldSkipAuth config (R_path r) then (Next no_context, s)
      else case extractToken trim config r of
        (token, authType) \<Rightarrow>
          if token = [] then (if MC_RequireAuth config then Abort 401 ''MISSING_TOKEN'' else Next no_context, s)
          else case Authenticate env k (token_request authType token) s of
                 (Panic, s) \<Rightarrow> (Crash, s)
               | (Err e, s) \<Rightarrow> (Abort 401 ''AUTH_FAILED'', s)
               | (Ok resp, s) \<Rightarrow>
                   if MC_RequiredScopes config \<noteq> [] \<and> \<not> has_required (AP_Scopes resp) (MC_RequiredScopes config)
                   then (Abort 403 ''INSUFFICIENT_SCOPES'', s)
                   else if lacks_permissions env k config token s then (Abort 403 ''INSUFFICIENT_PERMISSIONS'', s)
                   else (Next (user_context env k resp s), s))"

definition AuthenticateHTTP :: "(string \<Rightarrow> string) \<Rightarrow> auth_env \<Rightarrow> call \<Rightarrow> MiddlewareConfig \<Rightarrow> http_request \<Rightarrow> auth_state \<Rightarrow> gate \<times> auth_state" where
  "AuthenticateHTTP trim env k config r s =
     (if shouldSkipAuth config (R_path r) then (Next no_context, s)
      else case extractToken trim config r of
        (token, authType) \<Rightarrow>
          if token = [] then (if MC_RequireAuth config then Abort 401 ''missing authentication token'' else Next no_context, s)
          else case Authenticate env k (token_request authType token) s of
                 (Panic, s) \<Rightarrow> (Crash, s)
               | (Err e, s) \<Rightarrow> (Abort 401 ''authentication failed'', s)
               | (Ok resp, s) \<Rightarrow>
                   if lacks_permissions env k config token s then (Abort 403 ''insufficient permissions'', s)
                   else (Next (user_context env k resp s), s))"

definition RequirePermission :: "Permission list \<Rightarrow> auth_context \<Rightarrow> gate" where
  "RequirePermission permissions x =
     (if X_user x = None then Abort 401 ''AUTH_REQUIRED''
      else case X_claims x of
             None \<Rightarrow> Abort 403 ''INVALID_AUTH_CONTEXT''
           | Some c \<Rightarrow>
               if \<not> has_required (C_Permissions c) permissions then Abort 403 ''INSUFFICIENT_PERMISSIONS'' else Next x)"

definition RequireRole :: "Role list \<Rightarrow> auth_context \<Rightarrow> gate" where
  "RequireRole roles x =
     (case X_user x of
        None \<Rightarrow> Abort 401 ''AUTH_REQUIRED''
      | Some u \<Rightarrow> if list_ex (\<lambda>r. r \<in> set (U_Roles u)) roles then Next x else Abort 403 ''INSUFFICIENT_ROLE'')"

definition RequireTenantRole :: "TenantRole list \<Rightarrow> auth_context \<Rightarrow> gate" where
  "RequireTenantRole tenantRoles x =
     (case X_claims x of
        None \<Rightarrow> Abort 401 ''AUTH_REQUIRED''
      | Some c \<Rightarrow> if C_TenantRole c \<in> set tenantRoles then Next x else Abort 403 ''INSUFFICIENT_TENANT_ROLE'')"

section \<open>The rate limiter\<close>

text \<open>The state is the list of the accepted requests of each client, in seconds.\<close>

definition rate_limit :: "int \<Rightarrow> string \<Rightarrow> int \<Rightarrow> (string \<Rightarrow> int list) \<Rightarrow> bool \<times> (string \<Rightarrow> int list)" where
  "rate_limit requestsPerMinute ip now clients =
     (let recent = filter (\<lambda>ts. now - ts < 60) (clients ip); clients = clients(ip := recent)
      in if int (length recent) \<ge> requestsPerMinute then (False, clients) else (True, clients(ip := recent @ [now])))"

text \<open>The times of the requests of a client that pass.\<close>

fun accepted :: "int \<Rightarrow> string \<Rightarrow> (string \<times> int) list \<Rightarrow> (string \<Rightarrow> int list) \<Rightarrow> int list" where
  "accepted n ip [] clients = []"
| "accepted n ip ((i, now) # rs) clients =
     (case rate_limit n i now clients of
        (ok, clients) \<Rightarrow> if ok \<and> i = ip then now # accepted n ip rs clients else accepted n ip rs clients)"

lemma rate_limit_cases:
  "snd (rate_limit n i now clients) ip =
     (if i \<noteq> ip then clients ip
      else if fst (rate_limit n i now clients) then filter (\<lambda>x. now - 60 < x) (clients ip) @ [now]
      else filter (\<lambda>x. now - 60 < x) (clients ip))"
  "fst (rate_limit n i now clients) \<longleftrightarrow> int (length (filter (\<lambda>x. now - 60 < x) (clients i))) < n"
proof -
  have f: "(now - x < 60) = (now - 60 < x)" for x by auto
  show "snd (rate_limit n i now clients) ip =
     (if i \<noteq> ip then clients ip
      else if fst (rate_limit n i now clients) then filter (\<lambda>x. now - 60 < x) (clients ip) @ [now]
      else filter (\<lambda>x. now - 60 < x) (clients ip))"
    "fst (rate_limit n i now clients) \<longleftrightarrow> int (length (filter (\<lambda>x. now - 60 < x) (clients i))) < n"
    unfolding rate_limit_def f Let_def by auto
qed

text \<open>The number of requests in the minute that starts at \<open>t\<close>.\<close>

definition in_minute :: "int \<Rightarrow> int list \<Rightarrow> int" where
  "in_minute t xs = int (length (filter (\<lambda>x. t \<le> x \<and> x < t + 60) xs))"

lemma accepted_window:
  "sorted (t0 # map snd rs) \<Longrightarrow> clients ip = filter (\<lambda>x. lo < x) history \<Longrightarrow> lo \<le> t0 - 60 \<Longrightarrow> 0 \<le> n \<Longrightarrow>
   \<forall>x \<in> set history. x \<le> t0 \<Longrightarrow> \<forall>t. in_minute t history \<le> n \<Longrightarrow> in_minute t (history @ accepted n ip rs clients) \<le> n"
proof (induction rs arbitrary: t0 clients lo history)
  case (Cons r rs)
  obtain i now where r: "r = (i, now)" by (cases r)
  let ?ok = "fst (rate_limit n i now clients)" and ?clients = "snd (rate_limit n i now clients)"
  have now: "t0 \<le> now" "sorted (now # map snd rs)" using Cons.prems(1) r by auto
  have acc: "accepted n ip (r # rs) clients = (if ?ok \<and> i = ip then [now] else []) @ accepted n ip rs ?clients"
    by (auto simp: r case_prod_unfold)
  show ?case
  proof (cases "i = ip")
    case False
    have "?clients ip = filter (\<lambda>x. lo < x) history" using Cons.prems(2) False by (simp add: rate_limit_cases)
    with Cons.IH [OF now(2), of ?clients lo history] show ?thesis using Cons.prems(3-6) now(1) False by (fastforce simp: acc)
  next
    case True
    have recent: "filter (\<lambda>x. now - 60 < x) (clients ip) = filter (\<lambda>x. now - 60 < x) history"
    proof -
      have "(now - 60 < x \<and> lo < x) = (now - 60 < x)" for x using Cons.prems(3) now(1) by auto
      then show ?thesis unfolding Cons.prems(2) by (simp add: conj_commute)
    qed
    show ?thesis
    proof (cases ?ok)
      case ok: True
      have few: "int (length (filter (\<lambda>x. now - 60 < x) history)) < n" using ok True recent by (simp add: rate_limit_cases)
      have "in_minute t (history @ [now]) \<le> n" for t
      proof (cases "t \<le> now \<and> now < t + 60")
        case True
        have sub: "filter (\<lambda>x. t \<le> x \<and> x < t + 60) history = filter (\<lambda>x. t \<le> x \<and> x < t + 60) (filter (\<lambda>x. now - 60 < x) history)"
          unfolding filter_filter using True by (intro filter_cong) auto
        have "length (filter (\<lambda>x. t \<le> x \<and> x < t + 60) history) \<le> length (filter (\<lambda>x. now - 60 < x) history)"
          unfolding sub by (rule length_filter_le)
        then show ?thesis using few True by (simp add: in_minute_def)
      next
        case False
        then show ?thesis using Cons.prems(6) by (auto simp: in_minute_def)
      qed
      moreover have "?clients ip = filter (\<lambda>x. now - 60 < x) (history @ [now])" using True ok recent by (simp add: rate_limit_cases)
      ultimately have "in_minute t ((history @ [now]) @ accepted n ip rs ?clients) \<le> n"
        using Cons.IH [OF now(2), of ?clients "now - 60" "history @ [now]"] Cons.prems(4,5) now(1) by fastforce
      then show ?thesis using True ok by (simp add: acc)
    next
      case False
      have "?clients ip = filter (\<lambda>x. now - 60 < x) history" using True False recent by (simp add: rate_limit_cases)
      with Cons.IH [OF now(2), of ?clients "now - 60" history] show ?thesis using Cons.prems(4-6) now(1) False
        by (fastforce simp: acc)
    qed
  qed
qed simp



section \<open>What passes the gate\<close>

lemma has_required_iff: "has_required held required \<longleftrightarrow> set required \<subseteq> set held"
  by (auto simp: has_required_def list_all_iff)


text \<open>The variant for plain HTTP never looks at scopes: a request whose token lacks a required scope is turned
  away by the middleware for gin and passes the other one.\<close>

theorem scopes_unchecked_over_http:
  assumes "\<not> shouldSkipAuth config (R_path r)" and "extractToken trim config r = (token, authType)" and "token \<noteq> []"
    and "Authenticate env k (token_request authType token) s = (Ok resp, s')"
    and "\<not> set (MC_RequiredScopes config) \<subseteq> set (AP_Scopes resp)" and "MC_RequiredPermissions config = []"
  shows "AuthenticateGin trim env k config r s = (Abort 403 ''INSUFFICIENT_SCOPES'', s') \<and>
    AuthenticateHTTP trim env k config r s = (Next (user_context env k resp s'), s')"
  using assms by (auto simp: AuthenticateGin_def AuthenticateHTTP_def lacks_permissions_def has_required_iff)

text \<open>Exempt paths are prefixes of strings, not of paths: whatever begins with an exempt path is exempt too.\<close>

theorem exempt_paths_extend:
  assumes "shouldSkipAuth config p"
  shows "AuthenticateGin trim env k config \<lparr>R_path = p @ q, R_header = h, R_cookie = c, R_query = qy\<rparr> s = (Next no_context, s)"
proof -
  have "shouldSkipAuth config (p @ q)" using assms by (auto simp: shouldSkipAuth_def list_ex_iff intro: prefix_prefix)
  then show ?thesis by (simp add: AuthenticateGin_def)
qed

theorem exempt_paths_extend_witness:
  "AuthenticateGin id demo_env (demo_call 0) DefaultMiddlewareConfig
     \<lparr>R_path = ''/health'' @ ''care/patients'', R_header = (\<lambda>_. []), R_cookie = (\<lambda>_. None), R_query = (\<lambda>_. [])\<rparr>
     (demo_state Map.empty Map.empty) = (Next no_context, demo_state Map.empty Map.empty)"
  by (rule exempt_paths_extend) (simp add: shouldSkipAuth_def DefaultMiddlewareConfig_def)

definition demo_request :: http_request where
  "demo_request = \<lparr>R_path = ''/data'', R_header = (\<lambda>h. if h = ''Authorization'' then ''Bearer '' @ TokenTypeRefresh else []),
     R_cookie = (\<lambda>_. None), R_query = (\<lambda>_. [])\<rparr>"

definition demo_gate :: "string list \<Rightarrow> MiddlewareConfig" where
  "demo_gate scopes = DefaultMiddlewareConfig\<lparr>MC_RequiredScopes := scopes\<rparr>"

lemma demo_gate_facts:
  "\<not> shouldSkipAuth (demo_gate scopes) (R_path demo_request)"
  "extractToken id (demo_gate scopes) demo_request = (TokenTypeRefresh, AuthTypeToken)"
  by (simp_all add: demo_gate_def demo_request_def shouldSkipAuth_def extractToken_def DefaultMiddlewareConfig_def Let_def)

lemma demo_authenticated:
  "\<exists>resp s'. Authenticate demo_env (demo_call 5) (token_request AuthTypeToken TokenTypeRefresh)
     (demo_state (demo_users UserStatusActive) Map.empty) = (Ok resp, s') \<and> AP_Scopes resp = []"
proof -
  have "C_Scopes (demo_claims t) = []" for t by (simp add: demo_claims_def)
  moreover have "ValidateToken demo_library sample_manager 5 TokenTypeRefresh = Ok (demo_claims TokenTypeRefresh)"
    by (simp add: ValidateToken_def IsTokenRevoked_def sample_manager_def)
  moreover have "AuthTypeToken \<noteq> AuthTypeAPIKey" "AuthTypeToken \<noteq> AuthTypePassword" "TokenTypeRefresh \<noteq> []" by (simp_all add: auth_consts)
  moreover have "use_tenant k s nil_uuid = Inr None" for k s by (simp add: use_tenant_def)
  ultimately show ?thesis
    by (simp add: Authenticate_def token_request_def authenticateToken_def authenticate_claims_def active_user_ok)
qed

theorem scopes_unchecked_over_http_witness:
  "fst (AuthenticateGin id demo_env (demo_call 5) (demo_gate [''write'']) demo_request (demo_state (demo_users UserStatusActive) Map.empty)) =
     Abort 403 ''INSUFFICIENT_SCOPES'' \<and>
   (\<exists>x. fst (AuthenticateHTTP id demo_env (demo_call 5) (demo_gate [''write'']) demo_request (demo_state (demo_users UserStatusActive) Map.empty)) =
     Next x)"
proof -
  obtain resp s' where r: "Authenticate demo_env (demo_call 5) (token_request AuthTypeToken TokenTypeRefresh)
     (demo_state (demo_users UserStatusActive) Map.empty) = (Ok resp, s')" "AP_Scopes resp = []"
    using demo_authenticated by blast
  have "TokenTypeRefresh \<noteq> []" by (simp add: auth_consts)
  moreover have "\<not> set (MC_RequiredScopes (demo_gate [''write''])) \<subseteq> set (AP_Scopes resp)"
      "MC_RequiredPermissions (demo_gate [''write'']) = []"
    using r(2) by (simp_all add: demo_gate_def DefaultMiddlewareConfig_def)
  ultimately show ?thesis using scopes_unchecked_over_http [OF demo_gate_facts(1,2) _ r(1)] by simp
qed


end
