(* ===== verification/Lru_List.thy ===== *)
theory Lru_List
  imports Go_Prelude
begin

text \<open>
  The recency list of the memory cache (\<^verbatim>\<open>pkg/storage/cache/memory_cache.go\<close>, \<^verbatim>\<open>LRUList\<close>): a doubly
  linked list between two sentinel nodes.  The nodes live in a heap, a function from addresses; a
  pointer is an address or \<open>None\<close> for \<^verbatim>\<open>nil\<close>, and \<open>L_fresh\<close> is the next address to be allocated.
  An operation has no result when it dereferences \<^verbatim>\<open>nil\<close> or does not end.

  The operations are shown to implement those of a list of keys, the most recent first, and that
  contract is the locale \<open>recency_list\<close> on which the cache rests.
\<close>

section \<open>Nodes and operations\<close>

type_synonym addr = nat
type_synonym node_ref = "addr option"

record LRUNode =
  Node_key :: string
  Node_prev :: node_ref
  Node_next :: node_ref

type_synonym lru_heap = "addr \<Rightarrow> LRUNode"

record LRUList =
  L_heap :: lru_heap
  L_fresh :: addr
  L_head :: addr
  L_tail :: addr
  L_size :: int

definition set_next :: "addr \<Rightarrow> node_ref \<Rightarrow> lru_heap \<Rightarrow> lru_heap" where
  "set_next a r h = h(a := (h a)\<lparr>Node_next := r\<rparr>)"

definition set_prev :: "addr \<Rightarrow> node_ref \<Rightarrow> lru_heap \<Rightarrow> lru_heap" where
  "set_prev a r h = h(a := (h a)\<lparr>Node_prev := r\<rparr>)"

definition nil_node :: LRUNode where
  "nil_node = \<lparr>Node_key = [], Node_prev = None, Node_next = None\<rparr>"

definition NewLRUList :: LRUList where
  "NewLRUList =
     \<lparr>L_heap = set_prev 1 (Some 0) (set_next 0 (Some 1) (\<lambda>_. nil_node)),
      L_fresh = 2, L_head = 0, L_tail = 1, L_size = 0\<rparr>"

definition lru_addToFront :: "string \<Rightarrow> LRUList \<Rightarrow> LRUList option" where
  "lru_addToFront key l =
     (let node = L_fresh l; h = (L_heap l)(node := nil_node\<lparr>Node_key := key\<rparr>);
          h = set_next node (Node_next (h (L_head l))) h;
          h = set_prev node (Some (L_head l)) h
      in case Node_next (h (L_head l)) of
           None \<Rightarrow> None
         | Some a \<Rightarrow>
             let h = set_prev a (Some node) h;
                 h = set_next (L_head l) (Some node) h
             in Some (l\<lparr>L_heap := h, L_fresh := Suc node, L_size := L_size l + 1\<rparr>))"

text \<open>Unlinking a node, in the body of the loop of \<^verbatim>\<open>remove\<close>.\<close>

definition lru_unlink :: "addr \<Rightarrow> LRUList \<Rightarrow> LRUList option" where
  "lru_unlink a l =
     (case Node_prev (L_heap l a) of
        None \<Rightarrow> None
      | Some p \<Rightarrow>
          let h = set_next p (Node_next (L_heap l a)) (L_heap l)
          in case Node_next (h a) of
               None \<Rightarrow> None
             | Some n \<Rightarrow>
                 Some (l\<lparr>L_heap := set_prev n (Node_prev (h a)) h, L_size := L_size l - 1\<rparr>))"

partial_function (option) lru_remove_loop :: "string \<Rightarrow> LRUList \<Rightarrow> node_ref \<Rightarrow> LRUList option" where
  "lru_remove_loop key l r =
     (if r = Some (L_tail l) then Some l
      else case r of
             None \<Rightarrow> None
           | Some a \<Rightarrow>
               if Node_key (L_heap l a) = key then lru_unlink a l
               else lru_remove_loop key l (Node_next (L_heap l a)))"

declare lru_remove_loop.simps [code]

definition lru_remove :: "string \<Rightarrow> LRUList \<Rightarrow> LRUList option" where
  "lru_remove key l = lru_remove_loop key l (Node_next (L_heap l (L_head l)))"

definition lru_removeTail :: "LRUList \<Rightarrow> (string \<times> LRUList) option" where
  "lru_removeTail l =
     (if L_size l = 0 then Some ([], l)
      else case Node_prev (L_heap l (L_tail l)) of
             None \<Rightarrow> None
           | Some a \<Rightarrow>
               let key = Node_key (L_heap l a)
               in case Node_prev (L_heap l a) of
                    None \<Rightarrow> None
                  | Some p \<Rightarrow>
                      let h = set_next p (Some (L_tail l)) (L_heap l);
                          h = set_prev (L_tail l) (Node_prev (h a)) h
                      in Some (key, l\<lparr>L_heap := h, L_size := L_size l - 1\<rparr>))"

definition lru_moveToFront :: "string \<Rightarrow> LRUList \<Rightarrow> LRUList option" where
  "lru_moveToFront key l = Option.bind (lru_remove key l) (lru_addToFront key)"

section \<open>The list a heap represents\<close>

text \<open>\<open>dll h x as y\<close>: from the node \<open>x\<close> one gets to \<open>y\<close> over the nodes \<open>as\<close>, in both directions.\<close>

fun dll :: "lru_heap \<Rightarrow> addr \<Rightarrow> addr list \<Rightarrow> addr \<Rightarrow> bool" where
  "dll h x [] y \<longleftrightarrow> Node_next (h x) = Some y \<and> Node_prev (h y) = Some x"
| "dll h x (a # as) y \<longleftrightarrow> Node_next (h x) = Some a \<and> Node_prev (h a) = Some x \<and> dll h a as y"

definition lru_nodes :: "LRUList \<Rightarrow> addr list \<Rightarrow> bool" where
  "lru_nodes l as \<longleftrightarrow>
     dll (L_heap l) (L_head l) as (L_tail l) \<and> distinct (L_head l # L_tail l # as) \<and>
     (\<forall>a \<in> set (L_head l # L_tail l # as). a < L_fresh l) \<and> L_size l = int (length as)"

definition lru_rep :: "LRUList \<Rightarrow> string list \<Rightarrow> bool" where
  "lru_rep l ks \<longleftrightarrow> (\<exists>as. lru_nodes l as \<and> ks = map (\<lambda>a. Node_key (L_heap l a)) as)"

lemma set_next_simps [simp]:
  "Node_key (set_next a r h b) = Node_key (h b)" "Node_prev (set_next a r h b) = Node_prev (h b)"
  "Node_next (set_next a r h b) = (if b = a then r else Node_next (h b))"
  by (simp_all add: set_next_def)

lemma set_prev_simps [simp]:
  "Node_key (set_prev a r h b) = Node_key (h b)" "Node_next (set_prev a r h b) = Node_next (h b)"
  "Node_prev (set_prev a r h b) = (if b = a then r else Node_prev (h b))"
  by (simp_all add: set_prev_def)

lemma dll_append:
  "dll h x (as @ b # bs) y \<longleftrightarrow> dll h x as b \<and> dll h b bs y"
  by (induction as arbitrary: x) auto

lemma dll_snoc:
  "dll h x (as @ [b]) y \<longleftrightarrow> dll h x as b \<and> Node_next (h b) = Some y \<and> Node_prev (h y) = Some b"
  by (simp add: dll_append)

text \<open>What a path depends on: the successors of its first nodes and the predecessors of its last ones.\<close>

lemma dll_cong:
  "(\<And>a. a \<in> set (x # as) \<Longrightarrow> Node_next (h' a) = Node_next (h a)) \<Longrightarrow>
   (\<And>a. a \<in> set (as @ [y]) \<Longrightarrow> Node_prev (h' a) = Node_prev (h a)) \<Longrightarrow>
   dll h' x as y \<longleftrightarrow> dll h x as y"
  by (induction as arbitrary: x) auto

lemma dll_first: "dll h x as y \<Longrightarrow> Node_next (h x) = Some (hd (as @ [y]))"
  by (cases as) auto

lemma dll_last: "dll h x as y \<Longrightarrow> Node_prev (h y) = Some (last (x # as))"
  by (induction as arbitrary: x) auto

section \<open>The operations on the represented list\<close>

lemma lru_rep_new: "lru_rep NewLRUList []"
  by (auto simp: lru_rep_def lru_nodes_def NewLRUList_def)

lemma lru_rep_size: "lru_rep l ks \<Longrightarrow> L_size l = int (length ks)"
  by (auto simp: lru_rep_def lru_nodes_def)

lemma addToFront_nodes:
  assumes "lru_nodes l as"
  shows "\<exists>l'. lru_addToFront key l = Some l' \<and> lru_nodes l' (L_fresh l # as) \<and>
    Node_key (L_heap l' (L_fresh l)) = key \<and> (\<forall>a \<in> set as. Node_key (L_heap l' a) = Node_key (L_heap l a))"
proof -
  let ?n = "L_fresh l" and ?a = "hd (as @ [L_tail l])"
  have d: "dll (L_heap l) (L_head l) as (L_tail l)" and dist: "distinct (L_head l # L_tail l # as)"
    and fresh: "\<forall>a \<in> set (L_head l # L_tail l # as). a < ?n" and sz: "L_size l = int (length as)"
    using assms by (auto simp: lru_nodes_def)
  have ne: "L_head l \<noteq> ?n" "L_tail l \<noteq> ?n" "?n \<notin> set as" using fresh by auto
  have next_head: "Node_next (L_heap l (L_head l)) = Some ?a" by (rule dll_first [OF d])
  have a: "?a \<noteq> L_head l" "?a \<noteq> ?n" using dist ne by (cases as; auto)+
  define h where "h = set_next (L_head l) (Some ?n) (set_prev ?a (Some ?n)
    (set_prev ?n (Some (L_head l)) (set_next ?n (Some ?a) ((L_heap l)(?n := nil_node\<lparr>Node_key := key\<rparr>)))))"
  have res: "lru_addToFront key l = Some (l\<lparr>L_heap := h, L_fresh := Suc ?n, L_size := L_size l + 1\<rparr>)"
    using next_head a ne by (simp add: lru_addToFront_def Let_def h_def)
  have "dll h ?n as (L_tail l)"
  proof (cases as)
    case Nil
    then show ?thesis using ne dist by (simp add: h_def)
  next
    case (Cons b bs)
    have "dll h b bs (L_tail l) \<longleftrightarrow> dll (L_heap l) b bs (L_tail l)"
      by (rule dll_cong) (use Cons dist ne in \<open>auto simp: h_def\<close>)
    then show ?thesis using Cons d ne dist by (simp add: h_def)
  qed
  then have "dll h (L_head l) (?n # as) (L_tail l)" using ne a by (simp add: h_def)
  moreover have "\<forall>x \<in> set as. Node_key (h x) = Node_key (L_heap l x)" "Node_key (h ?n) = key"
    using ne by (auto simp: h_def)
  ultimately show ?thesis using res ne dist fresh sz
    by (auto simp: lru_nodes_def less_Suc_eq)
qed

lemma lru_rep_addToFront:
  "lru_rep l ks \<Longrightarrow> \<exists>l'. lru_addToFront key l = Some l' \<and> lru_rep l' (key # ks)"
proof -
  assume "lru_rep l ks"
  then obtain as where as: "lru_nodes l as" and ks: "ks = map (\<lambda>a. Node_key (L_heap l a)) as"
    by (auto simp: lru_rep_def)
  from addToFront_nodes [OF as, of key] obtain l' where "lru_addToFront key l = Some l'"
    "lru_nodes l' (L_fresh l # as)" "Node_key (L_heap l' (L_fresh l)) = key"
    "\<forall>a \<in> set as. Node_key (L_heap l' a) = Node_key (L_heap l a)" by blast
  then show ?thesis
    by (intro exI [of _ l'] conjI) (auto simp: lru_rep_def ks intro!: exI [of _ "L_fresh l # as"])
qed

text \<open>Unlinking the node between \<open>as\<close> and \<open>bs\<close>.\<close>

lemma dll_unlink_first:
  assumes "dll h x (b # bs) y" and "distinct (x # y # b # bs)"
  shows "dll (set_prev (hd (bs @ [y])) (Some x) (set_next x (Some (hd (bs @ [y]))) h)) x bs y"
proof (cases bs)
  case Nil
  then show ?thesis using assms by simp
next
  case (Cons c cs)
  let ?h = "set_prev c (Some x) (set_next x (Some c) h)"
  have "dll ?h c cs y \<longleftrightarrow> dll h c cs y"
    by (rule dll_cong) (use Cons assms(2) in auto)
  with Cons assms show ?thesis by simp
qed

lemma dll_unlink:
  assumes "dll h x (as @ b # bs) y" and "distinct (x # y # as @ b # bs)"
  shows "dll (set_prev (hd (bs @ [y])) (Some (last (x # as))) (set_next (last (x # as)) (Some (hd (bs @ [y]))) h))
           x (as @ bs) y"
proof (cases as rule: rev_cases)
  case Nil
  then show ?thesis using dll_unlink_first [of h x b bs y] assms by simp
next
  case (snoc cs c)
  let ?n = "hd (bs @ [y])"
  let ?h = "set_prev ?n (Some c) (set_next c (Some ?n) h)"
  have n: "?n \<notin> set (cs @ [c])" using assms(2) snoc by (cases bs) auto
  have d: "dll h x cs c" "dll h c (b # bs) y" using assms(1) snoc by (simp_all add: dll_append)
  have "dll ?h x cs c \<longleftrightarrow> dll h x cs c"
    by (rule dll_cong) (use n assms(2) snoc in \<open>auto simp del: hd_append2\<close>)
  moreover have "dll ?h c bs y"
    by (rule dll_unlink_first [OF d(2)]) (use assms(2) snoc in auto)
  ultimately show ?thesis using d snoc by (simp add: dll_append)
qed

text \<open>The node before and the node after.\<close>

lemma dll_neighbours:
  assumes "dll h x (as @ b # bs) y"
  shows "Node_prev (h b) = Some (last (x # as))" "Node_next (h b) = Some (hd (bs @ [y]))"
  using assms dll_last [of h x as b] dll_first [of h b bs y] by (simp_all add: dll_append)

lemma unlink_nodes:
  assumes "lru_nodes l (as @ b # bs)"
  shows "\<exists>l'. lru_unlink b l = Some l' \<and> lru_nodes l' (as @ bs) \<and>
    (\<forall>a. Node_key (L_heap l' a) = Node_key (L_heap l a))"
proof -
  let ?x = "L_head l" and ?y = "L_tail l" and ?h = "L_heap l"
  let ?p = "last (?x # as)" and ?n = "hd (bs @ [?y])"
  have d: "dll ?h ?x (as @ b # bs) ?y" and dist: "distinct (?x # ?y # as @ b # bs)"
    using assms by (auto simp: lru_nodes_def)
  have p: "?p \<noteq> b" using dist by (cases as rule: rev_cases) auto
  have "lru_unlink b l = Some (l\<lparr>L_heap := set_prev ?n (Some ?p) (set_next ?p (Some ?n) ?h), L_size := L_size l - 1\<rparr>)"
    using dll_neighbours [OF d] p by (simp add: lru_unlink_def Let_def)
  then show ?thesis using dll_unlink [OF d dist] assms dist
    by (auto simp: lru_nodes_def)
qed

lemma remove_loop_nodes:
  assumes "lru_nodes l (as @ bs)" and "\<forall>a \<in> set as. Node_key (L_heap l a) \<noteq> key"
  shows "\<exists>l'. lru_remove_loop key l (Some (hd (bs @ [L_tail l]))) = Some l' \<and>
    lru_rep l' (map (\<lambda>a. Node_key (L_heap l a)) as @ remove1 key (map (\<lambda>a. Node_key (L_heap l a)) bs))"
  using assms
proof (induction bs arbitrary: as)
  case Nil
  then show ?case by (subst lru_remove_loop.simps) (auto simp: lru_rep_def)
next
  case (Cons b bs)
  have d: "dll (L_heap l) (L_head l) (as @ b # bs) (L_tail l)" and ne: "b \<noteq> L_tail l"
    using Cons.prems(1) by (auto simp: lru_nodes_def)
  show ?case
  proof (cases "Node_key (L_heap l b) = key")
    case True
    from unlink_nodes [OF Cons.prems(1)] obtain l' where l': "lru_unlink b l = Some l'" "lru_nodes l' (as @ bs)"
      "\<forall>a. Node_key (L_heap l' a) = Node_key (L_heap l a)" by blast
    show ?thesis
      by (subst lru_remove_loop.simps) (use ne True l' in \<open>auto simp: lru_rep_def intro!: exI [of _ "as @ bs"]\<close>)
  next
    case False
    have "lru_remove_loop key l (Some b) = lru_remove_loop key l (Some (hd (bs @ [L_tail l])))"
      by (subst lru_remove_loop.simps) (use ne False dll_neighbours(2) [OF d] in simp)
    then show ?thesis using Cons.IH [of "as @ [b]"] Cons.prems False by simp
  qed
qed

lemma lru_rep_remove: "lru_rep l ks \<Longrightarrow> \<exists>l'. lru_remove key l = Some l' \<and> lru_rep l' (remove1 key ks)"
proof -
  assume "lru_rep l ks"
  then obtain as where as: "lru_nodes l as" and ks: "ks = map (\<lambda>a. Node_key (L_heap l a)) as"
    by (auto simp: lru_rep_def)
  have "Node_next (L_heap l (L_head l)) = Some (hd (as @ [L_tail l]))"
    by (rule dll_first) (use as in \<open>simp add: lru_nodes_def\<close>)
  with remove_loop_nodes [of l "[]" as key] as show ?thesis by (simp add: lru_remove_def ks)
qed

lemma lru_rep_removeTail:
  "lru_rep l ks \<Longrightarrow>
   \<exists>l'. lru_removeTail l = Some (if ks = [] then [] else last ks, l') \<and> lru_rep l' (butlast ks)"
proof -
  assume "lru_rep l ks"
  then obtain as where as: "lru_nodes l as" and ks: "ks = map (\<lambda>a. Node_key (L_heap l a)) as"
    by (auto simp: lru_rep_def)
  show ?thesis
  proof (cases as rule: rev_cases)
    case Nil
    then show ?thesis using as ks by (auto simp: lru_removeTail_def lru_rep_def lru_nodes_def)
  next
    case (snoc bs b)
    let ?p = "last (L_head l # bs)"
    have d: "dll (L_heap l) (L_head l) (bs @ [b]) (L_tail l)" and dist: "distinct (L_head l # L_tail l # bs @ [b])"
      using as snoc by (auto simp: lru_nodes_def)
    have p: "?p \<noteq> b" using dist by (cases bs rule: rev_cases) auto
    from dll_last [OF d] have b: "Node_prev (L_heap l (L_tail l)) = Some b" by simp
    let ?l = "l\<lparr>L_heap := set_prev (L_tail l) (Some ?p) (set_next ?p (Some (L_tail l)) (L_heap l)), L_size := L_size l - 1\<rparr>"
    have "lru_removeTail l = Some (Node_key (L_heap l b), ?l)"
      using as snoc b dll_neighbours(1) [OF d] by (simp add: lru_removeTail_def lru_nodes_def Let_def)
    moreover have "lru_nodes ?l bs"
      using dll_unlink [OF d dist] as snoc by (auto simp: lru_nodes_def)
    then have "lru_rep ?l (map (\<lambda>a. Node_key (L_heap l a)) bs)" by (auto simp: lru_rep_def)
    ultimately show ?thesis by (simp add: ks snoc)
  qed
qed

lemma lru_rep_moveToFront:
  "lru_rep l ks \<Longrightarrow> \<exists>l'. lru_moveToFront key l = Some l' \<and> lru_rep l' (key # remove1 key ks)"
  using lru_rep_remove [of l ks key] lru_rep_addToFront [of _ "remove1 key ks" key]
  by (auto simp: lru_moveToFront_def)

section \<open>The contract the cache rests on\<close>

lemma remove1_superset: "K \<subseteq> set ks \<Longrightarrow> K - {k} \<subseteq> set (remove1 k ks)"
  by (rule subsetI, elim DiffE) (simp add: subset_iff)

text \<open>\<open>rep l ks\<close>: the list object \<open>l\<close> holds the keys \<open>ks\<close>, the most recent first.\<close>

locale recency_list =
  fixes rep :: "'l \<Rightarrow> string list \<Rightarrow> bool"
    and new :: "'l"
    and add :: "string \<Rightarrow> 'l \<Rightarrow> 'l option"
    and rem :: "string \<Rightarrow> 'l \<Rightarrow> 'l option"
    and tail :: "'l \<Rightarrow> (string \<times> 'l) option"
    and front :: "string \<Rightarrow> 'l \<Rightarrow> 'l option"
  assumes rep_new: "rep new []"
    and rep_add: "rep l ks \<Longrightarrow> \<exists>l'. add k l = Some l' \<and> rep l' (k # ks)"
    and rep_rem: "rep l ks \<Longrightarrow> \<exists>l'. rem k l = Some l' \<and> rep l' (remove1 k ks)"
    and rep_tail: "rep l ks \<Longrightarrow> \<exists>l'. tail l = Some (if ks = [] then [] else last ks, l') \<and> rep l' (butlast ks)"
    and rep_front: "rep l ks \<Longrightarrow> \<exists>l'. front k l = Some l' \<and> rep l' (k # remove1 k ks)"
begin

lemma rep_results:
  "rep l ks \<Longrightarrow> add k l = Some l' \<Longrightarrow> rep l' (k # ks)"
  "rep l ks \<Longrightarrow> rem k l = Some l' \<Longrightarrow> rep l' (remove1 k ks)"
  "rep l ks \<Longrightarrow> front k l = Some l' \<Longrightarrow> rep l' (k # remove1 k ks)"
  using rep_add [of l ks k] rep_rem [of l ks k] rep_front [of l ks k] by auto

text \<open>\<open>covers l K\<close>: the list holds at least the keys \<open>K\<close>; \<open>exactly l K\<close>: each of them once, and no other.\<close>

definition covers :: "'l \<Rightarrow> string set \<Rightarrow> bool" where
  "covers l K \<longleftrightarrow> (\<exists>ks. rep l ks \<and> K \<subseteq> set ks)"

definition exactly :: "'l \<Rightarrow> string set \<Rightarrow> bool" where
  "exactly l K \<longleftrightarrow> (\<exists>ks. rep l ks \<and> distinct ks \<and> set ks = K)"

lemma covers_new: "covers new {}"
  using rep_new by (auto simp: covers_def)

lemma covers_add: "covers l K \<Longrightarrow> \<exists>l'. add k l = Some l' \<and> covers l' (insert k K)"
  unfolding covers_def using rep_add by fastforce

lemma covers_rem: "covers l K \<Longrightarrow> \<exists>l'. rem k l = Some l' \<and> covers l' (K - {k})"
proof -
  assume "covers l K"
  then obtain ks where ks: "rep l ks" "K \<subseteq> set ks" by (auto simp: covers_def)
  have "K - {k} \<subseteq> set (remove1 k ks)" by (rule remove1_superset [OF ks(2)])
  with rep_rem [OF ks(1), of k] show ?thesis by (auto simp: covers_def)
qed

lemma covers_tail: "covers l K \<Longrightarrow> \<exists>k l'. tail l = Some (k, l') \<and> covers l' (K - {k})"
proof -
  assume "covers l K"
  then obtain ks where ks: "rep l ks" "K \<subseteq> set ks" by (auto simp: covers_def)
  have "K - {if ks = [] then [] else last ks} \<subseteq> set (butlast ks)"
    using ks(2) by (cases ks rule: rev_cases) auto
  with rep_tail [OF ks(1)] show ?thesis by (fastforce simp: covers_def)
qed

lemma covers_front: "covers l K \<Longrightarrow> \<exists>l'. front k l = Some l' \<and> covers l' (insert k K)"
proof -
  assume "covers l K"
  then obtain ks where ks: "rep l ks" "K \<subseteq> set ks" by (auto simp: covers_def)
  have "insert k K \<subseteq> set (k # remove1 k ks)" using remove1_superset [OF ks(2), of k] by auto
  with rep_front [OF ks(1)] show ?thesis by (fastforce simp: covers_def)
qed

lemma covers_mono: "covers l K \<Longrightarrow> K' \<subseteq> K \<Longrightarrow> covers l K'"
  by (auto simp: covers_def)

lemma exactly_covers: "exactly l K \<Longrightarrow> covers l K"
  by (auto simp: covers_def exactly_def)

lemma exactly_new: "exactly new {}"
  using rep_new by (auto simp: exactly_def)

lemma exactly_add: "exactly l K \<Longrightarrow> k \<notin> K \<Longrightarrow> add k l = Some l' \<Longrightarrow> exactly l' (insert k K)"
  unfolding exactly_def by (metis rep_results(1) distinct.simps(2) list.set(2))

lemma exactly_rem: "exactly l K \<Longrightarrow> rem k l = Some l' \<Longrightarrow> exactly l' (K - {k})"
  unfolding exactly_def by (metis rep_results(2) distinct_remove1 set_remove1_eq)

lemma exactly_tail: "exactly l K \<Longrightarrow> tail l = Some (k, l') \<Longrightarrow> K \<noteq> {} \<Longrightarrow> k \<in> K \<and> exactly l' (K - {k})"
proof -
  assume "exactly l K" and t: "tail l = Some (k, l')" and ne: "K \<noteq> {}"
  then obtain ks where ks: "rep l ks" "distinct ks" "set ks = K" by (auto simp: exactly_def)
  with ne obtain js j where j: "ks = js @ [j]" by (cases ks rule: rev_cases) auto
  with rep_tail [OF ks(1)] t have "k = j" "rep l' js" by auto
  with ks j show ?thesis by (auto simp: exactly_def)
qed

lemma exactly_front: "exactly l K \<Longrightarrow> k \<in> K \<Longrightarrow> front k l = Some l' \<Longrightarrow> exactly l' K"
proof -
  assume "exactly l K" and k: "k \<in> K" and f: "front k l = Some l'"
  then obtain ks where ks: "rep l ks" "distinct ks" "set ks = K" by (auto simp: exactly_def)
  have "rep l' (k # remove1 k ks)" by (rule rep_results(3) [OF ks(1) f])
  with ks k show ?thesis by (auto simp: exactly_def)
qed

end

interpretation lru: recency_list lru_rep NewLRUList lru_addToFront lru_remove lru_removeTail lru_moveToFront
  by unfold_locales
    (rule lru_rep_new lru_rep_addToFront lru_rep_remove lru_rep_removeTail lru_rep_moveToFront; assumption?)+

section \<open>Correctness\<close>

text \<open>C10: The linked list implements a list of keys.  On every list object whose two chains of pointers
  agree, each operation returns (it neither dereferences \<^verbatim>\<open>nil\<close> nor runs for ever) and leaves such
  an object: insertion puts the key in front, removal takes out its first occurrence, removal at
  the tail returns and drops the last key, and a move does a removal and an insertion.\<close>

theorem linked_list_implements_list:
  assumes "lru_rep l ks"
  shows "(\<exists>l'. lru_addToFront key l = Some l' \<and> lru_rep l' (key # ks)) \<and>
    (\<exists>l'. lru_remove key l = Some l' \<and> lru_rep l' (remove1 key ks)) \<and>
    (\<exists>l'. lru_removeTail l = Some (if ks = [] then [] else last ks, l') \<and> lru_rep l' (butlast ks)) \<and>
    (\<exists>l'. lru_moveToFront key l = Some l' \<and> lru_rep l' (key # remove1 key ks)) \<and>
    L_size l = int (length ks)"
  using lru.rep_add [OF assms] lru.rep_rem [OF assms] lru.rep_tail [OF assms] lru.rep_front [OF assms]
    lru_rep_size [OF assms] by blast

theorem linked_list_implements_list_witness:
  "\<exists>l. lru_addToFront ''a'' NewLRUList = Some l \<and> lru_rep l [''a'']"
  using linked_list_implements_list [OF lru_rep_new, of "''a''"] by blast

end
