(* ===== verification/Memory_Cache.thy ===== *)
theory Memory_Cache
  imports Lru_List "HOL-Library.Word"
begin

text \<open>
  The in-memory cache (\<^verbatim>\<open>pkg/storage/cache/memory_cache.go\<close>): shards chosen by a hash of the key,
  each a map of entries with a recency list and a count of bytes.  Serialisation and the gzip
  compressor are arguments; the map of a shard is a HOL map, and where the code ranges over a map
  the order is an argument.  An operation reads the clock at one instant, \<open>now\<close>.

  An operation of a shard runs under the lock of the shard, so it is one atomic step.  An operation
  of the cache is several such steps; the last section but one treats their interleavings.
\<close>

unbundle bit_operations_syntax

section \<open>State\<close>

record CacheEntry =
  E_Key :: string
  E_Value :: string
  E_Compressed :: bool
  E_ContentType :: string
  E_Size :: int
  E_CreatedAt :: time
  E_ExpiresAt :: "time option"
  E_AccessCount :: int
  E_LastAccess :: time

definition IsExpired :: "time \<Rightarrow> CacheEntry \<Rightarrow> bool" where
  "IsExpired now e = (case E_ExpiresAt e of None \<Rightarrow> False | Some t \<Rightarrow> t < now)"

definition UpdateAccess :: "time \<Rightarrow> CacheEntry \<Rightarrow> CacheEntry" where
  "UpdateAccess now e = e\<lparr>E_AccessCount := E_AccessCount e + 1, E_LastAccess := now\<rparr>"

record CacheShard =
  SH_items :: "string \<rightharpoonup> CacheEntry"
  SH_lruList :: LRUList
  SH_currentSize :: int
  SH_maxSize :: int

record MemoryCacheConfig =
  MC_MaxSize :: int
  MC_MaxItems :: int
  MC_MaxItemSize :: int
  MC_DefaultTTL :: duration
  MC_CleanupInterval :: duration
  MC_EvictionPolicy :: string
  MC_EnableCompression :: bool
  MC_CompressionLevel :: int
  MC_EnableMetrics :: bool
  MC_Shards :: int

definition DefaultMemoryCacheConfig :: MemoryCacheConfig where
  "DefaultMemoryCacheConfig =
     \<lparr>MC_MaxSize = 100 * 1024 * 1024, MC_MaxItems = 10000, MC_MaxItemSize = 10 * 1024 * 1024,
      MC_DefaultTTL = 3600 * 1000000000, MC_CleanupInterval = 5 * 60 * 1000000000,
      MC_EvictionPolicy = ''lru'', MC_EnableCompression = True, MC_CompressionLevel = 6,
      MC_EnableMetrics = True, MC_Shards = 16\<rparr>"

record compressor =
  Compress :: "string \<Rightarrow> (string, string) outcome"
  Decompress :: "string \<Rightarrow> (string, string) outcome"

definition NewNoOpCompressor :: compressor where
  "NewNoOpCompressor = \<lparr>Compress = Ok, Decompress = Ok\<rparr>"

record MemoryCache =
  C_config :: MemoryCacheConfig
  C_shards :: "CacheShard list"
  C_compressor :: compressor

datatype cache_error = ErrCacheMiss | ErrCacheExpired | CacheError string

section \<open>Operations of a shard\<close>

text \<open>\<open>None\<close> is a panic or an endless loop of the recency list.\<close>

definition new_shard :: "int \<Rightarrow> CacheShard" where
  "new_shard m = \<lparr>SH_items = Map.empty, SH_lruList = NewLRUList, SH_currentSize = 0, SH_maxSize = m\<rparr>"

definition shard_get :: "string \<Rightarrow> CacheShard \<Rightarrow> CacheEntry option" where
  "shard_get key s = SH_items s key"

definition shard_evictLRU :: "CacheShard \<Rightarrow> CacheShard option" where
  "shard_evictLRU s =
     (case lru_removeTail (SH_lruList s) of
        None \<Rightarrow> None
      | Some (key, l) \<Rightarrow>
          let s = s\<lparr>SH_lruList := l\<rparr>
          in if key = [] then Some s
             else case SH_items s key of
                    None \<Rightarrow> Some s
                  | Some e \<Rightarrow> Some (s\<lparr>SH_items := (SH_items s)(key := None),
                      SH_currentSize := SH_currentSize s - E_Size e\<rparr>))"

text \<open>The first part of \<^verbatim>\<open>set\<close>: an entry that is replaced is taken out of the count and of the list.\<close>

definition shard_forget :: "string \<Rightarrow> CacheShard \<Rightarrow> CacheShard option" where
  "shard_forget key s =
     (case SH_items s key of
        None \<Rightarrow> Some s
      | Some e \<Rightarrow>
          map_option (\<lambda>l. s\<lparr>SH_currentSize := SH_currentSize s - E_Size e, SH_lruList := l\<rparr>)
            (lru_remove key (SH_lruList s)))"

definition shard_make_room :: "int \<Rightarrow> CacheShard \<Rightarrow> CacheShard option" where
  "shard_make_room sz s =
     (if SH_currentSize s + sz > SH_maxSize s then shard_evictLRU s else Some s)"

definition shard_set :: "string \<Rightarrow> CacheEntry \<Rightarrow> CacheShard \<Rightarrow> CacheShard option" where
  "shard_set key e s =
     Option.bind (shard_forget key s) (\<lambda>s.
     Option.bind (shard_make_room (E_Size e) s) (\<lambda>s.
     map_option (\<lambda>l. s\<lparr>SH_items := (SH_items s)(key \<mapsto> e), SH_currentSize := SH_currentSize s + E_Size e,
         SH_lruList := l\<rparr>)
       (lru_addToFront key (SH_lruList s))))"

definition shard_delete :: "string \<Rightarrow> CacheShard \<Rightarrow> CacheShard option" where
  "shard_delete key s =
     (case SH_items s key of
        None \<Rightarrow> Some s
      | Some e \<Rightarrow>
          map_option (\<lambda>l. s\<lparr>SH_items := (SH_items s)(key := None),
              SH_currentSize := SH_currentSize s - E_Size e, SH_lruList := l\<rparr>)
            (lru_remove key (SH_lruList s)))"

definition shard_exists :: "string \<Rightarrow> CacheShard \<Rightarrow> bool" where
  "shard_exists key s \<longleftrightarrow> SH_items s key \<noteq> None"

definition shard_expire :: "time \<Rightarrow> string \<Rightarrow> duration \<Rightarrow> CacheShard \<Rightarrow> CacheShard option" where
  "shard_expire now key ttl s =
     (case SH_items s key of
        None \<Rightarrow> None
      | Some e \<Rightarrow> Some (s\<lparr>SH_items := (SH_items s)(key \<mapsto> e\<lparr>E_ExpiresAt := Some (now + ttl)\<rparr>)\<rparr>))"

definition shard_clear :: "CacheShard \<Rightarrow> CacheShard" where
  "shard_clear s = s\<lparr>SH_items := Map.empty, SH_lruList := NewLRUList, SH_currentSize := 0\<rparr>"

definition shard_moveToFront :: "string \<Rightarrow> CacheShard \<Rightarrow> CacheShard option" where
  "shard_moveToFront key s = map_option (\<lambda>l. s\<lparr>SH_lruList := l\<rparr>) (lru_moveToFront key (SH_lruList s))"

text \<open>The access statistics of an entry are updated through its pointer, without the lock.\<close>

definition shard_touch :: "time \<Rightarrow> string \<Rightarrow> CacheShard \<Rightarrow> CacheShard" where
  "shard_touch now key s = s\<lparr>SH_items := (SH_items s)(key := map_option (UpdateAccess now) (SH_items s key))\<rparr>"

text \<open>\<open>clk key\<close> is the time at which the loop gets to \<open>key\<close>.\<close>

fun cleanup_loop :: "time \<Rightarrow> (string \<Rightarrow> time) \<Rightarrow> string list \<Rightarrow> CacheShard \<Rightarrow> CacheShard option" where
  "cleanup_loop now clk [] s = Some s"
| "cleanup_loop now clk (key # keys) s =
     (case SH_items s key of
        None \<Rightarrow> cleanup_loop now clk keys s
      | Some e \<Rightarrow>
          if IsExpired (clk key) e \<and> IsExpired now e
          then Option.bind (shard_delete key s) (cleanup_loop now clk keys)
          else cleanup_loop now clk keys s)"

section \<open>Operations of the cache\<close>

text \<open>The hash of a key, in unsigned 32 bit arithmetic.\<close>

definition hash_step :: "32 word \<Rightarrow> char \<Rightarrow> 32 word" where
  "hash_step hash c = (hash XOR word_of_nat (byte_of c)) * 16777619"

definition hashKey :: "string \<Rightarrow> 32 word" where
  "hashKey key = foldl hash_step 2166136261 key"

definition shard_index :: "nat \<Rightarrow> string \<Rightarrow> nat" where
  "shard_index n key = unat (hashKey key mod word_of_nat n)"

text \<open>A panic in a shard, or a shard that does not exist, is a panic.\<close>

definition on_shard :: "string \<Rightarrow> (CacheShard \<Rightarrow> CacheShard option) \<Rightarrow> MemoryCache \<Rightarrow> MemoryCache option" where
  "on_shard key f c =
     (let i = shard_index (length (C_shards c)) key
      in if i < length (C_shards c)
         then map_option (\<lambda>s. c\<lparr>C_shards := (C_shards c)[i := s]\<rparr>) (f (C_shards c ! i)) else None)"

definition getShard :: "string \<Rightarrow> MemoryCache \<Rightarrow> CacheShard" where
  "getShard key c = C_shards c ! shard_index (length (C_shards c)) key"

text \<open>The result of an operation that changes one shard.\<close>

definition after :: "('e, 'a) outcome \<Rightarrow> MemoryCache \<Rightarrow> MemoryCache option \<Rightarrow> ('e, 'a) outcome \<times> MemoryCache" where
  "after r c c' = (case c' of None \<Rightarrow> (Panic, c) | Some c' \<Rightarrow> (r, c'))"

definition NewMemoryCache ::
  "(int \<Rightarrow> compressor) \<Rightarrow> MemoryCacheConfig option \<Rightarrow> (cache_error, MemoryCache) outcome" where
  "NewMemoryCache gzip config0 =
     (let config = (case config0 of None \<Rightarrow> DefaultMemoryCacheConfig | Some c \<Rightarrow> c);
          comp = (if MC_EnableCompression config then gzip (MC_CompressionLevel config) else NewNoOpCompressor)
      in if MC_Shards config \<le> 0 then Panic
         else Ok \<lparr>C_config = config,
                  C_shards = replicate (nat (MC_Shards config)) (new_shard (go_quot (MC_MaxSize config) (MC_Shards config))),
                  C_compressor = comp\<rparr>)"

text \<open>The reading operations: \<open>decode\<close> is what they do with the stored bytes.\<close>

definition cache_read ::
  "time \<Rightarrow> string \<Rightarrow> (string \<Rightarrow> (string, 'v) outcome) \<Rightarrow> MemoryCache \<Rightarrow> (cache_error, 'v) outcome \<times> MemoryCache" where
  "cache_read now key decode c =
     (case shard_get key (getShard key c) of
        None \<Rightarrow> (Err ErrCacheMiss, c)
      | Some e \<Rightarrow>
          if IsExpired now e then after (Err ErrCacheExpired) c (on_shard key (shard_delete key) c)
          else case decode (E_Value e) of
                 Panic \<Rightarrow> (Panic, c)
               | Err m \<Rightarrow> (Err (CacheError m), c)
               | Ok v \<Rightarrow> after (Ok v) c (on_shard key (\<lambda>s. shard_moveToFront key (shard_touch now key s)) c))"

definition fileinfo_key :: "string \<Rightarrow> string" where
  "fileinfo_key url = ''fileinfo:'' @ url"

definition content_key :: "string \<Rightarrow> string \<Rightarrow> string" where
  "content_key url checksum = ''content:'' @ url @ '':'' @ checksum"

definition metadata_key :: "string \<Rightarrow> string" where
  "metadata_key key = ''metadata:'' @ key"

definition wrap_error :: "string \<Rightarrow> (string, 'a) outcome \<Rightarrow> (string, 'a) outcome" where
  "wrap_error what r = (case r of Err e \<Rightarrow> Err (what @ '': '' @ e) | Ok a \<Rightarrow> Ok a | Panic \<Rightarrow> Panic)"

definition GetFileInfo ::
  "(string \<Rightarrow> (string, 'f) outcome) \<Rightarrow> time \<Rightarrow> string \<Rightarrow> MemoryCache \<Rightarrow> (cache_error, 'f) outcome \<times> MemoryCache" where
  "GetFileInfo unmarshal now url c =
     cache_read now (fileinfo_key url)
       (\<lambda>b. bind_outcome (wrap_error ''failed to decompress file info'' (Decompress (C_compressor c) b))
              (\<lambda>d. wrap_error ''failed to unmarshal file info'' (unmarshal d))) c"

definition GetContent :: "time \<Rightarrow> string \<Rightarrow> string \<Rightarrow> MemoryCache \<Rightarrow> (cache_error, string) outcome \<times> MemoryCache" where
  "GetContent now url checksum c =
     cache_read now (content_key url checksum)
       (\<lambda>b. wrap_error ''failed to decompress content'' (Decompress (C_compressor c) b)) c"

definition GetMetadata ::
  "(string \<Rightarrow> (string, 'm) outcome) \<Rightarrow> time \<Rightarrow> string \<Rightarrow> MemoryCache \<Rightarrow> (cache_error, 'm) outcome \<times> MemoryCache" where
  "GetMetadata unmarshal now key c =
     cache_read now (metadata_key key) (\<lambda>b. wrap_error ''failed to unmarshal metadata'' (unmarshal b)) c"

text \<open>The writing operations.  \<open>expiry\<close> is the time a lifetime ends, if it is positive.\<close>

definition expiry :: "time \<Rightarrow> duration \<Rightarrow> time option" where
  "expiry now ttl = (if ttl > 0 then Some (now + ttl) else None)"

definition mk_entry :: "time \<Rightarrow> string \<Rightarrow> string \<Rightarrow> bool \<Rightarrow> string \<Rightarrow> time option \<Rightarrow> CacheEntry" where
  "mk_entry now key value compressed contentType expires =
     \<lparr>E_Key = key, E_Value = value, E_Compressed = compressed, E_ContentType = contentType,
      E_Size = int (length value), E_CreatedAt = now, E_ExpiresAt = expires, E_AccessCount = 1,
      E_LastAccess = now\<rparr>"

definition cache_store :: "string \<Rightarrow> CacheEntry \<Rightarrow> MemoryCache \<Rightarrow> (cache_error, unit) outcome \<times> MemoryCache" where
  "cache_store key e c = after (Ok ()) c (on_shard key (shard_set key e) c)"

definition too_large :: "string \<Rightarrow> nat \<Rightarrow> int \<Rightarrow> cache_error" where
  "too_large what n limit =
     CacheError (what @ '' size '' @ show_nat n @ '' exceeds maximum item size '' @ show_int limit)"

definition SetFileInfo ::
  "('f \<Rightarrow> (string, string) outcome) \<Rightarrow> time \<Rightarrow> string \<Rightarrow> 'f \<Rightarrow> MemoryCache \<Rightarrow> (cache_error, unit) outcome \<times> MemoryCache" where
  "SetFileInfo marshal now url info c =
     (case bind_outcome (wrap_error ''failed to marshal file info'' (marshal info))
             (\<lambda>d. wrap_error ''failed to compress file info'' (Compress (C_compressor c) d)) of
        Panic \<Rightarrow> (Panic, c)
      | Err m \<Rightarrow> (Err (CacheError m), c)
      | Ok compressed \<Rightarrow>
          if int (length compressed) > MC_MaxItemSize (C_config c)
          then (Err (too_large ''file info'' (length compressed) (MC_MaxItemSize (C_config c))), c)
          else cache_store (fileinfo_key url)
                 (mk_entry now (fileinfo_key url) compressed (MC_EnableCompression (C_config c)) ''application/json''
                   (expiry now (MC_DefaultTTL (C_config c)))) c)"

definition SetContent ::
  "time \<Rightarrow> string \<Rightarrow> string \<Rightarrow> string \<Rightarrow> MemoryCache \<Rightarrow> (cache_error, unit) outcome \<times> MemoryCache" where
  "SetContent now url checksum content c =
     (if int (length content) > MC_MaxItemSize (C_config c)
      then (Err (too_large ''content'' (length content) (MC_MaxItemSize (C_config c))), c)
      else case wrap_error ''failed to compress content'' (Compress (C_compressor c) content) of
             Panic \<Rightarrow> (Panic, c)
           | Err m \<Rightarrow> (Err (CacheError m), c)
           | Ok compressed \<Rightarrow>
               cache_store (content_key url checksum)
                 (mk_entry now (content_key url checksum) compressed (MC_EnableCompression (C_config c))
                   ''application/octet-stream'' (expiry now (MC_DefaultTTL (C_config c)))) c)"

definition SetMetadata ::
  "('m \<Rightarrow> (string, string) outcome) \<Rightarrow> time \<Rightarrow> string \<Rightarrow> 'm \<Rightarrow> duration \<Rightarrow> MemoryCache \<Rightarrow>
     (cache_error, unit) outcome \<times> MemoryCache" where
  "SetMetadata marshal now key m ttl c =
     (case wrap_error ''failed to marshal metadata'' (marshal m) of
        Panic \<Rightarrow> (Panic, c)
      | Err m \<Rightarrow> (Err (CacheError m), c)
      | Ok d \<Rightarrow>
          cache_store (metadata_key key)
            (mk_entry now (metadata_key key) d False ''application/json''
              (if ttl > 0 then expiry now ttl else expiry now (MC_DefaultTTL (C_config c)))) c)"

text \<open>The operations on raw keys.\<close>

fun cache_Delete :: "string list \<Rightarrow> MemoryCache \<Rightarrow> MemoryCache option" where
  "cache_Delete [] c = Some c"
| "cache_Delete (key # keys) c = Option.bind (on_shard key (shard_delete key) c) (cache_Delete keys)"

definition cache_Clear :: "MemoryCache \<Rightarrow> MemoryCache" where
  "cache_Clear c = c\<lparr>C_shards := map shard_clear (C_shards c)\<rparr>"

definition cache_Exists :: "string list \<Rightarrow> MemoryCache \<Rightarrow> nat" where
  "cache_Exists keys c = length (filter (\<lambda>key. shard_exists key (getShard key c)) keys)"

definition cache_Expire :: "time \<Rightarrow> string \<Rightarrow> duration \<Rightarrow> MemoryCache \<Rightarrow> (cache_error, unit) outcome \<times> MemoryCache" where
  "cache_Expire now key ttl c =
     (if shard_exists key (getShard key c)
      then after (Ok ()) c (on_shard key (shard_expire now key ttl) c)
      else (Err (CacheError (''key not found: '' @ key)), c))"

fun BatchGet :: "time \<Rightarrow> string list \<Rightarrow> (string \<rightharpoonup> string) \<Rightarrow> MemoryCache \<Rightarrow> ((string \<rightharpoonup> string) \<times> MemoryCache) option" where
  "BatchGet now [] result c = Some (result, c)"
| "BatchGet now (key # keys) result c =
     (case shard_get key (getShard key c) of
        None \<Rightarrow> BatchGet now keys result c
      | Some e \<Rightarrow>
          if IsExpired now e then BatchGet now keys result c
          else Option.bind (on_shard key (\<lambda>s. shard_moveToFront key (shard_touch now key s)) c)
                 (BatchGet now keys (result(key \<mapsto> E_Value e))))"

text \<open>The items are given in the order in which the loop takes them out of the map.\<close>

fun BatchSet :: "time \<Rightarrow> duration \<Rightarrow> (string \<times> string) list \<Rightarrow> MemoryCache \<Rightarrow> MemoryCache option" where
  "BatchSet now ttl [] c = Some c"
| "BatchSet now ttl ((key, v) # items) c =
     Option.bind (on_shard key (shard_set key (mk_entry now key v False [] (expiry now ttl))) c)
       (BatchSet now ttl items)"

record CacheStats =
  Stats_Keys :: int
  Stats_MemoryUsed :: int
  Stats_MemoryLimit :: int

definition GetStats :: "MemoryCache \<Rightarrow> CacheStats" where
  "GetStats c =
     \<lparr>Stats_Keys = (\<Sum>s \<leftarrow> C_shards c. int (card (dom (SH_items s)))),
      Stats_MemoryUsed = (\<Sum>s \<leftarrow> C_shards c. SH_currentSize s),
      Stats_MemoryLimit = MC_MaxSize (C_config c)\<rparr>"

text \<open>The clean-up of all shards; \<open>order i\<close> is the order of the keys of shard \<open>i\<close>.\<close>

fun cleanup_shards :: "time \<Rightarrow> (string \<Rightarrow> time) \<Rightarrow> (nat \<Rightarrow> string list) \<Rightarrow> nat \<Rightarrow> CacheShard list \<Rightarrow> CacheShard list option" where
  "cleanup_shards now clk order i [] = Some []"
| "cleanup_shards now clk order i (s # ss) =
     Option.bind (cleanup_loop now clk (order i) s)
       (\<lambda>s'. map_option ((#) s') (cleanup_shards now clk order (Suc i) ss))"

definition cache_cleanup :: "time \<Rightarrow> (string \<Rightarrow> time) \<Rightarrow> (nat \<Rightarrow> string list) \<Rightarrow> MemoryCache \<Rightarrow> MemoryCache option" where
  "cache_cleanup now clk order c =
     map_option (\<lambda>ss. c\<lparr>C_shards := ss\<rparr>) (cleanup_shards now clk order 0 (C_shards c))"

section \<open>Invariants of a shard\<close>

definition items_size :: "(string \<rightharpoonup> CacheEntry) \<Rightarrow> int" where
  "items_size m = (\<Sum>k \<in> dom m. E_Size (the (m k)))"

text \<open>What holds whatever the interleaving: the recency list has every key of the shard.\<close>

definition shard_safe :: "CacheShard \<Rightarrow> bool" where
  "shard_safe s \<longleftrightarrow> [] \<notin> dom (SH_items s) \<and> lru.covers (SH_lruList s) (dom (SH_items s))"

text \<open>What holds when operations of the cache do not interleave.\<close>

definition shard_exact :: "CacheShard \<Rightarrow> bool" where
  "shard_exact s \<longleftrightarrow>
     finite (dom (SH_items s)) \<and> [] \<notin> dom (SH_items s) \<and>
     lru.exactly (SH_lruList s) (dom (SH_items s)) \<and> SH_currentSize s = items_size (SH_items s)"

lemma items_size_remove:
  "finite (dom m) \<Longrightarrow> m k = Some e \<Longrightarrow> items_size (m(k := None)) = items_size m - E_Size e"
  by (simp add: items_size_def sum_diff1 domI)

lemma items_size_insert:
  "finite (dom m) \<Longrightarrow> m k = None \<Longrightarrow> items_size (m(k \<mapsto> e)) = items_size m + E_Size e"
  unfolding items_size_def by (subst dom_fun_upd) (auto simp: domIff intro!: sum.cong)

lemma items_size_update:
  "finite (dom m) \<Longrightarrow> m k = Some e \<Longrightarrow> E_Size e' = E_Size e \<Longrightarrow> items_size (m(k \<mapsto> e')) = items_size m"
  unfolding items_size_def by (rule sum.cong) auto

lemma UpdateAccess_size [simp]: "E_Size (UpdateAccess now e) = E_Size e"
  by (simp add: UpdateAccess_def)

lemma new_shard_simps [simp]:
  "SH_items (new_shard m) = Map.empty" "SH_lruList (new_shard m) = NewLRUList"
  "SH_currentSize (new_shard m) = 0" "SH_maxSize (new_shard m) = m"
  by (simp_all add: new_shard_def)

lemma shard_safe_new: "shard_safe (new_shard m)"
  by (simp add: shard_safe_def lru.covers_new)

lemma shard_exact_new: "shard_exact (new_shard m)"
  by (simp add: shard_exact_def lru.exactly_new items_size_def)

lemma shard_exact_safe: "shard_exact s \<Longrightarrow> shard_safe s"
  by (simp add: shard_exact_def shard_safe_def lru.exactly_covers)

subsection \<open>Every interleaving\<close>

lemma safe_forget:
  assumes "shard_safe s"
  shows "\<exists>s'. shard_forget key s = Some s' \<and> SH_items s' = SH_items s \<and> SH_maxSize s' = SH_maxSize s \<and>
    lru.covers (SH_lruList s') (dom (SH_items s) - {key})"
proof (cases "SH_items s key")
  case None
  then show ?thesis using assms by (auto simp: shard_forget_def shard_safe_def intro: lru.covers_mono)
next
  case (Some e)
  from lru.covers_rem [of "SH_lruList s" "dom (SH_items s)" key] assms obtain l where
    "lru_remove key (SH_lruList s) = Some l" "lru.covers l (dom (SH_items s) - {key})"
    by (auto simp: shard_safe_def)
  with Some show ?thesis by (simp add: shard_forget_def)
qed

lemma safe_evict:
  assumes "lru.covers (SH_lruList s) K" and "[] \<notin> dom (SH_items s)"
  shows "\<exists>s' k. shard_evictLRU s = Some s' \<and> SH_maxSize s' = SH_maxSize s \<and>
    lru.covers (SH_lruList s') (K - {k}) \<and> (k = [] \<and> SH_items s' = SH_items s \<or> SH_items s' = (SH_items s)(k := None))"
proof -
  from lru.covers_tail [OF assms(1)] obtain k l where t: "lru_removeTail (SH_lruList s) = Some (k, l)"
    and c: "lru.covers l (K - {k})" by blast
  show ?thesis
  proof (cases "k = [] \<or> SH_items s k = None")
    case True
    with t have "shard_evictLRU s = Some (s\<lparr>SH_lruList := l\<rparr>)" by (auto simp: shard_evictLRU_def Let_def)
    with c True show ?thesis by (intro exI [of _ "s\<lparr>SH_lruList := l\<rparr>"] exI [of _ k]) auto
  next
    case False
    with t c show ?thesis by (auto simp: shard_evictLRU_def Let_def intro!: exI [of _ k])
  qed
qed

lemma safe_set:
  assumes "shard_safe s" and "key \<noteq> []"
  shows "\<exists>s'. shard_set key e s = Some s' \<and> shard_safe s'"
proof -
  from safe_forget [OF assms(1)] obtain s1 where s1: "shard_forget key s = Some s1" "SH_items s1 = SH_items s"
    "lru.covers (SH_lruList s1) (dom (SH_items s) - {key})" by blast
  have ne: "[] \<notin> dom (SH_items s1)" using assms(1) s1(2) by (simp add: shard_safe_def)
  have "\<exists>s2. shard_make_room (E_Size e) s1 = Some s2 \<and> [] \<notin> dom (SH_items s2) \<and>
      lru.covers (SH_lruList s2) (dom (SH_items s2) - {key})"
  proof (cases "SH_currentSize s1 + E_Size e > SH_maxSize s1")
    case True
    from safe_evict [OF s1(3) ne] obtain s2 k where s2: "shard_evictLRU s1 = Some s2"
      "lru.covers (SH_lruList s2) (dom (SH_items s) - {key} - {k})"
      "k = [] \<and> SH_items s2 = SH_items s1 \<or> SH_items s2 = (SH_items s1)(k := None)" by blast
    have "dom (SH_items s2) - {key} \<subseteq> dom (SH_items s) - {key} - {k}" "[] \<notin> dom (SH_items s2)"
      using s2(3) ne s1(2) by (auto split: if_splits)
    with s2 True show ?thesis by (auto simp: shard_make_room_def intro: lru.covers_mono)
  next
    case False
    with s1 ne show ?thesis by (simp add: shard_make_room_def)
  qed
  then obtain s2 where s2: "shard_make_room (E_Size e) s1 = Some s2" "[] \<notin> dom (SH_items s2)"
    "lru.covers (SH_lruList s2) (dom (SH_items s2) - {key})" by blast
  from lru.covers_add [OF s2(3), of key] obtain l where "lru_addToFront key (SH_lruList s2) = Some l"
    "lru.covers l (insert key (dom (SH_items s2) - {key}))" by blast
  with s1 s2 assms(2) show ?thesis by (auto simp: shard_set_def shard_safe_def)
qed

lemma safe_delete:
  assumes "shard_safe s"
  shows "\<exists>s'. shard_delete key s = Some s' \<and> shard_safe s'"
proof (cases "SH_items s key")
  case None
  then show ?thesis using assms by (simp add: shard_delete_def)
next
  case (Some e)
  from lru.covers_rem [of "SH_lruList s" "dom (SH_items s)" key] assms obtain l where
    "lru_remove key (SH_lruList s) = Some l" "lru.covers l (dom (SH_items s) - {key})"
    by (auto simp: shard_safe_def)
  with Some assms show ?thesis by (auto simp: shard_delete_def shard_safe_def)
qed

lemma safe_front: "shard_safe s \<Longrightarrow> \<exists>s'. shard_moveToFront key s = Some s' \<and> shard_safe s'"
proof -
  assume s: "shard_safe s"
  from lru.covers_front [of "SH_lruList s" "dom (SH_items s)" key] s obtain l where
    "lru_moveToFront key (SH_lruList s) = Some l" "lru.covers l (insert key (dom (SH_items s)))"
    by (auto simp: shard_safe_def)
  with s show ?thesis by (auto simp: shard_moveToFront_def shard_safe_def intro: lru.covers_mono)
qed

lemma dom_same_update: "m k = Some e \<Longrightarrow> dom (m(k \<mapsto> e')) = dom m"
  by auto

lemma dom_touch: "dom (m(k := map_option f (m k))) = dom m"
  by (auto split: if_splits)

lemma touch_simps [simp]:
  "dom (SH_items (shard_touch now key s)) = dom (SH_items s)"
  "SH_lruList (shard_touch now key s) = SH_lruList s"
  "SH_currentSize (shard_touch now key s) = SH_currentSize s"
  "SH_maxSize (shard_touch now key s) = SH_maxSize s"
  by (simp_all add: shard_touch_def dom_touch del: dom_fun_upd)

lemma safe_touch: "shard_safe s \<Longrightarrow> shard_safe (shard_touch now key s)"
  by (simp add: shard_safe_def)

lemma expire_simps:
  assumes "shard_expire now key ttl s = Some s'"
  shows "dom (SH_items s') = dom (SH_items s)" "SH_lruList s' = SH_lruList s"
    "SH_currentSize s' = SH_currentSize s"
    "\<exists>e. SH_items s key = Some e \<and> SH_items s' = (SH_items s)(key \<mapsto> e\<lparr>E_ExpiresAt := Some (now + ttl)\<rparr>)"
  using assms by (auto simp: shard_expire_def split: option.splits if_splits)

lemma safe_expire: "shard_safe s \<Longrightarrow> shard_expire now key ttl s = Some s' \<Longrightarrow> shard_safe s'"
  by (simp add: shard_safe_def expire_simps(1,2))

lemma safe_clear: "shard_safe (shard_clear s)"
  by (simp add: shard_safe_def shard_clear_def lru.covers_new)

lemma safe_cleanup: "shard_safe s \<Longrightarrow> \<exists>s'. cleanup_loop now clk keys s = Some s' \<and> shard_safe s'"
proof (induction keys arbitrary: s)
  case Nil
  then show ?case by simp
next
  case (Cons key keys)
  from safe_delete [OF Cons.prems, of key] obtain s1 where "shard_delete key s = Some s1" "shard_safe s1" by blast
  then show ?case using Cons by (auto split: option.splits)
qed

subsection \<open>Sequential use\<close>

lemma exact_finite: "shard_exact s \<Longrightarrow> finite (dom (SH_items s))"
  by (simp add: shard_exact_def)

lemma exact_forget:
  assumes "shard_exact s" and "shard_forget key s = Some s'"
  shows "SH_items s' = SH_items s" "SH_maxSize s' = SH_maxSize s"
    "lru.exactly (SH_lruList s') (dom (SH_items s) - {key})"
    "SH_currentSize s' = items_size ((SH_items s)(key := None))"
proof -
  have "SH_items s' = SH_items s \<and> SH_maxSize s' = SH_maxSize s \<and>
    lru.exactly (SH_lruList s') (dom (SH_items s) - {key}) \<and>
    SH_currentSize s' = items_size ((SH_items s)(key := None))"
  proof (cases "SH_items s key")
    case None
    then have "(SH_items s)(key := None) = SH_items s" by (auto simp: fun_eq_iff)
    with None assms show ?thesis by (auto simp: shard_forget_def shard_exact_def domIff)
  next
    case (Some e)
    with assms show ?thesis
      by (auto simp: shard_forget_def shard_exact_def items_size_remove dest: lru.exactly_rem)
  qed
  then show "SH_items s' = SH_items s" "SH_maxSize s' = SH_maxSize s"
    "lru.exactly (SH_lruList s') (dom (SH_items s) - {key})"
    "SH_currentSize s' = items_size ((SH_items s)(key := None))" by auto
qed

text \<open>The map without the key that is about to be stored.\<close>

lemma exact_make_room:
  assumes m: "m = (SH_items s)(key := None)" "finite (dom m)" "[] \<notin> dom m"
    and inv: "lru.exactly (SH_lruList s) (dom m)" "SH_currentSize s = items_size m"
    and res: "shard_make_room z s = Some s'"
  shows "\<exists>m'. m' = (SH_items s')(key := None) \<and> lru.exactly (SH_lruList s') (dom m') \<and> SH_maxSize s' = SH_maxSize s \<and>
    SH_currentSize s' = items_size m' \<and>
    (m' = m \<and> (items_size m + z \<le> SH_maxSize s \<or> dom m = {}) \<or>
     items_size m + z > SH_maxSize s \<and> (\<exists>k \<in> dom m. m' = m(k := None)))"
proof (cases "SH_currentSize s + z > SH_maxSize s \<and> dom m \<noteq> {}")
  case True
  from res True have ev: "shard_evictLRU s = Some s'" by (simp add: shard_make_room_def)
  then obtain k l where t: "lru_removeTail (SH_lruList s) = Some (k, l)"
    by (auto simp: shard_evictLRU_def split: option.splits)
  have k: "k \<in> dom m" "lru.exactly l (dom m - {k})"
    using lru.exactly_tail [OF inv(1) t] True by auto
  then obtain e where e: "m k = Some e" by auto
  with m(1) have sk: "SH_items s k = Some e" "k \<noteq> key" by (auto split: if_splits)
  have "k \<noteq> []" using k(1) m(3) by auto
  with ev t sk have s': "s' = s\<lparr>SH_lruList := l, SH_items := (SH_items s)(k := None),
      SH_currentSize := SH_currentSize s - E_Size e\<rparr>"
    by (simp add: shard_evictLRU_def)
  have "m(k := None) = (SH_items s')(key := None)" by (simp add: s' m(1) fun_upd_twist [OF sk(2)])
  moreover have "items_size (m(k := None)) = items_size m - E_Size e" by (rule items_size_remove [OF m(2) e])
  moreover have "lru.exactly (SH_lruList s') (dom (m(k := None)))" using k(2) s' by simp
  moreover have "SH_currentSize s' = items_size m - E_Size e" "SH_maxSize s' = SH_maxSize s"
    using inv(2) s' by simp_all
  moreover have "items_size m + z > SH_maxSize s" using True inv(2) by simp
  moreover have "\<exists>j \<in> dom m. m(k := None) = m(j := None)" using k(1) by blast
  ultimately show ?thesis by (intro exI [of _ "m(k := None)"]) simp
next
  case False
  show ?thesis
  proof (cases "SH_currentSize s + z > SH_maxSize s")
    case True
    with False have "dom m = {}" by simp
    from res True have ev: "shard_evictLRU s = Some s'" by (simp add: shard_make_room_def)
    from inv(1) \<open>dom m = {}\<close> have "lru_rep (SH_lruList s) []" by (auto simp: lru.exactly_def)
    from lru.rep_tail [OF this] obtain l where t: "lru_removeTail (SH_lruList s) = Some ([], l)" "lru_rep l []" by auto
    with ev have "s' = s\<lparr>SH_lruList := l\<rparr>" by (simp add: shard_evictLRU_def)
    moreover have "lru.exactly l (dom m)" using t(2) \<open>dom m = {}\<close> by (auto simp: lru.exactly_def)
    ultimately show ?thesis using inv(2) m(1) \<open>dom m = {}\<close> by (intro exI [of _ m]) simp
  next
    case False
    with res have "s' = s" by (simp add: shard_make_room_def)
    with False inv m show ?thesis by auto
  qed
qed

text \<open>What \<^verbatim>\<open>set\<close> does: the map without the key, or without one more key, is extended by the entry.\<close>

lemma exact_set_result:
  assumes s: "shard_exact s" and key: "key \<noteq> []" and res: "shard_set key e s = Some s'"
    and m: "m = (SH_items s)(key := None)"
  shows "shard_exact s' \<and> SH_maxSize s' = SH_maxSize s \<and>
    (SH_items s' = m(key \<mapsto> e) \<and> (items_size m + E_Size e \<le> SH_maxSize s \<or> dom m = {}) \<or>
     items_size m + E_Size e > SH_maxSize s \<and> (\<exists>k \<in> dom m. SH_items s' = m(k := None, key \<mapsto> e)))"
proof -
  from res obtain s1 s2 l where s1: "shard_forget key s = Some s1"
    and s2: "shard_make_room (E_Size e) s1 = Some s2" and l: "lru_addToFront key (SH_lruList s2) = Some l"
    and s': "s' = s2\<lparr>SH_items := (SH_items s2)(key \<mapsto> e), SH_currentSize := SH_currentSize s2 + E_Size e, SH_lruList := l\<rparr>"
    by (auto simp: shard_set_def bind_eq_Some_conv)
  note f = exact_forget [OF s s1]
  have m1: "m = (SH_items s1)(key := None)" "finite (dom m)" "[] \<notin> dom m"
    using s by (auto simp: m f(1) shard_exact_def)
  have dm: "dom m = dom (SH_items s) - {key}" by (auto simp: m)
  from exact_make_room [OF m1 _ _ s2] f obtain m' where m': "m' = (SH_items s2)(key := None)"
    "lru.exactly (SH_lruList s2) (dom m')" "SH_maxSize s2 = SH_maxSize s" "SH_currentSize s2 = items_size m'"
    "m' = m \<and> (items_size m + E_Size e \<le> SH_maxSize s \<or> dom m = {}) \<or>
     items_size m + E_Size e > SH_maxSize s \<and> (\<exists>k \<in> dom m. m' = m(k := None))"
    by (auto simp: dm m)
  have items: "SH_items s' = m'(key \<mapsto> e)" by (simp add: s' m'(1))
  have "dom m' \<subseteq> dom m" using m'(5) by (auto split: if_splits)
  then have nk: "m' key = None" "finite (dom m')" "[] \<notin> dom m'"
    using m'(1) m1(2,3) by (auto dest: finite_subset)
  have "lru.exactly l (insert key (dom m'))" by (rule lru.exactly_add [OF m'(2) _ l]) (use nk in auto)
  moreover have "SH_currentSize s' = items_size (SH_items s')"
    by (simp add: items items_size_insert [OF nk(2,1)]) (simp add: s' m'(4))
  ultimately have "shard_exact s'" using nk key by (simp add: shard_exact_def items) (simp add: s')
  moreover have "SH_maxSize s' = SH_maxSize s" by (simp add: s' m'(3))
  ultimately show ?thesis using m'(5) items by auto
qed

lemma exact_delete:
  assumes "shard_exact s" and "shard_delete key s = Some s'"
  shows "shard_exact s' \<and> SH_items s' = (SH_items s)(key := None) \<and> SH_maxSize s' = SH_maxSize s"
proof (cases "SH_items s key")
  case None
  then have "(SH_items s)(key := None) = SH_items s" by (auto simp: fun_eq_iff)
  with None assms show ?thesis by (auto simp: shard_delete_def)
next
  case (Some e)
  with assms show ?thesis
    by (auto simp: shard_delete_def shard_exact_def items_size_remove dest: lru.exactly_rem split: if_splits)
qed

lemma exact_front:
  assumes "shard_exact s" and "key \<in> dom (SH_items s)" and "shard_moveToFront key s = Some s'"
  shows "shard_exact s' \<and> SH_items s' = SH_items s \<and> SH_maxSize s' = SH_maxSize s"
  using assms by (auto simp: shard_moveToFront_def shard_exact_def dest: lru.exactly_front)

lemma items_size_touch: "finite (dom m) \<Longrightarrow> items_size (m(k := map_option (UpdateAccess now) (m k))) = items_size m"
proof (cases "m k")
  case None
  then have "m(k := map_option (UpdateAccess now) (m k)) = m" by (auto simp: fun_eq_iff)
  then show ?thesis by simp
qed (simp add: items_size_update)

lemma exact_touch: "shard_exact s \<Longrightarrow> shard_exact (shard_touch now key s)"
  using items_size_touch [of "SH_items s" key now]
  by (simp add: shard_exact_def) (simp add: shard_touch_def)

lemma exact_expire: "shard_exact s \<Longrightarrow> shard_expire now key ttl s = Some s' \<Longrightarrow> shard_exact s'"
  using expire_simps [of now key ttl s s'] by (auto simp: shard_exact_def items_size_update)

lemma exact_clear: "shard_exact (shard_clear s)"
  by (simp add: shard_exact_def shard_clear_def lru.exactly_new items_size_def)

lemma exact_cleanup: "shard_exact s \<Longrightarrow> cleanup_loop now clk keys s = Some s' \<Longrightarrow> shard_exact s'"
proof (induction keys arbitrary: s)
  case Nil
  then show ?case by simp
next
  case (Cons key keys)
  then show ?case by (auto simp: bind_eq_Some_conv split: option.splits if_splits dest: exact_delete)
qed

section \<open>The cache\<close>

text \<open>Every shard is exact, and a key is only in the shard its hash selects.\<close>

definition cache_ok :: "MemoryCache \<Rightarrow> bool" where
  "cache_ok c \<longleftrightarrow>
     0 < length (C_shards c) \<and> length (C_shards c) < 2 ^ 32 \<and>
     (\<forall>i < length (C_shards c). shard_exact (C_shards c ! i) \<and>
        (\<forall>key \<in> dom (SH_items (C_shards c ! i)). shard_index (length (C_shards c)) key = i))"

lemma shard_index_less: "0 < n \<Longrightarrow> n < 2 ^ 32 \<Longrightarrow> shard_index n key < n"
  by (simp add: shard_index_def unat_mod unat_of_nat)

lemma getShard_exact: "cache_ok c \<Longrightarrow> shard_exact (getShard key c)"
  by (simp add: cache_ok_def getShard_def shard_index_less)

lemma on_shard_ok:
  assumes c: "cache_ok c" and f: "f (getShard key c) = Some s" and s: "shard_exact s"
    and dom: "dom (SH_items s) \<subseteq> insert key (dom (SH_items (getShard key c)))"
  obtains c' where "on_shard key f c = Some c'" "cache_ok c'" "getShard key c' = s"
    "C_config c' = C_config c" "C_compressor c' = C_compressor c"
proof -
  let ?n = "length (C_shards c)"
  let ?i = "shard_index ?n key"
  let ?c = "c\<lparr>C_shards := (C_shards c)[?i := s]\<rparr>"
  have i: "?i < ?n" using c by (simp add: cache_ok_def shard_index_less)
  have on: "on_shard key f c = Some ?c" using i f by (simp add: on_shard_def getShard_def Let_def)
  have keys: "\<forall>k \<in> dom (SH_items s). shard_index ?n k = ?i"
    using dom c i by (auto simp: cache_ok_def getShard_def subset_iff)
  have all: "shard_exact ((C_shards c)[?i := s] ! j) \<and>
      (\<forall>k \<in> dom (SH_items ((C_shards c)[?i := s] ! j)). shard_index ?n k = j)" if "j < ?n" for j
  proof (cases "j = ?i")
    case True
    then have "(C_shards c)[?i := s] ! j = s" using i by simp
    with s keys True show ?thesis by metis
  next
    case False
    then have "(C_shards c)[?i := s] ! j = C_shards c ! j" by simp
    moreover have "shard_exact (C_shards c ! j) \<and> (\<forall>k \<in> dom (SH_items (C_shards c ! j)). shard_index ?n k = j)"
      using c that unfolding cache_ok_def by blast
    ultimately show ?thesis by metis
  qed
  have shards: "C_shards ?c = (C_shards c)[?i := s]" and n: "0 < ?n \<and> ?n < 2 ^ 32"
    using c by (simp_all add: cache_ok_def)
  have "cache_ok ?c" unfolding cache_ok_def shards length_list_update using n all by blast
  with on i show ?thesis by (intro that [of ?c]) (auto simp: getShard_def)
qed

lemma after_simps [simp]: "after r c (Some c') = (r, c')" "after r c None = (Panic, c)"
  by (simp_all add: after_def)

lemma store_ok:
  assumes "cache_ok c" and "key \<noteq> []"
  obtains c' s where "cache_store key e c = (Ok (), c')" "cache_ok c'" "getShard key c' = s"
    "shard_set key e (getShard key c) = Some s" "C_config c' = C_config c" "C_compressor c' = C_compressor c"
proof -
  have s: "shard_exact (getShard key c)" by (rule getShard_exact [OF assms(1)])
  from safe_set [OF shard_exact_safe [OF s] assms(2), of e] obtain s' where s': "shard_set key e (getShard key c) = Some s'"
    by blast
  from exact_set_result [OF s assms(2) s' refl] have "shard_exact s'"
    "dom (SH_items s') \<subseteq> insert key (dom (SH_items (getShard key c)))" by (auto split: if_splits)
  from on_shard_ok [where f = "shard_set key e", OF assms(1) s' this] obtain c' where "on_shard key (shard_set key e) c = Some c'" "cache_ok c'"
    "getShard key c' = s'" "C_config c' = C_config c" "C_compressor c' = C_compressor c" .
  with s' show ?thesis by (intro that [of c' s']) (simp_all add: cache_store_def)
qed

lemma delete_ok:
  assumes "cache_ok c"
  obtains c' where "on_shard key (shard_delete key) c = Some c'" "cache_ok c'"
    "SH_items (getShard key c') = (SH_items (getShard key c))(key := None)" "C_config c' = C_config c"
proof -
  have s: "shard_exact (getShard key c)" by (rule getShard_exact [OF assms])
  from safe_delete [OF shard_exact_safe [OF s], of key] obtain s' where s': "shard_delete key (getShard key c) = Some s'"
    by blast
  from exact_delete [OF s s'] have "shard_exact s'" and i: "SH_items s' = (SH_items (getShard key c))(key := None)" by auto
  then have e: "shard_exact s'" "dom (SH_items s') \<subseteq> insert key (dom (SH_items (getShard key c)))" by auto
  from on_shard_ok [where f = "shard_delete key", OF assms s' e]
  obtain c' where "on_shard key (shard_delete key) c = Some c'" "cache_ok c'" "getShard key c' = s'"
    "C_config c' = C_config c" .
  with i show ?thesis by (intro that [of c']) simp_all
qed

lemma access_ok:
  assumes "cache_ok c" and "key \<in> dom (SH_items (getShard key c))"
  obtains c' where "on_shard key (\<lambda>s. shard_moveToFront key (shard_touch now key s)) c = Some c'" "cache_ok c'"
    "dom (SH_items (getShard key c')) = dom (SH_items (getShard key c))" "C_config c' = C_config c"
proof -
  let ?s = "shard_touch now key (getShard key c)"
  have s: "shard_exact ?s" by (rule exact_touch [OF getShard_exact [OF assms(1)]])
  from safe_front [OF shard_exact_safe [OF s], of key] obtain s' where s': "shard_moveToFront key ?s = Some s'" by blast
  from exact_front [OF s _ s'] assms(2) have e: "shard_exact s'" and i: "dom (SH_items s') = dom (SH_items (getShard key c))"
    by auto
  have "dom (SH_items s') \<subseteq> insert key (dom (SH_items (getShard key c)))" using i by auto
  from on_shard_ok [where f = "\<lambda>s. shard_moveToFront key (shard_touch now key s)", OF assms(1) s' e this]
  obtain c' where "on_shard key (\<lambda>s. shard_moveToFront key (shard_touch now key s)) c = Some c'" "cache_ok c'"
    "getShard key c' = s'" "C_config c' = C_config c" .
  with i show ?thesis by (intro that [of c']) simp_all
qed

lemma read_ok:
  assumes "cache_ok c"
  shows "cache_ok (snd (cache_read now key decode c)) \<and> C_config (snd (cache_read now key decode c)) = C_config c"
    and "(\<And>b. decode b \<noteq> Panic) \<Longrightarrow> fst (cache_read now key decode c) \<noteq> Panic"
proof -
  obtain c1 where c1: "on_shard key (shard_delete key) c = Some c1" "cache_ok c1" "C_config c1 = C_config c"
    by (rule delete_ok [OF assms, of key])
  have "(cache_ok (snd (cache_read now key decode c)) \<and> C_config (snd (cache_read now key decode c)) = C_config c) \<and>
    ((\<forall>b. decode b \<noteq> Panic) \<longrightarrow> fst (cache_read now key decode c) \<noteq> Panic)"
  proof (cases "SH_items (getShard key c) key")
    case None
    then show ?thesis using assms by (simp add: cache_read_def shard_get_def)
  next
    case (Some e)
    then have "key \<in> dom (SH_items (getShard key c))" by auto
    then obtain c2 where "on_shard key (\<lambda>s. shard_moveToFront key (shard_touch now key s)) c = Some c2" "cache_ok c2"
      "C_config c2 = C_config c"
      by (rule access_ok [OF assms])
    with Some c1 assms show ?thesis by (auto simp: cache_read_def shard_get_def split: outcome.splits)
  qed
  then show "cache_ok (snd (cache_read now key decode c)) \<and> C_config (snd (cache_read now key decode c)) = C_config c"
    and "(\<And>b. decode b \<noteq> Panic) \<Longrightarrow> fst (cache_read now key decode c) \<noteq> Panic" by auto
qed

lemma keys_nonempty [simp]: "fileinfo_key u \<noteq> []" "content_key u k \<noteq> []" "metadata_key m \<noteq> []"
  by (simp_all add: fileinfo_key_def content_key_def metadata_key_def)

lemma store_keeps: "cache_ok c \<Longrightarrow> key \<noteq> [] \<Longrightarrow> cache_ok (snd (cache_store key e c))"
  by (metis store_ok snd_conv)

lemma Delete_keeps: "cache_ok c \<Longrightarrow> \<exists>c'. cache_Delete keys c = Some c' \<and> cache_ok c'"
proof (induction keys arbitrary: c)
  case Nil
  then show ?case by simp
next
  case (Cons key keys)
  obtain c1 where "on_shard key (shard_delete key) c = Some c1" "cache_ok c1"
    by (rule delete_ok [OF Cons.prems, of key])
  with Cons.IH [of c1] show ?case by simp
qed

lemma BatchSet_keeps:
  "cache_ok c \<Longrightarrow> [] \<notin> fst ` set items \<Longrightarrow> \<exists>c'. BatchSet now ttl items c = Some c' \<and> cache_ok c'"
proof (induction items arbitrary: c)
  case Nil
  then show ?case by simp
next
  case (Cons it items)
  obtain key v where it: "it = (key, v)" by (cases it)
  from Cons.prems it have "key \<noteq> []" by auto
  from store_ok [OF Cons.prems(1) this, of "mk_entry now key v False [] (expiry now ttl)"]
  obtain c1 where "cache_store key (mk_entry now key v False [] (expiry now ttl)) c = (Ok (), c1)" "cache_ok c1" by blast
  with Cons it show ?case by (auto simp: cache_store_def after_def split: option.splits)
qed

lemma BatchGet_keeps: "cache_ok c \<Longrightarrow> \<exists>r c'. BatchGet now keys result c = Some (r, c') \<and> cache_ok c'"
proof (induction keys arbitrary: c result)
  case Nil
  then show ?case by simp
next
  case (Cons key keys)
  show ?case
  proof (cases "SH_items (getShard key c) key")
    case None
    then show ?thesis using Cons by (simp add: shard_get_def)
  next
    case (Some e)
    then have "key \<in> dom (SH_items (getShard key c))" by auto
    then obtain c2 where "on_shard key (\<lambda>s. shard_moveToFront key (shard_touch now key s)) c = Some c2" "cache_ok c2"
      by (rule access_ok [OF Cons.prems])
    with Some Cons show ?thesis by (simp add: shard_get_def)
  qed
qed

lemma Clear_keeps: "cache_ok c \<Longrightarrow> cache_ok (cache_Clear c)"
  by (simp add: cache_ok_def cache_Clear_def exact_clear) (simp add: shard_clear_def)

lemma cleanup_dom: "shard_exact s \<Longrightarrow> cleanup_loop now clk keys s = Some s' \<Longrightarrow> dom (SH_items s') \<subseteq> dom (SH_items s)"
proof (induction keys arbitrary: s)
  case Nil
  then show ?case by simp
next
  case (Cons key keys)
  have "dom (SH_items s') \<subseteq> dom (SH_items s)" if d: "shard_delete key s = Some s1"
    and l: "cleanup_loop now clk keys s1 = Some s'" for s1
    using exact_delete [OF Cons.prems(1) d] Cons.IH [OF _ l] by (auto split: if_splits)
  with Cons show ?case by (auto simp: bind_eq_Some_conv split: option.splits if_splits)
qed

lemma cleanup_shards_nth:
  "(\<And>s. s \<in> set ss \<Longrightarrow> shard_exact s) \<Longrightarrow>
   \<exists>ss'. cleanup_shards now clk order i ss = Some ss' \<and> length ss' = length ss \<and>
     (\<forall>j < length ss. shard_exact (ss' ! j) \<and> dom (SH_items (ss' ! j)) \<subseteq> dom (SH_items (ss ! j)))"
proof (induction ss arbitrary: i)
  case Nil
  then show ?case by simp
next
  case (Cons s ss)
  have s: "shard_exact s" using Cons.prems by simp
  from safe_cleanup [OF shard_exact_safe [OF s]] obtain s' where s': "cleanup_loop now clk (order i) s = Some s'" by blast
  from Cons obtain ss' where "cleanup_shards now clk order (Suc i) ss = Some ss'" "length ss' = length ss"
    "\<forall>j < length ss. shard_exact (ss' ! j) \<and> dom (SH_items (ss' ! j)) \<subseteq> dom (SH_items (ss ! j))"
    by (metis list.set_intros(2))
  with s' exact_cleanup [OF s s'] cleanup_dom [OF s s'] show ?case
    by (intro exI [of _ "s' # ss'"]) (auto simp: nth_Cons split: nat.splits)
qed

lemma cleanup_keeps: "cache_ok c \<Longrightarrow> \<exists>c'. cache_cleanup now clk order c = Some c' \<and> cache_ok c'"
proof -
  assume c: "cache_ok c"
  have "shard_exact s" if "s \<in> set (C_shards c)" for s
    using c that by (auto simp: cache_ok_def in_set_conv_nth)
  from cleanup_shards_nth [OF this, where now = now and clk = clk and order = order and i = 0] obtain ss' where ss': "cleanup_shards now clk order 0 (C_shards c) = Some ss'"
    "length ss' = length (C_shards c)"
    "\<forall>j < length (C_shards c). shard_exact (ss' ! j) \<and> dom (SH_items (ss' ! j)) \<subseteq> dom (SH_items (C_shards c ! j))" by blast
  have "cache_ok (c\<lparr>C_shards := ss'\<rparr>)"
    using c ss'(3) unfolding cache_ok_def by (simp add: ss'(2)) blast
  with ss'(1) show ?thesis by (simp add: cache_cleanup_def)
qed

lemma Expire_keeps: "cache_ok c \<Longrightarrow> cache_ok (snd (cache_Expire now key ttl c))"
proof (cases "SH_items (getShard key c) key")
  case None
  assume "cache_ok c"
  with None show ?thesis by (simp add: cache_Expire_def shard_exists_def)
next
  case (Some e)
  assume c: "cache_ok c"
  from Some obtain s where s: "shard_expire now key ttl (getShard key c) = Some s" by (auto simp: shard_expire_def)
  have e: "shard_exact s" "dom (SH_items s) \<subseteq> insert key (dom (SH_items (getShard key c)))"
    using exact_expire [OF getShard_exact [OF c] s] expire_simps(1) [OF s] by auto
  from on_shard_ok [where f = "shard_expire now key ttl", OF c s e] obtain c' where
    "on_shard key (shard_expire now key ttl) c = Some c'" "cache_ok c'" .
  with Some show ?thesis by (simp add: cache_Expire_def shard_exists_def)
qed

lemma SetFileInfo_keeps: "cache_ok c \<Longrightarrow> cache_ok (snd (SetFileInfo marshal now url info c))"
  by (auto simp: SetFileInfo_def store_keeps split: outcome.splits)

lemma SetContent_keeps: "cache_ok c \<Longrightarrow> cache_ok (snd (SetContent now url checksum content c))"
  by (auto simp: SetContent_def store_keeps split: outcome.splits)

lemma SetMetadata_keeps: "cache_ok c \<Longrightarrow> cache_ok (snd (SetMetadata marshal now key m ttl c))"
  by (auto simp: SetMetadata_def store_keeps split: outcome.splits)

lemma cache_ok_replicate:
  "0 < n \<Longrightarrow> n < 2 ^ 32 \<Longrightarrow> cache_ok \<lparr>C_config = cf, C_shards = replicate n (new_shard m), C_compressor = cm\<rparr>"
  by (simp add: cache_ok_def shard_exact_new)

lemma new_cache_ok:
  "NewMemoryCache gzip config = Ok c \<Longrightarrow> MC_Shards (C_config c) < 2 ^ 32 \<Longrightarrow> cache_ok c"
  by (auto simp: NewMemoryCache_def Let_def nat_less_iff intro!: cache_ok_replicate split: if_splits)

lemma stored_content_found:
  assumes "cache_ok c" and "int (length content) \<le> MC_MaxItemSize (C_config c)"
    and "Compress (C_compressor c) content = Ok z" and "Decompress (C_compressor c) z = Ok content"
    and "MC_DefaultTTL (C_config c) \<le> 0 \<or> later \<le> now + MC_DefaultTTL (C_config c)"
    and same_key: "content_key url' checksum' = content_key url checksum"
  shows "\<exists>c1 c2. SetContent now url checksum content c = (Ok (), c1) \<and>
    GetContent later url' checksum' c1 = (Ok content, c2) \<and> cache_ok c2"
proof -
  let ?k = "content_key url checksum"
  let ?e = "mk_entry now ?k z (MC_EnableCompression (C_config c)) ''application/octet-stream''
    (expiry now (MC_DefaultTTL (C_config c)))"
  obtain c1 s where st: "cache_store ?k ?e c = (Ok (), c1)" "cache_ok c1" "getShard ?k c1 = s"
    "shard_set ?k ?e (getShard ?k c) = Some s" "C_config c1 = C_config c" "C_compressor c1 = C_compressor c"
    by (rule store_ok [OF assms(1) keys_nonempty(2), where e = ?e])
  have set: "SetContent now url checksum content c = (Ok (), c1)"
    using assms(2,3) st(1) by (simp add: SetContent_def wrap_error_def)
  have "SH_items s ?k = Some ?e"
    using exact_set_result [OF getShard_exact [OF assms(1)] keys_nonempty(2) st(4) refl] by auto
  moreover have "\<not> IsExpired later ?e"
    using assms(5) by (auto simp: IsExpired_def mk_entry_def expiry_def)
  moreover have "?k \<in> dom (SH_items (getShard ?k c1))" using \<open>SH_items s ?k = Some ?e\<close> st(3) by auto
  then obtain c2 where "on_shard ?k (\<lambda>s. shard_moveToFront ?k (shard_touch later ?k s)) c1 = Some c2" "cache_ok c2"
    by (rule access_ok [OF st(2), of ?k])
  ultimately have "GetContent later url' checksum' c1 = (Ok content, c2) \<and> cache_ok c2"
    using assms(4) st(3,6) unfolding GetContent_def same_key
    by (simp add: cache_read_def shard_get_def wrap_error_def) (simp add: mk_entry_def)
  with set show ?thesis by blast
qed

section \<open>Interleavings of the atomic steps\<close>

text \<open>The steps that goroutines take on a shard.  A reader looks an entry up, and later touches it and
  moves its key to the front, whatever has happened to the key in between.\<close>

inductive shard_step :: "CacheShard \<Rightarrow> CacheShard \<Rightarrow> bool" where
  step_set: "key \<noteq> [] \<Longrightarrow> shard_set key e s = Some s' \<Longrightarrow> shard_step s s'"
| step_delete: "shard_delete key s = Some s' \<Longrightarrow> shard_step s s'"
| step_touch: "shard_step s (shard_touch now key s)"
| step_front: "shard_moveToFront key s = Some s' \<Longrightarrow> shard_step s s'"
| step_expire: "shard_expire now key ttl s = Some s' \<Longrightarrow> shard_step s s'"
| step_clear: "shard_step s (shard_clear s)"
| step_cleanup: "cleanup_loop now clk keys s = Some s' \<Longrightarrow> shard_step s s'"

lemma shard_step_safe: "shard_step s s' \<Longrightarrow> shard_safe s \<Longrightarrow> shard_safe s'"
proof (induction rule: shard_step.induct)
  case (step_set key e s s')
  then show ?case using safe_set [of s key e] by auto
next
  case (step_delete key s s')
  then show ?case using safe_delete [of s key] by auto
next
  case (step_front key s s')
  then show ?case using safe_front [of s key] by auto
next
  case (step_cleanup now clk keys s s')
  then show ?case using safe_cleanup [of s now clk keys] by auto
qed (auto intro: safe_touch safe_expire safe_clear)

lemma shard_steps_safe: "shard_step\<^sup>*\<^sup>* s s' \<Longrightarrow> shard_safe s \<Longrightarrow> shard_safe s'"
  by (induction rule: rtranclp_induct) (auto intro: shard_step_safe)

section \<open>Correctness\<close>

definition sample_entry :: "string \<Rightarrow> int \<Rightarrow> CacheEntry" where
  "sample_entry key n =
     \<lparr>E_Key = key, E_Value = [], E_Compressed = False, E_ContentType = [], E_Size = n, E_CreatedAt = 0,
      E_ExpiresAt = None, E_AccessCount = 1, E_LastAccess = 0\<rparr>"

text \<open>A cache of two shards without compression, and the state after a first insertion.\<close>

definition sample_cache :: MemoryCache where
  "sample_cache =
     \<lparr>C_config = DefaultMemoryCacheConfig\<lparr>MC_Shards := 2, MC_EnableCompression := False\<rparr>,
      C_shards = replicate 2 (new_shard 1000), C_compressor = NewNoOpCompressor\<rparr>"

lemma sample_cache_ok: "cache_ok sample_cache"
  unfolding sample_cache_def by (rule cache_ok_replicate) simp_all



text \<open>C33: What is stored is found again.  Content within the size limit that the compressor can restore
  is returned unchanged, as long as its lifetime has not passed.\<close>

theorem content_round_trip:
  assumes "cache_ok c" and "int (length content) \<le> MC_MaxItemSize (C_config c)"
    and "Compress (C_compressor c) content = Ok z" and "Decompress (C_compressor c) z = Ok content"
    and "MC_DefaultTTL (C_config c) \<le> 0 \<or> later \<le> now + MC_DefaultTTL (C_config c)"
  shows "\<exists>c1 c2. SetContent now url checksum content c = (Ok (), c1) \<and>
    GetContent later url checksum c1 = (Ok content, c2) \<and> cache_ok c2"
  by (rule stored_content_found [OF assms refl])

theorem content_round_trip_witness:
  "\<exists>c1 c2. SetContent 0 ''u'' ''k'' ''text'' sample_cache = (Ok (), c1) \<and>
    GetContent 7 ''u'' ''k'' c1 = (Ok ''text'', c2) \<and> cache_ok c2"
  by (rule content_round_trip [OF sample_cache_ok])
    (simp_all add: sample_cache_def DefaultMemoryCacheConfig_def NewNoOpCompressor_def)

text \<open>Contents of different files can be confused.  The key of a content joins the address and the
  checksum by a colon without escaping, so when a checksum contains a colon, the content stored
  for one file is returned for another one.  Without colons in checksums keys are distinct.\<close>

theorem content_keys_collide:
  assumes "cache_ok c" and "int (length content) \<le> MC_MaxItemSize (C_config c)"
    and "Compress (C_compressor c) content = Ok z" and "Decompress (C_compressor c) z = Ok content"
    and "MC_DefaultTTL (C_config c) \<le> 0 \<or> later \<le> now + MC_DefaultTTL (C_config c)"
  shows "(\<exists>c1 c2. SetContent now (url @ '':'' @ a) b content c = (Ok (), c1) \<and>
      GetContent later url (a @ '':'' @ b) c1 = (Ok content, c2)) \<and>
    (CHR '':'' \<notin> set k \<longrightarrow> CHR '':'' \<notin> set k' \<longrightarrow> content_key u k = content_key u' k' \<longrightarrow> u = u' \<and> k = k')"
proof
  have "content_key url (a @ '':'' @ b) = content_key (url @ '':'' @ a) b" by (simp add: content_key_def)
  from stored_content_found [OF assms this]
  show "\<exists>c1 c2. SetContent now (url @ '':'' @ a) b content c = (Ok (), c1) \<and>
      GetContent later url (a @ '':'' @ b) c1 = (Ok content, c2)" by blast
  have "u = u' \<and> k = k'" if "CHR '':'' \<notin> set k" "CHR '':'' \<notin> set k'" "u @ '':'' @ k = u' @ '':'' @ k'"
  proof -
    have "takeWhile (\<lambda>c. c \<noteq> CHR '':'') (rev x @ CHR '':'' # y) = rev x" if "CHR '':'' \<notin> set x" for x y
      using that by (subst takeWhile_append2) auto
    moreover have e: "rev k @ CHR '':'' # rev u = rev k' @ CHR '':'' # rev u'"
      using arg_cong [OF that(3), of rev] by simp
    ultimately have "rev k = rev k'" using that(1,2) by metis
    with e have "rev k = rev k' \<and> rev u = rev u'" by simp
    then show ?thesis by simp
  qed
  then show "CHR '':'' \<notin> set k \<longrightarrow> CHR '':'' \<notin> set k' \<longrightarrow> content_key u k = content_key u' k' \<longrightarrow> u = u' \<and> k = k'"
    by (simp add: content_key_def)
qed

theorem content_keys_collide_witness:
  "\<exists>c1 c2. SetContent 0 ''s3://b/f:md5'' ''1'' ''text'' sample_cache = (Ok (), c1) \<and>
    GetContent 0 ''s3://b/f'' ''md5:1'' c1 = (Ok ''text'', c2)"
  using content_keys_collide [OF sample_cache_ok, of "''text''" "''text''" 0 0 "''s3://b/f''" "''md5''" "''1''"]
  by (simp add: sample_cache_def DefaultMemoryCacheConfig_def NewNoOpCompressor_def)

lemma set_keeps_limit:
  assumes "shard_exact s" and "key \<noteq> []" and "shard_set key e s = Some s'"
    and "SH_currentSize s \<le> SH_maxSize s" and "E_Size e \<le> SH_maxSize s" and "0 \<le> E_Size e"
    and "\<And>k x. SH_items s k = Some x \<Longrightarrow> E_Size e \<le> E_Size x"
  shows "SH_currentSize s' \<le> SH_maxSize s'"
proof -
  define m where "m = (SH_items s)(key := None)"
  have fin: "finite (dom m)" and cur: "SH_currentSize s = items_size (SH_items s)"
    using assms(1) by (auto simp: m_def shard_exact_def)
  have nonneg: "0 \<le> E_Size x" if "SH_items s k = Some x" for k x using assms(6,7) that by force
  have le: "items_size m \<le> SH_currentSize s"
  proof (cases "SH_items s key")
    case None
    then have "m = SH_items s" by (auto simp: m_def fun_eq_iff)
    then show ?thesis using cur by simp
  next
    case (Some x)
    have "finite (dom (SH_items s))" by (rule exact_finite [OF assms(1)])
    from items_size_remove [OF this Some] nonneg [OF Some] cur show ?thesis by (simp add: m_def)
  qed
  note r = exact_set_result [OF assms(1-3) m_def]
  have s': "SH_currentSize s' = items_size (SH_items s')" "SH_maxSize s' = SH_maxSize s"
    using r by (auto simp: shard_exact_def)
  have key: "m key = None" by (simp add: m_def)
  from r consider (fits) "SH_items s' = m(key \<mapsto> e)" "items_size m + E_Size e \<le> SH_maxSize s"
    | (empty) "SH_items s' = m(key \<mapsto> e)" "dom m = {}"
    | (evicts) k where "k \<in> dom m" "SH_items s' = m(k := None, key \<mapsto> e)" by auto
  then show ?thesis
  proof cases
    case fits
    then show ?thesis using items_size_insert [OF fin key] s' by simp
  next
    case empty
    then have "items_size m = 0" by (simp add: items_size_def)
    then show ?thesis using empty items_size_insert [OF fin key] s' assms(5) by simp
  next
    case (evicts k)
    then obtain x where x: "m k = Some x" by auto
    then have "E_Size e \<le> E_Size x" using assms(7) [of k x] by (auto simp: m_def split: if_splits)
    moreover have "items_size (m(k := None, key \<mapsto> e)) = items_size m - E_Size x + E_Size e"
      using items_size_insert [of "m(k := None)" key e] items_size_remove [OF fin x] fin key by simp
    ultimately show ?thesis using evicts s' le assms(4) by simp
  qed
qed

text \<open>The size limit of a shard is only kept for entries that are no larger than those already there.
  If the new entry fits into the shard and no stored entry is smaller, storing it keeps the limit;
  but storing a large entry evicts a single one, however small: a shard of 10 bytes ends up with 15
  after storing entries of 5, 5 and 10 bytes.\<close>

theorem shard_limit:
  assumes "shard_exact s" and "key \<noteq> []" and "shard_set key e s = Some s'"
    and "SH_currentSize s \<le> SH_maxSize s" and "E_Size e \<le> SH_maxSize s" and "0 \<le> E_Size e"
    and "\<And>k x. SH_items s k = Some x \<Longrightarrow> E_Size e \<le> E_Size x"
  shows "SH_currentSize s' \<le> SH_maxSize s' \<and>
    map_option SH_currentSize
      (Option.bind (shard_set ''a'' (sample_entry ''a'' 5) (new_shard 10)) (\<lambda>s.
       Option.bind (shard_set ''b'' (sample_entry ''b'' 5) s) (shard_set ''c'' (sample_entry ''c'' 10)))) = Some 15"
proof (rule conjI)
  show "SH_currentSize s' \<le> SH_maxSize s'" by (rule set_keeps_limit) (fact assms)+
qed code_simp

theorem shard_limit_witness:
  "\<exists>s. shard_set ''a'' (sample_entry ''a'' 5) (new_shard 10) = Some s \<and> SH_currentSize s \<le> SH_maxSize s"
proof -
  from safe_set [OF shard_safe_new, of "''a''" "sample_entry ''a'' 5" 10]
  obtain s where s: "shard_set ''a'' (sample_entry ''a'' 5) (new_shard 10) = Some s" by blast
  from shard_limit [OF shard_exact_new _ s] s show ?thesis by (simp add: sample_entry_def)
qed

text \<open>The entry that makes room is the least recently used one.  If the recency list of a shard is
  \<open>ks\<close>, storing a new key that does not fit drops the last key of \<open>ks\<close>, puts the new key in front,
  and leaves all other entries as they are; reading a key moves it to the front.\<close>

theorem least_recently_used_evicted:
  assumes "lru_rep (SH_lruList s) ks" and "ks \<noteq> []" and "last ks \<noteq> []"
    and "SH_items s key = None" and "SH_currentSize s + E_Size e > SH_maxSize s"
  shows "(\<exists>s'. shard_set key e s = Some s' \<and> SH_items s' = (SH_items s)(last ks := None, key \<mapsto> e) \<and>
      lru_rep (SH_lruList s') (key # butlast ks)) \<and>
    (\<exists>s'. shard_moveToFront k s = Some s' \<and> lru_rep (SH_lruList s') (k # remove1 k ks))"
proof
  from lru.rep_tail [OF assms(1)] assms(2) obtain l where l: "lru_removeTail (SH_lruList s) = Some (last ks, l)"
    "lru_rep l (butlast ks)" by auto
  from lru.rep_add [OF l(2), of key] obtain l' where l': "lru_addToFront key l = Some l'" "lru_rep l' (key # butlast ks)"
    by blast
  have same: "SH_items s (last ks) = None \<Longrightarrow> (SH_items s)(last ks := None) = SH_items s" by (auto simp: fun_eq_iff)
  show "\<exists>s'. shard_set key e s = Some s' \<and> SH_items s' = (SH_items s)(last ks := None, key \<mapsto> e) \<and>
      lru_rep (SH_lruList s') (key # butlast ks)"
    using assms l l' same
    by (auto simp: shard_set_def shard_forget_def shard_make_room_def shard_evictLRU_def Let_def split: option.splits)
  from lru.rep_front [OF assms(1), of k] obtain l2 where "lru_moveToFront k (SH_lruList s) = Some l2"
    "lru_rep l2 (k # remove1 k ks)" by blast
  then show "\<exists>s'. shard_moveToFront k s = Some s' \<and> lru_rep (SH_lruList s') (k # remove1 k ks)"
    by (simp add: shard_moveToFront_def)
qed

theorem least_recently_used_evicted_witness:
  "\<exists>l s'. lru_addToFront ''a'' NewLRUList = Some l \<and>
     shard_set ''b'' (sample_entry ''b'' 6)
       \<lparr>SH_items = [''a'' \<mapsto> sample_entry ''a'' 5], SH_lruList = l, SH_currentSize = 5, SH_maxSize = 10\<rparr> = Some s' \<and>
     SH_items s' = [''b'' \<mapsto> sample_entry ''b'' 6]"
proof -
  from lru.rep_add [OF lru_rep_new] obtain l where l: "lru_addToFront ''a'' NewLRUList = Some l" "lru_rep l [''a'']"
    by blast
  let ?s = "\<lparr>SH_items = [''a'' \<mapsto> sample_entry ''a'' 5], SH_lruList = l, SH_currentSize = 5, SH_maxSize = 10\<rparr>"
  have "lru_rep (SH_lruList ?s) [''a'']" using l by simp
  from least_recently_used_evicted [OF this, of "''b''" "sample_entry ''b'' 6"] l(1) show ?thesis
    by (auto simp: sample_entry_def)
qed



text \<open>An interleaving: a reader has found the key before it is deleted, and moves it afterwards.\<close>

definition sample_run :: "CacheShard option" where
  "sample_run =
     Option.bind (shard_set ''a'' (sample_entry ''a'' 4) (new_shard 10)) (\<lambda>s.
     Option.bind (shard_delete ''a'' s) (\<lambda>s.
     Option.bind (shard_moveToFront ''a'' s) (\<lambda>s.
     Option.bind (shard_set ''a'' (sample_entry ''a'' 4) s) (\<lambda>s.
     Option.bind (shard_set ''b'' (sample_entry ''b'' 4) s) (\<lambda>s.
     Option.bind (shard_set ''a'' (sample_entry ''a'' 4) s) (\<lambda>s.
     shard_set ''a'' (sample_entry ''a'' 7) s))))))"

lemma sample_run_steps: "sample_run = Some s \<Longrightarrow> shard_step\<^sup>*\<^sup>* (new_shard 10) s"
proof -
  assume "sample_run = Some s"
  then obtain s1 s2 s3 s4 s5 s6 where
    r: "shard_set ''a'' (sample_entry ''a'' 4) (new_shard 10) = Some s1" "shard_delete ''a'' s1 = Some s2"
    "shard_moveToFront ''a'' s2 = Some s3" "shard_set ''a'' (sample_entry ''a'' 4) s3 = Some s4"
    "shard_set ''b'' (sample_entry ''b'' 4) s4 = Some s5" "shard_set ''a'' (sample_entry ''a'' 4) s5 = Some s6"
    "shard_set ''a'' (sample_entry ''a'' 7) s6 = Some s"
    unfolding sample_run_def bind_eq_Some_conv by blast
  have "shard_step (new_shard 10) s1" "shard_step s1 s2" "shard_step s2 s3" "shard_step s3 s4" "shard_step s4 s5"
    "shard_step s5 s6" "shard_step s6 s"
    by (rule step_set [OF _ r(1)] step_delete [OF r(2)] step_front [OF r(3)] step_set [OF _ r(4)]
        step_set [OF _ r(5)] step_set [OF _ r(6)] step_set [OF _ r(7)]; simp)+
  then show ?thesis by (meson converse_rtranclp_into_rtranclp rtranclp.rtrancl_refl)
qed

text \<open>But interleavings corrupt the byte count.  A reader that found a key moves it to the front
  after the key was deleted, so the list has a key that the map has not; when the key is stored
  again the list has it twice, and storing it once more can evict the entry that is being
  replaced, whose size is subtracted a second time.  Here the shard counts 7 bytes and holds two
  entries of 11 bytes together.\<close>

theorem interleaving_miscounts_bytes:
  "\<exists>s. shard_step\<^sup>*\<^sup>* (new_shard 10) s \<and> SH_currentSize s = 7 \<and>
    SH_items s ''a'' = Some (sample_entry ''a'' 7) \<and> SH_items s ''b'' = Some (sample_entry ''b'' 4)"
proof -
  have "map_option (\<lambda>s. (SH_currentSize s, SH_items s ''a'', SH_items s ''b'')) sample_run =
      Some (7, Some (sample_entry ''a'' 7), Some (sample_entry ''b'' 4))"
    by code_simp
  then show ?thesis using sample_run_steps by fastforce
qed

end
