(* ===== verification/Go_Heap.thy ===== *)
theory Go_Heap imports Go_Prelude "HOL-Library.Multiset" begin

text \<open>
  Go's package \<^verbatim>\<open>container/heap\<close>: a binary heap in a list, over an interface of three methods.
  \<open>lt\<close> is the method \<open>Less\<close> as a relation between elements, and \<open>place i\<close> is what \<open>Swap\<close> and \<open>Push\<close>
  do to an element that they put at index \<open>i\<close>, for instance to record the index in it; \<open>Pop\<close> does
  \<open>place (-1)\<close>.

  The locale \<open>heap_order\<close> is the contract of the interface: \<open>lt\<close> is a strict weak order that does
  not look at what \<open>place\<close> writes.  Under it \<open>Push\<close> and \<open>Remove\<close> keep the heap, add or remove exactly
  the element they should, and the root is never less urgent than another element.
\<close>

section \<open>Operations\<close>

definition heap_swap :: "(int \<Rightarrow> 'a \<Rightarrow> 'a) \<Rightarrow> nat \<Rightarrow> nat \<Rightarrow> 'a list \<Rightarrow> 'a list" where
  "heap_swap place i j h = h[i := place (int i) (h ! j), j := place (int j) (h ! i)]"

definition parent :: "nat \<Rightarrow> nat" where
  "parent j = (j - 1) div 2"

lemma parent_less [simp]: "0 < j \<Longrightarrow> parent j < j"
  by (auto simp: parent_def)

lemma parent_0 [simp]: "parent 0 = 0"
  by (simp add: parent_def)

lemma parent_eq_iff: "parent k = i \<and> 0 < k \<longleftrightarrow> k = 2 * i + 1 \<or> k = 2 * i + 2"
  by (auto simp: parent_def)

function heap_up :: "('a \<Rightarrow> 'a \<Rightarrow> bool) \<Rightarrow> (int \<Rightarrow> 'a \<Rightarrow> 'a) \<Rightarrow> 'a list \<Rightarrow> nat \<Rightarrow> 'a list" where
  "heap_up lt place h j =
     (if parent j = j \<or> \<not> lt (h ! j) (h ! parent j) then h
      else heap_up lt place (heap_swap place (parent j) j h) (parent j))"
  by pat_completeness auto
termination heap_up
proof (relation "measure (\<lambda>(lt, place, h, j). j)", goal_cases)
  case (2 lt place h j)
  then show ?case by (cases "j = 0") auto
qed simp

declare heap_up.simps [simp del]

text \<open>\<open>heap_down\<close> also returns the index at which the element comes to rest.\<close>

definition lesser_child :: "('a \<Rightarrow> 'a \<Rightarrow> bool) \<Rightarrow> 'a list \<Rightarrow> nat \<Rightarrow> nat \<Rightarrow> nat" where
  "lesser_child lt h i n =
     (if 2 * i + 2 < n \<and> lt (h ! (2 * i + 2)) (h ! (2 * i + 1)) then 2 * i + 2 else 2 * i + 1)"

function heap_down ::
  "('a \<Rightarrow> 'a \<Rightarrow> bool) \<Rightarrow> (int \<Rightarrow> 'a \<Rightarrow> 'a) \<Rightarrow> 'a list \<Rightarrow> nat \<Rightarrow> nat \<Rightarrow> 'a list \<times> nat" where
  "heap_down lt place h i n =
     (if n \<le> 2 * i + 1 then (h, i)
      else let j = lesser_child lt h i n
           in if \<not> lt (h ! j) (h ! i) then (h, i)
              else heap_down lt place (heap_swap place i j h) j n)"
  by pat_completeness auto
termination heap_down
  by (relation "measure (\<lambda>(lt, place, h, i, n). n - i)") (auto simp: lesser_child_def)

declare heap_down.simps [simp del]

definition heap_push :: "('a \<Rightarrow> 'a \<Rightarrow> bool) \<Rightarrow> (int \<Rightarrow> 'a \<Rightarrow> 'a) \<Rightarrow> 'a \<Rightarrow> 'a list \<Rightarrow> 'a list" where
  "heap_push lt place x h = heap_up lt place (h @ [place (int (length h)) x]) (length h)"

definition heap_fix :: "('a \<Rightarrow> 'a \<Rightarrow> bool) \<Rightarrow> (int \<Rightarrow> 'a \<Rightarrow> 'a) \<Rightarrow> 'a list \<Rightarrow> nat \<Rightarrow> nat \<Rightarrow> 'a list" where
  "heap_fix lt place h i n =
     (let (h', k) = heap_down lt place h i n in if i < k then h' else heap_up lt place h' i)"

definition heap_remove :: "('a \<Rightarrow> 'a \<Rightarrow> bool) \<Rightarrow> (int \<Rightarrow> 'a \<Rightarrow> 'a) \<Rightarrow> nat \<Rightarrow> 'a list \<Rightarrow> 'a \<times> 'a list" where
  "heap_remove lt place i h =
     (let n = length h - 1;
          h = (if n = i then h else heap_fix lt place (heap_swap place i n h) i n)
      in (place (-1) (last h), butlast h))"

section \<open>Lengths and untouched elements\<close>

lemma length_heap_swap [simp]: "length (heap_swap place i j h) = length h"
  by (simp add: heap_swap_def)

lemma heap_swap_nth:
  "i < length h \<Longrightarrow> j < length h \<Longrightarrow> heap_swap place i j h ! k =
     (if k = j then place (int j) (h ! i) else if k = i then place (int i) (h ! j) else h ! k)"
  by (auto simp: heap_swap_def nth_list_update)

lemma length_heap_up [simp]: "length (heap_up lt place h j) = length h"
  by (induction lt place h j rule: heap_up.induct) (subst heap_up.simps, simp)

lemma length_heap_down [simp]: "length (fst (heap_down lt place h i n)) = length h"
  by (induction lt place h i n rule: heap_down.induct) (subst heap_down.simps, simp add: Let_def)

lemma heap_up_above: "j < k \<Longrightarrow> heap_up lt place h j ! k = h ! k"
proof (induction lt place h j rule: heap_up.induct)
  case (1 lt place h j)
  then show ?case by (subst heap_up.simps) (auto simp: heap_swap_def le_less_trans parent_def)
qed

lemma heap_down_above: "i < n \<Longrightarrow> n \<le> k \<Longrightarrow> fst (heap_down lt place h i n) ! k = h ! k"
proof (induction lt place h i n rule: heap_down.induct)
  case (1 lt place h i n)
  have "lesser_child lt h i n < n" if "\<not> n \<le> 2 * i + 1" using that by (auto simp: lesser_child_def)
  then show ?case using 1 by (subst heap_down.simps) (auto simp: heap_swap_def Let_def)
qed

lemma length_heap_fix [simp]: "length (heap_fix lt place h i n) = length h"
  by (simp add: heap_fix_def case_prod_unfold Let_def)

lemma heap_fix_above: "i < n \<Longrightarrow> n \<le> k \<Longrightarrow> heap_fix lt place h i n ! k = h ! k"
  by (simp add: heap_fix_def case_prod_unfold Let_def heap_down_above heap_up_above)

lemma length_heap_push [simp]: "length (heap_push lt place x h) = Suc (length h)"
  by (simp add: heap_push_def)

lemma length_heap_remove: "i < length h \<Longrightarrow> length (snd (heap_remove lt place i h)) = length h - 1"
  by (simp add: heap_remove_def Let_def)

section \<open>The heap property\<close>

definition edge_ok :: "('a \<Rightarrow> 'a \<Rightarrow> bool) \<Rightarrow> 'a list \<Rightarrow> nat \<Rightarrow> bool" where
  "edge_ok lt h k \<longleftrightarrow> \<not> lt (h ! k) (h ! parent k)"

text \<open>The first \<open>n\<close> elements form a heap.\<close>

definition heap_to :: "('a \<Rightarrow> 'a \<Rightarrow> bool) \<Rightarrow> nat \<Rightarrow> 'a list \<Rightarrow> bool" where
  "heap_to lt n h \<longleftrightarrow> (\<forall>k. 0 < k \<and> k < n \<longrightarrow> edge_ok lt h k)"

definition is_heap :: "('a \<Rightarrow> 'a \<Rightarrow> bool) \<Rightarrow> 'a list \<Rightarrow> bool" where
  "is_heap lt h \<longleftrightarrow> heap_to lt (length h) h"

text \<open>A heap but for the edge above \<open>j\<close>, respectively the edges below \<open>i\<close>; in both cases the
  grandparents are in order.\<close>

definition but_above :: "('a \<Rightarrow> 'a \<Rightarrow> bool) \<Rightarrow> nat \<Rightarrow> nat \<Rightarrow> 'a list \<Rightarrow> bool" where
  "but_above lt n j h \<longleftrightarrow>
     (\<forall>k. 0 < k \<and> k < n \<and> k \<noteq> j \<longrightarrow> edge_ok lt h k) \<and>
     (\<forall>k. 0 < k \<and> k < n \<and> parent k = j \<and> 0 < j \<longrightarrow> \<not> lt (h ! k) (h ! parent j))"

definition but_around :: "('a \<Rightarrow> 'a \<Rightarrow> bool) \<Rightarrow> nat \<Rightarrow> nat \<Rightarrow> 'a list \<Rightarrow> bool" where
  "but_around lt n i h \<longleftrightarrow>
     (\<forall>k. 0 < k \<and> k < n \<and> k \<noteq> i \<and> parent k \<noteq> i \<longrightarrow> edge_ok lt h k) \<and>
     (\<forall>k. 0 < k \<and> k < n \<and> parent k = i \<and> 0 < i \<longrightarrow> \<not> lt (h ! k) (h ! parent i))"

definition but_below :: "('a \<Rightarrow> 'a \<Rightarrow> bool) \<Rightarrow> nat \<Rightarrow> nat \<Rightarrow> 'a list \<Rightarrow> bool" where
  "but_below lt n i h \<longleftrightarrow> but_around lt n i h \<and> (0 < i \<longrightarrow> edge_ok lt h i)"

section \<open>The contract of the interface\<close>

locale heap_order =
  fixes lt :: "'a \<Rightarrow> 'a \<Rightarrow> bool" and place :: "int \<Rightarrow> 'a \<Rightarrow> 'a"
  assumes asym: "lt x y \<Longrightarrow> \<not> lt y x"
    and negtrans: "lt x z \<Longrightarrow> lt x y \<or> lt y z"
    and lt_place [simp]: "lt (place i x) y = lt x y" "lt x (place i y) = lt x y"
    and place_place [simp]: "place i (place j x) = place i x"
begin

lemma irrefl [simp]: "\<not> lt x x"
  using asym by blast

lemma le_trans: "\<not> lt y x \<Longrightarrow> \<not> lt z y \<Longrightarrow> \<not> lt z x"
  using negtrans by blast

lemma up_step:
  assumes inv: "but_above lt n j h" and j: "0 < j" "j < n" "n \<le> length h" and l: "lt (h ! j) (h ! parent j)"
  shows "but_above lt n (parent j) (heap_swap place (parent j) j h)"
proof -
  let ?i = "parent j" and ?h = "heap_swap place (parent j) j h"
  have i: "?i < j" using j by simp
  have nth: "?h ! k = (if k = j then place (int j) (h ! ?i) else if k = ?i then place (int ?i) (h ! j) else h ! k)" for k
    using heap_swap_nth [of ?i h j place k] i j by simp
  have e: "edge_ok lt h k" if "0 < k" "k < n" "k \<noteq> j" for k using inv that by (simp add: but_above_def)
  have g: "\<not> lt (h ! k) (h ! ?i)" if "0 < k" "k < n" "parent k = j" for k
    using inv that j by (simp add: but_above_def)
  have edges: "edge_ok lt ?h k" if k: "0 < k" "k < n" "k \<noteq> ?i" for k
  proof -
    consider "k = j" | "k \<noteq> j" "parent k = j" | "k \<noteq> j" "parent k = ?i" | "k \<noteq> j" "parent k \<noteq> j" "parent k \<noteq> ?i" by blast
    then show ?thesis
    proof cases
      case 1
      then show ?thesis using i asym [OF l] by (simp add: edge_ok_def nth)
    next
      case 2
      then show ?thesis using k g i by (simp add: edge_ok_def nth)
    next
      case 3
      have "\<not> lt (h ! k) (h ! ?i)" using e [OF k(1,2) 3(1)] 3 by (simp add: edge_ok_def)
      then have "\<not> lt (h ! k) (h ! j)" using l asym le_trans by blast
      then show ?thesis using 3 k i by (simp add: edge_ok_def nth)
    next
      case 4
      then show ?thesis using e [OF k(1,2)] k by (simp add: edge_ok_def nth)
    qed
  qed
  moreover have "\<not> lt (?h ! k) (?h ! parent ?i)" if k: "0 < k" "k < n" "parent k = ?i" and i0: "0 < ?i" for k
  proof -
    have p: "parent ?i < ?i" using i0 by simp
    have pi: "\<not> lt (h ! ?i) (h ! parent ?i)" using e [of ?i] i0 i j by (simp add: edge_ok_def)
    show ?thesis
    proof (cases "k = j")
      case True
      then show ?thesis using pi p i by (simp add: nth)
    next
      case False
      have "\<not> lt (h ! k) (h ! ?i)" using e [OF k(1,2) False] k by (simp add: edge_ok_def)
      then have "\<not> lt (h ! k) (h ! parent ?i)" using pi le_trans by blast
      moreover have "k \<noteq> ?i" using k i0 by (metis parent_less less_irrefl)
      ultimately show ?thesis using False p i by (simp add: nth)
    qed
  qed
  ultimately show ?thesis by (simp add: but_above_def)
qed

lemma up_heap: "but_above lt n j h \<Longrightarrow> j < n \<Longrightarrow> n \<le> length h \<Longrightarrow> heap_to lt n (heap_up lt place h j)"
proof (induction j arbitrary: h rule: less_induct)
  case (less j)
  show ?case
  proof (cases "parent j = j \<or> \<not> lt (h ! j) (h ! parent j)")
    case True
    then have "0 < j \<Longrightarrow> edge_ok lt h j" by (auto simp: edge_ok_def)
    then have "heap_to lt n h" using less.prems by (auto simp: heap_to_def but_above_def)
    then show ?thesis using True by (subst heap_up.simps) simp
  next
    case False
    then have j: "0 < j" and l: "lt (h ! j) (h ! parent j)" by (cases "j = 0"; auto)+
    have "heap_to lt n (heap_up lt place (heap_swap place (parent j) j h) (parent j))"
      by (rule less.IH [OF _ up_step]) (use j l less.prems parent_less [OF j] in auto)
    then show ?thesis using False by (subst heap_up.simps) simp
  qed
qed

lemma lesser_child:
  assumes "2 * i + 1 < n"
  shows "0 < lesser_child lt h i n" "lesser_child lt h i n < n" "parent (lesser_child lt h i n) = i"
    "i < lesser_child lt h i n"
    "0 < k \<Longrightarrow> k < n \<Longrightarrow> parent k = i \<Longrightarrow> \<not> lt (h ! k) (h ! lesser_child lt h i n)"
proof -
  show "0 < lesser_child lt h i n" "lesser_child lt h i n < n" "i < lesser_child lt h i n"
    using assms by (auto simp: lesser_child_def)
  show "parent (lesser_child lt h i n) = i" by (auto simp: lesser_child_def parent_def)
  assume "0 < k" "k < n" "parent k = i"
  then have "k = 2 * i + 1 \<or> k = 2 * i + 2" using parent_eq_iff by blast
  then show "\<not> lt (h ! k) (h ! lesser_child lt h i n)" using \<open>k < n\<close> asym by (auto simp: lesser_child_def)
qed

text \<open>When the element stays at \<open>i\<close>, the edges below it are in order.\<close>

lemma down_stop:
  assumes "but_around lt n i h" and "n \<le> 2 * i + 1 \<or> \<not> lt (h ! lesser_child lt h i n) (h ! i)"
  shows "but_above lt n i h"
proof -
  have "edge_ok lt h k" if k: "0 < k" "k < n" "parent k = i" for k
  proof -
    have n: "2 * i + 1 < n" using k parent_eq_iff [of k i] by auto
    then have "\<not> lt (h ! lesser_child lt h i n) (h ! i)" using assms(2) by auto
    then have "\<not> lt (h ! k) (h ! i)" using lesser_child(5) [OF n k] le_trans by blast
    then show ?thesis using k by (simp add: edge_ok_def)
  qed
  then show ?thesis using assms(1) unfolding but_around_def but_above_def by blast
qed

lemma down_step:
  assumes inv: "but_around lt n i h" and n: "2 * i + 1 < n" "n \<le> length h"
    and l: "lt (h ! lesser_child lt h i n) (h ! i)"
  shows "but_below lt n (lesser_child lt h i n) (heap_swap place i (lesser_child lt h i n) h)"
proof -
  let ?j = "lesser_child lt h i n" and ?h = "heap_swap place i (lesser_child lt h i n) h"
  note c = lesser_child [OF n(1), where h = h]
  have nth: "?h ! k = (if k = ?j then place (int ?j) (h ! i) else if k = i then place (int i) (h ! ?j) else h ! k)" for k
    using heap_swap_nth [of i h ?j place k] c n by simp
  have e: "edge_ok lt h k" if "0 < k" "k < n" "k \<noteq> i" "parent k \<noteq> i" for k
    using inv that by (simp add: but_around_def)
  have g: "\<not> lt (h ! k) (h ! parent i)" if "0 < k" "k < n" "parent k = i" "0 < i" for k
    using inv that by (simp add: but_around_def)
  have edges: "edge_ok lt ?h k" if k: "0 < k" "k < n" "parent k \<noteq> ?j" for k
  proof -
    consider "k = ?j" | "k \<noteq> ?j" "k = i" | "k \<noteq> ?j" "k \<noteq> i" "parent k = i" | "k \<noteq> ?j" "k \<noteq> i" "parent k \<noteq> i" by blast
    then show ?thesis
    proof cases
      case 1
      then show ?thesis using c asym [OF l] by (simp add: edge_ok_def nth)
    next
      case 2
      have "parent i \<noteq> i" using 2 parent_less [OF k(1)] by auto
      then show ?thesis using 2 k c(3) g [OF c(1,2,3)] by (auto simp: edge_ok_def nth)
    next
      case 3
      then show ?thesis using c(5) [OF k(1,2) 3(3)] c(4) by (auto simp: edge_ok_def nth)
    next
      case 4
      then show ?thesis using e [OF k(1,2)] k by (simp add: edge_ok_def nth)
    qed
  qed
  have below: "\<not> lt (?h ! k) (?h ! parent ?j)" if k: "0 < k" "k < n" "parent k = ?j" for k
  proof -
    have "k \<noteq> ?j" "k \<noteq> i" using k c(4) parent_less [of k] by auto
    then have "edge_ok lt h k" using k c(4) by (intro e) auto
    then show ?thesis using k c \<open>k \<noteq> ?j\<close> \<open>k \<noteq> i\<close> by (auto simp: edge_ok_def nth)
  qed
  have "parent ?j \<noteq> ?j" using c(3,4) by simp
  then show ?thesis using edges below c(1,2) unfolding but_below_def but_around_def by blast
qed

lemma down_below:
  "but_below lt n i h \<Longrightarrow> i < n \<Longrightarrow> n \<le> length h \<Longrightarrow> heap_to lt n (fst (heap_down lt place h i n))"
proof (induction "n - i" arbitrary: i h rule: less_induct)
  case less
  let ?j = "lesser_child lt h i n"
  have a: "but_around lt n i h" "0 < i \<Longrightarrow> edge_ok lt h i" using less.prems(1) by (auto simp: but_below_def)
  show ?case
  proof (cases "n \<le> 2 * i + 1 \<or> \<not> lt (h ! ?j) (h ! i)")
    case True
    then have "heap_to lt n h" using down_stop [OF a(1) True] a(2) by (auto simp: but_above_def heap_to_def)
    then show ?thesis using True by (subst heap_down.simps) (auto simp: Let_def)
  next
    case False
    then have n: "2 * i + 1 < n" by auto
    have "heap_to lt n (fst (heap_down lt place (heap_swap place i ?j h) ?j n))"
      by (rule less.hyps [OF _ down_step [OF a(1) n]])
        (use less.prems lesser_child [OF n, where h = h] False in auto)
    then show ?thesis using False by (subst heap_down.simps) (auto simp: Let_def)
  qed
qed

lemma down_index: "i \<le> snd (heap_down lt place h i n)"
proof (induction "n - i" arbitrary: i h rule: less_induct)
  case less
  show ?case
  proof (cases "n \<le> 2 * i + 1 \<or> \<not> lt (h ! lesser_child lt h i n) (h ! i)")
    case True
    then show ?thesis by (subst heap_down.simps) (auto simp: Let_def)
  next
    case False
    then have n: "2 * i + 1 < n" by auto
    have "lesser_child lt h i n \<le> snd (heap_down lt place (heap_swap place i (lesser_child lt h i n) h) (lesser_child lt h i n) n)"
      by (rule less.hyps) (use lesser_child [OF n, where h = h] in auto)
    then show ?thesis using False lesser_child(4) [OF n, where h = h] by (subst heap_down.simps) (auto simp: Let_def)
  qed
qed

lemma fix_heap:
  assumes a: "but_around lt n i h" and i: "i < n" "n \<le> length h"
  shows "heap_to lt n (heap_fix lt place h i n)"
proof (cases "n \<le> 2 * i + 1 \<or> \<not> lt (h ! lesser_child lt h i n) (h ! i)")
  case True
  then have "heap_down lt place h i n = (h, i)" by (subst heap_down.simps) (auto simp: Let_def)
  then show ?thesis using up_heap [OF down_stop [OF a True] i] by (simp add: heap_fix_def)
next
  case False
  let ?j = "lesser_child lt h i n"
  have n: "2 * i + 1 < n" using False by auto
  note j = lesser_child [OF n, where h = h]
  have d: "heap_down lt place h i n = heap_down lt place (heap_swap place i ?j h) ?j n"
    using False by (subst heap_down.simps) (auto simp: Let_def)
  have "i < snd (heap_down lt place h i n)" unfolding d using down_index j(4) by (metis less_le_trans)
  moreover have "heap_to lt n (fst (heap_down lt place h i n))"
    unfolding d by (rule down_below [OF down_step [OF a n]]) (use i j False in auto)
  ultimately show ?thesis by (simp add: heap_fix_def case_prod_unfold Let_def)
qed

theorem push_heap: "is_heap lt h \<Longrightarrow> is_heap lt (heap_push lt place x h)"
proof -
  assume h: "is_heap lt h"
  let ?h = "h @ [place (int (length h)) x]"
  have "edge_ok lt ?h k" if "0 < k" "k < length ?h" "k \<noteq> length h" for k
  proof -
    have "parent k < k" "k < length h" using that by auto
    then have "parent k < length h" by linarith
    then show ?thesis using h that \<open>k < length h\<close> by (simp add: is_heap_def heap_to_def edge_ok_def nth_append)
  qed
  moreover have "parent k \<noteq> length h" if "0 < k" "k < length ?h" for k using that parent_less [OF that(1)] by simp
  ultimately have "but_above lt (length ?h) (length h) ?h" unfolding but_above_def by blast
  from up_heap [OF this] show ?thesis by (simp add: is_heap_def heap_push_def)
qed

lemma heap_to_take: "heap_to lt n h \<Longrightarrow> n \<le> length h \<Longrightarrow> is_heap lt (take n h)"
  unfolding is_heap_def heap_to_def edge_ok_def
proof (intro allI impI, elim conjE)
  fix k assume h: "\<forall>k. 0 < k \<and> k < n \<longrightarrow> \<not> lt (h ! k) (h ! parent k)" "n \<le> length h" and k: "0 < k" "k < length (take n h)"
  then have "parent k < n" "k < n" using parent_less [OF k(1)] by auto
  then show "\<not> lt (take n h ! k) (take n h ! parent k)" using h k by simp
qed

theorem remove_heap:
  assumes h: "is_heap lt h" and i: "i < length h"
  shows "is_heap lt (snd (heap_remove lt place i h))"
proof -
  obtain n where len: "length h = Suc n" using i by (cases "length h") auto
  have e: "edge_ok lt h k" if "0 < k" "k < length h" for k using h that by (simp add: is_heap_def heap_to_def)
  have "heap_to lt n (if n = i then h else heap_fix lt place (heap_swap place i n h) i n)"
  proof (cases "n = i")
    case True
    then show ?thesis using h by (auto simp: is_heap_def heap_to_def len)
  next
    case False
    let ?h = "heap_swap place i n h"
    have n: "i < n" "n < length h" using False i len by auto
    have nth: "?h ! k = (if k = i then place (int i) (h ! n) else h ! k)" if "k < n" for k
      using heap_swap_nth [of i h n place k] n that by simp
    have "edge_ok lt ?h k" if k: "0 < k" "k < n" "k \<noteq> i" "parent k \<noteq> i" for k
    proof -
      have "parent k < n" using parent_less [OF k(1)] k(2) by linarith
      then show ?thesis using e [of k] k by (simp add: edge_ok_def nth len)
    qed
    moreover have "\<not> lt (?h ! k) (?h ! parent i)" if k: "0 < k" "k < n" "parent k = i" "0 < i" for k
    proof -
      have "parent i < i" "i < k" using parent_less [OF k(4)] parent_less [OF k(1)] unfolding k(3) by simp_all
      then have p: "parent i \<noteq> i" "parent i < n" "k \<noteq> i" using k(2) by linarith+
      have "\<not> lt (h ! k) (h ! i)" "\<not> lt (h ! i) (h ! parent i)" using e [of k] e [of i] k n by (auto simp: edge_ok_def)
      then have "\<not> lt (h ! k) (h ! parent i)" using le_trans by blast
      then show ?thesis using p k by (simp add: nth)
    qed
    ultimately have "but_around lt n i ?h" unfolding but_around_def by blast
    from fix_heap [OF this] show ?thesis using False n len by simp
  qed
  then have "is_heap lt (take n (if n = i then h else heap_fix lt place (heap_swap place i n h) i n))"
    by (rule heap_to_take) (simp add: len)
  then show ?thesis by (cases "n = i") (simp_all add: heap_remove_def Let_def butlast_conv_take len)
qed

text \<open>No element is more urgent than the root.\<close>

theorem root_least: "is_heap lt h \<Longrightarrow> k < length h \<Longrightarrow> \<not> lt (h ! k) (h ! 0)"
proof (induction k rule: less_induct)
  case (less k)
  show ?case
  proof (cases "k = 0")
    case False
    then have p: "parent k < k" by simp
    then have "\<not> lt (h ! parent k) (h ! 0)" using less by auto
    moreover have "\<not> lt (h ! k) (h ! parent k)"
      using less.prems False by (simp add: is_heap_def heap_to_def edge_ok_def)
    ultimately show ?thesis using le_trans by blast
  qed simp
qed

section \<open>Which elements a heap has\<close>

text \<open>The elements but for what \<open>place\<close> wrote, and whether every element was placed where it is.\<close>

abbreviation contents :: "'a list \<Rightarrow> 'a multiset" where
  "contents h \<equiv> image_mset (place 0) (mset h)"

definition placed :: "'a list \<Rightarrow> bool" where
  "placed h \<longleftrightarrow> (\<forall>k < length h. place (int k) (h ! k) = h ! k)"

lemma contents_list: "contents h = mset (map (place 0) h)"
  by simp

lemma swap_contents:
  assumes "i < length h" and "j < length h"
  shows "contents (heap_swap place i j h) = contents h"
proof -
  have "map (place 0) (heap_swap place i j h) = (map (place 0) h)[i := map (place 0) h ! j, j := map (place 0) h ! i]"
    using assms by (simp add: heap_swap_def map_update)
  then have "mset (map (place 0) (heap_swap place i j h)) = mset (map (place 0) h)"
    using mset_swap [of j "map (place 0) h" i] assms by simp
  then show ?thesis by simp
qed

lemma swap_placed: "placed h \<Longrightarrow> i < length h \<Longrightarrow> j < length h \<Longrightarrow> placed (heap_swap place i j h)"
  by (simp add: placed_def heap_swap_nth)

text \<open>Whatever swaps of the first \<open>n\<close> elements keep, the two loops keep.\<close>

lemma up_keeps:
  assumes swap: "\<And>h i j. P h \<Longrightarrow> i < n \<Longrightarrow> j < n \<Longrightarrow> n \<le> length h \<Longrightarrow> P (heap_swap place i j h)"
  shows "P h \<Longrightarrow> j < n \<Longrightarrow> n \<le> length h \<Longrightarrow> P (heap_up lt place h j)"
proof (induction j arbitrary: h rule: less_induct)
  case (less j)
  show ?case
  proof (cases "parent j = j \<or> \<not> lt (h ! j) (h ! parent j)")
    case True
    then show ?thesis using less.prems by (subst heap_up.simps) simp
  next
    case False
    then have j: "parent j < j" by (cases "j = 0"; auto)
    have "P (heap_up lt place (heap_swap place (parent j) j h) (parent j))"
      by (rule less.IH [OF j swap]) (use j less.prems in auto)
    then show ?thesis using False by (subst heap_up.simps) simp
  qed
qed

lemma down_keeps:
  assumes swap: "\<And>h i j. P h \<Longrightarrow> i < n \<Longrightarrow> j < n \<Longrightarrow> n \<le> length h \<Longrightarrow> P (heap_swap place i j h)"
  shows "P h \<Longrightarrow> i < n \<Longrightarrow> n \<le> length h \<Longrightarrow> P (fst (heap_down lt place h i n))"
proof (induction "n - i" arbitrary: i h rule: less_induct)
  case less
  show ?case
  proof (cases "n \<le> 2 * i + 1 \<or> \<not> lt (h ! lesser_child lt h i n) (h ! i)")
    case True
    then show ?thesis using less.prems by (subst heap_down.simps) (auto simp: Let_def)
  next
    case False
    then have n: "2 * i + 1 < n" by auto
    note c = lesser_child [OF n, where h = h]
    have "P (fst (heap_down lt place (heap_swap place i (lesser_child lt h i n) h) (lesser_child lt h i n) n))"
      by (rule less.hyps) (use c less.prems swap in auto)
    then show ?thesis using False by (subst heap_down.simps) (auto simp: Let_def)
  qed
qed

lemma fix_keeps:
  assumes swap: "\<And>h i j. P h \<Longrightarrow> i < n \<Longrightarrow> j < n \<Longrightarrow> n \<le> length h \<Longrightarrow> P (heap_swap place i j h)"
    and "P h" and "i < n" and "n \<le> length h"
  shows "P (heap_fix lt place h i n)"
  using down_keeps [of P n, OF swap assms(2-4)] up_keeps [of P n, OF swap, of "fst (heap_down lt place h i n)" i] assms(3,4)
  by (simp add: heap_fix_def case_prod_unfold Let_def)

theorem push_contents: "contents (heap_push lt place x h) = add_mset (place 0 x) (contents h)"
proof -
  let ?h = "h @ [place (int (length h)) x]"
  have "contents (heap_up lt place ?h (length h)) = contents ?h"
    by (rule up_keeps [where P = "\<lambda>g. contents g = contents ?h" and n = "length ?h"])
      (auto simp: swap_contents [simplified])
  then show ?thesis by (simp add: heap_push_def)
qed

theorem push_placed: "placed h \<Longrightarrow> placed (heap_push lt place x h)"
proof -
  assume "placed h"
  then have "placed (h @ [place (int (length h)) x])" by (auto simp: placed_def nth_append less_Suc_eq)
  then show ?thesis
    unfolding heap_push_def
    by (rule up_keeps [where P = placed and n = "Suc (length h)", rotated]) (auto simp: swap_placed)
qed

theorem remove_contents:
  assumes "i < length h"
  shows "contents h = add_mset (place 0 (h ! i)) (contents (snd (heap_remove lt place i h)))"
    and "fst (heap_remove lt place i h) = place (-1) (h ! i)"
proof -
  obtain n where len: "length h = Suc n" using assms by (cases "length h") auto
  define g where "g = (if n = i then h else heap_fix lt place (heap_swap place i n h) i n)"
  have r: "heap_remove lt place i h = (place (-1) (last g), butlast g)"
    by (simp add: heap_remove_def Let_def g_def len)
  have g: "length g = Suc n" "contents g = contents h" "place k (last g) = place k (h ! i)" for k
  proof -
    show g_len: "length g = Suc n" by (simp add: g_def len)
    have "contents (heap_fix lt place (heap_swap place i n h) i n) = contents h" if "n \<noteq> i"
      by (rule fix_keeps [where P = "\<lambda>g. contents g = contents h \<and> length g = Suc n", THEN conjunct1])
        (use that assms len swap_contents in auto)
    then show "contents g = contents h" by (simp add: g_def)
    have "heap_fix lt place (heap_swap place i n h) i n ! n = place (int n) (h ! i)" if "n \<noteq> i"
      using that assms len by (simp add: heap_fix_above heap_swap_nth)
    moreover have "last g = g ! n" using g_len by (metis diff_Suc_1 last_conv_nth list.size(3) nat.distinct(1))
    ultimately show "place k (last g) = place k (h ! i)" by (cases "n = i") (auto simp: g_def)
  qed
  have "g = butlast g @ [last g]" using g(1) by (metis append_butlast_last_id list.size(3) nat.distinct(1))
  then have "contents g = add_mset (place 0 (last g)) (contents (butlast g))"
    by (metis add_mset_add_single image_mset_add_mset mset.simps(1) mset.simps(2) mset_append union_mset_add_mset_right add.right_neutral)
  then show "contents h = add_mset (place 0 (h ! i)) (contents (snd (heap_remove lt place i h)))"
    by (simp add: r g)
  show "fst (heap_remove lt place i h) = place (-1) (h ! i)" by (simp add: r g)
qed

theorem remove_placed: "placed h \<Longrightarrow> i < length h \<Longrightarrow> placed (snd (heap_remove lt place i h))"
proof -
  assume h: "placed h" and i: "i < length h"
  obtain n where len: "length h = Suc n" using i by (cases "length h") auto
  define g where "g = (if n = i then h else heap_fix lt place (heap_swap place i n h) i n)"
  have "placed g"
  proof (cases "n = i")
    case False
    have "placed (heap_fix lt place (heap_swap place i n h) i n)"
      by (rule fix_keeps [where P = placed]) (use h False i len swap_placed in auto)
    then show ?thesis using False by (simp add: g_def)
  qed (simp add: g_def h)
  then have "placed (butlast g)" by (auto simp: placed_def nth_butlast)
  moreover have "snd (heap_remove lt place i h) = butlast g" by (simp add: heap_remove_def Let_def g_def len)
  ultimately show ?thesis by simp
qed

text \<open>What holds of all elements, whatever \<open>place\<close> writes, holds after the operations.\<close>

lemma all_contents:
  assumes "\<And>i x. P (place i x) = P x"
  shows "(\<forall>x \<in> set h. P x) \<longleftrightarrow> (\<forall>x \<in># contents h. P x)"
  using assms by auto

end

end
