(* ===== verification/Sync_Types.thy ===== *)
theory Sync_Types imports Go_Prelude Go_Float64 begin

text \<open>
  The types that the synchronisation package shares (\<^verbatim>\<open>pkg/sync/types.go\<close>): requests, options, jobs with
  their progress and metrics, and the filters of queries.  An enumeration of the code is a named string
  type, so its values are strings here; a pointer to a record is an option, and the connector and the
  cancel function of a job, which the code keeps beside its data, are not part of the record.
\<close>

text \<open>The values the code puts into a \<^verbatim>\<open>map[string]interface{}\<close>.\<close>

datatype meta_value =
    MetaString string | MetaInt int | MetaFloat float64 | MetaTime time | MetaBool bool | MetaStrings "string list"

type_synonym metadata = "string \<rightharpoonup> meta_value"

section \<open>Kinds, states and priorities\<close>

definition SyncTypeFull :: string where "SyncTypeFull = ''full''"
definition SyncTypeIncremental :: string where "SyncTypeIncremental = ''incremental''"
definition SyncTypeRealtime :: string where "SyncTypeRealtime = ''realtime''"

definition SyncDirectionBidirectional :: string where "SyncDirectionBidirectional = ''bidirectional''"
definition SyncDirectionDownload :: string where "SyncDirectionDownload = ''download''"
definition SyncDirectionUpload :: string where "SyncDirectionUpload = ''upload''"

definition SyncStatePending :: string where [simp]: "SyncStatePending = ''pending''"
definition SyncStateRunning :: string where [simp]: "SyncStateRunning = ''running''"
definition SyncStateCompleted :: string where [simp]: "SyncStateCompleted = ''completed''"
definition SyncStateFailed :: string where [simp]: "SyncStateFailed = ''failed''"
definition SyncStateCancelled :: string where [simp]: "SyncStateCancelled = ''cancelled''"
definition SyncStatePaused :: string where [simp]: "SyncStatePaused = ''paused''"

definition SyncPriorityLow :: int where [simp]: "SyncPriorityLow = 1"
definition SyncPriorityNormal :: int where [simp]: "SyncPriorityNormal = 5"
definition SyncPriorityHigh :: int where [simp]: "SyncPriorityHigh = 10"
definition SyncPriorityUrgent :: int where [simp]: "SyncPriorityUrgent = 15"

section \<open>Options of a request\<close>

record SyncFilters =
  SF_IncludePaths :: "string list"
  SF_ExcludePaths :: "string list"
  SF_IncludeExtensions :: "string list"
  SF_ExcludeExtensions :: "string list"
  SF_MinFileSize :: int
  SF_MaxFileSize :: int
  SF_ModifiedAfter :: "time option"
  SF_ModifiedBefore :: "time option"
  SF_IncludeDeleted :: bool
  SF_IncludeHidden :: bool
  SF_CustomFilters :: metadata

record RateLimit =
  RLim_RequestsPerSecond :: int
  RLim_BurstLimit :: int
  RLim_BackoffStrategy :: string

record BandwidthLimit =
  BL_DownloadMBps :: int
  BL_UploadMBps :: int

record PerformanceSettings =
  PS_ConcurrentDownloads :: int
  PS_ConcurrentUploads :: int
  PS_ChunkSize :: int
  PS_Timeout :: duration
  PS_RateLimit :: "RateLimit option"
  PS_Bandwidth :: "BandwidthLimit option"

record RetrySettings =
  RT_MaxRetries :: int
  RT_InitialDelay :: duration
  RT_MaxDelay :: duration
  RT_BackoffFactor :: float64
  RT_RetryableErrors :: "string list"

record NotificationSettings =
  NS_WebhookURL :: string
  NS_EmailRecipients :: "string list"
  NS_SlackChannel :: string
  NS_NotifyOnStart :: bool
  NS_NotifyOnComplete :: bool
  NS_NotifyOnError :: bool
  NS_NotifyOnProgress :: bool

record UnifiedSyncOptions =
  Opt_SyncType :: string
  Opt_Direction :: string
  Opt_ConflictStrategy :: string
  Opt_Priority :: int
  Opt_Filters :: "SyncFilters option"
  Opt_Performance :: "PerformanceSettings option"
  Opt_Retry :: "RetrySettings option"
  Opt_Notifications :: "NotificationSettings option"

record ScheduleOptions =
  Sched_Type :: string
  Sched_Interval :: duration
  Sched_CronExpr :: string
  Sched_StartTime :: "time option"
  Sched_EndTime :: "time option"
  Sched_MaxRuns :: "int option"

record StartSyncRequest =
  SReq_DataSourceID :: uuid
  SReq_ConnectorType :: string
  SReq_Options :: "UnifiedSyncOptions option"
  SReq_ScheduleOptions :: "ScheduleOptions option"

section \<open>Jobs\<close>

record SyncProgress =
  Prog_TotalFiles :: int
  Prog_ProcessedFiles :: int
  Prog_FailedFiles :: int
  Prog_SkippedFiles :: int
  Prog_PercentComplete :: float64
  Prog_BytesTransferred :: int
  Prog_TotalBytes :: int
  Prog_CurrentFile :: string
  Prog_EstimatedETA :: "time option"
  Prog_TransferRate :: float64

record SyncMetrics =
  Met_FilesCreated :: int
  Met_FilesUpdated :: int
  Met_FilesDeleted :: int
  Met_FilesSkipped :: int
  Met_FilesFailed :: int
  Met_BytesDownloaded :: int
  Met_BytesUploaded :: int
  Met_AverageTransferRate :: float64
  Met_PeakTransferRate :: float64
  Met_TotalAPIRequests :: int
  Met_APIRequestsPerSec :: float64
  Met_DiscoveryDuration :: duration
  Met_TransferDuration :: duration
  Met_ValidationDuration :: duration
  Met_TotalErrors :: int
  Met_RetryAttempts :: int
  Met_ErrorsByType :: "string \<rightharpoonup> int"
  Met_ConflictsDetected :: int
  Met_ConflictsResolved :: int
  Met_ConflictsPending :: int

record SyncJobStatus =
  JS_JobID :: uuid
  JS_State :: string
  JS_StartTime :: time
  JS_EndTime :: "time option"
  JS_Duration :: duration
  JS_LastActivity :: time
  JS_Progress :: "SyncProgress option"
  JS_Error :: string
  JS_Metrics :: "SyncMetrics option"

record SyncJob =
  SJ_ID :: uuid
  SJ_DataSourceID :: uuid
  SJ_ConnectorType :: string
  SJ_Options :: UnifiedSyncOptions
  SJ_Status :: SyncJobStatus

text \<open>The methods of a job, at the time \<open>now\<close>.  \<open>GetStatus\<close> changes the status it returns.\<close>

definition updateState :: "time \<Rightarrow> string \<Rightarrow> SyncJobStatus \<Rightarrow> SyncJobStatus" where
  "updateState now state st =
     (let st' = st\<lparr>JS_State := state, JS_LastActivity := now\<rparr>
      in if state \<in> {SyncStateCompleted, SyncStateFailed, SyncStateCancelled} then st'\<lparr>JS_EndTime := Some now\<rparr> else st')"

definition GetStatus :: "time \<Rightarrow> SyncJobStatus \<Rightarrow> SyncJobStatus" where
  "GetStatus now st =
     (let st' = (if JS_EndTime st = None \<and> JS_State st \<noteq> SyncStatePending \<and> JS_State st \<noteq> SyncStateRunning
                 then st\<lparr>JS_EndTime := Some now\<rparr> else st)
      in case JS_EndTime st' of
           Some t \<Rightarrow> st'\<lparr>JS_Duration := t - JS_StartTime st'\<rparr>
         | None \<Rightarrow> st'\<lparr>JS_Duration := now - JS_StartTime st'\<rparr>)"

lemma updateState_simps [simp]:
  "JS_State (updateState now s st) = s" "JS_Progress (updateState now s st) = JS_Progress st"
  "JS_JobID (updateState now s st) = JS_JobID st" "JS_Metrics (updateState now s st) = JS_Metrics st"
  "JS_EndTime (updateState now s st) =
     (if s \<in> {SyncStateCompleted, SyncStateFailed, SyncStateCancelled} then Some now else JS_EndTime st)"
  by (simp_all add: updateState_def Let_def)

lemma GetStatus_simps [simp]:
  "JS_State (GetStatus now st) = JS_State st" "JS_Progress (GetStatus now st) = JS_Progress st"
  "JS_JobID (GetStatus now st) = JS_JobID st" "JS_Metrics (GetStatus now st) = JS_Metrics st"
  by (simp_all add: GetStatus_def Let_def split: option.split)

section \<open>Filters of queries\<close>

record SyncListFilters =
  SLF_DataSourceID :: uuid
  SLF_ConnectorType :: string
  SLF_States :: "string list"
  SLF_Limit :: int
  SLF_Offset :: int

record SyncHistoryFilters =
  SHF_DataSourceID :: uuid
  SHF_ConnectorType :: string
  SHF_StartTime :: "time option"
  SHF_EndTime :: "time option"
  SHF_States :: "string list"
  SHF_Limit :: int
  SHF_Offset :: int

end
