(* ===== verification/Sync_Queue.thy ===== *)
theory Sync_Queue imports Go_Heap Sync_Types begin

text \<open>
  The queue manager of the synchronisation jobs (\<^verbatim>\<open>pkg/sync/queue_manager.go\<close>): four priority queues,
  each a heap of \<^verbatim>\<open>container/heap\<close>, the active jobs, and the jobs whose retry sleeps in a goroutine.

  An operation runs under the lock of the manager and is one step; the goroutine of a retry wakes up in
  a step of its own, \<open>wake_retry\<close>.  A job is a record, although the code shares it by pointer: at any
  time it is in one queue, active, or with one goroutine.  Clock readings and new identifiers are
  arguments, and \<open>order\<close> is the order in which the code ranges over the map of queues.  \<open>Panic\<close> is a
  nil dereference; durations and counters stay within 64 bits.
\<close>

section \<open>Jobs and their order\<close>

record ResourceRequirements =
  RR_EstimatedMemoryMB :: int
  RR_EstimatedCPU :: float64
  RR_EstimatedBandwidth :: int
  RR_RequiredConnections :: int

record QueuedSyncJob =
  QJ_ID :: uuid
  QJ_DataSourceID :: uuid
  QJ_ConnectorType :: string
  QJ_Options :: UnifiedSyncOptions
  QJ_Priority :: int
  QJ_QueuedAt :: time
  QJ_ScheduledFor :: "time option"
  QJ_EstimatedDuration :: duration
  QJ_ResourceRequirements :: "ResourceRequirements option"
  QJ_Dependencies :: "uuid list"
  QJ_RetryCount :: int
  QJ_MaxRetries :: int
  QJ_LastAttempt :: "time option"
  QJ_index :: int
  QJ_dynamicPriority :: float64

text \<open>The methods of the heap interface: \<open>Less\<close>, and the index that \<open>Swap\<close>, \<open>Push\<close> and \<open>Pop\<close> write.\<close>

definition job_less :: "QueuedSyncJob \<Rightarrow> QueuedSyncJob \<Rightarrow> bool" where
  "job_less a b =
     (if QJ_Priority a \<noteq> QJ_Priority b then QJ_Priority a > QJ_Priority b
      else QJ_dynamicPriority a > QJ_dynamicPriority b)"

definition place_job :: "int \<Rightarrow> QueuedSyncJob \<Rightarrow> QueuedSyncJob" where
  "place_job i j = j\<lparr>QJ_index := i\<rparr>"

record PriorityQueue =
  PQ_jobs :: "QueuedSyncJob list"
  PQ_priority :: int

interpretation jobs: heap_order job_less place_job
  by unfold_locales (auto simp: job_less_def place_job_def split: if_splits)

lemma place_job_simps [simp]:
  "QJ_ID (place_job i j) = QJ_ID j" "QJ_Priority (place_job i j) = QJ_Priority j"
  "QJ_QueuedAt (place_job i j) = QJ_QueuedAt j" "QJ_RetryCount (place_job i j) = QJ_RetryCount j"
  by (simp_all add: place_job_def)

section \<open>The manager\<close>

record ResourceLimits =
  RL_MaxMemoryMB :: int
  RL_MaxCPUPercent :: float64
  RL_MaxBandwidthMBps :: int
  RL_MaxConnections :: int

record QueueConfig =
  QC_MaxConcurrentJobs :: int
  QC_MaxQueueSize :: int
  QC_JobTimeoutDuration :: duration
  QC_QueueTimeoutDuration :: duration
  QC_EnableJobBatching :: bool
  QC_BatchSize :: int
  QC_BatchTimeout :: duration
  QC_PriorityWeights :: "int \<rightharpoonup> float64"
  QC_EnableDynamicPriority :: bool
  QC_ResourceLimits :: "ResourceLimits option"

record ResourceUtilization =
  RU_MemoryUsageMB :: int
  RU_CPUUsagePercent :: float64
  RU_BandwidthUsageMBps :: int
  RU_ActiveConnections :: int

text \<open>A key that \<^verbatim>\<open>CurrentQueueSizes\<close> does not have reads as zero.\<close>

record QueueMetrics =
  QM_TotalJobsQueued :: int
  QM_TotalJobsProcessed :: int
  QM_TotalJobsFailed :: int
  QM_AverageQueueTime :: duration
  QM_AverageProcessingTime :: duration
  QM_CurrentQueueSizes :: "int \<Rightarrow> int"
  QM_ActiveJobCount :: int
  QM_ResourceUtilization :: ResourceUtilization

text \<open>\<open>SQ_retries\<close> are the jobs with a sleeping goroutine.\<close>

record SyncQueueManager =
  SQ_queues :: "int \<rightharpoonup> PriorityQueue"
  SQ_activeJobs :: "uuid \<rightharpoonup> QueuedSyncJob"
  SQ_config :: QueueConfig
  SQ_metrics :: QueueMetrics
  SQ_retries :: "QueuedSyncJob list"

definition minutes :: "int \<Rightarrow> duration" where
  "minutes n = n * 60 * 1000000000"

definition DefaultQueueConfig :: QueueConfig where
  "DefaultQueueConfig =
     \<lparr>QC_MaxConcurrentJobs = 10, QC_MaxQueueSize = 1000, QC_JobTimeoutDuration = minutes 120,
      QC_QueueTimeoutDuration = minutes (24 * 60), QC_EnableJobBatching = False, QC_BatchSize = 5,
      QC_BatchTimeout = minutes 5,
      QC_PriorityWeights = [SyncPriorityUrgent \<mapsto> 15, SyncPriorityHigh \<mapsto> 10, SyncPriorityNormal \<mapsto> 5, SyncPriorityLow \<mapsto> 1],
      QC_EnableDynamicPriority = True,
      QC_ResourceLimits = Some \<lparr>RL_MaxMemoryMB = 8192, RL_MaxCPUPercent = 80, RL_MaxBandwidthMBps = 1000,
        RL_MaxConnections = 100\<rparr>\<rparr>"

definition zero_utilization :: ResourceUtilization where
  "zero_utilization =
     \<lparr>RU_MemoryUsageMB = 0, RU_CPUUsagePercent = 0, RU_BandwidthUsageMBps = 0, RU_ActiveConnections = 0\<rparr>"

definition zero_metrics :: QueueMetrics where
  "zero_metrics =
     \<lparr>QM_TotalJobsQueued = 0, QM_TotalJobsProcessed = 0, QM_TotalJobsFailed = 0, QM_AverageQueueTime = 0,
      QM_AverageProcessingTime = 0, QM_CurrentQueueSizes = (\<lambda>_. 0), QM_ActiveJobCount = 0,
      QM_ResourceUtilization = zero_utilization\<rparr>"

text \<open>A channel of negative capacity panics.\<close>

definition NewSyncQueueManager :: "QueueConfig option \<Rightarrow> (string, SyncQueueManager) outcome" where
  "NewSyncQueueManager config0 =
     (let config = (case config0 of None \<Rightarrow> DefaultQueueConfig | Some c \<Rightarrow> c)
      in if QC_MaxConcurrentJobs config < 0 then Panic
         else Ok \<lparr>SQ_queues = foldl (\<lambda>qs p. qs(p \<mapsto> \<lparr>PQ_jobs = [], PQ_priority = p\<rparr>)) Map.empty
                    [SyncPriorityLow, SyncPriorityNormal, SyncPriorityHigh, SyncPriorityUrgent],
                  SQ_activeJobs = Map.empty, SQ_config = config, SQ_metrics = zero_metrics, SQ_retries = []\<rparr>)"

section \<open>Estimates\<close>

definition f64_int :: "int \<Rightarrow> float64" where
  "f64_int i = round64 (of_int i)"

definition scale_int :: "int \<Rightarrow> rat \<Rightarrow> int" where
  "scale_int i c = f64_trunc (f64_mul (f64_int i) (round64 c))"

definition estimateJobDuration :: "string \<Rightarrow> UnifiedSyncOptions \<Rightarrow> duration" where
  "estimateJobDuration connector opts =
     (let base = (if Opt_SyncType opts = SyncTypeFull then minutes 30
                  else if Opt_SyncType opts = SyncTypeIncremental then minutes 10
                  else if Opt_SyncType opts = SyncTypeRealtime then minutes 5 else minutes 10)
      in if connector = ''googledrive'' \<or> connector = ''onedrive'' then scale_int base (12/10)
         else if connector = ''sharepoint'' then scale_int base (15/10) else base)"

definition estimateResourceRequirements :: "UnifiedSyncOptions \<Rightarrow> ResourceRequirements" where
  "estimateResourceRequirements opts =
     (let r = \<lparr>RR_EstimatedMemoryMB = 512, RR_EstimatedCPU = 1/2, RR_EstimatedBandwidth = 10, RR_RequiredConnections = 5\<rparr>
      in if Opt_SyncType opts = SyncTypeFull
         then r\<lparr>RR_EstimatedMemoryMB := RR_EstimatedMemoryMB r * 2, RR_EstimatedCPU := f64_mul (RR_EstimatedCPU r) (3/2),
                RR_EstimatedBandwidth := RR_EstimatedBandwidth r * 2\<rparr>
         else if Opt_SyncType opts = SyncTypeRealtime
         then r\<lparr>RR_EstimatedMemoryMB := scale_int (RR_EstimatedMemoryMB r) (8/10),
                RR_RequiredConnections := RR_RequiredConnections r * 2\<rparr>
         else r)"

text \<open>\<open>hours\<close> is the method \<^verbatim>\<open>Hours\<close> of a duration.\<close>

definition hours :: "duration \<Rightarrow> float64" where
  "hours d = f64_add (f64_int (go_quot d (minutes 60))) (f64_div (f64_int (go_rem d (minutes 60))) (f64_int (minutes 60)))"

definition calculateDynamicPriority :: "time \<Rightarrow> QueueConfig \<Rightarrow> QueuedSyncJob \<Rightarrow> float64" where
  "calculateDynamicPriority now config job =
     (let basePriority = (case QC_PriorityWeights config (QJ_Priority job) of None \<Rightarrow> 0 | Some w \<Rightarrow> w);
          ageBonus = f64_mul (hours (now - QJ_QueuedAt job)) (round64 (1/10));
          retryPenalty = f64_mul (f64_int (QJ_RetryCount job)) (1/2);
          durationFactor = (if QJ_EstimatedDuration job < minutes 10 then round64 (11/10)
                            else if QJ_EstimatedDuration job > minutes 60 then round64 (9/10) else 1)
      in f64_mul (f64_add (f64_add basePriority ageBonus) (- retryPenalty)) durationFactor)"

section \<open>Operations of the queues\<close>

definition queue_jobs :: "int \<Rightarrow> SyncQueueManager \<Rightarrow> QueuedSyncJob list" where
  "queue_jobs p m = (case SQ_queues m p of None \<Rightarrow> [] | Some q \<Rightarrow> PQ_jobs q)"

text \<open>A change of the jobs of one queue, with the change of its size in the metrics.\<close>

definition update_queue :: "int \<Rightarrow> QueuedSyncJob list \<Rightarrow> int \<Rightarrow> SyncQueueManager \<Rightarrow> SyncQueueManager" where
  "update_queue p js d m =
     m\<lparr>SQ_queues := (SQ_queues m)(p := map_option (\<lambda>q. q\<lparr>PQ_jobs := js\<rparr>) (SQ_queues m p)),
       SQ_metrics := (SQ_metrics m)\<lparr>QM_CurrentQueueSizes :=
         (QM_CurrentQueueSizes (SQ_metrics m))(p := QM_CurrentQueueSizes (SQ_metrics m) p + d)\<rparr>\<rparr>"

text \<open>\<^verbatim>\<open>heap.Push\<close> on the queue of the job's priority; \<open>None\<close> when there is no such queue.\<close>

definition push_job :: "QueuedSyncJob \<Rightarrow> SyncQueueManager \<Rightarrow> SyncQueueManager option" where
  "push_job job m =
     (case SQ_queues m (QJ_Priority job) of
        None \<Rightarrow> None
      | Some q \<Rightarrow> Some (update_queue (QJ_Priority job) (heap_push job_less place_job job (PQ_jobs q)) 1 m))"

text \<open>\<^verbatim>\<open>heap.Remove\<close> of index \<open>i\<close> of the queue of priority \<open>p\<close>.\<close>

definition take_job :: "int \<Rightarrow> nat \<Rightarrow> SyncQueueManager \<Rightarrow> QueuedSyncJob \<times> SyncQueueManager" where
  "take_job p i m =
     (let (job, js) = heap_remove job_less place_job i (queue_jobs p m) in (job, update_queue p js (-1) m))"

primrec first_index :: "('a \<Rightarrow> bool) \<Rightarrow> 'a list \<Rightarrow> nat option" where
  "first_index P [] = None"
| "first_index P (x # xs) = (if P x then Some 0 else map_option Suc (first_index P xs))"

section \<open>Enqueueing\<close>

definition total_queued :: "int list \<Rightarrow> SyncQueueManager \<Rightarrow> int" where
  "total_queued order m = (\<Sum>p \<leftarrow> order. int (length (queue_jobs p m)))"

definition checkQueueLimits :: "int list \<Rightarrow> SyncQueueManager \<Rightarrow> string option" where
  "checkQueueLimits order m =
     (let total = total_queued order m
      in if total \<ge> QC_MaxQueueSize (SQ_config m)
         then Some (''queue size limit exceeded: '' @ show_int total @ ''/'' @ show_int (QC_MaxQueueSize (SQ_config m)))
         else None)"

definition mk_job :: "uuid \<Rightarrow> time \<Rightarrow> StartSyncRequest \<Rightarrow> UnifiedSyncOptions \<Rightarrow> QueuedSyncJob" where
  "mk_job uid now request opts =
     \<lparr>QJ_ID = uid, QJ_DataSourceID = SReq_DataSourceID request, QJ_ConnectorType = SReq_ConnectorType request,
      QJ_Options = opts, QJ_Priority = Opt_Priority opts, QJ_QueuedAt = now,
      QJ_ScheduledFor = (case SReq_ScheduleOptions request of None \<Rightarrow> None | Some s \<Rightarrow> Sched_StartTime s),
      QJ_EstimatedDuration = estimateJobDuration (SReq_ConnectorType request) opts,
      QJ_ResourceRequirements = Some (estimateResourceRequirements opts), QJ_Dependencies = [],
      QJ_RetryCount = 0, QJ_MaxRetries = 3, QJ_LastAttempt = None, QJ_index = 0, QJ_dynamicPriority = 0\<rparr>"

definition set_dynamic :: "time \<Rightarrow> SyncQueueManager \<Rightarrow> QueuedSyncJob \<Rightarrow> QueuedSyncJob" where
  "set_dynamic now m job =
     (if QC_EnableDynamicPriority (SQ_config m)
      then job\<lparr>QJ_dynamicPriority := calculateDynamicPriority now (SQ_config m) job\<rparr> else job)"

text \<open>The pointer that is returned is represented by the identifier of the job.\<close>

definition EnqueueJob ::
  "uuid \<Rightarrow> time \<Rightarrow> time \<Rightarrow> int list \<Rightarrow> StartSyncRequest \<Rightarrow> SyncQueueManager \<Rightarrow> (string, uuid) outcome \<times> SyncQueueManager" where
  "EnqueueJob uid now later order request m =
     (case SReq_Options request of
        None \<Rightarrow> (Panic, m)
      | Some opts \<Rightarrow>
          (case checkQueueLimits order m of
             Some e \<Rightarrow> (Err (''queue limit exceeded: '' @ e), m)
           | None \<Rightarrow>
               (case push_job (set_dynamic later m (mk_job uid now request opts)) m of
                  None \<Rightarrow> (Panic, m)
                | Some m \<Rightarrow>
                    (Ok uid, m\<lparr>SQ_metrics := (SQ_metrics m)\<lparr>QM_TotalJobsQueued := QM_TotalJobsQueued (SQ_metrics m) + 1\<rparr>\<rparr>))))"

section \<open>Dequeueing\<close>

definition active_count :: "SyncQueueManager \<Rightarrow> int" where
  "active_count m = int (card (dom (SQ_activeJobs m)))"

text \<open>\<open>None\<close> is the panic of missing limits.\<close>

definition hasAvailableResources :: "SyncQueueManager \<Rightarrow> bool option" where
  "hasAvailableResources m =
     (if active_count m \<ge> QC_MaxConcurrentJobs (SQ_config m) then Some False
      else case QC_ResourceLimits (SQ_config m) of
             None \<Rightarrow> None
           | Some l \<Rightarrow>
               let u = QM_ResourceUtilization (SQ_metrics m)
               in if RU_MemoryUsageMB u \<ge> RL_MaxMemoryMB l then Some False
                  else if RU_CPUUsagePercent u \<ge> RL_MaxCPUPercent l then Some False
                  else if RU_ActiveConnections u \<ge> RL_MaxConnections l then Some False
                  else Some True)"

definition dependenciesMet :: "SyncQueueManager \<Rightarrow> QueuedSyncJob \<Rightarrow> bool" where
  "dependenciesMet m job \<longleftrightarrow> list_all (\<lambda>d. SQ_activeJobs m d = None) (QJ_Dependencies job)"

definition canExecuteJob :: "ResourceLimits \<Rightarrow> SyncQueueManager \<Rightarrow> QueuedSyncJob \<Rightarrow> bool" where
  "canExecuteJob l m job \<longleftrightarrow>
     (case QJ_ResourceRequirements job of
        None \<Rightarrow> True
      | Some r \<Rightarrow>
          let u = QM_ResourceUtilization (SQ_metrics m)
          in if RU_MemoryUsageMB u + RR_EstimatedMemoryMB r > RL_MaxMemoryMB l then False
             else if RU_ActiveConnections u + RR_RequiredConnections r > RL_MaxConnections l then False
             else True)"

definition eligible :: "time \<Rightarrow> ResourceLimits \<Rightarrow> SyncQueueManager \<Rightarrow> QueuedSyncJob \<Rightarrow> bool" where
  "eligible now l m job \<longleftrightarrow>
     \<not> (case QJ_ScheduledFor job of None \<Rightarrow> False | Some t \<Rightarrow> t > now) \<and> dependenciesMet m job \<and> canExecuteJob l m job"

fun dequeue_from ::
  "time \<Rightarrow> ResourceLimits \<Rightarrow> int list \<Rightarrow> SyncQueueManager \<Rightarrow> (string, QueuedSyncJob) outcome \<times> SyncQueueManager" where
  "dequeue_from now l [] m = (Err ''no eligible jobs available'', m)"
| "dequeue_from now l (p # ps) m =
     (case SQ_queues m p of
        None \<Rightarrow> (Panic, m)
      | Some q \<Rightarrow>
          (case first_index (eligible now l m) (PQ_jobs q) of
             None \<Rightarrow> dequeue_from now l ps m
           | Some i \<Rightarrow>
               let (job, m) = take_job p i m
               in (Ok job, m\<lparr>SQ_activeJobs := (SQ_activeJobs m)(QJ_ID job \<mapsto> job),
                     SQ_metrics := (SQ_metrics m)\<lparr>QM_ActiveJobCount := QM_ActiveJobCount (SQ_metrics m) + 1\<rparr>\<rparr>)))"

definition priorities :: "int list" where
  "priorities = [SyncPriorityUrgent, SyncPriorityHigh, SyncPriorityNormal, SyncPriorityLow]"

definition DequeueJob :: "time \<Rightarrow> SyncQueueManager \<Rightarrow> (string, QueuedSyncJob) outcome \<times> SyncQueueManager" where
  "DequeueJob now m =
     (case hasAvailableResources m of
        None \<Rightarrow> (Panic, m)
      | Some ok \<Rightarrow>
          if \<not> ok then (Err ''insufficient resources available'', m)
          else dequeue_from now (the (QC_ResourceLimits (SQ_config m))) priorities m)"

section \<open>Completion and retry\<close>

definition average :: "duration \<Rightarrow> duration \<Rightarrow> duration" where
  "average old new = (if old = 0 then new else go_quot (old + new) 2)"

definition CompleteJob ::
  "time \<Rightarrow> uuid \<Rightarrow> bool \<Rightarrow> duration \<Rightarrow> SyncQueueManager \<Rightarrow> (string, unit) outcome \<times> SyncQueueManager" where
  "CompleteJob now jobID success duration m =
     (case SQ_activeJobs m jobID of
        None \<Rightarrow> (Err ''job not found in active jobs'', m)
      | Some job \<Rightarrow>
          let q = (SQ_metrics m)\<lparr>QM_ActiveJobCount := QM_ActiveJobCount (SQ_metrics m) - 1,
                     QM_TotalJobsProcessed := QM_TotalJobsProcessed (SQ_metrics m) + 1\<rparr>;
              m = m\<lparr>SQ_activeJobs := (SQ_activeJobs m)(jobID := None)\<rparr>
          in if success
             then (Ok (), m\<lparr>SQ_metrics := q\<lparr>QM_AverageProcessingTime := average (QM_AverageProcessingTime q) duration,
                     QM_AverageQueueTime := average (QM_AverageQueueTime q) (now - QJ_QueuedAt job)\<rparr>\<rparr>)
             else (Ok (), m\<lparr>SQ_metrics := q\<lparr>QM_TotalJobsFailed := QM_TotalJobsFailed q + 1\<rparr>,
                     SQ_retries := (if QJ_RetryCount job < QJ_MaxRetries job
                       then SQ_retries m @ [job\<lparr>QJ_RetryCount := QJ_RetryCount job + 1, QJ_LastAttempt := Some now\<rparr>]
                       else SQ_retries m)\<rparr>))"

text \<open>The goroutine of the \<open>k\<close>-th retry wakes up.  Its panic ends the program.\<close>

definition wake_retry :: "nat \<Rightarrow> SyncQueueManager \<Rightarrow> (string, unit) outcome \<times> SyncQueueManager" where
  "wake_retry k m =
     (let job = SQ_retries m ! k;
          job = (if QJ_Priority job > SyncPriorityLow then job\<lparr>QJ_Priority := QJ_Priority job - 1\<rparr> else job)
      in case push_job job m of
           None \<Rightarrow> (Panic, m)
         | Some m \<Rightarrow> (Ok (), m\<lparr>SQ_retries := take k (SQ_retries m) @ drop (Suc k) (SQ_retries m)\<rparr>))"

section \<open>Cancellation and priorities\<close>

text \<open>The first job with the identifier in the queues, in the order of the range.\<close>

fun locate_job :: "uuid \<Rightarrow> int list \<Rightarrow> SyncQueueManager \<Rightarrow> (int \<times> nat) option" where
  "locate_job jobID [] m = None"
| "locate_job jobID (p # ps) m =
     (case first_index (\<lambda>j. QJ_ID j = jobID) (queue_jobs p m) of
        None \<Rightarrow> locate_job jobID ps m
      | Some i \<Rightarrow> Some (p, i))"

definition CancelJob :: "int list \<Rightarrow> uuid \<Rightarrow> SyncQueueManager \<Rightarrow> (string, unit) outcome \<times> SyncQueueManager" where
  "CancelJob order jobID m =
     (if SQ_activeJobs m jobID \<noteq> None
      then (Ok (), m\<lparr>SQ_activeJobs := (SQ_activeJobs m)(jobID := None),
              SQ_metrics := (SQ_metrics m)\<lparr>QM_ActiveJobCount := QM_ActiveJobCount (SQ_metrics m) - 1\<rparr>\<rparr>)
      else case locate_job jobID order m of
             None \<Rightarrow> (Err ''job not found'', m)
           | Some (p, i) \<Rightarrow> (Ok (), snd (take_job p i m)))"

definition UpdateJobPriority ::
  "time \<Rightarrow> int list \<Rightarrow> uuid \<Rightarrow> int \<Rightarrow> SyncQueueManager \<Rightarrow> (string, unit) outcome \<times> SyncQueueManager" where
  "UpdateJobPriority now order jobID newPriority m =
     (case locate_job jobID order m of
        None \<Rightarrow> (Err ''job not found in queues'', m)
      | Some (p, i) \<Rightarrow>
          let (job, m) = take_job p i m
          in case push_job (set_dynamic now m (job\<lparr>QJ_Priority := newPriority\<rparr>)) m of
               None \<Rightarrow> (Panic, m)
             | Some m \<Rightarrow> (Ok (), m))"

section \<open>Background work and status\<close>

definition updateResourceUtilization :: "SyncQueueManager \<Rightarrow> SyncQueueManager" where
  "updateResourceUtilization m =
     m\<lparr>SQ_metrics := (SQ_metrics m)\<lparr>QM_ResourceUtilization :=
        \<lparr>RU_MemoryUsageMB = active_count m * 512, RU_CPUUsagePercent = f64_mul (f64_int (active_count m)) 10,
         RU_BandwidthUsageMBps = active_count m * 10, RU_ActiveConnections = active_count m * 5\<rparr>\<rparr>\<rparr>"

text \<open>The downward loop over the indices below \<open>i\<close> of one queue.\<close>

primrec cleanup_queue :: "time \<Rightarrow> int \<Rightarrow> nat \<Rightarrow> SyncQueueManager \<Rightarrow> SyncQueueManager" where
  "cleanup_queue cutoff p 0 m = m"
| "cleanup_queue cutoff p (Suc i) m =
     (if QJ_QueuedAt (queue_jobs p m ! i) < cutoff
      then cleanup_queue cutoff p i (snd (take_job p i m)) else cleanup_queue cutoff p i m)"

definition cleanupExpiredJobs :: "time \<Rightarrow> int list \<Rightarrow> SyncQueueManager \<Rightarrow> SyncQueueManager" where
  "cleanupExpiredJobs now order m =
     (let cutoff = now - QC_QueueTimeoutDuration (SQ_config m)
      in foldl (\<lambda>m p. cleanup_queue cutoff p (length (queue_jobs p m)) m) m order)"

definition getSampleQueuedJobs :: "nat \<Rightarrow> SyncQueueManager \<Rightarrow> QueuedSyncJob list" where
  "getSampleQueuedJobs limit m =
     foldl (\<lambda>js p. foldl (\<lambda>js j. if length js \<ge> limit then js else js @ [j]) js (queue_jobs p m)) [] priorities"

record QueueStatus =
  QS_QueueSizes :: "int \<rightharpoonup> int"
  QS_ActiveJobs :: int
  QS_TotalQueued :: int
  QS_EstimatedWaitTimes :: "int \<rightharpoonup> duration"
  QS_SampleQueuedJobs :: "QueuedSyncJob list"

text \<open>The ratios of the resource status are left out; a manager without limits panics there.\<close>

definition GetQueueStatus :: "int list \<Rightarrow> SyncQueueManager \<Rightarrow> (string, QueueStatus) outcome" where
  "GetQueueStatus order m =
     (case QC_ResourceLimits (SQ_config m) of
        None \<Rightarrow> Panic
      | Some _ \<Rightarrow>
          let size = (\<lambda>p. int (length (queue_jobs p m)))
          in Ok \<lparr>QS_QueueSizes = foldl (\<lambda>f p. f(p \<mapsto> size p)) Map.empty order,
                QS_ActiveJobs = active_count m,
                QS_TotalQueued = total_queued order m,
                QS_EstimatedWaitTimes =
                  (if QM_AverageProcessingTime (SQ_metrics m) > 0
                   then foldl (\<lambda>f p. f(p \<mapsto> size p * QM_AverageProcessingTime (SQ_metrics m))) Map.empty order
                   else Map.empty),
                QS_SampleQueuedJobs = getSampleQueuedJobs 10 m\<rparr>)"

section \<open>The books of the manager\<close>

definition queue_ok :: "int \<Rightarrow> QueuedSyncJob list \<Rightarrow> bool" where
  "queue_ok p js \<longleftrightarrow> is_heap job_less js \<and> jobs.placed js \<and> (\<forall>j \<in> set js. QJ_Priority j = p)"

definition queues_ok :: "SyncQueueManager \<Rightarrow> bool" where
  "queues_ok m \<longleftrightarrow>
     dom (SQ_queues m) = set priorities \<and>
     (\<forall>p. queue_ok p (queue_jobs p m) \<and> QM_CurrentQueueSizes (SQ_metrics m) p = int (length (queue_jobs p m)))"

definition ids_of :: "QueuedSyncJob list \<Rightarrow> uuid multiset" where
  "ids_of js = image_mset QJ_ID (mset js)"

definition queued_ids :: "SyncQueueManager \<Rightarrow> uuid multiset" where
  "queued_ids m = (\<Sum>p \<leftarrow> priorities. ids_of (queue_jobs p m))"

text \<open>Every job is in one place: queued, active, or with a sleeping goroutine.\<close>

definition all_ids :: "SyncQueueManager \<Rightarrow> uuid multiset" where
  "all_ids m = queued_ids m + mset_set (dom (SQ_activeJobs m)) + ids_of (SQ_retries m)"

definition active_ok :: "SyncQueueManager \<Rightarrow> bool" where
  "active_ok m \<longleftrightarrow>
     finite (dom (SQ_activeJobs m)) \<and> QM_ActiveJobCount (SQ_metrics m) = active_count m \<and>
     (\<forall>k j. SQ_activeJobs m k = Some j \<longrightarrow> QJ_ID j = k)"

definition manager_ok :: "SyncQueueManager \<Rightarrow> bool" where
  "manager_ok m \<longleftrightarrow>
     queues_ok m \<and> active_ok m \<and> (\<forall>x. count (all_ids m) x \<le> 1) \<and>
     active_count m \<le> QC_MaxConcurrentJobs (SQ_config m)"

lemma ids_of_simps [simp]: "ids_of [] = {#}" "ids_of (j # js) = add_mset (QJ_ID j) (ids_of js)"
  "ids_of (xs @ ys) = ids_of xs + ids_of ys"
  by (simp_all add: ids_of_def)

lemma ids_of_contents: "ids_of js = image_mset QJ_ID (jobs.contents js)"
  by (simp add: ids_of_def multiset.map_comp comp_def)

lemma update_queue_simps [simp]:
  "SQ_activeJobs (update_queue p js d m) = SQ_activeJobs m" "SQ_config (update_queue p js d m) = SQ_config m"
  "SQ_retries (update_queue p js d m) = SQ_retries m"
  "QM_ActiveJobCount (SQ_metrics (update_queue p js d m)) = QM_ActiveJobCount (SQ_metrics m)"
  "QM_CurrentQueueSizes (SQ_metrics (update_queue p js d m)) =
     (QM_CurrentQueueSizes (SQ_metrics m))(p := QM_CurrentQueueSizes (SQ_metrics m) p + d)"
  "dom (SQ_queues (update_queue p js d m)) = dom (SQ_queues m)"
  by (auto simp: update_queue_def)

lemma queue_jobs_update [simp]:
  "queue_jobs p' (update_queue p js d m) = (if p' = p \<and> p \<in> dom (SQ_queues m) then js else queue_jobs p' m)"
  by (auto simp: update_queue_def queue_jobs_def split: option.splits)

text \<open>A change elsewhere keeps the queues.\<close>

lemma queues_cong:
  assumes "SQ_queues m' = SQ_queues m" and "QM_CurrentQueueSizes (SQ_metrics m') = QM_CurrentQueueSizes (SQ_metrics m)"
  shows "queues_ok m' = queues_ok m" and "queued_ids m' = queued_ids m"
  using assms by (simp_all add: queues_ok_def queued_ids_def queue_jobs_def)

lemma all_prio_heap: "(\<forall>j \<in> set js. QJ_Priority j = p) \<longleftrightarrow> (\<forall>j \<in># jobs.contents js. QJ_Priority j = p)"
  by (rule jobs.all_contents) simp

lemma queue_ok_push: "queue_ok p js \<Longrightarrow> QJ_Priority job = p \<Longrightarrow> queue_ok p (heap_push job_less place_job job js)"
  unfolding queue_ok_def all_prio_heap
  using jobs.push_heap [of js job] jobs.push_placed [of js job] by (simp add: jobs.push_contents)

lemma queue_ok_remove:
  assumes "queue_ok p js" and "i < length js"
  shows "queue_ok p (snd (heap_remove job_less place_job i js))"
proof -
  have "\<forall>j \<in># jobs.contents (snd (heap_remove job_less place_job i js)). QJ_Priority j = p"
    using assms(1) jobs.remove_contents(1) [OF assms(2)] unfolding queue_ok_def all_prio_heap by auto
  then show ?thesis
    using assms jobs.remove_heap [of js i] jobs.remove_placed [of js i] unfolding queue_ok_def all_prio_heap by blast
qed

lemma ids_push: "ids_of (heap_push job_less place_job job js) = add_mset (QJ_ID job) (ids_of js)"
  unfolding ids_of_contents jobs.push_contents by simp

lemma ids_remove:
  "i < length js \<Longrightarrow> ids_of js = add_mset (QJ_ID (js ! i)) (ids_of (snd (heap_remove job_less place_job i js)))"
  using arg_cong [OF jobs.remove_contents(1) [of i js], of "image_mset QJ_ID"] unfolding ids_of_contents by simp

text \<open>The sum over the queues, when one queue changes.\<close>

lemma queued_ids_update:
  assumes "p \<in> set priorities" and "dom (SQ_queues m) = set priorities"
  shows "queued_ids (update_queue p js d m) + ids_of (queue_jobs p m) = queued_ids m + ids_of js"
  using assms by (auto simp: queued_ids_def priorities_def ac_simps)

lemma push_job_ok:
  assumes "push_job job m = Some m'" and "queues_ok m"
  shows "queues_ok m' \<and> queued_ids m' = add_mset (QJ_ID job) (queued_ids m) \<and> SQ_activeJobs m' = SQ_activeJobs m \<and>
    SQ_config m' = SQ_config m \<and> SQ_retries m' = SQ_retries m \<and>
    QM_ActiveJobCount (SQ_metrics m') = QM_ActiveJobCount (SQ_metrics m)"
proof -
  let ?p = "QJ_Priority job" and ?js = "heap_push job_less place_job job (queue_jobs (QJ_Priority job) m)"
  obtain q where q: "SQ_queues m ?p = Some q" using assms(1) by (auto simp: push_job_def split: option.splits)
  have m': "m' = update_queue ?p ?js 1 m" using assms(1) q by (simp add: push_job_def queue_jobs_def)
  have d: "dom (SQ_queues m) = set priorities" "?p \<in> dom (SQ_queues m)" using assms(2) q by (auto simp: queues_ok_def)
  then have p: "?p \<in> set priorities" by simp
  have "queues_ok m'"
    using assms(2) d queue_ok_push [of ?p "queue_jobs ?p m" job] by (auto simp: m' queues_ok_def)
  moreover have "queued_ids m' = add_mset (QJ_ID job) (queued_ids m)"
    using queued_ids_update [OF p d(1), of ?js 1] by (simp add: m' ids_push)
  ultimately show ?thesis by (simp add: m')
qed

lemma queue_in_dom: "i < length (queue_jobs p m) \<Longrightarrow> p \<in> dom (SQ_queues m)"
  by (auto simp: queue_jobs_def split: option.splits)

lemma take_job_ok:
  assumes "take_job p i m = (job, m')" and "i < length (queue_jobs p m)" and "queues_ok m"
  shows "queues_ok m' \<and> queued_ids m = add_mset (QJ_ID job) (queued_ids m') \<and> SQ_activeJobs m' = SQ_activeJobs m \<and>
    SQ_config m' = SQ_config m \<and> SQ_retries m' = SQ_retries m \<and>
    QM_ActiveJobCount (SQ_metrics m') = QM_ActiveJobCount (SQ_metrics m) \<and>
    job = place_job (-1) (queue_jobs p m ! i)"
proof -
  let ?js = "snd (heap_remove job_less place_job i (queue_jobs p m))"
  have m': "m' = update_queue p ?js (-1) m" and job: "job = place_job (-1) (queue_jobs p m ! i)"
    using assms(1) jobs.remove_contents(2) [OF assms(2)] by (auto simp: take_job_def case_prod_unfold)
  have d: "dom (SQ_queues m) = set priorities" "p \<in> dom (SQ_queues m)"
    using assms(3) queue_in_dom [OF assms(2)] by (auto simp: queues_ok_def)
  then have p: "p \<in> set priorities" by simp
  have "queues_ok m'"
    using assms(2,3) d queue_ok_remove [of p "queue_jobs p m" i] length_heap_remove [OF assms(2)]
    by (auto simp: m' queues_ok_def of_nat_diff)
  moreover have "queued_ids m = add_mset (QJ_ID job) (queued_ids m')"
  proof -
    have "queued_ids m' + ids_of (queue_jobs p m) = queued_ids m + ids_of ?js"
      unfolding m' by (rule queued_ids_update [OF p d(1)])
    then show ?thesis unfolding ids_remove [OF assms(2)] job by simp
  qed
  ultimately show ?thesis using job by (simp add: m')
qed

lemma first_index_Some:
  "first_index P xs = Some i \<Longrightarrow> i < length xs \<and> P (xs ! i) \<and> (\<forall>k < i. \<not> P (xs ! k))"
proof (induction xs arbitrary: i)
  case (Cons x xs)
  then show ?case by (cases i) (auto simp: nth_Cons split: if_splits nat.splits)
qed simp

lemma first_index_None: "first_index P xs = None \<longleftrightarrow> (\<forall>x \<in> set xs. \<not> P x)"
  by (induction xs) auto

lemma locate_job_Some:
  "locate_job jobID ps m = Some (p, i) \<Longrightarrow>
   p \<in> set ps \<and> i < length (queue_jobs p m) \<and> QJ_ID (queue_jobs p m ! i) = jobID"
  by (induction jobID ps m rule: locate_job.induct) (auto split: option.splits dest: first_index_Some)

lemma locate_job_None: "locate_job jobID ps m = None \<longleftrightarrow> (\<forall>p \<in> set ps. \<forall>j \<in> set (queue_jobs p m). QJ_ID j \<noteq> jobID)"
  by (induction jobID ps m rule: locate_job.induct) (force split: option.splits simp: first_index_None dest: first_index_Some nth_mem)+

text \<open>A dequeued job goes from its queue to the active jobs.\<close>

definition activate :: "QueuedSyncJob \<Rightarrow> SyncQueueManager \<Rightarrow> SyncQueueManager" where
  "activate job m =
     m\<lparr>SQ_activeJobs := (SQ_activeJobs m)(QJ_ID job \<mapsto> job),
       SQ_metrics := (SQ_metrics m)\<lparr>QM_ActiveJobCount := QM_ActiveJobCount (SQ_metrics m) + 1\<rparr>\<rparr>"

lemma dequeue_from_cases:
  assumes "dequeue_from now l ps m = (r, m')" and "dom (SQ_queues m) = set priorities" and "set ps \<subseteq> set priorities"
  obtains "r = Err ''no eligible jobs available''" and "m' = m"
      and "\<forall>p \<in> set ps. \<forall>j \<in> set (queue_jobs p m). \<not> eligible now l m j"
  | qs p rest i job m1 where "ps = qs @ p # rest" and "\<forall>q \<in> set qs. \<forall>j \<in> set (queue_jobs q m). \<not> eligible now l m j"
      and "first_index (eligible now l m) (queue_jobs p m) = Some i" and "take_job p i m = (job, m1)"
      and "r = Ok job" and "m' = activate job m1"
  using assms(1,3)
proof (induction ps arbitrary: thesis)
  case Nil
  then show ?case by simp
next
  case (Cons p ps)
  from Cons.prems(4) have "p \<in> dom (SQ_queues m)" by (simp add: assms(2))
  then obtain q where q: "SQ_queues m p = Some q" by blast
  then have js: "queue_jobs p m = PQ_jobs q" by (simp add: queue_jobs_def)
  show ?case
  proof (cases "first_index (eligible now l m) (PQ_jobs q)")
    case None
    then have no: "\<forall>j \<in> set (queue_jobs p m). \<not> eligible now l m j" by (simp add: first_index_None js)
    have d: "dequeue_from now l ps m = (r, m')" and sub: "set ps \<subseteq> set priorities" using Cons.prems q None by simp_all
    show ?thesis
    proof (rule Cons.IH [OF _ _ d sub])
      assume "r = Err ''no eligible jobs available''" "m' = m" "\<forall>p \<in> set ps. \<forall>j \<in> set (queue_jobs p m). \<not> eligible now l m j"
      with no show ?thesis by (intro Cons.prems(1)) auto
    next
      fix qs p' rest i job m1
      assume "ps = qs @ p' # rest" "\<forall>q \<in> set qs. \<forall>j \<in> set (queue_jobs q m). \<not> eligible now l m j"
        "first_index (eligible now l m) (queue_jobs p' m) = Some i" "take_job p' i m = (job, m1)"
        "r = Ok job" "m' = activate job m1"
      with no show ?thesis by (intro Cons.prems(2) [of "p # qs" p' rest i job m1]) auto
    qed
  next
    case (Some i)
    obtain job m1 where t: "take_job p i m = (job, m1)" by (cases "take_job p i m")
    have "r = Ok job" "m' = activate job m1" using Cons.prems(3) q Some t by (auto simp: activate_def)
    with Some t js show ?thesis by (intro Cons.prems(2) [of "[]" p ps i job m1]) auto
  qed
qed

lemma dequeue_cases:
  assumes "DequeueJob now m = (r, m')" and "dom (SQ_queues m) = set priorities"
  obtains "m' = m" and "\<forall>job. r \<noteq> Ok job"
  | l qs p rest i job m1 where "QC_ResourceLimits (SQ_config m) = Some l" and "active_count m < QC_MaxConcurrentJobs (SQ_config m)"
      and "priorities = qs @ p # rest" and "\<forall>q \<in> set qs. \<forall>j \<in> set (queue_jobs q m). \<not> eligible now l m j"
      and "first_index (eligible now l m) (queue_jobs p m) = Some i" and "take_job p i m = (job, m1)"
      and "r = Ok job" and "m' = activate job m1"
proof (cases "hasAvailableResources m")
  case None
  then show ?thesis using assms(1) by (intro that(1)) (auto simp: DequeueJob_def)
next
  case (Some ok)
  show ?thesis
  proof (cases ok)
    case False
    then show ?thesis using assms(1) Some by (intro that(1)) (auto simp: DequeueJob_def)
  next
    case True
    with Some obtain l where l: "QC_ResourceLimits (SQ_config m) = Some l" "active_count m < QC_MaxConcurrentJobs (SQ_config m)"
      by (auto simp: hasAvailableResources_def split: if_splits option.splits)
    have d: "dequeue_from now l priorities m = (r, m')" using assms(1) Some True l by (simp add: DequeueJob_def)
    show ?thesis by (rule dequeue_from_cases [OF d assms(2) subset_refl]) (use l that in auto)
  qed
qed

lemma manager_okD:
  assumes "manager_ok m"
  shows "queues_ok m" "active_ok m" "\<And>x. count (all_ids m) x \<le> 1" "active_count m \<le> QC_MaxConcurrentJobs (SQ_config m)"
  using assms by (auto simp: manager_ok_def)

lemma active_activate:
  assumes "active_ok m" and "QJ_ID job \<notin> dom (SQ_activeJobs m)"
  shows "active_ok (activate job m)" and "active_count (activate job m) = active_count m + 1"
  using assms by (auto simp: active_ok_def active_count_def activate_def)

lemma dequeue_ok:
  assumes ok: "manager_ok m" and d: "DequeueJob now m = (r, m')"
  shows "manager_ok m'"
proof -
  note m = manager_okD [OF ok]
  have dom: "dom (SQ_queues m) = set priorities" using m(1) by (simp add: queues_ok_def)
  show ?thesis
  proof (cases rule: dequeue_cases [OF d dom])
    case 1
    then show ?thesis using ok by simp
  next
    case (2 l qs p rest i job m1)
    have i: "i < length (queue_jobs p m)" using first_index_Some [OF 2(5)] by simp
    note t = take_job_ok [OF 2(6) i m(1)]
    have a1: "active_ok m1" "active_count m1 = active_count m" using t m(2) by (auto simp: active_ok_def active_count_def)
    have new: "QJ_ID job \<notin> dom (SQ_activeJobs m1)"
    proof
      assume "QJ_ID job \<in> dom (SQ_activeJobs m1)"
      then have "count (mset_set (dom (SQ_activeJobs m))) (QJ_ID job) = 1" using t m(2) by (auto simp: active_ok_def)
      moreover have "count (queued_ids m) (QJ_ID job) \<ge> 1" using t by simp
      ultimately show False using m(3) [of "QJ_ID job"] unfolding all_ids_def count_union by linarith
    qed
    have "all_ids (activate job m1) = all_ids m"
      using t new m(2) a1(1) queues_cong(2) [of "activate job m1" m1]
      by (auto simp: all_ids_def activate_def active_ok_def)
    moreover have "queues_ok (activate job m1)" using t queues_cong(1) [of "activate job m1" m1] by (simp add: activate_def)
    ultimately show ?thesis
      using active_activate [OF a1(1) new] a1(2) 2(2,8) m t by (simp add: manager_ok_def) (simp add: activate_def)
  qed
qed

lemma frame_ok:
  assumes "queues_ok m1" and "active_ok m" and "SQ_activeJobs m1 = SQ_activeJobs m"
    and "QM_ActiveJobCount (SQ_metrics m1) = QM_ActiveJobCount (SQ_metrics m)"
  shows "active_ok m1" and "active_count m1 = active_count m"
  using assms by (auto simp: active_ok_def active_count_def)

lemma enqueue_cases:
  assumes "EnqueueJob uid now later order request m = (r, m')"
  obtains "m' = m" and "r \<noteq> Ok uid"
  | opts m1 where "SReq_Options request = Some opts" and "checkQueueLimits order m = None"
      and "push_job (set_dynamic later m (mk_job uid now request opts)) m = Some m1" and "r = Ok uid"
      and "m' = m1\<lparr>SQ_metrics := (SQ_metrics m1)\<lparr>QM_TotalJobsQueued := QM_TotalJobsQueued (SQ_metrics m1) + 1\<rparr>\<rparr>"
  using assms by (auto simp: EnqueueJob_def split: option.splits)

lemma job_simps [simp]:
  "QJ_ID (set_dynamic t m job) = QJ_ID job" "QJ_ID (mk_job uid now request opts) = uid"
  "QJ_Priority (set_dynamic t m job) = QJ_Priority job" "QJ_Priority (mk_job uid now request opts) = Opt_Priority opts"
  "QJ_QueuedAt (set_dynamic t m job) = QJ_QueuedAt job" "QJ_QueuedAt (mk_job uid now request opts) = now"
  by (simp_all add: set_dynamic_def mk_job_def)

lemma enqueue_ok:
  assumes ok: "manager_ok m" and e: "EnqueueJob uid now later order request m = (r, m')" and new: "uid \<notin># all_ids m"
  shows "manager_ok m'"
proof (cases rule: enqueue_cases [OF e])
  case 1
  then show ?thesis using ok by simp
next
  case (2 opts m1)
  note m = manager_okD [OF ok]
  note p = push_job_ok [OF 2(3) m(1)]
  note f = frame_ok [of m1 m]
  have "all_ids m' = add_mset uid (all_ids m)" using p queues_cong(2) [of m' m1] by (simp add: 2(5) all_ids_def)
  moreover have "queues_ok m'" using p queues_cong(1) [of m' m1] by (simp add: 2(5))
  moreover have "active_ok m'" "active_count m' = active_count m" using p m(2) by (auto simp: 2(5) active_ok_def active_count_def)
  ultimately show ?thesis
    using m new p by (auto simp: manager_ok_def 2(5) not_in_iff)
qed

lemma cancel_active:
  assumes "active_ok m" and "SQ_activeJobs m k = Some j"
    and m': "SQ_activeJobs m' = (SQ_activeJobs m)(k := None)" "QM_ActiveJobCount (SQ_metrics m') = QM_ActiveJobCount (SQ_metrics m) - 1"
  shows "active_ok m'" and "active_count m' = active_count m - 1"
    and "mset_set (dom (SQ_activeJobs m)) = add_mset k (mset_set (dom (SQ_activeJobs m')))"
proof -
  have fin: "finite (dom (SQ_activeJobs m))" and k: "k \<in> dom (SQ_activeJobs m)" using assms by (auto simp: active_ok_def)
  have d: "dom (SQ_activeJobs m') = dom (SQ_activeJobs m) - {k}" by (auto simp: m')
  have c: "0 < card (dom (SQ_activeJobs m))" using fin k card_gt_0_iff by blast
  show ac: "active_count m' = active_count m - 1"
    using c by (simp add: active_count_def d card_Diff_singleton [OF k] of_nat_diff)
  show "active_ok m'" using assms ac fin by (auto simp: active_ok_def d)
  show "mset_set (dom (SQ_activeJobs m)) = add_mset k (mset_set (dom (SQ_activeJobs m')))"
    unfolding d by (rule mset_set.remove [OF fin k])
qed

lemma complete_ok:
  assumes ok: "manager_ok m" and c: "CompleteJob now jobID success duration m = (r, m')"
  shows "manager_ok m'"
proof (cases "SQ_activeJobs m jobID")
  case None
  then show ?thesis using ok c by (simp add: CompleteJob_def)
next
  case (Some job)
  note m = manager_okD [OF ok]
  have a: "SQ_activeJobs m' = (SQ_activeJobs m)(jobID := None)"
      "QM_ActiveJobCount (SQ_metrics m') = QM_ActiveJobCount (SQ_metrics m) - 1"
      "SQ_queues m' = SQ_queues m" "QM_CurrentQueueSizes (SQ_metrics m') = QM_CurrentQueueSizes (SQ_metrics m)"
      "SQ_config m' = SQ_config m" "ids_of (SQ_retries m') \<subseteq># add_mset jobID (ids_of (SQ_retries m))"
    using c Some m(2) by (auto simp: CompleteJob_def Let_def active_ok_def split: if_splits)
  note q = queues_cong [OF a(3,4)]
  note ca = cancel_active [OF m(2) Some a(1,2)]
  have "all_ids m' \<subseteq># all_ids m"
    using a(6) unfolding all_ids_def q ca(3) by (simp add: subset_mset.add_left_mono add.assoc)
  then have "count (all_ids m') x \<le> 1" for x using m(3) [of x] by (meson le_trans mset_subset_eq_count)
  then show ?thesis using q m ca a(5) by (simp add: manager_ok_def)
qed

lemma cleanup_step:
  assumes "manager_ok m" and "i < length (queue_jobs p m)"
  shows "manager_ok (snd (take_job p i m))"
proof -
  note m = manager_okD [OF assms(1)]
  obtain job m' where t: "take_job p i m = (job, m')" by (cases "take_job p i m")
  note tk = take_job_ok [OF t assms(2) m(1)]
  have "all_ids m = add_mset (QJ_ID job) (all_ids m')" using tk by (simp add: all_ids_def)
  then have "count (all_ids m') x \<le> 1" for x using m(3) [of x] by (simp split: if_splits)
  then show ?thesis using tk m frame_ok [of m' m] t by (simp add: manager_ok_def)
qed

lemma cancel_ok:
  assumes ok: "manager_ok m" and c: "CancelJob order jobID m = (r, m')"
  shows "manager_ok m'"
proof -
  note m = manager_okD [OF ok]
  consider job where "SQ_activeJobs m jobID = Some job" | "SQ_activeJobs m jobID = None" "locate_job jobID order m = None"
    | p i where "SQ_activeJobs m jobID = None" "locate_job jobID order m = Some (p, i)" by fastforce
  then show ?thesis
  proof cases
    case 1
    then have m': "m' = m\<lparr>SQ_activeJobs := (SQ_activeJobs m)(jobID := None),
        SQ_metrics := (SQ_metrics m)\<lparr>QM_ActiveJobCount := QM_ActiveJobCount (SQ_metrics m) - 1\<rparr>\<rparr>"
      using c by (simp add: CancelJob_def)
    note ca = cancel_active [OF m(2) 1, of m'] and q = queues_cong [of m' m]
    have "all_ids m' \<subseteq># all_ids m" using ca(3) q(2) by (simp add: all_ids_def m')
    then have "count (all_ids m') x \<le> 1" for x using m(3) [of x] by (meson le_trans mset_subset_eq_count)
    then show ?thesis using q m ca by (simp add: manager_ok_def m')
  next
    case 2
    then show ?thesis using ok c by (simp add: CancelJob_def)
  next
    case 3
    then show ?thesis using cleanup_step [OF ok, of i p] locate_job_Some [OF 3(2)] c by (simp add: CancelJob_def)
  qed
qed

lemma update_ok:
  assumes ok: "manager_ok m" and u: "UpdateJobPriority now order jobID newPriority m = (r, m')"
  shows "manager_ok m'"
proof (cases "locate_job jobID order m")
  case None
  then show ?thesis using ok u by (simp add: UpdateJobPriority_def)
next
  case (Some pi)
  obtain p i where pi: "pi = (p, i)" by (cases pi)
  note m = manager_okD [OF ok] and lo = locate_job_Some [OF Some [unfolded pi]]
  obtain job m1 where t: "take_job p i m = (job, m1)" by (cases "take_job p i m")
  note tk = take_job_ok [OF t _ m(1)]
  have m1: "manager_ok m1" using cleanup_step [OF ok, of i p] lo t by simp
  let ?job = "set_dynamic now m1 (job\<lparr>QJ_Priority := newPriority\<rparr>)"
  show ?thesis
  proof (cases "push_job ?job m1")
    case None
    then show ?thesis using u Some pi t m1 by (simp add: UpdateJobPriority_def Let_def)
  next
    case (Some m2)
    then have m': "m' = m2" using u \<open>locate_job jobID order m = Some pi\<close> pi t by (simp add: UpdateJobPriority_def Let_def)
    note ps = push_job_ok [OF Some manager_okD(1) [OF m1]]
    have "all_ids m2 = all_ids m" using ps tk lo by (simp add: all_ids_def)
    then show ?thesis using ps m m1 manager_okD [OF m1] tk lo frame_ok [of m2 m1] by (simp add: manager_ok_def m')
  qed
qed

lemma wake_ok:
  assumes ok: "manager_ok m" and k: "k < length (SQ_retries m)" and w: "wake_retry k m = (Ok (), m')"
  shows "manager_ok m'"
proof -
  note m = manager_okD [OF ok]
  let ?j = "SQ_retries m ! k"
  let ?job = "if QJ_Priority ?j > SyncPriorityLow then ?j\<lparr>QJ_Priority := QJ_Priority ?j - 1\<rparr> else ?j"
  obtain m1 where p: "push_job ?job m = Some m1" and m': "m' = m1\<lparr>SQ_retries := take k (SQ_retries m1) @ drop (Suc k) (SQ_retries m1)\<rparr>"
    using w by (auto simp: wake_retry_def Let_def split: option.splits)
  note ps = push_job_ok [OF p m(1)] and q = queues_cong [of m' m1]
  have "ids_of (SQ_retries m) = ids_of (take k (SQ_retries m) @ ?j # drop (Suc k) (SQ_retries m))"
    using k by (simp add: id_take_nth_drop [symmetric] Cons_nth_drop_Suc)
  then have "all_ids m' = all_ids m" using ps q(2) by (simp add: all_ids_def m')
  then show ?thesis using ps q m frame_ok [of m' m] by (simp add: manager_ok_def m')
qed

lemma cleanup_queue_ok: "manager_ok m \<Longrightarrow> n \<le> length (queue_jobs p m) \<Longrightarrow> manager_ok (cleanup_queue cutoff p n m)"
proof (induction n arbitrary: m)
  case (Suc n)
  obtain job m1 where t: "take_job p n m = (job, m1)" by (cases "take_job p n m")
  have "length (queue_jobs p m1) = length (queue_jobs p m) - 1"
    using t Suc.prems length_heap_remove [of n "queue_jobs p m" job_less place_job] queue_in_dom [of n p m]
    by (auto simp: take_job_def case_prod_unfold Let_def)
  then show ?case using Suc cleanup_step [of m n p] t by simp
qed simp

lemma cleanup_ok: "manager_ok m \<Longrightarrow> manager_ok (cleanupExpiredJobs now order m)"
proof -
  have "manager_ok (foldl (\<lambda>m p. cleanup_queue c p (length (queue_jobs p m)) m) m order)" if "manager_ok m" for c m
    using that by (induction order arbitrary: m) (simp_all add: cleanup_queue_ok)
  then show "manager_ok m \<Longrightarrow> ?thesis" by (simp add: cleanupExpiredJobs_def Let_def)
qed

lemma utilization_ok: "manager_ok m \<Longrightarrow> manager_ok (updateResourceUtilization m)"
  using queues_cong [of "updateResourceUtilization m" m]
  by (auto simp: manager_ok_def all_ids_def active_ok_def active_count_def updateResourceUtilization_def)

lemma new_manager_ok: "NewSyncQueueManager config = Ok m \<Longrightarrow> manager_ok m"
  by (auto simp: NewSyncQueueManager_def Let_def manager_ok_def queues_ok_def active_ok_def active_count_def
      all_ids_def queued_ids_def queue_jobs_def priorities_def queue_ok_def is_heap_def heap_to_def
      jobs.placed_def zero_metrics_def ids_of_def split: if_splits)

section \<open>Runs of the manager\<close>

text \<open>A range over the map of queues.\<close>

definition order_ok :: "int list \<Rightarrow> bool" where
  "order_ok order \<longleftrightarrow> distinct order \<and> set order = set priorities"

text \<open>The steps of a run: the operations, with new identifiers, and the work in the background.  A run ends
  when a goroutine panics.\<close>

inductive queue_step :: "SyncQueueManager \<Rightarrow> SyncQueueManager \<Rightarrow> bool" where
  enqueue: "uid \<notin># all_ids m \<Longrightarrow> EnqueueJob uid now later order request m = (r, m') \<Longrightarrow> queue_step m m'"
| dequeue: "DequeueJob now m = (r, m') \<Longrightarrow> queue_step m m'"
| complete: "CompleteJob now jobID success duration m = (r, m') \<Longrightarrow> queue_step m m'"
| cancel: "CancelJob order jobID m = (r, m') \<Longrightarrow> queue_step m m'"
| reprioritise: "UpdateJobPriority now order jobID p m = (r, m') \<Longrightarrow> queue_step m m'"
| wake: "k < length (SQ_retries m) \<Longrightarrow> wake_retry k m = (Ok (), m') \<Longrightarrow> queue_step m m'"
| utilization: "queue_step m (updateResourceUtilization m)"
| cleanup: "queue_step m (cleanupExpiredJobs now order m)"

lemma queue_steps_ok: "queue_step\<^sup>*\<^sup>* m m' \<Longrightarrow> manager_ok m \<Longrightarrow> manager_ok m'"
proof (induction rule: rtranclp_induct)
  case (step y z)
  from step(2) show ?case
    by cases (use step in \<open>auto intro: enqueue_ok dequeue_ok complete_ok cancel_ok update_ok wake_ok utilization_ok cleanup_ok\<close>)
qed

text \<open>Jobs that are active or wait for a retry have one of the four priorities.\<close>

definition lent_ok :: "SyncQueueManager \<Rightarrow> bool" where
  "lent_ok m \<longleftrightarrow> (\<forall>j \<in> ran (SQ_activeJobs m) \<union> set (SQ_retries m). QJ_Priority j \<in> set priorities)"

lemma lent_mono:
  "lent_ok m \<Longrightarrow> ran (SQ_activeJobs m') \<subseteq> ran (SQ_activeJobs m) \<Longrightarrow> set (SQ_retries m') \<subseteq> set (SQ_retries m) \<Longrightarrow> lent_ok m'"
  unfolding lent_ok_def by blast

lemma ran_remove: "ran (f(k := None)) \<subseteq> ran f"
  by (auto simp: ran_def split: if_splits)

lemma push_frame: "push_job job m = Some m' \<Longrightarrow> SQ_activeJobs m' = SQ_activeJobs m \<and> SQ_retries m' = SQ_retries m"
  by (auto simp: push_job_def split: option.splits)

lemma take_frame: "SQ_activeJobs (snd (take_job p i m)) = SQ_activeJobs m \<and> SQ_retries (snd (take_job p i m)) = SQ_retries m"
  by (simp add: take_job_def case_prod_unfold Let_def)

lemma cleanup_queue_frame:
  "SQ_activeJobs (cleanup_queue cutoff p n m) = SQ_activeJobs m \<and> SQ_retries (cleanup_queue cutoff p n m) = SQ_retries m"
  by (induction n arbitrary: m) (simp_all add: take_frame)

lemma cleanup_frame:
  "SQ_activeJobs (cleanupExpiredJobs now order m) = SQ_activeJobs m \<and> SQ_retries (cleanupExpiredJobs now order m) = SQ_retries m"
proof -
  have "SQ_activeJobs (foldl (\<lambda>m p. cleanup_queue c p (length (queue_jobs p m)) m) m order) = SQ_activeJobs m \<and>
      SQ_retries (foldl (\<lambda>m p. cleanup_queue c p (length (queue_jobs p m)) m) m order) = SQ_retries m" for c m
    by (induction order arbitrary: m) (simp_all add: cleanup_queue_frame)
  then show ?thesis by (simp add: cleanupExpiredJobs_def Let_def)
qed

lemma dequeue_lent:
  assumes ok: "manager_ok m" and l: "lent_ok m" and d: "DequeueJob now m = (r, m')"
  shows "lent_ok m'"
proof -
  note m = manager_okD [OF ok]
  have dom: "dom (SQ_queues m) = set priorities" using m(1) by (simp add: queues_ok_def)
  show ?thesis
  proof (cases rule: dequeue_cases [OF d dom])
    case 1
    then show ?thesis using l by simp
  next
    case (2 lim qs p rest i job m1)
    have i: "i < length (queue_jobs p m)" using first_index_Some [OF 2(5)] by simp
    note t = take_job_ok [OF 2(6) i m(1)]
    have "QJ_Priority (queue_jobs p m ! i) = p" using m(1) i by (simp add: queues_ok_def queue_ok_def)
    moreover have "p \<in> set priorities" unfolding 2(3) by simp
    ultimately have "QJ_Priority job \<in> set priorities" using t by simp
    moreover have "ran (SQ_activeJobs m') \<subseteq> insert job (ran (SQ_activeJobs m))"
      using t by (auto simp: 2(8) activate_def ran_def split: if_splits)
    ultimately show ?thesis using l t unfolding lent_ok_def 2(8) activate_def by auto
  qed
qed

lemma complete_lent:
  assumes ok: "manager_ok m" and l: "lent_ok m" and c: "CompleteJob now jobID success duration m = (r, m')"
  shows "lent_ok m'"
proof (cases "SQ_activeJobs m jobID")
  case None
  then show ?thesis using l c by (simp add: CompleteJob_def)
next
  case (Some job)
  have "QJ_Priority job \<in> set priorities" using l Some by (auto simp: lent_ok_def ran_def)
  moreover have "SQ_activeJobs m' = (SQ_activeJobs m)(jobID := None)"
    "\<forall>j \<in> set (SQ_retries m'). j \<in> set (SQ_retries m) \<or> QJ_Priority j = QJ_Priority job"
    using c Some by (auto simp: CompleteJob_def Let_def split: if_splits)
  ultimately show ?thesis using l ran_remove [of "SQ_activeJobs m" jobID] unfolding lent_ok_def by fastforce
qed

lemma queue_step_lent:
  assumes "queue_step m m'" and ok: "manager_ok m" and l: "lent_ok m"
  shows "lent_ok m'"
  using assms(1)
proof cases
  case (enqueue uid now later order request r)
  then show ?thesis
    by (cases rule: enqueue_cases [OF enqueue(2)]) (use l push_frame in \<open>auto intro: lent_mono\<close>)
next
  case (dequeue now r)
  then show ?thesis using dequeue_lent ok l by blast
next
  case (complete now jobID success duration r)
  then show ?thesis using complete_lent ok l by blast
next
  case (cancel order jobID r)
  show ?thesis
  proof (rule lent_mono [OF l])
    show "ran (SQ_activeJobs m') \<subseteq> ran (SQ_activeJobs m)" "set (SQ_retries m') \<subseteq> set (SQ_retries m)"
      using cancel ran_remove [of "SQ_activeJobs m" jobID]
      by (auto simp: CancelJob_def take_frame split: if_splits option.splits)
  qed
next
  case (reprioritise now order jobID p r)
  show ?thesis
  proof (rule lent_mono [OF l])
    show "ran (SQ_activeJobs m') \<subseteq> ran (SQ_activeJobs m)" "set (SQ_retries m') \<subseteq> set (SQ_retries m)"
      using reprioritise take_frame
      by (auto simp: UpdateJobPriority_def case_prod_unfold Let_def split: option.splits dest!: push_frame)
  qed
next
  case (wake k)
  then obtain job m1 where "push_job job m = Some m1" "m' = m1\<lparr>SQ_retries := take k (SQ_retries m1) @ drop (Suc k) (SQ_retries m1)\<rparr>"
    by (auto simp: wake_retry_def Let_def split: option.splits)
  then show ?thesis using push_frame [of job m m1] l
    by (auto intro!: lent_mono [OF l] dest: in_set_takeD in_set_dropD)
next
  case utilization
  then show ?thesis using l by (simp add: lent_ok_def updateResourceUtilization_def)
next
  case (cleanup now order)
  then show ?thesis using l cleanup_frame by (simp add: lent_ok_def)
qed

lemma reachable_ok:
  assumes "NewSyncQueueManager config = Ok m0" and "queue_step\<^sup>*\<^sup>* m0 m"
  shows "manager_ok m \<and> lent_ok m"
  using assms(2)
proof (induction rule: rtranclp_induct)
  case base
  have "lent_ok m0" using assms(1) by (auto simp: NewSyncQueueManager_def Let_def lent_ok_def split: if_splits)
  then show ?case using new_manager_ok [OF assms(1)] by simp
next
  case (step y z)
  then show ?case using queue_step_lent [of y z] queue_steps_ok [of y z] by blast
qed

section \<open>Clean-up\<close>

text \<open>The jobs of a queue that have not expired.\<close>

definition fresh_jobs :: "time \<Rightarrow> QueuedSyncJob list \<Rightarrow> QueuedSyncJob multiset" where
  "fresh_jobs cutoff js = filter_mset (\<lambda>j. \<not> QJ_QueuedAt j < cutoff) (jobs.contents js)"

lemma take_job_queue:
  assumes "i < length (queue_jobs p m)"
  shows "queue_jobs p' (snd (take_job p i m)) =
    (if p' = p then snd (heap_remove job_less place_job i (queue_jobs p m)) else queue_jobs p' m)"
  using queue_in_dom [OF assms] by (auto simp: take_job_def case_prod_unfold Let_def)

lemma cleanup_queue_correct:
  assumes "n \<le> length (queue_jobs p m)"
  shows "fresh_jobs cutoff (queue_jobs p (cleanup_queue cutoff p n m)) = fresh_jobs cutoff (queue_jobs p m) \<and>
    (p' \<noteq> p \<longrightarrow> queue_jobs p' (cleanup_queue cutoff p n m) = queue_jobs p' m) \<and>
    length (queue_jobs p (cleanup_queue cutoff p n m)) \<le> length (queue_jobs p m) \<and>
    ((\<exists>i < n. QJ_QueuedAt (queue_jobs p m ! i) < cutoff) \<longrightarrow>
       length (queue_jobs p (cleanup_queue cutoff p n m)) < length (queue_jobs p m))"
  using assms
proof (induction n arbitrary: m)
  case (Suc n)
  let ?js = "queue_jobs p m" and ?m = "snd (take_job p n m)"
  have n: "n < length ?js" using Suc.prems by simp
  show ?case
  proof (cases "QJ_QueuedAt (?js ! n) < cutoff")
    case True
    note q = take_job_queue [OF n]
    have len: "length (queue_jobs p ?m) = length ?js - 1" by (simp add: q length_heap_remove [OF n])
    have "fresh_jobs cutoff (queue_jobs p ?m) = fresh_jobs cutoff ?js"
      using jobs.remove_contents(1) [OF n] True by (simp add: fresh_jobs_def q)
    moreover have "n \<le> length (queue_jobs p ?m)" using n len by simp
    note IH = Suc.IH [OF this]
    have "queue_jobs p' ?m = queue_jobs p' m" if "p' \<noteq> p" using that by (simp add: q)
    moreover have "length (queue_jobs p (cleanup_queue cutoff p n ?m)) < length ?js" using IH n len by linarith
    ultimately show ?thesis using IH True by (simp del: One_nat_def)
  next
    case False
    then show ?thesis using Suc.IH [of m] n by (auto simp: less_Suc_eq)
  qed
qed simp

text \<open>The loop over the queues.\<close>

lemma cleanup_fold:
  assumes "distinct order"
  shows "let m' = foldl (\<lambda>m p. cleanup_queue cutoff p (length (queue_jobs p m)) m) m order in
    (\<forall>p. fresh_jobs cutoff (queue_jobs p m') = fresh_jobs cutoff (queue_jobs p m)) \<and>
    (\<forall>p. length (queue_jobs p m') \<le> length (queue_jobs p m)) \<and>
    (\<forall>p \<in> set order. (\<exists>j \<in> set (queue_jobs p m). QJ_QueuedAt j < cutoff) \<longrightarrow>
       length (queue_jobs p m') < length (queue_jobs p m))"
  using assms
proof (induction order arbitrary: m)
  case (Cons p order)
  let ?m = "cleanup_queue cutoff p (length (queue_jobs p m)) m"
  note c = cleanup_queue_correct [of "length (queue_jobs p m)" p m cutoff, OF order_refl]
  have ex: "(\<exists>i < length (queue_jobs p m). QJ_QueuedAt (queue_jobs p m ! i) < cutoff) \<longleftrightarrow>
      (\<exists>j \<in> set (queue_jobs p m). QJ_QueuedAt j < cutoff)" by (metis in_set_conv_nth)
  have other: "p' \<noteq> p \<Longrightarrow> queue_jobs p' ?m = queue_jobs p' m" for p' using c [of p'] by simp
  have fresh: "fresh_jobs cutoff (queue_jobs p' ?m) = fresh_jobs cutoff (queue_jobs p' m)" for p'
    using c other by (cases "p' = p") auto
  have less: "length (queue_jobs p' ?m) \<le> length (queue_jobs p' m)" for p' using c other by (cases "p' = p") auto
  have strict: "(\<exists>j \<in> set (queue_jobs p m). QJ_QueuedAt j < cutoff) \<longrightarrow> length (queue_jobs p ?m) < length (queue_jobs p m)"
    using c ex by blast
  note IH = Cons.IH [of ?m, unfolded Let_def]
  show ?case
    unfolding Let_def foldl_Cons
  proof (intro conjI allI ballI impI)
    fix p'
    show "fresh_jobs cutoff (queue_jobs p' (foldl (\<lambda>m p. cleanup_queue cutoff p (length (queue_jobs p m)) m) ?m order)) =
        fresh_jobs cutoff (queue_jobs p' m)" using IH Cons.prems fresh by simp
    show le: "length (queue_jobs p' (foldl (\<lambda>m p. cleanup_queue cutoff p (length (queue_jobs p m)) m) ?m order)) \<le>
        length (queue_jobs p' m)"
    proof (rule order_trans)
      show "length (queue_jobs p' (foldl (\<lambda>m p. cleanup_queue cutoff p (length (queue_jobs p m)) m) ?m order)) \<le>
          length (queue_jobs p' ?m)" using IH Cons.prems by simp
    qed (rule less)
    assume "p' \<in> set (p # order)" and e: "\<exists>j \<in> set (queue_jobs p' m). QJ_QueuedAt j < cutoff"
    then show "length (queue_jobs p' (foldl (\<lambda>m p. cleanup_queue cutoff p (length (queue_jobs p m)) m) ?m order)) <
        length (queue_jobs p' m)"
      using IH Cons.prems strict other [of p'] less [of p'] by (cases "p' = p") (auto intro: le_less_trans)
  qed
qed simp

section \<open>Samples\<close>

definition sample_sync :: "string \<Rightarrow> time option \<Rightarrow> StartSyncRequest" where
  "sample_sync ty start =
     \<lparr>SReq_DataSourceID = ''ds'', SReq_ConnectorType = ''s3'',
      SReq_Options = Some \<lparr>Opt_SyncType = ty, Opt_Direction = [], Opt_ConflictStrategy = [],
        Opt_Priority = SyncPriorityNormal, Opt_Filters = None, Opt_Performance = None, Opt_Retry = None,
        Opt_Notifications = None\<rparr>,
      SReq_ScheduleOptions = Some \<lparr>Sched_Type = [], Sched_Interval = 0, Sched_CronExpr = [], Sched_StartTime = start,
        Sched_EndTime = None, Sched_MaxRuns = None\<rparr>\<rparr>"

definition new_manager :: SyncQueueManager where
  "new_manager = the_ok (NewSyncQueueManager None)"

text \<open>Requests in the queue of normal priority: identifier, time, type and start.\<close>

fun enqueue_all :: "(uuid \<times> time \<times> string \<times> time option) list \<Rightarrow> SyncQueueManager \<Rightarrow> SyncQueueManager" where
  "enqueue_all [] m = m"
| "enqueue_all ((uid, t, ty, start) # js) m = enqueue_all js (snd (EnqueueJob uid t t priorities (sample_sync ty start) m))"

lemma new_manager: "NewSyncQueueManager None = Ok new_manager"
  by (simp add: new_manager_def NewSyncQueueManager_def DefaultQueueConfig_def)

lemma new_manager_empty [simp]: "all_ids new_manager = {#}"
  by (simp add: new_manager_def NewSyncQueueManager_def DefaultQueueConfig_def all_ids_def queued_ids_def
      queue_jobs_def priorities_def)

lemma enqueue_ids: "manager_ok m \<Longrightarrow> EnqueueJob uid now later order request m = (r, m') \<Longrightarrow> all_ids m' \<subseteq># add_mset uid (all_ids m)"
proof -
  assume ok: "manager_ok m" and e: "EnqueueJob uid now later order request m = (r, m')"
  show ?thesis
  proof (cases rule: enqueue_cases [OF e])
    case (2 opts m1)
    note p = push_job_ok [OF 2(3) manager_okD(1) [OF ok]]
    show ?thesis using p queues_cong(2) [of m' m1] by (simp add: 2(5) all_ids_def)
  qed simp
qed

text \<open>Enqueueing jobs with different identifiers is a run.\<close>

lemma enqueue_all_steps:
  assumes "manager_ok m" and "distinct (map fst js)" and "set (map fst js) \<inter> set_mset (all_ids m) = {}"
  shows "queue_step\<^sup>*\<^sup>* m (enqueue_all js m)"
  using assms
proof (induction js arbitrary: m)
  case (Cons j js)
  obtain uid t ty start where j: "j = (uid, t, ty, start)" by (cases j)
  obtain r m1 where e: "EnqueueJob uid t t priorities (sample_sync ty start) m = (r, m1)" by fastforce
  have new: "uid \<notin># all_ids m" using Cons.prems by (auto simp: j)
  have "set_mset (all_ids m1) \<subseteq> insert uid (set_mset (all_ids m))"
    using set_mset_mono [OF enqueue_ids [OF Cons.prems(1) e]] by simp
  then have "queue_step\<^sup>*\<^sup>* m1 (enqueue_all js m1)"
    by (intro Cons.IH enqueue_ok [OF Cons.prems(1) e new]) (use Cons.prems j in auto)
  with queue_step.enqueue [OF new e] show ?case by (simp add: j e converse_rtranclp_into_rtranclp)
qed simp

lemma sample_run:
  "distinct (map fst js) \<Longrightarrow> queue_step\<^sup>*\<^sup>* new_manager (enqueue_all js new_manager)"
  by (rule enqueue_all_steps [OF new_manager_ok [OF new_manager]]) auto

section \<open>Correctness\<close>



lemma eligible_place [simp]: "eligible now l m (place_job i j) = eligible now l m j"
  by (simp add: eligible_def dependenciesMet_def canExecuteJob_def place_job_def)

lemma job_in_dom: "j \<in> set (queue_jobs p m) \<Longrightarrow> p \<in> dom (SQ_queues m)"
  by (cases "SQ_queues m p") (auto simp: queue_jobs_def)

lemma priorities_above: "priorities = qs @ p # rest \<Longrightarrow> q \<in> set priorities \<Longrightarrow> p < q \<Longrightarrow> q \<in> set qs"
  by (auto simp: priorities_def Cons_eq_append_conv)

text \<open>A dequeued job may run, no job of a higher priority may, and it has moved from its queue to the
  active jobs.  When the first job of its queue may run, no other job there is more urgent.\<close>

theorem dequeue_correct:
  assumes "manager_ok m" and "DequeueJob now m = (Ok job, m')"
  shows "\<exists>l. QC_ResourceLimits (SQ_config m) = Some l \<and> eligible now l m job \<and>
    (\<forall>p j. QJ_Priority job < p \<longrightarrow> j \<in> set (queue_jobs p m) \<longrightarrow> \<not> eligible now l m j) \<and>
    (eligible now l m (queue_jobs (QJ_Priority job) m ! 0) \<longrightarrow>
       (\<forall>j \<in> set (queue_jobs (QJ_Priority job) m). \<not> job_less j job)) \<and>
    queued_ids m = add_mset (QJ_ID job) (queued_ids m') \<and>
    SQ_activeJobs m' = (SQ_activeJobs m)(QJ_ID job \<mapsto> job)"
proof -
  note m = manager_okD [OF assms(1)]
  have dom: "dom (SQ_queues m) = set priorities" using m(1) by (simp add: queues_ok_def)
  show ?thesis
  proof (cases rule: dequeue_cases [OF assms(2) dom])
    case (2 l qs p rest i job' m1)
    then have job: "job' = job" by simp
    note f = first_index_Some [OF 2(5)]
    then have i: "i < length (queue_jobs p m)" by simp
    note t = take_job_ok [OF 2(6) i m(1)]
    have q: "queue_ok p (queue_jobs p m)" using m(1) by (simp add: queues_ok_def)
    have p: "QJ_Priority job = p" using q i t by (simp add: queue_ok_def job)
    have above: "\<not> eligible now l m j" if "p < p'" "j \<in> set (queue_jobs p' m)" for p' j
    proof -
      have "p' \<in> set priorities" using job_in_dom [OF that(2)] dom by simp
      then show ?thesis using priorities_above [OF 2(3) _ that(1)] 2(4) that(2) by blast
    qed
    have "\<not> job_less j job" if e: "eligible now l m (queue_jobs p m ! 0)" and j: "j \<in> set (queue_jobs p m)" for j
    proof -
      have "i = 0" using f e by (metis gr0I)
      moreover obtain k where "k < length (queue_jobs p m)" "j = queue_jobs p m ! k" using j by (metis in_set_conv_nth)
      ultimately show ?thesis using jobs.root_least [of "queue_jobs p m" k] q t by (simp add: queue_ok_def job)
    qed
    moreover have "queued_ids m' = queued_ids m1" using queues_cong(2) [of m' m1] by (simp add: 2(8) activate_def)
    ultimately show ?thesis using 2(1) f t above p by (auto simp: job 2(8) activate_def)
  qed simp
qed

text \<open>The clean-up of the queues removes expired jobs only, and when a queue has an expired job it
  becomes shorter; so repeated runs remove them all.\<close>

theorem cleanup_sound_and_progressing:
  assumes "order_ok order" and "manager_ok m"
  shows "fresh_jobs (now - QC_QueueTimeoutDuration (SQ_config m)) (queue_jobs p (cleanupExpiredJobs now order m)) =
      fresh_jobs (now - QC_QueueTimeoutDuration (SQ_config m)) (queue_jobs p m) \<and>
    ((\<exists>j \<in> set (queue_jobs p m). QJ_QueuedAt j < now - QC_QueueTimeoutDuration (SQ_config m)) \<longrightarrow>
      length (queue_jobs p (cleanupExpiredJobs now order m)) < length (queue_jobs p m))"
proof -
  have d: "distinct order" "set order = set priorities" using assms(1) by (simp_all add: order_ok_def)
  have "p \<in> set order" if "j \<in> set (queue_jobs p m)" for j
    using job_in_dom [OF that] manager_okD(1) [OF assms(2)] d(2) by (simp add: queues_ok_def)
  then show ?thesis
    using cleanup_fold [OF d(1), of "now - QC_QueueTimeoutDuration (SQ_config m)" m]
    unfolding cleanupExpiredJobs_def Let_def by blast
qed

definition expiring_jobs :: "(uuid \<times> time \<times> string \<times> time option) list" where
  "expiring_jobs =
     [(''0'', 0, ''realtime'', None), (''1'', 1, ''full'', None), (''2'', 2, ''realtime'', None), (''3'', 3, ''full'', None),
      (''4'', minutes 600, ''full'', None), (''5'', minutes 600, ''realtime'', None), (''6'', minutes 600, ''realtime'', None)]"

text \<open>But one run of the clean-up can leave an expired job: \<open>Remove\<close> may move a job that the downward
  loop has not seen yet to an index that it has passed.  Of seven jobs four have expired, and
  the second of them stays.\<close>

theorem cleanup_misses_expired_job:
  "\<exists>m. queue_step\<^sup>*\<^sup>* new_manager m \<and>
    map QJ_ID (queue_jobs 5 (cleanupExpiredJobs (minutes 1500) priorities m)) = [''6'', ''4'', ''5'', ''1''] \<and>
    map QJ_QueuedAt (queue_jobs 5 (cleanupExpiredJobs (minutes 1500) priorities m)) = [minutes 600, minutes 600, minutes 600, 1] \<and>
    QC_QueueTimeoutDuration (SQ_config m) = minutes 1440"
proof (intro exI conjI)
  show "queue_step\<^sup>*\<^sup>* new_manager (enqueue_all expiring_jobs new_manager)"
    by (rule sample_run) (simp add: expiring_jobs_def)
  have "(let m = enqueue_all expiring_jobs new_manager; js = queue_jobs 5 (cleanupExpiredJobs (minutes 1500) priorities m)
         in (map QJ_ID js, map QJ_QueuedAt js, QC_QueueTimeoutDuration (SQ_config m))) =
      ([''6'', ''4'', ''5'', ''1''], [minutes 600, minutes 600, minutes 600, 1], minutes 1440)"
    by code_simp
  then show "map QJ_ID (queue_jobs 5 (cleanupExpiredJobs (minutes 1500) priorities (enqueue_all expiring_jobs new_manager))) = [''6'', ''4'', ''5'', ''1'']"
    "map QJ_QueuedAt (queue_jobs 5 (cleanupExpiredJobs (minutes 1500) priorities (enqueue_all expiring_jobs new_manager))) = [minutes 600, minutes 600, minutes 600, 1]"
    "QC_QueueTimeoutDuration (SQ_config (enqueue_all expiring_jobs new_manager)) = minutes 1440"
    by (simp_all add: Let_def)
qed

text \<open>A manager with one job of normal priority.\<close>

definition one_job :: SyncQueueManager where
  "one_job = enqueue_all [(''1'', 1, ''full'', None)] new_manager"

lemma one_job_run: "queue_step\<^sup>*\<^sup>* new_manager one_job"
  unfolding one_job_def by (rule sample_run) simp

lemma one_job_ok: "manager_ok one_job"
  by (rule queue_steps_ok [OF one_job_run new_manager_ok [OF new_manager]])

lemma enqueue_all_frame:
  "SQ_activeJobs (enqueue_all js m) = SQ_activeJobs m \<and> SQ_config (enqueue_all js m) = SQ_config m \<and>
   QM_ResourceUtilization (SQ_metrics (enqueue_all js m)) = QM_ResourceUtilization (SQ_metrics m)"
proof (induction js m rule: enqueue_all.induct)
  case (2 uid t ty start js m)
  then show ?case
    by (auto simp: EnqueueJob_def push_job_def update_queue_def split: option.splits)
qed simp

text \<open>Without active jobs, a dequeue goes to the queues.\<close>

lemma dequeue_idle:
  "DequeueJob now (enqueue_all js new_manager) =
   dequeue_from now (the (QC_ResourceLimits DefaultQueueConfig)) priorities (enqueue_all js new_manager)"
  by (simp add: DequeueJob_def hasAvailableResources_def enqueue_all_frame active_count_def new_manager_def
      NewSyncQueueManager_def DefaultQueueConfig_def zero_metrics_def zero_utilization_def)

theorem dequeue_correct_witness:
  "\<exists>job m'. DequeueJob 2 one_job = (Ok job, m') \<and> QJ_ID job = ''1'' \<and> SQ_activeJobs m' = (SQ_activeJobs one_job)(''1'' \<mapsto> job)"
proof -
  have "(case fst (DequeueJob 2 one_job) of Ok job \<Rightarrow> Some (QJ_ID job) | _ \<Rightarrow> None) = Some ''1''"
    unfolding one_job_def dequeue_idle by code_simp
  then obtain job m' where d: "DequeueJob 2 one_job = (Ok job, m')" and i: "QJ_ID job = ''1''"
    by (cases "DequeueJob 2 one_job") (auto split: outcome.splits)
  show ?thesis using dequeue_correct [OF one_job_ok d] d i by auto
qed

theorem cleanup_sound_and_progressing_witness:
  "length (queue_jobs 5 (cleanupExpiredJobs (minutes 1500) priorities one_job)) < length (queue_jobs 5 one_job)"
proof -
  have o: "order_ok priorities" by (simp add: order_ok_def priorities_def)
  have "list_ex (\<lambda>j. QJ_QueuedAt j < minutes 1500 - QC_QueueTimeoutDuration (SQ_config one_job)) (queue_jobs 5 one_job)"
    by code_simp
  then show ?thesis
    using cleanup_sound_and_progressing [OF o one_job_ok, of "minutes 1500" 5] by (auto simp: list_ex_iff)
qed

text \<open>The first eligible job of the slice of a heap is not the most urgent one.  The first job is
  scheduled for later, and of the other two the less urgent one comes first in the slice and is
  taken.\<close>

theorem dequeue_prefers_less_urgent:
  "\<exists>m job m'. queue_step\<^sup>*\<^sup>* new_manager m \<and> DequeueJob 10 m = (Ok job, m') \<and> QJ_ID job = ''1'' \<and>
     (\<exists>j \<in> set (queue_jobs 5 m). QJ_ID j = ''2'' \<and> job_less j job \<and> QJ_ScheduledFor j = None)"
proof -
  let ?js = "[(''0'', 0, ''realtime'', Some 100), (''1'', 1, ''full'', None), (''2'', 2, ''realtime'', None)]"
  let ?m = "enqueue_all ?js new_manager"
  have run: "queue_step\<^sup>*\<^sup>* new_manager ?m" by (rule sample_run) simp
  have "(case fst (DequeueJob 10 ?m) of
         Ok job \<Rightarrow> QJ_ID job = ''1'' \<and>
           list_ex (\<lambda>j. QJ_ID j = ''2'' \<and> job_less j job \<and> QJ_ScheduledFor j = None) (queue_jobs 5 ?m)
       | _ \<Rightarrow> False)" unfolding dequeue_idle by code_simp
  then obtain job m' where "DequeueJob 10 ?m = (Ok job, m')" "QJ_ID job = ''1''"
    "\<exists>j \<in> set (queue_jobs 5 ?m). QJ_ID j = ''2'' \<and> job_less j job \<and> QJ_ScheduledFor j = None"
    by (cases "DequeueJob 10 ?m") (auto split: outcome.splits simp: list_ex_iff)
  with run show ?thesis by blast
qed

text \<open>The retry of a failed job lowers its priority by one, but there are queues for the priorities 1,
  5, 10 and 15 only.  So in every run, a goroutine that retries a job panics, and the program ends,
  exactly when the priority of the job is not the lowest.\<close>

theorem retry_panics_iff:
  assumes "NewSyncQueueManager config = Ok m0" and "queue_step\<^sup>*\<^sup>* m0 m" and "k < length (SQ_retries m)"
  shows "fst (wake_retry k m) = Panic \<longleftrightarrow> QJ_Priority (SQ_retries m ! k) \<noteq> SyncPriorityLow"
proof -
  let ?j = "SQ_retries m ! k"
  note ok = reachable_ok [OF assms(1,2)]
  have dom: "SQ_queues m p = None \<longleftrightarrow> p \<notin> set priorities" for p
    using ok by (auto simp: manager_ok_def queues_ok_def)
  have "QJ_Priority ?j \<in> set priorities" using ok assms(3) by (simp add: lent_ok_def)
  then consider "QJ_Priority ?j = 1" | "QJ_Priority ?j = 5" | "QJ_Priority ?j = 10" | "QJ_Priority ?j = 15"
    by (auto simp: priorities_def)
  then show ?thesis
    by cases (auto simp: wake_retry_def push_job_def dom priorities_def Let_def split: option.splits)
qed

theorem retry_panics_iff_witness:
  "\<exists>m. queue_step\<^sup>*\<^sup>* new_manager m \<and> fst (wake_retry 0 m) = Panic"
proof -
  obtain r m1 where d: "DequeueJob 2 one_job = (r, m1)" by fastforce
  obtain r2 m2 where c: "CompleteJob 3 ''1'' False 1 m1 = (r2, m2)" by fastforce
  have m2: "m2 = snd (CompleteJob 3 ''1'' False 1 (snd (DequeueJob 2 one_job)))" by (simp add: d c)
  have "map QJ_Priority (SQ_retries (snd (CompleteJob 3 ''1'' False 1 (snd (DequeueJob 2 one_job))))) = [5]"
    unfolding one_job_def dequeue_idle by code_simp
  then have r: "map QJ_Priority (SQ_retries m2) = [5]" by (simp only: m2)
  then have k: "0 < length (SQ_retries m2)" and p: "QJ_Priority (SQ_retries m2 ! 0) = 5" by auto
  have run: "queue_step\<^sup>*\<^sup>* new_manager m2"
    using one_job_run queue_step.dequeue [OF d] queue_step.complete [OF c] by (meson rtranclp.rtrancl_into_rtrancl)
  show ?thesis using retry_panics_iff [OF new_manager run k] p run by auto
qed

text \<open>Neither enqueueing nor a change of priority checks the priority.  For one without a queue both
  panic, and the change of priority has then already removed the job: it is lost.\<close>

theorem unknown_priority_panics:
  assumes "manager_ok m" and "p \<notin> set priorities"
  shows "(\<forall>opts. SReq_Options request = Some opts \<longrightarrow> Opt_Priority opts = p \<longrightarrow> checkQueueLimits order m = None \<longrightarrow>
      EnqueueJob uid now later order request m = (Panic, m)) \<and>
    (locate_job jobID order m \<noteq> None \<longrightarrow>
      fst (UpdateJobPriority now order jobID p m) = Panic \<and>
      all_ids m = add_mset jobID (all_ids (snd (UpdateJobPriority now order jobID p m))))"
proof -
  note m = manager_okD [OF assms(1)]
  have dom: "SQ_queues m p = None" using m(1) assms(2) by (auto simp: queues_ok_def)
  have "fst (UpdateJobPriority now order jobID p m) = Panic \<and>
      all_ids m = add_mset jobID (all_ids (snd (UpdateJobPriority now order jobID p m)))"
    if "locate_job jobID order m = Some (q, i)" for q i
  proof -
    note lo = locate_job_Some [OF that]
    obtain job m1 where t: "take_job q i m = (job, m1)" by (cases "take_job q i m")
    note tk = take_job_ok [OF t _ m(1)]
    have "SQ_queues m1 p = None" using tk lo assms(2) by (auto simp: queues_ok_def)
    then have "UpdateJobPriority now order jobID p m = (Panic, m1)"
      using that t by (simp add: UpdateJobPriority_def push_job_def)
    then show ?thesis using tk lo by (simp add: all_ids_def)
  qed
  then show ?thesis using dom by (auto simp: EnqueueJob_def push_job_def)
qed

theorem unknown_priority_panics_witness:
  "fst (UpdateJobPriority 2 priorities ''1'' 7 one_job) = Panic \<and>
   all_ids one_job = add_mset ''1'' (all_ids (snd (UpdateJobPriority 2 priorities ''1'' 7 one_job)))"
proof -
  have "locate_job ''1'' priorities one_job = Some (5, 0)" by code_simp
  moreover have "(7::int) \<notin> set priorities" by (simp add: priorities_def)
  ultimately show ?thesis using unknown_priority_panics [OF one_job_ok, of 7] by blast
qed

end
