(* ===== verification/Sync_Metrics.thy ===== *)
theory Sync_Metrics imports Sync_Types begin

text \<open>
  The collector of synchronisation metrics (\<^verbatim>\<open>pkg/sync/metrics_collector.go\<close>): counters in memory for each
  data source and connector, which the orchestrator updates when a job starts, ends or is cancelled, and
  which the background aggregation drops when they were not updated for a while.

  The counters of a key are written under a lock, so an update is one step; the clock reading is an
  argument.  Whether a database is set is a flag: the tables behind it are not modelled.
\<close>

section \<open>Data\<close>

definition TrendDirectionUp :: string where "TrendDirectionUp = ''up''"
definition TrendDirectionDown :: string where "TrendDirectionDown = ''down''"
definition TrendDirectionStable :: string where "TrendDirectionStable = ''stable''"
definition TrendDirectionVolatile :: string where "TrendDirectionVolatile = ''volatile''"

definition AnomalyTypeErrorSpike :: string where "AnomalyTypeErrorSpike = ''error_spike''"

record MetricsConfig =
  MCfg_RetentionDays :: int
  MCfg_AggregationInterval :: duration
  MCfg_RealtimeWindowSize :: duration
  MCfg_EnableDetailedMetrics :: bool
  MCfg_EnablePredictiveAnalytics :: bool

record VolumeProjection =
  VP_ProjectedSyncs :: int
  VP_ProjectedFiles :: int
  VP_ProjectedBytes :: int
  VP_ConfidenceLevel :: float64
  VP_ProjectionDate :: time

record Anomaly =
  AN_Type :: string
  AN_Severity :: string
  AN_Description :: string
  AN_DetectedAt :: time
  AN_Value :: float64
  AN_Expected :: float64
  AN_Deviation :: float64
  AN_Context :: metadata

record TrendAnalysis =
  TA_SyncRateTrend :: string
  TA_PerformanceTrend :: string
  TA_ErrorRateTrend :: string
  TA_VolumeProjection :: "VolumeProjection option"
  TA_Anomalies :: "Anomaly list"
  TA_Recommendations :: "string list"

record RealtimeMetrics =
  RM_DataSourceID :: uuid
  RM_ConnectorType :: string
  RM_WindowStart :: time
  RM_WindowEnd :: time
  RM_ActiveSyncs :: int
  RM_CompletedSyncs :: int
  RM_FailedSyncs :: int
  RM_TotalFiles :: int
  RM_TotalBytes :: int
  RM_AverageSpeed :: float64
  RM_ErrorRate :: float64
  RM_LastUpdated :: time
  RM_TrendData :: "TrendAnalysis option"

record SyncMetricsCollector =
  MC_config :: MetricsConfig
  MC_db :: bool
  MC_realtimeMetrics :: "string \<rightharpoonup> RealtimeMetrics"

definition NewSyncMetricsCollector :: "int \<Rightarrow> SyncMetricsCollector" where
  "NewSyncMetricsCollector retentionDays =
     \<lparr>MC_config = \<lparr>MCfg_RetentionDays = retentionDays, MCfg_AggregationInterval = 5 * 60 * 1000000000,
        MCfg_RealtimeWindowSize = 3600 * 1000000000, MCfg_EnableDetailedMetrics = True,
        MCfg_EnablePredictiveAnalytics = True\<rparr>,
      MC_db = False, MC_realtimeMetrics = Map.empty\<rparr>"

section \<open>Recording\<close>

definition buildMetricsKey :: "uuid option \<Rightarrow> string \<Rightarrow> string" where
  "buildMetricsKey dataSourceID connectorType =
     (case dataSourceID of
        Some ds \<Rightarrow> ds @ '':'' @ connectorType
      | None \<Rightarrow> ''global:'' @ connectorType)"

definition empty_metrics :: "MetricsConfig \<Rightarrow> time \<Rightarrow> uuid \<Rightarrow> string \<Rightarrow> RealtimeMetrics" where
  "empty_metrics cfg now ds ct =
     \<lparr>RM_DataSourceID = ds, RM_ConnectorType = ct, RM_WindowStart = now - MCfg_RealtimeWindowSize cfg, RM_WindowEnd = now,
      RM_ActiveSyncs = 0, RM_CompletedSyncs = 0, RM_FailedSyncs = 0, RM_TotalFiles = 0, RM_TotalBytes = 0,
      RM_AverageSpeed = 0, RM_ErrorRate = 0, RM_LastUpdated = now, RM_TrendData = None\<rparr>"

definition updateRealtimeMetrics ::
  "time \<Rightarrow> uuid \<Rightarrow> string \<Rightarrow> (RealtimeMetrics \<Rightarrow> RealtimeMetrics) \<Rightarrow> SyncMetricsCollector \<Rightarrow> SyncMetricsCollector" where
  "updateRealtimeMetrics now ds ct f smc =
     (let key = buildMetricsKey (Some ds) ct;
          m = (case MC_realtimeMetrics smc key of Some m \<Rightarrow> m | None \<Rightarrow> empty_metrics (MC_config smc) now ds ct)
      in smc\<lparr>MC_realtimeMetrics := (MC_realtimeMetrics smc)(key \<mapsto> f m)\<rparr>)"

text \<open>The conversion of a count to \<^verbatim>\<open>float64\<close> rounds.\<close>

definition f64_of_int :: "int \<Rightarrow> float64" where
  "f64_of_int i = round64 (of_int i)"

definition update_error_rate :: "RealtimeMetrics \<Rightarrow> RealtimeMetrics" where
  "update_error_rate m =
     (let total = RM_CompletedSyncs m + RM_FailedSyncs m
      in if total > 0
         then m\<lparr>RM_ErrorRate := f64_mul (f64_div (f64_of_int (RM_FailedSyncs m)) (f64_of_int total)) 100\<rparr> else m)"

definition RecordSyncStarted :: "time \<Rightarrow> SyncJob \<Rightarrow> SyncMetricsCollector \<Rightarrow> SyncMetricsCollector" where
  "RecordSyncStarted now job = updateRealtimeMetrics now (SJ_DataSourceID job) (SJ_ConnectorType job)
     (\<lambda>m. m\<lparr>RM_ActiveSyncs := RM_ActiveSyncs m + 1, RM_LastUpdated := now\<rparr>)"

definition add_transfer :: "SyncMetrics \<Rightarrow> RealtimeMetrics \<Rightarrow> RealtimeMetrics" where
  "add_transfer jm m =
     (let m' = m\<lparr>RM_TotalBytes := RM_TotalBytes m + (Met_BytesDownloaded jm + Met_BytesUploaded jm)\<rparr>
      in if Met_AverageTransferRate jm > 0
         then m'\<lparr>RM_AverageSpeed := f64_div (f64_add (RM_AverageSpeed m') (Met_AverageTransferRate jm)) 2\<rparr> else m')"

definition RecordSyncCompleted :: "time \<Rightarrow> SyncJob \<Rightarrow> SyncMetricsCollector \<Rightarrow> SyncMetricsCollector" where
  "RecordSyncCompleted now job = updateRealtimeMetrics now (SJ_DataSourceID job) (SJ_ConnectorType job)
     (\<lambda>m. let m1 = m\<lparr>RM_ActiveSyncs := RM_ActiveSyncs m - 1, RM_CompletedSyncs := RM_CompletedSyncs m + 1,
                 RM_LastUpdated := now\<rparr>;
              m2 = (case JS_Progress (SJ_Status job) of
                      None \<Rightarrow> m1 | Some p \<Rightarrow> m1\<lparr>RM_TotalFiles := RM_TotalFiles m1 + Prog_ProcessedFiles p\<rparr>);
              m3 = (case JS_Metrics (SJ_Status job) of None \<Rightarrow> m2 | Some jm \<Rightarrow> add_transfer jm m2)
          in update_error_rate m3)"

definition RecordSyncFailed :: "time \<Rightarrow> SyncJob \<Rightarrow> SyncMetricsCollector \<Rightarrow> SyncMetricsCollector" where
  "RecordSyncFailed now job = updateRealtimeMetrics now (SJ_DataSourceID job) (SJ_ConnectorType job)
     (\<lambda>m. update_error_rate (m\<lparr>RM_ActiveSyncs := RM_ActiveSyncs m - 1, RM_FailedSyncs := RM_FailedSyncs m + 1,
            RM_LastUpdated := now\<rparr>))"

definition RecordSyncCancelled :: "time \<Rightarrow> SyncJob \<Rightarrow> SyncMetricsCollector \<Rightarrow> SyncMetricsCollector" where
  "RecordSyncCancelled now job = updateRealtimeMetrics now (SJ_DataSourceID job) (SJ_ConnectorType job)
     (\<lambda>m. m\<lparr>RM_ActiveSyncs := RM_ActiveSyncs m - 1, RM_LastUpdated := now\<rparr>)"

text \<open>The part of the aggregation that works on the counters.\<close>

definition performAggregation :: "time \<Rightarrow> SyncMetricsCollector \<Rightarrow> SyncMetricsCollector" where
  "performAggregation now smc =
     (let cutoff = now - MCfg_RealtimeWindowSize (MC_config smc)
      in smc\<lparr>MC_realtimeMetrics := (\<lambda>k. case MC_realtimeMetrics smc k of
           None \<Rightarrow> None | Some m \<Rightarrow> if RM_LastUpdated m < cutoff then None else Some m)\<rparr>)"

section \<open>Reading\<close>

definition calculateTrendAnalysis :: "time \<Rightarrow> TrendAnalysis" where
  "calculateTrendAnalysis now =
     \<lparr>TA_SyncRateTrend = TrendDirectionUp, TA_PerformanceTrend = TrendDirectionStable, TA_ErrorRateTrend = TrendDirectionDown,
      TA_VolumeProjection = Some \<lparr>VP_ProjectedSyncs = 48, VP_ProjectedFiles = 2400, VP_ProjectedBytes = 120 * 1024 * 1024,
        VP_ConfidenceLevel = round64 (85 / 100), VP_ProjectionDate = now + 24 * 3600 * 1000000000\<rparr>,
      TA_Anomalies = [],
      TA_Recommendations = [''Consider increasing concurrent sync limit for improved throughput'',
        ''Error rate trending down - sync stability improving'']\<rparr>"

definition GetRealtimeMetrics :: "time \<Rightarrow> SyncMetricsCollector \<Rightarrow> uuid option \<Rightarrow> string \<Rightarrow> RealtimeMetrics" where
  "GetRealtimeMetrics now smc dataSourceID connectorType =
     (case MC_realtimeMetrics smc (buildMetricsKey dataSourceID connectorType) of
        None \<Rightarrow> empty_metrics (MC_config smc) now [] []
      | Some m \<Rightarrow>
          if MCfg_EnablePredictiveAnalytics (MC_config smc) then m\<lparr>RM_TrendData := Some (calculateTrendAnalysis now)\<rparr> else m)"

text \<open>An error rate of at least 20 is an anomaly; \<open>fmt1\<close> prints a number with one decimal.\<close>

definition detectErrorSpike :: "(float64 \<Rightarrow> string) \<Rightarrow> time \<Rightarrow> SyncMetricsCollector \<Rightarrow> uuid \<Rightarrow> string \<Rightarrow> Anomaly option" where
  "detectErrorSpike fmt1 now smc ds ct =
     (case MC_realtimeMetrics smc (buildMetricsKey (Some ds) ct) of
        None \<Rightarrow> None
      | Some m \<Rightarrow>
          if RM_ErrorRate m < 20 then None
          else Some \<lparr>AN_Type = AnomalyTypeErrorSpike, AN_Severity = ''medium'',
            AN_Description = ''Error rate spike detected: '' @ fmt1 (RM_ErrorRate m) @ ''%'', AN_DetectedAt = now,
            AN_Value = RM_ErrorRate m, AN_Expected = 5, AN_Deviation = f64_add (RM_ErrorRate m) (- 5),
            AN_Context = [''data_source_id'' \<mapsto> MetaString ds, ''connector_type'' \<mapsto> MetaString ct,
              ''failed_syncs'' \<mapsto> MetaInt (RM_FailedSyncs m), ''completed_syncs'' \<mapsto> MetaInt (RM_CompletedSyncs m)]\<rparr>)"

section \<open>The summaries\<close>

record SyncMetricsSummary =
  Sum_TotalSyncs :: int
  Sum_SuccessfulSyncs :: int
  Sum_FailedSyncs :: int
  Sum_CancelledSyncs :: int
  Sum_SuccessRate :: float64
  Sum_AverageDuration :: duration
  Sum_TotalBytesTransferred :: int
  Sum_TotalFilesProcessed :: int

record SyncMetricsPoint =
  Pt_Timestamp :: time
  Pt_Metrics :: SyncMetricsSummary

record SyncMetricsResult =
  MR_Summary :: SyncMetricsSummary
  MR_TimeSeries :: "SyncMetricsPoint list"
  MR_ByConnector :: "string \<rightharpoonup> SyncMetricsSummary"

text \<open>The values are constants of the code, which marks them as a substitute for database queries.\<close>

definition calculateSummaryMetrics :: SyncMetricsSummary where
  "calculateSummaryMetrics =
     \<lparr>Sum_TotalSyncs = 100, Sum_SuccessfulSyncs = 95, Sum_FailedSyncs = 5, Sum_CancelledSyncs = 0, Sum_SuccessRate = 95,
      Sum_AverageDuration = 10 * 60 * 1000000000, Sum_TotalBytesTransferred = 1024 * 1024 * 1024, Sum_TotalFilesProcessed = 5000\<rparr>"

definition counts_only :: "int \<Rightarrow> int \<Rightarrow> int \<Rightarrow> float64 \<Rightarrow> SyncMetricsSummary" where
  "counts_only n good bad rate =
     \<lparr>Sum_TotalSyncs = n, Sum_SuccessfulSyncs = good, Sum_FailedSyncs = bad, Sum_CancelledSyncs = 0, Sum_SuccessRate = rate,
      Sum_AverageDuration = 0, Sum_TotalBytesTransferred = 0, Sum_TotalFilesProcessed = 0\<rparr>"

definition getTimeSeriesMetrics :: "time \<Rightarrow> SyncMetricsPoint list" where
  "getTimeSeriesMetrics now =
     map (\<lambda>i. \<lparr>Pt_Timestamp = now + (- int i) * 3600 * 1000000000, Pt_Metrics = counts_only 10 9 1 90\<rparr>) [0..<24]"

definition getMetricsByConnector :: "string \<rightharpoonup> SyncMetricsSummary" where
  "getMetricsByConnector =
     [''googledrive'' \<mapsto> counts_only 50 48 2 96, ''onedrive'' \<mapsto> counts_only 30 29 1 (round64 (967 / 10)),
      ''dropbox'' \<mapsto> counts_only 20 18 2 90]"

definition SyncGetMetrics :: "time \<Rightarrow> string \<Rightarrow> SyncMetricsResult" where
  "SyncGetMetrics now granularity =
     \<lparr>MR_Summary = calculateSummaryMetrics,
      MR_TimeSeries = (if granularity \<noteq> [] then getTimeSeriesMetrics now else []), MR_ByConnector = getMetricsByConnector\<rparr>"

section \<open>Counters and rates\<close>

lemma metrics_key_inj:
  assumes "buildMetricsKey (Some ds) ct = buildMetricsKey (Some ds') ct'"
    and "CHR '':'' \<notin> set ds" and "CHR '':'' \<notin> set ds'"
  shows "ds = ds' \<and> ct = ct'"
proof -
  have "takeWhile (\<lambda>c. c \<noteq> CHR '':'') (d @ CHR '':'' # c) = d \<and> dropWhile (\<lambda>c. c \<noteq> CHR '':'') (d @ CHR '':'' # c) = CHR '':'' # c"
    if "CHR '':'' \<notin> set d" for d c
    using that by (induction d) auto
  then show ?thesis using assms unfolding buildMetricsKey_def by (metis append_Cons append_Nil list.inject option.case(2))
qed

lemma update_error_rate_simps [simp]:
  "RM_ActiveSyncs (update_error_rate m) = RM_ActiveSyncs m" "RM_CompletedSyncs (update_error_rate m) = RM_CompletedSyncs m"
  "RM_FailedSyncs (update_error_rate m) = RM_FailedSyncs m"
  by (simp_all add: update_error_rate_def Let_def)

lemma add_transfer_simps [simp]:
  "RM_ActiveSyncs (add_transfer jm m) = RM_ActiveSyncs m" "RM_CompletedSyncs (add_transfer jm m) = RM_CompletedSyncs m"
  "RM_FailedSyncs (add_transfer jm m) = RM_FailedSyncs m"
  by (simp_all add: add_transfer_def Let_def)

definition job_key :: "SyncJob \<Rightarrow> string" where
  "job_key job = buildMetricsKey (Some (SJ_DataSourceID job)) (SJ_ConnectorType job)"

definition active_at :: "SyncMetricsCollector \<Rightarrow> string \<Rightarrow> int" where
  "active_at smc key = (case MC_realtimeMetrics smc key of None \<Rightarrow> 0 | Some m \<Rightarrow> RM_ActiveSyncs m)"

lemma active_records:
  "active_at (RecordSyncStarted now job smc) k = active_at smc k + (if k = job_key job then 1 else 0)"
  "active_at (RecordSyncCompleted now job smc) k = active_at smc k - (if k = job_key job then 1 else 0)"
  "active_at (RecordSyncFailed now job smc) k = active_at smc k - (if k = job_key job then 1 else 0)"
  "active_at (RecordSyncCancelled now job smc) k = active_at smc k - (if k = job_key job then 1 else 0)"
  by (auto simp: active_at_def RecordSyncStarted_def RecordSyncCompleted_def RecordSyncFailed_def RecordSyncCancelled_def
      updateRealtimeMetrics_def job_key_def Let_def empty_metrics_def split: option.split)

text \<open>The events that change the counters, and a run of the collector.\<close>

datatype metrics_event = Started SyncJob | Completed SyncJob | Failed SyncJob | Cancelled SyncJob | Aggregated

fun apply_event :: "time \<times> metrics_event \<Rightarrow> SyncMetricsCollector \<Rightarrow> SyncMetricsCollector" where
  "apply_event (now, Started job) smc = RecordSyncStarted now job smc"
| "apply_event (now, Completed job) smc = RecordSyncCompleted now job smc"
| "apply_event (now, Failed job) smc = RecordSyncFailed now job smc"
| "apply_event (now, Cancelled job) smc = RecordSyncCancelled now job smc"
| "apply_event (now, Aggregated) smc = performAggregation now smc"

definition error_rate_of :: "int \<Rightarrow> int \<Rightarrow> float64" where
  "error_rate_of completed failed =
     (if completed + failed > 0
      then f64_mul (f64_div (f64_of_int failed) (f64_of_int (completed + failed))) 100 else 0)"

definition rates_current :: "SyncMetricsCollector \<Rightarrow> bool" where
  "rates_current smc \<longleftrightarrow> (\<forall>k m. MC_realtimeMetrics smc k = Some m \<longrightarrow>
     0 \<le> RM_CompletedSyncs m \<and> 0 \<le> RM_FailedSyncs m \<and> RM_ErrorRate m = error_rate_of (RM_CompletedSyncs m) (RM_FailedSyncs m))"

lemma rates_current_update:
  assumes "rates_current smc"
    and "\<And>m. 0 \<le> RM_CompletedSyncs m \<Longrightarrow> 0 \<le> RM_FailedSyncs m \<Longrightarrow> RM_ErrorRate m = error_rate_of (RM_CompletedSyncs m) (RM_FailedSyncs m)
      \<Longrightarrow> 0 \<le> RM_CompletedSyncs (f m) \<and> 0 \<le> RM_FailedSyncs (f m) \<and>
        RM_ErrorRate (f m) = error_rate_of (RM_CompletedSyncs (f m)) (RM_FailedSyncs (f m))"
  shows "rates_current (updateRealtimeMetrics now ds ct f smc)"
  using assms by (auto simp: rates_current_def updateRealtimeMetrics_def Let_def error_rate_of_def empty_metrics_def
      split: option.split)

lemma error_rate_updated:
  "RM_ErrorRate (update_error_rate m) =
     (if RM_CompletedSyncs m + RM_FailedSyncs m > 0 then error_rate_of (RM_CompletedSyncs m) (RM_FailedSyncs m) else RM_ErrorRate m)"
  by (simp add: update_error_rate_def error_rate_of_def Let_def)

lemma rates_current_event: "rates_current smc \<Longrightarrow> rates_current (apply_event e smc)"
proof (induction e smc rule: apply_event.induct)
  case (5 now smc)
  then show ?case by (auto simp: rates_current_def performAggregation_def Let_def split: option.splits if_splits)
qed (auto simp: RecordSyncStarted_def RecordSyncCompleted_def RecordSyncFailed_def RecordSyncCancelled_def error_rate_updated Let_def
    intro!: rates_current_update split: option.split)

lemma rates_current_run: "rates_current (fold apply_event es (NewSyncMetricsCollector days))"
proof -
  have "rates_current smc \<Longrightarrow> rates_current (fold apply_event es smc)" for smc
    by (induction es arbitrary: smc) (auto intro: rates_current_event)
  then show ?thesis by this (simp add: rates_current_def NewSyncMetricsCollector_def)
qed

lemma error_rate_in_range: "0 \<le> c \<Longrightarrow> 0 \<le> f \<Longrightarrow> 0 \<le> error_rate_of c f \<and> error_rate_of c f \<le> 100"
proof (cases "c + f > 0")
  case True
  assume c: "0 \<le> c" and f: "0 \<le> f"
  let ?d = "f64_of_int (c + f)" and ?n = "f64_of_int f"
  have n: "0 \<le> ?n" using f by (simp add: f64_of_int_def round64_nonneg)
  have le: "?n \<le> ?d" using c f by (auto simp: f64_of_int_def intro!: round64_mono)
  have "round64 1 \<le> ?d" unfolding f64_of_int_def using True by (intro round64_mono) auto
  then have d: "0 < ?d" by simp
  have q: "0 \<le> ?n / ?d" "?n / ?d \<le> 1" using n le d by (auto simp: divide_le_eq)
  have "0 \<le> f64_div ?n ?d \<and> f64_div ?n ?d \<le> 1" using round64_in_unit [OF q] by (simp add: f64_div_def)
  then have "0 \<le> f64_div ?n ?d * 100" "f64_div ?n ?d * 100 \<le> 100" by auto
  moreover have "round64 100 = 100" using round64_of_nat [of 100] by simp
  ultimately have "0 \<le> f64_mul (f64_div ?n ?d) 100 \<and> f64_mul (f64_div ?n ?d) 100 \<le> 100"
    unfolding f64_mul_def using round64_mono [of "f64_div ?n ?d * 100" 100] round64_nonneg [of "f64_div ?n ?d * 100"] by simp
  then show ?thesis using True by (simp add: error_rate_of_def)
qed (simp add: error_rate_of_def)

text \<open>Whatever jobs start, end or are cancelled, and whenever old counters are dropped, the error rate of a
  key is a percentage, and it is the one of its counters.\<close>

theorem error_rate_is_percentage:
  assumes "MC_realtimeMetrics (fold apply_event es (NewSyncMetricsCollector days)) key = Some m"
  shows "0 \<le> RM_ErrorRate m \<and> RM_ErrorRate m \<le> 100 \<and>
    RM_ErrorRate m = error_rate_of (RM_CompletedSyncs m) (RM_FailedSyncs m)"
  using rates_current_run [of es days] assms error_rate_in_range by (fastforce simp: rates_current_def)

definition sample_sync_job :: SyncJob where
  "sample_sync_job =
     \<lparr>SJ_ID = ''a'', SJ_DataSourceID = ''p'', SJ_ConnectorType = ''box'',
      SJ_Options = \<lparr>Opt_SyncType = ''full'', Opt_Direction = ''upload'', Opt_ConflictStrategy = [], Opt_Priority = 5,
        Opt_Filters = None, Opt_Performance = None, Opt_Retry = None, Opt_Notifications = None\<rparr>,
      SJ_Status = \<lparr>JS_JobID = ''a'', JS_State = ''failed'', JS_StartTime = 0, JS_EndTime = None, JS_Duration = 0,
        JS_LastActivity = 0, JS_Progress = None, JS_Error = [], JS_Metrics = None\<rparr>\<rparr>"

theorem error_rate_is_percentage_witness:
  "\<exists>m. MC_realtimeMetrics (fold apply_event [(1, Failed sample_sync_job)] (NewSyncMetricsCollector 30)) ''p:box'' = Some m \<and>
     RM_ErrorRate m \<le> 100 \<and> RM_FailedSyncs m = 1"
proof -
  obtain m where m: "MC_realtimeMetrics (fold apply_event [(1, Failed sample_sync_job)] (NewSyncMetricsCollector 30)) ''p:box'' = Some m"
    "RM_FailedSyncs m = 1"
    by (simp add: RecordSyncFailed_def updateRealtimeMetrics_def sample_sync_job_def buildMetricsKey_def
        NewSyncMetricsCollector_def empty_metrics_def)
  then show ?thesis using error_rate_is_percentage [OF m(1)] by blast
qed

end
