(* ===== verification/Sync_Orchestrator.thy ===== *)
theory Sync_Orchestrator imports Sync_Metrics begin

text \<open>
  The orchestrator of the synchronisation jobs (\<^verbatim>\<open>pkg/sync/orchestrator.go\<close>): the admission of a request, the
  goroutine that executes a job, its cancellation, and the counters kept beside it.

  \<open>StartSync\<close> holds the lock of the active jobs twice, to check the limits and to register the job, and other
  callers and goroutines run in between.  A caller is therefore idle, admitted (after the check), or
  about to record the start of the job it registered.  The goroutine of a job has a program counter.
  Jobs are shared by pointer and stand in a store under a reference.  The connector registry is a
  parameter: whether it has a connector.  The result of storing a job is ignored by the code, so
  storing has no effect here.
\<close>

section \<open>State\<close>

record ThrottleConfig =
  TC_RequestsPerSecond :: int
  TC_BurstLimit :: int
  TC_BackoffMultiplier :: float64
  TC_MaxBackoffDuration :: duration

record OrchestratorConfig =
  OC_MaxConcurrentSyncs :: int
  OC_DefaultSyncTimeout :: duration
  OC_JobRetentionDuration :: duration
  OC_MetricsRetentionDays :: int
  OC_EnableRealtimeSync :: bool
  OC_EnableCrossConnector :: bool
  OC_ThrottleLimits :: "ThrottleConfig option"

definition default_orchestrator_config :: OrchestratorConfig where
  "default_orchestrator_config =
     \<lparr>OC_MaxConcurrentSyncs = 10, OC_DefaultSyncTimeout = 3600 * 1000000000,
      OC_JobRetentionDuration = 7 * 24 * 3600 * 1000000000, OC_MetricsRetentionDays = 30, OC_EnableRealtimeSync = True,
      OC_EnableCrossConnector = False,
      OC_ThrottleLimits = Some \<lparr>TC_RequestsPerSecond = 10, TC_BurstLimit = 20, TC_BackoffMultiplier = 2,
        TC_MaxBackoffDuration = 5 * 60 * 1000000000\<rparr>\<rparr>"

datatype sync_error =
    ErrInvalidDataSourceID
  | ErrInvalidConnectorType
  | ErrInvalidSyncOptions
  | ErrMaxConcurrentSyncsExceeded
  | ErrSyncAlreadyInProgress
  | ErrConnectorUnavailable
  | ErrSyncJobNotFound

text \<open>Where the goroutine of a job is: before its first statement, before the \<open>n\<close>-th file, after the
  transfer with its error, after the final state is set, and after it is unregistered.\<close>

datatype job_pc = Spawned | Working nat | Finishing "string option" | Storing | Ended

type_synonym job_ref = nat

text \<open>\<open>JR_ctx\<close> is the error of the context of the job, once it is cancelled or its time is over.\<close>

record JobRun =
  JR_job :: SyncJob
  JR_ctx :: "string option"
  JR_pc :: job_pc

datatype caller = Idle | Admitted StartSyncRequest UnifiedSyncOptions | Unrecorded job_ref

record SyncOrchestrator =
  SO_config :: OrchestratorConfig
  SO_activeJobs :: "uuid \<rightharpoonup> job_ref"
  SO_jobs :: "job_ref \<rightharpoonup> JobRun"
  SO_metrics :: SyncMetricsCollector
  SO_callers :: "caller list"

text \<open>An orchestrator that \<open>n\<close> callers use at a time.\<close>

definition NewSyncOrchestrator :: "OrchestratorConfig option \<Rightarrow> nat \<Rightarrow> SyncOrchestrator" where
  "NewSyncOrchestrator config n =
     (let cfg = (case config of None \<Rightarrow> default_orchestrator_config | Some c \<Rightarrow> c)
      in \<lparr>SO_config = cfg, SO_activeJobs = Map.empty, SO_jobs = Map.empty,
          SO_metrics = NewSyncMetricsCollector (OC_MetricsRetentionDays cfg), SO_callers = replicate n Idle\<rparr>)"

abbreviation job_status :: "JobRun \<Rightarrow> SyncJobStatus" where
  "job_status r \<equiv> SJ_Status (JR_job r)"

abbreviation job_state :: "JobRun \<Rightarrow> string" where
  "job_state r \<equiv> JS_State (job_status r)"

definition map_status :: "(SyncJobStatus \<Rightarrow> SyncJobStatus) \<Rightarrow> JobRun \<Rightarrow> JobRun" where
  "map_status f r = r\<lparr>JR_job := (JR_job r)\<lparr>SJ_Status := f (job_status r)\<rparr>\<rparr>"

definition map_progress :: "(SyncProgress \<Rightarrow> SyncProgress) \<Rightarrow> SyncJobStatus \<Rightarrow> SyncJobStatus" where
  "map_progress f st = st\<lparr>JS_Progress := map_option f (JS_Progress st)\<rparr>"

section \<open>Starting a job\<close>

text \<open>The missing type and direction of the options are filled in.\<close>

definition validateSyncRequest :: "StartSyncRequest \<Rightarrow> (sync_error, UnifiedSyncOptions) outcome" where
  "validateSyncRequest request =
     (if SReq_DataSourceID request = nil_uuid then Err ErrInvalidDataSourceID
      else if SReq_ConnectorType request = [] then Err ErrInvalidConnectorType
      else case SReq_Options request of
        None \<Rightarrow> Err ErrInvalidSyncOptions
      | Some opts \<Rightarrow>
          (let opts1 = (if Opt_SyncType opts = [] then opts\<lparr>Opt_SyncType := SyncTypeFull\<rparr> else opts);
               opts2 = (if Opt_Direction opts1 = [] then opts1\<lparr>Opt_Direction := SyncDirectionBidirectional\<rparr> else opts1)
           in Ok opts2))"

definition checkConcurrencyLimits :: "SyncOrchestrator \<Rightarrow> uuid \<Rightarrow> sync_error option" where
  "checkConcurrencyLimits o' dataSourceID =
     (if int (card (dom (SO_activeJobs o'))) \<ge> OC_MaxConcurrentSyncs (SO_config o') then Some ErrMaxConcurrentSyncsExceeded
      else if \<exists>ref \<in> ran (SO_activeJobs o'). \<exists>r \<in> set_option (SO_jobs o' ref).
        SJ_DataSourceID (JR_job r) = dataSourceID \<and> job_state r \<noteq> SyncStateCompleted \<and> job_state r \<noteq> SyncStateFailed
      then Some ErrSyncAlreadyInProgress else None)"

text \<open>The first part of \<open>StartSync\<close>: it reads the options for the trace before it validates the request.\<close>

definition admit_sync ::
  "(string \<Rightarrow> bool) \<Rightarrow> StartSyncRequest \<Rightarrow> SyncOrchestrator \<Rightarrow> (sync_error, UnifiedSyncOptions) outcome" where
  "admit_sync has_connector request o' =
     (case SReq_Options request of
        None \<Rightarrow> Panic
      | Some _ \<Rightarrow>
          bind_outcome (validateSyncRequest request)
            (\<lambda>opts. case checkConcurrencyLimits o' (SReq_DataSourceID request) of
                Some e \<Rightarrow> Err e
              | None \<Rightarrow> if has_connector (SReq_ConnectorType request) then Ok opts else Err ErrConnectorUnavailable))"

definition no_progress :: SyncProgress where
  "no_progress =
     \<lparr>Prog_TotalFiles = 0, Prog_ProcessedFiles = 0, Prog_FailedFiles = 0, Prog_SkippedFiles = 0, Prog_PercentComplete = 0,
      Prog_BytesTransferred = 0, Prog_TotalBytes = 0, Prog_CurrentFile = [], Prog_EstimatedETA = None, Prog_TransferRate = 0\<rparr>"

definition createSyncJob :: "uuid \<Rightarrow> time \<Rightarrow> StartSyncRequest \<Rightarrow> UnifiedSyncOptions \<Rightarrow> SyncJob" where
  "createSyncJob new_id now request opts =
     \<lparr>SJ_ID = new_id, SJ_DataSourceID = SReq_DataSourceID request, SJ_ConnectorType = SReq_ConnectorType request,
      SJ_Options = opts,
      SJ_Status = \<lparr>JS_JobID = new_id, JS_State = SyncStatePending, JS_StartTime = now, JS_EndTime = None, JS_Duration = 0,
        JS_LastActivity = 0, JS_Progress = Some no_progress, JS_Error = [], JS_Metrics = None\<rparr>\<rparr>"

text \<open>The second part: the job is registered and its goroutine exists.\<close>

definition register_sync ::
  "uuid \<Rightarrow> job_ref \<Rightarrow> time \<Rightarrow> StartSyncRequest \<Rightarrow> UnifiedSyncOptions \<Rightarrow> SyncOrchestrator \<Rightarrow> SyncOrchestrator" where
  "register_sync new_id ref now request opts o' =
     o'\<lparr>SO_jobs := (SO_jobs o')(ref \<mapsto> \<lparr>JR_job = createSyncJob new_id now request opts, JR_ctx = None, JR_pc = Spawned\<rparr>),
        SO_activeJobs := (SO_activeJobs o')(new_id \<mapsto> ref)\<rparr>"

text \<open>The third part.\<close>

definition record_start :: "time \<Rightarrow> job_ref \<Rightarrow> SyncOrchestrator \<Rightarrow> SyncOrchestrator" where
  "record_start now ref o' =
     (case SO_jobs o' ref of
        None \<Rightarrow> o' | Some r \<Rightarrow> o'\<lparr>SO_metrics := RecordSyncStarted now (JR_job r) (SO_metrics o')\<rparr>)"

definition StartSync :: "(string \<Rightarrow> bool) \<Rightarrow> uuid \<Rightarrow> job_ref \<Rightarrow> time \<Rightarrow> StartSyncRequest \<Rightarrow> SyncOrchestrator \<Rightarrow>
    SyncOrchestrator \<times> (sync_error, job_ref) outcome" where
  "StartSync has_connector new_id ref now request o' =
     (case admit_sync has_connector request o' of
        Panic \<Rightarrow> (o', Panic)
      | Err e \<Rightarrow> (o', Err e)
      | Ok opts \<Rightarrow> (record_start now ref (register_sync new_id ref now request opts o'), Ok ref))"

section \<open>The goroutine of a job\<close>

definition total_sync_files :: nat where "total_sync_files = 100"

definition job_begin :: "time \<Rightarrow> OrchestratorConfig \<Rightarrow> JobRun \<Rightarrow> JobRun" where
  "job_begin now cfg r =
     (let r' = map_status (updateState now SyncStateRunning) r;
          ty = Opt_SyncType (SJ_Options (JR_job r));
          full = (map_status (map_progress (\<lambda>p. p\<lparr>Prog_TotalFiles := int total_sync_files\<rparr>)) r')\<lparr>JR_pc := Working 0\<rparr>
      in if ty = SyncTypeFull then full
         else if ty = SyncTypeIncremental then full
         else if ty = SyncTypeRealtime
              then (if OC_EnableRealtimeSync cfg then full
                    else r'\<lparr>JR_pc := Finishing (Some ''real-time sync is disabled'')\<rparr>)
         else r'\<lparr>JR_pc := Finishing (Some (''unsupported sync type: '' @ ty))\<rparr>)"

definition percent_of :: "nat \<Rightarrow> float64" where
  "percent_of i = f64_mul (f64_div (f64_of_int (int i)) (f64_of_int (int total_sync_files))) 100"

definition job_work :: "time \<Rightarrow> nat \<Rightarrow> JobRun \<Rightarrow> JobRun" where
  "job_work now i r =
     (if i \<ge> total_sync_files then r\<lparr>JR_pc := Finishing None\<rparr>
      else case JR_ctx r of
        Some e \<Rightarrow> r\<lparr>JR_pc := Finishing (Some e)\<rparr>
      | None \<Rightarrow>
          (map_status (\<lambda>st. (map_progress (\<lambda>p. p\<lparr>Prog_ProcessedFiles := int (Suc i),
             Prog_PercentComplete := percent_of (Suc i)\<rparr>) st)\<lparr>JS_LastActivity := now\<rparr>) r)\<lparr>JR_pc := Working (Suc i)\<rparr>)"

definition job_finish :: "time \<Rightarrow> string option \<Rightarrow> JobRun \<Rightarrow> JobRun" where
  "job_finish now err r =
     (case err of
        Some e \<Rightarrow> (map_status (\<lambda>st. (updateState now SyncStateFailed st)\<lparr>JS_Error := e\<rparr>) r)\<lparr>JR_pc := Storing\<rparr>
      | None \<Rightarrow> (map_status (updateState now SyncStateCompleted) r)\<lparr>JR_pc := Storing\<rparr>)"

text \<open>The next step of \<open>executeSyncJob\<close>.\<close>

definition executeSyncJob :: "time \<Rightarrow> job_ref \<Rightarrow> SyncOrchestrator \<Rightarrow> SyncOrchestrator" where
  "executeSyncJob now ref o' =
     (case SO_jobs o' ref of
        None \<Rightarrow> o'
      | Some r \<Rightarrow>
          (case JR_pc r of
             Spawned \<Rightarrow> o'\<lparr>SO_jobs := (SO_jobs o')(ref \<mapsto> job_begin now (SO_config o') r)\<rparr>
           | Working i \<Rightarrow> o'\<lparr>SO_jobs := (SO_jobs o')(ref \<mapsto> job_work now i r)\<rparr>
           | Finishing err \<Rightarrow>
               (let r' = job_finish now err r
                in o'\<lparr>SO_jobs := (SO_jobs o')(ref \<mapsto> r'),
                      SO_metrics := (case err of
                          Some _ \<Rightarrow> RecordSyncFailed now (JR_job r') (SO_metrics o')
                        | None \<Rightarrow> RecordSyncCompleted now (JR_job r') (SO_metrics o'))\<rparr>)
           | Storing \<Rightarrow>
               o'\<lparr>SO_jobs := (SO_jobs o')(ref \<mapsto> r\<lparr>JR_pc := Ended\<rparr>),
                  SO_activeJobs := (SO_activeJobs o')(SJ_ID (JR_job r) := None)\<rparr>
           | Ended \<Rightarrow> o'))"

text \<open>The context of a job ends with the first of its cancellation and its timeout.\<close>

definition end_context :: "string \<Rightarrow> JobRun \<Rightarrow> JobRun" where
  "end_context e r = (case JR_ctx r of None \<Rightarrow> r\<lparr>JR_ctx := Some e\<rparr> | Some _ \<Rightarrow> r)"

definition time_out :: "job_ref \<Rightarrow> SyncOrchestrator \<Rightarrow> SyncOrchestrator" where
  "time_out ref o' =
     o'\<lparr>SO_jobs := (SO_jobs o')(ref := map_option (end_context ''context deadline exceeded'') (SO_jobs o' ref))\<rparr>"

definition Cancel :: "time \<Rightarrow> job_ref \<Rightarrow> SyncOrchestrator \<Rightarrow> SyncOrchestrator" where
  "Cancel now ref o' =
     o'\<lparr>SO_jobs := (SO_jobs o')(ref := map_option
       (\<lambda>r. map_status (updateState now SyncStateCancelled) (end_context ''context canceled'' r)) (SO_jobs o' ref))\<rparr>"

definition record_cancel :: "time \<Rightarrow> job_ref \<Rightarrow> SyncOrchestrator \<Rightarrow> SyncOrchestrator" where
  "record_cancel now ref o' =
     (case SO_jobs o' ref of
        None \<Rightarrow> o' | Some r \<Rightarrow> o'\<lparr>SO_metrics := RecordSyncCancelled now (JR_job r) (SO_metrics o')\<rparr>)"

definition CancelSync :: "time \<Rightarrow> uuid \<Rightarrow> SyncOrchestrator \<Rightarrow> SyncOrchestrator \<times> sync_error option" where
  "CancelSync now jobID o' =
     (case SO_activeJobs o' jobID of
        None \<Rightarrow> (o', Some ErrSyncJobNotFound)
      | Some ref \<Rightarrow> (record_cancel now ref (Cancel now ref o'), None))"

section \<open>Queries\<close>

definition matchesFilters :: "SyncJob \<Rightarrow> SyncListFilters \<Rightarrow> bool" where
  "matchesFilters job filters \<longleftrightarrow>
     \<not> (SLF_DataSourceID filters \<noteq> nil_uuid \<and> SJ_DataSourceID job \<noteq> SLF_DataSourceID filters) \<and>
     \<not> (SLF_ConnectorType filters \<noteq> [] \<and> SJ_ConnectorType job \<noteq> SLF_ConnectorType filters) \<and>
     (SLF_States filters = [] \<or> JS_State (SJ_Status job) \<in> set (SLF_States filters))"

definition ListActiveSyncs :: "uuid list \<Rightarrow> SyncOrchestrator \<Rightarrow> SyncListFilters option \<Rightarrow> SyncJob list" where
  "ListActiveSyncs order o' filters =
     filter (\<lambda>job. case filters of None \<Rightarrow> True | Some f \<Rightarrow> matchesFilters job f)
       (map (\<lambda>ref. JR_job (the (SO_jobs o' ref))) (List.map_filter (SO_activeJobs o') order))"

text \<open>The status of a job that is not active comes from the database, \<open>stored\<close>.\<close>

definition GetSyncStatus :: "(uuid \<Rightarrow> (sync_error, SyncJobStatus) outcome) \<Rightarrow> time \<Rightarrow> uuid \<Rightarrow> SyncOrchestrator \<Rightarrow>
    SyncOrchestrator \<times> (sync_error, SyncJobStatus) outcome" where
  "GetSyncStatus stored now jobID o' =
     (case SO_activeJobs o' jobID of
        None \<Rightarrow> (o', stored jobID)
      | Some ref \<Rightarrow>
          (case SO_jobs o' ref of
             None \<Rightarrow> (o', Panic)
           | Some r \<Rightarrow> (o'\<lparr>SO_jobs := (SO_jobs o')(ref \<mapsto> map_status (GetStatus now) r)\<rparr>, Ok (GetStatus now (job_status r)))))"

text \<open>The part of \<open>Shutdown\<close> that cancels the active jobs, in the order \<open>order\<close> of the map.\<close>

definition cancel_active :: "time \<Rightarrow> uuid list \<Rightarrow> SyncOrchestrator \<Rightarrow> SyncOrchestrator" where
  "cancel_active now order o' = fold (Cancel now) (List.map_filter (SO_activeJobs o') order) o'"

section \<open>Runs\<close>

text \<open>The label of a step tells the events that the counters of the collector depend on.\<close>

datatype sync_event = Cancellation string | Aggregation | Other_event

text \<open>A cancellation may come at any time through the pointer of a job, as the coordinator does it;
  \<open>CancelSync\<close> is a cancellation followed by its recording.\<close>

inductive sync_step :: "(string \<Rightarrow> bool) \<Rightarrow> sync_event \<Rightarrow> SyncOrchestrator \<Rightarrow> SyncOrchestrator \<Rightarrow> bool"
  for has_connector where
  admit: "i < length (SO_callers s) \<Longrightarrow> SO_callers s ! i = Idle \<Longrightarrow> admit_sync has_connector request s = Ok opts \<Longrightarrow>
    sync_step has_connector Other_event s (s\<lparr>SO_callers := (SO_callers s)[i := Admitted request opts]\<rparr>)"
| register: "i < length (SO_callers s) \<Longrightarrow> SO_callers s ! i = Admitted request opts \<Longrightarrow> SO_jobs s ref = None \<Longrightarrow>
    \<forall>r \<in> ran (SO_jobs s). SJ_ID (JR_job r) \<noteq> new_id \<Longrightarrow>
    sync_step has_connector Other_event s
      ((register_sync new_id ref now request opts s)\<lparr>SO_callers := (SO_callers s)[i := Unrecorded ref]\<rparr>)"
| record_step: "i < length (SO_callers s) \<Longrightarrow> SO_callers s ! i = Unrecorded ref \<Longrightarrow>
    sync_step has_connector Other_event s ((record_start now ref s)\<lparr>SO_callers := (SO_callers s)[i := Idle]\<rparr>)"
| execute: "sync_step has_connector Other_event s (executeSyncJob now ref s)"
| timeout: "sync_step has_connector Other_event s (time_out ref s)"
| cancel: "sync_step has_connector Other_event s (Cancel now ref s)"
| recorded_cancel: "SO_jobs s ref = Some r \<Longrightarrow>
    sync_step has_connector (Cancellation (job_key (JR_job r))) s (record_cancel now ref s)"
| status: "sync_step has_connector Other_event s (fst (GetSyncStatus stored now jobID s))"
| aggregate: "sync_step has_connector Aggregation s (s\<lparr>SO_metrics := performAggregation now (SO_metrics s)\<rparr>)"

inductive sync_run :: "(string \<Rightarrow> bool) \<Rightarrow> SyncOrchestrator \<Rightarrow> sync_event list \<Rightarrow> SyncOrchestrator \<Rightarrow> bool"
  for has_connector s where
  start: "sync_run has_connector s [] s"
| then_step: "sync_run has_connector s es t \<Longrightarrow> sync_step has_connector e t u \<Longrightarrow> sync_run has_connector s (es @ [e]) u"

section \<open>The invariant of a job\<close>

definition finished_state :: "string \<Rightarrow> bool" where
  "finished_state st \<longleftrightarrow> st = SyncStateCompleted \<or> st = SyncStateFailed"

definition transferred :: "JobRun \<Rightarrow> nat \<Rightarrow> nat \<Rightarrow> bool" where
  "transferred r n i \<longleftrightarrow> (\<exists>p. JS_Progress (job_status r) = Some p \<and> Prog_TotalFiles p = int n \<and> Prog_ProcessedFiles p = int i \<and>
     Prog_PercentComplete p = percent_of i)"

definition job_ok :: "JobRun \<Rightarrow> bool" where
  "job_ok r \<longleftrightarrow>
     (case JR_pc r of
        Spawned \<Rightarrow> transferred r 0 0
      | Working i \<Rightarrow> i \<le> total_sync_files \<and> transferred r total_sync_files i
      | Finishing None \<Rightarrow> transferred r total_sync_files total_sync_files
      | Finishing (Some _) \<Rightarrow> \<exists>n i. i \<le> n \<and> transferred r n i
      | _ \<Rightarrow> (\<exists>n i. i \<le> n \<and> transferred r n i) \<and> JS_EndTime (job_status r) \<noteq> None \<and>
          (finished_state (job_state r) \<or> job_state r = SyncStateCancelled)) \<and>
     (finished_state (job_state r) \<longrightarrow> JR_pc r = Storing \<or> JR_pc r = Ended) \<and>
     (job_state r = SyncStateCompleted \<longrightarrow> transferred r total_sync_files total_sync_files)"

lemma map_status_simps [simp]:
  "job_status (map_status f r) = f (job_status r)" "JR_pc (map_status f r) = JR_pc r" "JR_ctx (map_status f r) = JR_ctx r"
  "SJ_ID (JR_job (map_status f r)) = SJ_ID (JR_job r)" "SJ_Options (JR_job (map_status f r)) = SJ_Options (JR_job r)"
  "SJ_DataSourceID (JR_job (map_status f r)) = SJ_DataSourceID (JR_job r)" "job_key (JR_job (map_status f r)) = job_key (JR_job r)"
  by (simp_all add: map_status_def job_key_def)

lemma map_progress_simps [simp]:
  "JS_State (map_progress f st) = JS_State st" "JS_EndTime (map_progress f st) = JS_EndTime st"
  "JS_Progress (map_progress f st) = map_option f (JS_Progress st)"
  by (simp_all add: map_progress_def)

lemma percent_of_0 [simp]: "percent_of 0 = 0"
  by (simp add: percent_of_def f64_of_int_def f64_div_def f64_mul_def)

text \<open>What the steps of a job leave as it is.\<close>

definition same_job :: "JobRun \<Rightarrow> JobRun \<Rightarrow> bool" where
  "same_job r r' \<longleftrightarrow> SJ_ID (JR_job r') = SJ_ID (JR_job r) \<and> SJ_DataSourceID (JR_job r') = SJ_DataSourceID (JR_job r) \<and>
     job_key (JR_job r') = job_key (JR_job r) \<and> SJ_Options (JR_job r') = SJ_Options (JR_job r)"

lemma same_job_refl [simp]: "same_job r r"
  by (simp add: same_job_def)

lemma same_job_steps [simp]:
  "same_job r (job_begin now cfg r)" "same_job r (job_work now i r)" "same_job r (job_finish now err r)"
  "same_job r (map_status f r)" "same_job r (end_context e r)" "same_job r (map_status f (end_context e r))"
  "same_job r (r\<lparr>JR_pc := pc\<rparr>)"
  by (simp_all add: same_job_def job_begin_def job_work_def job_finish_def end_context_def Let_def job_key_def map_status_def
      split: option.split)

lemma job_ok_created: "job_ok \<lparr>JR_job = createSyncJob new_id now request opts, JR_ctx = None, JR_pc = Spawned\<rparr>"
  by (simp add: job_ok_def createSyncJob_def transferred_def no_progress_def finished_state_def)

lemma job_ok_begin: "job_ok r \<Longrightarrow> JR_pc r = Spawned \<Longrightarrow> job_ok (job_begin now cfg r)"
  by (auto simp: job_ok_def job_begin_def Let_def transferred_def finished_state_def total_sync_files_def)

lemma job_ok_work: "job_ok r \<Longrightarrow> JR_pc r = Working i \<Longrightarrow> job_ok (job_work now i r)"
  by (auto simp: job_ok_def job_work_def transferred_def finished_state_def split: option.split)

lemma job_ok_finish: "job_ok r \<Longrightarrow> JR_pc r = Finishing err \<Longrightarrow> job_ok (job_finish now err r)"
  by (auto simp: job_ok_def job_finish_def transferred_def finished_state_def updateState_def split: option.splits)

lemma job_ok_end: "job_ok r \<Longrightarrow> JR_pc r = Storing \<Longrightarrow> job_ok (r\<lparr>JR_pc := Ended\<rparr>)"
  by (simp add: job_ok_def transferred_def)

lemma job_ok_cancel: "job_ok r \<Longrightarrow> job_ok (map_status (updateState now SyncStateCancelled) r)"
  by (auto simp: job_ok_def transferred_def finished_state_def split: job_pc.splits option.splits)

lemma job_ok_context: "job_ok r \<Longrightarrow> job_ok (end_context e r)"
  by (auto simp: job_ok_def end_context_def transferred_def split: job_pc.splits option.splits)

lemma job_ok_status: "job_ok r \<Longrightarrow> job_ok (map_status (GetStatus now) r)"
  by (auto simp: job_ok_def transferred_def GetStatus_def Let_def split: job_pc.splits option.splits)

section \<open>The invariant of the orchestrator\<close>

definition sync_inv :: "SyncOrchestrator \<Rightarrow> bool" where
  "sync_inv s \<longleftrightarrow>
     finite (dom (SO_jobs s)) \<and>
     (\<forall>ref r. SO_jobs s ref = Some r \<longrightarrow> job_ok r) \<and>
     (\<forall>ref r ref' r'. SO_jobs s ref = Some r \<longrightarrow> SO_jobs s ref' = Some r' \<longrightarrow> SJ_ID (JR_job r) = SJ_ID (JR_job r') \<longrightarrow> ref = ref') \<and>
     (\<forall>id ref. SO_activeJobs s id = Some ref \<longleftrightarrow> (\<exists>r. SO_jobs s ref = Some r \<and> SJ_ID (JR_job r) = id \<and> JR_pc r \<noteq> Ended)) \<and>
     (\<forall>ref. Unrecorded ref \<in> set (SO_callers s) \<longrightarrow> SO_jobs s ref \<noteq> None)"

lemma sync_invD:
  assumes "sync_inv s"
  shows "SO_jobs s ref = Some r \<Longrightarrow> job_ok r"
    and "SO_jobs s ref = Some r \<Longrightarrow> SO_jobs s ref' = Some r' \<Longrightarrow> SJ_ID (JR_job r) = SJ_ID (JR_job r') \<Longrightarrow> ref = ref'"
    and "SO_activeJobs s jid = Some ref \<longleftrightarrow> (\<exists>r. SO_jobs s ref = Some r \<and> SJ_ID (JR_job r) = jid \<and> JR_pc r \<noteq> Ended)"
    and "Unrecorded ref \<in> set (SO_callers s) \<Longrightarrow> SO_jobs s ref \<noteq> None"
    and "finite (dom (SO_jobs s))"
  using assms unfolding sync_inv_def by blast+

lemma sync_inv_new: "sync_inv (NewSyncOrchestrator config n)"
  by (auto simp: sync_inv_def NewSyncOrchestrator_def Let_def)

text \<open>A step of one job that keeps the job active, and one that ends it.\<close>

lemma sync_inv_job:
  assumes inv: "sync_inv s" and r: "SO_jobs s ref = Some r" and same: "same_job r r'" and ok: "job_ok r'"
    and pc: "JR_pc r' = Ended \<longleftrightarrow> JR_pc r = Ended"
    and s': "SO_jobs s' = (SO_jobs s)(ref \<mapsto> r')" "SO_activeJobs s' = SO_activeJobs s" "SO_callers s' = SO_callers s"
  shows "sync_inv s'"
  using inv r same ok pc unfolding sync_inv_def s' same_job_def by (auto split: if_splits)

lemma sync_inv_callers:
  assumes "sync_inv s" and "\<And>ref. Unrecorded ref \<in> set cs \<Longrightarrow> SO_jobs s ref \<noteq> None"
  shows "sync_inv (s\<lparr>SO_callers := cs\<rparr>)"
  using assms by (simp add: sync_inv_def)

lemma sync_inv_metrics: "sync_inv (s\<lparr>SO_metrics := m\<rparr>) = sync_inv s"
  by (simp add: sync_inv_def)

lemma set_list_update: "x \<in> set (xs[i := y]) \<Longrightarrow> x \<in> set xs \<or> x = y"
  using set_update_subset_insert [of xs i y] by auto

lemma sync_inv_register:
  assumes inv: "sync_inv s" and fresh: "SO_jobs s ref = None" "\<forall>r \<in> ran (SO_jobs s). SJ_ID (JR_job r) \<noteq> new_id"
  shows "sync_inv ((register_sync new_id ref now request opts s)\<lparr>SO_callers := (SO_callers s)[i := Unrecorded ref]\<rparr>)"
proof -
  have id: "SJ_ID (JR_job r) \<noteq> new_id" if "SO_jobs s x = Some r" for x r
    using fresh(2) that by (auto simp: ran_def)
  have new: "SJ_ID (createSyncJob new_id now request opts) = new_id" by (simp add: createSyncJob_def)
  have act: "SO_activeJobs s x = Some y \<longleftrightarrow> (\<exists>r. SO_jobs s y = Some r \<and> SJ_ID (JR_job r) = x \<and> JR_pc r \<noteq> Ended)" for x y
    by (rule sync_invD(3) [OF inv])
  let ?s = "(register_sync new_id ref now request opts s)\<lparr>SO_callers := (SO_callers s)[i := Unrecorded ref]\<rparr>"
  have jobs: "SO_jobs ?s = (SO_jobs s)(ref \<mapsto> \<lparr>JR_job = createSyncJob new_id now request opts, JR_ctx = None, JR_pc = Spawned\<rparr>)"
    by (simp add: register_sync_def)
  have unique: "x = y" if "SO_jobs ?s x = Some r" "SO_jobs ?s y = Some r'" "SJ_ID (JR_job r) = SJ_ID (JR_job r')" for x y r r'
  proof (cases "x = ref"; cases "y = ref")
    assume "x = ref" "y \<noteq> ref"
    then show ?thesis using that new id [of y r'] by (auto simp: jobs)
  next
    assume "x \<noteq> ref" "y = ref"
    then show ?thesis using that new id [of x r] by (auto simp: jobs)
  next
    assume "x \<noteq> ref" "y \<noteq> ref"
    then show ?thesis using that sync_invD(2) [OF inv] by (simp add: jobs)
  qed simp
  show ?thesis
    unfolding sync_inv_def
  proof (intro conjI allI impI)
    fix x r y r'
    assume "SO_jobs ?s x = Some r" "SO_jobs ?s y = Some r'" "SJ_ID (JR_job r) = SJ_ID (JR_job r')"
    then show "x = y" by (rule unique)
  next
    fix x y
    show "(SO_activeJobs ((register_sync new_id ref now request opts s)\<lparr>SO_callers := (SO_callers s)[i := Unrecorded ref]\<rparr>) x = Some y) =
       (\<exists>r. SO_jobs ((register_sync new_id ref now request opts s)\<lparr>SO_callers := (SO_callers s)[i := Unrecorded ref]\<rparr>) y = Some r \<and>
         SJ_ID (JR_job r) = x \<and> JR_pc r \<noteq> Ended)"
      using id fresh(1) new act by (auto simp: register_sync_def)
  qed (use inv fresh(1) id new in \<open>auto simp: sync_inv_def register_sync_def job_ok_created split: if_splits dest!: set_list_update\<close>)
qed

lemma sync_inv_execute: "sync_inv s \<Longrightarrow> sync_inv (executeSyncJob now ref s)"
proof (cases "SO_jobs s ref")
  case (Some r)
  assume inv: "sync_inv s"
  have ok: "job_ok r" by (rule sync_invD(1) [OF inv Some])
  show ?thesis
  proof (cases "JR_pc r")
    case Spawned
    have "JR_pc (job_begin now (SO_config s) r) \<noteq> Ended" by (simp add: job_begin_def Let_def)
    then show ?thesis using sync_inv_job [OF inv Some, of "job_begin now (SO_config s) r"] job_ok_begin [OF ok Spawned] Spawned Some
      by (simp add: executeSyncJob_def)
  next
    case (Working i)
    have "JR_pc (job_work now i r) \<noteq> Ended" by (simp add: job_work_def split: option.split)
    then show ?thesis using sync_inv_job [OF inv Some, of "job_work now i r"] job_ok_work [OF ok Working] Working Some
      by (simp add: executeSyncJob_def)
  next
    case (Finishing err)
    have "JR_pc (job_finish now err r) \<noteq> Ended" by (simp add: job_finish_def split: option.split)
    then show ?thesis using sync_inv_job [OF inv Some, of "job_finish now err r"] job_ok_finish [OF ok Finishing] Finishing Some
      by (simp add: executeSyncJob_def Let_def)
  next
    case Storing
    have "sync_inv (s\<lparr>SO_jobs := (SO_jobs s)(ref \<mapsto> r\<lparr>JR_pc := Ended\<rparr>),
        SO_activeJobs := (SO_activeJobs s)(SJ_ID (JR_job r) := None)\<rparr>)"
      using inv Some job_ok_end [OF ok Storing] unfolding sync_inv_def by (auto split: if_splits)
    then show ?thesis using Storing Some by (simp add: executeSyncJob_def)
  next
    case Ended
    then show ?thesis using inv Some by (simp add: executeSyncJob_def)
  qed
qed (simp add: executeSyncJob_def)

lemma sync_inv_change:
  assumes "sync_inv s" and "\<And>r. job_ok r \<Longrightarrow> job_ok (f r)" and "\<And>r. same_job r (f r)" and "\<And>r. JR_pc (f r) = JR_pc r"
  shows "sync_inv (s\<lparr>SO_jobs := (SO_jobs s)(ref := map_option f (SO_jobs s ref))\<rparr>)"
proof (cases "SO_jobs s ref")
  case None
  then have "(SO_jobs s)(ref := None) = SO_jobs s" by auto
  then show ?thesis using None assms(1) by simp
next
  case (Some r)
  then show ?thesis using sync_inv_job [OF assms(1) Some, of "f r"] assms sync_invD(1) [OF assms(1) Some] by simp
qed

lemma job_changes:
  "time_out ref s = s\<lparr>SO_jobs := (SO_jobs s)(ref := map_option (end_context ''context deadline exceeded'') (SO_jobs s ref))\<rparr>"
  "Cancel now ref s = s\<lparr>SO_jobs := (SO_jobs s)(ref := map_option
     (map_status (updateState now SyncStateCancelled) \<circ> end_context ''context canceled'') (SO_jobs s ref))\<rparr>"
  "fst (GetSyncStatus stored now jobID s) = (case SO_activeJobs s jobID of None \<Rightarrow> s
     | Some ref \<Rightarrow> s\<lparr>SO_jobs := (SO_jobs s)(ref := map_option (map_status (GetStatus now)) (SO_jobs s ref))\<rparr>)"
  by (auto simp: time_out_def Cancel_def GetSyncStatus_def comp_def fun_upd_idem split: option.split)

lemma end_context_pc [simp]: "JR_pc (end_context e r) = JR_pc r" "job_status (end_context e r) = job_status r"
  by (simp_all add: end_context_def split: option.split)

lemma sync_inv_step: "sync_step has_connector e s s' \<Longrightarrow> sync_inv s \<Longrightarrow> sync_inv s'"
proof (induction rule: sync_step.induct)
  case (admit i s request opts)
  then show ?case using sync_invD(4) by (intro sync_inv_callers) (auto dest!: set_list_update)
next
  case (register i s request opts ref new_id now)
  then show ?case by (intro sync_inv_register)
next
  case (record_step i s ref now)
  have "sync_inv (s\<lparr>SO_callers := (SO_callers s)[i := Idle]\<rparr>)"
    using record_step sync_invD(4) by (intro sync_inv_callers) (auto dest!: set_list_update)
  then show ?case by (simp add: record_start_def sync_inv_def split: option.split)
next
  case (execute s now ref)
  then show ?case by (rule sync_inv_execute)
next
  case (timeout s ref)
  then show ?case unfolding job_changes by (rule sync_inv_change) (simp_all add: job_ok_context)
next
  case (cancel s now ref)
  then show ?case unfolding job_changes by (rule sync_inv_change) (simp_all add: job_ok_context job_ok_cancel [simplified])
next
  case (recorded_cancel s ref r now)
  then show ?case by (simp add: record_cancel_def sync_inv_metrics)
next
  case (status s stored now jobID)
  then show ?case unfolding job_changes
    by (cases "SO_activeJobs s jobID") (auto intro!: sync_inv_change simp: job_ok_status)
next
  case (aggregate s now)
  then show ?case by (simp add: sync_inv_metrics)
qed

lemma sync_inv_run: "sync_run has_connector s es s' \<Longrightarrow> sync_inv s \<Longrightarrow> sync_inv s'"
  by (induction rule: sync_run.induct) (auto intro: sync_inv_step)

section \<open>Limits\<close>

definition is_admitted :: "caller \<Rightarrow> bool" where
  "is_admitted c \<longleftrightarrow> (\<exists>request opts. c = Admitted request opts)"

definition admitted :: "SyncOrchestrator \<Rightarrow> int" where
  "admitted s = int (length (filter is_admitted (SO_callers s)))"

lemma filter_update:
  "i < length xs \<Longrightarrow>
     int (length (filter P (xs[i := y]))) = int (length (filter P xs)) - of_bool (P (xs ! i)) + of_bool (P y)"
proof (induction xs arbitrary: i)
  case (Cons x xs)
  then show ?case by (cases i) auto
qed simp

lemma admitted_update:
  "i < length (SO_callers s) \<Longrightarrow> admitted (s'\<lparr>SO_callers := (SO_callers s)[i := c]\<rparr>) =
     admitted s - of_bool (is_admitted (SO_callers s ! i)) + of_bool (is_admitted c)"
  by (simp add: admitted_def filter_update)

lemma admitted_le: "admitted s \<le> int (length (SO_callers s))"
  by (simp add: admitted_def)

lemma is_admitted_simps [simp]: "is_admitted (Admitted rq opts)" "\<not> is_admitted Idle" "\<not> is_admitted (Unrecorded ref)"
  by (simp_all add: is_admitted_def)

definition jobs_active :: "SyncOrchestrator \<Rightarrow> int" where
  "jobs_active s = int (card (dom (SO_activeJobs s)))"

lemma finite_active: "sync_inv s \<Longrightarrow> finite (dom (SO_activeJobs s))"
proof -
  assume inv: "sync_inv s"
  have "dom (SO_activeJobs s) \<subseteq> (\<lambda>ref. SJ_ID (JR_job (the (SO_jobs s ref)))) ` dom (SO_jobs s)"
    using sync_invD(3) [OF inv] by (force simp: image_iff)
  then show ?thesis using sync_invD(5) [OF inv] finite_surj by blast
qed

text \<open>The fields that most steps leave alone.\<close>

lemma other_fields:
  "SO_config (executeSyncJob now ref s) = SO_config s" "SO_callers (executeSyncJob now ref s) = SO_callers s"
  "dom (SO_activeJobs (executeSyncJob now ref s)) \<subseteq> dom (SO_activeJobs s)"
  "SO_config (record_start now ref s) = SO_config s" "SO_activeJobs (record_start now ref s) = SO_activeJobs s"
  "SO_jobs (record_start now ref s) = SO_jobs s" "SO_callers (record_start now ref s) = SO_callers s"
  "SO_config (record_cancel now ref s) = SO_config s" "SO_activeJobs (record_cancel now ref s) = SO_activeJobs s"
  "SO_jobs (record_cancel now ref s) = SO_jobs s" "SO_callers (record_cancel now ref s) = SO_callers s"
  "SO_config (fst (GetSyncStatus stored now jobID s)) = SO_config s"
  "SO_activeJobs (fst (GetSyncStatus stored now jobID s)) = SO_activeJobs s"
  "SO_callers (fst (GetSyncStatus stored now jobID s)) = SO_callers s"
  by (auto simp: executeSyncJob_def Let_def record_start_def record_cancel_def GetSyncStatus_def
      split: option.split job_pc.split if_splits)

lemma jobs_active_mono:
  "sync_inv s \<Longrightarrow> dom (SO_activeJobs s') \<subseteq> dom (SO_activeJobs s) \<Longrightarrow> jobs_active s' \<le> jobs_active s"
  unfolding jobs_active_def using finite_active card_mono by fastforce

definition limit_inv :: "SyncOrchestrator \<Rightarrow> bool" where
  "limit_inv s \<longleftrightarrow> jobs_active s + admitted s \<le> max 0 (OC_MaxConcurrentSyncs (SO_config s) - 1 + int (length (SO_callers s))) \<and>
     (OC_MaxConcurrentSyncs (SO_config s) \<le> 0 \<longrightarrow> jobs_active s + admitted s \<le> 0)"

lemma admit_below_limit:
  "admit_sync has_connector request s = Ok opts \<Longrightarrow> jobs_active s < OC_MaxConcurrentSyncs (SO_config s)"
  by (auto simp: admit_sync_def bind_outcome_iffs checkConcurrencyLimits_def jobs_active_def split: option.splits if_splits)

lemma limit_mono:
  assumes "limit_inv s" "jobs_active s' + admitted s' \<le> jobs_active s + admitted s" "SO_config s' = SO_config s"
    "length (SO_callers s') = length (SO_callers s)"
  shows "limit_inv s'"
  using assms unfolding limit_inv_def by auto

lemma limit_inv_step: "sync_step has_connector e s s' \<Longrightarrow> sync_inv s \<Longrightarrow> limit_inv s \<Longrightarrow> limit_inv s'"
proof (induction rule: sync_step.induct)
  case (admit i s request opts)
  let ?s = "s\<lparr>SO_callers := (SO_callers s)[i := Admitted request opts]\<rparr>"
  have a: "admitted ?s = admitted s + 1" using admit by (simp add: admitted_update)
  have "admitted s + 1 \<le> int (length (SO_callers s))" using admitted_le [of ?s] a by simp
  moreover have "jobs_active ?s = jobs_active s" by (simp add: jobs_active_def)
  moreover have "jobs_active s < OC_MaxConcurrentSyncs (SO_config s)" by (rule admit_below_limit [OF admit(3)])
  ultimately show ?case using a by (simp add: limit_inv_def jobs_active_def)
next
  case (register i s request opts ref new_id now)
  let ?s = "(register_sync new_id ref now request opts s)\<lparr>SO_callers := (SO_callers s)[i := Unrecorded ref]\<rparr>"
  have a: "admitted ?s = admitted s - 1" using register by (simp add: admitted_update)
  have "jobs_active ?s \<le> jobs_active s + 1"
    using finite_active [OF register(5)] by (simp add: jobs_active_def register_sync_def card_insert_if)
  then show ?case using a by (intro limit_mono [OF register(6)]) (simp, simp_all add: register_sync_def)
next
  case (record_step i s ref now)
  then show ?case
    by (intro limit_mono [OF record_step(4)]) (simp_all add: admitted_update jobs_active_def other_fields)
next
  case (execute s now ref)
  then show ?case
    using jobs_active_mono [OF execute(1)] by (intro limit_mono [OF execute(2)]) (simp_all add: admitted_def other_fields)
next
  case (status s stored now jobID)
  then show ?case
    by (intro limit_mono [OF status(2)]) (simp_all add: admitted_def jobs_active_def other_fields)
qed (simp_all add: limit_inv_def jobs_active_def admitted_def time_out_def Cancel_def other_fields)

lemma limit_inv_new: "limit_inv (NewSyncOrchestrator config n)"
  by (auto simp: limit_inv_def NewSyncOrchestrator_def Let_def jobs_active_def admitted_def)

lemma callers_step: "sync_step has_connector e s s' \<Longrightarrow>
    length (SO_callers s') = length (SO_callers s) \<and> SO_config s' = SO_config s"
  by (induction rule: sync_step.induct) (auto simp: other_fields register_sync_def time_out_def Cancel_def)

lemma sync_run_inv:
  assumes "sync_run has_connector (NewSyncOrchestrator config n) es s"
  shows "sync_inv s \<and> limit_inv s \<and> length (SO_callers s) = n \<and> SO_config s = SO_config (NewSyncOrchestrator config n)"
  using assms
proof (induction rule: sync_run.induct)
  case start
  then show ?case using sync_inv_new limit_inv_new by (auto simp: NewSyncOrchestrator_def Let_def)
next
  case (then_step es t e u)
  then show ?case using sync_inv_step limit_inv_step callers_step by metis
qed

text \<open>The number of active jobs never exceeds the configured maximum by more than the number of other
  callers: with \<open>n\<close> callers at a time, at most \<open>max + n - 1\<close> jobs are active.  One caller at a time keeps
  the limit.\<close>

theorem active_jobs_bounded:
  assumes "sync_run has_connector (NewSyncOrchestrator config n) es s"
  shows "jobs_active s \<le> max 0 (OC_MaxConcurrentSyncs (SO_config s) - 1 + int n)"
  using sync_run_inv [OF assms] unfolding limit_inv_def admitted_def by auto

text \<open>C12: What the status of a job says is so, in every run: a completed job has transferred all of its files
  and shows 100 percent; a job whose goroutine has ended has an end time and a final state, and is not
  active; a job that shows a result is one whose goroutine has set it.\<close>

theorem job_status_sound:
  assumes run: "sync_run has_connector (NewSyncOrchestrator config n) es s" and r: "SO_jobs s ref = Some r"
  shows "(job_state r = SyncStateCompleted \<longrightarrow> transferred r total_sync_files total_sync_files) \<and>
    (JR_pc r = Ended \<longrightarrow> JS_EndTime (job_status r) \<noteq> None \<and>
       (finished_state (job_state r) \<or> job_state r = SyncStateCancelled) \<and> ref \<notin> ran (SO_activeJobs s)) \<and>
    (finished_state (job_state r) \<longrightarrow> JR_pc r = Storing \<or> JR_pc r = Ended) \<and>
    (JR_pc r \<noteq> Ended \<longrightarrow> SO_activeJobs s (SJ_ID (JR_job r)) = Some ref)"
proof -
  have inv: "sync_inv s" using sync_run_inv [OF run] by blast
  have ok: "job_ok r" by (rule sync_invD(1) [OF inv r])
  have "SO_activeJobs s jid \<noteq> Some ref" if "JR_pc r = Ended" for jid
    using sync_invD(3) [OF inv, of jid ref] r that by auto
  moreover have "SO_activeJobs s (SJ_ID (JR_job r)) = Some ref" if "JR_pc r \<noteq> Ended"
    using sync_invD(3) [OF inv, of "SJ_ID (JR_job r)" ref] r that by auto
  ultimately show ?thesis using ok by (auto simp: job_ok_def ran_def)
qed

section \<open>One job for each data source\<close>

text \<open>A job runs until its goroutine has set its result.\<close>

definition running :: "JobRun \<Rightarrow> bool" where
  "running r \<longleftrightarrow> JR_pc r \<noteq> Storing \<and> JR_pc r \<noteq> Ended"

definition runs_source :: "SyncOrchestrator \<Rightarrow> job_ref \<Rightarrow> uuid \<Rightarrow> bool" where
  "runs_source s ref ds \<longleftrightarrow> (\<exists>r. SO_jobs s ref = Some r \<and> running r \<and> SJ_DataSourceID (JR_job r) = ds)"

definition source_inv :: "SyncOrchestrator \<Rightarrow> bool" where
  "source_inv s \<longleftrightarrow> (\<forall>ref ref' ds. runs_source s ref ds \<longrightarrow> runs_source s ref' ds \<longrightarrow> ref = ref') \<and>
     (\<forall>request opts ref. Admitted request opts \<in> set (SO_callers s) \<longrightarrow> \<not> runs_source s ref (SReq_DataSourceID request))"

lemma source_inv_mono:
  assumes "source_inv s" and "\<And>ref ds. runs_source s' ref ds \<Longrightarrow> runs_source s ref ds"
    and "\<And>request opts. Admitted request opts \<in> set (SO_callers s') \<Longrightarrow> Admitted request opts \<in> set (SO_callers s)"
  shows "source_inv s'"
  using assms unfolding source_inv_def by meson

lemma running_steps [simp]:
  "running (map_status f r) = running r" "running (end_context e r) = running r"
  "SJ_DataSourceID (JR_job (end_context e r)) = SJ_DataSourceID (JR_job r)"
  by (simp_all add: running_def end_context_def split: option.split)

lemma runs_source_execute: "runs_source (executeSyncJob now ref s) x ds \<Longrightarrow> runs_source s x ds"
  using same_job_steps
  by (auto simp: executeSyncJob_def runs_source_def same_job_def Let_def running_def split: option.splits job_pc.splits if_splits)

lemma runs_source_change:
  assumes "\<And>r. running (f r) = running r" and "\<And>r. same_job r (f r)"
  shows "runs_source (s\<lparr>SO_jobs := (SO_jobs s)(ref := map_option f (SO_jobs s ref))\<rparr>) x ds = runs_source s x ds"
  using assms by (auto simp: runs_source_def same_job_def)

lemma runs_source_changes [simp]:
  "runs_source (time_out ref s) x ds = runs_source s x ds" "runs_source (Cancel now ref s) x ds = runs_source s x ds"
  "runs_source (fst (GetSyncStatus stored now jobID s)) x ds = runs_source s x ds"
  unfolding job_changes by (auto simp: runs_source_change split: option.split)

lemma admit_no_running:
  assumes "sync_inv s" and "admit_sync has_connector request s = Ok opts"
  shows "\<not> runs_source s ref (SReq_DataSourceID request)"
proof
  assume "runs_source s ref (SReq_DataSourceID request)"
  then obtain r where r: "SO_jobs s ref = Some r" "running r" "SJ_DataSourceID (JR_job r) = SReq_DataSourceID request"
    by (auto simp: runs_source_def)
  then have "SO_activeJobs s (SJ_ID (JR_job r)) = Some ref"
    using sync_invD(3) [OF assms(1)] by (auto simp: running_def)
  moreover have "\<not> finished_state (job_state r)"
    using sync_invD(1) [OF assms(1) r(1)] r(2) by (auto simp: job_ok_def running_def)
  ultimately have "checkConcurrencyLimits s (SReq_DataSourceID request) \<noteq> None"
    using r(1,3) by (auto simp: checkConcurrencyLimits_def finished_state_def ran_def)
  then show False using assms(2) by (auto simp: admit_sync_def bind_outcome_iffs split: option.splits)
qed

lemma runs_source_register:
  "runs_source ((register_sync new_id ref now request opts s)\<lparr>SO_callers := cs\<rparr>) x ds \<Longrightarrow> SO_jobs s ref = None \<Longrightarrow>
     x = ref \<and> ds = SReq_DataSourceID request \<or> x \<noteq> ref \<and> runs_source s x ds"
  by (auto simp: runs_source_def register_sync_def createSyncJob_def split: if_splits)

lemma single_caller: "length cs = 1 \<Longrightarrow> i < length cs \<Longrightarrow> cs[i := c] = [c]"
  by (cases cs) auto

lemma source_inv_step:
  "sync_step has_connector e s s' \<Longrightarrow> length (SO_callers s) = 1 \<Longrightarrow> sync_inv s \<Longrightarrow> source_inv s \<Longrightarrow> source_inv s'"
proof (induction rule: sync_step.induct)
  case (admit i s request opts)
  have "runs_source (s\<lparr>SO_callers := cs\<rparr>) = runs_source s" for cs by (simp add: runs_source_def fun_eq_iff)
  then show ?case using admit admit_no_running [OF admit(5,3)] by (simp add: source_inv_def single_caller)
next
  case (register i s request opts ref new_id now)
  have "Admitted request opts \<in> set (SO_callers s)" using register(1,2) by (metis nth_mem)
  then have "\<not> runs_source s x (SReq_DataSourceID request)" for x using register(7) by (auto simp: source_inv_def)
  moreover have "a = b" if "runs_source s a d" "runs_source s b d" for a b d using register(7) that by (auto simp: source_inv_def)
  ultimately show ?case using register(1,3,5) by (auto simp: source_inv_def single_caller dest!: runs_source_register)
next
  case (record_step i s ref now)
  then show ?case
    by (intro source_inv_mono [OF record_step(5)]) (auto simp: runs_source_def other_fields single_caller)
next
  case (execute s now ref)
  then show ?case
    by (intro source_inv_mono [OF execute(3)]) (auto simp: other_fields dest: runs_source_execute)
next
  case (recorded_cancel s ref r now)
  then show ?case
    by (intro source_inv_mono [OF recorded_cancel(4)]) (auto simp: runs_source_def other_fields)
next
  case (timeout s ref)
  then show ?case by (intro source_inv_mono [OF timeout(3)]) (simp_all, simp add: time_out_def)
next
  case (cancel s now ref)
  then show ?case by (intro source_inv_mono [OF cancel(3)]) (simp_all, simp add: Cancel_def)
next
  case (status s stored now jobID)
  then show ?case by (intro source_inv_mono [OF status(3)]) (simp_all add: other_fields)
next
  case (aggregate s now)
  then show ?case by (simp add: source_inv_def runs_source_def)
qed

text \<open>C14: When requests come one at a time, no data source has two jobs that run, whatever the goroutines and
  cancellations do in between.\<close>

theorem one_job_per_source:
  assumes run: "sync_run has_connector (NewSyncOrchestrator config 1) es s"
    and "runs_source s ref ds" and "runs_source s ref' ds"
  shows "ref = ref'"
proof -
  have "source_inv s"
    using run
  proof (induction rule: sync_run.induct)
    case start
    show ?case by (simp add: source_inv_def runs_source_def NewSyncOrchestrator_def Let_def)
  next
    case (then_step es t e u)
    then show ?case using sync_run_inv [OF then_step(1)] source_inv_step by metis
  qed
  then show ?thesis using assms(2,3) unfolding source_inv_def by blast
qed

section \<open>The end of a job\<close>

text \<open>How many steps the goroutine still takes at most.\<close>

fun pc_steps :: "job_pc \<Rightarrow> nat" where
  "pc_steps Spawned = total_sync_files + 4"
| "pc_steps (Working i) = total_sync_files - i + 3"
| "pc_steps (Finishing _) = 2"
| "pc_steps Storing = 1"
| "pc_steps Ended = 0"

definition steps_left :: "SyncOrchestrator \<Rightarrow> job_ref \<Rightarrow> nat" where
  "steps_left s ref = (case SO_jobs s ref of None \<Rightarrow> 0 | Some r \<Rightarrow> pc_steps (JR_pc r))"

lemma steps_left_execute: "steps_left (executeSyncJob now ref s) ref = 0 \<or> steps_left (executeSyncJob now ref s) ref < steps_left s ref"
  by (auto simp: steps_left_def executeSyncJob_def job_begin_def job_work_def job_finish_def Let_def
      split: option.split job_pc.split)

lemma steps_left_run: "steps_left s ref \<le> length ts \<Longrightarrow> steps_left (fold (\<lambda>t. executeSyncJob t ref) ts s) ref = 0"
proof (induction ts arbitrary: s)
  case (Cons t ts)
  have "steps_left (executeSyncJob t ref s) ref \<le> length ts" using steps_left_execute [of t ref s] Cons.prems by auto
  then show ?case using Cons.IH by simp
qed simp

lemma job_stays: "SO_jobs (executeSyncJob t ref s) ref = None \<longleftrightarrow> SO_jobs s ref = None"
  by (auto simp: executeSyncJob_def Let_def split: option.split job_pc.split)

lemma sync_inv_fold: "sync_inv s \<Longrightarrow> sync_inv (fold (\<lambda>t. executeSyncJob t ref) ts s)"
  by (induction ts arbitrary: s) (auto intro: sync_inv_execute)

lemma job_stays_fold: "SO_jobs (fold (\<lambda>t. executeSyncJob t ref) ts s) ref = None \<longleftrightarrow> SO_jobs s ref = None"
  by (induction ts arbitrary: s) (simp_all add: job_stays)

text \<open>C24: A job always comes to its end: after at most 104 steps of its goroutine it is unregistered, and shows
  that it completed, failed or was cancelled.\<close>

theorem job_comes_to_end:
  assumes run: "sync_run has_connector (NewSyncOrchestrator config n) es s"
    and r: "SO_jobs s ref = Some r" and ts: "length ts \<ge> 104"
  shows "\<exists>r'. SO_jobs (fold (\<lambda>t. executeSyncJob t ref) ts s) ref = Some r' \<and> JR_pc r' = Ended \<and>
    (finished_state (job_state r') \<or> job_state r' = SyncStateCancelled) \<and>
    ref \<notin> ran (SO_activeJobs (fold (\<lambda>t. executeSyncJob t ref) ts s))"
proof -
  let ?s = "fold (\<lambda>t. executeSyncJob t ref) ts s"
  have inv: "sync_inv ?s" using sync_run_inv [OF run] sync_inv_fold by blast
  obtain r' where r': "SO_jobs ?s ref = Some r'" using job_stays_fold [of ref ts s] r by auto
  have "pc_steps (JR_pc r) \<le> 104" by (cases "JR_pc r") (simp_all add: total_sync_files_def)
  then have "steps_left s ref \<le> length ts" using ts r by (simp add: steps_left_def)
  then have "pc_steps (JR_pc r') = 0" using steps_left_run [of s ref ts] r' by (simp add: steps_left_def)
  then have pc: "JR_pc r' = Ended" by (cases "JR_pc r'") (simp_all add: total_sync_files_def)
  have "finished_state (job_state r') \<or> job_state r' = SyncStateCancelled"
    using sync_invD(1) [OF inv r'] pc by (auto simp: job_ok_def)
  moreover have "ref \<notin> ran (SO_activeJobs ?s)" using sync_invD(3) [OF inv] r' pc by (auto simp: ran_def)
  ultimately show ?thesis using r' pc by blast
qed

section \<open>Cancelled jobs\<close>

text \<open>From the cancellation on, the goroutine only ends the job, and it ends it as failed.\<close>

definition doomed :: "JobRun \<Rightarrow> bool" where
  "doomed r \<longleftrightarrow>
     (case JR_pc r of
        Spawned \<Rightarrow> JR_ctx r \<noteq> None
      | Working i \<Rightarrow> i < total_sync_files \<and> JR_ctx r \<noteq> None
      | Finishing err \<Rightarrow> err \<noteq> None
      | _ \<Rightarrow> job_state r = SyncStateFailed)"

definition doomed_in :: "job_ref \<Rightarrow> SyncOrchestrator \<Rightarrow> bool" where
  "doomed_in ref s \<longleftrightarrow> (\<exists>r. SO_jobs s ref = Some r \<and> doomed r)"

lemma doomed_steps:
  "doomed r \<Longrightarrow> JR_pc r = Spawned \<Longrightarrow> doomed (job_begin t cfg r)"
  "doomed r \<Longrightarrow> JR_pc r = Working i \<Longrightarrow> doomed (job_work t i r)"
  "doomed r \<Longrightarrow> JR_pc r = Finishing err \<Longrightarrow> doomed (job_finish t err r)"
  "doomed r \<Longrightarrow> JR_pc r = Storing \<Longrightarrow> doomed (r\<lparr>JR_pc := Ended\<rparr>)"
     apply (simp add: doomed_def job_begin_def Let_def total_sync_files_def)
    apply (auto simp: doomed_def job_work_def)[1]
   apply (auto simp: doomed_def job_finish_def updateState_def)[1]
  apply (simp add: doomed_def)
  done

lemma doomed_execute: "doomed_in ref s \<Longrightarrow> doomed_in ref (executeSyncJob t ref s)"
proof -
  assume "doomed_in ref s"
  then obtain r where r: "SO_jobs s ref = Some r" "doomed r" by (auto simp: doomed_in_def)
  show ?thesis
    by (cases "JR_pc r") (use r doomed_steps in \<open>simp_all add: executeSyncJob_def doomed_in_def Let_def\<close>)
qed

lemma doomed_fold: "doomed_in ref s \<Longrightarrow> doomed_in ref (fold (\<lambda>t. executeSyncJob t ref) ts s)"
  by (induction ts arbitrary: s) (auto intro: doomed_execute)

text \<open>A job that is cancelled before its last file never shows \<open>cancelled\<close> in the end: the goroutine
  overwrites the state and reports the job failed.\<close>

theorem cancelled_job_fails:
  assumes run: "sync_run has_connector (NewSyncOrchestrator config n) es s"
    and r: "SO_jobs s ref = Some r"
    and early: "JR_pc r = Spawned \<or> (\<exists>i < total_sync_files. JR_pc r = Working i)"
    and ts: "length ts \<ge> 104"
  shows "\<exists>r'. SO_jobs (fold (\<lambda>t. executeSyncJob t ref) ts (Cancel now ref s)) ref = Some r' \<and> JR_pc r' = Ended \<and>
    job_state r' = SyncStateFailed"
proof -
  have "sync_run has_connector (NewSyncOrchestrator config n) (es @ [Other_event]) (Cancel now ref s)"
    by (rule then_step [OF run cancel])
  moreover have "SO_jobs (Cancel now ref s) ref =
      Some (map_status (updateState now SyncStateCancelled) (end_context ''context canceled'' r))"
    using r by (simp add: Cancel_def)
  ultimately obtain r' where r': "SO_jobs (fold (\<lambda>t. executeSyncJob t ref) ts (Cancel now ref s)) ref = Some r'" "JR_pc r' = Ended"
    using job_comes_to_end ts by blast
  have "doomed_in ref (Cancel now ref s)"
    using r early by (auto simp: doomed_in_def doomed_def Cancel_def end_context_def split: option.split)
  then have "doomed r'" using doomed_fold [of ref "Cancel now ref s" ts] r'(1) by (simp add: doomed_in_def)
  then show ?thesis using r' by (simp add: doomed_def)
qed

section \<open>The counters of the collector\<close>

definition running_jobs :: "SyncOrchestrator \<Rightarrow> string \<Rightarrow> job_ref set" where
  "running_jobs s key = {ref. \<exists>r. SO_jobs s ref = Some r \<and> running r \<and> job_key (JR_job r) = key}"

definition not_recorded :: "SyncOrchestrator \<Rightarrow> string \<Rightarrow> caller \<Rightarrow> bool" where
  "not_recorded s key c \<longleftrightarrow> (\<exists>ref r. c = Unrecorded ref \<and> SO_jobs s ref = Some r \<and> job_key (JR_job r) = key)"

definition unrecorded :: "SyncOrchestrator \<Rightarrow> string \<Rightarrow> int" where
  "unrecorded s key = int (length (filter (not_recorded s key) (SO_callers s)))"

text \<open>The count of the collector, by what the orchestrator does.\<close>

definition counted :: "sync_event list \<Rightarrow> SyncOrchestrator \<Rightarrow> string \<Rightarrow> bool" where
  "counted es s key \<longleftrightarrow>
     active_at (SO_metrics s) key = int (card (running_jobs s key)) - unrecorded s key - int (count_list es (Cancellation key))"

lemma finite_running: "sync_inv s \<Longrightarrow> finite (running_jobs s key)"
  by (rule finite_subset [OF _ sync_invD(5)]) (auto simp: running_jobs_def)

lemma job_key_steps [simp]: "job_key (JR_job (end_context e r)) = job_key (JR_job r)"
  by (simp add: end_context_def split: option.split)

lemma same_key_change:
  assumes "SO_jobs s ref = Some r" and "same_job r r'" and "SO_jobs s' = (SO_jobs s)(ref \<mapsto> r')" "SO_callers s' = SO_callers s"
  shows "unrecorded s' key = unrecorded s key"
    and "running r' = running r \<Longrightarrow> running_jobs s' key = running_jobs s key"
    and "running r \<Longrightarrow> \<not> running r' \<Longrightarrow> running_jobs s' key = running_jobs s key - {ref}"
proof -
  have "not_recorded s' key = not_recorded s key"
    using assms by (auto simp: not_recorded_def fun_eq_iff same_job_def)
  then show "unrecorded s' key = unrecorded s key" using assms(4) by (simp add: unrecorded_def)
  show "running_jobs s' key = running_jobs s key" if "running r' = running r"
    using assms that by (auto simp: running_jobs_def same_job_def)
  show "running_jobs s' key = running_jobs s key - {ref}" if "running r" "\<not> running r'"
    using assms that by (auto simp: running_jobs_def same_job_def)
qed

lemma counted_change:
  assumes "counted es s key" and "\<And>r. running (f r) = running r" and "\<And>r. same_job r (f r)"
  shows "counted (es @ [Other_event]) (s\<lparr>SO_jobs := (SO_jobs s)(ref := map_option f (SO_jobs s ref))\<rparr>) key"
proof (cases "SO_jobs s ref")
  case None
  then have "(SO_jobs s)(ref := None) = SO_jobs s" by auto
  then show ?thesis using None assms(1) by (simp add: counted_def)
next
  case (Some r)
  then show ?thesis
    using same_key_change(1,2) [OF Some assms(3), of "s\<lparr>SO_jobs := (SO_jobs s)(ref \<mapsto> f r)\<rparr>" key] assms(1,2)
    by (simp add: counted_def)
qed

lemma running_at_work: "running (job_begin now cfg r)" "running (job_work now i r)" if "running r"
  using that by (simp_all add: running_def job_begin_def job_work_def Let_def split: option.split)

lemma counted_execute:
  assumes inv: "sync_inv s" and c: "counted es s key"
  shows "counted (es @ [Other_event]) (executeSyncJob now ref s) key"
proof (cases "SO_jobs s ref")
  case None
  then show ?thesis using c by (simp add: executeSyncJob_def counted_def)
next
  case (Some r)
  let ?s = "executeSyncJob now ref s"
  have keep: ?thesis if "SO_jobs ?s = (SO_jobs s)(ref \<mapsto> r')" "same_job r r'" "running r' = running r" "SO_metrics ?s = SO_metrics s" for r'
    using same_key_change(1,2) [OF Some that(2,1)] that c by (simp add: other_fields counted_def)
  show ?thesis
  proof (cases "JR_pc r")
    case Spawned
    then show ?thesis using Some
      by (intro keep [of "job_begin now (SO_config s) r"]) (simp_all add: executeSyncJob_def running_at_work running_def [of r])
  next
    case (Working i)
    then show ?thesis using Some
      by (intro keep [of "job_work now i r"]) (simp_all add: executeSyncJob_def running_at_work running_def [of r])
  next
    case (Finishing err)
    let ?r = "job_finish now err r"
    have run: "running r" "\<not> running ?r" using Finishing by (auto simp: running_def job_finish_def split: option.split)
    have jobs: "SO_jobs ?s = (SO_jobs s)(ref \<mapsto> ?r)" using Some Finishing by (simp add: executeSyncJob_def Let_def)
    have key: "job_key (JR_job ?r) = job_key (JR_job r)" using same_job_steps(3) [of r now err] by (simp add: same_job_def)
    have "active_at (SO_metrics ?s) key = active_at (SO_metrics s) key - of_bool (key = job_key (JR_job r))"
      using Some Finishing key by (cases err) (simp_all add: executeSyncJob_def Let_def active_records)
    moreover have "int (card (running_jobs ?s key)) = int (card (running_jobs s key)) - of_bool (key = job_key (JR_job r))"
    proof (cases "key = job_key (JR_job r)")
      case True
      then have "ref \<in> running_jobs s key" using Some run by (auto simp: running_jobs_def)
      then show ?thesis
        using same_key_change(3) [OF Some _ jobs _ run] finite_running [OF inv, of key] True
        by (simp add: other_fields of_nat_diff card_gt_0_iff Suc_leI card_Diff_singleton) (metis Suc_leI card_gt_0_iff empty_iff of_nat_1 of_nat_diff One_nat_def)
    next
      case False
      then have "ref \<notin> running_jobs s key" using Some by (auto simp: running_jobs_def)
      then show ?thesis using same_key_change(3) [OF Some _ jobs _ run] False by (simp add: other_fields)
    qed
    moreover have "unrecorded ?s key = unrecorded s key"
      using same_key_change(1) [OF Some _ jobs] by (simp add: other_fields)
    ultimately show ?thesis using c by (simp add: counted_def)
  next
    case Storing
    then show ?thesis using Some by (intro keep [of "r\<lparr>JR_pc := Ended\<rparr>"]) (simp_all add: executeSyncJob_def running_def)
  next
    case Ended
    then show ?thesis using Some by (intro keep [of r]) (auto simp: executeSyncJob_def)
  qed
qed

lemma unrecorded_update:
  assumes "i < length (SO_callers s)" and "\<And>c. c \<in> set (SO_callers s) \<Longrightarrow> not_recorded s' key c = not_recorded s key c"
    and "SO_callers s' = (SO_callers s)[i := c]"
  shows "unrecorded s' key = unrecorded s key - of_bool (not_recorded s key (SO_callers s ! i)) + of_bool (not_recorded s' key c)"
proof -
  have "filter (not_recorded s' key) (SO_callers s) = filter (not_recorded s key) (SO_callers s)"
    using assms(2) by (auto intro: filter_cong)
  then show ?thesis
    using assms filter_update [OF assms(1), of "not_recorded s' key" c] by (simp add: unrecorded_def)
qed

lemma counted_idle:
  assumes "counted es s key" "SO_metrics s' = SO_metrics s" "running_jobs s' key = running_jobs s key"
    "unrecorded s' key = unrecorded s key"
  shows "counted (es @ [Other_event]) s' key"
  using assms by (simp add: counted_def)

lemma counted_register:
  assumes inv: "sync_inv s" and c: "counted es s key" and i: "i < length (SO_callers s)" "SO_callers s ! i = Admitted request opts"
    and fresh: "SO_jobs s ref = None"
  shows "counted (es @ [Other_event]) ((register_sync new_id ref now request opts s)\<lparr>SO_callers := (SO_callers s)[i := Unrecorded ref]\<rparr>) key"
    (is "counted _ ?s key")
proof -
  let ?r = "\<lparr>JR_job = createSyncJob new_id now request opts, JR_ctx = None, JR_pc = Spawned\<rparr>"
  have s: "SO_jobs ?s = (SO_jobs s)(ref \<mapsto> ?r)" "SO_callers ?s = (SO_callers s)[i := Unrecorded ref]" "SO_metrics ?s = SO_metrics s"
    by (simp_all add: register_sync_def)
  have "not_recorded ?s key x = not_recorded s key x" if "x \<in> set (SO_callers s)" for x
    using that fresh sync_invD(4) [OF inv, of ref] by (auto simp: not_recorded_def s)
  from unrecorded_update [OF i(1) this s(2)]
  have u: "unrecorded ?s key = unrecorded s key + of_bool (job_key (createSyncJob new_id now request opts) = key)"
    using i(2) by (simp add: not_recorded_def s)
  have "running_jobs ?s key = (if job_key (createSyncJob new_id now request opts) = key then insert ref (running_jobs s key) else running_jobs s key)"
    using fresh by (auto simp: running_jobs_def s running_def)
  moreover have "ref \<notin> running_jobs s key" using fresh by (simp add: running_jobs_def)
  ultimately have "int (card (running_jobs ?s key)) =
      int (card (running_jobs s key)) + of_bool (job_key (createSyncJob new_id now request opts) = key)"
    using finite_running [OF inv] by simp
  then show ?thesis using c u s(3) by (simp add: counted_def)
qed

lemma counted_step:
  "sync_step has_connector e s s' \<Longrightarrow> sync_inv s \<Longrightarrow> e \<noteq> Aggregation \<Longrightarrow> counted es s key \<Longrightarrow> counted (es @ [e]) s' key"
proof (induction rule: sync_step.induct)
  case (admit i s request opts)
  have "unrecorded (s\<lparr>SO_callers := (SO_callers s)[i := Admitted request opts]\<rparr>) key = unrecorded s key"
    using admit(2) by (subst unrecorded_update [OF admit(1)]) (auto simp: not_recorded_def)
  then show ?case by (intro counted_idle [OF admit(6)]) (simp_all add: running_jobs_def)
next
  case (register i s request opts ref new_id now)
  then show ?case by (intro counted_register)
next
  case (record_step i s ref now)
  have "Unrecorded ref \<in> set (SO_callers s)" using record_step(1,2) by (metis nth_mem)
  then obtain r where r: "SO_jobs s ref = Some r" using sync_invD(4) [OF record_step(3)] by blast
  let ?s = "(record_start now ref s)\<lparr>SO_callers := (SO_callers s)[i := Idle]\<rparr>"
  have "unrecorded ?s key = unrecorded s key - of_bool (job_key (JR_job r) = key)"
    using record_step(2) r by (subst unrecorded_update [OF record_step(1)]) (auto simp: not_recorded_def other_fields)
  moreover have "active_at (SO_metrics ?s) key = active_at (SO_metrics s) key + of_bool (job_key (JR_job r) = key)"
    using r by (simp add: record_start_def active_records)
  moreover have "running_jobs ?s key = running_jobs s key" by (simp add: running_jobs_def other_fields)
  ultimately show ?case using record_step(5) by (simp add: counted_def)
next
  case (execute s now ref)
  then show ?case by (intro counted_execute)
next
  case (timeout s ref)
  then show ?case unfolding job_changes by (intro counted_change) simp_all
next
  case (cancel s now ref)
  then show ?case unfolding job_changes by (intro counted_change) simp_all
next
  case (recorded_cancel s ref r now)
  have "not_recorded (record_cancel now ref s) key = not_recorded s key" "running_jobs (record_cancel now ref s) key = running_jobs s key"
    by (simp_all add: not_recorded_def running_jobs_def other_fields fun_eq_iff)
  then show ?case using recorded_cancel
    by (auto simp: counted_def unrecorded_def other_fields record_cancel_def active_records)
next
  case (status s stored now jobID)
  have "counted (es @ [Other_event]) s key" by (rule counted_idle [OF status(3)]) simp_all
  then show ?case using status unfolding job_changes by (auto split: option.split intro: counted_change)
qed simp

text \<open>As long as the aggregation drops no counters, the number of active jobs the collector reports for a
  source and connector is the number of its jobs that run, less the starts that are still to be recorded,
  and less the cancellations: the end of a cancelled job is counted twice.  Without cancellations, and
  with all starts recorded, the number is right.\<close>

theorem active_syncs_counted:
  assumes run: "sync_run has_connector (NewSyncOrchestrator config n) es s" and "Aggregation \<notin> set es"
  shows "active_at (SO_metrics s) key =
    int (card (running_jobs s key)) - unrecorded s key - int (count_list es (Cancellation key))"
proof -
  have "counted es s key"
    using assms
  proof (induction rule: sync_run.induct)
    case start
    have "unrecorded (NewSyncOrchestrator config n) key = 0"
      by (simp add: unrecorded_def not_recorded_def NewSyncOrchestrator_def Let_def)
    then show ?case
      by (simp add: counted_def running_jobs_def NewSyncOrchestrator_def Let_def active_at_def NewSyncMetricsCollector_def)
  next
    case (then_step es t e u)
    then show ?case using counted_step sync_run_inv [OF then_step(1)] by auto
  qed
  then show ?thesis by (simp add: counted_def)
qed

text \<open>A request without options ends in a panic, before it is validated: \<open>ErrInvalidSyncOptions\<close> is never
  returned.\<close>

theorem missing_options_panic:
  "snd (StartSync has_connector new_id ref now (request\<lparr>SReq_Options := None\<rparr>) s) = Panic \<and>
   snd (StartSync has_connector new_id ref now request s) \<noteq> Err ErrInvalidSyncOptions"
  by (auto simp: StartSync_def admit_sync_def validateSyncRequest_def checkConcurrencyLimits_def Let_def bind_outcome_iffs
      split: option.splits outcome.splits if_splits)

section \<open>Examples\<close>

definition demo_options :: UnifiedSyncOptions where
  "demo_options =
     \<lparr>Opt_SyncType = ''full'', Opt_Direction = ''upload'', Opt_ConflictStrategy = [], Opt_Priority = 5, Opt_Filters = None,
      Opt_Performance = None, Opt_Retry = None, Opt_Notifications = None\<rparr>"

definition demo_sync_request :: "uuid \<Rightarrow> StartSyncRequest" where
  "demo_sync_request ds =
     \<lparr>SReq_DataSourceID = ds, SReq_ConnectorType = ''box'', SReq_Options = Some demo_options, SReq_ScheduleOptions = None\<rparr>"

definition one_sync :: OrchestratorConfig where
  "one_sync = default_orchestrator_config\<lparr>OC_MaxConcurrentSyncs := 1\<rparr>"

abbreviation demo_start :: "nat \<Rightarrow> SyncOrchestrator" where
  "demo_start n \<equiv> NewSyncOrchestrator (Some one_sync) n"

text \<open>Two callers pass the check before either registers its job.\<close>

definition demo_admitted :: SyncOrchestrator where
  "demo_admitted = (demo_start 2)\<lparr>SO_callers := [Admitted (demo_sync_request ''p'') demo_options, Admitted (demo_sync_request ''q'') demo_options]\<rparr>"

lemma demo_admit: "admit_sync (\<lambda>_. True) (demo_sync_request ds) s = Ok demo_options"
  if "ds \<noteq> nil_uuid" "SO_activeJobs s = Map.empty" "OC_MaxConcurrentSyncs (SO_config s) = 1"
  using that by (simp add: admit_sync_def validateSyncRequest_def checkConcurrencyLimits_def demo_sync_request_def demo_options_def)

lemma demo_new: "SO_activeJobs (demo_start n) = Map.empty" "SO_jobs (demo_start n) = Map.empty"
  "SO_config (demo_start n) = one_sync" "SO_callers (demo_start n) = replicate n Idle"
  "SO_metrics (demo_start n) = NewSyncMetricsCollector 30"
  by (simp_all add: NewSyncOrchestrator_def Let_def one_sync_def default_orchestrator_config_def)

lemma one_sync_max: "OC_MaxConcurrentSyncs one_sync = 1"
  by (simp add: one_sync_def)

lemma demo_ids: "''p'' \<noteq> nil_uuid" "''q'' \<noteq> nil_uuid"
  by (simp_all add: nil_uuid_def)

lemma demo_admitted_run: "sync_run (\<lambda>_. True) (demo_start 2) [Other_event, Other_event] demo_admitted"
proof -
  let ?s = "(demo_start 2)\<lparr>SO_callers := [Admitted (demo_sync_request ''p'') demo_options, Idle]\<rparr>"
  have "sync_step (\<lambda>_. True) Other_event (demo_start 2) ?s"
    using sync_step.admit [of 0 "demo_start 2" "\<lambda>_. True" "demo_sync_request ''p''" demo_options]
    by (simp add: demo_new demo_admit demo_ids one_sync_max numeral_2_eq_2)
  moreover have "sync_step (\<lambda>_. True) Other_event ?s demo_admitted"
    using sync_step.admit [of 1 ?s "\<lambda>_. True" "demo_sync_request ''q''" demo_options]
    by (simp add: demo_new demo_admit demo_ids one_sync_max demo_admitted_def)
  ultimately show ?thesis using sync_run.intros by (metis append.simps(1,2))
qed

definition demo_registered :: SyncOrchestrator where
  "demo_registered = (register_sync ''b'' 1 7 (demo_sync_request ''q'') demo_options
     ((register_sync ''a'' 0 7 (demo_sync_request ''p'') demo_options demo_admitted)\<lparr>SO_callers :=
        [Unrecorded 0, Admitted (demo_sync_request ''q'') demo_options]\<rparr>))\<lparr>SO_callers := [Unrecorded 0, Unrecorded 1]\<rparr>"

lemma demo_registered_run:
  "sync_run (\<lambda>_. True) (demo_start 2) [Other_event, Other_event, Other_event, Other_event] demo_registered"
proof -
  let ?s = "(register_sync ''a'' 0 7 (demo_sync_request ''p'') demo_options demo_admitted)\<lparr>SO_callers :=
        [Unrecorded 0, Admitted (demo_sync_request ''q'') demo_options]\<rparr>"
  have 1: "sync_step (\<lambda>_. True) Other_event demo_admitted ?s"
    using sync_step.register [of 0 demo_admitted "demo_sync_request ''p''" demo_options 0 "''a''" "\<lambda>_. True" 7]
    by (simp add: demo_admitted_def demo_new)
  have 2: "sync_step (\<lambda>_. True) Other_event ?s demo_registered"
    using sync_step.register [of 1 ?s "demo_sync_request ''q''" demo_options 1 "''b''" "\<lambda>_. True" 7]
    by (simp add: demo_admitted_def demo_new demo_registered_def register_sync_def createSyncJob_def)
  show ?thesis using sync_run.then_step [OF sync_run.then_step [OF demo_admitted_run 1] 2] by simp
qed

theorem active_jobs_bounded_witness:
  "jobs_active demo_registered = 2 \<and> jobs_active demo_registered \<le> max 0 (OC_MaxConcurrentSyncs (SO_config demo_registered) - 1 + 2)"
  using active_jobs_bounded [OF demo_registered_run]
  by (simp add: jobs_active_def demo_registered_def register_sync_def demo_admitted_def demo_new)

lemma demo_job: "SO_jobs demo_registered 0 =
    Some \<lparr>JR_job = createSyncJob ''a'' 7 (demo_sync_request ''p'') demo_options, JR_ctx = None, JR_pc = Spawned\<rparr>"
  by (simp add: demo_registered_def register_sync_def demo_admitted_def demo_new)

theorem job_status_sound_witness:
  "SO_activeJobs demo_registered ''a'' = Some 0"
  using job_status_sound [OF demo_registered_run demo_job] by (simp add: createSyncJob_def)

theorem job_comes_to_end_witness:
  "\<exists>r'. SO_jobs (fold (\<lambda>t. executeSyncJob t 0) (replicate 104 9) demo_registered) 0 = Some r' \<and> JR_pc r' = Ended"
  using job_comes_to_end [OF demo_registered_run demo_job, of "replicate 104 9"] by (simp only: length_replicate) blast

theorem cancelled_job_fails_witness:
  "\<exists>r'. SO_jobs (fold (\<lambda>t. executeSyncJob t 0) (replicate 104 9) (Cancel 8 0 demo_registered)) 0 = Some r' \<and>
     job_state r' = SyncStateFailed"
  using cancelled_job_fails [OF demo_registered_run demo_job, of "replicate 104 9" 8] by (simp only: length_replicate JobRun.simps) blast

theorem active_syncs_counted_witness:
  "active_at (SO_metrics demo_registered) ''p:box'' = int (card (running_jobs demo_registered ''p:box'')) - unrecorded demo_registered ''p:box''"
  using active_syncs_counted [OF demo_registered_run, of "''p:box''"] by simp

definition demo_single :: SyncOrchestrator where
  "demo_single = (register_sync ''a'' 0 7 (demo_sync_request ''p'') demo_options (demo_start 1))\<lparr>SO_callers := [Unrecorded 0]\<rparr>"

lemma demo_single_run: "sync_run (\<lambda>_. True) (demo_start 1) [Other_event, Other_event] demo_single"
proof -
  let ?s = "(demo_start 1)\<lparr>SO_callers := [Admitted (demo_sync_request ''p'') demo_options]\<rparr>"
  have 1: "sync_step (\<lambda>_. True) Other_event (demo_start 1) ?s"
    using sync_step.admit [of 0 "demo_start 1" "\<lambda>_. True" "demo_sync_request ''p''" demo_options]
    by (simp add: demo_new demo_admit demo_ids one_sync_max)
  have 2: "sync_step (\<lambda>_. True) Other_event ?s demo_single"
    using sync_step.register [of 0 ?s "demo_sync_request ''p''" demo_options 0 "''a''" "\<lambda>_. True" 7]
    by (simp add: demo_new demo_single_def register_sync_def)
  show ?thesis using sync_run.then_step [OF sync_run.then_step [OF sync_run.start 1] 2] by simp
qed

theorem one_job_per_source_witness:
  "runs_source demo_single 0 ''p'' \<and> (\<lambda>ref. runs_source demo_single ref ''p'') = (\<lambda>ref. ref = 0)"
proof -
  have r: "runs_source demo_single 0 ''p''"
    by (simp add: runs_source_def demo_single_def register_sync_def running_def createSyncJob_def demo_sync_request_def)
  then show ?thesis using one_job_per_source [OF demo_single_run _ r] by (auto simp: fun_eq_iff)
qed

end
