(* ===== verification/Go_Path.thy ===== *)
theory Go_Path imports Go_Prelude begin

text \<open>
  The package \<^verbatim>\<open>path/filepath\<close> on Unix, as far as the modelled code uses it, and \<open>strings.TrimSuffix\<close>:
  the last element of a path and its extension, found from the end of the path as the library does.
\<close>

definition path_Base :: "string \<Rightarrow> string" where
  "path_Base path =
     (if path = [] then ''.''
      else let p = rev (dropWhile (\<lambda>c. c = CHR ''/'') (rev path));
               b = rev (takeWhile (\<lambda>c. c \<noteq> CHR ''/'') (rev p))
           in if b = [] then ''/'' else b)"

text \<open>The loop of \<open>Ext\<close> runs backwards until it meets a dot, or a slash.\<close>

fun ext_loop :: "string \<Rightarrow> string \<Rightarrow> string" where
  "ext_loop [] acc = []"
| "ext_loop (c # cs) acc =
     (if c = CHR ''/'' then [] else if c = CHR ''.'' then c # acc else ext_loop cs (c # acc))"

definition path_Ext :: "string \<Rightarrow> string" where
  "path_Ext path = ext_loop (rev path) []"

definition trim_suffix :: "string \<Rightarrow> string \<Rightarrow> string" where
  "trim_suffix s suf = (if suffix suf s then take (length s - length suf) s else s)"

lemma ext_loop_suffix: "suffix (ext_loop cs acc) (rev cs @ acc)"
proof (induction cs arbitrary: acc)
  case (Cons c cs)
  from Cons.IH [of "c # acc"] show ?case by (auto simp: suffix_def)
qed simp

lemma path_Ext_suffix: "suffix (path_Ext path) path"
  using ext_loop_suffix [of "rev path" "[]"] by (simp add: path_Ext_def)

lemma trim_suffix_append: "suffix suf s \<Longrightarrow> trim_suffix s suf @ suf = s"
  by (auto simp: trim_suffix_def suffix_def)

lemma trim_Ext: "trim_suffix path (path_Ext path) @ path_Ext path = path"
  by (rule trim_suffix_append [OF path_Ext_suffix])

lemma path_Base_no_slash: "path_Base path \<noteq> ''/'' \<Longrightarrow> CHR ''/'' \<notin> set (path_Base path)"
  by (auto simp: path_Base_def Let_def dest: set_takeWhileD split: if_splits)

section \<open>Decimal numerals\<close>

text \<open>The text of a number has digits only, and tells the number.\<close>

lemma show_nat_digits: "list_all is_digit (show_nat n) \<and> show_nat n \<noteq> []"
proof (induction n rule: show_nat.induct)
  case (1 n)
  have d: "is_digit (char_of (48 + k))" if "k < 10" for k :: nat
    using that by (simp add: is_digit_def less_eq_char_def of_char_of)
  show ?case
  proof (cases "n < 10")
    case True
    then show ?thesis by (simp add: show_nat.simps [of n] d)
  next
    case False
    then show ?thesis using 1 by (simp add: show_nat.simps [of n] d)
  qed
qed

lemma show_nat_inj: "show_nat m = show_nat n \<Longrightarrow> m = n"
proof (induction m arbitrary: n rule: show_nat.induct)
  case (1 m)
  have e: "(char_of (48 + a) :: char) = char_of (48 + b) \<longleftrightarrow> a = b" if "a < 10" "b < 10" for a b :: nat
  proof
    assume "(char_of (48 + a) :: char) = char_of (48 + b)"
    then have "byte_of (char_of (48 + a)) = byte_of (char_of (48 + b))" by simp
    then show "a = b" using that by (simp add: of_char_of)
  qed simp
  have ne: "show_nat k \<noteq> []" "[] \<noteq> show_nat k" for k using show_nat_digits [of k] by auto
  show ?case
  proof (cases "m < 10"; cases "n < 10")
    assume "m < 10" "n < 10"
    then show ?thesis using 1 e by (simp add: show_nat.simps [of m] show_nat.simps [of n])
  next
    assume "m < 10" "\<not> n < 10"
    then show ?thesis using 1 ne by (simp add: show_nat.simps [of m] show_nat.simps [of n])
  next
    assume "\<not> m < 10" "n < 10"
    then show ?thesis using 1 ne by (simp add: show_nat.simps [of m] show_nat.simps [of n])
  next
    assume a: "\<not> m < 10" "\<not> n < 10"
    then have "show_nat (m div 10) = show_nat (n div 10) \<and> m mod 10 = n mod 10"
      using 1(2) e by (simp add: show_nat.simps [of m] show_nat.simps [of n])
    then have "m div 10 = n div 10" "m mod 10 = n mod 10" using 1(1) a by auto
    then show ?thesis by (metis mult_div_mod_eq)
  qed
qed

end
