(* ===== verification/Sync_Conflicts.thy ===== *)
theory Sync_Conflicts imports Go_Path Sync_Types begin

text \<open>
  Conflicts between the versions of a file (\<^verbatim>\<open>pkg/sync/conflict_resolver.go\<close>,
  \<^verbatim>\<open>pkg/sync/conflict_strategies.go\<close>): their detection, and the strategies that choose a version.

  A conflict is shared by pointer: the resolver keeps it in a map and the caller that resolves it holds
  it too.  The store \<open>CR_store\<close> holds the conflicts by their reference.  Versions are never changed, so
  they are values.  Clock readings, new identifiers and the reference of a new conflict are arguments,
  and a time counts nanoseconds from Go's zero time.  \<open>rfc3339\<close> prints a time.
\<close>

section \<open>Data\<close>

definition zero_time :: time where [simp]: "zero_time = 0"

definition ConflictStrategyLastWrite :: string where [simp]: "ConflictStrategyLastWrite = ''last_write''"
definition ConflictStrategyFirstWrite :: string where [simp]: "ConflictStrategyFirstWrite = ''first_write''"
definition ConflictStrategyLargestFile :: string where [simp]: "ConflictStrategyLargestFile = ''largest_file''"
definition ConflictStrategySourcePriority :: string where [simp]: "ConflictStrategySourcePriority = ''source_priority''"
definition ConflictStrategyManual :: string where [simp]: "ConflictStrategyManual = ''manual''"
definition ConflictStrategyMerge :: string where [simp]: "ConflictStrategyMerge = ''merge''"
definition ConflictStrategyPreserveBoth :: string where [simp]: "ConflictStrategyPreserveBoth = ''preserve_both''"
definition ConflictStrategySkip :: string where [simp]: "ConflictStrategySkip = ''skip''"

definition ConflictTypeModifyModify :: string where [simp]: "ConflictTypeModifyModify = ''modify_modify''"
definition ConflictTypeModifyDelete :: string where [simp]: "ConflictTypeModifyDelete = ''modify_delete''"
definition ConflictTypeCreateCreate :: string where [simp]: "ConflictTypeCreateCreate = ''create_create''"
definition ConflictTypeRenameRename :: string where [simp]: "ConflictTypeRenameRename = ''rename_rename''"
definition ConflictTypeDirectoryFile :: string where [simp]: "ConflictTypeDirectoryFile = ''directory_file''"
definition ConflictTypeCyclicMove :: string where [simp]: "ConflictTypeCyclicMove = ''cyclic_move''"
definition ConflictTypeModified :: string where [simp]: "ConflictTypeModified = ''modified''"
definition ConflictTypeDeleted :: string where [simp]: "ConflictTypeDeleted = ''deleted''"

definition ConflictStatusDetected :: string where [simp]: "ConflictStatusDetected = ''detected''"
definition ConflictStatusPending :: string where [simp]: "ConflictStatusPending = ''pending''"
definition ConflictStatusResolving :: string where [simp]: "ConflictStatusResolving = ''resolving''"
definition ConflictStatusResolved :: string where [simp]: "ConflictStatusResolved = ''resolved''"
definition ConflictStatusFailed :: string where [simp]: "ConflictStatusFailed = ''failed''"

definition ConflictSeverityLow :: string where [simp]: "ConflictSeverityLow = ''low''"
definition ConflictSeverityMedium :: string where [simp]: "ConflictSeverityMedium = ''medium''"
definition ConflictSeverityHigh :: string where [simp]: "ConflictSeverityHigh = ''high''"
definition ConflictSeverityCritical :: string where [simp]: "ConflictSeverityCritical = ''critical''"

record ConflictFileVersion =
  FV_DataSourceID :: uuid
  FV_ConnectorType :: string
  FV_FilePath :: string
  FV_FileSize :: int
  FV_ModifiedTime :: time
  FV_CreatedTime :: time
  FV_Checksum :: string
  FV_ContentType :: string
  FV_IsDirectory :: bool
  FV_IsDeleted :: bool
  FV_Metadata :: metadata

record SyncConflict =
  CN_ID :: uuid
  CN_ConflictType :: string
  CN_FilePath :: string
  CN_DetectedAt :: time
  CN_ResolvedAt :: "time option"
  CN_Resolution :: string
  CN_Status :: string
  CN_InvolvedDataSources :: "uuid list"
  CN_FileVersions :: "ConflictFileVersion list"
  CN_ResolvedVersion :: "ConflictFileVersion option"
  CN_ResolutionMetadata :: metadata
  CN_AutoResolvable :: bool
  CN_RequiresUserInput :: bool
  CN_Severity :: string
  CN_Description :: string
  CN_SuggestedResolution :: string

record ConflictResolverConfig =
  CRC_DefaultStrategy :: string
  CRC_AutoResolveTimeout :: duration
  CRC_MaxConflictAge :: duration
  CRC_EnableVersioning :: bool
  CRC_VersioningSuffix :: string
  CRC_ConflictNotificationURL :: string
  CRC_EnableManualResolution :: bool
  CRC_BackupConflictedFiles :: bool
  CRC_ConflictBackupPath :: string

record ConflictResolutionAction =
  ACT_Type :: string
  ACT_Source :: string
  ACT_Target :: string
  ACT_Description :: string
  ACT_Metadata :: metadata

record ConflictResolution =
  RES_ResolvedVersion :: "ConflictFileVersion option"
  RES_AdditionalVersions :: "ConflictFileVersion list"
  RES_RequiresSync :: bool
  RES_Actions :: "ConflictResolutionAction list"
  RES_Metadata :: metadata

record ConflictFilters =
  CFL_Status :: string
  CFL_ConflictType :: string
  CFL_Severity :: string
  CFL_DataSourceID :: uuid
  CFL_Since :: "time option"

datatype conflict_error =
    ErrStrategyNotSupported string
  | ErrCannotResolve string string
  | ErrNoFileVersions
  | ErrNotDetermined
  | ErrTooFewVersions
  | ErrResolutionFailed conflict_error
  | ErrConflictNotFound

section \<open>The choice of a version\<close>

text \<open>The loop of three strategies: it keeps the best value so far, and a version replaces the chosen
  one only when it is strictly better.  A version without a key is passed over.\<close>

fun pick :: "(int \<Rightarrow> int \<Rightarrow> bool) \<Rightarrow> ('v \<Rightarrow> int option) \<Rightarrow> int \<Rightarrow> 'v option \<Rightarrow> 'v list \<Rightarrow> int \<times> 'v option" where
  "pick better key best chosen [] = (best, chosen)"
| "pick better key best chosen (v # vs) =
     (case key v of
        Some k \<Rightarrow> if better k best then pick better key k (Some v) vs else pick better key best chosen vs
      | None \<Rightarrow> pick better key best chosen vs)"

text \<open>What a strict order gives: the choice is the first among the best, and none is chosen only when
  no key is better than the start.\<close>

locale strict_choice =
  fixes better :: "int \<Rightarrow> int \<Rightarrow> bool"
  assumes irrefl: "\<not> better a a"
    and trans: "better a b \<Longrightarrow> better b c \<Longrightarrow> better a c"
    and total: "\<not> better a b \<Longrightarrow> \<not> better b a \<Longrightarrow> a = b"
begin

lemma pick_first_best:
  "pick better key best chosen vs = (k, c) \<Longrightarrow>
     (c = chosen \<and> k = best \<and> (\<forall>w \<in> set vs. \<forall>j. key w = Some j \<longrightarrow> \<not> better j best)) \<or>
     (\<exists>v us ws. c = Some v \<and> vs = us @ v # ws \<and> key v = Some k \<and> better k best \<and>
        (\<forall>w \<in> set us. \<forall>j. key w = Some j \<longrightarrow> better k j) \<and>
        (\<forall>w \<in> set ws. \<forall>j. key w = Some j \<longrightarrow> \<not> better j k))"
proof (induction vs arbitrary: best chosen)
  case Nil
  then show ?case by simp
next
  case (Cons v vs)
  have pass: ?case
    if not_better: "\<forall>j. key v = Some j \<longrightarrow> \<not> better j best" and rest: "pick better key best chosen vs = (k, c)"
  proof (rule disjE [OF Cons.IH [OF rest]])
    assume "c = chosen \<and> k = best \<and> (\<forall>w \<in> set vs. \<forall>j. key w = Some j \<longrightarrow> \<not> better j best)"
    then show ?thesis using not_better by simp
  next
    assume "\<exists>u us ws. c = Some u \<and> vs = us @ u # ws \<and> key u = Some k \<and> better k best \<and>
      (\<forall>w \<in> set us. \<forall>j. key w = Some j \<longrightarrow> better k j) \<and> (\<forall>w \<in> set ws. \<forall>j. key w = Some j \<longrightarrow> \<not> better j k)"
    then obtain u us ws where u: "c = Some u" "vs = us @ u # ws" "key u = Some k" "better k best"
      "\<forall>w \<in> set us. \<forall>j. key w = Some j \<longrightarrow> better k j" "\<forall>w \<in> set ws. \<forall>j. key w = Some j \<longrightarrow> \<not> better j k"
      by blast
    have "better k j" if "key v = Some j" for j
      using not_better that u(4) trans total by metis
    then show ?thesis using u by (intro disjI2 exI [of _ u] exI [of _ "v # us"] exI [of _ ws]) auto
  qed
  show ?case
  proof (cases "key v")
    case None
    then show ?thesis using Cons.prems pass by simp
  next
    case (Some j)
    show ?thesis
    proof (cases "better j best")
      case False
      then show ?thesis using Cons.prems pass Some by simp
    next
      case True
      then have "pick better key j (Some v) vs = (k, c)" using Cons.prems Some by simp
      then show ?thesis
      proof (rule disjE [OF Cons.IH])
        assume "c = Some v \<and> k = j \<and> (\<forall>w \<in> set vs. \<forall>i. key w = Some i \<longrightarrow> \<not> better i j)"
        then show ?thesis using True Some by (intro disjI2 exI [of _ v] exI [of _ "[]"] exI [of _ vs]) auto
      next
        assume "\<exists>u us ws. c = Some u \<and> vs = us @ u # ws \<and> key u = Some k \<and> better k j \<and>
          (\<forall>w \<in> set us. \<forall>i. key w = Some i \<longrightarrow> better k i) \<and> (\<forall>w \<in> set ws. \<forall>i. key w = Some i \<longrightarrow> \<not> better i k)"
        then obtain u us ws where u: "c = Some u" "vs = us @ u # ws" "key u = Some k" "better k j"
          "\<forall>w \<in> set us. \<forall>i. key w = Some i \<longrightarrow> better k i" "\<forall>w \<in> set ws. \<forall>i. key w = Some i \<longrightarrow> \<not> better i k"
          by blast
        then show ?thesis using True Some trans [OF u(4) True]
          by (intro disjI2 exI [of _ u] exI [of _ "v # us"] exI [of _ ws]) auto
      qed
    qed
  qed
qed

end

interpretation later: strict_choice "(>)" by unfold_locales auto
interpretation earlier: strict_choice "(<)" by unfold_locales auto

section \<open>The strategies\<close>

text \<open>\<open>SourcePriorityStrategy\<close> fills its table on the first question, so the strategies have state.\<close>

datatype resolution_strategy =
    LastWriteStrategy
  | FirstWriteStrategy
  | LargestFileStrategy
  | PreserveBothStrategy ConflictResolverConfig
  | SourcePriorityStrategy "(string \<rightharpoonup> int) option"
  | SkipStrategy
  | MergeStrategy
  | ManualStrategy

definition default_priorities :: "string \<rightharpoonup> int" where
  "default_priorities =
     [''googledrive'' \<mapsto> 100, ''onedrive'' \<mapsto> 90, ''dropbox'' \<mapsto> 80, ''box'' \<mapsto> 70, ''sharepoint'' \<mapsto> 60,
      ''slack'' \<mapsto> 50, ''notion'' \<mapsto> 40]"

definition isTextFile :: "(string \<Rightarrow> string) \<Rightarrow> ConflictFileVersion \<Rightarrow> bool" where
  "isTextFile lower version \<longleftrightarrow>
     (\<exists>m \<in> set [''text/plain'', ''text/markdown'', ''text/csv'', ''application/json'', ''application/xml'', ''text/xml''].
        str_contains (FV_ContentType version) m) \<or>
     lower (path_Ext (FV_FilePath version)) \<in> set [''.txt'', ''.md'', ''.json'', ''.xml'', ''.csv'', ''.log'']"

text \<open>What the methods \<open>CanResolve\<close> of the strategies ask.\<close>

definition can_last_write :: "SyncConflict \<Rightarrow> bool" where
  [simp]: "can_last_write c \<longleftrightarrow> (\<forall>v \<in> set (CN_FileVersions c). FV_ModifiedTime v \<noteq> zero_time)"

definition can_first_write :: "SyncConflict \<Rightarrow> bool" where
  [simp]: "can_first_write c \<longleftrightarrow>
     (\<forall>v \<in> set (CN_FileVersions c). \<not> (FV_ModifiedTime v = zero_time \<and> FV_CreatedTime v = zero_time))"

definition can_largest_file :: "SyncConflict \<Rightarrow> bool" where
  [simp]: "can_largest_file c \<longleftrightarrow> (\<forall>v \<in> set (CN_FileVersions c). \<not> FV_IsDirectory v)"

definition can_preserve_both :: "SyncConflict \<Rightarrow> bool" where
  [simp]: "can_preserve_both c \<longleftrightarrow> CN_ConflictType c \<noteq> ConflictTypeDirectoryFile"

definition can_source_priority :: "(string \<rightharpoonup> int) \<Rightarrow> SyncConflict \<Rightarrow> bool" where
  [simp]: "can_source_priority t c \<longleftrightarrow> (\<exists>v \<in> set (CN_FileVersions c). t (FV_ConnectorType v) \<noteq> None)"

definition can_merge :: "(string \<Rightarrow> string) \<Rightarrow> SyncConflict \<Rightarrow> bool" where
  [simp]: "can_merge lower c \<longleftrightarrow>
     CN_ConflictType c = ConflictTypeModifyModify \<and> (\<forall>v \<in> set (CN_FileVersions c). isTextFile lower v)"

text \<open>The call of the method through the interface, with the strategy it leaves.\<close>

fun CanResolve :: "(string \<Rightarrow> string) \<Rightarrow> resolution_strategy \<Rightarrow> SyncConflict \<Rightarrow> bool \<times> resolution_strategy" where
  "CanResolve lower LastWriteStrategy c = (can_last_write c, LastWriteStrategy)"
| "CanResolve lower FirstWriteStrategy c = (can_first_write c, FirstWriteStrategy)"
| "CanResolve lower LargestFileStrategy c = (can_largest_file c, LargestFileStrategy)"
| "CanResolve lower (PreserveBothStrategy cfg) c = (can_preserve_both c, PreserveBothStrategy cfg)"
| "CanResolve lower (SourcePriorityStrategy ps) c =
     (let t = (case ps of None \<Rightarrow> default_priorities | Some t \<Rightarrow> t)
      in (can_source_priority t c, SourcePriorityStrategy (Some t)))"
| "CanResolve lower SkipStrategy c = (True, SkipStrategy)"
| "CanResolve lower MergeStrategy c = (can_merge lower c, MergeStrategy)"
| "CanResolve lower ManualStrategy c = (True, ManualStrategy)"

definition single_action :: "string \<Rightarrow> string \<Rightarrow> string \<Rightarrow> string \<Rightarrow> ConflictResolutionAction" where
  "single_action ty src target descr =
     \<lparr>ACT_Type = ty, ACT_Source = src, ACT_Target = target, ACT_Description = descr, ACT_Metadata = Map.empty\<rparr>"

definition created_or_modified :: "ConflictFileVersion \<Rightarrow> time" where
  "created_or_modified v = (if FV_CreatedTime v \<noteq> zero_time then FV_CreatedTime v else FV_ModifiedTime v)"

definition resolve_last_write :: "(time \<Rightarrow> string) \<Rightarrow> SyncConflict \<Rightarrow> (conflict_error, ConflictResolution) outcome" where
  "resolve_last_write rfc3339 c =
     (if CN_FileVersions c = [] then Err ErrNoFileVersions
      else case snd (pick (>) (Some \<circ> FV_ModifiedTime) zero_time None (CN_FileVersions c)) of
        None \<Rightarrow> Err ErrNotDetermined
      | Some v \<Rightarrow> Ok \<lparr>RES_ResolvedVersion = Some v, RES_AdditionalVersions = [], RES_RequiresSync = True,
          RES_Actions = [single_action ''update'' (FV_ConnectorType v) (CN_FilePath c)
            (''Updated to latest version from '' @ FV_ConnectorType v @ '' (modified: '' @ rfc3339 (FV_ModifiedTime v) @ '')'')],
          RES_Metadata = [''strategy'' \<mapsto> MetaString ''last_write'', ''chosen_version'' \<mapsto> MetaString (FV_DataSourceID v),
            ''modified_time'' \<mapsto> MetaTime (FV_ModifiedTime v),
            ''rejected_count'' \<mapsto> MetaInt (int (length (CN_FileVersions c)) - 1)]\<rparr>)"

definition resolve_first_write :: "time \<Rightarrow> SyncConflict \<Rightarrow> (conflict_error, ConflictResolution) outcome" where
  "resolve_first_write now c =
     (if CN_FileVersions c = [] then Err ErrNoFileVersions
      else case snd (pick (<) (Some \<circ> created_or_modified) now None (CN_FileVersions c)) of
        None \<Rightarrow> Err ErrNotDetermined
      | Some v \<Rightarrow> Ok \<lparr>RES_ResolvedVersion = Some v, RES_AdditionalVersions = [], RES_RequiresSync = True,
          RES_Actions = [single_action ''revert'' (FV_ConnectorType v) (CN_FilePath c)
            (''Reverted to original version from '' @ FV_ConnectorType v)],
          RES_Metadata = [''strategy'' \<mapsto> MetaString ''first_write'', ''chosen_version'' \<mapsto> MetaString (FV_DataSourceID v),
            ''creation_time'' \<mapsto> MetaTime (FV_CreatedTime v)]\<rparr>)"

definition resolve_largest_file :: "SyncConflict \<Rightarrow> (conflict_error, ConflictResolution) outcome" where
  "resolve_largest_file c =
     (if CN_FileVersions c = [] then Err ErrNoFileVersions
      else case snd (pick (>) (Some \<circ> FV_FileSize) 0 None (CN_FileVersions c)) of
        None \<Rightarrow> Err ErrNotDetermined
      | Some v \<Rightarrow> Ok \<lparr>RES_ResolvedVersion = Some v, RES_AdditionalVersions = [], RES_RequiresSync = True,
          RES_Actions = [single_action ''update'' (FV_ConnectorType v) (CN_FilePath c)
            (''Updated to largest version from '' @ FV_ConnectorType v @ '' ('' @ show_int (FV_FileSize v) @ '' bytes)'')],
          RES_Metadata = [''strategy'' \<mapsto> MetaString ''largest_file'', ''chosen_version'' \<mapsto> MetaString (FV_DataSourceID v),
            ''file_size'' \<mapsto> MetaInt (FV_FileSize v)]\<rparr>)"

text \<open>A versioned copy is named after the path of the conflict, the connector and the index.\<close>

definition versioned_name :: "string \<Rightarrow> nat \<Rightarrow> ConflictFileVersion \<Rightarrow> string" where
  "versioned_name path i v =
     trim_suffix path (path_Ext path) @ ''_'' @ FV_ConnectorType v @ ''_'' @ show_nat i @ path_Ext path"

fun versioned_copies :: "string \<Rightarrow> nat \<Rightarrow> ConflictFileVersion list \<Rightarrow> (ConflictFileVersion \<times> ConflictResolutionAction) list" where
  "versioned_copies path i [] = []"
| "versioned_copies path i (v # vs) =
     (let n = versioned_name path i v
      in (v\<lparr>FV_FilePath := n\<rparr>,
          \<lparr>ACT_Type = ''create'', ACT_Source = FV_ConnectorType v, ACT_Target = n,
           ACT_Description = ''Created versioned copy: '' @ n,
           ACT_Metadata = [''original_path'' \<mapsto> MetaString path, ''source_id'' \<mapsto> MetaString (FV_DataSourceID v)]\<rparr>)
         # versioned_copies path (Suc i) vs)"

definition resolve_preserve_both :: "SyncConflict \<Rightarrow> (conflict_error, ConflictResolution) outcome" where
  "resolve_preserve_both c =
     (case CN_FileVersions c of
        [] \<Rightarrow> Err ErrNoFileVersions
      | main # vs \<Rightarrow>
          (let copies = versioned_copies (CN_FilePath c) 1 vs
           in Ok \<lparr>RES_ResolvedVersion = Some main, RES_AdditionalVersions = map fst copies, RES_RequiresSync = True,
             RES_Actions = map snd copies @
               [single_action ''update'' (FV_ConnectorType main) (CN_FilePath c) (''Kept original path: '' @ CN_FilePath c)],
             RES_Metadata = [''strategy'' \<mapsto> MetaString ''preserve_both'', ''main_version'' \<mapsto> MetaString (FV_DataSourceID main),
               ''additional_count'' \<mapsto> MetaInt (int (length copies))]\<rparr>))"

text \<open>Reading the table before it is filled finds nothing.\<close>

definition source_priority :: "(string \<rightharpoonup> int) option \<Rightarrow> ConflictFileVersion \<Rightarrow> int option" where
  "source_priority ps v = (case ps of None \<Rightarrow> None | Some t \<Rightarrow> t (FV_ConnectorType v))"

definition resolve_source_priority ::
  "(string \<rightharpoonup> int) option \<Rightarrow> SyncConflict \<Rightarrow> (conflict_error, ConflictResolution) outcome" where
  "resolve_source_priority ps c =
     (if CN_FileVersions c = [] then Err ErrNoFileVersions
      else let (p, chosen) = pick (>) (source_priority ps) (- 1) None (CN_FileVersions c);
               v = (case chosen of None \<Rightarrow> hd (CN_FileVersions c) | Some v \<Rightarrow> v)
           in Ok \<lparr>RES_ResolvedVersion = Some v, RES_AdditionalVersions = [], RES_RequiresSync = True,
             RES_Actions = [single_action ''update'' (FV_ConnectorType v) (CN_FilePath c)
               (''Updated to version from highest priority source: '' @ FV_ConnectorType v)],
             RES_Metadata = [''strategy'' \<mapsto> MetaString ''source_priority'', ''chosen_version'' \<mapsto> MetaString (FV_DataSourceID v),
               ''source_priority'' \<mapsto> MetaInt p, ''winning_source'' \<mapsto> MetaString (FV_ConnectorType v)]\<rparr>)"

definition resolve_skip :: "SyncConflict \<Rightarrow> (conflict_error, ConflictResolution) outcome" where
  "resolve_skip c =
     Ok \<lparr>RES_ResolvedVersion = None, RES_AdditionalVersions = [], RES_RequiresSync = False,
       RES_Actions = [single_action ''skip'' ''system'' (CN_FilePath c) (''Skipped conflicted file: '' @ CN_FilePath c)],
       RES_Metadata = [''strategy'' \<mapsto> MetaString ''skip'', ''skipped_count'' \<mapsto> MetaInt (int (length (CN_FileVersions c))),
         ''reason'' \<mapsto> MetaString ''conflict_resolution_skipped'']\<rparr>"

definition resolve_merge :: "time \<Rightarrow> SyncConflict \<Rightarrow> (conflict_error, ConflictResolution) outcome" where
  "resolve_merge now c =
     (case CN_FileVersions c of
        base # _ # _ \<Rightarrow>
          Ok \<lparr>RES_ResolvedVersion = Some (base\<lparr>FV_FilePath := CN_FilePath c, FV_ModifiedTime := now\<rparr>),
            RES_AdditionalVersions = [], RES_RequiresSync = True,
            RES_Actions = [\<lparr>ACT_Type = ''merge'', ACT_Source = ''system'', ACT_Target = CN_FilePath c,
              ACT_Description = ''Merged '' @ show_nat (length (CN_FileVersions c)) @ '' versions into single file'',
              ACT_Metadata = [''merged_sources'' \<mapsto> MetaStrings (map FV_ConnectorType (CN_FileVersions c))]\<rparr>],
            RES_Metadata = [''strategy'' \<mapsto> MetaString ''merge'', ''merged_count'' \<mapsto> MetaInt (int (length (CN_FileVersions c))),
              ''merge_type'' \<mapsto> MetaString ''text'', ''base_version'' \<mapsto> MetaString (FV_DataSourceID base)]\<rparr>
      | _ \<Rightarrow> Err ErrTooFewVersions)"

definition resolve_manual :: "SyncConflict \<Rightarrow> (conflict_error, ConflictResolution) outcome" where
  "resolve_manual c =
     Ok \<lparr>RES_ResolvedVersion = None, RES_AdditionalVersions = [], RES_RequiresSync = False,
       RES_Actions = [single_action ''manual_review'' ''system'' (CN_FilePath c)
         (''Marked for manual resolution: '' @ CN_FilePath c)],
       RES_Metadata = [''strategy'' \<mapsto> MetaString ''manual'', ''requires_review'' \<mapsto> MetaBool True,
         ''conflict_id'' \<mapsto> MetaString (CN_ID c), ''versions_count'' \<mapsto> MetaInt (int (length (CN_FileVersions c)))]\<rparr>"

fun StrategyResolve :: "(time \<Rightarrow> string) \<Rightarrow> time \<Rightarrow> resolution_strategy \<Rightarrow> SyncConflict \<Rightarrow>
    (conflict_error, ConflictResolution) outcome" where
  "StrategyResolve rfc3339 now LastWriteStrategy c = resolve_last_write rfc3339 c"
| "StrategyResolve rfc3339 now FirstWriteStrategy c = resolve_first_write now c"
| "StrategyResolve rfc3339 now LargestFileStrategy c = resolve_largest_file c"
| "StrategyResolve rfc3339 now (PreserveBothStrategy cfg) c = resolve_preserve_both c"
| "StrategyResolve rfc3339 now (SourcePriorityStrategy ps) c = resolve_source_priority ps c"
| "StrategyResolve rfc3339 now SkipStrategy c = resolve_skip c"
| "StrategyResolve rfc3339 now MergeStrategy c = resolve_merge now c"
| "StrategyResolve rfc3339 now ManualStrategy c = resolve_manual c"

section \<open>The resolver\<close>

type_synonym conflict_ref = nat

record ConflictResolver =
  CR_config :: ConflictResolverConfig
  CR_activeConflicts :: "uuid \<rightharpoonup> conflict_ref"
  CR_strategies :: "string \<rightharpoonup> resolution_strategy"
  CR_store :: "conflict_ref \<rightharpoonup> SyncConflict"

definition default_conflict_config :: ConflictResolverConfig where
  "default_conflict_config =
     \<lparr>CRC_DefaultStrategy = ConflictStrategyLastWrite, CRC_AutoResolveTimeout = 30 * 60 * 1000000000,
      CRC_MaxConflictAge = 7 * 24 * 3600 * 1000000000, CRC_EnableVersioning = True,
      CRC_VersioningSuffix = ''_v{version}'', CRC_ConflictNotificationURL = [], CRC_EnableManualResolution = True,
      CRC_BackupConflictedFiles = True, CRC_ConflictBackupPath = ''/backups/conflicts''\<rparr>"

definition registerDefaultStrategies :: "ConflictResolver \<Rightarrow> ConflictResolver" where
  "registerDefaultStrategies cr = cr\<lparr>CR_strategies := (CR_strategies cr)
     (ConflictStrategyLastWrite \<mapsto> LastWriteStrategy,
      ConflictStrategyFirstWrite \<mapsto> FirstWriteStrategy,
      ConflictStrategyLargestFile \<mapsto> LargestFileStrategy,
      ConflictStrategyPreserveBoth \<mapsto> PreserveBothStrategy (CR_config cr),
      ConflictStrategySourcePriority \<mapsto> SourcePriorityStrategy None,
      ConflictStrategySkip \<mapsto> SkipStrategy)\<rparr>"

definition NewConflictResolver ::
  "(conflict_ref \<rightharpoonup> SyncConflict) \<Rightarrow> ConflictResolverConfig option \<Rightarrow> ConflictResolver" where
  "NewConflictResolver store config = registerDefaultStrategies
     \<lparr>CR_config = (case config of None \<Rightarrow> default_conflict_config | Some cfg \<Rightarrow> cfg),
      CR_activeConflicts = Map.empty, CR_strategies = Map.empty, CR_store = store\<rparr>"

definition hasContentConflicts :: "ConflictFileVersion list \<Rightarrow> bool" where
  "hasContentConflicts versions \<longleftrightarrow>
     \<not> length versions < 2 \<and> card (set (filter (\<lambda>s. s \<noteq> []) (map FV_Checksum versions))) > 1"

definition hasRenameConflicts :: "ConflictFileVersion list \<Rightarrow> bool" where
  "hasRenameConflicts versions \<longleftrightarrow>
     \<not> length versions < 2 \<and> card (set (map (path_Base \<circ> FV_FilePath) versions)) > 1"

text \<open>The counters of the loop: modifications, deletions and creations.\<close>

definition is_deletion :: "ConflictFileVersion \<Rightarrow> bool" where
  "is_deletion v \<longleftrightarrow> FV_IsDeleted v"

definition is_creation :: "ConflictFileVersion \<Rightarrow> bool" where
  "is_creation v \<longleftrightarrow> \<not> FV_IsDeleted v \<and> FV_ModifiedTime v = zero_time"

definition is_modification :: "ConflictFileVersion \<Rightarrow> bool" where
  "is_modification v \<longleftrightarrow> \<not> FV_IsDeleted v \<and> FV_ModifiedTime v \<noteq> zero_time"

definition analyzeConflictType :: "ConflictFileVersion list \<Rightarrow> string" where
  "analyzeConflictType versions =
     (if length versions < 2 then []
      else
        let hasModifications = length (filter is_modification versions);
            hasDeletions = length (filter is_deletion versions);
            hasCreations = length (filter is_creation versions);
            hasFiles = length (filter (\<lambda>v. \<not> FV_IsDirectory v) versions);
            hasDirectories = length (filter FV_IsDirectory versions)
        in if hasModifications > 1 then ConflictTypeModifyModify
           else if hasModifications > 0 \<and> hasDeletions > 0 then ConflictTypeModifyDelete
           else if hasCreations > 1 \<and> hasContentConflicts versions then ConflictTypeCreateCreate
           else if hasFiles > 0 \<and> hasDirectories > 0 then ConflictTypeDirectoryFile
           else if hasRenameConflicts versions then ConflictTypeRenameRename
           else ConflictTypeModifyModify)"

definition isAutoResolvable :: "string \<Rightarrow> bool" where
  "isAutoResolvable ct \<longleftrightarrow> ct = ConflictTypeModifyModify \<or> ct = ConflictTypeCreateCreate"

text \<open>The difference of two sizes of 64 bits, and its absolute value, wrap around.  A quotient by zero
  is an infinity or NaN, of which only the positive infinity is above a tenth.\<close>

definition wrap64 :: "int \<Rightarrow> int" where
  "wrap64 i = (i + 2 ^ 63) mod 2 ^ 64 - 2 ^ 63"

definition size_diff :: "int \<Rightarrow> int \<Rightarrow> int" where
  "size_diff a b = (let d = wrap64 (a - b) in if d < 0 then wrap64 (- d) else d)"

definition above_tenth :: "int \<Rightarrow> int \<Rightarrow> bool" where
  "above_tenth d base \<longleftrightarrow>
     (if base = 0 then d > 0 else f64_div (round64 (of_int d)) (round64 (of_int base)) > round64 (1 / 10))"

definition hasSignificantChanges :: "ConflictFileVersion list \<Rightarrow> bool" where
  "hasSignificantChanges versions \<longleftrightarrow>
     (case versions of
        v0 # v1 # vs \<Rightarrow> \<exists>v \<in> set (v1 # vs). above_tenth (size_diff (FV_FileSize v) (FV_FileSize v0)) (FV_FileSize v0)
      | _ \<Rightarrow> False)"

definition calculateSeverity :: "string \<Rightarrow> ConflictFileVersion list \<Rightarrow> string" where
  "calculateSeverity ct versions =
     (if ct = ConflictTypeModifyDelete then ConflictSeverityHigh
      else if ct = ConflictTypeDirectoryFile then ConflictSeverityHigh
      else if ct = ConflictTypeCyclicMove then ConflictSeverityCritical
      else if ct = ConflictTypeModifyModify
           then (if hasSignificantChanges versions then ConflictSeverityMedium else ConflictSeverityLow)
      else ConflictSeverityMedium)"

definition suggestResolution :: "ConflictResolverConfig \<Rightarrow> string \<Rightarrow> string" where
  "suggestResolution cfg ct =
     (if ct = ConflictTypeModifyModify then ConflictStrategyLastWrite
      else if ct = ConflictTypeModifyDelete then ConflictStrategyManual
      else if ct = ConflictTypeCreateCreate then ConflictStrategyPreserveBoth
      else if ct = ConflictTypeDirectoryFile then ConflictStrategyManual
      else if ct = ConflictTypeRenameRename then ConflictStrategyManual
      else CRC_DefaultStrategy cfg)"

definition generateConflictDescription :: "string \<Rightarrow> string \<Rightarrow> nat \<Rightarrow> string" where
  "generateConflictDescription ct path n =
     (let quoted = [CHR 0x27] @ path @ [CHR 0x27]
      in if ct = ConflictTypeModifyModify
         then ''File '' @ quoted @ '' was modified in '' @ show_nat n @ '' different data sources''
         else if ct = ConflictTypeModifyDelete
         then ''File '' @ quoted @ '' was modified in one source and deleted in another''
         else if ct = ConflictTypeCreateCreate
         then ''File '' @ quoted @ '' was created with different content in multiple sources''
         else if ct = ConflictTypeDirectoryFile
         then ''Path '' @ quoted @ '' is a directory in one source and a file in another''
         else if ct = ConflictTypeRenameRename then ''File was renamed differently in multiple sources''
         else ''Sync conflict detected for '' @ quoted)"

definition new_conflict :: "ConflictResolverConfig \<Rightarrow> uuid \<Rightarrow> time \<Rightarrow> string \<Rightarrow> ConflictFileVersion list \<Rightarrow> SyncConflict" where
  "new_conflict cfg new_id now filePath versions =
     (let ct = analyzeConflictType versions; severity = calculateSeverity ct versions
      in \<lparr>CN_ID = new_id, CN_ConflictType = ct, CN_FilePath = filePath, CN_DetectedAt = now, CN_ResolvedAt = None,
          CN_Resolution = [], CN_Status = ConflictStatusDetected,
          CN_InvolvedDataSources = map FV_DataSourceID versions, CN_FileVersions = versions,
          CN_ResolvedVersion = None, CN_ResolutionMetadata = Map.empty, CN_AutoResolvable = isAutoResolvable ct,
          CN_RequiresUserInput = (\<not> isAutoResolvable ct \<or> severity = ConflictSeverityHigh), CN_Severity = severity,
          CN_Description = generateConflictDescription ct filePath (length versions),
          CN_SuggestedResolution = suggestResolution cfg ct\<rparr>)"

definition DetectConflict :: "conflict_ref \<Rightarrow> uuid \<Rightarrow> time \<Rightarrow> ConflictResolver \<Rightarrow> string \<Rightarrow> ConflictFileVersion list \<Rightarrow>
    ConflictResolver \<times> conflict_ref option" where
  "DetectConflict ref new_id now cr filePath versions =
     (if length versions < 2 then (cr, None)
      else if analyzeConflictType versions = [] then (cr, None)
      else
        (cr\<lparr>CR_store := (CR_store cr)(ref \<mapsto> new_conflict (CR_config cr) new_id now filePath versions),
            CR_activeConflicts := (CR_activeConflicts cr)(new_id \<mapsto> ref)\<rparr>, Some ref))"

definition put_conflict :: "conflict_ref \<Rightarrow> SyncConflict \<Rightarrow> ConflictResolver \<Rightarrow> ConflictResolver" where
  "put_conflict ref c cr = cr\<lparr>CR_store := (CR_store cr)(ref \<mapsto> c)\<rparr>"

definition ResolveConflict :: "(string \<Rightarrow> string) \<Rightarrow> (time \<Rightarrow> string) \<Rightarrow> time \<Rightarrow> time \<Rightarrow> ConflictResolver \<Rightarrow> conflict_ref \<Rightarrow>
    string \<Rightarrow> ConflictResolver \<times> (conflict_error, ConflictResolution) outcome" where
  "ResolveConflict lower rfc3339 now now' cr ref strategy =
     (case CR_store cr ref of
        None \<Rightarrow> (cr, Panic)
      | Some c0 \<Rightarrow>
          (let c = c0\<lparr>CN_Status := ConflictStatusResolving, CN_Resolution := strategy\<rparr>;
               failed = c\<lparr>CN_Status := ConflictStatusFailed\<rparr>
           in case CR_strategies cr strategy of
                None \<Rightarrow> (put_conflict ref failed cr, Err (ErrStrategyNotSupported strategy))
              | Some impl \<Rightarrow>
                  (let (can, impl') = CanResolve lower impl c;
                       cr' = cr\<lparr>CR_strategies := (CR_strategies cr)(strategy \<mapsto> impl')\<rparr>
                   in if \<not> can then (put_conflict ref failed cr', Err (ErrCannotResolve strategy (CN_ConflictType c)))
                      else case StrategyResolve rfc3339 now impl' c of
                        Err e \<Rightarrow> (put_conflict ref failed cr', Err (ErrResolutionFailed e))
                      | Ok r \<Rightarrow>
                          (put_conflict ref (c\<lparr>CN_ResolvedAt := Some now', CN_Status := ConflictStatusResolved,
                             CN_ResolvedVersion := RES_ResolvedVersion r, CN_ResolutionMetadata := RES_Metadata r\<rparr>) cr', Ok r)
                      | Panic \<Rightarrow> (cr', Panic))))"

definition GetConflict :: "ConflictResolver \<Rightarrow> uuid \<Rightarrow> (conflict_error, conflict_ref) outcome" where
  "GetConflict cr conflictID =
     (case CR_activeConflicts cr conflictID of None \<Rightarrow> Err ErrConflictNotFound | Some ref \<Rightarrow> Ok ref)"

definition conflict_passes :: "ConflictFilters \<Rightarrow> SyncConflict \<Rightarrow> bool" where
  "conflict_passes f c \<longleftrightarrow>
     \<not> (CFL_Status f \<noteq> [] \<and> CN_Status c \<noteq> CFL_Status f) \<and>
     \<not> (CFL_ConflictType f \<noteq> [] \<and> CN_ConflictType c \<noteq> CFL_ConflictType f) \<and>
     \<not> (CFL_Severity f \<noteq> [] \<and> CN_Severity c \<noteq> CFL_Severity f) \<and>
     \<not> (CFL_DataSourceID f \<noteq> nil_uuid \<and> CFL_DataSourceID f \<notin> set (CN_InvolvedDataSources c)) \<and>
     (case CFL_Since f of None \<Rightarrow> True | Some t \<Rightarrow> \<not> CN_DetectedAt c < t)"

text \<open>\<open>order\<close> is the order in which the loop visits the keys of the map.\<close>

definition ListConflicts :: "uuid list \<Rightarrow> ConflictResolver \<Rightarrow> ConflictFilters option \<Rightarrow> conflict_ref list" where
  "ListConflicts order cr filters =
     filter (\<lambda>ref. case filters of None \<Rightarrow> True | Some f \<Rightarrow> conflict_passes f (the (CR_store cr ref)))
       (List.map_filter (CR_activeConflicts cr) order)"

definition expired_conflict :: "time \<Rightarrow> SyncConflict \<Rightarrow> bool" where
  "expired_conflict cutoff c \<longleftrightarrow>
     CN_Status c = ConflictStatusResolved \<and> (case CN_ResolvedAt c of None \<Rightarrow> False | Some t \<Rightarrow> t < cutoff)"

definition CleanupOldConflicts :: "time \<Rightarrow> ConflictResolver \<Rightarrow> ConflictResolver" where
  "CleanupOldConflicts now cr =
     (let cutoff = now - CRC_MaxConflictAge (CR_config cr)
      in cr\<lparr>CR_activeConflicts := (\<lambda>i. case CR_activeConflicts cr i of
           None \<Rightarrow> None | Some ref \<Rightarrow> if expired_conflict cutoff (the (CR_store cr ref)) then None else Some ref)\<rparr>)"

section \<open>What a strategy chooses\<close>

text \<open>The first version that no other version beats, among those with a key.\<close>

definition first_best :: "(int \<Rightarrow> int \<Rightarrow> bool) \<Rightarrow> ('v \<Rightarrow> int option) \<Rightarrow> 'v list \<Rightarrow> 'v \<Rightarrow> bool" where
  "first_best better key vs v \<longleftrightarrow>
     (\<exists>us ws k. vs = us @ v # ws \<and> key v = Some k \<and>
        (\<forall>w \<in> set us. \<forall>j. key w = Some j \<longrightarrow> better k j) \<and> (\<forall>w \<in> set ws. \<forall>j. key w = Some j \<longrightarrow> \<not> better j k))"

context strict_choice
begin

lemma pick_Some: "snd (pick better key b None vs) = Some v \<Longrightarrow> first_best better key vs v"
  using pick_first_best [of key b None vs "fst (pick better key b None vs)" "Some v"]
  by (auto simp: first_best_def prod_eq_iff)

lemma pick_None: "snd (pick better key b None vs) = None \<longleftrightarrow> (\<forall>w \<in> set vs. \<forall>j. key w = Some j \<longrightarrow> \<not> better j b)"
proof
  assume "snd (pick better key b None vs) = None"
  then show "\<forall>w \<in> set vs. \<forall>j. key w = Some j \<longrightarrow> \<not> better j b"
    using pick_first_best [of key b None vs "fst (pick better key b None vs)" None] by (auto simp: prod_eq_iff)
next
  assume "\<forall>w \<in> set vs. \<forall>j. key w = Some j \<longrightarrow> \<not> better j b"
  then show "snd (pick better key b None vs) = None"
    by (induction vs) (auto split: option.splits)
qed

end

text \<open>The strategies a resolver offers: those registered at the start, one of them with its table.\<close>

definition offered :: "ConflictResolver \<Rightarrow> bool" where
  "offered cr \<longleftrightarrow>
     dom (CR_strategies cr) = {ConflictStrategyLastWrite, ConflictStrategyFirstWrite, ConflictStrategyLargestFile,
       ConflictStrategyPreserveBoth, ConflictStrategySourcePriority, ConflictStrategySkip} \<and>
     CR_strategies cr ConflictStrategyLastWrite = Some LastWriteStrategy \<and>
     CR_strategies cr ConflictStrategyFirstWrite = Some FirstWriteStrategy \<and>
     CR_strategies cr ConflictStrategyLargestFile = Some LargestFileStrategy \<and>
     CR_strategies cr ConflictStrategyPreserveBoth = Some (PreserveBothStrategy (CR_config cr)) \<and>
     (CR_strategies cr ConflictStrategySourcePriority = Some (SourcePriorityStrategy None) \<or>
      CR_strategies cr ConflictStrategySourcePriority = Some (SourcePriorityStrategy (Some default_priorities))) \<and>
     CR_strategies cr ConflictStrategySkip = Some SkipStrategy"

lemma offered_new: "offered (NewConflictResolver store config)"
  by (auto simp: offered_def NewConflictResolver_def registerDefaultStrategies_def)

text \<open>What the conflict and the resolver are after \<open>ResolveConflict\<close>, for each outcome.\<close>

lemma ResolveConflict_cases:
  assumes "ResolveConflict lower rfc3339 now now' cr ref strategy = (cr', r)"
  obtains (missing) "CR_store cr ref = None" "cr' = cr" "r = Panic"
  | (unsupported) c where "CR_store cr ref = Some c" "CR_strategies cr strategy = None"
      "cr' = put_conflict ref (c\<lparr>CN_Resolution := strategy, CN_Status := ConflictStatusFailed\<rparr>) cr"
      "r = Err (ErrStrategyNotSupported strategy)"
  | (refused) c impl impl' where "CR_store cr ref = Some c" "CR_strategies cr strategy = Some impl"
      "CanResolve lower impl c = (False, impl')"
      "cr' = put_conflict ref (c\<lparr>CN_Resolution := strategy, CN_Status := ConflictStatusFailed\<rparr>)
         (cr\<lparr>CR_strategies := (CR_strategies cr)(strategy \<mapsto> impl')\<rparr>)"
      "r = Err (ErrCannotResolve strategy (CN_ConflictType c))"
  | (failed) c impl impl' e where "CR_store cr ref = Some c" "CR_strategies cr strategy = Some impl"
      "CanResolve lower impl c = (True, impl')" "StrategyResolve rfc3339 now impl' c = Err e"
      "cr' = put_conflict ref (c\<lparr>CN_Resolution := strategy, CN_Status := ConflictStatusFailed\<rparr>)
         (cr\<lparr>CR_strategies := (CR_strategies cr)(strategy \<mapsto> impl')\<rparr>)"
      "r = Err (ErrResolutionFailed e)"
  | (resolved) c impl impl' res where "CR_store cr ref = Some c" "CR_strategies cr strategy = Some impl"
      "CanResolve lower impl c = (True, impl')" "StrategyResolve rfc3339 now impl' c = Ok res"
      "cr' = put_conflict ref (c\<lparr>CN_Resolution := strategy, CN_ResolvedAt := Some now', CN_Status := ConflictStatusResolved,
         CN_ResolvedVersion := RES_ResolvedVersion res, CN_ResolutionMetadata := RES_Metadata res\<rparr>)
         (cr\<lparr>CR_strategies := (CR_strategies cr)(strategy \<mapsto> impl')\<rparr>)"
      "r = Ok res"
proof (cases "CR_store cr ref")
  case None
  then show ?thesis using assms by (intro missing) (simp_all add: ResolveConflict_def)
next
  case (Some c)
  let ?c = "c\<lparr>CN_Status := ConflictStatusResolving, CN_Resolution := strategy\<rparr>"
  have can: "CanResolve lower impl ?c = CanResolve lower impl c" for impl by (cases impl) simp_all
  have res: "StrategyResolve rfc3339 now impl ?c = StrategyResolve rfc3339 now impl c" for impl
    by (cases impl) (simp_all add: resolve_last_write_def resolve_first_write_def resolve_largest_file_def
        resolve_preserve_both_def resolve_source_priority_def resolve_skip_def resolve_merge_def resolve_manual_def
        cong: list.case_cong option.case_cong)
  have no_panic: "StrategyResolve rfc3339 now impl c \<noteq> Panic" for impl
    by (cases impl) (auto simp: resolve_last_write_def resolve_first_write_def resolve_largest_file_def
        resolve_preserve_both_def resolve_source_priority_def resolve_skip_def resolve_merge_def resolve_manual_def
        Let_def case_prod_beta split: option.split list.split)
  show ?thesis
  proof (cases "CR_strategies cr strategy")
    case None
    then show ?thesis using assms Some by (intro unsupported) (auto simp: ResolveConflict_def Let_def)
  next
    case impl: (Some impl)
    obtain can' impl' where c: "CanResolve lower impl c = (can', impl')" by (metis surj_pair)
    note simps = ResolveConflict_def Let_def Some impl can [simplified] c res [simplified]
    show ?thesis
    proof (cases can')
      case False
      then show ?thesis using assms c Some impl by (intro refused) (auto simp: simps)
    next
      case True
      show ?thesis
      proof (cases "StrategyResolve rfc3339 now impl' c")
        case (Ok s)
        then show ?thesis using assms c Some impl True by (intro resolved) (auto simp: simps)
      next
        case (Err e)
        then show ?thesis using assms c Some impl True by (intro failed) (auto simp: simps)
      next
        case Panic
        then show ?thesis using no_panic by simp
      qed
    qed
  qed
qed

section \<open>Runs of the resolver\<close>

text \<open>A step is one of the operations.  A caller may also allocate a conflict of its own, as the
  coordinator does; it is pending.\<close>

inductive resolver_step :: "(string \<Rightarrow> string) \<Rightarrow> (time \<Rightarrow> string) \<Rightarrow> ConflictResolver \<Rightarrow> ConflictResolver \<Rightarrow> bool"
  for lower rfc3339 where
  detect: "CR_store cr ref = None \<Longrightarrow> CR_activeConflicts cr new_id = None \<Longrightarrow>
    resolver_step lower rfc3339 cr (fst (DetectConflict ref new_id now cr path versions))"
| allocate: "CR_store cr ref = None \<Longrightarrow> CN_Status c = ConflictStatusPending \<Longrightarrow>
    resolver_step lower rfc3339 cr (put_conflict ref c cr)"
| resolve: "CR_store cr ref \<noteq> None \<Longrightarrow>
    resolver_step lower rfc3339 cr (fst (ResolveConflict lower rfc3339 now now' cr ref strategy))"
| cleanup: "resolver_step lower rfc3339 cr (CleanupOldConflicts now cr)"

abbreviation resolver_run where
  "resolver_run lower rfc3339 \<equiv> (resolver_step lower rfc3339)\<^sup>*\<^sup>*"

lemma offered_put [simp]: "offered (put_conflict ref c cr) = offered cr"
  by (simp add: offered_def put_conflict_def)

lemma put_conflict_simps [simp]:
  "CR_store (put_conflict ref c cr) = (CR_store cr)(ref \<mapsto> c)"
  "CR_activeConflicts (put_conflict ref c cr) = CR_activeConflicts cr"
  "CR_strategies (put_conflict ref c cr) = CR_strategies cr" "CR_config (put_conflict ref c cr) = CR_config cr"
  by (simp_all add: put_conflict_def)

lemma offered_impl:
  assumes "offered cr" and "CR_strategies cr strategy = Some impl"
  obtains "strategy = ConflictStrategyLastWrite" "impl = LastWriteStrategy"
  | "strategy = ConflictStrategyFirstWrite" "impl = FirstWriteStrategy"
  | "strategy = ConflictStrategyLargestFile" "impl = LargestFileStrategy"
  | "strategy = ConflictStrategyPreserveBoth" "impl = PreserveBothStrategy (CR_config cr)"
  | "strategy = ConflictStrategySourcePriority" "impl = SourcePriorityStrategy None"
  | "strategy = ConflictStrategySourcePriority" "impl = SourcePriorityStrategy (Some default_priorities)"
  | "strategy = ConflictStrategySkip" "impl = SkipStrategy"
proof -
  have "strategy \<in> dom (CR_strategies cr)" using assms(2) by blast
  then consider "strategy = ConflictStrategyLastWrite" | "strategy = ConflictStrategyFirstWrite"
    | "strategy = ConflictStrategyLargestFile" | "strategy = ConflictStrategyPreserveBoth"
    | "strategy = ConflictStrategySourcePriority" | "strategy = ConflictStrategySkip"
    using assms(1) unfolding offered_def by blast
  then show ?thesis using assms that unfolding offered_def by cases (metis option.inject)+
qed

lemma offered_asked:
  assumes "offered cr" "CR_strategies cr strategy = Some impl" "CanResolve lower impl c = (b, impl')"
  shows "offered (cr\<lparr>CR_strategies := (CR_strategies cr)(strategy \<mapsto> impl')\<rparr>)"
  using assms(1,2)
proof (cases rule: offered_impl)
  case 5
  then show ?thesis using assms(1,3) by (simp add: offered_def insert_commute insert_absorb Let_def domI)
next
  case 6
  then show ?thesis using assms by (simp add: fun_upd_idem)
qed (use assms in \<open>simp_all add: fun_upd_idem\<close>)

lemma offered_step: "resolver_step lower rfc3339 cr cr' \<Longrightarrow> offered cr \<Longrightarrow> offered cr'"
proof (induction rule: resolver_step.induct)
  case (detect cr ref new_id now path versions)
  then show ?case by (auto simp: DetectConflict_def offered_def)
next
  case (resolve cr ref now now' strategy)
  obtain cr' r where run: "ResolveConflict lower rfc3339 now now' cr ref strategy = (cr', r)" by (metis surj_pair)
  then have "offered cr'"
    by (cases rule: ResolveConflict_cases) (use resolve offered_asked in auto)
  then show ?case by (simp add: run)
next
  case (cleanup cr now)
  then show ?case by (auto simp: CleanupOldConflicts_def Let_def offered_def)
qed simp

lemma offered_run: "resolver_run lower rfc3339 (NewConflictResolver store config) cr \<Longrightarrow> offered cr"
  by (induction rule: rtranclp_induct) (auto simp: offered_new offered_step)

section \<open>When a resolution succeeds\<close>

definition settles :: "string \<Rightarrow> time \<Rightarrow> SyncConflict \<Rightarrow> bool" where
  "settles strategy now c \<longleftrightarrow>
     (let vs = CN_FileVersions c
      in strategy = ConflictStrategyLastWrite \<and>
           (\<forall>v \<in> set vs. FV_ModifiedTime v \<noteq> zero_time) \<and> (\<exists>v \<in> set vs. FV_ModifiedTime v > zero_time) \<or>
         strategy = ConflictStrategyFirstWrite \<and>
           (\<forall>v \<in> set vs. created_or_modified v \<noteq> zero_time) \<and> (\<exists>v \<in> set vs. created_or_modified v < now) \<or>
         strategy = ConflictStrategyLargestFile \<and>
           (\<forall>v \<in> set vs. \<not> FV_IsDirectory v) \<and> (\<exists>v \<in> set vs. FV_FileSize v > 0) \<or>
         strategy = ConflictStrategyPreserveBoth \<and> CN_ConflictType c \<noteq> ConflictTypeDirectoryFile \<and> vs \<noteq> [] \<or>
         strategy = ConflictStrategySourcePriority \<and> (\<exists>v \<in> set vs. default_priorities (FV_ConnectorType v) \<noteq> None) \<or>
         strategy = ConflictStrategySkip)"

definition succeeds :: "('e, 'a) outcome \<Rightarrow> bool" where
  "succeeds r \<longleftrightarrow> (\<exists>a. r = Ok a)"

lemma pick_decides:
  "succeeds (case snd (pick (>) (Some \<circ> key) b None vs) of None \<Rightarrow> Err e | Some v \<Rightarrow> Ok (f v)) \<longleftrightarrow> (\<exists>v \<in> set vs. key v > b)"
  "succeeds (case snd (pick (<) (Some \<circ> key) b None vs) of None \<Rightarrow> Err e | Some v \<Rightarrow> Ok (f v)) \<longleftrightarrow> (\<exists>v \<in> set vs. key v < b)"
  using later.pick_None [of "Some \<circ> key" b vs] earlier.pick_None [of "Some \<circ> key" b vs]
  by (auto simp: succeeds_def split: option.splits)

lemma strategy_succeeds:
  "succeeds (resolve_last_write rfc3339 c) \<longleftrightarrow> (\<exists>v \<in> set (CN_FileVersions c). FV_ModifiedTime v > zero_time)"
  "succeeds (resolve_first_write now c) \<longleftrightarrow> (\<exists>v \<in> set (CN_FileVersions c). created_or_modified v < now)"
  "succeeds (resolve_largest_file c) \<longleftrightarrow> (\<exists>v \<in> set (CN_FileVersions c). FV_FileSize v > 0)"
  "succeeds (resolve_preserve_both c) \<longleftrightarrow> CN_FileVersions c \<noteq> []"
  "succeeds (resolve_source_priority ps c) \<longleftrightarrow> CN_FileVersions c \<noteq> []"
  "succeeds (resolve_skip c)"
proof -
  show "succeeds (resolve_last_write rfc3339 c) \<longleftrightarrow> (\<exists>v \<in> set (CN_FileVersions c). FV_ModifiedTime v > zero_time)"
    by (cases "CN_FileVersions c = []") (auto simp: resolve_last_write_def pick_decides succeeds_def [of "Err _"])
  show "succeeds (resolve_first_write now c) \<longleftrightarrow> (\<exists>v \<in> set (CN_FileVersions c). created_or_modified v < now)"
    by (cases "CN_FileVersions c = []") (auto simp: resolve_first_write_def pick_decides succeeds_def [of "Err _"])
  show "succeeds (resolve_largest_file c) \<longleftrightarrow> (\<exists>v \<in> set (CN_FileVersions c). FV_FileSize v > 0)"
    by (cases "CN_FileVersions c = []") (auto simp: resolve_largest_file_def pick_decides succeeds_def [of "Err _"])
qed (auto simp: succeeds_def resolve_preserve_both_def resolve_source_priority_def resolve_skip_def Let_def
    case_prod_beta split: list.splits)

lemma asked_and_resolved:
  assumes o: "offered cr" and impl: "CR_strategies cr strategy = Some impl" and can: "CanResolve lower impl c = (b, impl')"
  shows "settles strategy now c \<longleftrightarrow> b \<and> succeeds (StrategyResolve rfc3339 now impl' c)"
  using o impl
  by (cases rule: offered_impl) (use can in \<open>auto simp: settles_def strategy_succeeds Let_def created_or_modified_def\<close>)

lemma settles_offered: "offered cr \<Longrightarrow> settles strategy now c \<Longrightarrow> CR_strategies cr strategy \<noteq> None"
  by (auto simp: offered_def settles_def Let_def)

section \<open>Properties\<close>

lemma ResolveConflict_outcome:
  assumes o: "offered cr"
    and c: "CR_store cr ref = Some c"
    and call: "ResolveConflict lower rfc3339 now now' cr ref strategy = (cr', r)"
  shows "r \<noteq> Panic \<and> ((\<exists>res. r = Ok res) \<longleftrightarrow> settles strategy now c) \<and>
    (\<exists>c'. CR_store cr' = (CR_store cr)(ref \<mapsto> c') \<and> CN_FileVersions c' = CN_FileVersions c \<and>
      CN_Resolution c' = strategy \<and> CR_activeConflicts cr' = CR_activeConflicts cr \<and>
      (case r of
         Ok res \<Rightarrow> CN_Status c' = ConflictStatusResolved \<and> CN_ResolvedAt c' = Some now' \<and>
           CN_ResolvedVersion c' = RES_ResolvedVersion res
       | _ \<Rightarrow> CN_Status c' = ConflictStatusFailed \<and> CN_ResolvedAt c' = CN_ResolvedAt c))"
proof -
  from call show ?thesis
  proof (cases rule: ResolveConflict_cases)
    case missing
    then show ?thesis using c by simp
  next
    case (unsupported d)
    then show ?thesis using c settles_offered [OF o, of strategy now c] by auto
  next
    case (refused d impl impl')
    then show ?thesis using c asked_and_resolved [OF o refused(2,3), of now rfc3339] by auto
  next
    case (failed d impl impl' e)
    then show ?thesis using c asked_and_resolved [OF o failed(2,3), of now rfc3339] by (auto simp: succeeds_def)
  next
    case (resolved d impl impl' res)
    then show ?thesis using c asked_and_resolved [OF o resolved(2,3), of now rfc3339] by (auto simp: succeeds_def)
  qed
qed

text \<open>\<open>ResolveConflict\<close> on a conflict of the store never panics.  It succeeds exactly for the six
  registered strategies, when the versions have what the strategy needs (\<open>settles\<close>); it then marks the
  conflict resolved, at the time of the call and with the version the strategy chose.  Otherwise it
  returns an error and marks the conflict failed.  No other conflict changes.\<close>

theorem resolution_outcome:
  assumes run: "resolver_run lower rfc3339 (NewConflictResolver store config) cr"
    and c: "CR_store cr ref = Some c"
    and call: "ResolveConflict lower rfc3339 now now' cr ref strategy = (cr', r)"
  shows "r \<noteq> Panic \<and> ((\<exists>res. r = Ok res) \<longleftrightarrow> settles strategy now c) \<and>
    (\<exists>c'. CR_store cr' = (CR_store cr)(ref \<mapsto> c') \<and> CN_FileVersions c' = CN_FileVersions c \<and>
      CN_Resolution c' = strategy \<and> CR_activeConflicts cr' = CR_activeConflicts cr \<and>
      (case r of
         Ok res \<Rightarrow> CN_Status c' = ConflictStatusResolved \<and> CN_ResolvedAt c' = Some now' \<and>
           CN_ResolvedVersion c' = RES_ResolvedVersion res
       | _ \<Rightarrow> CN_Status c' = ConflictStatusFailed \<and> CN_ResolvedAt c' = CN_ResolvedAt c))"
  by (rule ResolveConflict_outcome [OF offered_run [OF run] c call])

text \<open>What a strategy has to choose.\<close>

definition chosen_by :: "string \<Rightarrow> ConflictFileVersion list \<Rightarrow> ConflictFileVersion option \<Rightarrow> bool" where
  "chosen_by strategy vs chosen \<longleftrightarrow>
     (case chosen of
        None \<Rightarrow> strategy = ConflictStrategySkip
      | Some v \<Rightarrow>
          strategy = ConflictStrategyLastWrite \<and> first_best (>) (Some \<circ> FV_ModifiedTime) vs v \<or>
          strategy = ConflictStrategyFirstWrite \<and> first_best (<) (Some \<circ> created_or_modified) vs v \<or>
          strategy = ConflictStrategyLargestFile \<and> first_best (>) (Some \<circ> FV_FileSize) vs v \<or>
          strategy = ConflictStrategySourcePriority \<and> first_best (>) (default_priorities \<circ> FV_ConnectorType) vs v \<or>
          strategy = ConflictStrategyPreserveBoth \<and> vs \<noteq> [] \<and> v = hd vs)"

lemma default_priorities_pos: "default_priorities s = Some k \<Longrightarrow> 0 < k"
  by (auto simp: default_priorities_def split: if_splits)

lemma source_priority_chosen:
  assumes "v \<in> set vs" "default_priorities (FV_ConnectorType v) \<noteq> None"
  obtains u where "snd (pick (>) (source_priority (Some default_priorities)) (- 1) None vs) = Some u"
    "first_best (>) (default_priorities \<circ> FV_ConnectorType) vs u"
proof -
  have key: "source_priority (Some default_priorities) = default_priorities \<circ> FV_ConnectorType"
    by (auto simp: source_priority_def)
  from assms(2) obtain k where k: "default_priorities (FV_ConnectorType v) = Some k" by blast
  have "- 1 < k" using default_priorities_pos [OF k] by simp
  have "snd (pick (>) (source_priority (Some default_priorities)) (- 1) None vs) \<noteq> None"
  proof
    assume "snd (pick (>) (source_priority (Some default_priorities)) (- 1) None vs) = None"
    then have "\<forall>w \<in> set vs. \<forall>j. default_priorities (FV_ConnectorType w) = Some j \<longrightarrow> \<not> - 1 < j"
      unfolding key later.pick_None by (simp only: comp_apply)
    then show False using assms(1) k \<open>- 1 < k\<close> by blast
  qed
  then obtain u where u: "snd (pick (>) (source_priority (Some default_priorities)) (- 1) None vs) = Some u" by blast
  show ?thesis by (rule that [OF u]) (rule later.pick_Some [OF u [unfolded key]])
qed

text \<open>C13: The version a successful resolution returns is the one its strategy is for: the last modified,
  the first created (or modified, when no creation time is known), the largest, the one from the source
  of the highest priority, each time the first of several equals; the first version for
  \<open>preserve_both\<close>, and none for \<open>skip\<close>.\<close>

theorem resolution_chooses:
  assumes run: "resolver_run lower rfc3339 (NewConflictResolver store config) cr"
    and c: "CR_store cr ref = Some c"
    and call: "ResolveConflict lower rfc3339 now now' cr ref strategy = (cr', Ok res)"
  shows "chosen_by strategy (CN_FileVersions c) (RES_ResolvedVersion res)"
proof -
  have o: "offered cr" by (rule offered_run [OF run])
  from call obtain impl impl' where impl: "CR_strategies cr strategy = Some impl"
    and can: "CanResolve lower impl c = (True, impl')" and res: "StrategyResolve rfc3339 now impl' c = Ok res"
    by (cases rule: ResolveConflict_cases) (use c in auto)
  have table: ?thesis
    if "strategy = ConflictStrategySourcePriority" "impl' = SourcePriorityStrategy (Some default_priorities)"
      "\<exists>v \<in> set (CN_FileVersions c). default_priorities (FV_ConnectorType v) \<noteq> None"
  proof -
    from that(3) obtain u where
      "snd (pick (>) (source_priority (Some default_priorities)) (- 1) None (CN_FileVersions c)) = Some u"
      "first_best (>) (default_priorities \<circ> FV_ConnectorType) (CN_FileVersions c) u"
      using source_priority_chosen by blast
    then show ?thesis using res that(1,2)
      by (auto simp: resolve_source_priority_def Let_def case_prod_beta chosen_by_def split: if_splits)
  qed
  from o impl show ?thesis
  proof (cases rule: offered_impl)
    case 1
    then show ?thesis using can res
      by (auto simp: resolve_last_write_def chosen_by_def later.pick_Some split: if_splits option.splits)
  next
    case 2
    then show ?thesis using can res
      by (auto simp: resolve_first_write_def chosen_by_def earlier.pick_Some split: if_splits option.splits)
  next
    case 3
    then show ?thesis using can res
      by (auto simp: resolve_largest_file_def chosen_by_def later.pick_Some split: if_splits option.splits)
  next
    case 4
    then show ?thesis using can res
      by (auto simp: resolve_preserve_both_def chosen_by_def Let_def split: list.splits)
  next
    case 7
    then show ?thesis using can res by (auto simp: resolve_skip_def chosen_by_def)
  qed (use can table in \<open>auto simp: Let_def\<close>)
qed

text \<open>The numerals of two versioned names end them, and no numeral has an underscore.\<close>

lemma split_last_sep:
  assumes "a @ c # m = b @ c # n" and "c \<notin> set m" and "c \<notin> set n"
  shows "m = n"
proof -
  have "takeWhile (\<lambda>x. x \<noteq> c) (rev (a @ c # m)) = rev m" if "c \<notin> set m" for a m
    using that by (subst rev_append, simp, subst takeWhile_append2) auto
  then have "rev m = rev n" using assms by metis
  then show ?thesis by simp
qed

lemma underscore_no_digit: "CHR ''_'' \<notin> set (show_nat i)"
  using show_nat_digits [of i] by (auto simp: list_all_iff is_digit_def)

lemma versioned_name_inj: "versioned_name path i v = versioned_name path j w \<Longrightarrow> i = j"
proof -
  assume "versioned_name path i v = versioned_name path j w"
  then have "FV_ConnectorType v @ CHR ''_'' # show_nat i = FV_ConnectorType w @ CHR ''_'' # show_nat j"
    by (simp add: versioned_name_def)
  then show "i = j" using split_last_sep [OF _ underscore_no_digit underscore_no_digit] show_nat_inj by blast
qed

lemma versioned_name_differs: "versioned_name path i v \<noteq> path"
proof
  assume "versioned_name path i v = path"
  then have "length (versioned_name path i v) = length (trim_suffix path (path_Ext path) @ path_Ext path)"
    by (simp only: trim_Ext)
  then show False by (simp add: versioned_name_def)
qed

lemma versioned_copies_names:
  "map (ACT_Target \<circ> snd) (versioned_copies path i vs) = map (\<lambda>k. versioned_name path (i + k) (vs ! k)) [0..<length vs]"
  "map (FV_FilePath \<circ> fst) (versioned_copies path i vs) = map (ACT_Target \<circ> snd) (versioned_copies path i vs)"
  "map (\<lambda>x. (fst x)\<lparr>FV_FilePath := p\<rparr>) (versioned_copies path i vs) = map (\<lambda>v. v\<lparr>FV_FilePath := p\<rparr>) vs"
proof -
  have "[0..<Suc (length vs)] = 0 # map Suc [0..<length vs]" for vs :: "ConflictFileVersion list"
    by (simp add: map_Suc_upt upt_conv_Cons del: upt_Suc)
  then show "map (ACT_Target \<circ> snd) (versioned_copies path i vs) = map (\<lambda>k. versioned_name path (i + k) (vs ! k)) [0..<length vs]"
    by (induction vs arbitrary: i) (simp_all add: Let_def comp_def del: upt_Suc)
  show "map (FV_FilePath \<circ> fst) (versioned_copies path i vs) = map (ACT_Target \<circ> snd) (versioned_copies path i vs)"
    by (induction vs arbitrary: i) (simp_all add: Let_def)
  show "map (\<lambda>x. (fst x)\<lparr>FV_FilePath := p\<rparr>) (versioned_copies path i vs) = map (\<lambda>v. v\<lparr>FV_FilePath := p\<rparr>) vs"
    by (induction vs arbitrary: i) (simp_all add: Let_def)
qed

text \<open>\<open>preserve_both\<close> loses no version: the chosen one and the additional ones are the versions of
  the conflict, with only the paths of the additional ones changed; there is an action for each, and
  no two actions write to the same path, whatever the names of the connectors.\<close>

theorem preserve_both_keeps_all:
  assumes "resolve_preserve_both c = Ok res"
  shows "map (\<lambda>v. v\<lparr>FV_FilePath := []\<rparr>) (the (RES_ResolvedVersion res) # RES_AdditionalVersions res) =
      map (\<lambda>v. v\<lparr>FV_FilePath := []\<rparr>) (CN_FileVersions c) \<and>
    map ACT_Target (RES_Actions res) = map FV_FilePath (RES_AdditionalVersions res) @ [CN_FilePath c] \<and>
    distinct (map ACT_Target (RES_Actions res))"
proof -
  from assms obtain main vs where vs: "CN_FileVersions c = main # vs"
    by (auto simp: resolve_preserve_both_def split: list.splits)
  let ?cs = "versioned_copies (CN_FilePath c) 1 vs"
  from assms vs have res: "RES_ResolvedVersion res = Some main" "RES_AdditionalVersions res = map fst ?cs"
    "map ACT_Target (RES_Actions res) = map (ACT_Target \<circ> snd) ?cs @ [CN_FilePath c]"
    by (auto simp: resolve_preserve_both_def Let_def single_action_def)
  have "distinct (map (ACT_Target \<circ> snd) ?cs)"
    unfolding versioned_copies_names by (auto simp: distinct_map inj_on_def dest: versioned_name_inj)
  moreover have "CN_FilePath c \<notin> set (map (ACT_Target \<circ> snd) ?cs)"
    unfolding versioned_copies_names using versioned_name_differs by (auto simp: image_iff) metis
  ultimately have "distinct (map (ACT_Target \<circ> snd) ?cs @ [CN_FilePath c])" by simp
  then show ?thesis
    using versioned_copies_names(2) [of "CN_FilePath c" 1 vs] versioned_copies_names(3) [of "[]" "CN_FilePath c" 1 vs] by (simp add: res vs comp_def)
qed

text \<open>C17: No conflict is dropped before it was resolved: over any further operations, a conflict in the
  list of the active ones keeps its versions, and it is still in the list or has been resolved.\<close>

theorem unresolved_conflicts_kept:
  assumes run: "resolver_run lower rfc3339 cr cr'"
    and c: "CR_activeConflicts cr i = Some ref" "CR_store cr ref = Some c"
  shows "\<exists>c'. CR_store cr' ref = Some c' \<and> CN_FileVersions c' = CN_FileVersions c \<and> CN_ConflictType c' = CN_ConflictType c \<and>
    (CR_activeConflicts cr' i = Some ref \<or> CN_ResolvedAt c' \<noteq> None)"
  using run
proof (induction rule: rtranclp_induct)
  case base
  then show ?case using c by simp
next
  case (step s s')
  from step.IH obtain d where d: "CR_store s ref = Some d" "CN_FileVersions d = CN_FileVersions c"
    "CN_ConflictType d = CN_ConflictType c" "CR_activeConflicts s i = Some ref \<or> CN_ResolvedAt d \<noteq> None" by blast
  from step.hyps(2) show ?case
  proof (cases rule: resolver_step.cases)
    case (detect ref' new_id now path versions)
    then show ?thesis using d by (auto simp: DetectConflict_def)
  next
    case (allocate ref' c')
    then show ?thesis using d by auto
  next
    case (resolve ref' now now' strategy)
    obtain s'' r where call: "ResolveConflict lower rfc3339 now now' s ref' strategy = (s'', r)" by (metis surj_pair)
    then have s': "s' = s''" using resolve by simp
    from call show ?thesis
      by (cases rule: ResolveConflict_cases) (use d s' in auto)
  next
    case (cleanup now)
    then show ?thesis using d by (auto simp: CleanupOldConflicts_def Let_def expired_conflict_def split: option.splits)
  qed
qed

text \<open>Every pair of versions is a conflict: detection reports one exactly when there are at least two
  versions, even when they are the same.\<close>

theorem any_two_versions_conflict:
  "snd (DetectConflict ref new_id now cr path versions) = (if length versions < 2 then None else Some ref)"
  by (auto simp: DetectConflict_def analyzeConflictType_def Let_def)

text \<open>The resolution suggested for a conflict between a change and a deletion, between a directory and a
  file, or between renames cannot be used: the strategy \<open>manual\<close> is not registered, and the attempt marks the conflict
  failed.\<close>

theorem suggested_manual_unsupported:
  assumes run: "resolver_run lower rfc3339 (NewConflictResolver store config) cr"
    and found: "DetectConflict ref new_id t cr path versions = (cr', Some ref)"
    and c: "CR_store cr' ref = Some c"
    and kind: "CN_ConflictType c \<in> {ConflictTypeModifyDelete, ConflictTypeDirectoryFile, ConflictTypeRenameRename}"
  shows "snd (ResolveConflict lower rfc3339 now now' cr' ref (CN_SuggestedResolution c)) =
      Err (ErrStrategyNotSupported ConflictStrategyManual) \<and>
    CN_Status (the (CR_store (fst (ResolveConflict lower rfc3339 now now' cr' ref (CN_SuggestedResolution c))) ref)) =
      ConflictStatusFailed"
proof -
  from found c have "c = new_conflict (CR_config cr) new_id t path versions" "CR_strategies cr' = CR_strategies cr"
    by (auto simp: DetectConflict_def split: if_splits)
  moreover have "ConflictStrategyManual \<notin> dom (CR_strategies cr)"
    using offered_run [OF run] unfolding offered_def by simp
  ultimately have "CN_SuggestedResolution c = ConflictStrategyManual" "CR_strategies cr' ConflictStrategyManual = None"
    using kind by (auto simp: new_conflict_def Let_def suggestResolution_def)
  then show ?thesis using c by (simp add: ResolveConflict_def Let_def)
qed

section \<open>Examples\<close>

definition demo_version :: "uuid \<Rightarrow> string \<Rightarrow> int \<Rightarrow> time \<Rightarrow> ConflictFileVersion" where
  "demo_version ds connector n modified =
     \<lparr>FV_DataSourceID = ds, FV_ConnectorType = connector, FV_FilePath = ''/a/b.txt'', FV_FileSize = n,
      FV_ModifiedTime = modified, FV_CreatedTime = 0, FV_Checksum = [], FV_ContentType = [], FV_IsDirectory = False,
      FV_IsDeleted = False, FV_Metadata = Map.empty\<rparr>"

definition demo_versions :: "ConflictFileVersion list" where
  "demo_versions = [demo_version ''p'' ''box'' 7 20, demo_version ''q'' ''dropbox'' 9 30, demo_version ''r'' ''box'' 9 30]"

abbreviation demo_resolver :: ConflictResolver where
  "demo_resolver \<equiv> NewConflictResolver Map.empty None"

abbreviation demo_detected :: ConflictResolver where
  "demo_detected \<equiv> fst (DetectConflict 0 ''c'' 40 demo_resolver ''/a/b.txt'' demo_versions)"

abbreviation demo_conflict :: SyncConflict where
  "demo_conflict \<equiv> new_conflict default_conflict_config ''c'' 40 ''/a/b.txt'' demo_versions"

lemma demo_store: "CR_store demo_detected = [0 \<mapsto> demo_conflict]" "CR_activeConflicts demo_detected = [''c'' \<mapsto> 0]"
  by (simp_all add: DetectConflict_def analyzeConflictType_def demo_versions_def NewConflictResolver_def
      registerDefaultStrategies_def is_modification_def demo_version_def)

lemma demo_run: "resolver_run lower rfc3339 demo_resolver demo_detected"
  by (rule r_into_rtranclp) (rule detect, simp_all add: NewConflictResolver_def registerDefaultStrategies_def)

lemma demo_conflict_versions: "CN_FileVersions demo_conflict = demo_versions"
  by (simp add: new_conflict_def Let_def)

definition demo_resolved :: "string \<Rightarrow> ConflictResolver \<times> (conflict_error, ConflictResolution) outcome" where
  "demo_resolved strategy = ResolveConflict id (\<lambda>_. []) 50 60 demo_detected 0 strategy"

theorem resolution_outcome_witness:
  "(\<exists>res. snd (demo_resolved ''last_write'') = Ok res) \<and> \<not> (\<exists>res. snd (demo_resolved ''merge'') = Ok res)"
proof -
  have "settles ''last_write'' 50 demo_conflict" "\<not> settles ''merge'' 50 demo_conflict"
    unfolding settles_def demo_conflict_versions by (simp_all add: demo_versions_def demo_version_def)
  then show ?thesis
    using resolution_outcome [OF demo_run [of id "\<lambda>_. []"], where ref = 0 and c = demo_conflict and now = 50
        and now' = 60 and strategy = "''last_write''"]
      resolution_outcome [OF demo_run [of id "\<lambda>_. []"], where ref = 0 and c = demo_conflict and now = 50
        and now' = 60 and strategy = "''merge''"]
    by (simp add: demo_store demo_resolved_def prod_eq_iff)
qed

lemma demo_last_write: "\<exists>cr res. demo_resolved ''last_write'' = (cr, Ok res) \<and>
    RES_ResolvedVersion res = Some (demo_version ''q'' ''dropbox'' 9 30)"
  by (simp add: demo_resolved_def ResolveConflict_def demo_store DetectConflict_def analyzeConflictType_def demo_versions_def
      NewConflictResolver_def registerDefaultStrategies_def is_modification_def demo_version_def new_conflict_def Let_def
      resolve_last_write_def)

theorem resolution_chooses_witness:
  "chosen_by ''last_write'' demo_versions (Some (demo_version ''q'' ''dropbox'' 9 30))"
proof -
  obtain cr res where r: "ResolveConflict id (\<lambda>_. []) 50 60 demo_detected 0 ''last_write'' = (cr, Ok res)"
    "RES_ResolvedVersion res = Some (demo_version ''q'' ''dropbox'' 9 30)"
    using demo_last_write unfolding demo_resolved_def by blast
  show ?thesis
    using resolution_chooses [OF demo_run _ r(1), of demo_conflict] r(2) by (simp add: demo_store demo_conflict_versions)
qed

theorem preserve_both_keeps_all_witness:
  "\<exists>res. resolve_preserve_both demo_conflict = Ok res \<and> distinct (map ACT_Target (RES_Actions res))"
proof -
  obtain res where "resolve_preserve_both demo_conflict = Ok res"
    unfolding resolve_preserve_both_def demo_conflict_versions by (simp add: demo_versions_def Let_def)
  with preserve_both_keeps_all show ?thesis by blast
qed

theorem unresolved_conflicts_kept_witness:
  "\<exists>c'. CR_store (CleanupOldConflicts 99 demo_detected) 0 = Some c' \<and> CN_FileVersions c' = demo_versions"
proof -
  have "resolver_run id (\<lambda>_. []) demo_detected (CleanupOldConflicts 99 demo_detected)"
    by (rule r_into_rtranclp) (rule cleanup)
  from unresolved_conflicts_kept [OF this, of "''c''" 0 demo_conflict] show ?thesis
    by (auto simp: demo_store demo_conflict_versions)
qed

abbreviation demo_edit_delete :: "ConflictFileVersion list" where
  "demo_edit_delete \<equiv> [demo_version ''p'' ''box'' 7 20, (demo_version ''q'' ''box'' 7 0)\<lparr>FV_IsDeleted := True\<rparr>]"

theorem suggested_manual_unsupported_witness:
  "snd (ResolveConflict id (\<lambda>_. []) 50 60 (fst (DetectConflict 0 ''c'' 40 demo_resolver ''/a/b.txt'' demo_edit_delete)) 0 ''manual'') =
     Err (ErrStrategyNotSupported ''manual'')"
proof -
  let ?c = "new_conflict default_conflict_config ''c'' 40 ''/a/b.txt'' demo_edit_delete"
  obtain cr where d: "DetectConflict 0 ''c'' 40 demo_resolver ''/a/b.txt'' demo_edit_delete = (cr, Some 0)"
    and s: "CR_store cr 0 = Some ?c"
    by (simp add: DetectConflict_def analyzeConflictType_def NewConflictResolver_def registerDefaultStrategies_def
        is_modification_def is_deletion_def demo_version_def)
  have "CN_ConflictType ?c = ''modify_delete''" "CN_SuggestedResolution ?c = ''manual''"
    by (simp_all add: new_conflict_def Let_def analyzeConflictType_def is_modification_def is_deletion_def demo_version_def
        suggestResolution_def)
  then show ?thesis
    using suggested_manual_unsupported [OF rtranclp.rtrancl_refl d s, of id "\<lambda>_. []" 50 60] d by simp
qed

end
