(* ===== verification/Sync_Dependencies.thy ===== *)
theory Sync_Dependencies
  imports Go_Prelude
begin

text \<open>
  Dependencies between synchronisation jobs (\<^verbatim>\<open>pkg/sync/dependency_manager.go\<close>, with the types of
  \<^verbatim>\<open>pkg/sync/coordinator.go\<close>): a map of dependencies and a graph beside it, a depth-first search for
  cycles and a topological sort.

  The code ranges over the map of dependencies in an unspecified order.  The loops here take the
  dependencies as a list in that order; the results below hold for every order.
\<close>

section \<open>State\<close>

definition DependencyTypeSequential :: string where [simp]: "DependencyTypeSequential = ''sequential''"
definition DependencyTypeConditional :: string where [simp]: "DependencyTypeConditional = ''conditional''"
definition DependencyTypeParallel :: string where [simp]: "DependencyTypeParallel = ''parallel''"
definition DependencyTypeMandatory :: string where [simp]: "DependencyTypeMandatory = ''mandatory''"

definition DependencyStatusPending :: string where [simp]: "DependencyStatusPending = ''pending''"
definition DependencyStatusSatisfied :: string where [simp]: "DependencyStatusSatisfied = ''satisfied''"
definition DependencyStatusViolated :: string where [simp]: "DependencyStatusViolated = ''violated''"

record SyncDependency =
  Dep_ID :: uuid
  Dep_DependentDataSource :: uuid
  Dep_DependsOnDataSource :: uuid
  Dep_SourceJobID :: uuid
  Dep_TargetJobID :: uuid
  Dep_Type :: string
  Dep_Status :: string
  Dep_DependencyType :: string
  Dep_UpdatedAt :: time

record DependencyNode =
  DN_JobID :: uuid
  DN_Status :: string
  DN_Dependencies :: "uuid list"
  DN_Dependents :: "uuid list"

record DependencyGraph =
  DG_nodes :: "uuid \<rightharpoonup> DependencyNode"
  DG_edges :: "uuid \<rightharpoonup> uuid list"

record DependencyManager =
  DM_dependencies :: "uuid \<rightharpoonup> SyncDependency"
  DM_graph :: DependencyGraph

datatype dependency_error = ErrCircularDependency | ErrDependencyNotFound

definition NewDependencyManager :: DependencyManager where
  "NewDependencyManager =
     \<lparr>DM_dependencies = Map.empty, DM_graph = \<lparr>DG_nodes = Map.empty, DG_edges = Map.empty\<rparr>\<rparr>"

text \<open>The values of the map, in some order.\<close>

definition dependencies_in_order :: "DependencyManager \<Rightarrow> SyncDependency list \<Rightarrow> bool" where
  "dependencies_in_order m deps \<longleftrightarrow>
     (\<exists>ks. distinct ks \<and> set ks = dom (DM_dependencies m) \<and> deps = map (\<lambda>k. the (DM_dependencies m k)) ks)"

section \<open>The search for cycles\<close>

text \<open>\<open>has_cycle\<close> returns whether it found the target, and the visited jobs; \<open>search_deps\<close> is its loop,
  whose first argument is the rest of the range.\<close>

function (sequential)
  has_cycle :: "SyncDependency list \<Rightarrow> uuid \<Rightarrow> uuid \<Rightarrow> uuid set \<Rightarrow> bool \<times> uuid set" and
  search_deps :: "SyncDependency list \<Rightarrow> SyncDependency list \<Rightarrow> uuid \<Rightarrow> uuid \<Rightarrow> uuid set \<Rightarrow> bool \<times> uuid set"
where
  "has_cycle deps current target visited =
     (if current = target then (True, visited)
      else if current \<in> visited then (False, visited)
      else search_deps deps deps current target (insert current visited))"
| "search_deps [] deps current target visited = (False, visited)"
| "search_deps (d # ds) deps current target visited =
     (if Dep_SourceJobID d = current
      then let (found, visited') = has_cycle deps (Dep_TargetJobID d) target visited
           in if found then (True, visited') else search_deps ds deps current target visited'
      else search_deps ds deps current target visited)"
  by pat_completeness auto

lemma has_cycle_visited:
  "has_cycle_search_deps_dom (Inl (deps, c, t, v)) \<Longrightarrow> v \<subseteq> snd (has_cycle deps c t v)"
  "has_cycle_search_deps_dom (Inr (ds, deps, c, t, v)) \<Longrightarrow> v \<subseteq> snd (search_deps ds deps c t v)"
proof (induction deps c t v and ds deps c t v rule: has_cycle_search_deps.pinduct)
  case (3 d ds deps c t v)
  obtain found v' where r: "has_cycle deps (Dep_TargetJobID d) t v = (found, v')" by (metis surj_pair)
  show ?case
  proof (cases "Dep_SourceJobID d = c")
    case True
    have "v \<subseteq> v'" using 3 r True by simp
    moreover have "v' \<subseteq> snd (search_deps ds deps c t v')" if "\<not> found"
      using 3(3) [OF True r [symmetric] refl that] .
    ultimately show ?thesis using 3(1) True r by (auto simp: search_deps.psimps)
  next
    case False
    then show ?thesis using 3 by (simp add: search_deps.psimps)
  qed
qed (auto simp: has_cycle.psimps search_deps.psimps)

text \<open>A visit marks a job that was not marked, among the finitely many targets and the job itself; the
  loop shortens the range.\<close>

definition unvisited :: "uuid set \<Rightarrow> SyncDependency list \<Rightarrow> uuid set \<Rightarrow> nat" where
  "unvisited extra deps visited = card ((Dep_TargetJobID ` set deps \<union> extra) - visited)"

lemma unvisited_mono: "finite e' \<Longrightarrow> e \<subseteq> e' \<Longrightarrow> v' \<subseteq> v \<Longrightarrow> unvisited e deps v \<le> unvisited e' deps v'"
  unfolding unvisited_def by (rule card_mono) auto

lemma unvisited_visit: "c \<notin> v \<Longrightarrow> unvisited (Dep_TargetJobID ` set deps) deps (insert c v) < unvisited {c} deps v"
  unfolding unvisited_def by (rule psubset_card_mono) auto

definition visit_measure ::
  "SyncDependency list \<times> uuid \<times> uuid \<times> uuid set + SyncDependency list \<times> SyncDependency list \<times> uuid \<times> uuid \<times> uuid set \<Rightarrow>
     nat \<times> nat" where
  "visit_measure x =
     (case x of Inl (deps, c, t, v) \<Rightarrow> (unvisited {c} deps v, 0)
      | Inr (ds, deps, c, t, v) \<Rightarrow> (unvisited (Dep_TargetJobID ` set ds) deps v, Suc (length ds)))"

lemma lex_decrease: "a \<le> b \<Longrightarrow> i < (j::nat) \<Longrightarrow> ((a::nat, i), (b, j)) \<in> less_than <*lex*> less_than"
  by (simp add: le_less)

termination has_cycle
proof (relation "inv_image (less_than <*lex*> less_than) visit_measure", goal_cases)
  case 1
  show ?case by (intro wf_inv_image wf_lex_prod wf_less_than)
next
  case (2 deps c t v)
  then show ?case by (simp add: visit_measure_def unvisited_visit)
next
  case (3 d ds deps c t v)
  have "unvisited {Dep_TargetJobID d} deps v \<le> unvisited (Dep_TargetJobID ` set (d # ds)) deps v"
    by (rule unvisited_mono) auto
  then show ?case unfolding in_inv_image visit_measure_def sum.case prod.case by (rule lex_decrease) simp
next
  case (4 d ds deps c t v x found v')
  then have "v \<subseteq> v'" using has_cycle_visited(1) [OF 4(5)] by (metis snd_conv)
  then have "unvisited (Dep_TargetJobID ` set ds) deps v' \<le> unvisited (Dep_TargetJobID ` set (d # ds)) deps v"
    by (intro unvisited_mono) auto
  then show ?case unfolding in_inv_image visit_measure_def sum.case prod.case by (rule lex_decrease) simp
next
  case (5 d ds deps c t v)
  have "unvisited (Dep_TargetJobID ` set ds) deps v \<le> unvisited (Dep_TargetJobID ` set (d # ds)) deps v"
    by (rule unvisited_mono) auto
  then show ?case unfolding in_inv_image visit_measure_def sum.case prod.case by (rule lex_decrease) simp
qed

declare has_cycle.simps [simp del]

definition wouldCreateCycle :: "SyncDependency list \<Rightarrow> uuid \<Rightarrow> uuid \<Rightarrow> bool" where
  "wouldCreateCycle deps sourceJobID targetJobID = fst (has_cycle deps targetJobID sourceJobID {})"

section \<open>The graph beside the map\<close>

definition new_node :: "uuid \<Rightarrow> DependencyNode" where
  "new_node i = \<lparr>DN_JobID = i, DN_Status = [], DN_Dependencies = [], DN_Dependents = []\<rparr>"

definition ensure_node :: "uuid \<Rightarrow> (uuid \<rightharpoonup> DependencyNode) \<Rightarrow> (uuid \<rightharpoonup> DependencyNode)" where
  "ensure_node i nodes = (case nodes i of None \<Rightarrow> nodes(i \<mapsto> new_node i) | Some _ \<Rightarrow> nodes)"

definition edges_from :: "DependencyGraph \<Rightarrow> uuid \<Rightarrow> uuid list" where
  "edges_from g i = (case DG_edges g i of None \<Rightarrow> [] | Some ts \<Rightarrow> ts)"

definition update_node :: "uuid \<Rightarrow> (DependencyNode \<Rightarrow> DependencyNode) \<Rightarrow> (uuid \<rightharpoonup> DependencyNode) \<Rightarrow> (uuid \<rightharpoonup> DependencyNode)" where
  "update_node i f nodes = nodes(i := map_option f (nodes i))"

definition updateGraph :: "SyncDependency \<Rightarrow> DependencyGraph \<Rightarrow> DependencyGraph" where
  "updateGraph d g =
     (let s = Dep_SourceJobID d; t = Dep_TargetJobID d;
          nodes = ensure_node t (ensure_node s (DG_nodes g));
          nodes = update_node s (\<lambda>n. n\<lparr>DN_Dependents := DN_Dependents n @ [t]\<rparr>) nodes;
          nodes = update_node t (\<lambda>n. n\<lparr>DN_Dependencies := DN_Dependencies n @ [s]\<rparr>) nodes
      in g\<lparr>DG_nodes := nodes, DG_edges := (DG_edges g)(s \<mapsto> edges_from g s @ [t])\<rparr>)"

definition removeFromGraph :: "SyncDependency \<Rightarrow> DependencyGraph \<Rightarrow> DependencyGraph" where
  "removeFromGraph d g =
     (let s = Dep_SourceJobID d; t = Dep_TargetJobID d;
          nodes = update_node s (\<lambda>n. n\<lparr>DN_Dependents := remove1 t (DN_Dependents n)\<rparr>) (DG_nodes g);
          nodes = update_node t (\<lambda>n. n\<lparr>DN_Dependencies := remove1 s (DN_Dependencies n)\<rparr>) nodes
      in g\<lparr>DG_nodes := nodes, DG_edges := (DG_edges g)(s := map_option (remove1 t) (DG_edges g s))\<rparr>)"

section \<open>Operations\<close>

text \<open>The new dependency gets the two data sources and its kind; the other fields keep their zero values.\<close>

definition blank_dependency :: "uuid \<Rightarrow> uuid \<Rightarrow> string \<Rightarrow> SyncDependency" where
  "blank_dependency sourceJobID targetJobID depType =
     \<lparr>Dep_ID = nil_uuid, Dep_DependentDataSource = targetJobID, Dep_DependsOnDataSource = sourceJobID,
      Dep_SourceJobID = nil_uuid, Dep_TargetJobID = nil_uuid, Dep_Type = [], Dep_Status = [],
      Dep_DependencyType = depType, Dep_UpdatedAt = 0\<rparr>"

definition AddDependency ::
  "SyncDependency list \<Rightarrow> uuid \<Rightarrow> uuid \<Rightarrow> string \<Rightarrow> DependencyManager \<Rightarrow>
     (dependency_error, SyncDependency \<times> DependencyManager) outcome" where
  "AddDependency deps sourceJobID targetJobID depType m =
     (if wouldCreateCycle deps sourceJobID targetJobID then Err ErrCircularDependency
      else let d = blank_dependency sourceJobID targetJobID depType
           in Ok (d, m\<lparr>DM_dependencies := (DM_dependencies m)(Dep_ID d \<mapsto> d),
                       DM_graph := updateGraph d (DM_graph m)\<rparr>))"

definition GetDependencies :: "SyncDependency list \<Rightarrow> uuid \<Rightarrow> SyncDependency list" where
  "GetDependencies deps jobID = filter (\<lambda>d. Dep_TargetJobID d = jobID) deps"

definition CanJobStart :: "SyncDependency list \<Rightarrow> uuid \<Rightarrow> bool" where
  "CanJobStart deps jobID \<longleftrightarrow>
     \<not> list_ex (\<lambda>d. Dep_Type d = DependencyTypeMandatory \<and> Dep_Status d \<noteq> DependencyStatusSatisfied)
         (GetDependencies deps jobID)"

definition status_for :: "string \<Rightarrow> string" where
  "status_for jobStatus =
     (if jobStatus = ''completed'' then DependencyStatusSatisfied
      else if jobStatus \<in> {''failed'', ''cancelled''} then DependencyStatusViolated
      else DependencyStatusPending)"

definition UpdateDependencyStatus :: "time \<Rightarrow> uuid \<Rightarrow> string \<Rightarrow> DependencyManager \<Rightarrow> DependencyManager" where
  "UpdateDependencyStatus now jobID jobStatus m =
     m\<lparr>DM_dependencies := (\<lambda>k. map_option (\<lambda>d.
          if Dep_SourceJobID d = jobID then d\<lparr>Dep_Status := status_for jobStatus, Dep_UpdatedAt := now\<rparr> else d)
        (DM_dependencies m k))\<rparr>"

definition RemoveDependency :: "uuid \<Rightarrow> DependencyManager \<Rightarrow> (dependency_error, DependencyManager) outcome" where
  "RemoveDependency dependencyID m =
     (case DM_dependencies m dependencyID of
        None \<Rightarrow> Err ErrDependencyNotFound
      | Some d \<Rightarrow> Ok (m\<lparr>DM_dependencies := (DM_dependencies m)(dependencyID := None),
                        DM_graph := removeFromGraph d (DM_graph m)\<rparr>))"

section \<open>What the search finds\<close>

definition dep_edges :: "SyncDependency list \<Rightarrow> (uuid \<times> uuid) set" where
  "dep_edges deps = (\<lambda>d. (Dep_SourceJobID d, Dep_TargetJobID d)) ` set deps"

lemma dep_edgesI: "d \<in> set deps \<Longrightarrow> (Dep_SourceJobID d, Dep_TargetJobID d) \<in> dep_edges deps"
  by (auto simp: dep_edges_def)

lemma has_cycle_sound:
  "fst (has_cycle deps c t v) \<Longrightarrow> (c, t) \<in> (dep_edges deps)\<^sup>*"
  "fst (search_deps ds deps c t v) \<Longrightarrow> set ds \<subseteq> set deps \<Longrightarrow> (c, t) \<in> (dep_edges deps)\<^sup>*"
proof (induction deps c t v and ds deps c t v rule: has_cycle_search_deps.induct)
  case (1 deps c t v)
  then show ?case by (auto simp: has_cycle.simps split: if_splits)
next
  case (3 d ds deps c t v)
  obtain found v' where r: "has_cycle deps (Dep_TargetJobID d) t v = (found, v')" by (metis surj_pair)
  show ?case
  proof (cases "Dep_SourceJobID d = c \<and> found")
    case True
    then have "(Dep_TargetJobID d, t) \<in> (dep_edges deps)\<^sup>*" using 3(1) r by simp
    moreover have "(c, Dep_TargetJobID d) \<in> dep_edges deps"
      using dep_edgesI [of d deps] 3(5) True by auto
    ultimately show ?thesis by (rule converse_rtrancl_into_rtrancl [rotated])
  next
    case False
    with 3 r show ?thesis by (auto split: if_splits)
  qed
qed simp

lemma has_cycle_closed:
  "\<not> fst (has_cycle deps c t v) \<Longrightarrow> v' = snd (has_cycle deps c t v) \<Longrightarrow>
   v \<subseteq> v' \<and> c \<in> v' \<and> t \<notin> v' - v \<and> dep_edges deps `` (v' - v) \<subseteq> v'"
  "\<not> fst (search_deps ds deps c t v) \<Longrightarrow> v' = snd (search_deps ds deps c t v) \<Longrightarrow>
   v \<subseteq> v' \<and> (\<forall>d \<in> set ds. Dep_SourceJobID d = c \<longrightarrow> Dep_TargetJobID d \<in> v') \<and> t \<notin> v' - v \<and>
   dep_edges deps `` (v' - v) \<subseteq> v'"
proof (induction deps c t v and ds deps c t v arbitrary: v' and v' rule: has_cycle_search_deps.induct)
  case (1 deps c t v)
  show ?case
  proof (cases "c = t \<or> c \<in> v")
    case True
    with 1 show ?thesis by (auto simp: has_cycle.simps split: if_splits)
  next
    case False
    then have s: "has_cycle deps c t v = search_deps deps deps c t (insert c v)" by (simp add: has_cycle.simps)
    from 1 False have ih: "insert c v \<subseteq> v' \<and> (\<forall>d \<in> set deps. Dep_SourceJobID d = c \<longrightarrow> Dep_TargetJobID d \<in> v') \<and>
        t \<notin> v' - insert c v \<and> dep_edges deps `` (v' - insert c v) \<subseteq> v'"
      by (simp add: s)
    moreover from ih have "dep_edges deps `` {c} \<subseteq> v'" by (auto simp: dep_edges_def)
    ultimately show ?thesis using False by blast
  qed
next
  case (3 d ds deps c t v)
  obtain found w where r: "has_cycle deps (Dep_TargetJobID d) t v = (found, w)" by (metis surj_pair)
  show ?case
  proof (cases "Dep_SourceJobID d = c")
    case True
    with 3(4,5) r have f: "\<not> found" and sd: "search_deps (d # ds) deps c t v = search_deps ds deps c t w"
      by (auto split: if_splits)
    have "\<not> fst (has_cycle deps (Dep_TargetJobID d) t v)" "w = snd (has_cycle deps (Dep_TargetJobID d) t v)"
      using f r by simp_all
    note h = 3(1) [OF True this]
    have "\<not> fst (search_deps ds deps c t w)" "v' = snd (search_deps ds deps c t w)"
      using 3(4,5) unfolding sd .
    note k = 3(2) [OF True r [symmetric] refl f this]
    show ?thesis
    proof (intro conjI)
      show "v \<subseteq> v'" and "\<forall>d \<in> set (d # ds). Dep_SourceJobID d = c \<longrightarrow> Dep_TargetJobID d \<in> v'" and "t \<notin> v' - v"
        using h k by auto
      have "v' - v = (v' - w) \<union> (w - v)" using h k by auto
      then show "dep_edges deps `` (v' - v) \<subseteq> v'" using h k by (simp add: Image_Un) blast
    qed
  next
    case False
    then have sd: "search_deps (d # ds) deps c t v = search_deps ds deps c t v" by simp
    have "\<not> fst (search_deps ds deps c t v)" "v' = snd (search_deps ds deps c t v)"
      using 3(4,5) unfolding sd .
    note 3(3) [OF False this]
    with False show ?thesis by simp
  qed
qed auto

lemma closed_reach: "(c, t) \<in> r\<^sup>* \<Longrightarrow> c \<in> s \<Longrightarrow> r `` s \<subseteq> s \<Longrightarrow> t \<in> s"
  by (induction rule: rtrancl_induct) auto

lemma wouldCreateCycle_iff:
  "wouldCreateCycle deps source target \<longleftrightarrow> (target, source) \<in> (dep_edges deps)\<^sup>*"
proof
  assume "wouldCreateCycle deps source target"
  then show "(target, source) \<in> (dep_edges deps)\<^sup>*"
    unfolding wouldCreateCycle_def by (rule has_cycle_sound(1))
next
  assume r: "(target, source) \<in> (dep_edges deps)\<^sup>*"
  show "wouldCreateCycle deps source target"
  proof (rule ccontr)
    assume "\<not> wouldCreateCycle deps source target"
    then have "\<not> fst (has_cycle deps target source {})" by (simp add: wouldCreateCycle_def)
    from has_cycle_closed(1) [OF this refl] closed_reach [OF r] show False by blast
  qed
qed

lemma insert_edge_acyclic:
  "acyclic (dep_edges deps) \<Longrightarrow> (target, source) \<notin> (dep_edges deps)\<^sup>* \<Longrightarrow>
   acyclic (insert (source, target) (dep_edges deps))"
  by simp

section \<open>The topological sort\<close>

definition zero_degrees :: "uuid list \<Rightarrow> (uuid \<rightharpoonup> int)" where
  "zero_degrees jobIDs = foldl (\<lambda>m j. m(j \<mapsto> 0)) Map.empty jobIDs"

definition count_degrees :: "SyncDependency list \<Rightarrow> (uuid \<rightharpoonup> int) \<Rightarrow> (uuid \<rightharpoonup> int)" where
  "count_degrees deps m =
     foldl (\<lambda>m d. case m (Dep_TargetJobID d) of None \<Rightarrow> m | Some n \<Rightarrow> m(Dep_TargetJobID d \<mapsto> n + 1)) m deps"

text \<open>The loop that lowers the degrees of the jobs that wait for \<open>current\<close>.\<close>

fun relax :: "SyncDependency list \<Rightarrow> uuid \<Rightarrow> (uuid \<rightharpoonup> int) \<Rightarrow> uuid list \<Rightarrow> (uuid \<rightharpoonup> int) \<times> uuid list" where
  "relax [] current m queue = (m, queue)"
| "relax (d # ds) current m queue =
     (if Dep_SourceJobID d = current
      then case m (Dep_TargetJobID d) of
             None \<Rightarrow> relax ds current m queue
           | Some degree \<Rightarrow>
               relax ds current (m(Dep_TargetJobID d \<mapsto> degree - 1))
                 (if degree - 1 = 0 then queue @ [Dep_TargetJobID d] else queue)
      else relax ds current m queue)"

text \<open>Only a job whose degree was positive is appended: the loop over the queue ends.\<close>

definition waiting :: "SyncDependency list \<Rightarrow> (uuid \<rightharpoonup> int) \<Rightarrow> uuid set" where
  "waiting deps m = {t \<in> Dep_TargetJobID ` set deps. \<exists>n > 0. m t = Some n}"

lemma finite_waiting [simp]: "finite (waiting deps m)"
  by (rule finite_subset [of _ "Dep_TargetJobID ` set deps"]) (auto simp: waiting_def)

lemma relax_measure:
  "set ds \<subseteq> set deps \<Longrightarrow> relax ds c m q = (m', q') \<Longrightarrow>
   card (waiting deps m') + length q' \<le> card (waiting deps m) + length q"
proof (induction ds arbitrary: m q)
  case Nil
  then show ?case by simp
next
  case (Cons d ds)
  let ?t = "Dep_TargetJobID d"
  show ?case
  proof (cases "Dep_SourceJobID d = c \<and> m ?t \<noteq> None")
    case False
    with Cons show ?thesis by (auto split: if_splits option.splits)
  next
    case True
    then obtain n where n: "m ?t = Some n" by auto
    let ?m = "m(?t \<mapsto> n - 1)"
    have "waiting deps ?m \<subseteq> waiting deps m" using n by (auto simp: waiting_def split: if_splits)
    then have "card (waiting deps ?m) \<le> card (waiting deps m)" by (intro card_mono) auto
    moreover have "card (waiting deps ?m) < card (waiting deps m)" if "n = 1"
    proof (rule psubset_card_mono)
      have "?t \<in> waiting deps m" "?t \<notin> waiting deps ?m" using n that Cons.prems(1) by (auto simp: waiting_def)
      with \<open>waiting deps ?m \<subseteq> waiting deps m\<close> show "waiting deps ?m \<subset> waiting deps m" by blast
    qed simp
    ultimately have "card (waiting deps ?m) + length (if n - 1 = 0 then q @ [?t] else q) \<le> card (waiting deps m) + length q"
      by auto
    moreover have r: "relax ds c ?m (if n - 1 = 0 then q @ [?t] else q) = (m', q')" using Cons.prems(2) True n by simp
    have "card (waiting deps m') + length q' \<le> card (waiting deps ?m) + length (if n - 1 = 0 then q @ [?t] else q)"
      by (rule Cons.IH [OF _ r]) (use Cons.prems(1) in simp)
    ultimately show ?thesis by linarith
  qed
qed

function sort_loop :: "SyncDependency list \<Rightarrow> (uuid \<rightharpoonup> int) \<Rightarrow> uuid list \<Rightarrow> uuid list \<Rightarrow> uuid list" where
  "sort_loop deps m [] result = result"
| "sort_loop deps m (current # queue) result =
     (let (m', queue') = relax deps current m queue in sort_loop deps m' queue' (result @ [current]))"
  by pat_completeness auto
termination
proof (relation "measure (\<lambda>(deps, m, queue, result). card (waiting deps m) + length queue)", goal_cases)
  case (2 deps m current queue result x m' queue')
  then show ?case using relax_measure [of deps deps current m queue m' queue'] by simp
qed simp

text \<open>\<open>order\<close> is the order in which the loop ranges over the map of degrees.\<close>

definition topologicalSort :: "SyncDependency list \<Rightarrow> uuid list \<Rightarrow> uuid list \<Rightarrow> uuid list" where
  "topologicalSort deps order jobIDs =
     (let inDegree = count_degrees deps (zero_degrees jobIDs);
          queue = filter (\<lambda>j. inDegree j = Some 0) order;
          result = sort_loop deps inDegree queue []
      in foldl (\<lambda>r j. if j \<in> set r then r else r @ [j]) result jobIDs)"

definition GetExecutionOrder :: "SyncDependency list \<Rightarrow> uuid list \<Rightarrow> uuid list \<Rightarrow> uuid list" where
  "GetExecutionOrder deps order jobIDs = topologicalSort deps order jobIDs"

definition ResolveDependencies :: "SyncDependency list \<Rightarrow> uuid list \<Rightarrow> uuid list \<Rightarrow> uuid list" where
  "ResolveDependencies deps order jobIDs = GetExecutionOrder deps order jobIDs"

section \<open>The invariant of the sort\<close>

text \<open>The dependencies of \<open>t\<close> whose source is not yet done, and those of the rest of a range that wait
  for \<open>c\<close>.\<close>

definition unresolved :: "SyncDependency list \<Rightarrow> uuid set \<Rightarrow> uuid \<Rightarrow> nat" where
  "unresolved deps R t = length (filter (\<lambda>d. Dep_TargetJobID d = t \<and> Dep_SourceJobID d \<notin> R) deps)"

definition waits_for :: "SyncDependency list \<Rightarrow> uuid \<Rightarrow> uuid \<Rightarrow> nat" where
  "waits_for ds c t = length (filter (\<lambda>d. Dep_TargetJobID d = t \<and> Dep_SourceJobID d = c) ds)"

lemma unresolved_split: "c \<notin> R \<Longrightarrow> unresolved deps R t = unresolved deps (insert c R) t + waits_for deps c t"
  unfolding unresolved_def waits_for_def by (induction deps) auto

lemma unresolved_0: "unresolved deps R t = 0 \<longleftrightarrow> (\<forall>d \<in> set deps. Dep_TargetJobID d = t \<longrightarrow> Dep_SourceJobID d \<in> R)"
  by (auto simp: unresolved_def filter_empty_conv)

definition degrees_of :: "uuid set \<Rightarrow> (uuid \<Rightarrow> nat) \<Rightarrow> (uuid \<rightharpoonup> int) \<Rightarrow> bool" where
  "degrees_of J f m \<longleftrightarrow> m = (\<lambda>t. if t \<in> J then Some (int (f t)) else None)"

lemma zero_degrees_of: "degrees_of (set js) (\<lambda>_. 0) (zero_degrees js)"
proof -
  have "foldl (\<lambda>m j. m(j \<mapsto> 0)) m js = (\<lambda>t. if t \<in> set js then Some 0 else m t)" for m :: "uuid \<rightharpoonup> int"
    by (induction js arbitrary: m) (auto simp: fun_eq_iff)
  then show ?thesis by (simp add: degrees_of_def zero_degrees_def fun_eq_iff)
qed

lemma count_degrees_of:
  "degrees_of J f m \<Longrightarrow> degrees_of J (\<lambda>t. f t + unresolved deps {} t) (count_degrees deps m)"
  unfolding count_degrees_def
proof (induction deps arbitrary: m f)
  case Nil
  then show ?case by (simp add: unresolved_def)
next
  case (Cons d deps)
  let ?t = "Dep_TargetJobID d"
  have "degrees_of J (\<lambda>t. f t + (if t = ?t then 1 else 0))
      (case m ?t of None \<Rightarrow> m | Some n \<Rightarrow> m(?t \<mapsto> n + 1))"
    using Cons.prems by (auto simp: degrees_of_def fun_eq_iff)
  note ih = Cons.IH [OF this]
  have eq: "(\<lambda>t. f t + (if t = ?t then 1 else 0) + unresolved deps {} t) = (\<lambda>t. f t + unresolved (d # deps) {} t)"
    by (auto simp: unresolved_def)
  show ?case unfolding foldl.simps eq [symmetric] by (rule ih)
qed

lemma initial_degrees: "degrees_of (set js) (unresolved deps {}) (count_degrees deps (zero_degrees js))"
  using count_degrees_of [OF zero_degrees_of, of js deps] by simp

lemma relax_inv:
  assumes "degrees_of J (\<lambda>t. f t + waits_for ds c t) m" and "distinct (p @ q)" and "set (p @ q) \<subseteq> J"
    and "\<And>t. t \<in> J \<Longrightarrow> t \<in> set (p @ q) \<longleftrightarrow> f t + waits_for ds c t = 0"
    and "relax ds c m q = (m', q')"
  shows "degrees_of J f m' \<and> distinct (p @ q') \<and> set (p @ q') \<subseteq> J \<and>
    (\<forall>t \<in> J. t \<in> set (p @ q') \<longleftrightarrow> f t = 0) \<and> (\<exists>q2. q' = q @ q2)"
  using assms
proof (induction ds arbitrary: m q)
  case Nil
  then show ?case by (auto simp: waits_for_def)
next
  case (Cons d ds)
  let ?t = "Dep_TargetJobID d"
  show ?case
  proof (cases "Dep_SourceJobID d = c \<and> ?t \<in> J")
    case False
    then have w: "t \<in> J \<Longrightarrow> waits_for (d # ds) c t = waits_for ds c t" for t by (auto simp: waits_for_def)
    have "degrees_of J (\<lambda>t. f t + waits_for ds c t) m"
      using Cons.prems(1) w by (auto simp: degrees_of_def fun_eq_iff)
    moreover have "relax ds c m q = (m', q')"
      using Cons.prems(1,5) False by (auto simp: degrees_of_def split: if_splits)
    ultimately show ?thesis using Cons.IH [of m q] Cons.prems(2-4) w by simp
  next
    case True
    let ?n = "f ?t + waits_for ds c ?t"
    have w: "waits_for (d # ds) c t = waits_for ds c t + (if t = ?t then 1 else 0)" for t
      using True by (simp add: waits_for_def)
    have m: "m ?t = Some (int ?n + 1)" using Cons.prems(1) True w by (simp add: degrees_of_def)
    let ?m = "m(?t \<mapsto> int ?n)" and ?q = "if ?n = 0 then q @ [?t] else q"
    have r: "relax ds c ?m ?q = (m', q')"
      using Cons.prems(5) True m by (auto split: if_splits)
    have deg: "degrees_of J (\<lambda>t. f t + waits_for ds c t) ?m"
      using Cons.prems(1) w True by (auto simp: degrees_of_def fun_eq_iff)
    have nin: "?t \<notin> set (p @ q)" using Cons.prems(4) [of ?t] True w by simp
    have "t \<in> set (p @ ?q) \<longleftrightarrow> f t + waits_for ds c t = 0" if "t \<in> J" for t
      using Cons.prems(4) [OF that] w [of t] nin by (cases "t = ?t") auto
    then have ih: "degrees_of J f m' \<and> distinct (p @ q') \<and> set (p @ q') \<subseteq> J \<and>
        (\<forall>t \<in> J. t \<in> set (p @ q') \<longleftrightarrow> f t = 0) \<and> (\<exists>q2. q' = ?q @ q2)"
      by (intro Cons.IH [OF deg _ _ _ r]) (use Cons.prems(2,3) nin True in auto)
    then obtain q2 where "q' = ?q @ q2" by blast
    then have "\<exists>q2. q' = q @ q2" by (cases "?n = 0") auto
    with ih show ?thesis by blast
  qed
qed

text \<open>\<open>precedes xs a b\<close>: in \<open>xs\<close> there is an \<open>a\<close> before \<open>b\<close>.\<close>

definition precedes :: "uuid list \<Rightarrow> uuid \<Rightarrow> uuid \<Rightarrow> bool" where
  "precedes xs a b \<longleftrightarrow> (\<exists>us vs. xs = us @ b # vs \<and> a \<in> set us)"

lemma precedes_append: "precedes xs a b \<Longrightarrow> precedes (xs @ ys) a b"
  unfolding precedes_def by fastforce

lemma precedes_split: "a \<in> set xs \<Longrightarrow> b \<in> set ys \<Longrightarrow> precedes (xs @ ys) a b"
proof -
  assume "a \<in> set xs" "b \<in> set ys"
  then obtain us vs where "ys = us @ b # vs" by (meson split_list)
  with \<open>a \<in> set xs\<close> show ?thesis unfolding precedes_def by (intro exI [of _ "xs @ us"] exI [of _ vs]) simp
qed

text \<open>The sorted part of the result, and the queue, are in order.\<close>

definition sorting :: "SyncDependency list \<Rightarrow> uuid set \<Rightarrow> (uuid \<rightharpoonup> int) \<Rightarrow> uuid list \<Rightarrow> uuid list \<Rightarrow> bool" where
  "sorting deps J m q r \<longleftrightarrow>
     degrees_of J (unresolved deps (set r)) m \<and> distinct (r @ q) \<and> set (r @ q) \<subseteq> J \<and>
     (\<forall>t \<in> J. t \<in> set (r @ q) \<longleftrightarrow> unresolved deps (set r) t = 0) \<and>
     (\<forall>d \<in> set deps. Dep_TargetJobID d \<in> set (r @ q) \<longrightarrow> precedes (r @ q) (Dep_SourceJobID d) (Dep_TargetJobID d))"

lemma sorting_step:
  assumes inv: "sorting deps J m (c # q) r" and rel: "relax deps c m q = (m', q')"
  shows "sorting deps J m' q' (r @ [c])"
proof -
  let ?R = "set (r @ [c])"
  have R: "?R = insert c (set r)" and c: "c \<notin> set r" using inv by (auto simp: sorting_def)
  have split: "unresolved deps (set r) t = unresolved deps ?R t + waits_for deps c t" for t
    unfolding R by (rule unresolved_split [OF c])
  have f: "unresolved deps (set r) = (\<lambda>t. unresolved deps ?R t + waits_for deps c t)" using split by blast
  have a: "degrees_of J (\<lambda>t. unresolved deps ?R t + waits_for deps c t) m" "distinct ((r @ [c]) @ q)" "set ((r @ [c]) @ q) \<subseteq> J"
    using inv by (simp_all add: sorting_def f)
  have b: "t \<in> set ((r @ [c]) @ q) \<longleftrightarrow> unresolved deps ?R t + waits_for deps c t = 0" if "t \<in> J" for t
    using inv that by (simp add: sorting_def f)
  note step = relax_inv [OF a b rel]
  then obtain q2 where q2: "q' = q @ q2" by blast
  have "precedes ((r @ [c]) @ q') (Dep_SourceJobID d) (Dep_TargetJobID d)"
    if d: "d \<in> set deps" "Dep_TargetJobID d \<in> set ((r @ [c]) @ q')" for d
  proof (cases "Dep_TargetJobID d \<in> set ((r @ [c]) @ q)")
    case True
    then have "precedes (r @ c # q) (Dep_SourceJobID d) (Dep_TargetJobID d)" using inv d(1) by (auto simp: sorting_def)
    from precedes_append [OF this, of q2] show ?thesis by (simp add: q2)
  next
    case False
    with d(2) q2 have t: "Dep_TargetJobID d \<in> set q2" by auto
    have "Dep_TargetJobID d \<in> J" using step d(2) by blast
    then have "unresolved deps ?R (Dep_TargetJobID d) = 0" using step d(2) by blast
    then have "Dep_SourceJobID d \<in> set (r @ [c])" using d(1) by (simp add: unresolved_0)
    then have "Dep_SourceJobID d \<in> set ((r @ [c]) @ q)" by auto
    from precedes_split [OF this t] show ?thesis by (simp add: q2)
  qed
  with step show ?thesis unfolding sorting_def by blast
qed

lemma sort_loop_sorting:
  "sorting deps J m q r \<Longrightarrow> \<exists>m'. sorting deps J m' [] (sort_loop deps m q r)"
proof (induction deps m q r rule: sort_loop.induct)
  case (1 deps m result)
  then show ?case by auto
next
  case (2 deps m c q r)
  obtain m' q' where r: "relax deps c m q = (m', q')" by (metis surj_pair)
  from 2(1) [OF r [symmetric] refl sorting_step [OF 2(2) r]] show ?case by (simp add: r)
qed

lemma sorting_start:
  assumes "distinct order" and "set order = set jobIDs"
    and "m = count_degrees deps (zero_degrees jobIDs)"
  shows "sorting deps (set jobIDs) m (filter (\<lambda>j. m j = Some 0) order) []"
  using initial_degrees [of jobIDs deps] assms
  by (auto simp: sorting_def degrees_of_def unresolved_0)

lemma add_missing_props:
  "distinct r \<Longrightarrow> distinct (foldl (\<lambda>r j. if j \<in> set r then r else r @ [j]) r js)"
  "set (foldl (\<lambda>r j. if j \<in> set r then r else r @ [j]) r js) = set r \<union> set js"
  "set js \<subseteq> set r \<Longrightarrow> foldl (\<lambda>r j. if j \<in> set r then r else r @ [j]) r js = r"
  by (induction js arbitrary: r) auto

lemma topologicalSort_cases:
  assumes "distinct order" and "set order = set jobIDs"
  obtains m r where "sorting deps (set jobIDs) m [] r"
    "topologicalSort deps order jobIDs = foldl (\<lambda>r j. if j \<in> set r then r else r @ [j]) r jobIDs"
proof -
  define m where "m = count_degrees deps (zero_degrees jobIDs)"
  from sort_loop_sorting [OF sorting_start [OF assms m_def]] obtain m' where
    "sorting deps (set jobIDs) m' [] (sort_loop deps m (filter (\<lambda>j. m j = Some 0) order) [])" by blast
  then show ?thesis by (rule that) (simp add: topologicalSort_def m_def Let_def)
qed

text \<open>In an acyclic graph that is closed under sources, no job is left over.\<close>

lemma sorting_complete:
  assumes s: "sorting deps J m [] r" and fin: "finite J" and acyc: "acyclic (dep_edges deps)"
    and closed: "\<And>d. d \<in> set deps \<Longrightarrow> Dep_TargetJobID d \<in> J \<Longrightarrow> Dep_SourceJobID d \<in> J"
  shows "set r = J"
proof (rule ccontr)
  assume "set r \<noteq> J"
  then have "J - set r \<noteq> {}" using s by (auto simp: sorting_def)
  moreover have "wf (dep_edges deps)"
    by (rule finite_acyclic_wf [OF _ acyc]) (simp add: dep_edges_def)
  ultimately obtain t where t: "t \<in> J - set r" and min: "\<And>x. (x, t) \<in> dep_edges deps \<Longrightarrow> x \<notin> J - set r"
    by (meson ex_in_conv wfE_min)
  have "unresolved deps (set r) t \<noteq> 0" using s t by (auto simp: sorting_def)
  then obtain d where d: "d \<in> set deps" "Dep_TargetJobID d = t" "Dep_SourceJobID d \<notin> set r"
    by (auto simp: unresolved_0)
  then show False using closed [of d] min [of "Dep_SourceJobID d"] dep_edgesI [of d deps] t by auto
qed


section \<open>Correctness\<close>

definition sample_dep :: "uuid \<Rightarrow> uuid \<Rightarrow> SyncDependency" where
  "sample_dep s t = (blank_dependency s t [])\<lparr>Dep_SourceJobID := s, Dep_TargetJobID := t\<rparr>"

lemma acyclic_empty [simp]: "acyclic {}"
  by (simp add: acyclic_def)

lemma sample_dep_simps [simp]: "Dep_SourceJobID (sample_dep s t) = s" "Dep_TargetJobID (sample_dep s t) = t"
  by (simp_all add: sample_dep_def)



text \<open>C6: The topological sort returns every job exactly once.  When the dependencies have no cycle and
  every job that one of the jobs depends on is itself among them, each job comes after all those
  it depends on.\<close>

theorem execution_order_correct:
  assumes "distinct order" and "set order = set jobIDs"
  shows "distinct (GetExecutionOrder deps order jobIDs) \<and> set (GetExecutionOrder deps order jobIDs) = set jobIDs \<and>
    (acyclic (dep_edges deps) \<longrightarrow>
     (\<forall>d \<in> set deps. Dep_TargetJobID d \<in> set jobIDs \<longrightarrow> Dep_SourceJobID d \<in> set jobIDs) \<longrightarrow>
     (\<forall>d \<in> set deps. Dep_TargetJobID d \<in> set jobIDs \<longrightarrow>
        precedes (GetExecutionOrder deps order jobIDs) (Dep_SourceJobID d) (Dep_TargetJobID d)))"
proof -
  obtain m r where s: "sorting deps (set jobIDs) m [] r"
    and t: "topologicalSort deps order jobIDs = foldl (\<lambda>r j. if j \<in> set r then r else r @ [j]) r jobIDs"
    by (rule topologicalSort_cases [OF assms])
  have r: "distinct r" "set r \<subseteq> set jobIDs" using s by (auto simp: sorting_def)
  have "distinct (topologicalSort deps order jobIDs)" "set (topologicalSort deps order jobIDs) = set jobIDs"
    using add_missing_props(1) [OF r(1), of jobIDs] add_missing_props(2) [of r jobIDs] r(2) unfolding t by auto
  moreover have "precedes (topologicalSort deps order jobIDs) (Dep_SourceJobID d) (Dep_TargetJobID d)"
    if "acyclic (dep_edges deps)" "\<forall>d \<in> set deps. Dep_TargetJobID d \<in> set jobIDs \<longrightarrow> Dep_SourceJobID d \<in> set jobIDs"
      "d \<in> set deps" "Dep_TargetJobID d \<in> set jobIDs" for d
  proof -
    have "set r = set jobIDs" by (rule sorting_complete [OF s]) (use that in auto)
    then have "topologicalSort deps order jobIDs = r" by (simp add: t add_missing_props(3))
    then show ?thesis using s that \<open>set r = set jobIDs\<close> by (auto simp: sorting_def)
  qed
  ultimately show ?thesis unfolding GetExecutionOrder_def by blast
qed

theorem execution_order_correct_witness:
  "precedes (GetExecutionOrder [sample_dep ''a'' ''b''] [''b'', ''a''] [''b'', ''a'']) ''a'' ''b''"
proof -
  have "acyclic (dep_edges [sample_dep ''a'' ''b''])" by (simp add: dep_edges_def)
  with execution_order_correct [of "[''b'', ''a'']" "[''b'', ''a'']" "[sample_dep ''a'' ''b'']"]
  show ?thesis by auto
qed

text \<open>A dependency on a job outside the list blocks the sort, also when that job is long completed:
  its edge is counted but never taken away.  Jobs behind it keep the caller's order, even against
  their own dependencies: \<open>b\<close> needs \<open>a\<close>, and \<open>a\<close> needs a job that is not in the list, and \<open>b\<close> comes
  first.\<close>

theorem outside_dependency_breaks_order:
  "GetExecutionOrder [sample_dep ''done'' ''a'', sample_dep ''a'' ''b''] [''b'', ''a''] [''b'', ''a''] = [''b'', ''a''] \<and>
   acyclic (dep_edges [sample_dep ''done'' ''a'', sample_dep ''a'' ''b''])"
proof
  show "GetExecutionOrder [sample_dep ''done'' ''a'', sample_dep ''a'' ''b''] [''b'', ''a''] [''b'', ''a''] = [''b'', ''a'']"
    by code_simp
  have "\<not> wouldCreateCycle [sample_dep ''done'' ''a''] ''a'' ''b''" by code_simp
  moreover have "acyclic (dep_edges [sample_dep ''done'' ''a''])" by (simp add: dep_edges_def)
  ultimately show "acyclic (dep_edges [sample_dep ''done'' ''a'', sample_dep ''a'' ''b''])"
    by (simp add: wouldCreateCycle_iff dep_edges_def insert_commute)
qed

section \<open>What the manager records\<close>

text \<open>The managers that additions to a new one give; the order of the dependencies is arbitrary.\<close>

inductive added :: "DependencyManager \<Rightarrow> bool" where
  added_new: "added NewDependencyManager"
| added_add: "added m \<Longrightarrow> dependencies_in_order m deps \<Longrightarrow> AddDependency deps s t ty m = Ok (d, m') \<Longrightarrow> added m'"

definition is_blank :: "SyncDependency \<Rightarrow> bool" where
  "is_blank d \<longleftrightarrow> Dep_SourceJobID d = nil_uuid \<and> Dep_TargetJobID d = nil_uuid \<and> Dep_Type d = []"

lemma blank_is_blank: "is_blank (blank_dependency s t ty)" "Dep_ID (blank_dependency s t ty) = nil_uuid"
  by (simp_all add: is_blank_def blank_dependency_def)

lemma added_blank: "added m \<Longrightarrow> DM_dependencies m k = Some d \<Longrightarrow> k = nil_uuid \<and> is_blank d"
proof (induction arbitrary: k d rule: added.induct)
  case (added_add m deps s t ty d1 m')
  from added_add.hyps(3) have "DM_dependencies m' = (DM_dependencies m)(nil_uuid \<mapsto> blank_dependency s t ty)"
    by (auto simp: AddDependency_def Let_def blank_is_blank split: if_splits)
  then show ?case using added_add.IH added_add.prems blank_is_blank(1) by (auto split: if_splits)
qed (simp add: NewDependencyManager_def)

lemma added_dom: "added m \<Longrightarrow> dom (DM_dependencies m) \<subseteq> {nil_uuid}"
  using added_blank by blast

lemma added_in_order:
  assumes "added m" and "dependencies_in_order m deps"
  shows "length deps \<le> 1 \<and> (\<forall>d \<in> set deps. is_blank d)"
proof -
  from assms(2) obtain ks where ks: "distinct ks" "set ks = dom (DM_dependencies m)"
    "deps = map (\<lambda>k. the (DM_dependencies m k)) ks" by (auto simp: dependencies_in_order_def)
  have "length ks = card (dom (DM_dependencies m))" using ks(1,2) distinct_card by metis
  also have "\<dots> \<le> card {nil_uuid}" by (rule card_mono [OF _ added_dom [OF assms(1)]]) simp
  finally have "length deps \<le> 1" by (simp add: ks(3))
  moreover have "is_blank (the (DM_dependencies m k))" if "k \<in> set ks" for k
    using that ks(2) added_blank [OF assms(1), of k] by auto
  ultimately show ?thesis by (simp add: ks(3))
qed

text \<open>A dependency is recorded without its jobs.  Whatever is added to a new manager, it holds at most
  one dependency, from the nil job to the nil job and of no type; so the manager accepts every
  dependency between distinct jobs, also those that close a cycle, and every job may start at once.\<close>

theorem added_dependencies_are_blank:
  assumes "added m" and "dependencies_in_order m deps"
  shows "length deps \<le> 1 \<and> CanJobStart deps job \<and> (job \<noteq> nil_uuid \<longrightarrow> GetDependencies deps job = []) \<and>
    (s \<noteq> t \<longrightarrow> (\<exists>d m'. AddDependency deps s t ty m = Ok (d, m')))"
proof -
  note b = added_in_order [OF assms]
  have sub: "dep_edges deps \<subseteq> {(nil_uuid, nil_uuid)}" using b by (auto simp: dep_edges_def is_blank_def)
  have "x = y" if "(x, y) \<in> (dep_edges deps)\<^sup>*" for x y
    using that
  proof (induction rule: rtrancl_induct)
    case (step y z)
    then show ?case using sub by blast
  qed simp
  then have c: "\<not> wouldCreateCycle deps s t" if "s \<noteq> t" using that by (auto simp: wouldCreateCycle_iff)
  have "CanJobStart deps job" using b by (auto simp: CanJobStart_def GetDependencies_def list_ex_iff is_blank_def)
  moreover have "job \<noteq> nil_uuid \<longrightarrow> GetDependencies deps job = []"
    using b by (auto simp: GetDependencies_def is_blank_def filter_empty_conv)
  moreover have "s \<noteq> t \<longrightarrow> (\<exists>d m'. AddDependency deps s t ty m = Ok (d, m'))"
    using c by (simp add: AddDependency_def Let_def)
  ultimately show ?thesis using b by blast
qed

theorem added_dependencies_are_blank_witness:
  "\<exists>d1 m1 deps d2 m2. AddDependency [] ''a'' ''b'' DependencyTypeMandatory NewDependencyManager = Ok (d1, m1) \<and>
     dependencies_in_order m1 deps \<and> AddDependency deps ''b'' ''a'' DependencyTypeMandatory m1 = Ok (d2, m2) \<and>
     CanJobStart deps ''b''"
proof -
  have o0: "dependencies_in_order NewDependencyManager []"
    by (auto simp: dependencies_in_order_def NewDependencyManager_def)
  have "\<exists>d1 m1. AddDependency [] ''a'' ''b'' DependencyTypeMandatory NewDependencyManager = Ok (d1, m1)"
    using added_dependencies_are_blank [OF added_new o0, of _ "''a''" "''b''" DependencyTypeMandatory] by simp
  then obtain d1 m1 where m1: "AddDependency [] ''a'' ''b'' DependencyTypeMandatory NewDependencyManager = Ok (d1, m1)"
    by blast
  have a1: "added m1" by (rule added_add [OF added_new o0 m1])
  have "finite (dom (DM_dependencies m1))" by (rule finite_subset [OF added_dom [OF a1]]) simp
  from finite_distinct_list [OF this] obtain ks where "set ks = dom (DM_dependencies m1)" "distinct ks" by (elim exE conjE)
  then have "dependencies_in_order m1 (map (\<lambda>k. the (DM_dependencies m1 k)) ks)"
    by (auto simp: dependencies_in_order_def)
  note o1 = this
  note all = added_dependencies_are_blank [OF a1 o1, of "''b''" "''b''" "''a''" DependencyTypeMandatory]
  have "CanJobStart (map (\<lambda>k. the (DM_dependencies m1 k)) ks) ''b''"
    by (rule all [THEN conjunct2, THEN conjunct1])
  moreover have "\<exists>d m'. AddDependency (map (\<lambda>k. the (DM_dependencies m1 k)) ks) ''b'' ''a'' DependencyTypeMandatory m1 = Ok (d, m')"
    by (rule all [THEN conjunct2, THEN conjunct2, THEN conjunct2, THEN mp]) simp
  ultimately show ?thesis using m1 o1 by blast
qed

end
