(* ===== verification/Sync_Coordinator.thy ===== *)
theory Sync_Coordinator imports Sync_Orchestrator Sync_Conflicts Sync_Dependencies begin

text \<open>
  The coordination of jobs over several data sources (\<^verbatim>\<open>pkg/sync/coordinator.go\<close>): a goroutine starts a job
  for each source with the orchestrator, waits until all have ended, and resolves conflicts with the
  conflict resolver.

  A coordination is shared by pointer and stands in a store; its goroutine has a program counter.  The
  coordinator, the orchestrator and the resolver form one state, which all calls thread.  The call of
  \<open>StartSync\<close> is one step here; its interleavings are the subject of \<open>Sync_Orchestrator\<close>.
  \<open>connector_error\<close> is the text of an error of the connector registry.
\<close>

section \<open>State\<close>

definition CoordinationStatusPending :: string where [simp]: "CoordinationStatusPending = ''pending''"
definition CoordinationStatusPreparing :: string where [simp]: "CoordinationStatusPreparing = ''preparing''"
definition CoordinationStatusRunning :: string where [simp]: "CoordinationStatusRunning = ''running''"
definition CoordinationStatusResolving :: string where [simp]: "CoordinationStatusResolving = ''resolving''"
definition CoordinationStatusCompleted :: string where [simp]: "CoordinationStatusCompleted = ''completed''"
definition CoordinationStatusFailed :: string where [simp]: "CoordinationStatusFailed = ''failed''"
definition CoordinationStatusCancelled :: string where [simp]: "CoordinationStatusCancelled = ''cancelled''"

definition CrossConflictTypeModifiedMultiple :: string where [simp]: "CrossConflictTypeModifiedMultiple = ''modified_multiple''"
definition CrossConflictTypeDataModified :: string where [simp]: "CrossConflictTypeDataModified = ''data_modified''"
definition CrossConflictTypeDataDeleted :: string where [simp]: "CrossConflictTypeDataDeleted = ''data_deleted''"

record CoordinatorConfig =
  CoC_EnableCrossConnectorSync :: bool
  CoC_MaxConcurrentCoordinations :: int
  CoC_ConflictResolutionTimeout :: duration
  CoC_DependencyTimeout :: duration
  CoC_CrossSyncBatchSize :: int

record CoordinationProgress =
  CP_TotalDataSources :: int
  CP_CompletedDataSources :: int
  CP_FailedDataSources :: int
  CP_PercentComplete :: float64
  CP_TotalFiles :: int
  CP_ProcessedFiles :: int
  CP_ConflictsDetected :: int
  CP_ConflictsResolved :: int
  CP_CurrentPhase :: string
  CP_EstimatedCompletion :: "time option"

record CrossConnectorConflict =
  CCC_ID :: uuid
  CCC_FilePath :: string
  CCC_ConflictType :: string
  CCC_InvolvedDataSources :: "uuid list"
  CCC_FileVersions :: "ConflictFileVersion list"
  CCC_ResolutionStrategy :: string
  CCC_ResolvedVersion :: "ConflictFileVersion option"
  CCC_ResolvedAt :: "time option"
  CCC_ResolvedBy :: string
  CCC_Metadata :: metadata

text \<open>\<^verbatim>\<open>SyncResults\<close> holds pointers to the status of the jobs.\<close>

record CoordinationResult =
  CRes_SuccessfulSyncs :: int
  CRes_FailedSyncs :: int
  CRes_TotalFilesProcessed :: int
  CRes_TotalBytesTransferred :: int
  CRes_ConflictsResolved :: int
  CRes_ConflictsPending :: int
  CRes_SyncResults :: "uuid \<rightharpoonup> job_ref"
  CRes_Conflicts :: "CrossConnectorConflict list"
  CRes_Warnings :: "string list"
  CRes_Errors :: "string list"

record CoordinationContext =
  Ctx_ID :: uuid
  Ctx_Name :: string
  Ctx_Description :: string
  Ctx_DataSources :: "uuid list"
  Ctx_SyncJobs :: "uuid \<rightharpoonup> job_ref"
  Ctx_Dependencies :: "SyncDependency list"
  Ctx_ConflictStrategy :: string
  Ctx_Status :: string
  Ctx_StartTime :: time
  Ctx_EndTime :: "time option"
  Ctx_Progress :: CoordinationProgress
  Ctx_Results :: CoordinationResult

record CoordinationRequest =
  CReq_Name :: string
  CReq_Description :: string
  CReq_DataSources :: "uuid list"
  CReq_Dependencies :: "SyncDependency list"
  CReq_ConflictStrategy :: string
  CReq_SyncOptions :: "UnifiedSyncOptions option"

text \<open>Where the goroutine is: before the first phase, starting the jobs of the sources that are left,
  waiting for the next tick, before the conflicts, before the final phase, before it is unregistered.\<close>

datatype coord_pc = CSpawned | CStarting "uuid list" | CMonitoring | CResolving | CFinalizing | CLeaving | CEnded

record CoordRun =
  CO_context :: CoordinationContext
  CO_pc :: coord_pc

type_synonym coord_ref = nat

record SyncCoordinator =
  SC_config :: CoordinatorConfig
  SC_orchestrator :: SyncOrchestrator
  SC_resolver :: ConflictResolver
  SC_dependencies :: DependencyManager
  SC_coordinations :: "uuid \<rightharpoonup> coord_ref"
  SC_store :: "coord_ref \<rightharpoonup> CoordRun"

definition default_coordinator_config :: CoordinatorConfig where
  "default_coordinator_config =
     \<lparr>CoC_EnableCrossConnectorSync = True, CoC_MaxConcurrentCoordinations = 5,
      CoC_ConflictResolutionTimeout = 30 * 60 * 1000000000, CoC_DependencyTimeout = 2 * 3600 * 1000000000,
      CoC_CrossSyncBatchSize = 10\<rparr>"

definition coordinator_conflict_config :: ConflictResolverConfig where
  "coordinator_conflict_config =
     \<lparr>CRC_DefaultStrategy = ConflictStrategyLastWrite, CRC_AutoResolveTimeout = 30 * 60 * 1000000000,
      CRC_MaxConflictAge = 24 * 3600 * 1000000000, CRC_EnableVersioning = False, CRC_VersioningSuffix = ''.conflict'',
      CRC_ConflictNotificationURL = [], CRC_EnableManualResolution = True, CRC_BackupConflictedFiles = True,
      CRC_ConflictBackupPath = []\<rparr>"

definition NewSyncCoordinator :: "SyncOrchestrator \<Rightarrow> CoordinatorConfig option \<Rightarrow> SyncCoordinator" where
  "NewSyncCoordinator orchestrator config =
     \<lparr>SC_config = (case config of None \<Rightarrow> default_coordinator_config | Some c \<Rightarrow> c), SC_orchestrator = orchestrator,
      SC_resolver = NewConflictResolver Map.empty (Some coordinator_conflict_config),
      SC_dependencies = NewDependencyManager, SC_coordinations = Map.empty, SC_store = Map.empty\<rparr>"

section \<open>The calls of a client\<close>

datatype coord_error =
    ErrCoordinationDisabled
  | ErrNameRequired
  | ErrTooFewDataSources
  | ErrTooManyDataSources
  | ErrTooManyCoordinations
  | ErrCoordinationNotFound

definition validateCoordinationRequest :: "CoordinationRequest \<Rightarrow> coord_error option" where
  "validateCoordinationRequest request =
     (if CReq_Name request = [] then Some ErrNameRequired
      else if length (CReq_DataSources request) < 2 then Some ErrTooFewDataSources
      else if length (CReq_DataSources request) > 20 then Some ErrTooManyDataSources else None)"

definition checkCoordinationLimits :: "SyncCoordinator \<Rightarrow> coord_error option" where
  "checkCoordinationLimits sc =
     (if int (card (dom (SC_coordinations sc))) \<ge> CoC_MaxConcurrentCoordinations (SC_config sc)
      then Some ErrTooManyCoordinations else None)"

definition empty_coord_progress :: CoordinationProgress where
  "empty_coord_progress =
     \<lparr>CP_TotalDataSources = 0, CP_CompletedDataSources = 0, CP_FailedDataSources = 0, CP_PercentComplete = 0, CP_TotalFiles = 0,
      CP_ProcessedFiles = 0, CP_ConflictsDetected = 0, CP_ConflictsResolved = 0, CP_CurrentPhase = [],
      CP_EstimatedCompletion = None\<rparr>"

definition empty_coord_result :: CoordinationResult where
  "empty_coord_result =
     \<lparr>CRes_SuccessfulSyncs = 0, CRes_FailedSyncs = 0, CRes_TotalFilesProcessed = 0, CRes_TotalBytesTransferred = 0,
      CRes_ConflictsResolved = 0, CRes_ConflictsPending = 0, CRes_SyncResults = Map.empty, CRes_Conflicts = [],
      CRes_Warnings = [], CRes_Errors = []\<rparr>"

definition createCoordinationContext :: "uuid \<Rightarrow> time \<Rightarrow> CoordinationRequest \<Rightarrow> CoordinationContext" where
  "createCoordinationContext new_id now request =
     \<lparr>Ctx_ID = new_id, Ctx_Name = CReq_Name request, Ctx_Description = CReq_Description request,
      Ctx_DataSources = CReq_DataSources request, Ctx_SyncJobs = Map.empty, Ctx_Dependencies = CReq_Dependencies request,
      Ctx_ConflictStrategy = CReq_ConflictStrategy request, Ctx_Status = CoordinationStatusPending, Ctx_StartTime = now,
      Ctx_EndTime = None,
      Ctx_Progress = empty_coord_progress\<lparr>CP_TotalDataSources := int (length (CReq_DataSources request)),
        CP_CurrentPhase := ''initialization''\<rparr>,
      Ctx_Results = empty_coord_result\<rparr>"

definition StartCoordination :: "uuid \<Rightarrow> coord_ref \<Rightarrow> time \<Rightarrow> CoordinationRequest \<Rightarrow> SyncCoordinator \<Rightarrow>
    SyncCoordinator \<times> (coord_error, coord_ref) outcome" where
  "StartCoordination new_id ref now request sc =
     (if \<not> CoC_EnableCrossConnectorSync (SC_config sc) then (sc, Err ErrCoordinationDisabled)
      else case validateCoordinationRequest request of
        Some e \<Rightarrow> (sc, Err e)
      | None \<Rightarrow>
          (case checkCoordinationLimits sc of
             Some e \<Rightarrow> (sc, Err e)
           | None \<Rightarrow>
               (sc\<lparr>SC_store := (SC_store sc)(ref \<mapsto> \<lparr>CO_context = createCoordinationContext new_id now request, CO_pc = CSpawned\<rparr>),
                   SC_coordinations := (SC_coordinations sc)(new_id \<mapsto> ref)\<rparr>, Ok ref)))"

definition GetCoordinationStatus :: "uuid \<Rightarrow> SyncCoordinator \<Rightarrow> (coord_error, coord_ref) outcome" where
  "GetCoordinationStatus jid sc =
     (case SC_coordinations sc jid of None \<Rightarrow> Err ErrCoordinationNotFound | Some ref \<Rightarrow> Ok ref)"

definition ListCoordinations :: "uuid list \<Rightarrow> SyncCoordinator \<Rightarrow> coord_ref list" where
  "ListCoordinations order sc = List.map_filter (SC_coordinations sc) order"

definition map_context :: "(CoordinationContext \<Rightarrow> CoordinationContext) \<Rightarrow> CoordRun \<Rightarrow> CoordRun" where
  "map_context f r = r\<lparr>CO_context := f (CO_context r)\<rparr>"

text \<open>\<open>order\<close> is the order of the map of jobs.\<close>

definition CancelCoordination :: "time \<Rightarrow> uuid list \<Rightarrow> uuid \<Rightarrow> SyncCoordinator \<Rightarrow> SyncCoordinator \<times> coord_error option" where
  "CancelCoordination now order jid sc =
     (case SC_coordinations sc jid of
        None \<Rightarrow> (sc, Some ErrCoordinationNotFound)
      | Some ref \<Rightarrow>
          (case SC_store sc ref of
             None \<Rightarrow> (sc, None)
           | Some r \<Rightarrow>
               (sc\<lparr>SC_orchestrator := fold (Cancel now) (List.map_filter (Ctx_SyncJobs (CO_context r)) order) (SC_orchestrator sc),
                   SC_store := (SC_store sc)(ref \<mapsto> map_context (\<lambda>c. c\<lparr>Ctx_Status := CoordinationStatusCancelled,
                     Ctx_EndTime := Some now\<rparr>) r)\<rparr>, None)))"

section \<open>The phases of a coordination\<close>

text \<open>Preparation and the dependencies, whose order nothing uses: their only effect is an error, and the sort
  returns none.\<close>

definition prepare_phase :: "SyncCoordinator \<Rightarrow> CoordRun \<Rightarrow> CoordRun" where
  "prepare_phase sc r =
     (map_context (\<lambda>c. c\<lparr>Ctx_Status := CoordinationStatusRunning,
        Ctx_Progress := (Ctx_Progress c)\<lparr>CP_TotalDataSources := int (length (Ctx_DataSources c)),
          CP_CurrentPhase := ''sync_execution''\<rparr>\<rparr>) r)\<lparr>CO_pc := CStarting (Ctx_DataSources (CO_context r))\<rparr>"

definition resolveDependencies :: "SyncDependency list \<Rightarrow> uuid list \<Rightarrow> CoordinationContext \<Rightarrow> (dependency_error, uuid list) outcome" where
  "resolveDependencies deps order c =
     (if Ctx_Dependencies c = [] then Ok []
      else Ok (ResolveDependencies deps order (map Dep_SourceJobID (Ctx_Dependencies c))))"

definition coordination_request :: "uuid \<Rightarrow> string \<Rightarrow> StartSyncRequest" where
  "coordination_request ds strategy =
     \<lparr>SReq_DataSourceID = ds, SReq_ConnectorType = ''auto'',
      SReq_Options = Some \<lparr>Opt_SyncType = SyncTypeFull, Opt_Direction = SyncDirectionBidirectional,
        Opt_ConflictStrategy = strategy, Opt_Priority = SyncPriorityNormal, Opt_Filters = None, Opt_Performance = None,
        Opt_Retry = None, Opt_Notifications = None\<rparr>,
      SReq_ScheduleOptions = None\<rparr>"

fun show_sync_error :: "string \<Rightarrow> sync_error \<Rightarrow> string" where
  "show_sync_error connector_error ErrInvalidDataSourceID = ''invalid sync request: invalid data source ID''"
| "show_sync_error connector_error ErrInvalidConnectorType = ''invalid sync request: invalid connector type''"
| "show_sync_error connector_error ErrInvalidSyncOptions = ''invalid sync request: invalid sync options''"
| "show_sync_error connector_error ErrMaxConcurrentSyncsExceeded = ''concurrency limit exceeded: maximum concurrent syncs exceeded''"
| "show_sync_error connector_error ErrSyncAlreadyInProgress =
     ''concurrency limit exceeded: sync already in progress for this data source''"
| "show_sync_error connector_error ErrConnectorUnavailable = ''failed to get connector: '' @ connector_error"
| "show_sync_error connector_error ErrSyncJobNotFound = ''sync job not found''"

definition start_phase :: "(string \<Rightarrow> bool) \<Rightarrow> string \<Rightarrow> uuid \<Rightarrow> job_ref \<Rightarrow> time \<Rightarrow> uuid \<Rightarrow> uuid list \<Rightarrow> SyncOrchestrator \<Rightarrow> CoordRun \<Rightarrow>
    SyncOrchestrator \<times> CoordRun" where
  "start_phase has_connector connector_error new_id ref now ds rest o' r =
     (let (o'', res) = StartSync has_connector new_id ref now (coordination_request ds (Ctx_ConflictStrategy (CO_context r))) o'
      in (o'', (case res of
            Ok job \<Rightarrow> map_context (\<lambda>c. c\<lparr>Ctx_SyncJobs := (Ctx_SyncJobs c)(ds \<mapsto> job)\<rparr>) r
          | Err e \<Rightarrow> map_context (\<lambda>c. c\<lparr>
              Ctx_Results := (Ctx_Results c)\<lparr>CRes_Errors := CRes_Errors (Ctx_Results c) @
                [''Failed to start sync for data source '' @ ds @ '': '' @ show_sync_error connector_error e]\<rparr>,
              Ctx_Progress := (Ctx_Progress c)\<lparr>CP_FailedDataSources := CP_FailedDataSources (Ctx_Progress c) + 1\<rparr>\<rparr>) r
          | Panic \<Rightarrow> r)\<lparr>CO_pc := CStarting rest\<rparr>))"

text \<open>One tick of the monitor: the loop over the jobs, and the totals it sets afterwards.\<close>

record tick_state =
  TS_orchestrator :: SyncOrchestrator
  TS_results :: CoordinationResult
  TS_complete :: bool
  TS_total :: int
  TS_processed :: int

definition tick_job :: "time \<Rightarrow> uuid \<times> job_ref \<Rightarrow> tick_state \<Rightarrow> tick_state" where
  "tick_job now job t =
     (let (ds, ref) = job; o' = TS_orchestrator t
      in case SO_jobs o' ref of
           None \<Rightarrow> t
         | Some r \<Rightarrow>
             (let st = GetStatus now (job_status r);
                  t1 = t\<lparr>TS_orchestrator := o'\<lparr>SO_jobs := (SO_jobs o')(ref \<mapsto> map_status (GetStatus now) r)\<rparr>,
                         TS_results := (TS_results t)\<lparr>CRes_SyncResults := (CRes_SyncResults (TS_results t))(ds \<mapsto> ref)\<rparr>\<rparr>;
                  t2 = (case JS_Progress st of
                          None \<Rightarrow> t1
                        | Some p \<Rightarrow> t1\<lparr>TS_total := TS_total t1 + Prog_TotalFiles p, TS_processed := TS_processed t1 + Prog_ProcessedFiles p\<rparr>)
              in if JS_State st = SyncStateCompleted
                 then t2\<lparr>TS_results := (TS_results t2)\<lparr>CRes_SuccessfulSyncs := CRes_SuccessfulSyncs (TS_results t2) + 1\<rparr>\<rparr>
                 else if JS_State st = SyncStateFailed \<or> JS_State st = SyncStateCancelled
                 then t2\<lparr>TS_results := (TS_results t2)\<lparr>CRes_FailedSyncs := CRes_FailedSyncs (TS_results t2) + 1\<rparr>\<rparr>
                 else t2\<lparr>TS_complete := False\<rparr>))"

definition jobs_in_order :: "uuid list \<Rightarrow> CoordinationContext \<Rightarrow> (uuid \<times> job_ref) list" where
  "jobs_in_order order c = List.map_filter (\<lambda>ds. map_option (Pair ds) (Ctx_SyncJobs c ds)) order"

definition tick_phase :: "time \<Rightarrow> uuid list \<Rightarrow> SyncOrchestrator \<Rightarrow> CoordRun \<Rightarrow> SyncOrchestrator \<times> CoordRun" where
  "tick_phase now order o' r =
     (let c = CO_context r;
          t = fold (tick_job now) (jobs_in_order order c)
                \<lparr>TS_orchestrator = o', TS_results = Ctx_Results c, TS_complete = True, TS_total = 0, TS_processed = 0\<rparr>;
          p = (Ctx_Progress c)\<lparr>CP_TotalFiles := TS_total t, CP_ProcessedFiles := TS_processed t\<rparr>;
          p1 = (if TS_total t > 0
                then p\<lparr>CP_PercentComplete := f64_mul (f64_div (f64_of_int (TS_processed t)) (f64_of_int (TS_total t))) 100\<rparr> else p);
          p2 = p1\<lparr>CP_CompletedDataSources := CRes_SuccessfulSyncs (TS_results t) + CRes_FailedSyncs (TS_results t)\<rparr>;
          r' = map_context (\<lambda>c. c\<lparr>Ctx_Results := TS_results t, Ctx_Progress := p2\<rparr>) r
      in (TS_orchestrator t,
          if TS_complete t
          then (map_context (\<lambda>c. c\<lparr>Ctx_Status := CoordinationStatusResolving,
                  Ctx_Progress := (Ctx_Progress c)\<lparr>CP_CurrentPhase := ''conflict_resolution''\<rparr>\<rparr>) r')\<lparr>CO_pc := CResolving\<rparr>
          else r'))"

text \<open>The detection of conflicts is a placeholder of the code: one conflict between the first two sources.\<close>

definition mock_version :: "uuid \<Rightarrow> int \<Rightarrow> time \<Rightarrow> string \<Rightarrow> ConflictFileVersion" where
  "mock_version ds n modified checksum =
     \<lparr>FV_DataSourceID = ds, FV_ConnectorType = [], FV_FilePath = ''/shared/document.docx'', FV_FileSize = n,
      FV_ModifiedTime = modified, FV_CreatedTime = zero_time, FV_Checksum = checksum, FV_ContentType = [],
      FV_IsDirectory = False, FV_IsDeleted = False, FV_Metadata = Map.empty\<rparr>"

definition detectCrossConnectorConflicts :: "uuid \<Rightarrow> time \<Rightarrow> CoordinationContext \<Rightarrow> CrossConnectorConflict list" where
  "detectCrossConnectorConflicts new_id now c =
     (case Ctx_DataSources c of
        d0 # d1 # _ \<Rightarrow>
          [\<lparr>CCC_ID = new_id, CCC_FilePath = ''/shared/document.docx'', CCC_ConflictType = CrossConflictTypeModifiedMultiple,
            CCC_InvolvedDataSources = [d0, d1],
            CCC_FileVersions = [mock_version d0 12345 (now - 3600 * 1000000000) ''abc123'',
              mock_version d1 12567 (now - 1800 * 1000000000) ''def456''],
            CCC_ResolutionStrategy = Ctx_ConflictStrategy c, CCC_ResolvedVersion = None, CCC_ResolvedAt = None,
            CCC_ResolvedBy = [], CCC_Metadata = Map.empty\<rparr>]
      | _ \<Rightarrow> [])"

definition conflict_of_cross :: "time \<Rightarrow> CrossConnectorConflict \<Rightarrow> SyncConflict" where
  "conflict_of_cross now x =
     \<lparr>CN_ID = CCC_ID x,
      CN_ConflictType = (if CCC_ConflictType x = CrossConflictTypeDataModified then ConflictTypeModified
        else if CCC_ConflictType x = CrossConflictTypeDataDeleted then ConflictTypeDeleted else ConflictTypeModified),
      CN_FilePath = CCC_FilePath x, CN_DetectedAt = now, CN_ResolvedAt = None, CN_Resolution = [],
      CN_Status = ConflictStatusPending, CN_InvolvedDataSources = CCC_InvolvedDataSources x,
      CN_FileVersions = CCC_FileVersions x, CN_ResolvedVersion = None, CN_ResolutionMetadata = Map.empty,
      CN_AutoResolvable = False, CN_RequiresUserInput = False, CN_Severity = [], CN_Description = [], CN_SuggestedResolution = []\<rparr>"

text \<open>The loop over the conflicts allocates a conflict for each, here from the references \<open>refs\<close>, and
  counts those that the resolver settles; \<open>show_err\<close> prints the error of the others.\<close>

fun resolve_each :: "(string \<Rightarrow> string) \<Rightarrow> (time \<Rightarrow> string) \<Rightarrow> (conflict_error \<Rightarrow> string) \<Rightarrow> time \<Rightarrow> time \<Rightarrow> string \<Rightarrow>
    (conflict_ref \<times> CrossConnectorConflict) list \<Rightarrow> ConflictResolver \<times> nat \<times> string list \<Rightarrow> ConflictResolver \<times> nat \<times> string list" where
  "resolve_each lower rfc3339 show_err now now' strategy [] st = st"
| "resolve_each lower rfc3339 show_err now now' strategy ((ref, x) # xs) (cr, resolved, warnings) =
     (let (cr', res) = ResolveConflict lower rfc3339 now now' (put_conflict ref (conflict_of_cross now x) cr) ref strategy
      in resolve_each lower rfc3339 show_err now now' strategy xs
           (case res of
              Ok _ \<Rightarrow> (cr', resolved + 1, warnings)
            | Err e \<Rightarrow> (cr', resolved, warnings @ [''Failed to resolve conflict for '' @ CCC_FilePath x @ '': '' @ show_err e])
            | Panic \<Rightarrow> (cr', resolved, warnings)))"

definition resolve_phase :: "(string \<Rightarrow> string) \<Rightarrow> (time \<Rightarrow> string) \<Rightarrow> (conflict_error \<Rightarrow> string) \<Rightarrow> time \<Rightarrow> time \<Rightarrow> uuid \<Rightarrow>
    (nat \<Rightarrow> conflict_ref) \<Rightarrow> ConflictResolver \<Rightarrow> CoordRun \<Rightarrow> ConflictResolver \<times> CoordRun" where
  "resolve_phase lower rfc3339 show_err now now' new_id alloc cr r =
     (let c = CO_context r;
          conflicts = detectCrossConnectorConflicts new_id now c;
          (cr', resolved, warnings) = resolve_each lower rfc3339 show_err now now' (Ctx_ConflictStrategy c)
            (zip (map alloc [0..<length conflicts]) conflicts) (cr, 0, CRes_Warnings (Ctx_Results c))
      in (cr', (map_context (\<lambda>c. c\<lparr>
            Ctx_Results := (Ctx_Results c)\<lparr>CRes_Conflicts := conflicts, CRes_Warnings := warnings,
              CRes_ConflictsResolved := int resolved, CRes_ConflictsPending := int (length conflicts) - int resolved\<rparr>,
            Ctx_Progress := (Ctx_Progress c)\<lparr>CP_ConflictsDetected := int (length conflicts),
              CP_ConflictsResolved := int resolved, CP_CurrentPhase := ''finalization''\<rparr>\<rparr>) r)\<lparr>CO_pc := CFinalizing\<rparr>))"

definition add_status :: "SyncJobStatus \<Rightarrow> CoordinationResult \<Rightarrow> CoordinationResult" where
  "add_status st res =
     (let res1 = (case JS_Progress st of
          None \<Rightarrow> res | Some p \<Rightarrow> res\<lparr>CRes_TotalFilesProcessed := CRes_TotalFilesProcessed res + Prog_ProcessedFiles p\<rparr>)
      in case JS_Metrics st of
          None \<Rightarrow> res1
        | Some m \<Rightarrow> res1\<lparr>CRes_TotalBytesTransferred :=
            CRes_TotalBytesTransferred res1 + (Met_BytesDownloaded m + Met_BytesUploaded m)\<rparr>)"

definition finalizeCoordination :: "time \<Rightarrow> uuid list \<Rightarrow> SyncOrchestrator \<Rightarrow> CoordRun \<Rightarrow> CoordRun" where
  "finalizeCoordination now order o' r =
     (map_context (\<lambda>c. c\<lparr>Ctx_Status := CoordinationStatusCompleted, Ctx_EndTime := Some now,
        Ctx_Progress := (Ctx_Progress c)\<lparr>CP_CurrentPhase := ''completed'', CP_PercentComplete := 100\<rparr>,
        Ctx_Results := fold (\<lambda>ref. case SO_jobs o' ref of None \<Rightarrow> id | Some j \<Rightarrow> add_status (job_status j))
          (List.map_filter (CRes_SyncResults (Ctx_Results c)) order) (Ctx_Results c)\<rparr>) r)\<lparr>CO_pc := CLeaving\<rparr>"

text \<open>The next step of \<open>executeCoordination\<close>.  The arguments that a step uses are those of its phase.\<close>

record coord_env =
  CE_has_connector :: "string \<Rightarrow> bool"
  CE_connector_error :: string
  CE_lower :: "string \<Rightarrow> string"
  CE_rfc3339 :: "time \<Rightarrow> string"
  CE_show_err :: "conflict_error \<Rightarrow> string"

record coord_inputs =
  CI_now :: time
  CI_now' :: time
  CI_new_id :: uuid
  CI_job_ref :: job_ref
  CI_alloc :: "nat \<Rightarrow> conflict_ref"
  CI_order :: "uuid list"

definition executeCoordination :: "coord_env \<Rightarrow> coord_inputs \<Rightarrow> coord_ref \<Rightarrow> SyncCoordinator \<Rightarrow> SyncCoordinator" where
  "executeCoordination env i ref sc =
     (case SC_store sc ref of
        None \<Rightarrow> sc
      | Some r \<Rightarrow>
          (let put = (\<lambda>r' sc. sc\<lparr>SC_store := (SC_store sc)(ref \<mapsto> r')\<rparr>)
           in case CO_pc r of
                CSpawned \<Rightarrow> put (prepare_phase sc r) sc
              | CStarting [] \<Rightarrow> put (r\<lparr>CO_pc := CMonitoring\<rparr>) sc
              | CStarting (ds # rest) \<Rightarrow>
                  (let (o', r') = start_phase (CE_has_connector env) (CE_connector_error env) (CI_new_id i) (CI_job_ref i) (CI_now i)
                         ds rest (SC_orchestrator sc) r
                   in put r' (sc\<lparr>SC_orchestrator := o'\<rparr>))
              | CMonitoring \<Rightarrow>
                  (let (o', r') = tick_phase (CI_now i) (CI_order i) (SC_orchestrator sc) r
                   in put r' (sc\<lparr>SC_orchestrator := o'\<rparr>))
              | CResolving \<Rightarrow>
                  (let (cr, r') = resolve_phase (CE_lower env) (CE_rfc3339 env) (CE_show_err env) (CI_now i) (CI_now' i) (CI_new_id i)
                         (CI_alloc i) (SC_resolver sc) r
                   in put r' (sc\<lparr>SC_resolver := cr\<rparr>))
              | CFinalizing \<Rightarrow> put (finalizeCoordination (CI_now i) (CI_order i) (SC_orchestrator sc) r) sc
              | CLeaving \<Rightarrow>
                  put (r\<lparr>CO_pc := CEnded\<rparr>) (sc\<lparr>SC_coordinations := (SC_coordinations sc)(Ctx_ID (CO_context r) := None)\<rparr>)
              | CEnded \<Rightarrow> sc))"

section \<open>Runs\<close>

inductive coord_step :: "coord_env \<Rightarrow> SyncCoordinator \<Rightarrow> SyncCoordinator \<Rightarrow> bool" for env where
  start_coord: "SC_store sc ref = None \<Longrightarrow> SC_coordinations sc new_id = None \<Longrightarrow>
    coord_step env sc (fst (StartCoordination new_id ref now request sc))"
| execute_coord: "SO_jobs (SC_orchestrator sc) (CI_job_ref i) = None \<Longrightarrow>
    coord_step env sc (executeCoordination env i ref sc)"
| cancel_coord: "coord_step env sc (fst (CancelCoordination now order jid sc))"
| orchestrate: "sync_step (CE_has_connector env) e (SC_orchestrator sc) o' \<Longrightarrow> coord_step env sc (sc\<lparr>SC_orchestrator := o'\<rparr>)"

abbreviation coord_run where
  "coord_run env \<equiv> (coord_step env)\<^sup>*\<^sup>*"

text \<open>Every source that the goroutine has passed has a job, or is one of the failed sources, which have an
  error each.\<close>

definition accounted :: "uuid list \<Rightarrow> CoordinationContext \<Rightarrow> bool" where
  "accounted passed c \<longleftrightarrow> dom (Ctx_SyncJobs c) \<subseteq> set passed \<and>
     CP_FailedDataSources (Ctx_Progress c) = int (length (CRes_Errors (Ctx_Results c))) \<and>
     (distinct passed \<longrightarrow> CP_FailedDataSources (Ctx_Progress c) = int (card (set passed - dom (Ctx_SyncJobs c))))"

definition coord_ok :: "CoordRun \<Rightarrow> bool" where
  "coord_ok r \<longleftrightarrow>
     (let c = CO_context r
      in Ctx_Status c \<noteq> CoordinationStatusFailed \<and> CP_TotalDataSources (Ctx_Progress c) = int (length (Ctx_DataSources c)) \<and>
         (case CO_pc r of
            CSpawned \<Rightarrow> accounted [] c
          | CStarting rest \<Rightarrow> \<exists>passed. Ctx_DataSources c = passed @ rest \<and> accounted passed c
          | _ \<Rightarrow> accounted (Ctx_DataSources c) c) \<and>
         (CO_pc r \<in> {CLeaving, CEnded} \<longrightarrow> Ctx_EndTime c \<noteq> None \<and>
            Ctx_Status c \<in> {CoordinationStatusCompleted, CoordinationStatusCancelled}))"

lemma map_context_simps [simp]: "CO_context (map_context f r) = f (CO_context r)" "CO_pc (map_context f r) = CO_pc r"
  by (simp_all add: map_context_def)

lemma accounted_job: "accounted passed c \<Longrightarrow> accounted (passed @ [ds]) (c\<lparr>Ctx_SyncJobs := (Ctx_SyncJobs c)(ds \<mapsto> job)\<rparr>)"
proof -
  assume a: "accounted passed c"
  have "set (passed @ [ds]) - insert ds (dom (Ctx_SyncJobs c)) = set passed - dom (Ctx_SyncJobs c)" if "ds \<notin> set passed"
    using that by auto
  then show ?thesis using a by (auto simp: accounted_def)
qed

lemma accounted_error:
  assumes "accounted passed c"
  shows "accounted (passed @ [ds]) (c\<lparr>Ctx_Results := (Ctx_Results c)\<lparr>CRes_Errors := CRes_Errors (Ctx_Results c) @ [e]\<rparr>,
    Ctx_Progress := (Ctx_Progress c)\<lparr>CP_FailedDataSources := CP_FailedDataSources (Ctx_Progress c) + 1\<rparr>\<rparr>)"
proof -
  have "int (card (set (passed @ [ds]) - dom (Ctx_SyncJobs c))) = int (card (set passed - dom (Ctx_SyncJobs c))) + 1"
    if "distinct (passed @ [ds])"
  proof -
    have "ds \<notin> dom (Ctx_SyncJobs c)" "ds \<notin> set passed" using assms that by (auto simp: accounted_def)
    then have "set (passed @ [ds]) - dom (Ctx_SyncJobs c) = insert ds (set passed - dom (Ctx_SyncJobs c))" by auto
    then show ?thesis using \<open>ds \<notin> set passed\<close> by simp
  qed
  then show ?thesis using assms by (auto simp: accounted_def)
qed

lemma StartSync_no_panic: "snd (StartSync has_connector new_id ref now (coordination_request ds strategy) o') \<noteq> Panic"
  by (auto simp: StartSync_def admit_sync_def coordination_request_def validateSyncRequest_def bind_outcome_def Let_def
      split: option.split outcome.split)

lemma start_phase_ok:
  assumes "coord_ok r" and "CO_pc r = CStarting (ds # rest)"
    and "start_phase hc ce new_id ref now ds rest o' r = (o'', r')"
  shows "coord_ok r'"
proof -
  obtain passed where p: "Ctx_DataSources (CO_context r) = passed @ ds # rest" "accounted passed (CO_context r)"
    using assms(1,2) by (auto simp: coord_ok_def Let_def)
  let ?call = "StartSync hc new_id ref now (coordination_request ds (Ctx_ConflictStrategy (CO_context r))) o'"
  obtain o1 res where res: "?call = (o1, res)" by (metis surj_pair)
  have split: "Ctx_DataSources (CO_context r) = (passed @ [ds]) @ rest" using p(1) by simp
  show ?thesis
  proof (cases res)
    case (Ok job)
    have "r' = (map_context (\<lambda>c. c\<lparr>Ctx_SyncJobs := (Ctx_SyncJobs c)(ds \<mapsto> job)\<rparr>) r)\<lparr>CO_pc := CStarting rest\<rparr>"
      using assms(3) res Ok by (simp add: start_phase_def)
    then show ?thesis using assms(1) split accounted_job [OF p(2), of ds job] by (auto simp: coord_ok_def Let_def)
  next
    case (Err e)
    then show ?thesis using assms(1,3) res split accounted_error [OF p(2), of ds]
      by (auto simp: coord_ok_def Let_def start_phase_def split: prod.splits)
  next
    case Panic
    then show ?thesis using StartSync_no_panic res by (metis snd_conv)
  qed
qed

lemma tick_results:
  "CRes_Errors (TS_results (tick_job now j t)) = CRes_Errors (TS_results t)"
  by (auto simp: tick_job_def Let_def split: option.split prod.split)

lemma tick_fold_errors: "CRes_Errors (TS_results (fold (tick_job now) js t)) = CRes_Errors (TS_results t)"
  by (induction js arbitrary: t) (simp_all add: tick_results)

lemma accounted_cong:
  "accounted passed c \<Longrightarrow> Ctx_SyncJobs c' = Ctx_SyncJobs c \<Longrightarrow>
     CP_FailedDataSources (Ctx_Progress c') = CP_FailedDataSources (Ctx_Progress c) \<Longrightarrow>
     CRes_Errors (Ctx_Results c') = CRes_Errors (Ctx_Results c) \<Longrightarrow> accounted passed c'"
  unfolding accounted_def by metis

lemma tick_phase_ok:
  assumes "coord_ok r" and "CO_pc r = CMonitoring" and "tick_phase now order o' r = (o'', r')"
  shows "coord_ok r'"
  using assms unfolding tick_phase_def Let_def coord_ok_def
  by (auto simp: tick_fold_errors split: if_splits intro!: accounted_cong [of _ "CO_context r"])

lemma resolve_phase_ok:
  assumes "coord_ok r" and "CO_pc r = CResolving"
    and "resolve_phase lower rfc3339 show_err now now' new_id alloc cr r = (cr', r')"
  shows "coord_ok r'"
  using assms unfolding resolve_phase_def Let_def coord_ok_def
  by (auto split: prod.splits intro!: accounted_cong [of _ "CO_context r"])

lemma add_status_errors: "CRes_Errors (fold (\<lambda>ref. case SO_jobs o' ref of None \<Rightarrow> id | Some j \<Rightarrow> add_status (job_status j)) refs res) = CRes_Errors res"
  by (induction refs arbitrary: res) (auto simp: add_status_def Let_def split: option.split)

lemma finalize_ok: "coord_ok r \<Longrightarrow> CO_pc r = CFinalizing \<Longrightarrow> coord_ok (finalizeCoordination now order o' r)"
  unfolding finalizeCoordination_def coord_ok_def Let_def
  by (auto simp: add_status_errors intro!: accounted_cong [of _ "CO_context r"])

lemma prepare_phase_ok: "coord_ok r \<Longrightarrow> CO_pc r = CSpawned \<Longrightarrow> coord_ok (prepare_phase sc r)"
  unfolding prepare_phase_def coord_ok_def Let_def
  by (auto intro!: accounted_cong [of _ "CO_context r"])

text \<open>What a step does to the store of coordinations: one run moves on, and the rest stays.\<close>

lemma executeCoordination_store:
  assumes "SC_store sc ref = Some r" and "coord_ok r"
  shows "\<exists>r'. coord_ok r' \<and> SC_store (executeCoordination env i ref sc) = (SC_store sc)(ref \<mapsto> r')"
proof (cases "CO_pc r")
  case CSpawned
  then show ?thesis using assms prepare_phase_ok by (simp add: executeCoordination_def) blast
next
  case (CStarting rest)
  show ?thesis
  proof (cases rest)
    case Nil
    have "coord_ok (r\<lparr>CO_pc := CMonitoring\<rparr>)" using assms(2) CStarting Nil by (auto simp: coord_ok_def Let_def)
    then show ?thesis using assms(1) CStarting Nil by (auto simp: executeCoordination_def)
  next
    case (Cons ds ds')
    obtain o' r' where p: "start_phase (CE_has_connector env) (CE_connector_error env) (CI_new_id i) (CI_job_ref i) (CI_now i)
        ds ds' (SC_orchestrator sc) r = (o', r')" by (metis surj_pair)
    then have "coord_ok r'" using start_phase_ok assms(2) CStarting Cons by blast
    then show ?thesis using p assms(1) CStarting Cons by (auto simp: executeCoordination_def)
  qed
next
  case CMonitoring
  obtain o' r' where p: "tick_phase (CI_now i) (CI_order i) (SC_orchestrator sc) r = (o', r')" by (metis surj_pair)
  then show ?thesis using tick_phase_ok [OF assms(2) CMonitoring p] assms(1) CMonitoring by (auto simp: executeCoordination_def)
next
  case CResolving
  obtain cr r' where p: "resolve_phase (CE_lower env) (CE_rfc3339 env) (CE_show_err env) (CI_now i) (CI_now' i) (CI_new_id i)
      (CI_alloc i) (SC_resolver sc) r = (cr, r')" by (metis surj_pair)
  then show ?thesis using resolve_phase_ok [OF assms(2) CResolving p] assms(1) CResolving by (auto simp: executeCoordination_def)
next
  case CFinalizing
  then show ?thesis using assms(1) finalize_ok [OF assms(2)] by (auto simp: executeCoordination_def)
next
  case CLeaving
  have "coord_ok (r\<lparr>CO_pc := CEnded\<rparr>)" using assms(2) CLeaving by (simp add: coord_ok_def Let_def)
  then show ?thesis using assms(1) CLeaving by (auto simp: executeCoordination_def)
next
  case CEnded
  then show ?thesis using assms by (auto simp: executeCoordination_def fun_upd_idem)
qed

definition coord_inv :: "SyncCoordinator \<Rightarrow> bool" where
  "coord_inv sc \<longleftrightarrow> (\<forall>ref r. SC_store sc ref = Some r \<longrightarrow> coord_ok r)"

lemma coord_ok_cancel:
  "coord_ok r \<Longrightarrow> coord_ok (map_context (\<lambda>c. c\<lparr>Ctx_Status := CoordinationStatusCancelled, Ctx_EndTime := Some now\<rparr>) r)"
  unfolding coord_ok_def Let_def
  by (cases "CO_pc r") (auto intro!: accounted_cong [of _ "CO_context r"])

lemma coord_ok_new: "coord_ok \<lparr>CO_context = createCoordinationContext new_id now request, CO_pc = CSpawned\<rparr>"
  by (simp add: coord_ok_def createCoordinationContext_def accounted_def empty_coord_progress_def empty_coord_result_def)

lemma coord_inv_step: "coord_step env sc sc' \<Longrightarrow> coord_inv sc \<Longrightarrow> coord_inv sc'"
proof (induction rule: coord_step.induct)
  case (start_coord sc ref new_id now request)
  then show ?case by (auto simp: coord_inv_def StartCoordination_def coord_ok_new split: option.split if_splits)
next
  case (execute_coord sc i ref)
  show ?case
  proof (cases "SC_store sc ref")
    case None
    then show ?thesis using execute_coord by (simp add: executeCoordination_def)
  next
    case (Some r)
    then show ?thesis using executeCoordination_store [OF Some, of env i] execute_coord by (auto simp: coord_inv_def split: if_splits)
  qed
next
  case (cancel_coord sc now order jid)
  then show ?case
    by (auto simp: coord_inv_def CancelCoordination_def coord_ok_cancel [simplified] split: option.split if_splits)
next
  case (orchestrate e sc o')
  then show ?case by (simp add: coord_inv_def)
qed

lemma coord_inv_run: "coord_run env (NewSyncCoordinator o' config) sc \<Longrightarrow> coord_inv sc"
proof (induction rule: rtranclp_induct)
  case base
  show ?case by (simp add: coord_inv_def NewSyncCoordinator_def)
qed (rule coord_inv_step)

section \<open>Properties\<close>

text \<open>C18: In every run of the coordinator, next to any activity of the orchestrator: a coordination never fails,
  whatever happens to its jobs; each source whose turn has come has a job or is counted as failed, with one
  error message each; and a coordination that has ended shows that it completed or was cancelled.\<close>

theorem sources_accounted:
  assumes run: "coord_run env (NewSyncCoordinator o' config) sc" and r: "SC_store sc ref = Some r"
  shows "let c = CO_context r
    in Ctx_Status c \<noteq> CoordinationStatusFailed \<and>
       (\<exists>passed rest. Ctx_DataSources c = passed @ rest \<and> accounted passed c \<and>
          (CO_pc r \<notin> {CSpawned, CStarting rest} \<longrightarrow> rest = [])) \<and>
       (CO_pc r = CEnded \<longrightarrow> Ctx_EndTime c \<noteq> None \<and> Ctx_Status c \<in> {CoordinationStatusCompleted, CoordinationStatusCancelled})"
proof -
  have ok: "coord_ok r" using coord_inv_run [OF run] r by (auto simp: coord_inv_def)
  show ?thesis
  proof (cases "CO_pc r")
    case CSpawned
    then show ?thesis using ok by (auto simp: coord_ok_def Let_def)
  next
    case (CStarting rest)
    then show ?thesis using ok by (fastforce simp: coord_ok_def Let_def)
  qed (use ok in \<open>auto simp: coord_ok_def Let_def\<close>)
qed

lemma tick_counts:
  assumes t: "t' = fold (tick_job now) js t"
    and jobs: "\<forall>(ds, ref) \<in> set js. SO_jobs (TS_orchestrator t) ref \<noteq> None"
  shows "CRes_SuccessfulSyncs (TS_results t') + CRes_FailedSyncs (TS_results t') =
      CRes_SuccessfulSyncs (TS_results t) + CRes_FailedSyncs (TS_results t) +
        int (length (filter (\<lambda>(ds, ref). finished_state (job_state (the (SO_jobs (TS_orchestrator t) ref))) \<or>
          job_state (the (SO_jobs (TS_orchestrator t) ref)) = SyncStateCancelled) js)) \<and>
    (TS_complete t' \<longleftrightarrow> TS_complete t \<and> (\<forall>(ds, ref) \<in> set js. finished_state (job_state (the (SO_jobs (TS_orchestrator t) ref))) \<or>
          job_state (the (SO_jobs (TS_orchestrator t) ref)) = SyncStateCancelled))"
  using assms
proof (induction js arbitrary: t)
  case Nil
  then show ?case by simp
next
  case (Cons j js)
  obtain ds ref where j: "j = (ds, ref)" by (metis surj_pair)
  then obtain r where r: "SO_jobs (TS_orchestrator t) ref = Some r" using Cons.prems(2) by auto
  let ?t = "tick_job now j t"
  have orch: "SO_jobs (TS_orchestrator ?t) = (SO_jobs (TS_orchestrator t))(ref \<mapsto> map_status (GetStatus now) r)"
    using r by (simp add: tick_job_def j Let_def split: option.split)
  have state: "job_state (the (SO_jobs (TS_orchestrator ?t) x)) = job_state (the (SO_jobs (TS_orchestrator t) x))" for x
    using r by (simp add: orch)
  have jobs: "\<forall>(ds, ref) \<in> set js. SO_jobs (TS_orchestrator ?t) ref \<noteq> None" using Cons.prems(2) by (auto simp: orch)
  have one: "CRes_SuccessfulSyncs (TS_results ?t) + CRes_FailedSyncs (TS_results ?t) =
      CRes_SuccessfulSyncs (TS_results t) + CRes_FailedSyncs (TS_results t) +
      of_bool (finished_state (job_state r) \<or> job_state r = SyncStateCancelled)"
    "TS_complete ?t \<longleftrightarrow> TS_complete t \<and> (finished_state (job_state r) \<or> job_state r = SyncStateCancelled)"
    using r by (auto simp: tick_job_def j Let_def finished_state_def split: option.split)
  show ?case
    using Cons.IH [OF _ jobs] Cons.prems(1) one r unfolding state by (auto simp: j)
qed

text \<open>Each tick of the monitor counts the jobs that have ended once more: the number of completed sources grows
  by the number of ended jobs at every tick, until the tick at which all have ended.\<close>

theorem ended_jobs_recounted:
  assumes "\<forall>(ds, ref) \<in> set (jobs_in_order order (CO_context r)). SO_jobs o' ref \<noteq> None"
    and "CP_CompletedDataSources (Ctx_Progress (CO_context r)) =
      CRes_SuccessfulSyncs (Ctx_Results (CO_context r)) + CRes_FailedSyncs (Ctx_Results (CO_context r))"
    and "tick_phase now order o' r = (o'', r')"
  shows "let ended = (\<lambda>(ds, ref). let st = job_state (the (SO_jobs o' ref)) in finished_state st \<or> st = SyncStateCancelled);
      js = jobs_in_order order (CO_context r)
    in CP_CompletedDataSources (Ctx_Progress (CO_context r')) =
         CP_CompletedDataSources (Ctx_Progress (CO_context r)) + int (length (filter ended js)) \<and>
       (CO_pc r' = CResolving \<longleftrightarrow> list_all ended js \<or> CO_pc r = CResolving)"
proof -
  let ?t = "\<lparr>TS_orchestrator = o', TS_results = Ctx_Results (CO_context r), TS_complete = True, TS_total = 0, TS_processed = 0\<rparr>"
  let ?t' = "fold (tick_job now) (jobs_in_order order (CO_context r)) ?t"
  have "CP_CompletedDataSources (Ctx_Progress (CO_context r')) = CRes_SuccessfulSyncs (TS_results ?t') + CRes_FailedSyncs (TS_results ?t')"
    "CO_pc r' = (if TS_complete ?t' then CResolving else CO_pc r)"
    using assms(3) by (auto simp: tick_phase_def Let_def split: if_splits)
  then show ?thesis
    using tick_counts [of ?t' now "jobs_in_order order (CO_context r)" ?t] assms(1,2)
    by (auto simp: Let_def list_all_iff case_prod_beta)
qed

text \<open>The conflict phase counts every detected conflict as resolved or pending.  The conflict that the code
  makes up for a coordination of at least two sources is resolved for five strategies and stays pending,
  with a warning, for all others; \<open>source_priority\<close> is among those, because the versions name no connector.\<close>

theorem conflict_phase_outcome:
  assumes run: "resolver_run lower rfc3339 (NewConflictResolver store config) cr"
    and sources: "length (Ctx_DataSources (CO_context r)) \<ge> 2" and late: "now > 3600 * 1000000000"
    and phase: "resolve_phase lower rfc3339 show_err now now' new_id alloc cr r = (cr', r')"
  shows "let c = CO_context r; res = Ctx_Results (CO_context r')
    in CRes_ConflictsResolved res + CRes_ConflictsPending res = 1 \<and>
       (CRes_ConflictsResolved res = 1 \<longleftrightarrow> Ctx_ConflictStrategy c \<in> {ConflictStrategyLastWrite, ConflictStrategyFirstWrite,
          ConflictStrategyLargestFile, ConflictStrategyPreserveBoth, ConflictStrategySkip}) \<and>
       int (length (CRes_Warnings res)) = int (length (CRes_Warnings (Ctx_Results c))) + CRes_ConflictsPending res"
proof -
  let ?c = "CO_context r"
  obtain d0 d1 ds where ds: "Ctx_DataSources ?c = d0 # d1 # ds"
    using sources by (metis Suc_le_length_iff numeral_2_eq_2)
  obtain x where x: "detectCrossConnectorConflicts new_id now ?c = [x]"
    and vs: "CCC_FileVersions x = [mock_version d0 12345 (now - 3600 * 1000000000) ''abc123'',
      mock_version d1 12567 (now - 1800 * 1000000000) ''def456'']" and ty: "CCC_ConflictType x = ''modified_multiple''"
    using ds by (simp add: detectCrossConnectorConflicts_def)
  let ?k = "conflict_of_cross now x"
  have "offered (put_conflict (alloc 0) ?k cr)" using offered_run [OF run] by simp
  obtain cr1 res where call: "ResolveConflict lower rfc3339 now now' (put_conflict (alloc 0) ?k cr) (alloc 0) (Ctx_ConflictStrategy ?c) = (cr1, res)"
    by (metis surj_pair)
  from ResolveConflict_outcome [OF \<open>offered _\<close> _ this, of ?k]
  have res: "res \<noteq> Panic" "(\<exists>a. res = Ok a) \<longleftrightarrow> settles (Ctx_ConflictStrategy ?c) now ?k" by auto
  have "settles (Ctx_ConflictStrategy ?c) now ?k \<longleftrightarrow> Ctx_ConflictStrategy ?c \<in> {ConflictStrategyLastWrite,
      ConflictStrategyFirstWrite, ConflictStrategyLargestFile, ConflictStrategyPreserveBoth, ConflictStrategySkip}"
    using late ty by (auto simp: settles_def conflict_of_cross_def vs mock_version_def created_or_modified_def default_priorities_def Let_def)
  then show ?thesis
    using res phase call x by (cases res) (auto simp: resolve_phase_def Let_def)
qed

section \<open>Examples\<close>

definition demo_coord_env :: coord_env where
  "demo_coord_env = \<lparr>CE_has_connector = (\<lambda>_. False), CE_connector_error = ''none'', CE_lower = id, CE_rfc3339 = (\<lambda>_. []),
     CE_show_err = (\<lambda>_. [])\<rparr>"

definition demo_inputs :: coord_inputs where
  "demo_inputs = \<lparr>CI_now = 10, CI_now' = 11, CI_new_id = ''j'', CI_job_ref = 0, CI_alloc = id, CI_order = [''p'', ''q'']\<rparr>"

definition demo_coord_request :: CoordinationRequest where
  "demo_coord_request = \<lparr>CReq_Name = ''n'', CReq_Description = [], CReq_DataSources = [''p'', ''q''], CReq_Dependencies = [],
     CReq_ConflictStrategy = ''skip'', CReq_SyncOptions = None\<rparr>"

abbreviation demo_coordinator :: SyncCoordinator where
  "demo_coordinator \<equiv> NewSyncCoordinator (NewSyncOrchestrator None 1) None"

definition demo_coordinated :: SyncCoordinator where
  "demo_coordinated = executeCoordination demo_coord_env demo_inputs 0 (executeCoordination demo_coord_env demo_inputs 0
     (fst (StartCoordination ''c'' 0 5 demo_coord_request demo_coordinator)))"

lemma demo_coordinated_run: "coord_run demo_coord_env demo_coordinator demo_coordinated"
proof -
  let ?s1 = "fst (StartCoordination ''c'' 0 5 demo_coord_request demo_coordinator)"
  let ?s2 = "executeCoordination demo_coord_env demo_inputs 0 ?s1"
  have 1: "coord_step demo_coord_env demo_coordinator ?s1"
    by (rule start_coord) (simp_all add: NewSyncCoordinator_def)
  have jobs: "SO_jobs (SC_orchestrator ?s1) = Map.empty" "SO_jobs (SC_orchestrator ?s2) = Map.empty"
    by (simp_all add: StartCoordination_def NewSyncCoordinator_def default_coordinator_config_def validateCoordinationRequest_def
        demo_coord_request_def checkCoordinationLimits_def executeCoordination_def NewSyncOrchestrator_def Let_def)
  have 2: "coord_step demo_coord_env ?s1 ?s2" by (rule execute_coord) (simp only: jobs)
  have 3: "coord_step demo_coord_env ?s2 demo_coordinated" unfolding demo_coordinated_def by (rule execute_coord) (simp only: jobs)
  show ?thesis using 1 2 3 by (meson r_into_rtranclp rtranclp.rtrancl_into_rtrancl)
qed

lemma demo_coordinated_store:
  "\<exists>r. SC_store demo_coordinated 0 = Some r \<and> CO_pc r = CStarting [''q''] \<and> CP_FailedDataSources (Ctx_Progress (CO_context r)) = 1"
  by (simp add: demo_coordinated_def StartCoordination_def NewSyncCoordinator_def default_coordinator_config_def
      validateCoordinationRequest_def demo_coord_request_def checkCoordinationLimits_def executeCoordination_def Let_def
      createCoordinationContext_def prepare_phase_def start_phase_def StartSync_def admit_sync_def coordination_request_def
      validateSyncRequest_def checkConcurrencyLimits_def NewSyncOrchestrator_def default_orchestrator_config_def demo_coord_env_def
      nil_uuid_def SyncTypeFull_def SyncDirectionBidirectional_def map_context_def empty_coord_progress_def)

theorem sources_accounted_witness:
  "\<exists>r. SC_store demo_coordinated 0 = Some r \<and> (\<exists>passed rest. Ctx_DataSources (CO_context r) = passed @ rest \<and> accounted passed (CO_context r))"
proof -
  obtain r where "SC_store demo_coordinated 0 = Some r" using demo_coordinated_store by blast
  then show ?thesis using sources_accounted [OF demo_coordinated_run, of 0 r] by (auto simp: Let_def)
qed

text \<open>One of two jobs has completed: its coordination counts it at every tick.\<close>

definition demo_jobs :: SyncOrchestrator where
  "demo_jobs = (NewSyncOrchestrator None 1)\<lparr>SO_jobs :=
     [0 \<mapsto> \<lparr>JR_job = (createSyncJob ''a'' 7 (coordination_request ''p'' ''skip'') demo_options)\<lparr>SJ_Status :=
             updateState 9 SyncStateCompleted (SJ_Status (createSyncJob ''a'' 7 (coordination_request ''p'' ''skip'') demo_options))\<rparr>,
           JR_ctx = None, JR_pc = Storing\<rparr>,
      1 \<mapsto> \<lparr>JR_job = createSyncJob ''b'' 7 (coordination_request ''q'' ''skip'') demo_options, JR_ctx = None, JR_pc = Spawned\<rparr>]\<rparr>"

definition demo_monitored :: CoordRun where
  "demo_monitored = \<lparr>CO_context = (createCoordinationContext ''c'' 5 demo_coord_request)\<lparr>Ctx_SyncJobs := [''p'' \<mapsto> 0, ''q'' \<mapsto> 1]\<rparr>,
     CO_pc = CMonitoring\<rparr>"

lemma demo_monitored_jobs: "jobs_in_order [''p'', ''q''] (CO_context demo_monitored) = [(''p'', 0), (''q'', 1)]"
  by (simp add: jobs_in_order_def demo_monitored_def List.map_filter_def)

theorem ended_jobs_recounted_witness:
  "CP_CompletedDataSources (Ctx_Progress (CO_context (snd (tick_phase 8 [''p'', ''q''] demo_jobs demo_monitored)))) = 1"
proof -
  obtain o'' r' where t: "tick_phase 8 [''p'', ''q''] demo_jobs demo_monitored = (o'', r')" by (metis surj_pair)
  have "\<forall>(ds, ref) \<in> set (jobs_in_order [''p'', ''q''] (CO_context demo_monitored)). SO_jobs demo_jobs ref \<noteq> None"
    by (simp add: demo_monitored_jobs demo_jobs_def)
  moreover have "CP_CompletedDataSources (Ctx_Progress (CO_context demo_monitored)) =
      CRes_SuccessfulSyncs (Ctx_Results (CO_context demo_monitored)) + CRes_FailedSyncs (Ctx_Results (CO_context demo_monitored))"
    "CP_CompletedDataSources (Ctx_Progress (CO_context demo_monitored)) = 0"
    by (simp_all add: demo_monitored_def createCoordinationContext_def empty_coord_progress_def empty_coord_result_def)
  ultimately show ?thesis using ended_jobs_recounted [OF _ _ t] t
    by (simp add: demo_monitored_jobs demo_jobs_def finished_state_def createSyncJob_def Let_def)
qed

theorem conflict_phase_outcome_witness:
  "CRes_ConflictsResolved (Ctx_Results (CO_context (snd (resolve_phase id (\<lambda>_. []) (\<lambda>_. []) (10 ^ 13) (10 ^ 13) ''x'' id
     (NewConflictResolver Map.empty None) demo_monitored)))) = 1"
proof -
  obtain cr' r' where p: "resolve_phase id (\<lambda>_. []) (\<lambda>_. []) (10 ^ 13) (10 ^ 13) ''x'' id
     (NewConflictResolver Map.empty None) demo_monitored = (cr', r')" by (metis surj_pair)
  have "length (Ctx_DataSources (CO_context demo_monitored)) \<ge> 2" "Ctx_ConflictStrategy (CO_context demo_monitored) = ''skip''"
    by (simp_all add: demo_monitored_def createCoordinationContext_def demo_coord_request_def)
  then show ?thesis using conflict_phase_outcome [OF rtranclp.rtrancl_refl _ _ p] p by (simp add: Let_def)
qed

end
