(* ===== verification/Go_Time.thy ===== *)
theory Go_Time imports Go_Prelude begin

text \<open>
  The calendar of Go's package \<^verbatim>\<open>time\<close>, as far as the scheduler uses it: \<open>time.Date\<close> with its
  normalisation of months and days out of range, \<open>Date\<close>, \<open>Weekday\<close>, \<open>AddDate\<close> and the layout \<open>15:04\<close> of
  \<open>time.Parse\<close>.

  A \<open>time\<close> counts the nanoseconds from the zero value of \<open>time.Time\<close>, midnight of 1 January of year 1
  in UTC.  A location is its offset to UTC in seconds, so only locations of a constant offset are covered.
  The calendar is the proleptic Gregorian calendar; a day is its number from 1 January of year 1.
\<close>

section \<open>Days and dates\<close>

definition second_ns :: duration where "second_ns = 1000000000"

definition is_leap :: "int \<Rightarrow> bool" where
  "is_leap y \<longleftrightarrow> y mod 4 = 0 \<and> (y mod 100 \<noteq> 0 \<or> y mod 400 = 0)"

definition days_before_year :: "int \<Rightarrow> int" where
  "days_before_year y = 365 * (y - 1) + (y - 1) div 4 - (y - 1) div 100 + (y - 1) div 400"

definition leap_day :: "int \<Rightarrow> int" where
  "leap_day y = (if is_leap y then 1 else 0)"

text \<open>The days of the year \<open>y\<close> before its month \<open>m\<close>, with the length of the year for 13.\<close>

definition days_before_month :: "int \<Rightarrow> int \<Rightarrow> int" where
  "days_before_month y m =
     [0, 31, 59, 90, 120, 151, 181, 212, 243, 273, 304, 334, 365] ! nat (m - 1) + (if 2 < m then leap_day y else 0)"

definition days_in_month :: "int \<Rightarrow> int \<Rightarrow> int" where
  "days_in_month y m = days_before_month y (m + 1) - days_before_month y m"

text \<open>The day of a date whose month and day may be out of range.\<close>

definition day_of_date :: "int \<Rightarrow> int \<Rightarrow> int \<Rightarrow> int" where
  "day_of_date y m d =
     (let y' = y + (m - 1) div 12; m' = (m - 1) mod 12 + 1
      in days_before_year y' + days_before_month y' m' + (d - 1))"

definition year_of_day :: "int \<Rightarrow> int" where
  "year_of_day n =
     (let y = n * 400 div 146097 + 1
      in if n < days_before_year y then y - 1 else if days_before_year (y + 1) \<le> n then y + 1 else y)"

definition month_of_day :: "int \<Rightarrow> int" where
  "month_of_day n =
     (let y = year_of_day n
      in int (length (filter (\<lambda>m. days_before_month y m \<le> n - days_before_year y) [1 .. 12])))"

definition mday_of_day :: "int \<Rightarrow> int" where
  "mday_of_day n = n - day_of_date (year_of_day n) (month_of_day n) 1 + 1"

definition weekday_of_day :: "int \<Rightarrow> int" where
  "weekday_of_day n = (n + 1) mod 7"

lemma div_pred:
  fixes k y :: int
  assumes "0 < k"
  shows "(y - 1) div k = (if y mod k = 0 then y div k - 1 else y div k)"
proof (cases "y mod k = 0")
  case True
  have "y - 1 = k * (y div k - 1) + (k - 1)" using True mult_div_mod_eq [of k y] by (simp add: right_diff_distrib)
  from int_div_pos_eq [OF this] assms True show ?thesis by simp
next
  case False
  have "y - 1 = k * (y div k) + (y mod k - 1)" using mult_div_mod_eq [of k y] by linarith
  moreover have "0 \<le> y mod k - 1" "y mod k - 1 < k"
    using assms False pos_mod_sign [of k y] pos_mod_bound [of k y] by linarith+
  ultimately have "(y - 1) div k = y div k" by (rule int_div_pos_eq)
  with False show ?thesis by simp
qed

lemma days_before_year_Suc: "days_before_year (y + 1) = days_before_year y + 365 + leap_day y"
proof -
  define c where "c k = (if y mod k = 0 then 1 else 0 :: int)" for k
  have pred: "(y - 1) div k = y div k - c k" if "0 < k" for k
    using div_pred [OF that, of y] by (simp add: c_def)
  have "days_before_year y = 365 * (y - 1) + (y div 4 - c 4) - (y div 100 - c 100) + (y div 400 - c 400)"
    unfolding days_before_year_def by (simp only: pred zero_less_numeral)
  moreover have "days_before_year (y + 1) = 365 * y + y div 4 - y div 100 + y div 400"
    by (simp add: days_before_year_def)
  moreover have "leap_day y = c 4 - c 100 + c 400"
  proof -
    have nested: "(if p \<and> (\<not> q \<or> r) then 1 else 0) = (if p then 1 else 0) - (if q then 1 else 0) + (if r then 1 else 0 :: int)"
      if "q \<longrightarrow> p" "r \<longrightarrow> q" for p q r
      using that by (cases p; cases q; cases r) simp_all
    have "y mod 4 = y mod 100 mod 4" "y mod 100 = y mod 400 mod 100"
      by (rule mod_mod_cancel [symmetric]; simp)+
    then have d: "y mod 100 = 0 \<longrightarrow> y mod 4 = 0" "y mod 400 = 0 \<longrightarrow> y mod 100 = 0" by (metis mod_0)+
    show ?thesis unfolding leap_day_def is_leap_def c_def by (rule nested [OF d])
  qed
  ultimately show ?thesis by (simp add: algebra_simps)
qed

lemma leap_day_range: "0 \<le> leap_day y" "leap_day y \<le> 1"
  by (auto simp: leap_day_def)

text \<open>The estimate of the year is at most one off.\<close>

lemma div_bounds: "0 < k \<Longrightarrow> k * (n div k) \<le> n \<and> n < k * (n div k) + k" for k n :: int
  by (metis mult.commute mult_div_mod_eq pos_mod_bound pos_mod_sign add.commute add_less_cancel_left le_add_same_cancel1)

lemma days_before_year_estimate:
  "400 * days_before_year y < 146097 * (y - 1) + 400" "146097 * (y - 1) - 1200 < 400 * days_before_year y"
proof -
  define x p q r where "x = y - 1" and "p = x div 4" and "q = x div 100" and "r = x div 400"
  have b: "4 * p \<le> x" "x < 4 * p + 4" "100 * q \<le> x" "x < 100 * q + 100" "400 * r \<le> x" "x < 400 * r + 400"
    using div_bounds [of 4 x] div_bounds [of 100 x] div_bounds [of 400 x] by (simp_all add: p_def q_def r_def)
  have "days_before_year y = 365 * x + p - q + r"
    by (simp add: days_before_year_def x_def p_def q_def r_def)
  with b show "400 * days_before_year y < 146097 * (y - 1) + 400" "146097 * (y - 1) - 1200 < 400 * days_before_year y"
    unfolding x_def [symmetric] by linarith+
qed

lemma year_of_day: "days_before_year (year_of_day n) \<le> n" "n < days_before_year (year_of_day n + 1)"
proof -
  define y where "y = n * 400 div 146097 + 1"
  have b: "146097 * (y - 1) \<le> 400 * n" "400 * n < 146097 * y"
    using div_bounds [of 146097 "n * 400"] by (simp_all add: y_def algebra_simps)
  have lo: "days_before_year (y - 1) \<le> n" 
    using b days_before_year_estimate(1) [of "y - 1"] by (simp add: algebra_simps)
  have hi: "n < days_before_year (y + 1 + 1)"
    using b days_before_year_estimate(2) [of "y + 2"] by (simp add: algebra_simps)
  show "days_before_year (year_of_day n) \<le> n" "n < days_before_year (year_of_day n + 1)"
    using lo hi by (auto simp: year_of_day_def y_def [symmetric] Let_def)
qed

text \<open>The dates of valid days come in order, and a day has one date.\<close>

lemma year_of_day_unique: "days_before_year y \<le> n \<Longrightarrow> n < days_before_year (y + 1) \<Longrightarrow> year_of_day n = y"
proof -
  have mono: "days_before_year a + 365 * int k \<le> days_before_year (a + int k)" for a k
  proof (induction k)
    case (Suc k)
    then show ?case using days_before_year_Suc [of "a + int k"] leap_day_range [of "a + int k"] by (simp add: algebra_simps)
  qed simp
  have less: "days_before_year b \<le> days_before_year c" if "b \<le> c" for b c
    using mono [of b "nat (c - b)"] that by simp
  assume "days_before_year y \<le> n" "n < days_before_year (y + 1)"
  then have "\<not> year_of_day n + 1 \<le> y" "\<not> y + 1 \<le> year_of_day n"
    using less [of "year_of_day n + 1" y] less [of "y + 1" "year_of_day n"] year_of_day [of n] by linarith+
  then show "year_of_day n = y" by linarith
qed

lemma twelve_months:
  assumes "1 \<le> m" "m \<le> (12::int)"
  obtains "m = 1" | "m = 2" | "m = 3" | "m = 4" | "m = 5" | "m = 6" | "m = 7" | "m = 8" | "m = 9" | "m = 10" | "m = 11" | "m = 12"
proof -
  have "m = 1 \<or> m = 2 \<or> m = 3 \<or> m = 4 \<or> m = 5 \<or> m = 6 \<or> m = 7 \<or> m = 8 \<or> m = 9 \<or> m = 10 \<or> m = 11 \<or> m = 12"
    using assms by presburger
  then show ?thesis using that by blast
qed

lemma month_count:
  assumes "1 \<le> m" "m \<le> 12" and "days_before_month y m \<le> r" and "r < days_before_month y (m + 1)"
  shows "int (length (filter (\<lambda>m. days_before_month y m \<le> r) [1 .. 12])) = m"
  using assms leap_day_range [of y]
  by (cases rule: twelve_months [OF assms(1,2)]) (simp_all add: days_before_month_def upto.simps)

lemma month_exists:
  assumes "0 \<le> r" "r < 365 + leap_day y"
  obtains m where "1 \<le> m" "m \<le> 12" "days_before_month y m \<le> r" "r < days_before_month y (m + 1)"
proof -
  have "\<exists>m \<in> {1, 2, 3, 4, 5, 6, 7, 8, 9, 10, 11, 12}. days_before_month y m \<le> r \<and> r < days_before_month y (m + 1)"
    using assms leap_day_range [of y] by (simp add: days_before_month_def) linarith
  then obtain m where m: "m \<in> {1, 2, 3, 4, 5, 6, 7, 8, 9, 10, 11, 12}" and
    "days_before_month y m \<le> r" "r < days_before_month y (m + 1)" by blast
  moreover from m have "1 \<le> m" "m \<le> 12" by auto
  ultimately show ?thesis using that by blast
qed

lemma month_of_day:
  "1 \<le> month_of_day n" "month_of_day n \<le> 12"
  "days_before_month (year_of_day n) (month_of_day n) \<le> n - days_before_year (year_of_day n)"
  "n - days_before_year (year_of_day n) < days_before_month (year_of_day n) (month_of_day n + 1)"
proof -
  define y where "y = year_of_day n"
  have "0 \<le> n - days_before_year y" "n - days_before_year y < 365 + leap_day y"
    using year_of_day [of n] days_before_year_Suc [of y] by (simp_all add: y_def)
  then obtain m where m: "1 \<le> m" "m \<le> 12" "days_before_month y m \<le> n - days_before_year y"
      "n - days_before_year y < days_before_month y (m + 1)"
    by (rule month_exists)
  from month_count [OF this] have "month_of_day n = m" by (simp add: month_of_day_def y_def)
  with m show "1 \<le> month_of_day n" "month_of_day n \<le> 12"
    "days_before_month (year_of_day n) (month_of_day n) \<le> n - days_before_year (year_of_day n)"
    "n - days_before_year (year_of_day n) < days_before_month (year_of_day n) (month_of_day n + 1)"
    by (simp_all add: y_def)
qed

lemma day_of_valid_month: "1 \<le> m \<Longrightarrow> m \<le> 12 \<Longrightarrow> day_of_date y m d = days_before_year y + days_before_month y m + (d - 1)"
  by (simp add: day_of_date_def Let_def)

lemma day_of_date_shift: "day_of_date y m d = day_of_date y m 1 + (d - 1)"
  by (simp add: day_of_date_def Let_def)

text \<open>The first day of a month and the first day of the next one enclose its days.\<close>

lemma month_start: "day_of_date (year_of_day n) (month_of_day n) 1 \<le> n"
  using month_of_day [of n] by (simp add: day_of_valid_month)

lemma next_month_start: "1 \<le> m \<Longrightarrow> m \<le> 12 \<Longrightarrow> day_of_date y (m + 1) 1 = day_of_date y m 1 + days_in_month y m"
proof (cases "m = 12")
  case True
  then show ?thesis
    using days_before_year_Suc [of y]
    by (simp add: day_of_date_def days_in_month_def days_before_month_def)
qed (simp add: day_of_valid_month days_in_month_def)

lemma month_end: "n < day_of_date (year_of_day n) (month_of_day n + 1) 1"
  using month_of_day [of n] by (simp add: next_month_start day_of_valid_month days_in_month_def)

text \<open>Round trips between days and dates.\<close>

lemma date_of_day: "day_of_date (year_of_day n) (month_of_day n) (mday_of_day n) = n"
  by (simp add: mday_of_day_def day_of_date_shift [of _ _ "n - _ + 1"])

lemma mday_range: "1 \<le> mday_of_day n" "mday_of_day n \<le> days_in_month (year_of_day n) (month_of_day n)"
  using month_start [of n] month_end [of n] next_month_start [OF month_of_day(1,2) [of n]]
  by (simp_all add: mday_of_day_def)

lemma day_of_date_fields:
  assumes "1 \<le> m" "m \<le> 12" "1 \<le> d" "d \<le> days_in_month y m"
  shows "year_of_day (day_of_date y m d) = y" "month_of_day (day_of_date y m d) = m" "mday_of_day (day_of_date y m d) = d"
proof -
  let ?n = "day_of_date y m d"
  have n: "?n = days_before_year y + days_before_month y m + (d - 1)" by (rule day_of_valid_month [OF assms(1,2)])
  have in_year: "0 \<le> days_before_month y m" "days_before_month y (m + 1) \<le> 365 + leap_day y"
    using leap_day_range [of y] by (cases rule: twelve_months [OF assms(1,2)]; simp add: days_before_month_def)+
  show y: "year_of_day ?n = y"
    using in_year assms(3,4) n days_before_year_Suc [of y] by (intro year_of_day_unique) (simp_all add: days_in_month_def)
  show m: "month_of_day ?n = m"
    unfolding month_of_day_def y Let_def using assms n by (intro month_count) (simp_all add: days_in_month_def)
  show "mday_of_day ?n = d" unfolding mday_of_day_def y m by (simp add: day_of_date_shift [of y m d])
qed

section \<open>Instants\<close>

definition local_second :: "int \<Rightarrow> time \<Rightarrow> int" where
  "local_second offset t = t div second_ns + offset"

definition local_day :: "int \<Rightarrow> time \<Rightarrow> int" where
  "local_day offset t = local_second offset t div 86400"

definition time_Date :: "int \<Rightarrow> int \<Rightarrow> int \<Rightarrow> int \<Rightarrow> int \<Rightarrow> int \<Rightarrow> int \<Rightarrow> int \<Rightarrow> time" where
  "time_Date offset y mo d h mi s ns =
     (day_of_date y mo d * 86400 + h * 3600 + mi * 60 + s - offset) * second_ns + ns"

definition time_AddDate :: "int \<Rightarrow> time \<Rightarrow> int \<Rightarrow> int \<Rightarrow> int \<Rightarrow> time" where
  "time_AddDate offset t years months days =
     (let n = local_day offset t; s = local_second offset t mod 86400
      in time_Date offset (year_of_day n + years) (month_of_day n + months) (mday_of_day n + days)
           (s div 3600) (s mod 3600 div 60) (s mod 60) (t mod second_ns))"

definition time_Weekday :: "int \<Rightarrow> time \<Rightarrow> int" where
  "time_Weekday offset t = weekday_of_day (local_day offset t)"

lemma add_days: "time_AddDate offset t 0 0 i = t + i * 86400 * second_ns"
proof -
  define n s where "n = local_day offset t" and "s = local_second offset t mod 86400"
  have "day_of_date (year_of_day n) (month_of_day n) (mday_of_day n + i) = n + i"
    using date_of_day [of n] day_of_date_shift [of _ _ "mday_of_day n + i"] day_of_date_shift [of _ _ "mday_of_day n"]
    by (metis add_diff_eq diff_add_cancel diff_add_eq add.assoc add.commute)
  moreover have "s div 3600 * 3600 + s mod 3600 div 60 * 60 + s mod 60 = s"
  proof -
    have "s mod 60 = s mod 3600 mod 60" by (simp add: mod_mod_cancel)
    then have "s mod 3600 div 60 * 60 + s mod 60 = s mod 3600" by (metis div_mult_mod_eq)
    then show ?thesis by (metis add.assoc div_mult_mod_eq)
  qed
  moreover have "n * 86400 + s = t div second_ns + offset"
    by (simp add: n_def s_def local_day_def local_second_def)
  ultimately have "(day_of_date (year_of_day n) (month_of_day n) (mday_of_day n + i) * 86400 + s div 3600 * 3600 +
      s mod 3600 div 60 * 60 + s mod 60 - offset) = t div second_ns + i * 86400"
    by (simp add: algebra_simps)
  then have "time_AddDate offset t 0 0 i = (t div second_ns + i * 86400) * second_ns + t mod second_ns"
    by (simp only: time_AddDate_def time_Date_def n_def [symmetric] s_def [symmetric] Let_def add_0_right)
  then show ?thesis by (simp add: distrib_right)
qed

lemma local_day_Date:
  "0 \<le> h \<Longrightarrow> h < 24 \<Longrightarrow> 0 \<le> mi \<Longrightarrow> mi < 60 \<Longrightarrow> local_day offset (time_Date offset y mo d h mi 0 0) = day_of_date y mo d"
proof -
  assume "0 \<le> h" "h < 24" "0 \<le> mi" "mi < 60"
  then have "(day_of_date y mo d * 86400 + (h * 3600 + mi * 60)) div 86400 = day_of_date y mo d"
    by (intro int_div_pos_eq [where r = "h * 3600 + mi * 60"]) simp_all
  then show ?thesis by (simp add: local_day_def local_second_def time_Date_def second_ns_def add.assoc)
qed

lemma local_day_add: "local_day offset (t + i * 86400 * second_ns) = local_day offset t + i"
proof -
  have "local_second offset (t + i * 86400 * second_ns) = local_second offset t + i * 86400"
    by (simp add: local_second_def second_ns_def)
  then show ?thesis unfolding local_day_def by (simp only: div_mult_self1 zero_neq_numeral [symmetric] not_False_eq_True simp_thms)
qed

lemma local_day_mono: "t \<le> u \<Longrightarrow> local_day offset t \<le> local_day offset u"
  by (simp add: local_day_def local_second_def second_ns_def zdiv_mono1)

section \<open>The layout 15:04\<close>

text \<open>The hour has one or two digits, the minute two.\<close>

definition parse_hour :: "string \<Rightarrow> (int \<times> string) option" where
  "parse_hour s =
     (case s of
        [] \<Rightarrow> None
      | a # r \<Rightarrow>
          if \<not> is_digit a then None
          else (case r of
                  [] \<Rightarrow> Some (digit_val a, [])
                | b # r' \<Rightarrow> if is_digit b then Some (10 * digit_val a + digit_val b, r') else Some (digit_val a, r)))"

definition parse_clock :: "string \<Rightarrow> (int \<times> int) option" where
  "parse_clock s =
     (case parse_hour s of
        None \<Rightarrow> None
      | Some (h, r) \<Rightarrow>
          if h \<ge> 24 then None
          else (case r of
                  [c, a, b] \<Rightarrow>
                    if c = CHR '':'' \<and> is_digit a \<and> is_digit b \<and> 10 * digit_val a + digit_val b < 60
                    then Some (h, 10 * digit_val a + digit_val b) else None
                | _ \<Rightarrow> None))"

lemma parse_hour_ge: "parse_hour s = Some (h, r) \<Longrightarrow> 0 \<le> h"
  unfolding parse_hour_def by (fastforce split: list.splits if_splits dest: digit_val_bounds)

lemma parse_clock_range:
  assumes "parse_clock s = Some (h, m)"
  shows "0 \<le> h \<and> h < 24 \<and> 0 \<le> m \<and> m < 60"
proof -
  obtain r where r: "parse_hour s = Some (h, r)" and "h < 24"
      and c: "\<exists>a b. is_digit a \<and> is_digit b \<and> 10 * digit_val a + digit_val b < 60 \<and> m = 10 * digit_val a + digit_val b"
    using assms unfolding parse_clock_def by (auto split: option.splits list.splits if_splits) blast
  from c have "0 \<le> m \<and> m < 60" using digit_val_bounds by fastforce
  with parse_hour_ge [OF r] \<open>h < 24\<close> show ?thesis by simp
qed

end
