(* ===== verification/Sync_Scheduler.thy ===== *)
theory Sync_Scheduler imports Go_Sort Go_Time Sync_Orchestrator begin

text \<open>
  The scheduler of the synchronisation jobs (\<^verbatim>\<open>pkg/sync/scheduler.go\<close>): the throttles, the time of the
  next run of a schedule, the operations on schedules, and the goroutines that start a job for a due
  schedule and wait for its end.

  A schedule is shared by pointer and stands in a store under a reference; the caller of \<open>CreateSchedule\<close>
  allocates it.  The scheduler calls the orchestrator, so its state contains the orchestrator's; a call of
  \<open>StartSync\<close> is one step here.  A part of an operation that runs without waiting reads the clock once, at
  \<open>now\<close>.  \<open>offset\<close> is the offset of the local time zone in seconds.  \<open>show_error\<close> gives the texts of errors.
  A notification only adds a span to the trace; \<open>SS_notices\<close> lists these spans.
\<close>

section \<open>Throttles\<close>

record RateLimitConfig =
  RLC_RequestsPerSecond :: float64
  RLC_BurstLimit :: int
  RLC_WindowSize :: duration
  RLC_EnableAdaptive :: bool
  RLC_BackoffMultiplier :: float64
  RLC_MaxBackoffTime :: duration

text \<open>The channel of tokens is the number of its elements.\<close>

record ThrottleManager =
  TM_config :: RateLimitConfig
  TM_tokens :: int
  TM_lastRequest :: time
  TM_backoffUntil :: time
  TM_requestCount :: int
  TM_windowStart :: time

datatype throttle_error = ThrottledUntil time | RateLimitExceeded int duration | BurstLimitExceeded

text \<open>A negative capacity of the channel panics.\<close>

definition NewThrottleManager :: "time \<Rightarrow> RateLimitConfig \<Rightarrow> (throttle_error, ThrottleManager) outcome" where
  "NewThrottleManager now config =
     (if RLC_BurstLimit config < 0 then Panic
      else Ok \<lparr>TM_config = config, TM_tokens = RLC_BurstLimit config, TM_lastRequest = 0, TM_backoffUntil = 0,
               TM_requestCount = 0, TM_windowStart = now\<rparr>)"

definition duration_Seconds :: "duration \<Rightarrow> float64" where
  "duration_Seconds d =
     f64_add (f64_of_int (go_quot d second_ns)) (f64_div (f64_of_int (go_rem d second_ns)) (f64_of_int second_ns))"

definition max_requests :: "RateLimitConfig \<Rightarrow> int" where
  "max_requests c = f64_trunc (f64_mul (RLC_RequestsPerSecond c) (duration_Seconds (RLC_WindowSize c)))"

text \<open>The loop that refills the channel ends when it is full.\<close>

definition refill :: "time \<Rightarrow> ThrottleManager \<Rightarrow> ThrottleManager" where
  "refill now tm = tm\<lparr>TM_windowStart := now, TM_requestCount := 0, TM_tokens := max (TM_tokens tm) (RLC_BurstLimit (TM_config tm))\<rparr>"

definition throttle_backoff :: "RateLimitConfig \<Rightarrow> duration" where
  "throttle_backoff c = min (f64_trunc (f64_mul (f64_of_int second_ns) (RLC_BackoffMultiplier c))) (RLC_MaxBackoffTime c)"

definition checkThrottle :: "time \<Rightarrow> ThrottleManager \<Rightarrow> ThrottleManager \<times> throttle_error option" where
  "checkThrottle now tm =
     (let c = TM_config tm
      in if now < TM_backoffUntil tm then (tm, Some (ThrottledUntil (TM_backoffUntil tm)))
         else
           (let tm1 = (if now - TM_windowStart tm \<ge> RLC_WindowSize c then refill now tm else tm)
            in if TM_requestCount tm1 \<ge> max_requests c
               then (if RLC_EnableAdaptive c then tm1\<lparr>TM_backoffUntil := now + throttle_backoff c\<rparr> else tm1,
                     Some (RateLimitExceeded (TM_requestCount tm1) (RLC_WindowSize c)))
               else if 0 < TM_tokens tm1
               then (tm1\<lparr>TM_tokens := TM_tokens tm1 - 1, TM_requestCount := TM_requestCount tm1 + 1, TM_lastRequest := now\<rparr>, None)
               else (tm1, Some BurstLimitExceeded)))"

section \<open>Schedules\<close>

definition ScheduleTypeOnce :: string where [simp]: "ScheduleTypeOnce = ''once''"
definition ScheduleTypeInterval :: string where [simp]: "ScheduleTypeInterval = ''interval''"
definition ScheduleTypeCron :: string where [simp]: "ScheduleTypeCron = ''cron''"
definition ScheduleTypeWeekly :: string where [simp]: "ScheduleTypeWeekly = ''weekly''"
definition ScheduleTypeMonthly :: string where [simp]: "ScheduleTypeMonthly = ''monthly''"
definition ScheduleTypeConditional :: string where [simp]: "ScheduleTypeConditional = ''conditional''"

definition ScheduleStatusRunning :: string where "ScheduleStatusRunning = ''running''"
definition ScheduleStatusCompleted :: string where "ScheduleStatusCompleted = ''completed''"
definition ScheduleStatusFailed :: string where "ScheduleStatusFailed = ''failed''"
definition ScheduleStatusSkipped :: string where "ScheduleStatusSkipped = ''skipped''"

record WeeklySchedule =
  WS_DaysOfWeek :: "int list"
  WS_TimeOfDay :: string

record MonthlySchedule =
  MS_DayOfMonth :: int
  MS_TimeOfDay :: string

record ScheduleCondition =
  ScC_Type :: string
  ScC_Operator :: string
  ScC_Value :: meta_value
  ScC_Metadata :: metadata

record ScheduleConfig =
  SCfg_Type :: string
  SCfg_CronExpression :: string
  SCfg_Interval :: duration
  SCfg_RunOnce :: "time option"
  SCfg_StartDate :: "time option"
  SCfg_EndDate :: "time option"
  SCfg_MaxRuns :: "int option"
  SCfg_WeeklySchedule :: "WeeklySchedule option"
  SCfg_MonthlySchedule :: "MonthlySchedule option"
  SCfg_Conditions :: "ScheduleCondition list"

record NotificationConfig =
  NC_OnSuccess :: bool
  NC_OnFailure :: bool
  NC_OnSkip :: bool
  NC_Channels :: "string list"
  NC_Recipients :: "string list"
  NC_WebhookURL :: string
  NC_EmailTemplate :: string

record ScheduleResult =
  SRes_ScheduleID :: uuid
  SRes_JobID :: uuid
  SRes_StartTime :: time
  SRes_EndTime :: time
  SRes_Duration :: duration
  SRes_Status :: string
  SRes_Message :: string
  SRes_Error :: string
  SRes_Metrics :: "SyncMetrics option"
  SRes_NextSchedule :: "time option"

record SyncSchedule =
  Sch_ID :: uuid
  Sch_Name :: string
  Sch_Description :: string
  Sch_DataSourceID :: uuid
  Sch_ConnectorType :: string
  Sch_SyncOptions :: "UnifiedSyncOptions option"
  Sch_Schedule :: "ScheduleConfig option"
  Sch_IsActive :: bool
  Sch_CreatedAt :: time
  Sch_UpdatedAt :: time
  Sch_LastRun :: "time option"
  Sch_NextRun :: "time option"
  Sch_RunCount :: int
  Sch_SuccessCount :: int
  Sch_FailureCount :: int
  Sch_LastResult :: "ScheduleResult option"
  Sch_RetryCount :: int
  Sch_MaxRetries :: int
  Sch_Timezone :: string
  Sch_Tags :: "string \<rightharpoonup> string"
  Sch_NotificationConfig :: "NotificationConfig option"

datatype schedule_error =
    ScheduleNotFound
  | InvalidInterval
  | WeeklyConfigMissing
  | NoDaysOfWeek
  | InvalidTimeOfDay string
  | NoWeeklyRun
  | MonthlyConfigMissing
  | UnsupportedScheduleType string
  | NextRunFailed schedule_error
  | ThrottledStart throttle_error
  | StartFailed sync_error

section \<open>The next run\<close>

text \<open>The first of the days from today on whose weekday is in the schedule and whose time is to come.\<close>

definition weekly_candidate :: "int \<Rightarrow> time \<Rightarrow> int list \<Rightarrow> int \<Rightarrow> int \<Rightarrow> int \<Rightarrow> time option" where
  "weekly_candidate offset now days h mi i =
     (let n = local_day offset (time_AddDate offset now 0 0 i);
          run = time_Date offset (year_of_day n) (month_of_day n) (mday_of_day n) h mi 0 0
      in if weekday_of_day n \<in> set days \<and> now < run then Some run else None)"

fun first_some :: "('a \<Rightarrow> 'b option) \<Rightarrow> 'a list \<Rightarrow> 'b option" where
  "first_some f [] = None"
| "first_some f (x # xs) = (case f x of None \<Rightarrow> first_some f xs | Some y \<Rightarrow> Some y)"

definition calculateWeeklyNextRun :: "int \<Rightarrow> time \<Rightarrow> ScheduleConfig \<Rightarrow> (schedule_error, time option) outcome" where
  "calculateWeeklyNextRun offset now cfg =
     (case SCfg_WeeklySchedule cfg of
        None \<Rightarrow> Err WeeklyConfigMissing
      | Some w \<Rightarrow>
          if WS_DaysOfWeek w = [] then Err NoDaysOfWeek
          else (case parse_clock (WS_TimeOfDay w) of
                  None \<Rightarrow> Err (InvalidTimeOfDay (WS_TimeOfDay w))
                | Some (h, mi) \<Rightarrow>
                    (case first_some (weekly_candidate offset now (WS_DaysOfWeek w) h mi) [0 .. 6] of
                       None \<Rightarrow> Err NoWeeklyRun | Some t \<Rightarrow> Ok (Some t))))"

definition calculateMonthlyNextRun :: "int \<Rightarrow> time \<Rightarrow> ScheduleConfig \<Rightarrow> (schedule_error, time option) outcome" where
  "calculateMonthlyNextRun offset now cfg =
     (case SCfg_MonthlySchedule cfg of
        None \<Rightarrow> Err MonthlyConfigMissing
      | Some m \<Rightarrow>
          (case parse_clock (MS_TimeOfDay m) of
             None \<Rightarrow> Err (InvalidTimeOfDay (MS_TimeOfDay m))
           | Some (h, mi) \<Rightarrow>
               (let y = year_of_day (local_day offset now); mo = month_of_day (local_day offset now);
                    day_of = (\<lambda>k. if MS_DayOfMonth m = - 1
                                  then mday_of_day (local_day offset (time_Date offset y (mo + k) 0 0 0 0 0)) else MS_DayOfMonth m);
                    run = time_Date offset y mo (day_of 1) h mi 0 0
                in if run \<le> now then Ok (Some (time_Date offset y (mo + 1) (day_of 2) h mi 0 0)) else Ok (Some run))))"

definition hour_ns :: duration where "hour_ns = 3600 * second_ns"

text \<open>A schedule without its configuration is a nil pointer that is dereferenced.\<close>

definition calculateNextRun :: "int \<Rightarrow> time \<Rightarrow> SyncSchedule \<Rightarrow> (schedule_error, time option) outcome" where
  "calculateNextRun offset now s =
     (case Sch_Schedule s of
        None \<Rightarrow> Panic
      | Some cfg \<Rightarrow>
          if SCfg_Type cfg = ScheduleTypeOnce
          then (case SCfg_RunOnce cfg of None \<Rightarrow> Ok None | Some t \<Rightarrow> if now < t then Ok (Some t) else Ok None)
          else if SCfg_Type cfg = ScheduleTypeInterval
          then (if SCfg_Interval cfg \<le> 0 then Err InvalidInterval
                else (let lastRun = (case Sch_LastRun s of Some t \<Rightarrow> t | None \<Rightarrow> Sch_CreatedAt s);
                          run = lastRun + SCfg_Interval cfg
                      in Ok (Some (if run < now then now + SCfg_Interval cfg else run))))
          else if SCfg_Type cfg = ScheduleTypeCron then Ok (Some (now + hour_ns))
          else if SCfg_Type cfg = ScheduleTypeWeekly then calculateWeeklyNextRun offset now cfg
          else if SCfg_Type cfg = ScheduleTypeMonthly then calculateMonthlyNextRun offset now cfg
          else Err (UnsupportedScheduleType (SCfg_Type cfg)))"

section \<open>The scheduler\<close>

record ResourceLimitConfig =
  ResL_MaxMemoryMB :: int
  ResL_MaxCPUPercent :: float64
  ResL_MaxBandwidthMBps :: int
  ResL_MaxConcurrentSyncs :: int
  ResL_MaxDiskSpaceMB :: int

record SchedulerConfig =
  SdC_EnableScheduling :: bool
  SdC_MaxConcurrentSchedules :: int
  SdC_ScheduleCheckInterval :: duration
  SdC_DefaultTimeout :: duration
  SdC_RetryFailedSchedules :: bool
  SdC_MaxRetries :: int
  SdC_RetryBackoffMultiplier :: float64
  SdC_SchedulePersistence :: bool
  SdC_EnableThrottling :: bool
  SdC_GlobalRateLimit :: "RateLimitConfig option"
  SdC_ConnectorRateLimits :: "string \<rightharpoonup> RateLimitConfig"
  SdC_ThrottleRecoveryTime :: duration
  SdC_AdaptiveThrottling :: bool
  SdC_ResourceLimits :: "ResourceLimitConfig option"
  SdC_EnableResourceMonitoring :: bool
  SdC_ResourceCheckInterval :: duration

definition default_scheduler_config :: SchedulerConfig where
  "default_scheduler_config =
     \<lparr>SdC_EnableScheduling = True, SdC_MaxConcurrentSchedules = 10, SdC_ScheduleCheckInterval = 60 * second_ns,
      SdC_DefaultTimeout = 2 * hour_ns, SdC_RetryFailedSchedules = True, SdC_MaxRetries = 3, SdC_RetryBackoffMultiplier = 2,
      SdC_SchedulePersistence = True, SdC_EnableThrottling = True, SdC_GlobalRateLimit = None,
      SdC_ConnectorRateLimits = Map.empty, SdC_ThrottleRecoveryTime = 5 * 60 * second_ns, SdC_AdaptiveThrottling = True,
      SdC_ResourceLimits = None, SdC_EnableResourceMonitoring = False, SdC_ResourceCheckInterval = 30 * second_ns\<rparr>"

type_synonym sched_ref = nat

text \<open>A goroutine that waits for the end of a job; the one of a manual start stops with the context of the
  request that triggered it.\<close>

record Monitor =
  Mon_schedule :: sched_ref
  Mon_job :: job_ref
  Mon_start :: time
  Mon_manual :: bool

text \<open>\<open>SS_pending\<close> holds the goroutines of \<open>executeScheduleAsync\<close> that have not begun.\<close>

record SyncScheduler =
  SS_config :: SchedulerConfig
  SS_schedules :: "uuid \<rightharpoonup> sched_ref"
  SS_store :: "sched_ref \<rightharpoonup> SyncSchedule"
  SS_throttlers :: "string \<rightharpoonup> ThrottleManager"
  SS_orchestrator :: SyncOrchestrator
  SS_pending :: "sched_ref list"
  SS_monitors :: "Monitor list"
  SS_notices :: "(uuid \<times> string) list"
  SS_stopped :: bool

text \<open>The limits of the connectors come after the global one, and a connector of that name replaces it.\<close>

definition initializeThrottlers :: "time \<Rightarrow> SchedulerConfig \<Rightarrow> (throttle_error, string \<rightharpoonup> ThrottleManager) outcome" where
  "initializeThrottlers now cfg =
     (let limit = (\<lambda>name. case SdC_ConnectorRateLimits cfg name of
            Some c \<Rightarrow> Some c | None \<Rightarrow> if name = ''global'' then SdC_GlobalRateLimit cfg else None)
      in if (\<exists>c \<in> ran (SdC_ConnectorRateLimits cfg) \<union> set_option (SdC_GlobalRateLimit cfg). NewThrottleManager now c = Panic)
         then Panic
         else Ok (\<lambda>name. map_option (\<lambda>c. the_ok (NewThrottleManager now c)) (limit name)))"

text \<open>A ticker whose interval is not positive panics.\<close>

definition NewSyncScheduler ::
  "time \<Rightarrow> SyncOrchestrator \<Rightarrow> SchedulerConfig option \<Rightarrow> (throttle_error, SyncScheduler) outcome" where
  "NewSyncScheduler now o' config =
     (let cfg = (case config of None \<Rightarrow> default_scheduler_config | Some c \<Rightarrow> c)
      in if SdC_EnableScheduling cfg \<and> SdC_ScheduleCheckInterval cfg \<le> 0 then Panic
         else bind_outcome (if SdC_EnableThrottling cfg then initializeThrottlers now cfg else Ok Map.empty)
           (\<lambda>ths. Ok \<lparr>SS_config = cfg, SS_schedules = Map.empty, SS_store = Map.empty, SS_throttlers = ths,
              SS_orchestrator = o', SS_pending = [], SS_monitors = [], SS_notices = [], SS_stopped = False\<rparr>))"

definition upd_sched :: "sched_ref \<Rightarrow> (SyncSchedule \<Rightarrow> SyncSchedule) \<Rightarrow> SyncScheduler \<Rightarrow> SyncScheduler" where
  "upd_sched ref f ss = ss\<lparr>SS_store := (SS_store ss)(ref := map_option f (SS_store ss ref))\<rparr>"

section \<open>Operations on schedules\<close>

text \<open>The defaults are set in the caller's structure before the next run is computed, and the schedule is
  registered before its next run is formatted for the trace, which panics if there is none.\<close>

definition with_defaults :: "uuid \<Rightarrow> time \<Rightarrow> SchedulerConfig \<Rightarrow> SyncSchedule \<Rightarrow> SyncSchedule" where
  "with_defaults new_id now cfg s =
     s\<lparr>Sch_ID := (if Sch_ID s = nil_uuid then new_id else Sch_ID s), Sch_CreatedAt := now, Sch_UpdatedAt := now,
       Sch_IsActive := True, Sch_MaxRetries := (if Sch_MaxRetries s = 0 then SdC_MaxRetries cfg else Sch_MaxRetries s)\<rparr>"

definition CreateSchedule :: "uuid \<Rightarrow> int \<Rightarrow> time \<Rightarrow> sched_ref \<Rightarrow> SyncScheduler \<Rightarrow>
    SyncScheduler \<times> (schedule_error, unit) outcome" where
  "CreateSchedule new_id offset now ref ss =
     (case SS_store ss ref of
        None \<Rightarrow> (ss, Panic)
      | Some s0 \<Rightarrow>
          (let s = with_defaults new_id now (SS_config ss) s0; ss1 = ss\<lparr>SS_store := (SS_store ss)(ref \<mapsto> s)\<rparr>
           in case calculateNextRun offset now s of
                Panic \<Rightarrow> (ss1, Panic)
              | Err e \<Rightarrow> (ss1, Err (NextRunFailed e))
              | Ok run \<Rightarrow>
                  (ss1\<lparr>SS_store := (SS_store ss)(ref \<mapsto> s\<lparr>Sch_NextRun := run\<rparr>),
                       SS_schedules := (SS_schedules ss)(Sch_ID s \<mapsto> ref)\<rparr>,
                   if run = None then Panic else Ok ())))"

text \<open>An error of the next run leaves the fields that were set before.\<close>

definition UpdateSchedule :: "int \<Rightarrow> time \<Rightarrow> uuid \<Rightarrow> SyncSchedule \<Rightarrow> SyncScheduler \<Rightarrow>
    SyncScheduler \<times> (schedule_error, unit) outcome" where
  "UpdateSchedule offset now scheduleID updates ss =
     (case SS_schedules ss scheduleID of
        None \<Rightarrow> (ss, Err ScheduleNotFound)
      | Some ref \<Rightarrow>
          (case SS_store ss ref of
             None \<Rightarrow> (ss, Panic)
           | Some s0 \<Rightarrow>
               (let s1 = (if Sch_Name updates = [] then s0 else s0\<lparr>Sch_Name := Sch_Name updates\<rparr>);
                    s2 = (if Sch_Description updates = [] then s1 else s1\<lparr>Sch_Description := Sch_Description updates\<rparr>);
                    s3 = (if Sch_SyncOptions updates = None then s2 else s2\<lparr>Sch_SyncOptions := Sch_SyncOptions updates\<rparr>);
                    finish = (\<lambda>s. (upd_sched ref (\<lambda>_. (if Sch_NotificationConfig updates = None then s
                        else s\<lparr>Sch_NotificationConfig := Sch_NotificationConfig updates\<rparr>)\<lparr>Sch_UpdatedAt := now\<rparr>) ss, Ok ()))
                in if Sch_Schedule updates = None then finish s3
                   else (let s4 = s3\<lparr>Sch_Schedule := Sch_Schedule updates\<rparr>
                         in case calculateNextRun offset now s4 of
                              Panic \<Rightarrow> (upd_sched ref (\<lambda>_. s4) ss, Panic)
                            | Err e \<Rightarrow> (upd_sched ref (\<lambda>_. s4) ss, Err (NextRunFailed e))
                            | Ok run \<Rightarrow> finish (s4\<lparr>Sch_NextRun := run\<rparr>)))))"

definition DeleteSchedule :: "uuid \<Rightarrow> SyncScheduler \<Rightarrow> SyncScheduler" where
  "DeleteSchedule scheduleID ss = ss\<lparr>SS_schedules := (SS_schedules ss)(scheduleID := None)\<rparr>"

definition GetSchedule :: "uuid \<Rightarrow> SyncScheduler \<Rightarrow> (schedule_error, sched_ref) outcome" where
  "GetSchedule scheduleID ss = (case SS_schedules ss scheduleID of None \<Rightarrow> Err ScheduleNotFound | Some ref \<Rightarrow> Ok ref)"

record ScheduleFilters =
  SFil_IsActive :: "bool option"
  SFil_ConnectorType :: string
  SFil_DataSourceID :: uuid

definition schedule_matches :: "ScheduleFilters option \<Rightarrow> SyncSchedule \<Rightarrow> bool" where
  "schedule_matches filters s =
     (case filters of
        None \<Rightarrow> True
      | Some f \<Rightarrow>
          \<not> (case SFil_IsActive f of None \<Rightarrow> False | Some a \<Rightarrow> Sch_IsActive s \<noteq> a) \<and>
          \<not> (SFil_ConnectorType f \<noteq> [] \<and> Sch_ConnectorType s \<noteq> SFil_ConnectorType f) \<and>
          \<not> (SFil_DataSourceID f \<noteq> nil_uuid \<and> Sch_DataSourceID s \<noteq> SFil_DataSourceID f))"

definition runs_before :: "SyncSchedule \<Rightarrow> SyncSchedule \<Rightarrow> bool" where
  "runs_before a b =
     (case Sch_NextRun a of
        None \<Rightarrow> False | Some t \<Rightarrow> (case Sch_NextRun b of None \<Rightarrow> True | Some u \<Rightarrow> t < u))"

text \<open>\<open>order\<close> is the order in which a range visits the map of the schedules.\<close>

definition ListSchedules :: "((SyncSchedule \<Rightarrow> SyncSchedule \<Rightarrow> bool) \<Rightarrow> SyncSchedule list \<Rightarrow> SyncSchedule list) \<Rightarrow>
    uuid list \<Rightarrow> ScheduleFilters option \<Rightarrow> SyncScheduler \<Rightarrow> SyncSchedule list" where
  "ListSchedules sort_slice order filters ss =
     sort_slice runs_before (filter (schedule_matches filters)
       (map (\<lambda>ref. the (SS_store ss ref)) (List.map_filter (SS_schedules ss) order)))"

section \<open>Running a schedule\<close>

definition CheckThrottle :: "time \<Rightarrow> string \<Rightarrow> SyncScheduler \<Rightarrow> SyncScheduler \<times> throttle_error option" where
  "CheckThrottle now connectorType ss =
     (if \<not> SdC_EnableThrottling (SS_config ss) then (ss, None)
      else (let name = (if SS_throttlers ss connectorType = None then ''global'' else connectorType)
            in case SS_throttlers ss name of
                 None \<Rightarrow> (ss, None)
               | Some tm \<Rightarrow>
                   (let (tm', e) = checkThrottle now tm in (ss\<lparr>SS_throttlers := (SS_throttlers ss)(name \<mapsto> tm')\<rparr>, e))))"

definition schedule_result :: "SyncSchedule \<Rightarrow> SyncJob option \<Rightarrow> time \<Rightarrow> time \<Rightarrow> string \<Rightarrow> string \<Rightarrow> string \<Rightarrow> ScheduleResult" where
  "schedule_result s job startTime now status message errorMsg =
     \<lparr>SRes_ScheduleID = Sch_ID s, SRes_JobID = (case job of None \<Rightarrow> nil_uuid | Some j \<Rightarrow> SJ_ID j), SRes_StartTime = startTime,
      SRes_EndTime = now, SRes_Duration = now - startTime, SRes_Status = status, SRes_Message = message, SRes_Error = errorMsg,
      SRes_Metrics = (case job of None \<Rightarrow> None | Some j \<Rightarrow> JS_Metrics (SJ_Status j)), SRes_NextSchedule = None\<rparr>"

definition recordScheduleResult :: "sched_ref \<Rightarrow> SyncJob option \<Rightarrow> time \<Rightarrow> time \<Rightarrow> string \<Rightarrow> string \<Rightarrow> string \<Rightarrow>
    SyncScheduler \<Rightarrow> SyncScheduler" where
  "recordScheduleResult ref job startTime now status message errorMsg =
     upd_sched ref (\<lambda>s. s\<lparr>Sch_LastResult := Some (schedule_result s job startTime now status message errorMsg)\<rparr>)"

text \<open>\<open>StartSync\<close> fills in the options of the schedule, which the request points to.\<close>

definition schedule_request :: "SyncSchedule \<Rightarrow> StartSyncRequest" where
  "schedule_request s =
     \<lparr>SReq_DataSourceID = Sch_DataSourceID s, SReq_ConnectorType = Sch_ConnectorType s, SReq_Options = Sch_SyncOptions s,
      SReq_ScheduleOptions = None\<rparr>"

definition fill_options :: "SyncSchedule \<Rightarrow> SyncSchedule" where
  "fill_options s =
     (case validateSyncRequest (schedule_request s) of Ok opts \<Rightarrow> s\<lparr>Sch_SyncOptions := Some opts\<rparr> | _ \<Rightarrow> s)"

definition mark_started :: "int \<Rightarrow> time \<Rightarrow> bool \<Rightarrow> SyncSchedule \<Rightarrow> SyncSchedule" where
  "mark_started offset now manual s =
     (let s' = s\<lparr>Sch_LastRun := Some now, Sch_RunCount := Sch_RunCount s + 1\<rparr>
      in if manual then s'
         else (case calculateNextRun offset now s' of Ok run \<Rightarrow> s'\<lparr>Sch_NextRun := run\<rparr> | _ \<Rightarrow> s'))"

record sched_env =
  SE_connector :: "string \<Rightarrow> bool"
  SE_show_error :: "schedule_error \<Rightarrow> string"
  SE_offset :: int

text \<open>\<open>now\<close> is the time of the call, \<open>new_id\<close> and \<open>jref\<close> identify the job that \<open>StartSync\<close> creates.  The options of a
  schedule are not checked, and \<open>StartSync\<close> panics if there are none.\<close>

definition executeSchedule :: "sched_env \<Rightarrow> uuid \<Rightarrow> job_ref \<Rightarrow> time \<Rightarrow> sched_ref \<Rightarrow> bool \<Rightarrow> SyncScheduler \<Rightarrow>
    SyncScheduler \<times> (schedule_error, job_ref) outcome" where
  "executeSchedule env new_id jref now ref manual ss =
     (case SS_store ss ref of
        None \<Rightarrow> (ss, Panic)
      | Some s \<Rightarrow>
          (case CheckThrottle now (Sch_ConnectorType s) ss of
             (ss1, Some e) \<Rightarrow>
               (recordScheduleResult ref None now now ScheduleStatusSkipped ''Throttled'' (SE_show_error env (ThrottledStart e)) ss1,
                Err (ThrottledStart e))
           | (ss1, None) \<Rightarrow>
               (case StartSync (SE_connector env) new_id jref now (schedule_request s) (SS_orchestrator ss1) of
                  (o', started) \<Rightarrow>
                    (let ss2 = upd_sched ref fill_options (ss1\<lparr>SS_orchestrator := o'\<rparr>)
                     in case started of
                          Panic \<Rightarrow> (ss2, Panic)
                        | Err e \<Rightarrow>
                            (recordScheduleResult ref None now now ScheduleStatusFailed [] (SE_show_error env (StartFailed e)) ss2,
                             Err (StartFailed e))
                        | Ok job \<Rightarrow>
                            (let ss3 = upd_sched ref (mark_started (SE_offset env) now manual) ss2;
                                 ss4 = recordScheduleResult ref (map_option JR_job (SO_jobs o' job)) now now ScheduleStatusRunning
                                         ''Sync job started'' [] ss3
                             in (ss4\<lparr>SS_monitors := SS_monitors ss4 @
                                   [\<lparr>Mon_schedule = ref, Mon_job = job, Mon_start = now, Mon_manual = manual\<rparr>]\<rparr>, Ok job))))))"

definition TriggerSchedule :: "sched_env \<Rightarrow> uuid \<Rightarrow> job_ref \<Rightarrow> time \<Rightarrow> uuid \<Rightarrow> SyncScheduler \<Rightarrow>
    SyncScheduler \<times> (schedule_error, job_ref) outcome" where
  "TriggerSchedule env new_id jref now scheduleID ss =
     (case SS_schedules ss scheduleID of
        None \<Rightarrow> (ss, Err ScheduleNotFound) | Some ref \<Rightarrow> executeSchedule env new_id jref now ref True ss)"

definition retry_backoff :: "SchedulerConfig \<Rightarrow> int \<Rightarrow> duration" where
  "retry_backoff cfg retries =
     f64_trunc (f64_mul (f64_of_int (60 * second_ns)) (f64_mul (SdC_RetryBackoffMultiplier cfg) (f64_of_int retries)))"

definition handleScheduleFailure :: "int \<Rightarrow> time \<Rightarrow> SchedulerConfig \<Rightarrow> SyncSchedule \<Rightarrow> SyncSchedule" where
  "handleScheduleFailure offset now cfg s =
     (let s' = s\<lparr>Sch_RetryCount := Sch_RetryCount s + 1\<rparr>
      in if Sch_RetryCount s' < Sch_MaxRetries s'
         then s'\<lparr>Sch_NextRun := Some (now + retry_backoff cfg (Sch_RetryCount s'))\<rparr>
         else (case calculateNextRun offset now s' of Ok run \<Rightarrow> s'\<lparr>Sch_NextRun := run\<rparr> | _ \<Rightarrow> s')\<lparr>Sch_RetryCount := 0\<rparr>)"

definition executeScheduleAsync :: "sched_env \<Rightarrow> uuid \<Rightarrow> job_ref \<Rightarrow> time \<Rightarrow> sched_ref \<Rightarrow> SyncScheduler \<Rightarrow>
    SyncScheduler \<times> (schedule_error, job_ref) outcome" where
  "executeScheduleAsync env new_id jref now ref ss =
     (case executeSchedule env new_id jref now ref False ss of
        (ss', Err e) \<Rightarrow> (upd_sched ref (handleScheduleFailure (SE_offset env) now (SS_config ss')) ss', Err e)
      | r \<Rightarrow> r)"

text \<open>The evaluation of a condition is not implemented: it holds.\<close>

definition evaluateCondition :: "ScheduleCondition \<Rightarrow> SyncSchedule \<Rightarrow> bool" where
  "evaluateCondition condition s = True"

definition checkScheduleConditions :: "ScheduleConfig \<Rightarrow> SyncSchedule \<Rightarrow> bool" where
  "checkScheduleConditions cfg s = list_all (\<lambda>c. evaluateCondition c s) (SCfg_Conditions cfg)"

text \<open>The range over the schedules, and then the start of a goroutine for each due one.\<close>

fun due_schedules :: "int \<Rightarrow> time \<Rightarrow> uuid list \<Rightarrow> SyncScheduler \<Rightarrow> (schedule_error, SyncScheduler \<times> sched_ref list) outcome" where
  "due_schedules offset now [] ss = Ok (ss, [])"
| "due_schedules offset now (i # ids) ss =
     (case SS_schedules ss i of
        None \<Rightarrow> due_schedules offset now ids ss
      | Some ref \<Rightarrow>
          (case SS_store ss ref of
             None \<Rightarrow> Panic
           | Some s \<Rightarrow>
               if \<not> Sch_IsActive s then due_schedules offset now ids ss
               else if (case Sch_NextRun s of None \<Rightarrow> True | Some t \<Rightarrow> now < t) then due_schedules offset now ids ss
               else (case Sch_Schedule s of
                       None \<Rightarrow> Panic
                     | Some cfg \<Rightarrow>
                         if \<not> checkScheduleConditions cfg s
                         then due_schedules offset now ids (upd_sched ref (\<lambda>s. s\<lparr>Sch_NextRun :=
                                case calculateNextRun offset now s of Ok run \<Rightarrow> run | _ \<Rightarrow> None\<rparr>) ss)
                         else bind_outcome (due_schedules offset now ids ss) (\<lambda>(ss', refs). Ok (ss', ref # refs)))))"

definition processSchedules :: "int \<Rightarrow> time \<Rightarrow> uuid list \<Rightarrow> SyncScheduler \<Rightarrow> (schedule_error, SyncScheduler) outcome" where
  "processSchedules offset now order ss =
     bind_outcome (due_schedules offset now order ss) (\<lambda>(ss', refs). Ok (ss'\<lparr>SS_pending := SS_pending ss' @ refs\<rparr>))"

section \<open>Monitoring a job\<close>

definition should_notify :: "NotificationConfig \<Rightarrow> string \<Rightarrow> bool" where
  "should_notify c status =
     (if status = ScheduleStatusCompleted then NC_OnSuccess c
      else if status = ScheduleStatusFailed then NC_OnFailure c
      else if status = ScheduleStatusSkipped then NC_OnSkip c else False)"

definition sendNotification :: "sched_ref \<Rightarrow> string \<Rightarrow> SyncScheduler \<Rightarrow> SyncScheduler" where
  "sendNotification ref status ss =
     (case SS_store ss ref of
        None \<Rightarrow> ss
      | Some s \<Rightarrow>
          (case Sch_NotificationConfig s of
             None \<Rightarrow> ss
           | Some c \<Rightarrow> if should_notify c status then ss\<lparr>SS_notices := SS_notices ss @ [(Sch_ID s, status)]\<rparr> else ss))"

text \<open>One tick of the goroutine: its new state and whether it goes on.\<close>

definition monitorScheduleJob :: "time \<Rightarrow> Monitor \<Rightarrow> SyncScheduler \<Rightarrow> SyncScheduler \<times> bool" where
  "monitorScheduleJob now m ss =
     (case SO_jobs (SS_orchestrator ss) (Mon_job m) of
        None \<Rightarrow> (ss, True)
      | Some r \<Rightarrow>
          (let r' = map_status (GetStatus now) r; st = job_status r'; o' = SS_orchestrator ss; ref = Mon_schedule m;
               ss1 = ss\<lparr>SS_orchestrator := o'\<lparr>SO_jobs := (SO_jobs o')(Mon_job m \<mapsto> r')\<rparr>\<rparr>
           in if JS_State st = SyncStateCompleted
              then (let ss2 = upd_sched ref (\<lambda>s. s\<lparr>Sch_SuccessCount := Sch_SuccessCount s + 1, Sch_RetryCount := 0\<rparr>) ss1;
                        ss3 = recordScheduleResult ref (Some (JR_job r')) (Mon_start m) now ScheduleStatusCompleted
                                ''Sync completed successfully'' [] ss2
                    in (sendNotification ref ScheduleStatusCompleted ss3, False))
              else if JS_State st = SyncStateFailed \<or> JS_State st = SyncStateCancelled
              then (let ss2 = upd_sched ref (\<lambda>s. s\<lparr>Sch_FailureCount := Sch_FailureCount s + 1\<rparr>) ss1;
                        ss3 = recordScheduleResult ref (Some (JR_job r')) (Mon_start m) now ScheduleStatusFailed
                                ''Sync failed'' (JS_Error st) ss2
                    in (sendNotification ref ScheduleStatusFailed ss3, False))
              else (ss1, True)))"

text \<open>Closing the channel a second time panics.\<close>

definition Shutdown :: "SyncScheduler \<Rightarrow> SyncScheduler \<times> (schedule_error, unit) outcome" where
  "Shutdown ss = (if SS_stopped ss then (ss, Panic) else (ss\<lparr>SS_stopped := True\<rparr>, Ok ()))"

section \<open>What a throttle grants\<close>

primrec throttle_after :: "time list \<Rightarrow> ThrottleManager \<Rightarrow> ThrottleManager" where
  "throttle_after [] tm = tm"
| "throttle_after (t # ts) tm = throttle_after ts (fst (checkThrottle t tm))"

primrec grant_count :: "time list \<Rightarrow> ThrottleManager \<Rightarrow> nat" where
  "grant_count [] tm = 0"
| "grant_count (t # ts) tm = (if snd (checkThrottle t tm) = None then 1 else 0) + grant_count ts (fst (checkThrottle t tm))"

definition window_limit :: "RateLimitConfig \<Rightarrow> int" where
  "window_limit c = max 0 (min (max_requests c) (RLC_BurstLimit c))"

text \<open>The tokens taken in a window are the requests counted in it.\<close>

definition throttle_ok :: "RateLimitConfig \<Rightarrow> ThrottleManager \<Rightarrow> bool" where
  "throttle_ok c tm \<longleftrightarrow> TM_config tm = c \<and> 0 \<le> TM_tokens tm \<and> 0 \<le> TM_requestCount tm \<and>
     TM_tokens tm + TM_requestCount tm = RLC_BurstLimit c \<and> TM_requestCount tm \<le> window_limit c"

lemma throttle_ok_new: "NewThrottleManager now c = Ok tm \<Longrightarrow> throttle_ok c tm"
  by (auto simp: NewThrottleManager_def throttle_ok_def window_limit_def split: if_splits)

lemma throttle_ok_refill: "throttle_ok c tm \<Longrightarrow> throttle_ok c (refill now tm)"
  by (auto simp: throttle_ok_def refill_def window_limit_def)

text \<open>The cases of a check: a rejection keeps the count, possibly after a new window has begun.\<close>

lemma checkThrottle_cases [consumes 1, case_names rejected grant_count]:
  assumes "throttle_ok c tm"
  obtains tm1 e where "checkThrottle t tm = (tm1, Some e)" "throttle_ok c tm1"
      "TM_windowStart tm1 = TM_windowStart tm \<and> TM_requestCount tm1 = TM_requestCount tm \<or>
       TM_windowStart tm1 = t \<and> TM_requestCount tm1 = 0 \<and> RLC_WindowSize c \<le> t - TM_windowStart tm"
    | tm1 where "checkThrottle t tm = (tm1, None)" "throttle_ok c tm1"
      "TM_windowStart tm1 = TM_windowStart tm \<and> TM_requestCount tm1 = TM_requestCount tm + 1 \<or>
       TM_windowStart tm1 = t \<and> TM_requestCount tm1 = 1 \<and> RLC_WindowSize c \<le> t - TM_windowStart tm"
proof -
  define fresh where "fresh \<longleftrightarrow> RLC_WindowSize c \<le> t - TM_windowStart tm"
  define tm1 where "tm1 = (if fresh then refill t tm else tm)"
  have c: "TM_config tm = c" using assms by (simp add: throttle_ok_def)
  have ok: "throttle_ok c tm1" using assms throttle_ok_refill by (simp add: tm1_def)
  have start: "TM_windowStart tm1 = TM_windowStart tm \<and> TM_requestCount tm1 = TM_requestCount tm \<or>
       TM_windowStart tm1 = t \<and> TM_requestCount tm1 = 0 \<and> RLC_WindowSize c \<le> t - TM_windowStart tm"
    by (auto simp: tm1_def refill_def fresh_def)
  consider "t < TM_backoffUntil tm"
    | "\<not> t < TM_backoffUntil tm" "max_requests c \<le> TM_requestCount tm1"
    | "\<not> t < TM_backoffUntil tm" "\<not> max_requests c \<le> TM_requestCount tm1" "0 < TM_tokens tm1"
    | "\<not> t < TM_backoffUntil tm" "\<not> max_requests c \<le> TM_requestCount tm1" "\<not> 0 < TM_tokens tm1"
    by blast
  then show ?thesis
  proof cases
    case 1
    then show ?thesis using that(1) [of tm] assms by (simp add: checkThrottle_def Let_def)
  next
    case 2
    let ?tm2 = "if RLC_EnableAdaptive c then tm1\<lparr>TM_backoffUntil := t + throttle_backoff c\<rparr> else tm1"
    have "checkThrottle t tm = (?tm2, Some (RateLimitExceeded (TM_requestCount tm1) (RLC_WindowSize c)))"
      using 2 by (simp add: checkThrottle_def Let_def c tm1_def fresh_def)
    moreover have "throttle_ok c ?tm2" using ok by (simp add: throttle_ok_def)
    ultimately show ?thesis using that(1) start by simp
  next
    case 3
    let ?tm2 = "tm1\<lparr>TM_tokens := TM_tokens tm1 - 1, TM_requestCount := TM_requestCount tm1 + 1, TM_lastRequest := t\<rparr>"
    have "checkThrottle t tm = (?tm2, None)"
      using 3 by (simp add: checkThrottle_def Let_def c tm1_def fresh_def)
    moreover have "throttle_ok c ?tm2" using ok 3 by (auto simp: throttle_ok_def window_limit_def)
    ultimately show ?thesis using that(2) start by auto
  next
    case 4
    then have "checkThrottle t tm = (tm1, Some BurstLimitExceeded)"
      by (simp add: checkThrottle_def Let_def c tm1_def fresh_def)
    then show ?thesis using that(1) ok start by simp
  qed
qed

lemma throttle_ok_after: "throttle_ok c tm \<Longrightarrow> throttle_ok c (throttle_after ts tm)"
proof (induction ts arbitrary: tm)
  case (Cons t ts)
  from Cons.prems show ?case
    by (cases rule: checkThrottle_cases [where t = t]) (simp_all add: Cons.IH)
qed simp

lemma granted_in_window:
  "throttle_ok c tm \<Longrightarrow> \<forall>t \<in> set ts. t - TM_windowStart tm < RLC_WindowSize c \<Longrightarrow>
     int (grant_count ts tm) \<le> window_limit c - TM_requestCount tm"
proof (induction ts arbitrary: tm)
  case Nil
  then show ?case by (simp add: throttle_ok_def)
next
  case (Cons t ts)
  from Cons.prems(1) show ?case
  proof (cases rule: checkThrottle_cases [where t = t])
    case (rejected tm1 e)
    with Cons.IH [of tm1] Cons.prems(2) show ?thesis by auto
  next
    case (grant_count tm1)
    with Cons.IH [of tm1] Cons.prems(2) show ?thesis by auto
  qed
qed

lemma granted_in_interval:
  "throttle_ok c tm \<Longrightarrow> \<forall>t \<in> set ts. a \<le> t \<and> t < a + RLC_WindowSize c \<Longrightarrow>
     int (grant_count ts tm) \<le> window_limit c - TM_requestCount tm + window_limit c"
proof (induction ts arbitrary: tm)
  case Nil
  then show ?case by (simp add: throttle_ok_def)
next
  case (Cons t ts)
  have later: "\<forall>u \<in> set ts. u - TM_windowStart tm1 < RLC_WindowSize c" if "TM_windowStart tm1 = t" for tm1
    using Cons.prems(2) that by fastforce
  have ok: "TM_requestCount tm \<le> window_limit c" using Cons.prems(1) by (simp add: throttle_ok_def)
  from Cons.prems(1) show ?case
  proof (cases rule: checkThrottle_cases [where t = t])
    case (rejected tm1 e)
    from rejected(3) show ?thesis
    proof
      assume "TM_windowStart tm1 = TM_windowStart tm \<and> TM_requestCount tm1 = TM_requestCount tm"
      with Cons.IH [of tm1] Cons.prems(2) rejected show ?thesis by auto
    next
      assume "TM_windowStart tm1 = t \<and> TM_requestCount tm1 = 0 \<and> RLC_WindowSize c \<le> t - TM_windowStart tm"
      with granted_in_window [OF rejected(2) later] rejected(1) ok show ?thesis by simp
    qed
  next
    case (grant_count tm1)
    from grant_count(3) show ?thesis
    proof
      assume "TM_windowStart tm1 = TM_windowStart tm \<and> TM_requestCount tm1 = TM_requestCount tm + 1"
      with Cons.IH [of tm1] Cons.prems(2) grant_count show ?thesis by auto
    next
      assume "TM_windowStart tm1 = t \<and> TM_requestCount tm1 = 1 \<and> RLC_WindowSize c \<le> t - TM_windowStart tm"
      with granted_in_window [OF grant_count(2) later] grant_count(1) ok show ?thesis by simp
    qed
  qed
qed

text \<open>C21: In any interval of the length of a window a throttle grants at most twice the limit of a
  window, whatever requests came before: the windows are not sliding.\<close>

theorem throttle_bounds_grants:
  assumes "NewThrottleManager now c = Ok tm"
    and "\<forall>t \<in> set ts. a \<le> t \<and> t < a + RLC_WindowSize c"
  shows "int (grant_count ts (throttle_after before tm)) \<le> 2 * window_limit c"
proof -
  have ok: "throttle_ok c (throttle_after before tm)"
    by (rule throttle_ok_after [OF throttle_ok_new [OF assms(1)]])
  then have "0 \<le> TM_requestCount (throttle_after before tm)" by (simp add: throttle_ok_def)
  with granted_in_interval [OF ok assms(2)] show ?thesis by linarith
qed

definition demo_limit :: RateLimitConfig where
  "demo_limit = \<lparr>RLC_RequestsPerSecond = 1, RLC_BurstLimit = 2, RLC_WindowSize = 10 * second_ns, RLC_EnableAdaptive = False,
     RLC_BackoffMultiplier = 2, RLC_MaxBackoffTime = second_ns\<rparr>"

lemma demo_max_requests: "max_requests demo_limit = 10"
proof -
  have "round64 10 = 10" using round64_of_nat [of 10] by simp
  then show ?thesis
    by (simp add: max_requests_def demo_limit_def duration_Seconds_def second_ns_def go_quot_def go_rem_def f64_of_int_def
        f64_div_def f64_add_def f64_mul_def f64_trunc_def)
qed

text \<open>The bound is reached: two requests at the end of a window and two at the beginning of the next.\<close>

lemma demo_limit_simps:
  "RLC_BurstLimit demo_limit = 2" "RLC_WindowSize demo_limit = 10000000000" "RLC_EnableAdaptive demo_limit = False"
  by (simp_all add: demo_limit_def second_ns_def)

lemma demo_throttle_new: "\<exists>tm. NewThrottleManager 0 demo_limit = Ok tm"
  by (simp add: NewThrottleManager_def demo_limit_def)

lemma demo_granted:
  assumes "NewThrottleManager 0 demo_limit = Ok tm"
  shows "grant_count [9 * second_ns, 9 * second_ns, 10 * second_ns, 10 * second_ns] tm = 4"
proof -
  have tm: "tm = \<lparr>TM_config = demo_limit, TM_tokens = 2, TM_lastRequest = 0, TM_backoffUntil = 0, TM_requestCount = 0,
      TM_windowStart = 0\<rparr>"
    using assms by (simp add: NewThrottleManager_def demo_limit_simps)
  show ?thesis
    unfolding tm by (simp add: checkThrottle_def Let_def refill_def second_ns_def demo_limit_simps demo_max_requests)
qed

theorem throttle_bounds_grants_witness:
  "\<exists>tm. NewThrottleManager 0 demo_limit = Ok tm \<and>
     int (grant_count [9 * second_ns, 9 * second_ns, 10 * second_ns, 10 * second_ns] (throttle_after [] tm)) = 4 \<and>
     4 \<le> 2 * window_limit demo_limit"
proof -
  obtain tm where tm: "NewThrottleManager 0 demo_limit = Ok tm" using demo_throttle_new ..
  have "int (grant_count [9 * second_ns, 9 * second_ns, 10 * second_ns, 10 * second_ns] (throttle_after [] tm))
      \<le> 2 * window_limit demo_limit"
    by (rule throttle_bounds_grants [OF tm, where a = "9 * second_ns"]) (simp add: demo_limit_def second_ns_def)
  with tm demo_granted [OF tm] show ?thesis by auto
qed

section \<open>When a schedule runs next\<close>

text \<open>The instant at which a local clock shows \<open>h:mi\<close> on a day.\<close>

definition day_time :: "int \<Rightarrow> int \<Rightarrow> int \<Rightarrow> int \<Rightarrow> time" where
  "day_time offset n h mi = (n * 86400 + h * 3600 + mi * 60 - offset) * second_ns"

definition at_clock :: "int \<Rightarrow> int \<Rightarrow> int \<Rightarrow> time \<Rightarrow> bool" where
  "at_clock offset h mi t \<longleftrightarrow> local_second offset t mod 86400 = h * 3600 + mi * 60 \<and> t mod second_ns = 0"

lemma day_time_mono: "n \<le> n' \<Longrightarrow> day_time offset n h mi \<le> day_time offset n' h mi"
  by (simp add: day_time_def second_ns_def)

lemma time_Date_day_time: "time_Date offset y m d h mi 0 0 = day_time offset (day_of_date y m d) h mi"
  by (simp add: time_Date_def day_time_def)

lemma at_clock_day_time: "at_clock offset h mi t \<Longrightarrow> t = day_time offset (local_day offset t) h mi"
proof -
  assume a: "at_clock offset h mi t"
  then have "local_second offset t = local_day offset t * 86400 + (h * 3600 + mi * 60)"
    unfolding at_clock_def local_day_def by (metis div_mult_mod_eq)
  then have "t div second_ns = local_day offset t * 86400 + h * 3600 + mi * 60 - offset" by (simp add: local_second_def)
  moreover have "t = t div second_ns * second_ns" using a div_mult_mod_eq [of t second_ns] by (simp add: at_clock_def)
  ultimately show ?thesis by (simp add: day_time_def)
qed

lemma day_time_clock:
  assumes "0 \<le> h" "h < 24" "0 \<le> mi" "mi < 60"
  shows "at_clock offset h mi (day_time offset n h mi)" "local_day offset (day_time offset n h mi) = n"
proof -
  have s: "local_second offset (day_time offset n h mi) = (h * 3600 + mi * 60) + n * 86400"
    by (simp add: local_second_def day_time_def second_ns_def)
  have r: "0 \<le> h * 3600 + mi * 60" "h * 3600 + mi * 60 < 86400" using assms by linarith+
  show "at_clock offset h mi (day_time offset n h mi)"
    unfolding at_clock_def s using r by (simp add: day_time_def)
  show "local_day offset (day_time offset n h mi) = n"
    unfolding local_day_def s using r by simp
qed

text \<open>A later day comes later, whatever the clock.\<close>

lemma later_day_later: "local_day offset t < n \<Longrightarrow> 0 \<le> h \<Longrightarrow> 0 \<le> mi \<Longrightarrow> t < day_time offset n h mi"
proof -
  assume "local_day offset t < n" "0 \<le> h" "0 \<le> mi"
  then have "(local_day offset t + 1) * 86400 \<le> n * 86400 + h * 3600 + mi * 60" by simp
  moreover have "local_second offset t < (local_day offset t + 1) * 86400"
    using pos_mod_bound [of 86400 "local_second offset t"] div_mult_mod_eq [of "local_second offset t" 86400]
    by (simp add: local_day_def algebra_simps)
  ultimately have "t div second_ns + 1 \<le> n * 86400 + h * 3600 + mi * 60 - offset" by (simp add: local_second_def)
  then have "(t div second_ns + 1) * second_ns \<le> day_time offset n h mi"
    unfolding day_time_def by (intro mult_right_mono) (simp_all add: second_ns_def)
  moreover have "t < (t div second_ns + 1) * second_ns"
    using pos_mod_bound [of second_ns t] div_mult_mod_eq [of t second_ns] by (simp add: second_ns_def algebra_simps)
  ultimately show ?thesis by linarith
qed

lemma local_day_AddDate: "local_day offset (time_AddDate offset now 0 0 i) = local_day offset now + i"
  unfolding add_days by (rule local_day_add)

lemma weekly_candidate_eq:
  "weekly_candidate offset now days h mi i =
     (let n = local_day offset now + i; run = day_time offset n h mi
      in if weekday_of_day n \<in> set days \<and> now < run then Some run else None)"
  by (simp add: weekly_candidate_def Let_def local_day_AddDate time_Date_day_time date_of_day)

lemma first_some_None: "first_some f xs = None \<longleftrightarrow> (\<forall>x \<in> set xs. f x = None)"
  by (induction xs) (auto split: option.splits)

lemma first_some_Some:
  "first_some f xs = Some y \<Longrightarrow> \<exists>us x vs. xs = us @ x # vs \<and> f x = Some y \<and> (\<forall>u \<in> set us. f u = None)"
proof (induction xs)
  case (Cons x xs)
  show ?case
  proof (cases "f x")
    case None
    with Cons obtain us z vs where "xs = us @ z # vs" "f z = Some y" "\<forall>u \<in> set us. f u = None" by auto
    with None have "x # xs = (x # us) @ z # vs" "\<forall>u \<in> set (x # us). f u = None" by simp_all
    with \<open>f z = Some y\<close> show ?thesis by blast
  next
    case (Some y')
    with Cons.prems have "x # xs = [] @ x # xs" "f x = Some y" by simp_all
    then show ?thesis by fastforce
  qed
qed simp

lemma first_some_sorted:
  assumes "first_some f xs = Some y" "sorted_wrt (<) (xs :: int list)"
  obtains x where "x \<in> set xs" "f x = Some y" "\<And>u. u \<in> set xs \<Longrightarrow> u < x \<Longrightarrow> f u = None"
proof -
  obtain us x vs where x: "xs = us @ x # vs" "f x = Some y" "\<forall>u \<in> set us. f u = None"
    using first_some_Some [OF assms(1)] by blast
  have "u \<in> set us" if "u \<in> set xs" "u < x" for u
    using that x(1) assms(2) by (auto simp: sorted_wrt_append)
  then show thesis using that x by auto
qed

lemma upto_week: "set [0 .. 6] = {0 .. (6::int)}" "sorted_wrt (<) [0 .. (6::int)]"
  by (rule set_upto, rule sorted_wrt_upto)

lemma weekly_run_first:
  assumes "SCfg_WeeklySchedule cfg = Some w" and "parse_clock (WS_TimeOfDay w) = Some (h, mi)"
    and "calculateWeeklyNextRun offset now cfg = Ok (Some t)"
  shows "now < t" and "at_clock offset h mi t" and "time_Weekday offset t \<in> set (WS_DaysOfWeek w)"
    and "now < u \<Longrightarrow> at_clock offset h mi u \<Longrightarrow> time_Weekday offset u \<in> set (WS_DaysOfWeek w) \<Longrightarrow> t \<le> u"
proof -
  let ?c = "weekly_candidate offset now (WS_DaysOfWeek w) h mi"
  note range = parse_clock_range [OF assms(2)]
  have "first_some ?c [0 .. 6] = Some t"
    using assms by (auto simp: calculateWeeklyNextRun_def split: if_splits option.splits)
  from first_some_sorted [OF this upto_week(2)] obtain i where i: "i \<in> set [0 .. 6]" "?c i = Some t"
      and first: "\<And>j. j \<in> set [0 .. 6] \<Longrightarrow> j < i \<Longrightarrow> ?c j = None" by blast
  note i = i(1) [unfolded upto_week(1)] i(2) and first = first [unfolded upto_week(1)]
  have t: "t = day_time offset (local_day offset now + i) h mi" "now < t"
      "weekday_of_day (local_day offset now + i) \<in> set (WS_DaysOfWeek w)"
    using i(2) by (auto simp: weekly_candidate_eq Let_def split: if_splits)
  show "now < t" by (rule t(2))
  show "at_clock offset h mi t" unfolding t(1) using range by (simp add: day_time_clock)
  show "time_Weekday offset t \<in> set (WS_DaysOfWeek w)"
    using t(3) range unfolding t(1) time_Weekday_def by (simp add: day_time_clock)
  assume u: "now < u" "at_clock offset h mi u" "time_Weekday offset u \<in> set (WS_DaysOfWeek w)"
  define j where "j = local_day offset u - local_day offset now"
  have uj: "u = day_time offset (local_day offset now + j) h mi" using at_clock_day_time [OF u(2)] by (simp add: j_def)
  have "0 \<le> j" using local_day_mono [OF less_imp_le [OF u(1)], of offset] unfolding j_def by linarith
  have "?c j \<noteq> None" 
  proof -
    have "local_day offset now + j = local_day offset u" by (simp add: j_def)
    then show ?thesis using u(1,3) uj unfolding weekly_candidate_eq Let_def time_Weekday_def by (simp only: if_True) simp
  qed
  have "i \<le> j"
  proof (rule ccontr)
    assume "\<not> i \<le> j"
    with i(1) \<open>0 \<le> j\<close> first [of j] \<open>?c j \<noteq> None\<close> show False by simp
  qed
  then show "t \<le> u" unfolding t(1) uj by (intro day_time_mono) simp
qed


text \<open>A time zone of UTC, and Monday 5 January 2026, 12:00.\<close>

definition demo_noon :: time where
  "demo_noon = time_Date 0 2026 1 5 12 0 0 0"

definition weekly_config :: "int list \<Rightarrow> string \<Rightarrow> ScheduleConfig" where
  "weekly_config days clock =
     \<lparr>SCfg_Type = ScheduleTypeWeekly, SCfg_CronExpression = [], SCfg_Interval = 0, SCfg_RunOnce = None, SCfg_StartDate = None,
      SCfg_EndDate = None, SCfg_MaxRuns = None, SCfg_WeeklySchedule = Some \<lparr>WS_DaysOfWeek = days, WS_TimeOfDay = clock\<rparr>,
      SCfg_MonthlySchedule = None, SCfg_Conditions = []\<rparr>"


text \<open>A schedule of one weekday has no next run on that day once its time has passed: the search looks at seven days and
  so misses the same weekday of the next week, and \<open>calculateNextRun\<close> reports an error.\<close>

theorem weekly_misses_next_week:
  assumes "SCfg_WeeklySchedule cfg = Some w" and "parse_clock (WS_TimeOfDay w) = Some (h, mi)"
    and "WS_DaysOfWeek w \<noteq> []" and "set (WS_DaysOfWeek w) = {time_Weekday offset now}"
    and "day_time offset (local_day offset now) h mi \<le> now"
  shows "calculateWeeklyNextRun offset now cfg = Err NoWeeklyRun"
proof -
  have "weekly_candidate offset now (WS_DaysOfWeek w) h mi i = None" if "i \<in> {0 .. 6}" for i
  proof (cases "i = 0")
    case True
    with assms(5) show ?thesis by (simp add: weekly_candidate_eq Let_def)
  next
    case False
    have "(n + i + 1) mod 7 \<noteq> (n + 1) mod 7" for n :: int
    proof
      assume "(n + i + 1) mod 7 = (n + 1) mod 7"
      then have "7 dvd (n + i + 1) - (n + 1)" by (rule mod_eq_dvd_iff [THEN iffD1])
      with False that zdvd_not_zless [of i 7] show False by simp
    qed
    with assms(4) show ?thesis by (simp add: weekly_candidate_eq Let_def time_Weekday_def weekday_of_day_def)
  qed
  then have "first_some (weekly_candidate offset now (WS_DaysOfWeek w) h mi) [0 .. 6] = None"
    by (simp add: first_some_None)
  with assms show ?thesis by (simp add: calculateWeeklyNextRun_def)
qed

theorem weekly_misses_next_week_witness:
  "calculateWeeklyNextRun 0 demo_noon (weekly_config [1] ''09:30'') = Err NoWeeklyRun"
proof (rule weekly_misses_next_week)
  show "SCfg_WeeklySchedule (weekly_config [1] ''09:30'') = Some \<lparr>WS_DaysOfWeek = [1], WS_TimeOfDay = ''09:30''\<rparr>"
    by (simp add: weekly_config_def)
  show "parse_clock (WS_TimeOfDay \<lparr>WS_DaysOfWeek = [1], WS_TimeOfDay = ''09:30''\<rparr>) = Some (9, 30)" by code_simp
  show "set (WS_DaysOfWeek \<lparr>WS_DaysOfWeek = [1], WS_TimeOfDay = ''09:30''\<rparr>) = {time_Weekday 0 demo_noon}" by code_simp
  show "day_time 0 (local_day 0 demo_noon) 9 30 \<le> demo_noon" by code_simp
qed simp

lemma normalised_day:
  "day_of_date y m d = day_of_date (y + (m - 1) div 12) ((m - 1) mod 12 + 1) d"
  by (simp add: day_of_date_def Let_def)

lemma normalised_next_month:
  "day_of_date y (m + 1) d = day_of_date (y + (m - 1) div 12) ((m - 1) mod 12 + 1 + 1) d"
proof -
  have "m + 1 - 1 = (m - 1) div 12 * 12 + ((m - 1) mod 12 + 1 + 1 - 1)" using div_mult_mod_eq [of "m - 1" 12] by linarith
  then have e: "(m + 1 - 1) div 12 = (m - 1) div 12 + ((m - 1) mod 12 + 1 + 1 - 1) div 12"
    and e2: "(m + 1 - 1) mod 12 = ((m - 1) mod 12 + 1 + 1 - 1) mod 12"
    by (simp_all only: div_mult_self3 mod_mult_self3)
  show ?thesis unfolding day_of_date_def Let_def e e2 by (simp only: add.assoc)
qed

text \<open>Day 0 of a month is the last day of the month before.\<close>

lemma last_day_fields:
  fixes y m
  defines "Y \<equiv> y + (m - 1) div 12" and "M \<equiv> (m - 1) mod 12 + 1"
  shows "day_of_date y (m + 1) 0 = day_of_date y m (days_in_month Y M)"
    and "mday_of_day (day_of_date y (m + 1) 0) = days_in_month Y M" and "28 \<le> days_in_month Y M"
    and "year_of_day (day_of_date y (m + 1) 0) = Y" and "month_of_day (day_of_date y (m + 1) 0) = M"
proof -
  have M: "1 \<le> M" "M \<le> 12" by (simp_all add: M_def)
  show len: "28 \<le> days_in_month Y M"
    using leap_day_range [of Y] by (cases rule: twelve_months [OF M]) (simp_all add: days_in_month_def days_before_month_def)
  have "day_of_date y (m + 1) 0 = day_of_date Y (M + 1) 1 - 1"
    unfolding normalised_next_month [of y m] Y_def M_def by (simp add: day_of_date_shift [of _ _ 0])
  also have "\<dots> = day_of_date Y M (days_in_month Y M)"
    unfolding next_month_start [OF M] by (simp add: day_of_date_shift [of Y M "days_in_month Y M"])
  finally have last: "day_of_date y (m + 1) 0 = day_of_date Y M (days_in_month Y M)" .
  then show "day_of_date y (m + 1) 0 = day_of_date y m (days_in_month Y M)"
    by (simp add: normalised_day [of y m] Y_def M_def)
  have "1 \<le> days_in_month Y M" using len by linarith
  from day_of_date_fields [OF M this order_refl] show
    "mday_of_day (day_of_date y (m + 1) 0) = days_in_month Y M"
    "year_of_day (day_of_date y (m + 1) 0) = Y" "month_of_day (day_of_date y (m + 1) 0) = M"
    unfolding last by simp_all
qed

definition valid_monthday :: "MonthlySchedule \<Rightarrow> bool" where
  "valid_monthday m \<longleftrightarrow> MS_DayOfMonth m = - 1 \<or> 1 \<le> MS_DayOfMonth m"

lemma local_midnight: "local_day offset (time_Date offset y m d 0 0 0 0) = day_of_date y m d"
  by (rule local_day_Date) simp_all

lemma monthly_run_later:
  assumes "SCfg_MonthlySchedule cfg = Some m" and "valid_monthday m" and "calculateMonthlyNextRun offset now cfg = Ok (Some t)"
  shows "now < t"
proof -
  define y mo where "y = year_of_day (local_day offset now)" and "mo = month_of_day (local_day offset now)"
  define d where "d = (if MS_DayOfMonth m = - 1 then days_in_month (y + mo div 12) (mo mod 12 + 1) else MS_DayOfMonth m)"
  obtain h mi where c: "parse_clock (MS_TimeOfDay m) = Some (h, mi)"
    using assms(1,3) by (auto simp: calculateMonthlyNextRun_def split: option.splits)
  note range = parse_clock_range [OF c]
  have "1 \<le> d" using assms(2) last_day_fields(3) [of y "mo + 1"] by (auto simp: d_def valid_monthday_def)
  have second: "mday_of_day (local_day offset (time_Date offset y (mo + 2) 0 0 0 0 0)) = days_in_month (y + mo div 12) (mo mod 12 + 1)"
    using last_day_fields(2) [of y "mo + 1"] by (simp add: local_midnight add.commute)
  have "now < t \<or> t = time_Date offset y (mo + 1) d h mi 0 0"
    using assms(1,3) c second unfolding calculateMonthlyNextRun_def y_def [symmetric] mo_def [symmetric] d_def
    by (auto simp: Let_def split: if_splits)
  moreover have "now < time_Date offset y (mo + 1) d h mi 0 0"
    unfolding time_Date_day_time
  proof (rule later_day_later)
    have "local_day offset now < day_of_date y (mo + 1) 1" unfolding y_def mo_def by (rule month_end)
    then show "local_day offset now < day_of_date y (mo + 1) d"
      using \<open>1 \<le> d\<close> day_of_date_shift [of y "mo + 1" d] by linarith
  qed (use range in simp_all)
  ultimately show ?thesis by auto
qed

text \<open>The next run of a schedule is not in the past, and lies in the future unless the schedule has a fixed interval.\<close>

theorem next_run_in_future:
  assumes "calculateNextRun offset now s = Ok (Some t)"
    and "\<And>cfg m. Sch_Schedule s = Some cfg \<Longrightarrow> SCfg_MonthlySchedule cfg = Some m \<Longrightarrow> valid_monthday m"
  shows "now < t \<or> now = t \<and> (\<exists>cfg. Sch_Schedule s = Some cfg \<and> SCfg_Type cfg = ScheduleTypeInterval)"
proof -
  obtain cfg where cfg: "Sch_Schedule s = Some cfg" using assms(1) by (auto simp: calculateNextRun_def split: option.splits)
  consider "calculateWeeklyNextRun offset now cfg = Ok (Some t)" | "calculateMonthlyNextRun offset now cfg = Ok (Some t)"
    | "now < t" | "now \<le> t" "SCfg_Type cfg = ScheduleTypeInterval"
    using assms(1) cfg by (auto simp: calculateNextRun_def Let_def hour_ns_def second_ns_def split: if_splits option.splits)
  then show ?thesis
  proof cases
    case 1
    then obtain w h mi where "SCfg_WeeklySchedule cfg = Some w" "parse_clock (WS_TimeOfDay w) = Some (h, mi)"
      by (auto simp: calculateWeeklyNextRun_def split: option.splits if_splits)
    from weekly_run_first(1) [OF this 1] show ?thesis ..
  next
    case 2
    then obtain m where m: "SCfg_MonthlySchedule cfg = Some m"
      by (auto simp: calculateMonthlyNextRun_def split: option.splits)
    from monthly_run_later [OF m assms(2) [OF cfg m] 2] show ?thesis ..
  next
    case 4
    then show ?thesis using cfg by auto
  qed simp
qed

definition monthly_config :: "int \<Rightarrow> string \<Rightarrow> ScheduleConfig" where
  "monthly_config day clock =
     (weekly_config [] [])\<lparr>SCfg_Type := ScheduleTypeMonthly, SCfg_WeeklySchedule := None,
       SCfg_MonthlySchedule := Some \<lparr>MS_DayOfMonth = day, MS_TimeOfDay = clock\<rparr>\<rparr>"

definition demo_schedule :: "ScheduleConfig option \<Rightarrow> UnifiedSyncOptions option \<Rightarrow> SyncSchedule" where
  "demo_schedule cfg opts =
     \<lparr>Sch_ID = nil_uuid, Sch_Name = ''nightly'', Sch_Description = [], Sch_DataSourceID = ''ds'', Sch_ConnectorType = ''s3'',
      Sch_SyncOptions = opts, Sch_Schedule = cfg, Sch_IsActive = False, Sch_CreatedAt = 0, Sch_UpdatedAt = 0, Sch_LastRun = None,
      Sch_NextRun = None, Sch_RunCount = 0, Sch_SuccessCount = 0, Sch_FailureCount = 0, Sch_LastResult = None,
      Sch_RetryCount = 0, Sch_MaxRetries = 0, Sch_Timezone = [], Sch_Tags = Map.empty, Sch_NotificationConfig = None\<rparr>"

lemma monthly_config_simps:
  "SCfg_MonthlySchedule (monthly_config d c) = Some \<lparr>MS_DayOfMonth = d, MS_TimeOfDay = c\<rparr>"
  "SCfg_Type (monthly_config d c) = ScheduleTypeMonthly"
  by (simp_all add: monthly_config_def)

lemma demo_last_day:
  "calculateMonthlyNextRun 0 demo_noon (monthly_config (- 1) ''02:15'') = Ok (Some (time_Date 0 2026 1 31 2 15 0 0))"
proof -
  have "year_of_day (local_day 0 demo_noon) = 2026" "month_of_day (local_day 0 demo_noon) = 1" by code_simp+
  moreover have "parse_clock ''02:15'' = Some (2, 15)" by code_simp
  moreover have "mday_of_day (local_day 0 (time_Date 0 2026 2 0 0 0 0 0)) = 31" by code_simp
  moreover have "\<not> time_Date 0 2026 1 31 2 15 0 0 \<le> demo_noon" by code_simp
  ultimately show ?thesis by (simp add: calculateMonthlyNextRun_def monthly_config_simps Let_def)
qed

theorem next_run_in_future_witness:
  "calculateNextRun 0 demo_noon (demo_schedule (Some (monthly_config (- 1) ''02:15'')) None)
     = Ok (Some (time_Date 0 2026 1 31 2 15 0 0)) \<and> demo_noon < time_Date 0 2026 1 31 2 15 0 0"
proof -
  have r: "calculateNextRun 0 demo_noon (demo_schedule (Some (monthly_config (- 1) ''02:15'')) None)
     = Ok (Some (time_Date 0 2026 1 31 2 15 0 0))"
    using demo_last_day by (simp add: calculateNextRun_def demo_schedule_def monthly_config_simps)
  have v: "valid_monthday m" if "Sch_Schedule (demo_schedule (Some (monthly_config (- 1) ''02:15'')) None) = Some cfg"
      "SCfg_MonthlySchedule cfg = Some m" for cfg m
    using that by (auto simp: demo_schedule_def monthly_config_simps valid_monthday_def)
  have no_interval: "SCfg_Type cfg \<noteq> ScheduleTypeInterval"
    if "Sch_Schedule (demo_schedule (Some (monthly_config (- 1) ''02:15'')) None) = Some cfg" for cfg
    using that by (auto simp: demo_schedule_def monthly_config_simps)
  have "demo_noon < time_Date 0 2026 1 31 2 15 0 0"
    by (rule disjE [OF next_run_in_future [OF r v]], assumption, assumption, assumption) (elim conjE exE, drule (1) no_interval [THEN notE])
  with r show ?thesis by (rule conjI)
qed

text \<open>A monthly schedule for the last day runs on the last day of a month.\<close>

theorem last_day_schedule_runs_on_last_day:
  assumes "SCfg_MonthlySchedule cfg = Some m" and "MS_DayOfMonth m = - 1"
    and "parse_clock (MS_TimeOfDay m) = Some (h, mi)" and "calculateMonthlyNextRun offset now cfg = Ok (Some t)"
  shows "at_clock offset h mi t \<and>
    mday_of_day (local_day offset t) = days_in_month (year_of_day (local_day offset t)) (month_of_day (local_day offset t))"
proof -
  define y mo where "y = year_of_day (local_day offset now)" and "mo = month_of_day (local_day offset now)"
  note range = parse_clock_range [OF assms(3)]
  have "t = time_Date offset y mo (mday_of_day (day_of_date y (mo + 1) 0)) h mi 0 0 \<or>
        t = time_Date offset y (mo + 1) (mday_of_day (day_of_date y (mo + 1 + 1) 0)) h mi 0 0"
    using assms unfolding calculateMonthlyNextRun_def y_def [symmetric] mo_def [symmetric]
    by (auto simp: Let_def local_midnight add.assoc split: if_splits)
  then obtain m' where t: "t = day_time offset (day_of_date y (m' + 1) 0) h mi"
    using last_day_fields(1,2) [of y mo] last_day_fields(1,2) [of y "mo + 1"] unfolding time_Date_day_time by metis
  then have "local_day offset t = day_of_date y (m' + 1) 0" and "at_clock offset h mi t"
    using range by (simp_all add: day_time_clock)
  with last_day_fields [of y m'] show ?thesis by simp
qed

theorem last_day_schedule_runs_on_last_day_witness:
  "calculateMonthlyNextRun 0 demo_noon (monthly_config (- 1) ''02:15'') = Ok (Some (time_Date 0 2026 1 31 2 15 0 0)) \<and>
   mday_of_day (local_day 0 (time_Date 0 2026 1 31 2 15 0 0)) = 31"
proof -
  have "days_in_month (year_of_day (local_day 0 (time_Date 0 2026 1 31 2 15 0 0)))
     (month_of_day (local_day 0 (time_Date 0 2026 1 31 2 15 0 0))) = 31" by code_simp
  moreover have "parse_clock ''02:15'' = Some (2, 15)" by code_simp
  ultimately show ?thesis
    using last_day_schedule_runs_on_last_day [OF monthly_config_simps(1) _ _ demo_last_day, of 2 15] demo_last_day by auto
qed

text \<open>The day of a month is not checked against its length: a schedule for day 31 runs on the first of May in place of April.\<close>

lemma day_31_skips_april:
  "calculateMonthlyNextRun 0 (time_Date 0 2026 4 10 12 0 0 0) (monthly_config 31 ''09:30'') = Ok (Some (time_Date 0 2026 5 1 9 30 0 0))"
  by code_simp

section \<open>The cron scheduler\<close>

text \<open>\<open>CronScheduler\<close> keeps entries with callbacks; the scheduler above has a field for one and never sets it.  Every
  entry runs an hour after it was added or last ran, whatever its expression says.\<close>

record 'cb CronEntry =
  CE_ID :: uuid
  CE_Schedule :: string
  CE_NextRun :: time
  CE_Callback :: 'cb

definition AddEntry :: "time \<Rightarrow> uuid \<Rightarrow> string \<Rightarrow> 'cb \<Rightarrow> (uuid \<rightharpoonup> 'cb CronEntry) \<Rightarrow> uuid \<rightharpoonup> 'cb CronEntry" where
  "AddEntry now i schedule callback entries =
     entries(i \<mapsto> \<lparr>CE_ID = i, CE_Schedule = schedule, CE_NextRun = now + hour_ns, CE_Callback = callback\<rparr>)"

definition RemoveEntry :: "uuid \<Rightarrow> (uuid \<rightharpoonup> 'cb CronEntry) \<Rightarrow> uuid \<rightharpoonup> 'cb CronEntry" where
  "RemoveEntry i entries = entries(i := None)"

text \<open>The new entries and the callbacks that are started.\<close>

definition checkAndRunEntries ::
  "time \<Rightarrow> uuid list \<Rightarrow> (uuid \<rightharpoonup> 'cb CronEntry) \<Rightarrow> (uuid \<rightharpoonup> 'cb CronEntry) \<times> 'cb list" where
  "checkAndRunEntries now order entries =
     (\<lambda>i. map_option (\<lambda>e. if i \<in> set order \<and> CE_NextRun e < now then e\<lparr>CE_NextRun := now + hour_ns\<rparr> else e) (entries i),
      map CE_Callback (filter (\<lambda>e. CE_NextRun e < now) (List.map_filter entries order)))"

lemma no_entry_runs_twice_an_hour:
  assumes "checkAndRunEntries now order entries = (entries', started)" and "set order = dom entries" and "now' \<le> now + hour_ns"
    and "\<And>i e. entries i = Some e \<Longrightarrow> CE_NextRun e < now"
  shows "snd (checkAndRunEntries now' order' entries') = []"
proof -
  have "now + hour_ns \<le> CE_NextRun e" if "entries' i = Some e" for i e
    using that assms by (force simp: checkAndRunEntries_def)
  then have "\<forall>e \<in> set (List.map_filter entries' order'). \<not> CE_NextRun e < now'"
    using assms(3) by (fastforce simp: map_filter_def)
  then show ?thesis by (simp add: checkAndRunEntries_def filter_empty_conv)
qed

section \<open>Runs of the scheduler\<close>

definition remove_nth :: "nat \<Rightarrow> 'a list \<Rightarrow> 'a list" where
  "remove_nth i xs = take i xs @ drop (Suc i) xs"

lemma filter_remove_nth:
  "i < length xs \<Longrightarrow> length (filter P xs) = length (filter P (remove_nth i xs)) + (if P (xs ! i) then 1 else 0)"
  by (subst id_take_nth_drop [of i xs]) (simp_all add: remove_nth_def)

lemma set_remove_nth: "set (remove_nth i xs) \<subseteq> set xs"
  by (auto simp: remove_nth_def dest: in_set_takeD in_set_dropD)

definition fresh_job :: "uuid \<Rightarrow> job_ref \<Rightarrow> SyncScheduler \<Rightarrow> bool" where
  "fresh_job new_id jref ss \<longleftrightarrow> SO_jobs (SS_orchestrator ss) jref = None \<and>
     (\<forall>r \<in> ran (SO_jobs (SS_orchestrator ss)). SJ_ID (JR_job r) \<noteq> new_id)"

text \<open>The label of a step tells when the monitor of a manual start is given up.\<close>

datatype sched_event = Abandoned sched_ref | Other_sched

inductive sched_step :: "sched_env \<Rightarrow> sched_event \<Rightarrow> SyncScheduler \<Rightarrow> SyncScheduler \<Rightarrow> bool" for env where
  allocate: "SS_store ss ref = None \<Longrightarrow> sched_step env Other_sched ss (ss\<lparr>SS_store := (SS_store ss)(ref \<mapsto> s)\<rparr>)"
| create: "new_id \<noteq> nil_uuid \<Longrightarrow> sched_step env Other_sched ss (fst (CreateSchedule new_id (SE_offset env) now ref ss))"
| update: "sched_step env Other_sched ss (fst (UpdateSchedule (SE_offset env) now i updates ss))"
| delete: "sched_step env Other_sched ss (DeleteSchedule i ss)"
| trigger: "fresh_job new_id jref ss \<Longrightarrow> sched_step env Other_sched ss (fst (TriggerSchedule env new_id jref now i ss))"
| check: "sched_step env Other_sched ss (fst (CheckThrottle now connectorType ss))"
| tick: "processSchedules (SE_offset env) now order ss = Ok ss' \<Longrightarrow> sched_step env Other_sched ss ss'"
| start: "i < length (SS_pending ss) \<Longrightarrow> fresh_job new_id jref ss \<Longrightarrow>
    executeScheduleAsync env new_id jref now (SS_pending ss ! i) (ss\<lparr>SS_pending := remove_nth i (SS_pending ss)\<rparr>) = (ss', r) \<Longrightarrow>
    r \<noteq> Panic \<Longrightarrow> sched_step env Other_sched ss ss'"
| monitor: "i < length (SS_monitors ss) \<Longrightarrow> monitorScheduleJob now (SS_monitors ss ! i) ss = (ss', going) \<Longrightarrow>
    sched_step env Other_sched ss (if going then ss' else ss'\<lparr>SS_monitors := remove_nth i (SS_monitors ss')\<rparr>)"
| abandon: "i < length (SS_monitors ss) \<Longrightarrow> Mon_manual (SS_monitors ss ! i) \<Longrightarrow>
    sched_step env (Abandoned (Mon_schedule (SS_monitors ss ! i))) ss (ss\<lparr>SS_monitors := remove_nth i (SS_monitors ss)\<rparr>)"
| job: "sync_step (SE_connector env) e (SS_orchestrator ss) o' \<Longrightarrow> sched_step env Other_sched ss (ss\<lparr>SS_orchestrator := o'\<rparr>)"

inductive sched_run :: "sched_env \<Rightarrow> SyncScheduler \<Rightarrow> sched_event list \<Rightarrow> SyncScheduler \<Rightarrow> bool" for env ss where
  begin_run: "sched_run env ss [] ss"
| next_step: "sched_run env ss es t \<Longrightarrow> sched_step env e t u \<Longrightarrow> sched_run env ss (es @ [e]) u"

section \<open>The counters of a schedule\<close>

text \<open>Runs started less runs ended, and the monitors that wait for the end of a run.\<close>

definition open_runs :: "SyncSchedule \<Rightarrow> int" where
  "open_runs s = Sch_RunCount s - Sch_SuccessCount s - Sch_FailureCount s"

definition monitors_of :: "sched_ref \<Rightarrow> SyncScheduler \<Rightarrow> int" where
  "monitors_of ref ss = int (length (filter (\<lambda>m. Mon_schedule m = ref) (SS_monitors ss)))"

definition balance :: "sched_ref \<Rightarrow> SyncScheduler \<Rightarrow> int option" where
  "balance ref ss = map_option (\<lambda>s. open_runs s - monitors_of ref ss) (SS_store ss ref)"

lemma balance_upd [simp]:
  "(\<And>s. open_runs (f s) = open_runs s) \<Longrightarrow> balance ref (upd_sched r f ss) = balance ref ss"
  by (simp add: balance_def upd_sched_def monitors_of_def option.map_comp comp_def)

lemma balance_fields [simp]:
  "balance ref (ss\<lparr>SS_orchestrator := o'\<rparr>) = balance ref ss" "balance ref (ss\<lparr>SS_throttlers := th\<rparr>) = balance ref ss"
  "balance ref (ss\<lparr>SS_schedules := m\<rparr>) = balance ref ss" "balance ref (ss\<lparr>SS_pending := p\<rparr>) = balance ref ss"
  "balance ref (ss\<lparr>SS_notices := n\<rparr>) = balance ref ss"
  by (simp_all add: balance_def monitors_of_def)

lemma balance_record [simp]: "balance ref (recordScheduleResult r j t now st m e ss) = balance ref ss"
  unfolding recordScheduleResult_def by (rule balance_upd) (simp add: open_runs_def)

lemma balance_fill [simp]: "balance ref (upd_sched r fill_options ss) = balance ref ss"
  by (rule balance_upd) (auto simp: open_runs_def fill_options_def split: outcome.split)

lemma balance_notify [simp]: "balance ref (sendNotification r st ss) = balance ref ss"
  by (simp add: sendNotification_def split: option.split)

lemma balance_throttle: "CheckThrottle now c ss = (ss', e) \<Longrightarrow> balance ref ss' = balance ref ss"
  by (auto simp: CheckThrottle_def Let_def split: if_splits option.splits prod.splits)

lemma open_runs_started: "open_runs (mark_started offset now manual s) = open_runs s + 1"
  by (auto simp: mark_started_def open_runs_def Let_def split: outcome.split)

lemma open_runs_failure: "open_runs (handleScheduleFailure offset now cfg s) = open_runs s"
  by (auto simp: handleScheduleFailure_def open_runs_def Let_def split: outcome.split)

text \<open>A started run is one more on both sides.\<close>

lemma balance_start:
  assumes "ms = SS_monitors ss @ [m]" and "Mon_schedule m = r"
  shows "balance ref ((upd_sched r (mark_started offset now manual) ss)\<lparr>SS_monitors := ms\<rparr>) = balance ref ss"
  using assms by (cases "SS_store ss ref") (auto simp: balance_def upd_sched_def monitors_of_def open_runs_started)

lemma SS_monitors_upd [simp]:
  "SS_monitors (upd_sched r f ss) = SS_monitors ss" "SS_monitors (recordScheduleResult r j t now st m e ss) = SS_monitors ss"
  by (simp_all add: upd_sched_def recordScheduleResult_def)

lemma monitors_record:
  "(recordScheduleResult r j t now st m e ss)\<lparr>SS_monitors := ms\<rparr> = recordScheduleResult r j t now st m e (ss\<lparr>SS_monitors := ms\<rparr>)"
  by (simp add: recordScheduleResult_def upd_sched_def)

lemma balance_execute:
  assumes "executeSchedule env new_id jref now r manual ss = (ss', res)"
  shows "balance ref ss' = balance ref ss"
proof (cases "SS_store ss r")
  case None
  with assms show ?thesis by (simp add: executeSchedule_def)
next
  case (Some s)
  obtain ss1 e where c: "CheckThrottle now (Sch_ConnectorType s) ss = (ss1, e)" by fastforce
  obtain o' st where o: "StartSync (SE_connector env) new_id jref now (schedule_request s) (SS_orchestrator ss1) = (o', st)"
    by fastforce
  have b: "balance ref ss1 = balance ref ss" by (rule balance_throttle [OF c])
  show ?thesis
    using assms Some c o
    by (cases e; cases st) (auto simp: executeSchedule_def Let_def monitors_record b balance_start)
qed

lemma balance_store:
  "SS_store ss r = Some s \<Longrightarrow> open_runs s' = open_runs s \<Longrightarrow>
     balance ref (ss\<lparr>SS_store := (SS_store ss)(r \<mapsto> s')\<rparr>) = balance ref ss"
  "SS_store ss r = Some s \<Longrightarrow> open_runs s' = open_runs s \<Longrightarrow> balance ref (upd_sched r (\<lambda>_. s') ss) = balance ref ss"
  by (simp_all add: balance_def monitors_of_def upd_sched_def)

lemma open_runs_updates [simp]:
  "open_runs (s\<lparr>Sch_NextRun := a\<rparr>) = open_runs s" "open_runs (with_defaults i now cfg s) = open_runs s"
  "open_runs (s\<lparr>Sch_NotificationConfig := c\<rparr>) = open_runs s" "open_runs (s\<lparr>Sch_UpdatedAt := now\<rparr>) = open_runs s"
  "open_runs (s\<lparr>Sch_Schedule := d\<rparr>) = open_runs s" "open_runs (s\<lparr>Sch_SyncOptions := o'\<rparr>) = open_runs s"
  "open_runs (s\<lparr>Sch_Name := n\<rparr>) = open_runs s" "open_runs (s\<lparr>Sch_Description := n\<rparr>) = open_runs s"
  by (simp_all add: open_runs_def with_defaults_def)

lemma balance_create: "balance ref (fst (CreateSchedule new_id offset now r ss)) = balance ref ss"
proof (cases "SS_store ss r")
  case (Some s)
  let ?s = "with_defaults new_id now (SS_config ss) s"
  have "balance ref (ss\<lparr>SS_store := (SS_store ss)(r \<mapsto> ?s\<lparr>Sch_NextRun := run\<rparr>), SS_schedules := m\<rparr>) = balance ref ss" for run m
    using balance_store(1) [OF Some, of "?s\<lparr>Sch_NextRun := run\<rparr>" ref] by (simp add: balance_def monitors_of_def)
  with balance_store(1) [OF Some, of ?s ref] Some show ?thesis
    by (simp add: CreateSchedule_def Let_def split: outcome.split)
qed (simp add: CreateSchedule_def)

text \<open>An update keeps the identity of a schedule.\<close>

definition keeps_identity :: "SyncSchedule \<Rightarrow> SyncSchedule \<Rightarrow> bool" where
  "keeps_identity s s' \<longleftrightarrow> Sch_ID s' = Sch_ID s \<and> (Sch_Schedule s \<noteq> None \<longrightarrow> Sch_Schedule s' \<noteq> None)"

lemma UpdateSchedule_forms:
  "fst (UpdateSchedule offset now i updates ss) = ss \<or>
   (\<exists>r s s'. SS_schedules ss i = Some r \<and> SS_store ss r = Some s \<and> keeps_identity s s' \<and> open_runs s' = open_runs s \<and>
      fst (UpdateSchedule offset now i updates ss) = upd_sched r (\<lambda>_. s') ss)"
proof (cases "\<exists>r s. SS_schedules ss i = Some r \<and> SS_store ss r = Some s")
  case True
  then obtain r s where r: "SS_schedules ss i = Some r" and s: "SS_store ss r = Some s" by blast
  define s1 s2 s3 s4 where "s1 = (if Sch_Name updates = [] then s else s\<lparr>Sch_Name := Sch_Name updates\<rparr>)"
    and "s2 = (if Sch_Description updates = [] then s1 else s1\<lparr>Sch_Description := Sch_Description updates\<rparr>)"
    and "s3 = (if Sch_SyncOptions updates = None then s2 else s2\<lparr>Sch_SyncOptions := Sch_SyncOptions updates\<rparr>)"
    and "s4 = s3\<lparr>Sch_Schedule := Sch_Schedule updates\<rparr>"
  define finish where "finish t = (if Sch_NotificationConfig updates = None then t
      else t\<lparr>Sch_NotificationConfig := Sch_NotificationConfig updates\<rparr>)\<lparr>Sch_UpdatedAt := now\<rparr>" for t :: SyncSchedule
  have k: "keeps_identity s (finish s3)"
    "Sch_Schedule updates \<noteq> None \<Longrightarrow> keeps_identity s s4"
    "Sch_Schedule updates \<noteq> None \<Longrightarrow> keeps_identity s (finish (s4\<lparr>Sch_NextRun := run\<rparr>))" for run
    by (simp_all add: keeps_identity_def finish_def s4_def s3_def s2_def s1_def)
  have runs: "open_runs (finish s3) = open_runs s" "open_runs s4 = open_runs s" "open_runs (finish (s4\<lparr>Sch_NextRun := run\<rparr>)) = open_runs s" for run
    by (simp_all add: s1_def s2_def s3_def s4_def finish_def)
  have "fst (UpdateSchedule offset now i updates ss) =
      (if Sch_Schedule updates = None then upd_sched r (\<lambda>_. finish s3) ss
       else case calculateNextRun offset now s4 of
              Ok run \<Rightarrow> upd_sched r (\<lambda>_. finish (s4\<lparr>Sch_NextRun := run\<rparr>)) ss | _ \<Rightarrow> upd_sched r (\<lambda>_. s4) ss)"
    by (simp only: UpdateSchedule_def r s option.case Let_def s1_def [symmetric] s2_def [symmetric] s3_def [symmetric]
        s4_def [symmetric] finish_def [symmetric] fst_conv split: outcome.split if_split) auto
  with k runs r s show ?thesis by (cases "Sch_Schedule updates = None"; cases "calculateNextRun offset now s4") auto
next
  case False
  then show ?thesis by (cases "SS_schedules ss i"; cases "SS_store ss (the (SS_schedules ss i))") (auto simp: UpdateSchedule_def)
qed

lemma balance_update: "balance ref (fst (UpdateSchedule offset now i updates ss)) = balance ref ss"
  using UpdateSchedule_forms [of offset now i updates ss] by (auto intro: balance_store(2))

lemma balance_due: "due_schedules offset now ids ss = Ok (ss', refs) \<Longrightarrow> balance ref ss' = balance ref ss"
proof (induction ids arbitrary: ss refs)
  case (Cons i ids)
  then show ?case
    by (fastforce simp: bind_outcome_iffs split: option.splits if_splits)
qed simp

lemma monitors_notify:
  "(sendNotification r st ss)\<lparr>SS_monitors := ms\<rparr> = sendNotification r st (ss\<lparr>SS_monitors := ms\<rparr>)"
  "SS_monitors (sendNotification r st ss) = SS_monitors ss"
  by (simp_all add: sendNotification_def split: option.split)

lemma balance_end:
  assumes "i < length (SS_monitors ss)" and "Mon_schedule (SS_monitors ss ! i) = r" and "\<And>s. open_runs (f s) = open_runs s - 1"
    and "ms = remove_nth i (SS_monitors ss)"
  shows "balance ref ((upd_sched r f ss)\<lparr>SS_monitors := ms\<rparr>) = balance ref ss"
  using assms filter_remove_nth [OF assms(1), of "\<lambda>m. Mon_schedule m = ref"]
  by (cases "SS_store ss ref") (auto simp: balance_def upd_sched_def monitors_of_def)

lemma balance_monitor:
  assumes "i < length (SS_monitors ss)" and "monitorScheduleJob now (SS_monitors ss ! i) ss = (ss', going)"
  shows "balance ref (if going then ss' else ss'\<lparr>SS_monitors := remove_nth i (SS_monitors ss')\<rparr>) = balance ref ss"
proof (cases "SO_jobs (SS_orchestrator ss) (Mon_job (SS_monitors ss ! i))")
  case None
  with assms(2) show ?thesis by (auto simp: monitorScheduleJob_def)
next
  case (Some r)
  define r' where "r' = map_status (GetStatus now) r"
  show ?thesis
    using assms Some unfolding monitorScheduleJob_def r'_def [symmetric]
    by (auto simp: Let_def monitors_notify monitors_record open_runs_def intro!: balance_end [THEN trans] split: if_splits)
qed

lemma sched_step_balance:
  "sched_step env e ss ss' \<Longrightarrow> balance ref ss = Some b \<Longrightarrow> balance ref ss' = Some (b + (if e = Abandoned ref then 1 else 0))"
proof (induction rule: sched_step.induct)
  case (allocate ss r s)
  then show ?case by (auto simp: balance_def monitors_of_def)
next
  case (trigger new_id jref ss now i)
  show ?case
  proof (cases "SS_schedules ss i")
    case (Some r)
    from balance_execute [OF prod.collapse [symmetric]] trigger show ?thesis by (simp add: TriggerSchedule_def Some)
  qed (simp add: TriggerSchedule_def trigger)
next
  case (start i ss new_id jref now ss' r)
  let ?ss = "ss\<lparr>SS_pending := remove_nth i (SS_pending ss)\<rparr>"
  obtain t res where e: "executeSchedule env new_id jref now (SS_pending ss ! i) False ?ss = (t, res)" by fastforce
  have "balance ref t = Some b" using balance_execute [OF e] start by simp
  with e start(3) show ?case
    by (auto simp: executeScheduleAsync_def open_runs_failure split: outcome.splits)
next
  case (abandon i ss)
  then show ?case
    using filter_remove_nth [OF abandon(1), of "\<lambda>m. Mon_schedule m = ref"] by (auto simp: balance_def monitors_of_def)
next
  case (tick now order ss ss')
  then show ?case by (auto simp: processSchedules_def bind_outcome_iffs dest!: balance_due [where ref = ref])
next
  case (monitor i ss now ss' going)
  with balance_monitor [OF monitor(1,2)] show ?case by simp
next
  case (check ss now c)
  then show ?case using balance_throttle [OF prod.collapse [symmetric]] by simp
qed (simp_all add: balance_create balance_update DeleteSchedule_def)

text \<open>C20: Every started run of a schedule is counted as a success or a failure, is still waited for, or was
  started by hand and given up with the request that started it.\<close>

theorem runs_accounted:
  assumes "sched_run env ss es ss'" and "SS_store ss ref = Some s"
  shows "\<exists>s'. SS_store ss' ref = Some s' \<and>
    open_runs s' - monitors_of ref ss' = open_runs s - monitors_of ref ss + int (count_list es (Abandoned ref))"
proof -
  have "balance ref ss' = Some (open_runs s - monitors_of ref ss + int (count_list es (Abandoned ref)))"
    using assms(1)
  proof induction
    case begin_run
    then show ?case using assms(2) by (simp add: balance_def)
  next
    case (next_step es t e u)
    from sched_step_balance [OF next_step.hyps(2) next_step.IH] show ?case by simp
  qed
  then show ?thesis by (auto simp: balance_def)
qed

section \<open>Registered schedules\<close>

text \<open>A registered schedule exists, has a configuration, and is registered under its identifier.\<close>

definition sched_inv :: "SyncScheduler \<Rightarrow> bool" where
  "sched_inv ss \<longleftrightarrow> (\<forall>i ref. SS_schedules ss i = Some ref \<longrightarrow>
     i \<noteq> nil_uuid \<and> (\<exists>s. SS_store ss ref = Some s \<and> Sch_Schedule s \<noteq> None \<and> Sch_ID s = i))"

lemma sched_invE:
  assumes "sched_inv ss" and "SS_schedules ss i = Some ref"
  obtains s cfg where "i \<noteq> nil_uuid" "SS_store ss ref = Some s" "Sch_Schedule s = Some cfg" "Sch_ID s = i"
  using assms unfolding sched_inv_def by blast

lemma sched_inv_store:
  assumes "sched_inv ss" and "SS_schedules ss' = SS_schedules ss"
    and "\<And>ref s. SS_store ss ref = Some s \<Longrightarrow>
      \<exists>s'. SS_store ss' ref = Some s' \<and> (Sch_ID s \<noteq> nil_uuid \<longrightarrow> keeps_identity s s')"
  shows "sched_inv ss'"
  unfolding sched_inv_def
proof (intro allI impI)
  fix i ref
  assume "SS_schedules ss' i = Some ref"
  with assms(1,2) obtain s where "i \<noteq> nil_uuid" "SS_store ss ref = Some s" "Sch_Schedule s \<noteq> None" "Sch_ID s = i"
    unfolding sched_inv_def by metis
  with assms(3) show "i \<noteq> nil_uuid \<and> (\<exists>s. SS_store ss' ref = Some s \<and> Sch_Schedule s \<noteq> None \<and> Sch_ID s = i)"
    unfolding keeps_identity_def by metis
qed

lemma keeps_refl [simp]: "keeps_identity s s"
  by (simp add: keeps_identity_def)

lemma sched_inv_upd:
  "sched_inv ss \<Longrightarrow> (\<And>s. keeps_identity s (f s)) \<Longrightarrow> sched_inv (upd_sched r f ss)"
  by (erule sched_inv_store) (auto simp: upd_sched_def)

lemma sched_inv_other [simp]:
  "sched_inv (ss\<lparr>SS_orchestrator := o'\<rparr>) = sched_inv ss" "sched_inv (ss\<lparr>SS_throttlers := th\<rparr>) = sched_inv ss"
  "sched_inv (ss\<lparr>SS_pending := p\<rparr>) = sched_inv ss" "sched_inv (ss\<lparr>SS_notices := n\<rparr>) = sched_inv ss"
  "sched_inv (ss\<lparr>SS_monitors := ms\<rparr>) = sched_inv ss"
  by (simp_all add: sched_inv_def)

lemma keeps_changes [simp]:
  "keeps_identity s (fill_options s)" "keeps_identity s (mark_started offset now manual s)"
  "keeps_identity s (handleScheduleFailure offset now cfg s)" "keeps_identity s (s\<lparr>Sch_LastResult := lr\<rparr>)"
  "keeps_identity s (s\<lparr>Sch_NextRun := run\<rparr>)" "keeps_identity s (s\<lparr>Sch_SuccessCount := a, Sch_RetryCount := b\<rparr>)"
  "keeps_identity s (s\<lparr>Sch_FailureCount := a\<rparr>)"
  by (auto simp: keeps_identity_def fill_options_def mark_started_def handleScheduleFailure_def Let_def split: outcome.split)

lemma sched_inv_record: "sched_inv ss \<Longrightarrow> sched_inv (recordScheduleResult r j t now st m e ss)"
  unfolding recordScheduleResult_def by (erule sched_inv_upd) simp

lemma sched_inv_notify [simp]: "sched_inv (sendNotification r st ss) = sched_inv ss"
  by (simp add: sendNotification_def split: option.split)

lemma sched_inv_throttle: "CheckThrottle now c ss = (ss', e) \<Longrightarrow> sched_inv ss \<Longrightarrow> sched_inv ss'"
  by (auto simp: CheckThrottle_def Let_def split: if_splits option.splits prod.splits)

lemma sched_inv_execute:
  assumes "executeSchedule env new_id jref now r manual ss = (ss', res)" and "sched_inv ss"
  shows "sched_inv ss'"
proof (cases "SS_store ss r")
  case None
  with assms show ?thesis by (simp add: executeSchedule_def)
next
  case (Some s)
  obtain ss1 e where c: "CheckThrottle now (Sch_ConnectorType s) ss = (ss1, e)" by fastforce
  obtain o' st where o: "StartSync (SE_connector env) new_id jref now (schedule_request s) (SS_orchestrator ss1) = (o', st)"
    by fastforce
  have "sched_inv ss1" by (rule sched_inv_throttle [OF c assms(2)])
  then show ?thesis
    using assms(1) Some c o
    by (cases e; cases st) (auto simp: executeSchedule_def Let_def intro!: sched_inv_record sched_inv_upd)
qed

lemma calculateNextRun_config: "calculateNextRun offset now s = Ok run \<Longrightarrow> Sch_Schedule s \<noteq> None"
  by (cases "Sch_Schedule s") (simp_all add: calculateNextRun_def)

lemma sched_inv_create:
  assumes "sched_inv ss" and "new_id \<noteq> nil_uuid"
  shows "sched_inv (fst (CreateSchedule new_id offset now r ss))"
proof (cases "SS_store ss r")
  case None
  with assms show ?thesis by (simp add: CreateSchedule_def)
next
  case (Some s0)
  define s where "s = with_defaults new_id now (SS_config ss) s0"
  have id: "Sch_ID s \<noteq> nil_uuid" "Sch_Schedule s = Sch_Schedule s0" "Sch_ID s0 \<noteq> nil_uuid \<Longrightarrow> Sch_ID s = Sch_ID s0"
    using assms(2) by (auto simp: s_def with_defaults_def)
  have failed: "sched_inv (ss\<lparr>SS_store := (SS_store ss)(r \<mapsto> s)\<rparr>)"
  proof (rule sched_inv_store [OF assms(1)])
    show "\<exists>u. SS_store (ss\<lparr>SS_store := (SS_store ss)(r \<mapsto> s)\<rparr>) ref = Some u \<and> (Sch_ID t \<noteq> nil_uuid \<longrightarrow> keeps_identity t u)"
      if "SS_store ss ref = Some t" for ref t
      using that Some id by (cases "ref = r") (auto simp: keeps_identity_def)
  qed simp
  have registered: "sched_inv (ss\<lparr>SS_store := (SS_store ss)(r \<mapsto> s\<lparr>Sch_NextRun := run\<rparr>), SS_schedules := (SS_schedules ss)(Sch_ID s \<mapsto> r)\<rparr>)"
    if "Sch_Schedule s \<noteq> None" for run
    unfolding sched_inv_def
  proof (intro allI impI)
    fix i ref
    assume a: "SS_schedules (ss\<lparr>SS_store := (SS_store ss)(r \<mapsto> s\<lparr>Sch_NextRun := run\<rparr>), SS_schedules := (SS_schedules ss)(Sch_ID s \<mapsto> r)\<rparr>) i = Some ref"
    show "i \<noteq> nil_uuid \<and> (\<exists>t. SS_store (ss\<lparr>SS_store := (SS_store ss)(r \<mapsto> s\<lparr>Sch_NextRun := run\<rparr>),
        SS_schedules := (SS_schedules ss)(Sch_ID s \<mapsto> r)\<rparr>) ref = Some t \<and> Sch_Schedule t \<noteq> None \<and> Sch_ID t = i)"
    proof (cases "i = Sch_ID s")
      case True
      with a id(1) that show ?thesis by simp
    next
      case False
      with a have "SS_schedules ss i = Some ref" by simp
      with assms(1) obtain t cfg where t: "i \<noteq> nil_uuid" "SS_store ss ref = Some t" "Sch_Schedule t = Some cfg" "Sch_ID t = i"
        by (metis sched_invE)
      with Some id False have "ref \<noteq> r" by auto
      with t show ?thesis by simp
    qed
  qed
  show ?thesis
    using failed registered calculateNextRun_config [of offset now s]
    by (auto simp: CreateSchedule_def Some s_def [symmetric] Let_def split: outcome.split)
qed

lemma sched_inv_update: "sched_inv ss \<Longrightarrow> sched_inv (fst (UpdateSchedule offset now i updates ss))"
  using UpdateSchedule_forms [of offset now i updates ss] by (auto simp: upd_sched_def intro!: sched_inv_store [of ss])

lemma sched_inv_due: "due_schedules offset now ids ss = Ok (ss', refs) \<Longrightarrow> sched_inv ss \<Longrightarrow> sched_inv ss'"
proof (induction ids arbitrary: ss refs)
  case (Cons i ids)
  then show ?case
    by (fastforce simp: bind_outcome_iffs sched_inv_upd split: option.splits if_splits)
qed simp

lemma sched_inv_monitor: "monitorScheduleJob now m ss = (ss', going) \<Longrightarrow> sched_inv ss \<Longrightarrow> sched_inv ss'"
  unfolding monitorScheduleJob_def Let_def
  by (auto split: option.splits if_splits intro!: sched_inv_record sched_inv_upd)

lemma sched_inv_step: "sched_step env e ss ss' \<Longrightarrow> sched_inv ss \<Longrightarrow> sched_inv ss'"
proof (induction rule: sched_step.induct)
  case (allocate ss r s)
  then show ?case by (auto intro!: sched_inv_store [of ss])
next
  case (trigger new_id jref ss now i)
  then show ?case
    using sched_inv_execute [OF prod.collapse [symmetric]] by (simp add: TriggerSchedule_def split: option.split)
next
  case (start i ss new_id jref now ss' r)
  let ?ss = "ss\<lparr>SS_pending := remove_nth i (SS_pending ss)\<rparr>"
  obtain t res where e: "executeSchedule env new_id jref now (SS_pending ss ! i) False ?ss = (t, res)" by fastforce
  have "sched_inv t" using sched_inv_execute [OF e] start by simp
  with e start(3) show ?case
    by (auto simp: executeScheduleAsync_def split: outcome.splits intro!: sched_inv_upd)
next
  case (tick now order ss ss')
  then show ?case by (auto simp: processSchedules_def bind_outcome_iffs dest!: sched_inv_due)
next
  case (monitor i ss now ss' going)
  with sched_inv_monitor [OF monitor(2)] show ?case by simp
next
  case (check ss now c)
  then show ?case using sched_inv_throttle [OF prod.collapse [symmetric]] by simp
next
  case (delete ss i)
  then show ?case by (auto simp: sched_inv_def DeleteSchedule_def)
qed (simp_all add: sched_inv_create sched_inv_update)

lemma sched_inv_run: "sched_run env ss es ss' \<Longrightarrow> sched_inv ss \<Longrightarrow> sched_inv ss'"
  by (induction rule: sched_run.induct) (auto intro: sched_inv_step)

lemma sched_inv_new: "NewSyncScheduler now o' config = Ok ss \<Longrightarrow> sched_inv ss"
  by (auto simp: NewSyncScheduler_def Let_def bind_outcome_iffs sched_inv_def split: if_splits)

section \<open>A tick of the scheduler\<close>

definition is_due :: "time \<Rightarrow> SyncSchedule \<Rightarrow> bool" where
  "is_due now s \<longleftrightarrow> Sch_IsActive s \<and> (case Sch_NextRun s of None \<Rightarrow> False | Some t \<Rightarrow> t \<le> now)"

definition due_refs :: "time \<Rightarrow> uuid list \<Rightarrow> SyncScheduler \<Rightarrow> sched_ref list" where
  "due_refs now order ss =
     filter (\<lambda>ref. is_due now (the (SS_store ss ref))) (List.map_filter (SS_schedules ss) order)"

lemma due_schedules_eq: "sched_inv ss \<Longrightarrow> due_schedules offset now order ss = Ok (ss, due_refs now order ss)"
proof (induction order)
  case Nil
  then show ?case by (simp add: due_refs_def map_filter_simps)
next
  case (Cons i ids)
  show ?case
  proof (cases "SS_schedules ss i")
    case None
    with Cons show ?thesis by (simp add: due_refs_def map_filter_simps)
  next
    case (Some ref)
    with Cons.prems obtain s cfg where s: "SS_store ss ref = Some s" "Sch_Schedule s = Some cfg" by (metis sched_invE)
    have "checkScheduleConditions cfg s"
      by (simp add: checkScheduleConditions_def evaluateCondition_def list_all_iff)
    with Cons Some s show ?thesis
      by (auto simp: due_refs_def map_filter_simps is_due_def not_le split: option.split)
  qed
qed

text \<open>C22: In every state that a run reaches, a tick does not panic and queues exactly the due schedules; it
  changes nothing else, in particular not the time of their next run.\<close>

theorem tick_queues_due:
  assumes "NewSyncScheduler now0 o' config = Ok ss0" and "sched_run env ss0 es ss"
  shows "processSchedules offset now order ss = Ok (ss\<lparr>SS_pending := SS_pending ss @ due_refs now order ss\<rparr>)"
  using due_schedules_eq [OF sched_inv_run [OF assms(2) sched_inv_new [OF assms(1)]]]
  by (simp add: processSchedules_def)

section \<open>Listing, and operations that panic\<close>

lemma runs_before_weak: "strict_weak runs_before"
  unfolding strict_weak_def runs_before_def by (auto split: option.splits)

text \<open>A list of the schedules has each registered schedule that the filters let through, and no schedule comes
  before one that runs earlier; schedules without a next run come last.\<close>

theorem listing_complete_and_sorted:
  assumes "NewSyncScheduler now0 o' config = Ok ss0" and "sched_run env ss0 es ss"
    and "weak_slice_sort sort_slice" and "set order = dom (SS_schedules ss)"
  shows "set (ListSchedules sort_slice order filters ss) =
      {s. \<exists>i ref. SS_schedules ss i = Some ref \<and> SS_store ss ref = Some s \<and> schedule_matches filters s} \<and>
    sorted_wrt (\<lambda>s t. \<not> runs_before t s) (ListSchedules sort_slice order filters ss)"
proof
  have inv: "sched_inv ss" by (rule sched_inv_run [OF assms(2) sched_inv_new [OF assms(1)]])
  have sorts: "slice_sort sort_slice" using assms(3) by (rule weak_slice_sort.axioms)
  have store: "SS_schedules ss i = Some ref \<Longrightarrow> SS_store ss ref = Some (the (SS_store ss ref))" for i ref
    by (erule sched_invE [OF inv]) simp
  have "set (ListSchedules sort_slice order filters ss) =
      {s. \<exists>i \<in> set order. \<exists>ref. SS_schedules ss i = Some ref \<and> s = the (SS_store ss ref) \<and> schedule_matches filters s}"
    unfolding ListSchedules_def slice_sort.set_sorted [OF sorts] by (auto simp: map_filter_def intro!: rev_image_eqI; blast)
  also have "\<dots> = {s. \<exists>i ref. SS_schedules ss i = Some ref \<and> SS_store ss ref = Some s \<and> schedule_matches filters s}"
    using store unfolding assms(4) by (metis (no_types, opaque_lifting) domI option.sel)
  finally show "set (ListSchedules sort_slice order filters ss) = \<dots>" .
  show "sorted_wrt (\<lambda>s t. \<not> runs_before t s) (ListSchedules sort_slice order filters ss)"
    unfolding ListSchedules_def by (rule weak_slice_sort.weakly_ordered [OF assms(3) runs_before_weak])
qed

text \<open>A one-time schedule that is already over is registered, and then the call panics.\<close>

theorem passed_schedule_panics:
  assumes "SS_store ss ref = Some s" and "Sch_Schedule s = Some cfg" and "SCfg_Type cfg = ScheduleTypeOnce"
    and "SCfg_RunOnce cfg = Some t" and "t \<le> now" and "Sch_ID s \<noteq> nil_uuid"
  shows "snd (CreateSchedule new_id offset now ref ss) = Panic \<and>
    SS_schedules (fst (CreateSchedule new_id offset now ref ss)) (Sch_ID s) = Some ref"
  using assms by (simp add: CreateSchedule_def Let_def calculateNextRun_def with_defaults_def)

text \<open>The options of a schedule are not checked when it is created; when it is due, the goroutine that
  starts its job panics, which ends the program.\<close>

theorem schedule_without_options_panics:
  assumes "SS_store ss ref = Some s" and "Sch_SyncOptions s = None" and "snd (CheckThrottle now (Sch_ConnectorType s) ss) = None"
  shows "snd (executeScheduleAsync env new_id jref now ref ss) = Panic"
proof -
  obtain ss1 where "CheckThrottle now (Sch_ConnectorType s) ss = (ss1, None)" using assms(3) by (metis prod.collapse)
  with assms(1,2) show ?thesis
    by (simp add: executeScheduleAsync_def executeSchedule_def StartSync_def admit_sync_def schedule_request_def)
qed

text \<open>A tick does not change the next run of the schedules that it queues, so a tick that comes before
  the goroutine of a due schedule has started its job queues the schedule again.\<close>

theorem due_schedule_queued_again:
  assumes "NewSyncScheduler now0 o' config = Ok ss0" and "sched_run env ss0 es ss"
    and "processSchedules offset now order ss = Ok ss1" and "processSchedules offset now' order ss1 = Ok ss2"
    and "ref \<in> set (due_refs now order ss)" and "now \<le> now'"
  shows "2 \<le> count_list (SS_pending ss2) ref"
proof -
  have inv: "sched_inv ss" by (rule sched_inv_run [OF assms(2) sched_inv_new [OF assms(1)]])
  then have ss1: "ss1 = ss\<lparr>SS_pending := SS_pending ss @ due_refs now order ss\<rparr>"
    using assms(3) due_schedules_eq [OF inv] by (simp add: processSchedules_def)
  with inv have "sched_inv ss1" by simp
  then have ss2: "SS_pending ss2 = SS_pending ss @ due_refs now order ss @ due_refs now' order ss"
    using assms(4) due_schedules_eq [of ss1] by (auto simp: processSchedules_def ss1 due_refs_def)
  have "ref \<in> set (due_refs now' order ss)"
    using assms(5,6) by (auto simp: due_refs_def is_due_def split: option.splits)
  with assms(5) have "count_list (due_refs now order ss) ref \<noteq> 0" "count_list (due_refs now' order ss) ref \<noteq> 0"
    by (simp_all add: count_list_0_iff)
  then show ?thesis unfolding ss2 by simp
qed

section \<open>Examples\<close>

definition demo_sync_options :: UnifiedSyncOptions where
  "demo_sync_options =
     \<lparr>Opt_SyncType = SyncTypeFull, Opt_Direction = SyncDirectionBidirectional, Opt_ConflictStrategy = ''last_write'', Opt_Priority = 5,
      Opt_Filters = None, Opt_Performance = None, Opt_Retry = None, Opt_Notifications = None\<rparr>"

definition demo_sched_env :: sched_env where
  "demo_sched_env = \<lparr>SE_connector = (\<lambda>_. True), SE_show_error = (\<lambda>_. []), SE_offset = 0\<rparr>"

definition idle_scheduler :: SyncScheduler where
  "idle_scheduler =
     \<lparr>SS_config = default_scheduler_config, SS_schedules = Map.empty, SS_store = Map.empty, SS_throttlers = Map.empty,
      SS_orchestrator = NewSyncOrchestrator None 0, SS_pending = [], SS_monitors = [], SS_notices = [], SS_stopped = False\<rparr>"

text \<open>One schedule, for Mondays and Wednesdays at half past nine.\<close>

definition demo_first :: SyncSchedule where
  "demo_first = demo_schedule (Some (weekly_config [1, 3] ''09:30'')) (Some demo_sync_options)"

definition demo_registered_schedule :: SyncSchedule where
  "demo_registered_schedule = (with_defaults ''s1'' demo_noon default_scheduler_config demo_first)
     \<lparr>Sch_NextRun := Some (time_Date 0 2026 1 7 9 30 0 0)\<rparr>"

definition demo_scheduler :: SyncScheduler where
  "demo_scheduler = idle_scheduler\<lparr>SS_store := [0 \<mapsto> demo_registered_schedule], SS_schedules := [''s1'' \<mapsto> 0]\<rparr>"

lemma idle_new: "NewSyncScheduler 0 (NewSyncOrchestrator None 0) None = Ok idle_scheduler"
  by (simp add: NewSyncScheduler_def idle_scheduler_def default_scheduler_config_def initializeThrottlers_def Let_def second_ns_def
      fun_eq_iff)

lemma demo_weekly_run: "calculateWeeklyNextRun 0 demo_noon (weekly_config [1, 3] ''09:30'') = Ok (Some (time_Date 0 2026 1 7 9 30 0 0))"
  by code_simp

lemma demo_sched_run: "sched_run demo_sched_env idle_scheduler [Other_sched, Other_sched] demo_scheduler"
proof -
  let ?s1 = "idle_scheduler\<lparr>SS_store := (SS_store idle_scheduler)(0 \<mapsto> demo_first)\<rparr>"
  have "sched_step demo_sched_env Other_sched idle_scheduler ?s1"
    by (rule sched_step.allocate) (simp add: idle_scheduler_def)
  with sched_run.begin_run have one: "sched_run demo_sched_env idle_scheduler ([] @ [Other_sched]) ?s1" by (rule sched_run.next_step)
  let ?d = "with_defaults ''s1'' demo_noon default_scheduler_config demo_first"
  have "calculateNextRun 0 demo_noon ?d = calculateWeeklyNextRun 0 demo_noon (weekly_config [1, 3] ''09:30'')"
    by (simp add: calculateNextRun_def with_defaults_def demo_first_def demo_schedule_def) (simp add: weekly_config_def)
  moreover have "Sch_ID ?d = ''s1''" by (simp add: with_defaults_def demo_first_def demo_schedule_def)
  ultimately have "fst (CreateSchedule ''s1'' (SE_offset demo_sched_env) demo_noon 0 ?s1) = demo_scheduler"
    by (simp add: CreateSchedule_def demo_weekly_run Let_def demo_sched_env_def demo_scheduler_def idle_scheduler_def
        demo_registered_schedule_def)
  then have "sched_step demo_sched_env Other_sched ?s1 demo_scheduler"
    using sched_step.create [of "''s1''" demo_sched_env ?s1 demo_noon 0] by (simp add: nil_uuid_def)
  from sched_run.next_step [OF one this] show ?thesis by simp
qed

lemma demo_due: "due_refs (time_Date 0 2026 1 7 9 30 0 0) [''s1''] demo_scheduler = [0]"
  by (simp add: due_refs_def map_filter_simps demo_scheduler_def is_due_def demo_registered_schedule_def with_defaults_def)

theorem tick_queues_due_witness:
  "processSchedules 0 (time_Date 0 2026 1 7 9 30 0 0) [''s1''] demo_scheduler = Ok (demo_scheduler\<lparr>SS_pending := [0]\<rparr>)"
proof -
  have "SS_pending demo_scheduler = []" by (simp add: demo_scheduler_def idle_scheduler_def)
  with tick_queues_due [OF idle_new demo_sched_run, of 0 "time_Date 0 2026 1 7 9 30 0 0" "[''s1'']"] show ?thesis
    by (simp add: demo_due)
qed

lemma demo_sched_store: "SS_store demo_scheduler 0 = Some demo_registered_schedule"
  by (simp add: demo_scheduler_def)

theorem runs_accounted_witness:
  "\<exists>s. SS_store demo_scheduler 0 = Some s \<and> open_runs s - monitors_of 0 demo_scheduler = 0"
proof -
  have run: "sched_run demo_sched_env demo_scheduler [] demo_scheduler" by (rule sched_run.begin_run)
  have "open_runs demo_registered_schedule - monitors_of 0 demo_scheduler = 0"
    by (simp add: demo_registered_schedule_def with_defaults_def demo_first_def demo_schedule_def open_runs_def monitors_of_def
        demo_scheduler_def idle_scheduler_def)
  with runs_accounted [OF run demo_sched_store] show ?thesis by simp
qed

theorem listing_complete_and_sorted_witness:
  "set (ListSchedules insertion_sort [''s1''] None demo_scheduler) = {demo_registered_schedule}"
proof -
  have "set (ListSchedules insertion_sort [''s1''] None demo_scheduler) =
      {s. \<exists>i ref. SS_schedules demo_scheduler i = Some ref \<and> SS_store demo_scheduler ref = Some s \<and> schedule_matches None s}"
    using listing_complete_and_sorted [OF idle_new demo_sched_run insertion_sort.weak_slice_sort_axioms, of "[''s1'']" None]
    by (simp add: demo_scheduler_def idle_scheduler_def)
  also have "\<dots> = {demo_registered_schedule}"
    by (auto simp: demo_scheduler_def schedule_matches_def split: if_splits)
  finally show ?thesis .
qed

theorem due_schedule_queued_again_witness:
  "\<exists>ss1 ss2. processSchedules 0 (time_Date 0 2026 1 7 9 30 0 0) [''s1''] demo_scheduler = Ok ss1 \<and>
     processSchedules 0 (time_Date 0 2026 1 7 9 30 0 0) [''s1''] ss1 = Ok ss2 \<and> 2 \<le> count_list (SS_pending ss2) 0"
proof -
  let ?t = "time_Date 0 2026 1 7 9 30 0 0"
  have inv: "sched_inv demo_scheduler" by (rule sched_inv_run [OF demo_sched_run sched_inv_new [OF idle_new]])
  let ?s1 = "demo_scheduler\<lparr>SS_pending := SS_pending demo_scheduler @ due_refs ?t [''s1''] demo_scheduler\<rparr>"
  have "sched_inv ?s1" using inv by simp
  then have "processSchedules 0 ?t [''s1''] demo_scheduler = Ok ?s1"
    and "\<exists>ss2. processSchedules 0 ?t [''s1''] ?s1 = Ok ss2"
    using due_schedules_eq [OF inv] due_schedules_eq [of ?s1] by (simp_all add: processSchedules_def)
  then show ?thesis using due_schedule_queued_again [OF idle_new demo_sched_run, of 0 ?t "[''s1'']" _ ?t _ 0] demo_due
    by (metis list.set_intros(1) order_refl)
qed

theorem passed_schedule_panics_witness:
  "snd (CreateSchedule ''s2'' 0 9 0 (idle_scheduler\<lparr>SS_store := [0 \<mapsto>
     (demo_schedule (Some ((weekly_config [] [])\<lparr>SCfg_Type := ScheduleTypeOnce, SCfg_RunOnce := Some 5\<rparr>)) None)\<lparr>Sch_ID := ''s2''\<rparr>]\<rparr>)) = Panic"
proof (rule passed_schedule_panics [THEN conjunct1])
  let ?cfg = "(weekly_config [] [])\<lparr>SCfg_Type := ScheduleTypeOnce, SCfg_RunOnce := Some 5\<rparr>"
  let ?s = "(demo_schedule (Some ?cfg) None)\<lparr>Sch_ID := ''s2''\<rparr>"
  show "SS_store (idle_scheduler\<lparr>SS_store := [0 \<mapsto> ?s]\<rparr>) 0 = Some ?s" by simp
  show "Sch_Schedule ?s = Some ?cfg" "Sch_ID ?s \<noteq> nil_uuid" by (simp_all add: demo_schedule_def nil_uuid_def)
  show "SCfg_Type ?cfg = ScheduleTypeOnce" "SCfg_RunOnce ?cfg = Some 5" "(5 :: time) \<le> 9" by simp_all
qed

theorem schedule_without_options_panics_witness:
  "snd (executeScheduleAsync demo_sched_env ''j'' 0 9 0 (idle_scheduler\<lparr>SS_store := [0 \<mapsto> demo_schedule None None]\<rparr>)) = Panic"
proof (rule schedule_without_options_panics)
  let ?ss = "idle_scheduler\<lparr>SS_store := [0 \<mapsto> demo_schedule None None]\<rparr>"
  show "SS_store ?ss 0 = Some (demo_schedule None None)" by simp
  show "Sch_SyncOptions (demo_schedule None None) = None" by (simp add: demo_schedule_def)
  show "snd (CheckThrottle 9 (Sch_ConnectorType (demo_schedule None None)) ?ss) = None"
    by (simp add: CheckThrottle_def idle_scheduler_def default_scheduler_config_def)
qed

end
