(* ===== verification/Pdf_Pages.thy ===== *)
theory Pdf_Pages imports Job_Models Text_Chunks begin

text \<open>
  The pages of a PDF in the map-reduce pipeline (\<^verbatim>\<open>pkg/readers/pdf/mapreduce\<close>): the types (\<^verbatim>\<open>types.go\<close>), the
  classification of a page from the output of the poppler tools (\<^verbatim>\<open>classifier.go\<close>), the extraction of its
  text (\<^verbatim>\<open>extractor.go\<close>), and the reduction of page results to chunks (\<^verbatim>\<open>reducer.go\<close>).

  The programs pdftotext, pdffonts, pdfimages, pdfinfo, pdftoppm, convert and tesseract, the hash MD5 and the
  parsing and printing of floating-point numbers are fields of \<open>pdf_tools\<close>; a program that fails gives its
  error.  Lines of their output are shorter than the buffers of the scanners.
\<close>

section \<open>Types\<close>

definition ClassTextOnly :: string where [simp]: "ClassTextOnly = ''text_only''"
definition ClassImageOnly :: string where [simp]: "ClassImageOnly = ''image_only''"
definition ClassHybrid :: string where [simp]: "ClassHybrid = ''hybrid''"
definition ClassScanned :: string where [simp]: "ClassScanned = ''scanned''"
definition ClassEmpty :: string where [simp]: "ClassEmpty = ''empty''"
definition ClassUnknown :: string where [simp]: "ClassUnknown = ''unknown''"

definition MethodPDFToText :: string where [simp]: "MethodPDFToText = ''pdftotext''"
definition MethodOCR :: string where [simp]: "MethodOCR = ''ocr''"
definition MethodHybrid :: string where [simp]: "MethodHybrid = ''hybrid''"
definition MethodSkipped :: string where [simp]: "MethodSkipped = ''skipped''"

definition StatusCompleted :: string where [simp]: "StatusCompleted = ''completed''"
definition StatusFailed :: string where [simp]: "StatusFailed = ''failed''"
definition StatusSkipped :: string where [simp]: "StatusSkipped = ''skipped''"

record PageClassification =
  PC_PageNumber :: int
  PC_Classification :: string
  PC_Confidence :: float64
  PC_HasEmbeddedFonts :: bool
  PC_HasImages :: bool
  PC_ImageCount :: int
  PC_LargeImageCount :: int
  PC_TextCharCount :: int

definition ClassificationNeedsOCR :: "PageClassification \<Rightarrow> bool" where
  "ClassificationNeedsOCR pc \<longleftrightarrow>
     (if PC_Classification pc = ClassScanned \<or> PC_Classification pc = ClassImageOnly then True
      else if PC_Classification pc = ClassHybrid then True else False)"

record ExtractionConfig =
  EC_OCRLanguage :: string
  EC_OCRDPI :: int
  EC_OCRTimeout :: int
  EC_TextThreshold :: int
  EC_LargeImageThreshold :: int
  EC_OCRAnyImage :: bool
  EC_OCRImageMinWidth :: int
  EC_OCRImageMinHeight :: int
  EC_MaxMemoryMB :: int
  EC_PreserveLayout :: bool
  EC_ExtractImages :: bool

definition DefaultExtractionConfig :: ExtractionConfig where
  "DefaultExtractionConfig =
     \<lparr>EC_OCRLanguage = ''eng'', EC_OCRDPI = 300, EC_OCRTimeout = 600, EC_TextThreshold = 100, EC_LargeImageThreshold = 50,
      EC_OCRAnyImage = False, EC_OCRImageMinWidth = 200, EC_OCRImageMinHeight = 200, EC_MaxMemoryMB = 2048,
      EC_PreserveLayout = True, EC_ExtractImages = False\<rparr>"

record PageJob =
  PJ_JobID :: string
  PJ_TenantID :: uuid
  PJ_FileID :: uuid
  PJ_SessionID :: "uuid option"
  PJ_PDFPath :: string
  PJ_PageNumber :: int
  PJ_TotalPages :: int
  PJ_Classification :: string
  PJ_Config :: "ExtractionConfig option"

text \<open>\<^verbatim>\<open>PageResult\<close> of the pipeline; the row of the database is \<open>PageResult\<close> of \<open>Job_Models\<close>.\<close>

record PdfPageResult =
  Ppr_JobID :: string
  Ppr_TenantID :: uuid
  Ppr_FileID :: uuid
  Ppr_PageNumber :: int
  Ppr_TotalPages :: int
  Ppr_Classification :: string
  Ppr_ClassificationConfidence :: float64
  Ppr_Content :: string
  Ppr_ContentHash :: string
  Ppr_ExtractionMethod :: string
  Ppr_OCRConfidence :: float64
  Ppr_OCRLanguage :: string
  Ppr_OCRDPI :: int
  Ppr_Status :: string
  Ppr_Error :: string
  Ppr_ProcessingDurationMs :: int
  Ppr_PeakMemoryBytes :: int
  Ppr_ImageSizeBytes :: int
  Ppr_WorkerID :: string
  Ppr_ProcessedAt :: time

record ProcessingError =
  PErr_PageNumber :: int
  PErr_Error :: string
  PErr_Retryable :: bool
  PErr_RetryCount :: int

record ProcessingResult =
  Pres_FileID :: uuid
  Pres_TotalPages :: int
  Pres_TextOnlyPages :: int
  Pres_OCRPages :: int
  Pres_SkippedPages :: int
  Pres_FailedPages :: int
  Pres_TotalCharacters :: int
  Pres_TotalDuration :: int
  Pres_PageResults :: "PdfPageResult option list"
  Pres_Errors :: "ProcessingError list"

section \<open>Lines, fields and tools\<close>

text \<open>\<open>bufio.ScanLines\<close>: the lines without their ends, a carriage return included; the empty rest after the
  last line end is no line.\<close>

definition drop_cr :: "string \<Rightarrow> string" where
  "drop_cr l = (if l \<noteq> [] \<and> last l = char_of (13 :: nat) then butlast l else l)"

definition scan_lines :: "string \<Rightarrow> string list" where
  "scan_lines s =
     (let ls = split_byte (char_of (10 :: nat)) s
      in map drop_cr (if ls \<noteq> [] \<and> last ls = [] then butlast ls else ls))"

function str_fields :: "string \<Rightarrow> string list" where
  "str_fields s =
     (let r = dropWhile is_space s
      in if r = [] then [] else takeWhile (\<lambda>c. \<not> is_space c) r # str_fields (dropWhile (\<lambda>c. \<not> is_space c) r))"
  by pat_completeness auto

termination str_fields
proof (relation "measure length")
  fix s r :: string
  assume r: "r = dropWhile is_space s" "r \<noteq> []"
  then have "\<not> is_space (hd r)" using hd_dropWhile by blast
  with r(2) have "length (dropWhile (\<lambda>c. \<not> is_space c) r) < length r"
    by (cases r) (simp_all add: le_imp_less_Suc length_dropWhile_le)
  moreover have "length r \<le> length s" by (simp add: r(1) length_dropWhile_le)
  ultimately show "(dropWhile (\<lambda>c. \<not> is_space c) r, s) \<in> measure length" by simp
qed simp

declare str_fields.simps [simp del]

text \<open>The value of \<open>strconv.Atoi\<close> whose error is ignored: zero for a syntax error, the nearest bound for a number
  out of range.\<close>

definition atoi_value :: "string \<Rightarrow> int" where
  "atoi_value s =
     (case atoi s of
        Some i \<Rightarrow> i
      | None \<Rightarrow>
          (let neg = (s \<noteq> [] \<and> hd s = CHR ''-'');
               ds = (if s \<noteq> [] \<and> (hd s = CHR ''-'' \<or> hd s = CHR ''+'') then tl s else s)
           in if ds = [] \<or> digits_val ds 0 = None then 0 else if neg then - (2 ^ 63) else 2 ^ 63 - 1))"

text \<open>Arguments: path, page number and the options that the code sets; results: the output, or nothing for a failure.
  \<open>PT_render\<close> gives the image of a page and \<open>PT_preprocess\<close> the image that is then recognised.\<close>

record 'img pdf_tools =
  PT_quick_text :: "string \<Rightarrow> int \<Rightarrow> string option"
  PT_fonts :: "string \<Rightarrow> int \<Rightarrow> string option"
  PT_images :: "string \<Rightarrow> int \<Rightarrow> string option"
  PT_info :: "string \<Rightarrow> string option"
  PT_text :: "bool \<Rightarrow> string \<Rightarrow> int \<Rightarrow> (string, string) outcome"
  PT_render :: "string \<Rightarrow> int \<Rightarrow> int \<Rightarrow> (string, 'img) outcome"
  PT_preprocess :: "'img \<Rightarrow> 'img"
  PT_tsv :: "'img \<Rightarrow> string \<Rightarrow> string option"
  PT_ocr :: "'img \<Rightarrow> string \<Rightarrow> (string, string) outcome"
  PT_parse_float :: "string \<Rightarrow> float64 option"
  PT_show_float :: "float64 \<Rightarrow> string"
  PT_md5 :: "string \<Rightarrow> string"
  PT_worker :: string

section \<open>Classification\<close>

definition quickTextExtract :: "'img pdf_tools \<Rightarrow> string \<Rightarrow> int \<Rightarrow> int option" where
  "quickTextExtract tools path page = map_option (\<lambda>out. int (length (trim_space out))) (PT_quick_text tools path page)"

definition checkFonts :: "'img pdf_tools \<Rightarrow> string \<Rightarrow> int \<Rightarrow> bool option" where
  "checkFonts tools path page =
     map_option (\<lambda>out. 0 < length (filter (\<lambda>l. trim_space l \<noteq> []) (drop 2 (split_byte (char_of (10 :: nat)) out))))
       (PT_fonts tools path page)"

text \<open>The numbers of images and of large images.\<close>

definition is_large_image :: "ExtractionConfig \<Rightarrow> string \<Rightarrow> bool" where
  "is_large_image cfg l =
     (let minWidth = (if EC_OCRImageMinWidth cfg \<le> 0 then 200 else EC_OCRImageMinWidth cfg);
          minHeight = (if EC_OCRImageMinHeight cfg \<le> 0 then 200 else EC_OCRImageMinHeight cfg);
          fields = str_fields l
      in EC_OCRAnyImage cfg \<or>
         (length fields \<ge> 5 \<and> atoi_value (fields ! 3) \<ge> minWidth \<and> atoi_value (fields ! 4) \<ge> minHeight))"

definition checkImages :: "'img pdf_tools \<Rightarrow> ExtractionConfig \<Rightarrow> string \<Rightarrow> int \<Rightarrow> (int \<times> int) option" where
  "checkImages tools cfg path page =
     map_option (\<lambda>out. (let ls = filter (\<lambda>l. trim_space l \<noteq> []) (drop 2 (scan_lines out))
                        in (int (length ls), int (length (filter (is_large_image cfg) ls)))))
       (PT_images tools path page)"

definition classify :: "ExtractionConfig \<Rightarrow> PageClassification \<Rightarrow> string \<times> float64" where
  "classify cfg pc =
     (let threshold = EC_TextThreshold cfg; half = go_quot threshold 2
      in if PC_TextCharCount pc > threshold \<and> \<not> PC_HasImages pc then (ClassTextOnly, round64 (95/100))
         else if \<not> PC_HasEmbeddedFonts pc \<and> PC_LargeImageCount pc > 0 then (ClassScanned, round64 (9/10))
         else if PC_TextCharCount pc > half \<and> PC_HasImages pc then (ClassHybrid, round64 (85/100))
         else if PC_HasImages pc \<and> PC_TextCharCount pc < half then (ClassImageOnly, round64 (85/100))
         else if PC_TextCharCount pc < 10 \<and> \<not> PC_HasImages pc then (ClassEmpty, round64 (95/100))
         else if PC_TextCharCount pc \<ge> 10 then (ClassTextOnly, round64 (7/10))
         else (ClassUnknown, round64 (1/2)))"

text \<open>A tool that fails counts as one that finds nothing.\<close>

definition ClassifyPage :: "'img pdf_tools \<Rightarrow> ExtractionConfig \<Rightarrow> string \<Rightarrow> int \<Rightarrow> PageClassification" where
  "ClassifyPage tools cfg path page =
     (let text = (case quickTextExtract tools path page of None \<Rightarrow> 0 | Some n \<Rightarrow> n);
          fonts = (case checkFonts tools path page of None \<Rightarrow> False | Some b \<Rightarrow> b);
          images = (case checkImages tools cfg path page of None \<Rightarrow> (0, 0) | Some p \<Rightarrow> p);
          pc = \<lparr>PC_PageNumber = page, PC_Classification = ClassUnknown, PC_Confidence = round64 (1/2),
                PC_HasEmbeddedFonts = fonts, PC_HasImages = (fst images > 0), PC_ImageCount = fst images,
                PC_LargeImageCount = snd images, PC_TextCharCount = text\<rparr>;
          (cl, conf) = classify cfg pc
      in pc\<lparr>PC_Classification := cl, PC_Confidence := conf\<rparr>)"

text \<open>The goroutines of the pages write to different elements; \<open>given_up\<close> are the pages whose goroutine sees the
  end of the context first.  \<open>ClassifyPage\<close> returns no error, so none is reported.  A negative number of pages
  panics.\<close>

definition ClassifyAllPages :: "'img pdf_tools \<Rightarrow> ExtractionConfig \<Rightarrow> int set \<Rightarrow> string \<Rightarrow> int \<Rightarrow>
    (string, PageClassification option list) outcome" where
  "ClassifyAllPages tools cfg given_up path totalPages =
     (if totalPages < 0 then Panic
      else Ok (map (\<lambda>page. if page \<in> given_up then None else Some (ClassifyPage tools cfg path page)) [1 .. totalPages]))"

definition split_colon :: "string \<Rightarrow> (string \<times> string) option" where
  "split_colon l = (if CHR '':'' \<in> set l then Some (takeWhile (\<lambda>c. c \<noteq> CHR '':'') l, tl (dropWhile (\<lambda>c. c \<noteq> CHR '':'') l)) else None)"

fun find_pages :: "string list \<Rightarrow> (string, int) outcome" where
  "find_pages [] = Err ''page count not found in pdfinfo output''"
| "find_pages (l # ls) =
     (case split_colon l of
        None \<Rightarrow> find_pages ls
      | Some (key, v) \<Rightarrow>
          if trim_space key = ''Pages''
          then (case atoi (trim_space v) of None \<Rightarrow> Err ''failed to parse page count'' | Some n \<Rightarrow> Ok n)
          else find_pages ls)"

definition GetPageCount :: "'img pdf_tools \<Rightarrow> string \<Rightarrow> (string, int) outcome" where
  "GetPageCount tools path =
     (case PT_info tools path of
        None \<Rightarrow> Err ''pdfinfo failed'' | Some out \<Rightarrow> find_pages (split_byte (char_of (10 :: nat)) out))"

section \<open>Extraction\<close>

definition prefix_error :: "string \<Rightarrow> (string, 'a) outcome \<Rightarrow> (string, 'a) outcome" where
  "prefix_error what x = (case x of Err e \<Rightarrow> Err (what @ e) | y \<Rightarrow> y)"

definition extractor_config :: "ExtractionConfig option \<Rightarrow> ExtractionConfig" where
  "extractor_config config = (case config of None \<Rightarrow> DefaultExtractionConfig | Some c \<Rightarrow> c)"

definition job_config :: "ExtractionConfig \<Rightarrow> PageJob \<Rightarrow> ExtractionConfig" where
  "job_config own job = (case PJ_Config job of Some c \<Rightarrow> c | None \<Rightarrow> own)"

definition extractWithPDFToText :: "'img pdf_tools \<Rightarrow> ExtractionConfig \<Rightarrow> PageJob \<Rightarrow> (string, string) outcome" where
  "extractWithPDFToText tools own job =
     bind_outcome (PT_text tools (EC_PreserveLayout (job_config own job)) (PJ_PDFPath job) (PJ_PageNumber job))
       (\<lambda>out. Ok (trim_space (concat (map (\<lambda>l. l @ [char_of (10 :: nat)]) (scan_lines out)))))"

text \<open>The words of the recognised text and the mean of their confidences.\<close>

definition tsv_word :: "'img pdf_tools \<Rightarrow> string \<Rightarrow> (string \<times> float64 option) option" where
  "tsv_word tools l =
     (let fields = split_byte (char_of (9 :: nat)) l
      in if length fields < 12 then None
         else (let text = trim_space (fields ! 11)
               in if text = [] then None
                  else Some (text, case PT_parse_float tools (fields ! 10) of
                    None \<Rightarrow> None | Some c \<Rightarrow> if c \<ge> 0 then Some c else None)))"

definition mean_confidence :: "float64 list \<Rightarrow> float64" where
  "mean_confidence cs =
     (if cs = [] then round64 (1/2)
      else f64_div (f64_div (foldl f64_add 0 cs) (round64 (of_nat (length cs)))) 100)"

definition parseTesseractTSV :: "'img pdf_tools \<Rightarrow> string \<Rightarrow> (string \<times> float64) option" where
  "parseTesseractTSV tools tsv =
     (let ls = split_byte (char_of (10 :: nat)) tsv
      in if length ls < 2 then None
         else (let ws = List.map_filter (tsv_word tools) (drop 1 ls)
               in Some (join_strings '' '' (map fst ws), mean_confidence (List.map_filter snd ws))))"

definition ocrImage :: "'img pdf_tools \<Rightarrow> string \<Rightarrow> 'img \<Rightarrow> (string, string \<times> float64) outcome" where
  "ocrImage tools language img =
     (let img' = PT_preprocess tools img
      in case Option.bind (PT_tsv tools img' language) (parseTesseractTSV tools) of
           Some r \<Rightarrow> Ok r
         | None \<Rightarrow> bind_outcome (prefix_error ''tesseract failed: '' (PT_ocr tools img' language)) (\<lambda>out. Ok (trim_space out, round64 (8/10))))"

definition extractWithOCR :: "'img pdf_tools \<Rightarrow> ExtractionConfig \<Rightarrow> PageJob \<Rightarrow> (string, string \<times> float64) outcome" where
  "extractWithOCR tools own job =
     (let cfg = job_config own job
      in bind_outcome (prefix_error ''failed to render page: '' (PT_render tools (PJ_PDFPath job) (PJ_PageNumber job) (EC_OCRDPI cfg)))
           (\<lambda>img. prefix_error ''OCR failed: '' (ocrImage tools (EC_OCRLanguage cfg) img)))"

definition extractHybrid :: "'img pdf_tools \<Rightarrow> ExtractionConfig \<Rightarrow> PageJob \<Rightarrow> (string, string \<times> float64) outcome" where
  "extractHybrid tools own job =
     (case extractWithPDFToText tools own job of
        Ok text \<Rightarrow>
          if length text > 100 then Ok (text, 1)
          else (case extractWithOCR tools own job of
                  Ok (ocr, conf) \<Rightarrow> if length ocr > length text then Ok (ocr, conf) else Ok (text, 1)
                | _ \<Rightarrow> Ok (text, round64 (1/2)))
      | _ \<Rightarrow> extractWithOCR tools own job)"

text \<open>The method, and the text with its confidence.\<close>

definition extract_content :: "'img pdf_tools \<Rightarrow> ExtractionConfig \<Rightarrow> PageJob \<Rightarrow> string \<times> (string, string \<times> float64) outcome" where
  "extract_content tools own job =
     (let cl = PJ_Classification job
      in if cl = ClassTextOnly
         then (MethodPDFToText, bind_outcome (extractWithPDFToText tools own job) (\<lambda>text. Ok (text, 1)))
         else if cl = ClassScanned \<or> cl = ClassImageOnly then (MethodOCR, extractWithOCR tools own job)
         else if cl = ClassHybrid then (MethodHybrid, extractHybrid tools own job)
         else if cl = ClassEmpty then (MethodSkipped, Ok ([], 1))
         else (MethodOCR, extractWithOCR tools own job))"

text \<open>\<open>now\<close> is the start and \<open>later\<close> the end of the extraction.  An error is part of the result.\<close>

definition ExtractPage :: "'img pdf_tools \<Rightarrow> ExtractionConfig \<Rightarrow> time \<Rightarrow> time \<Rightarrow> PageJob \<Rightarrow> PdfPageResult" where
  "ExtractPage tools own now later job =
     (let ms = go_quot (later - now) 1000000;
          r = \<lparr>Ppr_JobID = PJ_JobID job, Ppr_TenantID = PJ_TenantID job, Ppr_FileID = PJ_FileID job,
               Ppr_PageNumber = PJ_PageNumber job, Ppr_TotalPages = PJ_TotalPages job,
               Ppr_Classification = PJ_Classification job, Ppr_ClassificationConfidence = 0, Ppr_Content = [],
               Ppr_ContentHash = [], Ppr_ExtractionMethod = [], Ppr_OCRConfidence = 0, Ppr_OCRLanguage = [], Ppr_OCRDPI = 0,
               Ppr_Status = (if PJ_Classification job = ClassEmpty then StatusSkipped else StatusCompleted), Ppr_Error = [],
               Ppr_ProcessingDurationMs = ms, Ppr_PeakMemoryBytes = 0, Ppr_ImageSizeBytes = 0, Ppr_WorkerID = PT_worker tools,
               Ppr_ProcessedAt = now\<rparr>;
          (method, extracted) = extract_content tools own job; cfg = job_config own job
      in case extracted of
           Err e \<Rightarrow> r\<lparr>Ppr_Status := StatusFailed, Ppr_Error := e\<rparr>
         | Panic \<Rightarrow> r\<lparr>Ppr_Status := StatusFailed\<rparr>
         | Ok (content, confidence) \<Rightarrow>
             (let r' = r\<lparr>Ppr_Content := content, Ppr_ExtractionMethod := method, Ppr_OCRConfidence := confidence,
                         Ppr_ContentHash := PT_md5 tools content\<rparr>
              in if method = MethodOCR \<or> method = MethodHybrid
                 then r'\<lparr>Ppr_OCRLanguage := EC_OCRLanguage cfg, Ppr_OCRDPI := EC_OCRDPI cfg\<rparr> else r'))"


definition ExtractSinglePage :: "'img pdf_tools \<Rightarrow> string \<Rightarrow> time \<Rightarrow> time \<Rightarrow> string \<Rightarrow> int \<Rightarrow> string \<Rightarrow> ExtractionConfig option \<Rightarrow>
    PdfPageResult" where
  "ExtractSinglePage tools newID now later path page classification config =
     ExtractPage tools (extractor_config config) now later
       \<lparr>PJ_JobID = newID, PJ_TenantID = nil_uuid, PJ_FileID = nil_uuid, PJ_SessionID = None, PJ_PDFPath = path,
        PJ_PageNumber = page, PJ_TotalPages = 1, PJ_Classification = classification, PJ_Config = config\<rparr>"

section \<open>Reduction\<close>

record ReducerConfig =
  RC_PreservePageBoundaries :: bool
  RC_SourcePath :: string

definition reducer_config :: "ReducerConfig option \<Rightarrow> ReducerConfig" where
  "reducer_config config =
     (case config of None \<Rightarrow> \<lparr>RC_PreservePageBoundaries = True, RC_SourcePath = []\<rparr> | Some c \<Rightarrow> c)"

definition reducer_chunk :: "string \<Rightarrow> time \<Rightarrow> string \<Rightarrow> string \<Rightarrow> string \<Rightarrow> (string \<rightharpoonup> string) \<Rightarrow> TextChunk" where
  "reducer_chunk source now cid ctype data context =
     \<lparr>TC_Data = data,
      TC_Metadata = \<lparr>CM_SourcePath = source, CM_ChunkID = cid, CM_ChunkType = ctype, CM_SizeBytes = int (length data),
        CM_StartPosition = None, CM_EndPosition = None, CM_ProcessedAt = now, CM_ProcessedBy = ''mapreduce_reducer'',
        CM_Quality = None, CM_Context = context\<rparr>\<rparr>"

definition page_context :: "int \<Rightarrow> int \<Rightarrow> string \<Rightarrow> string \<Rightarrow> string \<rightharpoonup> string" where
  "page_context page total_pages method classification =
     [''page_number'' \<mapsto> show_int page, ''total_pages'' \<mapsto> show_int total_pages,
      ''extraction_method'' \<mapsto> method, ''classification'' \<mapsto> classification]"

definition document_context :: "int \<Rightarrow> nat \<Rightarrow> string \<rightharpoonup> string" where
  "document_context total_pages n =
     [''total_pages'' \<mapsto> show_int total_pages, ''pages_with_text'' \<mapsto> show_nat n, ''extraction_type'' \<mapsto> ''map_reduce'']"

definition page_break :: string where
  "page_break = [char_of (10 :: nat), char_of (10 :: nat)]"

primrec combine_pages :: "string list \<Rightarrow> string" where
  "combine_pages [] = []"
| "combine_pages (c # cs) = (if c = [] then combine_pages cs else c @ page_break @ combine_pages cs)"

definition reduceWithPageBoundaries :: "'img pdf_tools \<Rightarrow> ReducerConfig \<Rightarrow> time \<Rightarrow> PageResult list \<Rightarrow> TextChunk list" where
  "reduceWithPageBoundaries tools cfg now rows =
     map (\<lambda>pr. reducer_chunk (RC_SourcePath cfg) now (''page_'' @ show_int (Page_PageNumber pr)) ''pdf_page'' (Page_Content pr)
            (let c = page_context (Page_PageNumber pr) (Page_TotalPages pr) (Page_ExtractionMethod pr) (Page_Classification pr)
             in case Page_OCRConfidence pr of None \<Rightarrow> c | Some v \<Rightarrow> c(''ocr_confidence'' \<mapsto> PT_show_float tools v)))
       (filter (\<lambda>pr. Page_Content pr \<noteq> []) rows)"

definition reduceCombined :: "ReducerConfig \<Rightarrow> time \<Rightarrow> PageResult list \<Rightarrow> (string, TextChunk list) outcome" where
  "reduceCombined cfg now rows =
     (let cs = map Page_Content rows; combined = combine_pages cs
      in if combined = [] then Err ''no content to reduce''
         else Ok [reducer_chunk (RC_SourcePath cfg) now ''full_document'' ''pdf_document'' combined
                    (document_context (case rows of [] \<Rightarrow> 0 | pr # _ \<Rightarrow> Page_TotalPages pr) (length (filter (\<lambda>c. c \<noteq> []) cs)))])"

text \<open>\<open>rows\<close> is the answer of the database to the query for the completed pages of the file in the order of their
  numbers.\<close>

definition Reduce :: "'img pdf_tools \<Rightarrow> ReducerConfig \<Rightarrow> time \<Rightarrow> uuid \<Rightarrow> PageResult list option \<Rightarrow> (string, TextChunk list) outcome" where
  "Reduce tools cfg now fileID rows =
     (case rows of
        None \<Rightarrow> Err ''failed to fetch page results''
      | Some [] \<Rightarrow> Err (''no completed page results found for file '' @ fileID)
      | Some prs \<Rightarrow>
          if RC_PreservePageBoundaries cfg then Ok (reduceWithPageBoundaries tools cfg now prs)
          else reduceCombined cfg now prs)"

definition reduceWithPageBoundariesFromResults ::
  "'img pdf_tools \<Rightarrow> ReducerConfig \<Rightarrow> time \<Rightarrow> PdfPageResult option list \<Rightarrow> TextChunk list" where
  "reduceWithPageBoundariesFromResults tools cfg now prs =
     map (\<lambda>pr. reducer_chunk (RC_SourcePath cfg) now (''page_'' @ show_int (Ppr_PageNumber pr)) ''pdf_page'' (Ppr_Content pr)
            ((page_context (Ppr_PageNumber pr) (Ppr_TotalPages pr) (Ppr_ExtractionMethod pr) (Ppr_Classification pr))
               (''ocr_confidence'' \<mapsto> PT_show_float tools (Ppr_OCRConfidence pr))))
       (filter (\<lambda>pr. Ppr_Content pr \<noteq> []) (List.map_filter id prs))"

primrec first_total :: "int \<Rightarrow> PdfPageResult list \<Rightarrow> int" where
  "first_total n [] = n"
| "first_total n (pr # prs) = first_total (if n = 0 then Ppr_TotalPages pr else n) prs"

definition reduceCombinedFromResults ::
  "ReducerConfig \<Rightarrow> time \<Rightarrow> PdfPageResult option list \<Rightarrow> (string, TextChunk list) outcome" where
  "reduceCombinedFromResults cfg now prs =
     (let rs = List.map_filter id prs; cs = map Ppr_Content rs; combined = combine_pages cs
      in if combined = [] then Err ''no content to reduce''
         else Ok [reducer_chunk (RC_SourcePath cfg) now ''full_document'' ''pdf_document'' combined
                    (document_context (first_total 0 rs) (length (filter (\<lambda>c. c \<noteq> []) cs)))])"

definition ReduceFromResults :: "'img pdf_tools \<Rightarrow> ReducerConfig \<Rightarrow> time \<Rightarrow> ProcessingResult option \<Rightarrow> (string, TextChunk list) outcome" where
  "ReduceFromResults tools cfg now res =
     (case res of
        None \<Rightarrow> Err ''no page results to reduce''
      | Some r \<Rightarrow>
          if Pres_PageResults r = [] then Err ''no page results to reduce''
          else if RC_PreservePageBoundaries cfg
          then Ok (reduceWithPageBoundariesFromResults tools cfg now (Pres_PageResults r))
          else reduceCombinedFromResults cfg now (Pres_PageResults r))"

definition GetTextContent :: "PageResult list option \<Rightarrow> (string, string) outcome" where
  "GetTextContent rows =
     (case rows of
        None \<Rightarrow> Err ''failed to fetch page results''
      | Some prs \<Rightarrow> Ok (trim_space (combine_pages (map Page_Content prs))))"

definition GetPageTexts :: "PageResult list option \<Rightarrow> (string, int \<rightharpoonup> string) outcome" where
  "GetPageTexts rows =
     (case rows of
        None \<Rightarrow> Err ''failed to fetch page results''
      | Some prs \<Rightarrow> Ok (fold (\<lambda>pr m. m(Page_PageNumber pr \<mapsto> Page_Content pr)) prs Map.empty))"

section \<open>Facts of the reduction\<close>

lemma combine_pages_nonempty: "combine_pages (filter (\<lambda>c. c \<noteq> []) cs) = combine_pages cs"
  by (induction cs) simp_all

lemma combine_pages_empty_iff: "combine_pages cs = [] \<longleftrightarrow> filter (\<lambda>c. c \<noteq> []) cs = []"
  by (induction cs) simp_all

lemma reducer_chunk_simps [simp]:
  "TC_Data (reducer_chunk source now cid ctype data context) = data"
  "CM_SizeBytes (TC_Metadata (reducer_chunk source now cid ctype data context)) = int (length data)"
  "CM_ChunkID (TC_Metadata (reducer_chunk source now cid ctype data context)) = cid"
  by (simp_all add: reducer_chunk_def)

lemma page_chunk_data:
  "map TC_Data (reduceWithPageBoundaries tools cfg now rows) = filter (\<lambda>c. c \<noteq> []) (map Page_Content rows)"
  by (induction rows) (simp_all add: reduceWithPageBoundaries_def)

lemma page_chunk_data_from_results:
  "map TC_Data (reduceWithPageBoundariesFromResults tools cfg now prs) =
     filter (\<lambda>c. c \<noteq> []) (map Ppr_Content (List.map_filter id prs))"
  by (simp add: reduceWithPageBoundariesFromResults_def filter_map comp_def)

lemma page_chunk_ids:
  "map (\<lambda>c. CM_ChunkID (TC_Metadata c)) (reduceWithPageBoundaries tools cfg now rows) =
     map (\<lambda>pr. ''page_'' @ show_int (Page_PageNumber pr)) (filter (\<lambda>pr. Page_Content pr \<noteq> []) rows)"
  by (simp add: reduceWithPageBoundaries_def)


section \<open>Facts of the classification\<close>

lemma classify_text_only_with_images:
  assumes "PC_HasImages pc"
  shows "fst (classify cfg pc) = ClassTextOnly \<longleftrightarrow>
    PC_TextCharCount pc = go_quot (EC_TextThreshold cfg) 2 \<and> PC_TextCharCount pc \<ge> 10 \<and>
    (PC_HasEmbeddedFonts pc \<or> PC_LargeImageCount pc \<le> 0)"
  using assms by (auto simp: classify_def Let_def)

lemma classify_empty:
  "fst (classify cfg pc) = ClassEmpty \<Longrightarrow> \<not> PC_HasImages pc \<and> PC_TextCharCount pc < 10"
  by (auto simp: classify_def Let_def split: if_splits)


definition sample_page :: PageClassification where
  "sample_page = \<lparr>PC_PageNumber = 1, PC_Classification = ClassUnknown, PC_Confidence = 0, PC_HasEmbeddedFonts = True,
     PC_HasImages = True, PC_ImageCount = 2, PC_LargeImageCount = 2, PC_TextCharCount = 50\<rparr>"

definition sample_tools :: "unit pdf_tools" where
  "sample_tools = \<lparr>PT_quick_text = \<lambda>_ _. None, PT_fonts = \<lambda>_ _. None, PT_images = \<lambda>_ _. None, PT_info = \<lambda>_. Some ''Pages: 1'',
     PT_text = \<lambda>_ _ _. Ok ''text'', PT_render = \<lambda>_ _ _. Err ''none'', PT_preprocess = id, PT_tsv = \<lambda>_ _. None,
     PT_ocr = \<lambda>_ _. Err ''none'', PT_parse_float = \<lambda>_. None, PT_show_float = \<lambda>_. [], PT_md5 = \<lambda>_. [], PT_worker = []\<rparr>"

definition sample_page_job :: PageJob where
  "sample_page_job = \<lparr>PJ_JobID = [], PJ_TenantID = nil_uuid, PJ_FileID = nil_uuid, PJ_SessionID = None, PJ_PDFPath = ''a.pdf'',
     PJ_PageNumber = 1, PJ_TotalPages = 1, PJ_Classification = ClassUnknown, PJ_Config = None\<rparr>"


section \<open>Facts of the extraction\<close>

text \<open>The extraction of a hybrid page fails only when both pdftotext and the recognition fail, and its text is
  never shorter than the one of pdftotext.\<close>

theorem hybrid_keeps_text:
  "(case extractHybrid tools own job of
      Ok (text, conf) \<Rightarrow>
        (case extractWithPDFToText tools own job of
           Ok t \<Rightarrow> length t \<le> length text
         | _ \<Rightarrow> extractWithOCR tools own job = Ok (text, conf))
    | _ \<Rightarrow> (\<forall>t. extractWithPDFToText tools own job \<noteq> Ok t) \<and> (\<forall>t. extractWithOCR tools own job \<noteq> Ok t))"
  by (auto simp: extractHybrid_def split: outcome.splits)

end
