(* ===== verification/Pdf_Pool.thy ===== *)
theory Pdf_Pool imports Pdf_Pages begin

text \<open>
  The pools that process one page at a time in a bounded number of slots
  (\<^verbatim>\<open>pkg/readers/pdf/mapreduce/pool.go\<close>): what the two pools answer, and the steps of the calls of
  \<^verbatim>\<open>ProcessPage\<close> and \<^verbatim>\<open>Shutdown\<close> around the semaphore, the counters and the shutdown flag.
\<close>

section \<open>Configuration\<close>

record PdfCoordinatorConfig =
  PCC_MaxConcurrentWorkers :: int
  PCC_WorkerTimeoutSeconds :: int
  PCC_MaxRetries :: int
  PCC_RetryDelay :: int
  PCC_CheckpointInterval :: int
  PCC_MapReducePageThreshold :: int
  PCC_Extraction :: "ExtractionConfig option"

definition DefaultPdfCoordinatorConfig :: PdfCoordinatorConfig where
  "DefaultPdfCoordinatorConfig =
     \<lparr>PCC_MaxConcurrentWorkers = 4, PCC_WorkerTimeoutSeconds = 300, PCC_MaxRetries = 3, PCC_RetryDelay = 5,
      PCC_CheckpointInterval = 10, PCC_MapReducePageThreshold = 50, PCC_Extraction = Some DefaultExtractionConfig\<rparr>"

definition pool_config :: "PdfCoordinatorConfig option \<Rightarrow> PdfCoordinatorConfig" where
  "pool_config config = (case config of None \<Rightarrow> DefaultPdfCoordinatorConfig | Some c \<Rightarrow> c)"

text \<open>The slots of the pool with worker processes and of the inline pool.\<close>

definition worker_pool_slots :: "int \<Rightarrow> PdfCoordinatorConfig \<Rightarrow> int" where
  "worker_pool_slots numCPU cfg =
     (if PCC_MaxConcurrentWorkers cfg \<le> 0
      then (let m = go_quot numCPU 2 in if m < 1 then 1 else if m > 4 then 4 else m)
      else PCC_MaxConcurrentWorkers cfg)"

definition inline_pool_slots :: "PdfCoordinatorConfig \<Rightarrow> int" where
  "inline_pool_slots cfg = (if PCC_MaxConcurrentWorkers cfg \<le> 0 then 2 else PCC_MaxConcurrentWorkers cfg)"

definition page_timeout :: "PdfCoordinatorConfig \<Rightarrow> duration" where
  "page_timeout cfg =
     (let t = PCC_WorkerTimeoutSeconds cfg * 1000000000 in if t \<le> 0 then 5 * 60 * 1000000000 else t)"

section \<open>Answers\<close>

text \<open>
  An answer is an error (left) or the result of the page (right); both pools give exactly one of them.  What the
  tools do in the time of a page differs between attempts: \<open>runs\<close> is the set of their behaviours.
\<close>

type_synonym page_answer = "string + PdfPageResult"

inductive inline_answers :: "'img pdf_tools set \<Rightarrow> PdfCoordinatorConfig \<Rightarrow> PageJob \<Rightarrow> bool \<Rightarrow> page_answer \<Rightarrow> bool"
  for runs cfg job cancelled where
  inline_shutdown: "inline_answers runs cfg job cancelled (Inl ''worker pool is shutdown'')"
| inline_cancelled: "cancelled \<Longrightarrow> inline_answers runs cfg job cancelled (Inl ''context canceled'')"
| inline_extracted: "tools \<in> runs \<Longrightarrow>
    inline_answers runs cfg job cancelled (Inr (ExtractPage tools (extractor_config (PCC_Extraction cfg)) now later job))"

text \<open>The worker process reads the job, and its output is parsed as a result; the identifier of a job that has none
  is new.\<close>

datatype worker_exit = NotStarted string | TimedOut string | Exited string | Output string

definition executeWorker :: "(string \<Rightarrow> PdfPageResult option) \<Rightarrow> worker_exit \<Rightarrow> page_answer" where
  "executeWorker parse x =
     (case x of
        NotStarted e \<Rightarrow> Inl (''failed to start worker: '' @ e)
      | TimedOut e \<Rightarrow> Inl (''worker timed out: '' @ e)
      | Exited e \<Rightarrow> Inl (''worker failed: '' @ e)
      | Output out \<Rightarrow> (case parse out of None \<Rightarrow> Inl ''failed to parse worker output'' | Some r \<Rightarrow> Inr r))"

definition job_with_id :: "string \<Rightarrow> PageJob \<Rightarrow> PageJob" where
  "job_with_id newID job = (if PJ_JobID job = [] then job\<lparr>PJ_JobID := newID\<rparr> else job)"

inductive worker_answers ::
  "(PageJob \<Rightarrow> worker_exit set) \<Rightarrow> (string \<Rightarrow> PdfPageResult option) \<Rightarrow> PageJob \<Rightarrow> bool \<Rightarrow> page_answer \<Rightarrow> bool"
  for worker parse job cancelled where
  worker_shutdown: "worker_answers worker parse job cancelled (Inl ''worker pool is shutdown'')"
| worker_cancelled: "cancelled \<Longrightarrow> worker_answers worker parse job cancelled (Inl ''context canceled'')"
| worker_exited: "x \<in> worker (job_with_id newID job) \<Longrightarrow> worker_answers worker parse job cancelled (executeWorker parse x)"

section \<open>Slots and shutdown\<close>

text \<open>The phase of a call of \<^verbatim>\<open>ProcessPage\<close>: before and after the test of the shutdown flag, with a slot, counted as
  active, no longer counted but with its slot, returned.\<close>

datatype call_phase = Called | Admitted | Holding | Active | Leaving | Left

record PagePool =
  Pool_slots :: int
  Pool_held :: int
  Pool_active :: int
  Pool_processed :: int
  Pool_failed :: int
  Pool_shutdown :: bool
  Pool_down :: bool
  Pool_calls :: "call_phase list"

text \<open>\<open>Pool_down\<close> holds once \<^verbatim>\<open>Shutdown\<close> has returned without an error.\<close>

definition new_pool :: "int \<Rightarrow> PagePool" where
  "new_pool slots = \<lparr>Pool_slots = slots, Pool_held = 0, Pool_active = 0, Pool_processed = 0, Pool_failed = 0,
     Pool_shutdown = False, Pool_down = False, Pool_calls = []\<rparr>"

definition move_call :: "nat \<Rightarrow> call_phase \<Rightarrow> PagePool \<Rightarrow> PagePool" where
  "move_call i ph p = p\<lparr>Pool_calls := (Pool_calls p)[i := ph]\<rparr>"

definition in_phase :: "nat \<Rightarrow> call_phase \<Rightarrow> PagePool \<Rightarrow> bool" where
  "in_phase i ph p \<longleftrightarrow> i < length (Pool_calls p) \<and> Pool_calls p ! i = ph"

inductive pool_step :: "PagePool \<Rightarrow> PagePool \<Rightarrow> bool" where
  pool_call: "pool_step p (p\<lparr>Pool_calls := Pool_calls p @ [Called]\<rparr>)"
| pool_refuse: "in_phase i Called p \<Longrightarrow> Pool_shutdown p \<Longrightarrow> pool_step p (move_call i Left p)"
| pool_admit: "in_phase i Called p \<Longrightarrow> \<not> Pool_shutdown p \<Longrightarrow> pool_step p (move_call i Admitted p)"
| pool_give_up: "in_phase i Admitted p \<Longrightarrow> pool_step p (move_call i Left p)"
| pool_acquire: "in_phase i Admitted p \<Longrightarrow> Pool_held p < Pool_slots p \<Longrightarrow>
    pool_step p (move_call i Holding p\<lparr>Pool_held := Pool_held p + 1\<rparr>)"
| pool_begin: "in_phase i Holding p \<Longrightarrow> pool_step p (move_call i Active p\<lparr>Pool_active := Pool_active p + 1\<rparr>)"
| pool_done: "in_phase i Active p \<Longrightarrow>
    pool_step p (move_call i Leaving p\<lparr>Pool_active := Pool_active p - 1, Pool_processed := Pool_processed p + 1\<rparr>)"
| pool_fail: "in_phase i Active p \<Longrightarrow>
    pool_step p (move_call i Leaving p\<lparr>Pool_active := Pool_active p - 1, Pool_failed := Pool_failed p + 1\<rparr>)"
| pool_release: "in_phase i Leaving p \<Longrightarrow> pool_step p (move_call i Left p\<lparr>Pool_held := Pool_held p - 1\<rparr>)"
| pool_stop: "pool_step p (p\<lparr>Pool_shutdown := True\<rparr>)"
| pool_stopped: "Pool_shutdown p \<Longrightarrow> Pool_active p = 0 \<Longrightarrow> pool_step p (p\<lparr>Pool_down := True\<rparr>)"

abbreviation pool_reachable :: "int \<Rightarrow> PagePool \<Rightarrow> bool" where
  "pool_reachable slots \<equiv> pool_step\<^sup>*\<^sup>* (new_pool slots)"

section \<open>Facts\<close>

lemma slots_positive: "0 < worker_pool_slots n cfg" "0 < inline_pool_slots cfg"
  by (simp_all add: worker_pool_slots_def inline_pool_slots_def Let_def)

definition has_slot :: "call_phase \<Rightarrow> bool" where
  "has_slot ph \<longleftrightarrow> ph \<in> {Holding, Active, Leaving}"

definition page_pool_inv :: "PagePool \<Rightarrow> bool" where
  "page_pool_inv p \<longleftrightarrow>
     Pool_held p = (\<Sum>ph\<leftarrow>Pool_calls p. if has_slot ph then 1 else 0) \<and>
     Pool_active p = (\<Sum>ph\<leftarrow>Pool_calls p. if ph = Active then 1 else 0) \<and> Pool_held p \<le> Pool_slots p"

lemma sum_list_map_update:
  fixes f :: "'a \<Rightarrow> int"
  shows "i < length xs \<Longrightarrow> sum_list (map f (xs[i := y])) = sum_list (map f xs) - f (xs ! i) + f y"
  by (induction xs arbitrary: i) (auto split: nat.splits)

lemma pool_step_inv: "pool_step p q \<Longrightarrow> page_pool_inv p \<Longrightarrow> page_pool_inv q"
  by (induction rule: pool_step.induct)
     (simp_all add: page_pool_inv_def move_call_def in_phase_def sum_list_map_update has_slot_def)

lemma pool_step_slots: "pool_step p q \<Longrightarrow> Pool_slots q = Pool_slots p"
  by (induction rule: pool_step.induct) (simp_all add: move_call_def)

lemma pool_reachable_inv:
  assumes "pool_reachable slots p" "0 \<le> slots"
  shows "page_pool_inv p \<and> Pool_slots p = slots"
  using assms(1)
proof (induction rule: rtranclp_induct)
  case base
  show ?case using assms(2) by (simp add: new_pool_def page_pool_inv_def)
next
  case (step p q)
  then show ?case using pool_step_inv pool_step_slots by metis
qed

lemma active_le_held:
  "(\<Sum>ph\<leftarrow>cs. if ph = Active then 1 else 0 :: int) \<le> (\<Sum>ph\<leftarrow>cs. if has_slot ph then 1 else 0)"
  by (induction cs) (auto simp: has_slot_def)

text \<open>In every reachable state of a pool the number of pages in work is between zero and the number of its
  slots.\<close>

theorem pool_bounds_active:
  assumes "pool_reachable (worker_pool_slots n cfg) p \<or> pool_reachable (inline_pool_slots cfg) p"
  shows "0 \<le> Pool_active p \<and> Pool_active p \<le> Pool_held p \<and> Pool_held p \<le> Pool_slots p"
proof -
  have "page_pool_inv p"
    using assms slots_positive by (meson less_imp_le pool_reachable_inv)
  moreover have "0 \<le> (\<Sum>ph\<leftarrow>Pool_calls p. if ph = Active then 1 else 0 :: int)"
    by (rule sum_list_nonneg) auto
  ultimately show ?thesis by (simp add: page_pool_inv_def active_le_held)
qed

lemma pool_bounds_active_witness:
  "0 \<le> Pool_active (new_pool (inline_pool_slots DefaultPdfCoordinatorConfig)) \<and>
   Pool_active (new_pool (inline_pool_slots DefaultPdfCoordinatorConfig)) \<le> 4"
  using pool_bounds_active [of undefined DefaultPdfCoordinatorConfig "new_pool (inline_pool_slots DefaultPdfCoordinatorConfig)"]
  by (simp add: new_pool_def inline_pool_slots_def DefaultPdfCoordinatorConfig_def)

text \<open>Whatever the number of slots, a page can be in work after the shutdown of the pool has returned.\<close>

theorem page_starts_after_shutdown:
  assumes "0 < slots"
  shows "\<exists>p. pool_reachable slots p \<and> Pool_down p \<and> Pool_active p > 0"
proof -
  let ?p = "new_pool slots"
  let ?p1 = "?p\<lparr>Pool_calls := [Called]\<rparr>" let ?p2 = "move_call 0 Admitted ?p1"
  let ?p3 = "?p2\<lparr>Pool_shutdown := True\<rparr>" let ?p4 = "?p3\<lparr>Pool_down := True\<rparr>"
  let ?p5 = "move_call 0 Holding ?p4\<lparr>Pool_held := 1\<rparr>" let ?p6 = "move_call 0 Active ?p5\<lparr>Pool_active := 1\<rparr>"
  note defs = new_pool_def move_call_def in_phase_def
  have "pool_step ?p ?p1" using pool_call [of ?p] by (simp add: defs)
  moreover have "pool_step ?p1 ?p2" by (rule pool_admit) (simp_all add: defs)
  moreover have "pool_step ?p2 ?p3" by (rule pool_stop)
  moreover have "pool_step ?p3 ?p4" by (rule pool_stopped) (simp_all add: defs)
  moreover have "pool_step ?p4 ?p5" using pool_acquire [of 0 ?p4] assms by (simp add: defs)
  moreover have "pool_step ?p5 ?p6" using pool_begin [of 0 ?p5] by (simp add: defs)
  ultimately have "pool_reachable slots ?p6" by (meson rtranclp.rtrancl_into_rtrancl rtranclp.rtrancl_refl)
  then show ?thesis by (rule exI [of _ ?p6, OF conjI]) (simp add: defs)
qed

lemma page_starts_after_shutdown_witness:
  "\<exists>p. pool_reachable (inline_pool_slots DefaultPdfCoordinatorConfig) p \<and> Pool_down p \<and> Pool_active p > 0"
  by (rule page_starts_after_shutdown [OF slots_positive(2)])

end
