(* ===== verification/Pdf_Coordinator.thy ===== *)
theory Pdf_Coordinator imports Pdf_Pool "HOL-Library.Multiset" begin

text \<open>
  The coordinator of the map-reduce pipeline for PDF files (\<^verbatim>\<open>pkg/readers/pdf/mapreduce/coordinator.go\<close>).
  \<open>process_step\<close> are the steps of the workers of \<^verbatim>\<open>Process\<close>: each takes a page from the work channel, lets the
  pool process it, with retries, and records its result under the mutex.  \<^verbatim>\<open>Resume\<close> works on the rows of the
  database, which is an argument: \<open>page_store\<close> gives the rows of a file in the order of their pages, the tenant and
  the path of a file, and the upsert of a row (whose errors are only logged).
\<close>

section \<open>Environment\<close>

record 'db page_store =
  PS_rows :: "'db \<Rightarrow> uuid \<Rightarrow> PageResult list option"
  PS_file :: "'db \<Rightarrow> uuid \<Rightarrow> (uuid \<times> string) option"
  PS_upsert :: "uuid \<Rightarrow> int \<Rightarrow> PageResult \<Rightarrow> 'db \<Rightarrow> 'db"

text \<open>\<open>PE_answers\<close> are the possible answers of the pool to a job; its second argument says whether the context of the
  processing is cancelled.\<close>

record 'db process_env =
  PE_config :: PdfCoordinatorConfig
  PE_answers :: "PageJob \<Rightarrow> bool \<Rightarrow> page_answer \<Rightarrow> bool"
  PE_store :: "'db page_store"
  PE_tenant :: uuid
  PE_file :: uuid
  PE_path :: string
  PE_total :: int

section \<open>Rows\<close>

definition with_classification :: "PageClassification option \<Rightarrow> PageResult \<Rightarrow> PageResult" where
  "with_classification c row =
     (case c of
        None \<Rightarrow> row
      | Some cl \<Rightarrow> SetClassification (PC_Classification cl) (PC_Confidence cl) (PC_HasEmbeddedFonts cl) (PC_HasImages cl)
                    (PC_ImageCount cl) (PC_LargeImageCount cl) (PC_TextCharCount cl) row)"

definition class_at :: "'a option list \<Rightarrow> int \<Rightarrow> 'a option" where
  "class_at cls i = (if nat (i - 1) < length cls then cls ! nat (i - 1) else None)"

definition initializePageResults ::
  "'db page_store \<Rightarrow> (int \<Rightarrow> time) \<Rightarrow> uuid \<Rightarrow> uuid \<Rightarrow> int \<Rightarrow> PageClassification option list \<Rightarrow> 'db \<Rightarrow> 'db" where
  "initializePageResults store clock tenant file totalPages cls db =
     fold (\<lambda>i. PS_upsert store file i
             (with_classification (class_at cls i) (NewPageResult (clock i) tenant file i totalPages)))
       [1 .. totalPages] db"

text \<open>The fields that the code does not set have the values of \<^verbatim>\<open>models.PageResult\<close>, the creation time included.\<close>

definition saved_row :: "time \<Rightarrow> uuid \<Rightarrow> uuid \<Rightarrow> PdfPageResult \<Rightarrow> PageResult" where
  "saved_row now tenant file r =
     \<lparr>Page_TenantID = tenant, Page_FileID = file, Page_ProcessingSessionID = None,
      Page_PageNumber = Ppr_PageNumber r, Page_TotalPages = Ppr_TotalPages r,
      Page_Classification = Ppr_Classification r, Page_ClassificationConfidence = Some (Ppr_ClassificationConfidence r),
      Page_HasEmbeddedFonts = False, Page_HasImages = False, Page_ImageCount = 0, Page_LargeImageCount = 0,
      Page_TextCharCount = 0, Page_Content = Ppr_Content r, Page_ContentHash = Ppr_ContentHash r,
      Page_ExtractionMethod = Ppr_ExtractionMethod r, Page_OCRConfidence = Some (Ppr_OCRConfidence r),
      Page_OCRLanguage = Ppr_OCRLanguage r, Page_OCRDPI = Ppr_OCRDPI r, Page_ProcessingStatus = Ppr_Status r,
      Page_ProcessingError = (if Ppr_Error r \<noteq> [] then Some (Ppr_Error r) else None),
      Page_ProcessingStartedAt = None, Page_ProcessingCompletedAt = Some now,
      Page_ProcessingDurationMs = (if Ppr_ProcessingDurationMs r > 0 then Some (Ppr_ProcessingDurationMs r) else None),
      Page_WorkerID = Ppr_WorkerID r, Page_RetryCount = 0, Page_MaxRetries = 0,
      Page_PeakMemoryBytes = (if Ppr_PeakMemoryBytes r > 0 then Ppr_PeakMemoryBytes r else 0), Page_ImageSizeBytes = 0,
      Page_CreatedAt = 0, Page_UpdatedAt = 0\<rparr>"

definition savePageResultToDB :: "'db page_store \<Rightarrow> time \<Rightarrow> uuid \<Rightarrow> uuid \<Rightarrow> PdfPageResult \<Rightarrow> 'db \<Rightarrow> 'db" where
  "savePageResultToDB store now tenant file r db =
     PS_upsert store file (Ppr_PageNumber r) (saved_row now tenant file r) db"

definition result_of_row :: "PageResult \<Rightarrow> PdfPageResult" where
  "result_of_row pr =
     \<lparr>Ppr_JobID = [], Ppr_TenantID = Page_TenantID pr, Ppr_FileID = Page_FileID pr, Ppr_PageNumber = Page_PageNumber pr,
      Ppr_TotalPages = Page_TotalPages pr, Ppr_Classification = Page_Classification pr,
      Ppr_ClassificationConfidence = (case Page_ClassificationConfidence pr of None \<Rightarrow> 0 | Some c \<Rightarrow> c),
      Ppr_Content = Page_Content pr, Ppr_ContentHash = Page_ContentHash pr,
      Ppr_ExtractionMethod = Page_ExtractionMethod pr,
      Ppr_OCRConfidence = (case Page_OCRConfidence pr of None \<Rightarrow> 0 | Some c \<Rightarrow> c),
      Ppr_OCRLanguage = Page_OCRLanguage pr, Ppr_OCRDPI = Page_OCRDPI pr, Ppr_Status = Page_ProcessingStatus pr,
      Ppr_Error = (case Page_ProcessingError pr of None \<Rightarrow> [] | Some e \<Rightarrow> e),
      Ppr_ProcessingDurationMs = (case Page_ProcessingDurationMs pr of None \<Rightarrow> 0 | Some d \<Rightarrow> d),
      Ppr_PeakMemoryBytes = 0, Ppr_ImageSizeBytes = 0, Ppr_WorkerID = Page_WorkerID pr, Ppr_ProcessedAt = 0\<rparr>"

definition empty_result :: "uuid \<Rightarrow> int \<Rightarrow> ProcessingResult" where
  "empty_result file totalPages =
     \<lparr>Pres_FileID = file, Pres_TotalPages = totalPages, Pres_TextOnlyPages = 0, Pres_OCRPages = 0, Pres_SkippedPages = 0,
      Pres_FailedPages = 0, Pres_TotalCharacters = 0, Pres_TotalDuration = 0,
      Pres_PageResults = replicate (nat totalPages) None, Pres_Errors = []\<rparr>"

definition count_class :: "string \<Rightarrow> ProcessingResult \<Rightarrow> ProcessingResult" where
  "count_class c r =
     (if c = ClassTextOnly then r\<lparr>Pres_TextOnlyPages := Pres_TextOnlyPages r + 1\<rparr>
      else if c = ClassScanned \<or> c = ClassImageOnly then r\<lparr>Pres_OCRPages := Pres_OCRPages r + 1\<rparr>
      else if c = ClassEmpty then r\<lparr>Pres_SkippedPages := Pres_SkippedPages r + 1\<rparr>
      else r)"

definition add_row :: "int \<Rightarrow> PageResult \<Rightarrow> ProcessingResult \<Rightarrow> ProcessingResult" where
  "add_row totalPages pr res =
     (if Page_PageNumber pr < 1 \<or> Page_PageNumber pr > totalPages then res
      else (let page = result_of_row pr;
                r1 = count_class (Page_Classification pr)
                       (res\<lparr>Pres_PageResults := (Pres_PageResults res)[nat (Page_PageNumber pr - 1) := Some page]\<rparr>);
                r2 = (if Page_ProcessingStatus pr = PageStatusFailed
                      then r1\<lparr>Pres_FailedPages := Pres_FailedPages r1 + 1,
                              Pres_Errors := Pres_Errors r1 @ [\<lparr>PErr_PageNumber = Page_PageNumber pr, PErr_Error = Ppr_Error page,
                                PErr_Retryable = False, PErr_RetryCount = Page_RetryCount pr\<rparr>]\<rparr>
                      else r1)
            in r2\<lparr>Pres_TotalCharacters := Pres_TotalCharacters r2 + int (length (Page_Content pr)),
                  Pres_TotalDuration := Pres_TotalDuration r2 +
                    (case Page_ProcessingDurationMs pr of None \<Rightarrow> 0 | Some d \<Rightarrow> d)\<rparr>))"

text \<open>The array of a negative number of pages panics.\<close>

definition buildResultFromDB :: "'db page_store \<Rightarrow> 'db \<Rightarrow> uuid \<Rightarrow> int \<Rightarrow> (string, ProcessingResult) outcome" where
  "buildResultFromDB store db file totalPages =
     (case PS_rows store db file of
        None \<Rightarrow> Err ''failed to get page results''
      | Some rows \<Rightarrow> if totalPages < 0 then Panic else Ok (fold (add_row totalPages) rows (empty_result file totalPages)))"

section \<open>Processing\<close>

text \<open>A worker: waiting for the next page, with a page taken from the channel, before an attempt, with the outcome of
  its attempts (none when no attempt is allowed).\<close>

datatype page_worker =
  Waiting
| Took int string
| Trying int string int
| Tried int string "page_answer option"

record 'db page_run =
  Run_queue :: "(int \<times> string) list"
  Run_workers :: "page_worker list"
  Run_cancelled :: bool
  Run_crashed :: bool
  Run_result :: ProcessingResult
  Run_errors :: "ProcessingError list"
  Run_db :: "'db option"

definition page_work :: "PageClassification option list \<Rightarrow> int \<Rightarrow> (int \<times> string) list" where
  "page_work cls totalPages =
     map (\<lambda>i. (i, case class_at cls i of None \<Rightarrow> ClassUnknown | Some cl \<Rightarrow> PC_Classification cl)) [1 .. totalPages]"

definition num_workers :: "PdfCoordinatorConfig \<Rightarrow> int" where
  "num_workers cfg = (if PCC_MaxConcurrentWorkers cfg \<le> 0 then 4 else PCC_MaxConcurrentWorkers cfg)"

definition classified_result :: "uuid \<Rightarrow> int \<Rightarrow> PageClassification option list \<Rightarrow> ProcessingResult" where
  "classified_result file totalPages cls =
     fold (\<lambda>c. case c of None \<Rightarrow> id | Some cl \<Rightarrow> count_class (PC_Classification cl)) cls (empty_result file totalPages)"

text \<open>The state when the workers start.\<close>

definition run_start :: "'db process_env \<Rightarrow> (int \<Rightarrow> time) \<Rightarrow> PageClassification option list \<Rightarrow> 'db option \<Rightarrow> 'db page_run" where
  "run_start env clock cls db =
     \<lparr>Run_queue = page_work cls (PE_total env),
      Run_workers = replicate (nat (num_workers (PE_config env))) Waiting, Run_cancelled = False, Run_crashed = False,
      Run_result = classified_result (PE_file env) (PE_total env) cls, Run_errors = [],
      Run_db = map_option (initializePageResults (PE_store env) clock (PE_tenant env) (PE_file env) (PE_total env) cls) db\<rparr>"

text \<open>The first part of \<^verbatim>\<open>Process\<close>: the number of pages, their classes, the rows.\<close>

definition process_start :: "'img pdf_tools \<Rightarrow> 'db process_env \<Rightarrow> (int \<Rightarrow> time) \<Rightarrow> int set \<Rightarrow> 'db option \<Rightarrow>
    (string, 'db process_env \<times> 'db page_run) outcome" where
  "process_start tools env clock given_up db =
     bind_outcome (prefix_error ''failed to get page count: '' (GetPageCount tools (PE_path env)))
       (\<lambda>n. bind_outcome (prefix_error ''classification failed: ''
               (ClassifyAllPages tools (extractor_config (PCC_Extraction (PE_config env))) given_up (PE_path env) n))
             (\<lambda>cls. Ok (env\<lparr>PE_total := n\<rparr>, run_start (env\<lparr>PE_total := n\<rparr>) clock cls db)))"

definition page_job :: "'db process_env \<Rightarrow> string \<Rightarrow> int \<Rightarrow> string \<Rightarrow> PageJob" where
  "page_job env newID pn classification =
     \<lparr>PJ_JobID = newID, PJ_TenantID = PE_tenant env, PJ_FileID = PE_file env, PJ_SessionID = None, PJ_PDFPath = PE_path env,
      PJ_PageNumber = pn, PJ_TotalPages = PE_total env, PJ_Classification = classification,
      PJ_Config = PCC_Extraction (PE_config env)\<rparr>"

definition answered :: "page_answer option \<Rightarrow> bool" where
  "answered a \<longleftrightarrow> (case a of Some (Inr r) \<Rightarrow> Ppr_Status r = StatusCompleted | _ \<Rightarrow> False)"

definition answer_error :: "page_answer option \<Rightarrow> string" where
  "answer_error a =
     (case a of
        None \<Rightarrow> ''unknown error''
      | Some (Inl e) \<Rightarrow> e
      | Some (Inr r) \<Rightarrow> if Ppr_Error r \<noteq> [] then Ppr_Error r else ''unknown error'')"

definition failed_page :: "int \<Rightarrow> int \<Rightarrow> string \<Rightarrow> string \<Rightarrow> time \<Rightarrow> PdfPageResult" where
  "failed_page pn totalPages classification msg now =
     \<lparr>Ppr_JobID = [], Ppr_TenantID = nil_uuid, Ppr_FileID = nil_uuid, Ppr_PageNumber = pn, Ppr_TotalPages = totalPages,
      Ppr_Classification = classification, Ppr_ClassificationConfidence = 0, Ppr_Content = [], Ppr_ContentHash = [],
      Ppr_ExtractionMethod = [], Ppr_OCRConfidence = 0, Ppr_OCRLanguage = [], Ppr_OCRDPI = 0, Ppr_Status = StatusFailed,
      Ppr_Error = msg, Ppr_ProcessingDurationMs = 0, Ppr_PeakMemoryBytes = 0, Ppr_ImageSizeBytes = 0, Ppr_WorkerID = [],
      Ppr_ProcessedAt = now\<rparr>"

definition answer_page :: "int \<Rightarrow> int \<Rightarrow> string \<Rightarrow> time \<Rightarrow> page_answer option \<Rightarrow> PdfPageResult" where
  "answer_page pn totalPages classification now a =
     (case a of Some (Inr r) \<Rightarrow> r | _ \<Rightarrow> failed_page pn totalPages classification (answer_error a) now)"

definition put_page :: "int \<Rightarrow> PdfPageResult \<Rightarrow> ProcessingResult \<Rightarrow> ProcessingResult" where
  "put_page pn page res = res\<lparr>Pres_PageResults := (Pres_PageResults res)[nat (pn - 1) := Some page]\<rparr>"

definition add_failure :: "int \<Rightarrow> string \<Rightarrow> int \<Rightarrow> 'db page_run \<Rightarrow> 'db page_run" where
  "add_failure pn msg retries s =
     s\<lparr>Run_errors := Run_errors s @ [\<lparr>PErr_PageNumber = pn, PErr_Error = msg, PErr_Retryable = True, PErr_RetryCount = retries\<rparr>],
       Run_result := (Run_result s)\<lparr>Pres_FailedPages := Pres_FailedPages (Run_result s) + 1\<rparr>\<rparr>"

text \<open>The page of a cancelled processing gets no row.\<close>

definition cancel_page :: "'db process_env \<Rightarrow> time \<Rightarrow> int \<Rightarrow> string \<Rightarrow> 'db page_run \<Rightarrow> 'db page_run" where
  "cancel_page env now pn classification s =
     (let s1 = add_failure pn ''processing cancelled'' 0 s
      in s1\<lparr>Run_result := put_page pn (failed_page pn (PE_total env) classification ''processing cancelled'' now) (Run_result s1)\<rparr>)"

text \<open>The part under the mutex; the remainder for the log panics for a checkpoint interval of zero.\<close>

definition record_page :: "'db process_env \<Rightarrow> time \<Rightarrow> int \<Rightarrow> string \<Rightarrow> page_answer option \<Rightarrow> 'db page_run \<Rightarrow> 'db page_run" where
  "record_page env now pn classification a s =
     (let page = answer_page pn (PE_total env) classification now a;
          s1 = (if answered a
                then s\<lparr>Run_result := (Run_result s)\<lparr>Pres_TotalCharacters :=
                         Pres_TotalCharacters (Run_result s) + int (length (Ppr_Content page))\<rparr>\<rparr>
                else add_failure pn (answer_error a) (PCC_MaxRetries (PE_config env)) s)
      in s1\<lparr>Run_result := put_page pn page (Run_result s1),
            Run_db := map_option (savePageResultToDB (PE_store env) now (PE_tenant env) (PE_file env) page) (Run_db s1),
            Run_crashed := (PCC_CheckpointInterval (PE_config env) = 0)\<rparr>)"

definition set_worker :: "nat \<Rightarrow> page_worker \<Rightarrow> 'db page_run \<Rightarrow> 'db page_run" where
  "set_worker w x s = s\<lparr>Run_workers := (Run_workers s)[w := x]\<rparr>"

definition worker_is :: "nat \<Rightarrow> page_worker \<Rightarrow> 'db page_run \<Rightarrow> bool" where
  "worker_is w x s \<longleftrightarrow> w < length (Run_workers s) \<and> Run_workers s ! w = x \<and> \<not> Run_crashed s"

inductive worker_step :: "'db process_env \<Rightarrow> 'db page_run \<Rightarrow> 'db page_run \<Rightarrow> bool" for env where
step_take: "worker_is w Waiting s \<Longrightarrow> Run_queue s = (pn, c) # rest \<Longrightarrow>
    worker_step env s (set_worker w (Took pn c) s\<lparr>Run_queue := rest\<rparr>)"
| step_reject: "worker_is w (Took pn c) s \<Longrightarrow> Run_cancelled s \<Longrightarrow>
    worker_step env s (set_worker w Waiting (cancel_page env now pn c s))"
| step_begin: "worker_is w (Took pn c) s \<Longrightarrow> \<not> Run_cancelled s \<Longrightarrow>
    worker_step env s (set_worker w (if 0 \<le> PCC_MaxRetries (PE_config env) then Trying pn c 0 else Tried pn c None) s)"
| step_attempt: "worker_is w (Trying pn c k) s \<Longrightarrow> PE_answers env (page_job env newID pn c) (Run_cancelled s) a \<Longrightarrow>
    worker_step env s
      (set_worker w (if answered (Some a) \<or> PCC_MaxRetries (PE_config env) < k + 1 then Tried pn c (Some a) else Trying pn c (k + 1)) s)"
| step_record: "worker_is w (Tried pn c a) s \<Longrightarrow>
    worker_step env s (set_worker w Waiting (record_page env now pn c a s))"

text \<open>The cancellation of the caller's context reaches the workers at any time.\<close>

inductive process_step :: "'db process_env \<Rightarrow> 'db page_run \<Rightarrow> 'db page_run \<Rightarrow> bool" for env where
  step_work: "worker_step env s s' \<Longrightarrow> process_step env s s'"
| step_cancel: "\<not> Run_cancelled s \<Longrightarrow> \<not> Run_crashed s \<Longrightarrow> process_step env s (s\<lparr>Run_cancelled := True\<rparr>)"

abbreviation process_run :: "'db process_env \<Rightarrow> 'db page_run \<Rightarrow> 'db page_run \<Rightarrow> bool" where
  "process_run env \<equiv> (process_step env)\<^sup>*\<^sup>*"

text \<open>All workers have returned; the result is then complete.\<close>

definition run_over :: "'db page_run \<Rightarrow> bool" where
  "run_over s \<longleftrightarrow> \<not> Run_crashed s \<and> Run_queue s = [] \<and> (\<forall>w \<in> set (Run_workers s). w = Waiting)"

definition process_result :: "duration \<Rightarrow> 'db page_run \<Rightarrow> ProcessingResult" where
  "process_result elapsed s =
     (Run_result s)\<lparr>Pres_Errors := Run_errors s, Pres_TotalDuration := go_quot elapsed 1000000\<rparr>"

section \<open>Resuming\<close>

definition pending_pages :: "PageResult list \<Rightarrow> int list" where
  "pending_pages rows =
     map Page_PageNumber (filter (\<lambda>pr. Page_ProcessingStatus pr = PageStatusPending) rows) @
     map Page_PageNumber (filter (\<lambda>pr. Page_ProcessingStatus pr \<noteq> PageStatusPending \<and>
                                      Page_ProcessingStatus pr = PageStatusFailed \<and> PageCanRetry pr) rows)"

definition resume_class :: "PageResult list \<Rightarrow> int \<Rightarrow> string" where
  "resume_class rows pn = (case find (\<lambda>pr. Page_PageNumber pr = pn) rows of None \<Rightarrow> ClassUnknown | Some pr \<Rightarrow> Page_Classification pr)"

definition resume_job :: "PdfCoordinatorConfig \<Rightarrow> string \<Rightarrow> uuid \<Rightarrow> uuid \<Rightarrow> string \<Rightarrow> int \<Rightarrow> PageResult list \<Rightarrow> int \<Rightarrow> PageJob" where
  "resume_job cfg newID tenant file path totalPages rows pn =
     \<lparr>PJ_JobID = newID, PJ_TenantID = tenant, PJ_FileID = file, PJ_SessionID = None, PJ_PDFPath = path,
      PJ_PageNumber = pn, PJ_TotalPages = totalPages, PJ_Classification = resume_class rows pn,
      PJ_Config = PCC_Extraction cfg\<rparr>"

text \<open>What a worker does with the one answer of the pool; the error list that the code also fills is not part of its
  result.\<close>

definition resume_page :: "'db page_store \<Rightarrow> time \<Rightarrow> uuid \<Rightarrow> uuid \<Rightarrow> page_answer \<Rightarrow> 'db \<Rightarrow> 'db" where
  "resume_page store now tenant file a db =
     (case a of Inl _ \<Rightarrow> db | Inr r \<Rightarrow> savePageResultToDB store now tenant file r db)"

text \<open>\<open>order\<close> is the order in which the workers come to the mutex, with the answer and the time of each page.\<close>

definition Resume :: "'db page_store \<Rightarrow> (int \<times> page_answer \<times> time) list \<Rightarrow> uuid \<Rightarrow> 'db option \<Rightarrow>
    (string, ProcessingResult \<times> 'db) outcome" where
  "Resume store order file db0 =
     (case db0 of
        None \<Rightarrow> Err ''database required for resume''
      | Some db \<Rightarrow>
          (case PS_rows store db file of
             None \<Rightarrow> Err ''failed to get page results''
           | Some [] \<Rightarrow> Err (''no page results found for file '' @ file)
           | Some (row # rows) \<Rightarrow>
               (case PS_file store db file of
                  None \<Rightarrow> Err ''failed to get file''
                | Some (tenant, path) \<Rightarrow>
                    (let db' = (if pending_pages (row # rows) = [] then db
                                else fold (\<lambda>(pn, a, now). resume_page store now tenant file a) order db)
                     in bind_outcome (buildResultFromDB store db' file (Page_TotalPages row)) (\<lambda>r. Ok (r, db'))))))"

section \<open>The pages of a run\<close>

definition worker_page :: "page_worker \<Rightarrow> (int \<times> string) list" where
  "worker_page w = (case w of Waiting \<Rightarrow> [] | Took p c \<Rightarrow> [(p, c)] | Trying p c k \<Rightarrow> [(p, c)] | Tried p c a \<Rightarrow> [(p, c)])"

lemma worker_page_simps [simp]:
  "worker_page Waiting = []" "worker_page (Took p c) = [(p, c)]" "worker_page (Trying p c k) = [(p, c)]"
  "worker_page (Tried p c a) = [(p, c)]"
  by (simp_all add: worker_page_def)

definition outstanding :: "'db page_run \<Rightarrow> (int \<times> string) multiset" where
  "outstanding s = mset (Run_queue s) + mset (concat (map worker_page (Run_workers s)))"

lemma mset_concat_update:
  "w < length ws \<Longrightarrow>
     mset (concat (map f (ws[w := x]))) + mset (f (ws ! w)) = mset (concat (map f ws)) + mset (f x)"
  by (induction ws arbitrary: w) (auto split: nat.splits)

lemma outstanding_update:
  assumes "w < length (Run_workers s)" "Run_workers s ! w = y" "Run_workers s' = (Run_workers s)[w := x]"
    and "Run_queue s' = Run_queue s"
  shows "outstanding s' + mset (worker_page y) = outstanding s + mset (worker_page x)"
  using mset_concat_update [of w "Run_workers s" worker_page x] assms by (simp add: outstanding_def ac_simps)

definition page_failed :: "PdfPageResult option \<Rightarrow> bool" where
  "page_failed r \<longleftrightarrow> (case r of None \<Rightarrow> False | Some p \<Rightarrow> Ppr_Status p \<noteq> StatusCompleted)"

definition page_chars :: "PdfPageResult option \<Rightarrow> int" where
  "page_chars r = (case r of None \<Rightarrow> 0 | Some p \<Rightarrow> if Ppr_Status p = StatusCompleted then int (length (Ppr_Content p)) else 0)"

lemma page_of_None [simp]: "\<not> page_failed None" "page_chars None = 0"
  by (simp_all add: page_failed_def page_chars_def)

text \<open>Which pages have a result, and what the counters and the list of errors say about them.\<close>

definition pages_inv :: "int \<Rightarrow> (int \<times> string) multiset \<Rightarrow> ProcessingResult \<Rightarrow> ProcessingError list \<Rightarrow> bool" where
  "pages_inv n out res errs \<longleftrightarrow>
     (let prs = Pres_PageResults res
      in length prs = nat n \<and>
         (\<forall>p \<in># image_mset fst out. 1 \<le> p \<and> p \<le> n) \<and>
         (\<forall>p. 1 \<le> p \<longrightarrow> p \<le> n \<longrightarrow> count (image_mset fst out) p = (if prs ! nat (p - 1) = None then 1 else 0)) \<and>
         Pres_FailedPages res = (\<Sum>r\<leftarrow>prs. if page_failed r then 1 else 0) \<and>
         Pres_TotalCharacters res = (\<Sum>r\<leftarrow>prs. page_chars r) \<and>
         int (length errs) = Pres_FailedPages res \<and> distinct (map PErr_PageNumber errs) \<and>
         (\<forall>p. p \<in> set (map PErr_PageNumber errs) \<longleftrightarrow> 1 \<le> p \<and> p \<le> n \<and> page_failed (prs ! nat (p - 1))))"

lemma pages_inv_record:
  assumes inv: "pages_inv n (add_mset (pn, c) out) res errs"
    and page: "page_failed (Some page) = (errs' \<noteq> errs)" "errs' = errs \<or> (\<exists>e. errs' = errs @ [e] \<and> PErr_PageNumber e = pn)"
    and failed: "Pres_FailedPages res' = Pres_FailedPages res + (if errs' = errs then 0 else 1)"
    and chars: "Pres_TotalCharacters res' = Pres_TotalCharacters res + page_chars (Some page)"
    and results: "Pres_PageResults res' = (Pres_PageResults res)[nat (pn - 1) := Some page]"
  shows "pages_inv n out res' errs'"
proof -
  let ?prs = "Pres_PageResults res" and ?i = "nat (pn - 1)"
  have len: "length ?prs = nat n" and pn: "1 \<le> pn" "pn \<le> n"
    and cnt: "\<And>p. 1 \<le> p \<Longrightarrow> p \<le> n \<Longrightarrow>
      count (image_mset fst (add_mset (pn, c) out)) p = (if ?prs ! nat (p - 1) = None then 1 else 0)"
    and sums: "Pres_FailedPages res = (\<Sum>r\<leftarrow>?prs. if page_failed r then 1 else 0)"
      "Pres_TotalCharacters res = (\<Sum>r\<leftarrow>?prs. page_chars r)"
    and errs: "int (length errs) = Pres_FailedPages res" "distinct (map PErr_PageNumber errs)"
      "\<And>p. p \<in> set (map PErr_PageNumber errs) \<longleftrightarrow> 1 \<le> p \<and> p \<le> n \<and> page_failed (?prs ! nat (p - 1))"
    and out: "\<forall>p \<in># image_mset fst out. 1 \<le> p \<and> p \<le> n"
    using inv by (auto simp: pages_inv_def Let_def)
  have i: "?i < length ?prs" using pn len by auto
  have old: "?prs ! ?i = None" using cnt [of pn] pn by (auto split: if_splits)
  have other: "(?prs[?i := Some page]) ! nat (p - 1) = (if p = pn then Some page else ?prs ! nat (p - 1))"
    if "1 \<le> p" "p \<le> n" for p
    using that pn i by (auto simp: nth_list_update)
  have cnt': "count (image_mset fst out) p = (if (?prs[?i := Some page]) ! nat (p - 1) = None then 1 else 0)"
    if "1 \<le> p" "p \<le> n" for p
    using cnt [OF that] other [OF that] old by (cases "p = pn") auto
  have new: "pn \<notin> set (map PErr_PageNumber errs)" using errs(3) [of pn] old by simp
  have "(\<Sum>r\<leftarrow>?prs[?i := Some page]. if page_failed r then 1 else 0) =
      (\<Sum>r\<leftarrow>?prs. if page_failed r then 1 else 0) + (if page_failed (Some page) then 1 else 0 :: int)"
    using sum_list_map_update [OF i, of "\<lambda>r. if page_failed r then 1 else 0" "Some page"] old by simp
  moreover have "(\<Sum>r\<leftarrow>?prs[?i := Some page]. page_chars r) = (\<Sum>r\<leftarrow>?prs. page_chars r) + page_chars (Some page)"
    using sum_list_map_update [OF i, of page_chars "Some page"] old by simp
  moreover have "p \<in> set (map PErr_PageNumber errs') \<longleftrightarrow>
      1 \<le> p \<and> p \<le> n \<and> page_failed ((?prs[?i := Some page]) ! nat (p - 1))" for p
    using page pn errs(3) [of p] other [of p] new by (auto split: if_splits)
  moreover have "distinct (map PErr_PageNumber errs')" "int (length errs') = Pres_FailedPages res'"
    using page(2) errs(1,2) new failed by auto
  ultimately show ?thesis
    unfolding pages_inv_def Let_def results using len out cnt' failed chars sums page(1) by auto
qed

lemma count_class_simps [simp]:
  "Pres_PageResults (count_class c r) = Pres_PageResults r" "Pres_FailedPages (count_class c r) = Pres_FailedPages r"
  "Pres_TotalCharacters (count_class c r) = Pres_TotalCharacters r" "Pres_TotalPages (count_class c r) = Pres_TotalPages r"
  by (simp_all add: count_class_def)

lemma classified_result_simps [simp]:
  "Pres_PageResults (classified_result file n cls) = replicate (nat n) None"
  "Pres_FailedPages (classified_result file n cls) = 0" "Pres_TotalCharacters (classified_result file n cls) = 0"
  "Pres_TotalPages (classified_result file n cls) = n"
proof -
  have "Pres_PageResults (fold (\<lambda>c. case c of None \<Rightarrow> id | Some cl \<Rightarrow> count_class (PC_Classification cl)) cls r) = Pres_PageResults r \<and>
    Pres_FailedPages (fold (\<lambda>c. case c of None \<Rightarrow> id | Some cl \<Rightarrow> count_class (PC_Classification cl)) cls r) = Pres_FailedPages r \<and>
    Pres_TotalCharacters (fold (\<lambda>c. case c of None \<Rightarrow> id | Some cl \<Rightarrow> count_class (PC_Classification cl)) cls r) = Pres_TotalCharacters r \<and>
    Pres_TotalPages (fold (\<lambda>c. case c of None \<Rightarrow> id | Some cl \<Rightarrow> count_class (PC_Classification cl)) cls r) = Pres_TotalPages r" for r
    by (induction cls arbitrary: r) (simp_all split: option.split)
  from this [of "empty_result file n"] show "Pres_PageResults (classified_result file n cls) = replicate (nat n) None"
    "Pres_FailedPages (classified_result file n cls) = 0" "Pres_TotalCharacters (classified_result file n cls) = 0"
    "Pres_TotalPages (classified_result file n cls) = n"
    by (simp_all add: classified_result_def empty_result_def)
qed

definition run_inv :: "'db process_env \<Rightarrow> 'db page_run \<Rightarrow> bool" where
  "run_inv env s \<longleftrightarrow> pages_inv (PE_total env) (outstanding s) (Run_result s) (Run_errors s)"

lemma outstanding_start: "outstanding (run_start env clock cls db) = mset (page_work cls (PE_total env))"
  by (simp add: outstanding_def run_start_def)

lemma count_page_work: "count (image_mset fst (mset (page_work cls n))) p = (if 1 \<le> p \<and> p \<le> n then 1 else 0)"
proof -
  have "image_mset fst (mset (page_work cls n)) = mset [1 .. n]" by (simp add: page_work_def comp_def flip: mset_map)
  moreover have "count (mset [1 .. n]) p = (if p \<in> set [1 .. n] then 1 else 0)"
    using distinct_count_atmost_1 [of "[1 .. n]"] by simp
  ultimately show ?thesis by simp
qed

lemma run_inv_start: "run_inv env (run_start env clock cls db)"
proof -
  have p: "\<forall>p \<in># image_mset fst (mset (page_work cls n)). 1 \<le> p \<and> p \<le> n" for n
    using count_page_work [of cls n] by (metis count_eq_zero_iff)
  show ?thesis
    unfolding run_inv_def outstanding_start pages_inv_def Let_def
    using p by (auto simp: run_start_def count_page_work sum_list_replicate map_replicate_const)
qed

lemma set_worker_simps [simp]:
  "Run_queue (set_worker w x s) = Run_queue s" "Run_result (set_worker w x s) = Run_result s"
  "Run_errors (set_worker w x s) = Run_errors s" "Run_workers (set_worker w x s) = (Run_workers s)[w := x]"
  "Run_cancelled (set_worker w x s) = Run_cancelled s" "Run_crashed (set_worker w x s) = Run_crashed s"
  by (simp_all add: set_worker_def)

lemma record_page_simps [simp]:
  "Run_queue (record_page env now pn c a s) = Run_queue s" "Run_workers (record_page env now pn c a s) = Run_workers s"
  "Run_cancelled (record_page env now pn c a s) = Run_cancelled s"
  "Run_queue (cancel_page env now pn c s) = Run_queue s" "Run_workers (cancel_page env now pn c s) = Run_workers s"
  "Run_cancelled (cancel_page env now pn c s) = Run_cancelled s" "Run_crashed (cancel_page env now pn c s) = Run_crashed s"
  by (simp_all add: record_page_def cancel_page_def add_failure_def Let_def)

lemma answer_page_failed: "page_failed (Some (answer_page pn n c now a)) \<longleftrightarrow> \<not> answered a"
  by (auto simp: page_failed_def answer_page_def answered_def failed_page_def split: option.splits sum.splits)

lemma not_failed_chars: "\<not> page_failed (Some p) \<Longrightarrow> page_chars (Some p) = int (length (Ppr_Content p))"
  "page_failed (Some p) \<Longrightarrow> page_chars (Some p) = 0"
  by (simp_all add: page_failed_def page_chars_def)

lemma pages_inv_record_page:
  assumes "pages_inv (PE_total env) (add_mset (pn, c) out) (Run_result s) (Run_errors s)"
  shows "pages_inv (PE_total env) out (Run_result (record_page env now pn c a s)) (Run_errors (record_page env now pn c a s))"
  using assms
  by (rule pages_inv_record [where page = "answer_page pn (PE_total env) c now a"])
     (auto simp: record_page_def add_failure_def put_page_def Let_def answer_page_failed not_failed_chars)

lemma pages_inv_cancel_page:
  assumes "pages_inv (PE_total env) (add_mset (pn, c) out) (Run_result s) (Run_errors s)"
  shows "pages_inv (PE_total env) out (Run_result (cancel_page env now pn c s)) (Run_errors (cancel_page env now pn c s))"
  using assms
  by (rule pages_inv_record [where page = "failed_page pn (PE_total env) c ''processing cancelled'' now"])
     (auto simp: cancel_page_def add_failure_def put_page_def Let_def page_failed_def page_chars_def failed_page_def)

lemma worker_update:
  assumes "worker_is w y s" "Run_workers s' = (Run_workers s)[w := x]" "Run_queue s' = Run_queue s"
  shows "outstanding s' + mset (worker_page y) = outstanding s + mset (worker_page x)"
  using assms by (intro outstanding_update) (simp_all add: worker_is_def)

lemma worker_step_inv: "worker_step env s s' \<Longrightarrow> run_inv env s \<Longrightarrow> run_inv env s'"
proof (induction rule: worker_step.induct)
  case (step_take w s pn c rest)
  let ?s' = "set_worker w (Took pn c) s\<lparr>Run_queue := rest\<rparr>"
  have "outstanding (?s'\<lparr>Run_queue := Run_queue s\<rparr>) = outstanding s + {#(pn, c)#}"
    using worker_update [OF step_take(1), of "?s'\<lparr>Run_queue := Run_queue s\<rparr>" "Took pn c"] by simp
  then have "outstanding ?s' = outstanding s" using step_take(2) by (simp add: outstanding_def)
  with step_take show ?case by (simp add: run_inv_def)
next
  case (step_reject w pn c s now)
  let ?s' = "set_worker w Waiting (cancel_page env now pn c s)"
  have "outstanding s = add_mset (pn, c) (outstanding ?s')"
    using worker_update [OF step_reject(1), of ?s' Waiting] by simp
  with step_reject show ?case by (simp add: run_inv_def pages_inv_cancel_page)
next
  case (step_begin w pn c s)
  let ?x = "if 0 \<le> PCC_MaxRetries (PE_config env) then Trying pn c 0 else Tried pn c None"
  have page: "worker_page ?x = [(pn, c)]" by simp
  have "outstanding (set_worker w ?x s) = outstanding s"
    using worker_update [OF step_begin(1), of "set_worker w ?x s" ?x] page by simp
  with step_begin show ?case by (simp add: run_inv_def)
next
  case (step_attempt w pn c k s newID a)
  let ?x = "if answered (Some a) \<or> PCC_MaxRetries (PE_config env) < k + 1 then Tried pn c (Some a) else Trying pn c (k + 1)"
  have page: "worker_page ?x = [(pn, c)]" by simp
  have "outstanding (set_worker w ?x s) = outstanding s"
    using worker_update [OF step_attempt(1), of "set_worker w ?x s" ?x] page by simp
  with step_attempt show ?case by (simp add: run_inv_def)
next
  case (step_record w pn c a s now)
  let ?s' = "set_worker w Waiting (record_page env now pn c a s)"
  have "outstanding s = add_mset (pn, c) (outstanding ?s')"
    using worker_update [OF step_record(1), of ?s' Waiting] by simp
  with step_record show ?case by (simp add: run_inv_def pages_inv_record_page)
qed

lemma process_step_inv: "process_step env s s' \<Longrightarrow> run_inv env s \<Longrightarrow> run_inv env s'"
proof (induction rule: process_step.induct)
  case (step_work s s')
  then show ?case by (rule worker_step_inv)
qed (simp add: run_inv_def outstanding_def)

lemma process_run_inv: "process_run env (run_start env clock cls db) s \<Longrightarrow> run_inv env s"
  by (induction rule: rtranclp_induct) (auto simp: run_inv_start process_step_inv)

section \<open>Progress and termination\<close>

definition worker_rank :: "'db process_env \<Rightarrow> page_worker \<Rightarrow> nat" where
  "worker_rank env w =
     (let m = nat (PCC_MaxRetries (PE_config env))
      in case w of Waiting \<Rightarrow> 0 | Took p c \<Rightarrow> m + 3 | Trying p c k \<Rightarrow> nat (PCC_MaxRetries (PE_config env) - k) + 2 | Tried p c a \<Rightarrow> 1)"

definition run_rank :: "'db process_env \<Rightarrow> 'db page_run \<Rightarrow> nat" where
  "run_rank env s =
     length (Run_queue s) * (nat (PCC_MaxRetries (PE_config env)) + 4) + sum_list (map (worker_rank env) (Run_workers s)) +
     (if Run_cancelled s then 0 else 1)"

lemma rank_update:
  fixes f :: "'a \<Rightarrow> nat"
  shows "i < length xs \<Longrightarrow> sum_list (map f (xs[i := y])) + f (xs ! i) = sum_list (map f xs) + f y"
  by (induction xs arbitrary: i) (auto split: nat.splits)

lemma worker_rank_update:
  assumes "worker_is w y s"
  shows "sum_list (map (worker_rank env) ((Run_workers s)[w := x])) + worker_rank env y =
    sum_list (map (worker_rank env) (Run_workers s)) + worker_rank env x"
  using rank_update [of w "Run_workers s" "worker_rank env" x] assms by (simp add: worker_is_def)

lemma process_step_rank: "process_step env s s' \<Longrightarrow> run_rank env s' < run_rank env s"
proof (induction rule: process_step.induct)
  case (step_work s s')
  then show ?case
  proof (induction rule: worker_step.induct)
    case (step_take w s pn c rest)
    then show ?case using worker_rank_update [OF step_take(1), of env "Took pn c"]
      by (simp add: run_rank_def worker_rank_def Let_def)
  next
    case (step_reject w pn c s now)
    then show ?case using worker_rank_update [OF step_reject(1), of env Waiting]
      by (simp add: run_rank_def worker_rank_def Let_def)
  next
    case (step_begin w pn c s)
    let ?x = "if 0 \<le> PCC_MaxRetries (PE_config env) then Trying pn c 0 else Tried pn c None"
    have "worker_rank env ?x < worker_rank env (Took pn c)" by (simp add: worker_rank_def Let_def)
    then show ?case using worker_rank_update [OF step_begin(1), of env ?x] by (simp add: run_rank_def)
  next
    case (step_attempt w pn c k s newID a)
    let ?x = "if answered (Some a) \<or> PCC_MaxRetries (PE_config env) < k + 1 then Tried pn c (Some a) else Trying pn c (k + 1)"
    have "worker_rank env ?x < worker_rank env (Trying pn c k)" by (simp add: worker_rank_def Let_def)
    then show ?case using worker_rank_update [OF step_attempt(1), of env ?x] by (simp add: run_rank_def)
  next
    case (step_record w pn c a s now)
    then show ?case using worker_rank_update [OF step_record(1), of env Waiting]
      by (simp add: run_rank_def worker_rank_def Let_def)
  qed
qed (simp add: run_rank_def)

lemma worker_step_length: "worker_step env s s' \<Longrightarrow> length (Run_workers s') = length (Run_workers s)"
  by (induction rule: worker_step.induct) simp_all

lemma process_run_workers:
  "process_run env (run_start env clock cls db) s \<Longrightarrow> length (Run_workers s) = nat (num_workers (PE_config env))"
proof (induction rule: rtranclp_induct)
  case base
  show ?case by (simp add: run_start_def)
next
  case (step s s')
  then show ?case by (auto elim!: process_step.cases dest: worker_step_length)
qed

lemma num_workers_pos: "0 < num_workers cfg" by (simp add: num_workers_def)

text \<open>A run that is neither over nor crashed can go on, whatever the pool answers.\<close>

lemma worker_progress:
  assumes "\<not> Run_crashed s" "\<not> run_over s" "Run_workers s \<noteq> []"
    and answers: "\<And>job c. \<exists>a. PE_answers env job c a"
  shows "\<exists>s'. worker_step env s s'"
proof (cases "\<forall>w \<in> set (Run_workers s). w = Waiting")
  case True
  with assms obtain pn c rest where "Run_queue s = (pn, c) # rest" by (cases "Run_queue s") (auto simp: run_over_def)
  moreover have "worker_is 0 Waiting s" using True assms by (auto simp: worker_is_def)
  ultimately show ?thesis using step_take by blast
next
  case False
  then obtain w x where x: "worker_is w x s" "x \<noteq> Waiting"
    using assms(1) by (auto simp: worker_is_def in_set_conv_nth)
  show ?thesis
  proof (cases x)
    case Waiting
    with x show ?thesis by simp
  next
    case (Took pn c)
    with x show ?thesis using step_reject step_begin by (metis (full_types))
  next
    case (Trying pn c k)
    obtain a where "PE_answers env (page_job env [] pn c) (Run_cancelled s) a" using answers by blast
    with x Trying show ?thesis using step_attempt by blast
  next
    case (Tried pn c a)
    with x show ?thesis using step_record by blast
  qed
qed

text \<open>Whether the run crashed, and what was recorded before.\<close>

lemma crash_inv:
  assumes "process_run env (run_start env clock cls db) s"
  shows "Run_crashed s \<longrightarrow> PCC_CheckpointInterval (PE_config env) = 0"
    and "PCC_CheckpointInterval (PE_config env) = 0 \<longrightarrow> \<not> Run_crashed s \<longrightarrow> \<not> Run_cancelled s \<longrightarrow>
      (\<forall>r \<in> set (Pres_PageResults (Run_result s)). r = None)"
  using assms
proof (induction rule: rtranclp_induct)
  case base
  { case 1 show ?case by (simp add: run_start_def) }
  { case 2 show ?case by (simp add: run_start_def) }
next
  case (step s s')
  { case 1 from step show ?case
      by (auto elim!: process_step.cases worker_step.cases simp: record_page_def worker_is_def Let_def) }
  { case 2 from step show ?case
      by (auto elim!: process_step.cases worker_step.cases simp: record_page_def worker_is_def Let_def) }
qed

lemma run_over_outstanding: "run_over s \<Longrightarrow> outstanding s = {#}"
  by (auto simp: run_over_def outstanding_def)

section \<open>Blank pages\<close>

text \<open>A page is worked on under the class of its work item, and a blank page gets no completed result.\<close>

definition blank_ok :: "string \<Rightarrow> PdfPageResult \<Rightarrow> bool" where
  "blank_ok c r \<longleftrightarrow> (c = ClassEmpty \<longrightarrow> Ppr_Status r \<noteq> StatusCompleted)"

definition blank_worker :: "page_worker \<Rightarrow> bool" where
  "blank_worker w \<longleftrightarrow> (case w of Tried p c (Some (Inr r)) \<Rightarrow> blank_ok c r | _ \<Rightarrow> True)"

definition blank_inv :: "(int \<times> string) set \<Rightarrow> 'db page_run \<Rightarrow> bool" where
  "blank_inv work s \<longleftrightarrow>
     set (Run_queue s) \<subseteq> work \<and> (\<forall>w \<in> set (Run_workers s). set (worker_page w) \<subseteq> work \<and> blank_worker w) \<and>
     (\<forall>i r. i < length (Pres_PageResults (Run_result s)) \<longrightarrow> Pres_PageResults (Run_result s) ! i = Some r \<longrightarrow>
        (\<exists>pn c. (pn, c) \<in> work \<and> nat (pn - 1) = i \<and> blank_ok c r))"

lemma blank_inv_worker:
  "blank_inv work s \<Longrightarrow> worker_is w x s \<Longrightarrow> set (worker_page x) \<subseteq> work \<and> blank_worker x"
  by (auto simp: blank_inv_def worker_is_def)

lemma blank_inv_set_worker:
  "blank_inv work s \<Longrightarrow> set (worker_page x) \<subseteq> work \<Longrightarrow> blank_worker x \<Longrightarrow> blank_inv work (set_worker w x s)"
  unfolding blank_inv_def set_worker_simps by (auto dest!: set_update_subset_insert [THEN subsetD])

lemma blank_inv_put:
  assumes "blank_inv work s" "(pn, c) \<in> work" "blank_ok c page" "Run_queue s' = Run_queue s" "Run_workers s' = Run_workers s"
    and "Pres_PageResults (Run_result s') = (Pres_PageResults (Run_result s))[nat (pn - 1) := Some page]"
  shows "blank_inv work s'"
proof -
  have "\<exists>pn c. (pn, c) \<in> work \<and> nat (pn - 1) = i \<and> blank_ok c r"
    if "i < length (Pres_PageResults (Run_result s'))" "Pres_PageResults (Run_result s') ! i = Some r" for i r
  proof (cases "i = nat (pn - 1)")
    case True
    with that assms(6) have "r = page" by simp
    with True assms(2,3) show ?thesis by blast
  next
    case False
    with that assms(1,6) show ?thesis by (simp add: blank_inv_def)
  qed
  then show ?thesis using assms(1,4,5) by (simp add: blank_inv_def)
qed

lemma worker_step_blank:
  assumes answers: "\<And>job c r. PE_answers env job c (Inr r) \<Longrightarrow> blank_ok (PJ_Classification job) r"
  shows "worker_step env s s' \<Longrightarrow> blank_inv work s \<Longrightarrow> blank_inv work s'"
proof (induction rule: worker_step.induct)
  case (step_take w s pn c rest)
  then have "blank_inv work (set_worker w (Took pn c) s)"
    by (intro blank_inv_set_worker) (auto simp: blank_inv_def blank_worker_def)
  then show ?case using step_take(2) by (auto simp: blank_inv_def)
next
  case (step_reject w pn c s now)
  then have "(pn, c) \<in> work" using blank_inv_worker by fastforce
  then have "blank_inv work (cancel_page env now pn c s)"
    by (rule blank_inv_put [OF step_reject(3), of pn c "failed_page pn (PE_total env) c ''processing cancelled'' now"])
       (simp_all add: cancel_page_def add_failure_def put_page_def blank_ok_def failed_page_def Let_def)
  then show ?case by (rule blank_inv_set_worker) (simp_all add: blank_worker_def)
next
  case (step_begin w pn c s)
  then have "(pn, c) \<in> work" using blank_inv_worker by fastforce
  with step_begin(3) show ?case by (intro blank_inv_set_worker) (auto simp: blank_worker_def)
next
  case (step_attempt w pn c k s newID a)
  then have "(pn, c) \<in> work" using blank_inv_worker by fastforce
  moreover have "blank_ok c r" if "a = Inr r" for r using answers [of "page_job env newID pn c"] step_attempt(2) that by (fastforce simp: page_job_def)
  ultimately show ?case using step_attempt(3)
    by (intro blank_inv_set_worker) (auto simp: blank_worker_def split: sum.split)
next
  case (step_record w pn c a s now)
  then have w: "(pn, c) \<in> work" "blank_worker (Tried pn c a)" using blank_inv_worker by fastforce+
  have "blank_ok c (answer_page pn (PE_total env) c now a)"
    using w(2) by (auto simp: answer_page_def blank_worker_def blank_ok_def failed_page_def split: option.splits sum.splits)
  with w(1) have "blank_inv work (record_page env now pn c a s)"
    by (intro blank_inv_put [OF step_record(2), of pn c "answer_page pn (PE_total env) c now a"])
       (simp_all add: record_page_def add_failure_def put_page_def Let_def)
  then show ?case by (rule blank_inv_set_worker) (simp_all add: blank_worker_def)
qed

lemma process_run_blank:
  assumes answers: "\<And>job c r. PE_answers env job c (Inr r) \<Longrightarrow> blank_ok (PJ_Classification job) r"
    and run: "process_run env (run_start env clock cls db) s"
  shows "blank_inv (set (page_work cls (PE_total env))) s"
  using run
proof (induction rule: rtranclp_induct)
  case base
  show ?case by (auto simp: blank_inv_def run_start_def blank_worker_def)
next
  case (step s s')
  from step(2) show ?case
  proof (cases rule: process_step.cases)
    case step_work
    with step(3) answers show ?thesis by (blast intro: worker_step_blank)
  qed (use step(3) in \<open>simp add: blank_inv_def\<close>)
qed

lemma inline_blank:
  "inline_answers runs cfg job c (Inr r) \<Longrightarrow> blank_ok (PJ_Classification job) r"
  by (auto elim!: inline_answers.cases
      simp: blank_ok_def ExtractPage_def extract_content_def Let_def split: prod.splits outcome.splits)

text \<open>The numbers of a result agree with its pages and its errors.\<close>

definition result_accounts :: "int \<Rightarrow> ProcessingResult \<Rightarrow> bool" where
  "result_accounts n R \<longleftrightarrow>
    length (Pres_PageResults R) = nat (n) \<and> None \<notin> set (Pres_PageResults R) \<and>
    Pres_FailedPages R = int (length (Pres_Errors R)) \<and>
    Pres_FailedPages R = int (length (filter page_failed (Pres_PageResults R))) \<and>
    distinct (map PErr_PageNumber (Pres_Errors R)) \<and>
    (\<forall>p. p \<in> set (map PErr_PageNumber (Pres_Errors R)) \<longleftrightarrow>
         1 \<le> p \<and> p \<le> n \<and> page_failed (Pres_PageResults R ! nat (p - 1))) \<and>
    Pres_TotalCharacters R = (\<Sum>r\<leftarrow>Pres_PageResults R. page_chars r)"

lemma run_accounts:
  assumes "process_run env (run_start env clock cls db) s" "run_over s"
  shows "result_accounts (PE_total env) (process_result elapsed s)"
proof -
  have inv: "pages_inv (PE_total env) {#} (Run_result s) (Run_errors s)"
    using process_run_inv [OF assms(1)] run_over_outstanding [OF assms(2)] by (simp add: run_inv_def)
  let ?prs = "Pres_PageResults (Run_result s)"
  have "?prs ! i \<noteq> None" if "i < length ?prs" for i
  proof -
    have "1 \<le> int i + 1" "int i + 1 \<le> PE_total env" using that inv by (auto simp: pages_inv_def Let_def)
    with inv have "?prs ! nat (int i + 1 - 1) \<noteq> None" unfolding pages_inv_def Let_def by (metis count_empty image_mset_empty zero_neq_one)
    then show ?thesis by simp
  qed
  then have "None \<notin> set ?prs" by (metis in_set_conv_nth)
  moreover have "(\<Sum>r\<leftarrow>rs. if page_failed r then 1 else 0) = int (length (filter page_failed rs))" for rs
    by (induction rs) auto
  ultimately show ?thesis using inv by (simp add: pages_inv_def Let_def process_result_def result_accounts_def)
qed

section \<open>Properties\<close>

text \<open>C23: When all workers of a run have returned, every page has its result; the number of failed pages is the
  number of errors and of results that are not completed; each such page has exactly one error; the number of
  characters is the one of the completed pages.\<close>

theorem process_accounts:
  assumes "process_run env (run_start env clock cls db) s" "run_over s" "R = process_result elapsed s"
  shows "length (Pres_PageResults R) = nat (PE_total env) \<and> None \<notin> set (Pres_PageResults R) \<and>
    Pres_FailedPages R = int (length (Pres_Errors R)) \<and>
    Pres_FailedPages R = int (length (filter page_failed (Pres_PageResults R))) \<and>
    distinct (map PErr_PageNumber (Pres_Errors R)) \<and>
    (\<forall>p. p \<in> set (map PErr_PageNumber (Pres_Errors R)) \<longleftrightarrow>
         1 \<le> p \<and> p \<le> PE_total env \<and> page_failed (Pres_PageResults R ! nat (p - 1))) \<and>
    Pres_TotalCharacters R = (\<Sum>r\<leftarrow>Pres_PageResults R. page_chars r)"
  using run_accounts [OF assms(1,2), of elapsed] by (simp add: result_accounts_def assms(3))

text \<open>The steps of the workers and of the cancellation always come to an end.\<close>

theorem process_terminates: "\<not> (\<exists>run. \<forall>i. process_step env (run i) (run (Suc i)))"
proof
  assume "\<exists>run. \<forall>i. process_step env (run i) (run (Suc i))"
  then obtain run where "\<forall>i. (run (Suc i), run i) \<in> measure (run_rank env)" using process_step_rank by fastforce
  then show False using wf_measure [of "run_rank env"] by (simp add: wf_iff_no_infinite_down_chain) blast
qed

text \<open>C26: A run whose workers can do nothing more is over when the checkpoint interval is not zero; when it is zero
  and there is a page, the run has crashed unless it was cancelled.  The pool answers every job.\<close>

theorem stopped_run_is_over:
  assumes "process_run env (run_start env clock cls db) s" "\<And>job c. \<exists>a. PE_answers env job c a"
    and "\<not> (\<exists>s'. worker_step env s s')"
  shows "(PCC_CheckpointInterval (PE_config env) \<noteq> 0 \<longrightarrow> run_over s) \<and>
    (PCC_CheckpointInterval (PE_config env) = 0 \<longrightarrow> 1 \<le> PE_total env \<longrightarrow> \<not> Run_cancelled s \<longrightarrow> Run_crashed s)"
proof -
  have workers: "Run_workers s \<noteq> []" using process_run_workers [OF assms(1)] num_workers_pos [of "PE_config env"] by auto
  then have over: "Run_crashed s \<or> run_over s" using worker_progress assms(2,3) by blast
  moreover have False if "PCC_CheckpointInterval (PE_config env) = 0" "1 \<le> PE_total env" "\<not> Run_cancelled s" "\<not> Run_crashed s"
  proof -
    have none: "\<forall>r \<in> set (Pres_PageResults (Run_result s)). r = None" using crash_inv(2) [OF assms(1)] that by blast
    have "run_over s" using over that by blast
    then have "length (Pres_PageResults (Run_result s)) = nat (PE_total env)" "None \<notin> set (Pres_PageResults (Run_result s))"
      using run_accounts [OF assms(1), of 0] by (simp_all add: result_accounts_def process_result_def)
    with none that(2) show False by (cases "Pres_PageResults (Run_result s)") auto
  qed
  ultimately show ?thesis using crash_inv(1) [OF assms(1)] by blast
qed

text \<open>C25: With the inline pool every page classified as empty is listed as an error at the end, whatever the tools
  do.\<close>

theorem blank_pages_fail:
  assumes "process_run env (run_start env clock cls db) s" "run_over s" "PE_answers env = inline_answers runs (PE_config env)"
    and "(p, ClassEmpty) \<in> set (page_work cls (PE_total env))"
  shows "p \<in> set (map PErr_PageNumber (Pres_Errors (process_result elapsed s)))"
proof -
  let ?prs = "Pres_PageResults (Run_result s)"
  have p: "1 \<le> p" "p \<le> PE_total env" using assms(4) by (auto simp: page_work_def)
  have acc: "length ?prs = nat (PE_total env)" "None \<notin> set ?prs"
    "\<And>q. q \<in> set (map PErr_PageNumber (Run_errors s)) \<longleftrightarrow> 1 \<le> q \<and> q \<le> PE_total env \<and> page_failed (?prs ! nat (q - 1))"
    using run_accounts [OF assms(1,2), of 0] by (simp_all add: result_accounts_def process_result_def)
  have i: "nat (p - 1) < length ?prs" using p acc(1) by auto
  then obtain r where r: "?prs ! nat (p - 1) = Some r" using acc(2) by (metis not_None_eq nth_mem)
  have "blank_inv (set (page_work cls (PE_total env))) s"
    by (rule process_run_blank [OF _ assms(1)]) (auto simp: assms(3) dest: inline_blank)
  then have "\<exists>pn c. (pn, c) \<in> set (page_work cls (PE_total env)) \<and> nat (pn - 1) = nat (p - 1) \<and> blank_ok c r"
    using i r unfolding blank_inv_def by blast
  then obtain pn c where c: "(pn, c) \<in> set (page_work cls (PE_total env))" "nat (pn - 1) = nat (p - 1)" "blank_ok c r"
    by blast
  then have "pn = p" using p by (auto simp: page_work_def)
  with c assms(4) have "c = ClassEmpty" by (auto simp: page_work_def)
  with c(3) r have "page_failed (?prs ! nat (p - 1))" by (simp add: blank_ok_def page_failed_def)
  with acc(3) p show ?thesis by (simp add: process_result_def)
qed

section \<open>Rebuilt results\<close>

definition in_range :: "int \<Rightarrow> PageResult \<Rightarrow> bool" where
  "in_range n pr \<longleftrightarrow> 1 \<le> Page_PageNumber pr \<and> Page_PageNumber pr \<le> n"

lemma add_row_pages:
  "Pres_PageResults (add_row n pr res) =
     (if in_range n pr then (Pres_PageResults res)[nat (Page_PageNumber pr - 1) := Some (result_of_row pr)] else Pres_PageResults res)"
  by (simp add: add_row_def in_range_def Let_def)

lemma add_row_simps:
  "Pres_FailedPages (add_row n pr res) =
     Pres_FailedPages res + (if in_range n pr \<and> Page_ProcessingStatus pr = PageStatusFailed then 1 else 0)"
  "Pres_TotalCharacters (add_row n pr res) =
     Pres_TotalCharacters res + (if in_range n pr then int (length (Page_Content pr)) else 0)"
  "map PErr_PageNumber (Pres_Errors (add_row n pr res)) = map PErr_PageNumber (Pres_Errors res) @
     (if in_range n pr \<and> Page_ProcessingStatus pr = PageStatusFailed then [Page_PageNumber pr] else [])"
  "length (Pres_PageResults (add_row n pr res)) = length (Pres_PageResults res)"
  by (simp_all add: add_row_def in_range_def count_class_def Let_def split: option.split)

lemma add_row_results:
  assumes "length (Pres_PageResults res) = nat n" "1 \<le> p" "p \<le> n"
  shows "Pres_PageResults (add_row n pr res) ! nat (p - 1) =
    (if Page_PageNumber pr = p then Some (result_of_row pr) else Pres_PageResults res ! nat (p - 1))"
proof -
  have "nat (Page_PageNumber pr - 1) = nat (p - 1) \<longleftrightarrow> Page_PageNumber pr = p" if "in_range n pr"
    using that assms by (auto simp: in_range_def)
  then show ?thesis using assms by (auto simp: add_row_pages nth_list_update in_range_def)
qed

lemma fold_add_row:
  assumes "length (Pres_PageResults res) = nat n"
  shows "Pres_FailedPages (fold (add_row n) rows res) =
      Pres_FailedPages res + int (length (filter (\<lambda>pr. in_range n pr \<and> Page_ProcessingStatus pr = PageStatusFailed) rows)) \<and>
    Pres_TotalCharacters (fold (add_row n) rows res) =
      Pres_TotalCharacters res + (\<Sum>pr\<leftarrow>filter (in_range n) rows. int (length (Page_Content pr))) \<and>
    map PErr_PageNumber (Pres_Errors (fold (add_row n) rows res)) = map PErr_PageNumber (Pres_Errors res) @
      map Page_PageNumber (filter (\<lambda>pr. in_range n pr \<and> Page_ProcessingStatus pr = PageStatusFailed) rows) \<and>
    length (Pres_PageResults (fold (add_row n) rows res)) = nat n"
  using assms
proof (induction rows arbitrary: res)
  case (Cons pr rows)
  then have "length (Pres_PageResults (add_row n pr res)) = nat n" by (simp add: add_row_simps)
  note IH = Cons.IH [OF this, unfolded add_row_simps]
  show ?case
  proof (cases "in_range n pr")
    case True
    with IH show ?thesis by (cases "Page_ProcessingStatus pr = PageStatusFailed") (simp_all del: PageStatusFailed_def)
  next
    case False
    with IH show ?thesis by (simp del: PageStatusFailed_def)
  qed
qed simp

lemma fold_add_row_results:
  assumes "length (Pres_PageResults res) = nat n" "1 \<le> p" "p \<le> n"
  shows "Pres_PageResults (fold (add_row n) rows res) ! nat (p - 1) =
    (case find (\<lambda>pr. Page_PageNumber pr = p) (rev rows) of
       None \<Rightarrow> Pres_PageResults res ! nat (p - 1) | Some pr \<Rightarrow> Some (result_of_row pr))"
proof (induction rows rule: rev_induct)
  case (snoc pr rows)
  have "length (Pres_PageResults (fold (add_row n) rows res)) = nat n" using fold_add_row [OF assms(1)] by blast
  from add_row_results [OF this assms(2,3), of pr] snoc show ?case by simp
qed (simp add: assms)

text \<open>The result rebuilt from the rows of a file has as failed pages the rows with the status failed, and an
  error for each of them in their order, and it has the last row of each page; its number of characters is the one of
  all rows, the failed ones included; rows outside the pages do not count.  It panics exactly for a negative number
  of pages.\<close>

theorem rebuilt_result_counts:
  assumes "PS_rows store db file = Some rows"
  shows "case buildResultFromDB store db file n of
     Ok R \<Rightarrow> 0 \<le> n \<and>
       map PErr_PageNumber (Pres_Errors R) =
         map Page_PageNumber (filter (\<lambda>pr. in_range n pr \<and> Page_ProcessingStatus pr = PageStatusFailed) rows) \<and>
       Pres_FailedPages R = int (length (Pres_Errors R)) \<and>
       Pres_TotalCharacters R = (\<Sum>pr\<leftarrow>filter (in_range n) rows. int (length (Page_Content pr))) \<and>
       (\<forall>p. 1 \<le> p \<longrightarrow> p \<le> n \<longrightarrow> Pres_PageResults R ! nat (p - 1) =
          map_option result_of_row (find (\<lambda>pr. Page_PageNumber pr = p) (rev rows)))
   | Err e \<Rightarrow> False
   | Panic \<Rightarrow> n < 0"
proof (cases "n < 0")
  case True
  then show ?thesis by (simp add: buildResultFromDB_def assms)
next
  case False
  have len: "length (Pres_PageResults (empty_result file n)) = nat n" by (simp add: empty_result_def)
  let ?R = "fold (add_row n) rows (empty_result file n)"
  note sums = fold_add_row [OF len, of rows]
  have zero: "Pres_Errors (empty_result file n) = []" "Pres_FailedPages (empty_result file n) = 0"
    "Pres_TotalCharacters (empty_result file n) = 0" "Pres_PageResults (empty_result file n) = replicate (nat n) None"
    by (simp_all add: empty_result_def)
  have errs: "map PErr_PageNumber (Pres_Errors ?R) =
      map Page_PageNumber (filter (\<lambda>pr. in_range n pr \<and> Page_ProcessingStatus pr = PageStatusFailed) rows)"
    using sums unfolding zero by simp
  have len_errs: "length (Pres_Errors ?R) =
      length (filter (\<lambda>pr. in_range n pr \<and> Page_ProcessingStatus pr = PageStatusFailed) rows)"
    using arg_cong [OF errs, of length] by simp
  have "Pres_FailedPages ?R = int (length (Pres_Errors ?R))"
    unfolding len_errs using sums unfolding zero by simp
  moreover have "Pres_TotalCharacters ?R = (\<Sum>pr\<leftarrow>filter (in_range n) rows. int (length (Page_Content pr)))"
    using sums unfolding zero by simp
  moreover have "Pres_PageResults ?R ! nat (p - 1) = map_option result_of_row (find (\<lambda>pr. Page_PageNumber pr = p) (rev rows))"
    if "1 \<le> p" "p \<le> n" for p
    using fold_add_row_results [OF len that, of rows] that unfolding zero by (simp split: option.split)
  ultimately show ?thesis using False errs by (simp add: buildResultFromDB_def assms)
qed

text \<open>The errors that the pool gives while a file is resumed are lost: when every attempt fails that way, the
  answer is the result rebuilt from the unchanged rows.\<close>

theorem resume_forgets_errors:
  assumes "PS_rows store db file = Some (row # rows)" "PS_file store db file = Some f"
    and "list_all (\<lambda>(pn, a, now). case a of Inl e \<Rightarrow> True | Inr r \<Rightarrow> False) order"
  shows "Resume store order file (Some db) =
    bind_outcome (buildResultFromDB store db file (Page_TotalPages row)) (\<lambda>r. Ok (r, db))"
proof -
  have "fold (\<lambda>(pn, a, now). resume_page store now tenant file a) order db = db" for tenant
    using assms(3) by (induction order) (auto simp: resume_page_def split: sum.splits)
  then show ?thesis by (simp add: Resume_def assms(1,2) split: prod.split)
qed

section \<open>A run\<close>

text \<open>One blank page, one worker, the inline pool, no retries.\<close>

definition sample_pdf_config :: PdfCoordinatorConfig where
  "sample_pdf_config = DefaultPdfCoordinatorConfig\<lparr>PCC_MaxConcurrentWorkers := 1, PCC_MaxRetries := 0\<rparr>"

definition sample_store :: "PageResult list page_store" where
  "sample_store = \<lparr>PS_rows = \<lambda>db file. Some db, PS_file = \<lambda>db file. Some (nil_uuid, ''a.pdf''),
     PS_upsert = \<lambda>file p row db. filter (\<lambda>r. Page_PageNumber r \<noteq> p) db @ [row]\<rparr>"

definition sample_env :: "PageResult list process_env" where
  "sample_env = \<lparr>PE_config = sample_pdf_config, PE_answers = inline_answers {sample_tools} sample_pdf_config, PE_store = sample_store,
     PE_tenant = nil_uuid, PE_file = nil_uuid, PE_path = ''a.pdf'', PE_total = 1\<rparr>"

definition blank_class :: "PageClassification option list" where
  "blank_class = [Some (sample_page\<lparr>PC_Classification := ClassEmpty\<rparr>)]"

abbreviation sample_start :: "PageResult list page_run" where
  "sample_start \<equiv> run_start sample_env (\<lambda>_. 0) blank_class None"

definition sample_answer :: page_answer where
  "sample_answer = Inr (ExtractPage sample_tools (extractor_config (PCC_Extraction sample_pdf_config)) 0 0 (page_job sample_env [] 1 ClassEmpty))"

definition sample_end :: "PageResult list page_run" where
  "sample_end =
     set_worker 0 Waiting (record_page sample_env 0 1 ClassEmpty (Some sample_answer)
       (set_worker 0 (Tried 1 ClassEmpty (Some sample_answer)) (sample_start\<lparr>Run_queue := []\<rparr>)))"

lemma sample_start_simps:
  "Run_queue sample_start = [(1, ClassEmpty)]" "Run_workers sample_start = [Waiting]" "\<not> Run_crashed sample_start"
  "\<not> Run_cancelled sample_start"
  by (simp_all add: run_start_def page_work_def sample_env_def sample_pdf_config_def num_workers_def blank_class_def class_at_def
      DefaultPdfCoordinatorConfig_def)

lemma sample_env_simps:
  "PCC_CheckpointInterval (PE_config sample_env) = 10" "PCC_MaxRetries (PE_config sample_env) = 0"
  "PE_answers sample_env = inline_answers {sample_tools} (PE_config sample_env)" "PE_config sample_env = sample_pdf_config"
  by (simp_all add: sample_env_def sample_pdf_config_def DefaultPdfCoordinatorConfig_def)

lemma sample_pdf_run: "process_run sample_env sample_start sample_end"
proof -
  let ?s1 = "set_worker 0 (Took 1 ClassEmpty) sample_start\<lparr>Run_queue := []\<rparr>"
  let ?s2 = "set_worker 0 (Trying 1 ClassEmpty 0) ?s1" let ?s3 = "set_worker 0 (Tried 1 ClassEmpty (Some sample_answer)) ?s2"
  note simps = worker_is_def sample_start_simps sample_env_simps(1,2)
  have "worker_step sample_env sample_start ?s1"
    by (rule step_take) (simp_all add: simps)
  moreover have "worker_step sample_env ?s1 ?s2"
    using step_begin [of 0 1 ClassEmpty ?s1 sample_env] by (simp add: simps)
  moreover have "PE_answers sample_env (page_job sample_env [] 1 ClassEmpty) False sample_answer"
    unfolding sample_answer_def sample_env_simps(3,4) by (rule inline_extracted) simp
  then have "worker_step sample_env ?s2 ?s3"
    using step_attempt [of 0 1 ClassEmpty 0 ?s2 sample_env "[]" sample_answer] by (simp add: simps)
  moreover have "?s3 = set_worker 0 (Tried 1 ClassEmpty (Some sample_answer)) (sample_start\<lparr>Run_queue := []\<rparr>)"
    by (simp add: set_worker_def)
  then have "worker_step sample_env ?s3 sample_end"
    unfolding sample_end_def
    using step_record [of 0 1 ClassEmpty "Some sample_answer" ?s3 sample_env 0] by (simp add: simps)
  ultimately show ?thesis by (meson process_step.step_work rtranclp.rtrancl_into_rtrancl rtranclp.rtrancl_refl)
qed

lemma sample_over: "run_over sample_end"
proof -
  have "Run_workers (sample_start\<lparr>Run_queue := []\<rparr>) = [Waiting]" using sample_start_simps(2) by simp
  then show ?thesis
    by (simp add: run_over_def sample_end_def record_page_def sample_env_simps(1) Let_def add_failure_def)
qed

lemma over_waiting: "run_over s \<Longrightarrow> worker_is w x s \<Longrightarrow> x = Waiting \<and> Run_queue s = []"
  unfolding run_over_def worker_is_def by (metis nth_mem)

lemma sample_stopped: "\<not> (\<exists>s'. worker_step sample_env sample_end s')"
  by (auto elim!: worker_step.cases dest!: over_waiting [OF sample_over])

lemma process_accounts_witness: "Pres_FailedPages (process_result 0 sample_end) = int (length (Pres_Errors (process_result 0 sample_end)))"
  using process_accounts [OF sample_pdf_run sample_over refl, of 0] by blast

lemma stopped_run_is_over_witness: "run_over sample_end"
proof -
  have "\<exists>a. PE_answers sample_env job c a" for job c
    unfolding sample_env_simps(3) by (blast intro: inline_shutdown)
  from stopped_run_is_over [OF sample_pdf_run this sample_stopped] show ?thesis
    by (simp add: sample_env_def sample_pdf_config_def DefaultPdfCoordinatorConfig_def)
qed

lemma blank_pages_fail_witness: "1 \<in> set (map PErr_PageNumber (Pres_Errors (process_result 0 sample_end)))"
  by (rule blank_pages_fail [OF sample_pdf_run sample_over, of "{sample_tools}"])
     (simp_all add: sample_env_def page_work_def blank_class_def class_at_def)

lemma rebuilt_result_counts_witness:
  "case buildResultFromDB sample_store [saved_row 0 nil_uuid nil_uuid (failed_page 1 1 ClassUnknown ''no'' 0)] nil_uuid 1 of
     Ok R \<Rightarrow> map PErr_PageNumber (Pres_Errors R) = [1] | _ \<Rightarrow> False"
  using rebuilt_result_counts [of sample_store "[saved_row 0 nil_uuid nil_uuid (failed_page 1 1 ClassUnknown ''no'' 0)]" nil_uuid _ 1, OF _]
  by (simp add: sample_store_def saved_row_def failed_page_def in_range_def split: outcome.splits)

lemma resume_forgets_errors_witness:
  "case Resume sample_store [(1, Inl ''worker failed'', 0)] nil_uuid (Some [NewPageResult 0 nil_uuid nil_uuid 1 1]) of
     Ok (R, db) \<Rightarrow> Pres_FailedPages R = 0 \<and> Pres_Errors R = [] | _ \<Rightarrow> False"
  by (subst resume_forgets_errors [where row = "NewPageResult 0 nil_uuid nil_uuid 1 1" and rows = "[]" and f = "(nil_uuid, ''a.pdf'')"])
     (simp_all add: sample_store_def buildResultFromDB_def NewPageResult_def add_row_def empty_result_def count_class_def Let_def)

end
