(* ===== verification/Spec2Isabelle.thy ===== *)
theory Spec2Isabelle
  imports Dlp_Shadow Assembler Text_Chunks Auth_Middleware Memory_Cache Sync_Queue Sync_Coordinator Sync_Scheduler Pdf_Coordinator
begin

text \<open>
  A verification library for audimodal, a service in Go that takes in documents of many tenants from
  many sources, extracts and chunks their text, scans it for personal data (DLP), and synchronises
  the sources.  This header says which part of the program which theory models, what the lemmas
  show, and what is left out.  Paths are relative to \<^verbatim>\<open>src/\<close>.

  \<^bold>\<open>The parts and how they interact.\<close>  A file is split into pages; workers extract each page and report
  it on a Kafka topic.  The assembler (\<^verbatim>\<open>cmd/assembler\<close>) counts the page results in the row of the job,
  and when all pages are there it reads their texts from the object store, repairs them
  (\<^verbatim>\<open>pkg/preprocessing\<close>), has the DLP service (\<^verbatim>\<open>pkg/dlp\<close>) scan and redact them when the tenant wants
  it, and stores chunks.  Within a reader, the pages of a long PDF are classified, extracted by a pool of
  workers and reduced to chunks (\<^verbatim>\<open>pkg/readers/pdf/mapreduce\<close>).  The DLP service calls the scanner, the compliance checker and the
  redaction engine; the scanner calls the registry of pattern matchers, and may run behind a shadow
  scanner that compares it with Gatekeeper.  The storage layer caches contents in memory
  (\<^verbatim>\<open>pkg/storage/cache\<close>).  Users log in to tenants at the authentication service (\<^verbatim>\<open>pkg/auth\<close>), and
  its middleware guards the handlers of requests.  In the synchronisation (\<^verbatim>\<open>pkg/sync\<close>) a queue orders jobs by
  priority, the orchestrator admits and executes them and keeps metrics, a scheduler starts them at set
  times, and the coordinator runs one job for each of several sources and has the conflict resolver choose between versions of a file.

  \<^bold>\<open>The language and its library.\<close>  \<^verbatim>\<open>Go_Prelude\<close> (strings, slices, numbers as text, the type \<open>outcome\<close> of
  value, error or panic), \<^verbatim>\<open>Go_Float64\<close> (binary64 rounding on rationals), \<^verbatim>\<open>Go_Utf8\<close>, \<^verbatim>\<open>Go_Regexp\<close> (the
  leftmost-first matcher with its correctness against the matching relation), \<^verbatim>\<open>Go_Sort\<close> (the contract of
  \<^verbatim>\<open>sort.Slice\<close> as a locale, with insertion sort as an instance), \<^verbatim>\<open>Go_Sha256\<close>, \<^verbatim>\<open>Go_Time\<close> (the
  Gregorian calendar with its round trips, for locations of a constant offset), and \<^verbatim>\<open>Go_Heap\<close>
  (\<^verbatim>\<open>container/heap\<close>; the contract of its interface is the locale \<open>heap_order\<close>, inside which \<open>Push\<close> and
  \<open>Remove\<close> are shown to keep the heap and to add and remove the right element).

  \<^bold>\<open>Data loss prevention.\<close>
  \<^item> \<^verbatim>\<open>Dlp_Types\<close>: \<^verbatim>\<open>pkg/dlp/types/types.go\<close>.
  \<^item> \<^verbatim>\<open>Dlp_Patterns\<close>: \<^verbatim>\<open>pkg/dlp/patterns/matchers.go\<close>; matches lie in the content, are apart and pass the
    checks, a formatted social security number is found, the card check detects single errors and swaps.
  \<^item> \<^verbatim>\<open>Dlp_Redaction\<close>: \<^verbatim>\<open>pkg/dlp/scanner/redaction.go\<close>; the loop over slices refines a left-to-right splice
    (\<open>splice\<close>), and masks show at most four digits.
  \<^item> \<^verbatim>\<open>Dlp_Scanner\<close>: \<^verbatim>\<open>pkg/dlp/scanner/basic_scanner.go\<close>; the scan agrees with \<open>reference_findings\<close>, errors
    and risk figures are characterised, and scans of one type can be redacted.
  \<^item> \<^verbatim>\<open>Dlp_Compliance\<close>: \<^verbatim>\<open>pkg/dlp/compliance/checker.go\<close>; the verdict against the table \<open>objects\<close>.
  \<^item> \<^verbatim>\<open>Dlp_Service\<close>: \<^verbatim>\<open>pkg/dlp/service.go\<close>; its error cases, the inputs on which it panics, and the pool of
    goroutines of a batch as a step relation with invariant, progress and a measure.
  \<^item> \<^verbatim>\<open>Dlp_Shadow\<close>: \<^verbatim>\<open>pkg/dlp/shadow/scanner.go\<close>; the shadow changes no result, and its difference is exact.

  \<^bold>\<open>The pipeline.\<close>
  \<^item> \<^verbatim>\<open>Text_Sanitize\<close>: \<^verbatim>\<open>pkg/preprocessing/encoding.go\<close>, the repair of invalid UTF-8.
  \<^item> \<^verbatim>\<open>Job_Models\<close>: the rows and life cycles of \<^verbatim>\<open>internal/database/models\<close> for jobs, pages and sessions.
  \<^item> \<^verbatim>\<open>Assembler\<close>: \<^verbatim>\<open>cmd/assembler/main.go\<close> with the names and transfers of \<^verbatim>\<open>internal/services/s3_uploader.go\<close>
    and the messages of \<^verbatim>\<open>pkg/events/kafka_messages.go\<close>, over maps for the tables and the object store.
  \<^item> \<^verbatim>\<open>Text_Chunks\<close>: \<^verbatim>\<open>pkg/strategies/text/fixed_size.go\<close>; the chunks are the trimmed windows of the loop,
    the windows cover the text, and normalisation is idempotent and keeps everything but white space.
  \<^item> \<^verbatim>\<open>Pdf_Pages\<close>: \<^verbatim>\<open>types.go\<close>, \<^verbatim>\<open>classifier.go\<close>, \<^verbatim>\<open>extractor.go\<close> and \<^verbatim>\<open>reducer.go\<close> of
    \<^verbatim>\<open>pkg/readers/pdf/mapreduce\<close>, over the programs they call as arguments; which pages are recognised, and
    that both reductions give the same text.
  \<^item> \<^verbatim>\<open>Pdf_Pool\<close>: \<^verbatim>\<open>pool.go\<close>; the answers of the pools, and calls and shutdown as steps (\<open>pool_step\<close>) with
    the bound of the slots.
  \<^item> \<^verbatim>\<open>Pdf_Coordinator\<close>: \<^verbatim>\<open>coordinator.go\<close>; the workers of a run as steps (\<open>worker_step\<close>, \<open>process_step\<close>),
    with the accounts of pages, errors and characters as invariant, a measure and progress; resuming from rows.

  \<^bold>\<open>Authentication\<close> (\<^verbatim>\<open>pkg/auth\<close>).
  \<^item> \<^verbatim>\<open>Auth_Types\<close>: \<^verbatim>\<open>types.go\<close>, with the tables of permissions.
  \<^item> \<^verbatim>\<open>Auth_Stores\<close>: \<^verbatim>\<open>memory_store.go\<close>; the locale \<open>user_store\<close> says what the service relies on, and the store in
    memory is its interpretation.
  \<^item> \<^verbatim>\<open>Auth_Tokens\<close>: \<^verbatim>\<open>jwt_manager.go\<close>; what tokens grant, and how long a revocation lasts.
  \<^item> \<^verbatim>\<open>Auth_Service\<close>: every method of \<^verbatim>\<open>service.go\<close>.
  \<^item> \<^verbatim>\<open>Auth_Access\<close>: the guarantees of the service; a login is sound, guesses are limited, and over any sequence
    of operations (\<open>auth_step\<close>) permissions are those of the roles and logins are unique.
  \<^item> \<^verbatim>\<open>Auth_Middleware\<close>: \<^verbatim>\<open>middleware.go\<close>; what a request that passes has shown, and the limit per minute.

  \<^bold>\<open>The cache.\<close>
  \<^item> \<^verbatim>\<open>Lru_List\<close>: the doubly linked list over a heap of nodes; the locale \<open>recency_list\<close> says what its
    client relies on, and the pointer program is its interpretation.
  \<^item> \<^verbatim>\<open>Memory_Cache\<close>: \<^verbatim>\<open>pkg/storage/cache/memory_cache.go\<close>; every operation keeps the books of every shard,
    contents are read back, the least recently used entry goes first, and interleavings never panic.

  \<^bold>\<open>Synchronisation.\<close>
  \<^item> \<^verbatim>\<open>Sync_Dependencies\<close>: \<^verbatim>\<open>pkg/sync/dependency_manager.go\<close>; the search for cycles decides reachability,
    and the topological sort orders every acyclic closed set of jobs.
  \<^item> \<^verbatim>\<open>Sync_Types\<close>: \<^verbatim>\<open>pkg/sync/types.go\<close>, the types the other theories share.
  \<^item> \<^verbatim>\<open>Sync_Queue\<close>: \<^verbatim>\<open>pkg/sync/queue_manager.go\<close>; runs of the manager as a step relation with the books of
    queues and active jobs as invariant, dequeueing, clean-up and retries.
  \<^item> \<^verbatim>\<open>Sync_Conflicts\<close>: \<^verbatim>\<open>conflict_resolver.go\<close> and \<^verbatim>\<open>conflict_strategies.go\<close>, with \<^verbatim>\<open>Go_Path\<close> for
    \<^verbatim>\<open>path/filepath\<close>; what each strategy chooses (the locale \<open>strict_choice\<close>, interpreted for both
    orders), when a resolution succeeds, and that no unresolved conflict is dropped.
  \<^item> \<^verbatim>\<open>Sync_Metrics\<close>: \<^verbatim>\<open>metrics_collector.go\<close>, the counters; rates are percentages of the current counts.
  \<^item> \<^verbatim>\<open>Sync_Orchestrator\<close>: \<^verbatim>\<open>orchestrator.go\<close>; callers, goroutines, cancellations and timeouts as steps
    (\<open>sync_step\<close>), with the limits, the status of jobs, their end, and the counters as invariants of runs.
  \<^item> \<^verbatim>\<open>Sync_Coordinator\<close>: \<^verbatim>\<open>coordinator.go\<close>; the phases of a coordination over the three models above.
  \<^item> \<^verbatim>\<open>Sync_Scheduler\<close>: \<^verbatim>\<open>scheduler.go\<close>; the bound of a throttle, the next run of a schedule against the calendar
    (\<^verbatim>\<open>Go_Time\<close>), and runs of the scheduler with its goroutines (\<open>sched_step\<close>): what a tick queues and how
    the runs are counted.

  \<^bold>\<open>Conventions.\<close>  A Go string is a list of bytes.  A map over which no code ranges is a HOL map; where the
  code ranges over a map, the order is an argument and the theorems hold for every order (one order
  for all ranges of a call).  Clocks, random identifiers, third-party clients and compressors are
  arguments, and what is assumed of them are hypotheses or the assumptions of a locale.  \<open>int\<close> values
  that only count things in memory are HOL integers; hashes are words.  Nothing uses fuel: the
  loops are structural recursions or functions with a termination proof, and a loop over pointers
  is total because the list that it follows is finite.

  \<^bold>\<open>Properties that do not hold.\<close>  Several theorems state defects of the code by an example or a precise
  characterisation: overlapping findings make the service panic, page results are counted twice
  after a redelivery, a retried job of higher priority ends the program, recorded dependencies have
  no jobs, a login gets into foreign tenants, a cancelled job is reported as failed, blank pages count as failed, and others; the text before each of them says what goes wrong.

  \<^bold>\<open>Not modelled.\<close>  The connectors, storage backends and embedding clients are network input and output
  around third-party SDKs.  The other readers rest on format libraries.  The HTTP layer, the other commands, the
  Kubernetes controllers, logging, metrics and tracing are glue.  The stored history of
  jobs and metrics is SQL.  The analysis packages, the tiering of
  storage, events, workflow and the detection of encodings are open.
\<close>

end
